(* ===== verification/Prelude.thy ===== *)
theory Prelude
  imports Main "HOL-Library.Word"
begin

text \<open>
  Shared vocabulary of the development.

  \<^item> machine types: \<open>byte\<close>, \<open>u16\<close>, \<open>u32\<close>, \<open>u64\<close>; a \<open>size_t\<close> is a \<open>nat\<close> whose
    subtraction wraps explicitly (\<open>size_sub\<close>);
  \<^item> \<open>outcome\<close>: what a C++ operation does. \<open>Ret v\<close> is a normal return, \<open>Throw e\<close> an
    exception the source throws, \<open>Fault f\<close> the points where the C++ has no defined
    continuation (a null pointer dereferenced, memory accessed outside an object, signed arithmetic
    out of range, a failed assertion, a loop that never exits), so that a theorem saying an operation returns is also a memory-safety theorem;
  \<^item> list and word lemmas every component uses, and the \<open>named_theorems\<close> collections.
\<close>

named_theorems outcome_simps \<open>equations of the outcome combinators\<close>
named_theorems layout_simps \<open>facts about block lists and byte images\<close>

type_synonym byte = "8 word"
type_synonym u16 = "16 word"
type_synonym u32 = "32 word"
type_synonym u64 = "64 word"

section \<open>Outcomes\<close>

datatype exn = OutOfRange | InvalidArgument | LogicError | BadFunctionCall | LengthError | BadAlloc

datatype fault = NullDeref | OutOfBounds | DivByZero | AssertFail | Diverge | BadShift | SignedOverflow

datatype 'a outcome = Ret 'a | Throw exn | Fault fault

primrec obind :: "'a outcome \<Rightarrow> ('a \<Rightarrow> 'b outcome) \<Rightarrow> 'b outcome" where
  "obind (Ret x) f = f x"
| "obind (Throw e) f = Throw e"
| "obind (Fault x) f = Fault x"

primrec is_Ret :: "'a outcome \<Rightarrow> bool" where
  "is_Ret (Ret x) = True"
| "is_Ret (Throw e) = False"
| "is_Ret (Fault x) = False"

lemma obind_cong [fundef_cong]:
  "m = m' \<Longrightarrow> (\<And>x. m' = Ret x \<Longrightarrow> f x = g x) \<Longrightarrow> obind m f = obind m' g"
  by (cases m') auto

lemma obind_Ret_iff [outcome_simps]:
  "obind m f = Ret y \<longleftrightarrow> (\<exists>x. m = Ret x \<and> f x = Ret y)"
  by (cases m) auto

lemma obind_assoc: "obind (obind m f) g = obind m (\<lambda>x. obind (f x) g)"
  by (cases m) auto

lemma obind_Ret_right [simp]: "obind m Ret = m"
  by (cases m) auto

lemma is_Ret_iff: "is_Ret m \<longleftrightarrow> (\<exists>x. m = Ret x)"
  by (cases m) auto

section \<open>Unsigned subtraction of sizes\<close>

text \<open>\<open>size_t\<close> subtraction: exact when it does not underflow, else wrapped at \<open>2 ^ 64\<close>.\<close>

definition size_sub :: "nat \<Rightarrow> nat \<Rightarrow> nat" where
  "size_sub a b = (if b \<le> a then a - b else 2 ^ 64 + a - b)"

lemma size_sub_le [simp]: "b \<le> a \<Longrightarrow> size_sub a b = a - b"
  by (simp add: size_sub_def)

text \<open>Conversions between \<open>int\<close> and \<open>size_t\<close>, and the wrapping addition.\<close>

definition to_size :: "int \<Rightarrow> nat" where
  "to_size r = unat (word_of_int r :: u64)"

definition to_int :: "nat \<Rightarrow> int" where
  "to_int n = sint (of_nat n :: u32)"

definition size_add :: "nat \<Rightarrow> nat \<Rightarrow> nat" where
  "size_add a b = (a + b) mod 2 ^ 64"

lemma to_size_nonneg: "0 \<le> r \<Longrightarrow> r < 2 ^ 63 \<Longrightarrow> to_size r = nat r"
  by (simp add: to_size_def unsigned_of_int take_bit_int_eq_self nat_take_bit_eq)

lemma to_size_minus_one: "to_size (- 1) = 2 ^ 64 - 1"
  by (simp add: to_size_def unsigned_minus_1_eq_mask mask_eq_exp_minus_1)

lemma to_int_small: "n < 2 ^ 31 \<Longrightarrow> to_int n = int n"
proof -
  assume "n < 2 ^ 31"
  then have "signed_take_bit 31 (int n) = int n" by (intro signed_take_bit_int_eq_self) auto
  then show ?thesis by (simp add: to_int_def signed_of_nat)
qed

section \<open>Overwriting a segment of a list\<close>

text \<open>\<open>blit p src dst\<close> is \<open>memcpy(dst + p, src, |src|)\<close> for a segment inside \<open>dst\<close>.\<close>

definition blit :: "nat \<Rightarrow> 'a list \<Rightarrow> 'a list \<Rightarrow> 'a list" where
  "blit p src dst = take p dst @ src @ drop (p + length src) dst"

lemma length_blit [simp]: "p + length src \<le> length dst \<Longrightarrow> length (blit p src dst) = length dst"
  by (simp add: blit_def)

lemma blit_Nil [simp]: "blit p [] dst = dst"
  by (simp add: blit_def)

lemma blit_append_right:
  "p + length src \<le> length dst \<Longrightarrow> blit p src (dst @ ys) = blit p src dst @ ys"
  by (simp add: blit_def)

lemma blit_append_left:
  "blit (length xs + p) src (xs @ dst) = xs @ blit p src dst"
  by (simp add: blit_def)

lemma blit_append_src:
  assumes "p + length (src1 @ src2) \<le> length dst"
  shows "blit (p + length src1) src2 (blit p src1 dst) = blit p (src1 @ src2) dst"
  using assms by (simp add: blit_def add.assoc) (simp add: add.commute add.left_commute)

lemma take_blit: "p + length src \<le> length dst \<Longrightarrow> take p (blit p src dst) = take p dst"
  by (simp add: blit_def)

lemma drop_blit: "p + length src \<le> length dst \<Longrightarrow> drop p (blit p src dst) = src @ drop (p + length src) dst"
  by (simp add: blit_def)

lemma blit_at_end: "length dst = p + length src \<Longrightarrow> blit p src dst = take p dst @ src"
  by (simp add: blit_def)

lemma take_blit_all:
  "p + length src \<le> length dst \<Longrightarrow> take (p + length src) (blit p src dst) = take p dst @ src"
  by (simp add: blit_def)

section \<open>Lists of equally long blocks\<close>

definition uniform :: "nat \<Rightarrow> 'a list list \<Rightarrow> bool" where
  "uniform b xss \<longleftrightarrow> (\<forall>xs \<in> set xss. length xs = b)"

lemma uniform_simps [simp]:
  "uniform b []"
  "uniform b (xs # xss) \<longleftrightarrow> length xs = b \<and> uniform b xss"
  "uniform b (xss @ yss) \<longleftrightarrow> uniform b xss \<and> uniform b yss"
  by (auto simp: uniform_def)

lemma uniform_nth: "uniform b xss \<Longrightarrow> i < length xss \<Longrightarrow> length (xss ! i) = b"
  by (simp add: uniform_def)

lemma uniform_update: "uniform b xss \<Longrightarrow> length ys = b \<Longrightarrow> uniform b (xss[i := ys])"
  by (auto simp: uniform_def dest: set_update_subset_insert [THEN subsetD])

lemma uniform_take: "uniform b xss \<Longrightarrow> uniform b (take i xss)"
  by (auto simp: uniform_def dest: in_set_takeD)

lemma uniform_drop: "uniform b xss \<Longrightarrow> uniform b (drop i xss)"
  by (auto simp: uniform_def dest: in_set_dropD)

lemma length_concat_uniform [layout_simps]:
  "uniform b xss \<Longrightarrow> length (concat xss) = length xss * b"
  by (induction xss) auto

lemma concat_split:
  assumes "i < length xss"
  shows "concat xss = concat (take i xss) @ xss ! i @ concat (drop (Suc i) xss)"
  by (metis assms concat.simps(2) concat_append id_take_nth_drop)

lemma length_concat_take:
  "uniform b xss \<Longrightarrow> i \<le> length xss \<Longrightarrow> length (concat (take i xss)) = i * b"
  by (subst length_concat_uniform [OF uniform_take]) (auto simp: min_def)

lemma concat_blit:
  assumes u: "uniform b xss" and i: "i < length xss" and n: "n + length src \<le> b"
  shows "concat (xss[i := blit n src (xss ! i)]) = blit (i * b + n) src (concat xss)"
proof -
  have len: "length (xss ! i) = b" using u i by (rule uniform_nth)
  have l: "length (concat (take i xss)) = i * b" using u i by (simp add: length_concat_take)
  have "concat (xss[i := blit n src (xss ! i)])
      = concat (take i xss) @ blit n src (xss ! i) @ concat (drop (Suc i) xss)"
    using i by (simp add: upd_conv_take_nth_drop)
  also have "\<dots> = concat (take i xss) @ blit n src (xss ! i @ concat (drop (Suc i) xss))"
    using n len by (simp add: blit_append_right)
  also have "\<dots> = blit (length (concat (take i xss)) + n) src
      (concat (take i xss) @ xss ! i @ concat (drop (Suc i) xss))"
    by (rule blit_append_left [symmetric])
  also have "\<dots> = blit (i * b + n) src (concat xss)"
    using i l by (simp add: concat_split [symmetric])
  finally show ?thesis .
qed

lemma concat_segment:
  assumes u: "uniform b xss" and i: "i < length xss" and n: "n + m \<le> b"
  shows "take m (drop (i * b + n) (concat xss)) = take m (drop n (xss ! i))"
proof -
  have len: "length (xss ! i) = b" using u i by (rule uniform_nth)
  have l: "length (concat (take i xss)) = i * b" using u i by (simp add: length_concat_take)
  have "drop (i * b + n) (concat xss) = drop n (xss ! i @ concat (drop (Suc i) xss))"
    by (subst concat_split [OF i]) (simp add: l)
  then show ?thesis using n len by simp
qed

section \<open>Positions inside equally long blocks\<close>

lemma block_index_less:
  "0 < b \<Longrightarrow> p < k * b \<Longrightarrow> p div b < (k::nat)"
  by (simp add: less_mult_imp_div_less)

lemma block_bound:
  fixes i j b :: nat
  assumes "i < j"
  shows "i * b + b \<le> j * b"
proof -
  from assms have "Suc i * b \<le> j * b" by (intro mult_le_mono1) simp
  then show ?thesis by simp
qed

lemma block_end:
  fixes p b :: nat
  assumes "0 < b"
  shows "p + (b - p mod b) = Suc (p div b) * b"
proof -
  have "p = p div b * b + p mod b" by simp
  moreover have "p mod b < b" using assms by simp
  ultimately show ?thesis unfolding mult_Suc by linarith
qed

text \<open>How many blocks hold \<open>s\<close> bytes when the last one is only added above a threshold \<open>r\<close>.\<close>

lemma blocks_suffice:
  fixes s b r :: nat
  assumes "0 < b"
  shows "s \<le> (s div b + (if s mod b > r then 1 else 0)) * b \<longleftrightarrow> s mod b = 0 \<or> s mod b > r"
proof -
  define q m where "q = s div b * b" and "m = s mod b"
  have s: "s = q + m" by (simp add: q_def m_def)
  have m: "m < b" using assms by (simp add: m_def)
  have "(s div b + (if m > r then 1 else 0)) * b = q + (if m > r then b else 0)"
    by (simp add: q_def add_mult_distrib)
  then show ?thesis using s m unfolding m_def [symmetric] by auto
qed


section \<open>Strings cut out of a buffer\<close>

text \<open>\<open>std::string(buffer + at, n)\<close>: a length that no string can have throws, memory outside the buffer is a fault.\<close>

definition cpp_string :: "string \<Rightarrow> nat \<Rightarrow> nat \<Rightarrow> string outcome" where
  "cpp_string buf at n =
     (if n \<ge> 2 ^ 63 then Throw LengthError
      else if at + n \<le> length buf then Ret (take n (drop at buf))
      else Fault OutOfBounds)"

text \<open>A \<open>char\<close> as the signed number it is.\<close>

definition signed_char :: "char \<Rightarrow> int" where
  "signed_char c = (let n = of_char c in if n < 128 then n else n - 256)"

section \<open>Numbers as text\<close>

text \<open>What \<open>operator<<\<close> and \<open>std::to_string\<close> print for a non-negative number, in base 10 or 16.\<close>

definition digit_char :: "nat \<Rightarrow> char" where
  "digit_char d = (if d < 10 then char_of (48 + d) else char_of (87 + d))"

function digits :: "nat \<Rightarrow> nat \<Rightarrow> string" where
  "digits base n =
     (if base < 2 \<or> n < base then [digit_char n]
      else digits base (n div base) @ [digit_char (n mod base)])"
  by pat_completeness auto
termination
  by (relation "measure snd") auto

declare digits.simps [simp del]

definition dec_string :: "nat \<Rightarrow> string" where
  "dec_string n = digits 10 n"

definition hex_string :: "nat \<Rightarrow> string" where
  "hex_string n = digits 16 n"

definition char_digit :: "char \<Rightarrow> nat" where
  "char_digit c = of_char c - 48"

definition digits_value :: "string \<Rightarrow> nat" where
  "digits_value s = foldl (\<lambda>n c. 10 * n + char_digit c) 0 s"

lemma char_digit_digit_char: "d < 10 \<Longrightarrow> char_digit (digit_char d) = d"
  by (simp add: char_digit_def digit_char_def)

lemma digits_value_dec_string [simp]: "digits_value (dec_string n) = n"
proof -
  have "foldl (\<lambda>n c. 10 * n + char_digit c) 0 (digits 10 n) = n"
  proof (induction "10 :: nat" n rule: digits.induct)
    case (1 n)
    show ?case
    proof (cases "n < 10")
      case True
      then show ?thesis by (simp add: digits.simps [of 10 n] char_digit_digit_char)
    next
      case False
      then show ?thesis using 1 by (simp add: digits.simps [of 10 n] char_digit_digit_char)
    qed
  qed
  then show ?thesis by (simp add: digits_value_def dec_string_def)
qed

lemma dec_string_inject: "dec_string m = dec_string n \<Longrightarrow> m = n"
  by (metis digits_value_dec_string)

lemma digits_ne: "digits base n \<noteq> []"
  by (simp add: digits.simps [of base n])

text \<open>Reading a hexadecimal number with lower case letters.\<close>

definition hex_digit :: "char \<Rightarrow> nat" where
  "hex_digit c = (if of_char c < (58 :: nat) then of_char c - 48 else of_char c - 87)"

definition hex_value :: "string \<Rightarrow> nat" where
  "hex_value s = foldl (\<lambda>n c. 16 * n + hex_digit c) 0 s"

lemma of_char_digit_char: "d < 16 \<Longrightarrow> of_char (digit_char d) = (if d < 10 then 48 + d else 87 + d)"
  by (simp add: digit_char_def)

lemma hex_value_hex_string [simp]: "hex_value (hex_string n) = n"
proof -
  have "foldl (\<lambda>n c. 16 * n + hex_digit c) 0 (digits 16 n) = n"
  proof (induction "16 :: nat" n rule: digits.induct)
    case (1 n)
    have d: "m < 16 \<Longrightarrow> hex_digit (digit_char m) = m" for m
      by (simp add: hex_digit_def of_char_digit_char)
    show ?case
    proof (cases "n < 16")
      case True
      then show ?thesis by (simp add: digits.simps [of 16 n] d)
    next
      case False
      then show ?thesis using 1 by (simp add: digits.simps [of 16 n] d)
    qed
  qed
  then show ?thesis by (simp add: hex_value_def hex_string_def)
qed

lemma digits_chars: "2 \<le> base \<Longrightarrow> base \<le> 16 \<Longrightarrow> \<forall>c \<in> set (digits base n). of_char c \<in> ({48..57} \<union> {97..102} :: nat set)"
proof (induction base n rule: digits.induct)
  case (1 base n)
  have d: "m < 16 \<Longrightarrow> of_char (digit_char m) \<in> ({48..57} \<union> {97..102} :: nat set)" for m
    by (auto simp: of_char_digit_char)
  show ?case
  proof (cases "base < 2 \<or> n < base")
    case True
    then show ?thesis using 1 d [of n] by (subst digits.simps) auto
  next
    case False
    then have "n mod base < base" by simp
    then have "n mod base < 16" using 1(3) by linarith
    then show ?thesis using 1 False d [of "n mod base"] by (subst digits.simps) auto
  qed
qed

end
