(* ===== verification/Endian.thy ===== *)
theory Endian
  imports Prelude
begin

unbundle bit_operations_syntax

text \<open>
  \<open>radixun/common/endian.h\<close>: the byte order constants, \<open>byteswap\<close> for the 2, 4 and 8 byte types (one
  generic definition, as the header has one template per size) and the two conditional swaps.
  \<open>RADIXUN_BYTE_ORDER\<close>, which the preprocessor takes from the compiler's \<open>BYTE_ORDER\<close>, is the argument
  \<open>host\<close>; it is also the order in which the machine lays out a word in memory (\<open>host_bytes\<close>).
  \<open>wire_bytes\<close> is the machine-independent byte image of a value in a given order.
\<close>

definition RADIXUN_LITTLE_ENDIAN :: nat where "RADIXUN_LITTLE_ENDIAN = 1"
definition RADIXUN_BIG_ENDIAN :: nat where "RADIXUN_BIG_ENDIAN = 2"

definition is_order :: "nat \<Rightarrow> bool" where
  "is_order e \<longleftrightarrow> e = RADIXUN_LITTLE_ENDIAN \<or> e = RADIXUN_BIG_ENDIAN"

section \<open>Byte images of words\<close>

definition le_bytes :: "'a::len word \<Rightarrow> byte list" where
  "le_bytes w = map (\<lambda>i. ucast (drop_bit (8 * i) w)) [0..<LENGTH('a) div 8]"

primrec of_le_bytes :: "byte list \<Rightarrow> 'a::len word" where
  "of_le_bytes [] = 0"
| "of_le_bytes (b # bs) = ucast b OR push_bit 8 (of_le_bytes bs)"

definition byteswap :: "'a::len word \<Rightarrow> 'a word" where
  "byteswap w = of_le_bytes (rev (le_bytes w))"

definition byteswapOnLittleEndian :: "nat \<Rightarrow> 'a::len word \<Rightarrow> 'a word" where
  "byteswapOnLittleEndian host t = (if host = RADIXUN_BIG_ENDIAN then t else byteswap t)"

definition byteswapOnBigEndian :: "nat \<Rightarrow> 'a::len word \<Rightarrow> 'a word" where
  "byteswapOnBigEndian host t = (if host = RADIXUN_BIG_ENDIAN then byteswap t else t)"

definition host_bytes :: "nat \<Rightarrow> 'a::len word \<Rightarrow> byte list" where
  "host_bytes host w = (if host = RADIXUN_LITTLE_ENDIAN then le_bytes w else rev (le_bytes w))"

definition host_word :: "nat \<Rightarrow> byte list \<Rightarrow> 'a::len word" where
  "host_word host bs = (if host = RADIXUN_LITTLE_ENDIAN then of_le_bytes bs else of_le_bytes (rev bs))"

definition wire_bytes :: "nat \<Rightarrow> 'a::len word \<Rightarrow> byte list" where
  "wire_bytes e w = (if e = RADIXUN_LITTLE_ENDIAN then le_bytes w else rev (le_bytes w))"

section \<open>Images and words determine each other\<close>

lemma length_le_bytes [simp]: "length (le_bytes (w :: 'a::len word)) = LENGTH('a) div 8"
  by (simp add: le_bytes_def)

lemma length_wire_bytes [simp]: "length (wire_bytes e (w :: 'a::len word)) = LENGTH('a) div 8"
  by (simp add: wire_bytes_def)

lemma bit_of_le_bytes:
  "bit (of_le_bytes bs :: 'a::len word) k \<longleftrightarrow>
     k < LENGTH('a) \<and> k div 8 < length bs \<and> bit (bs ! (k div 8)) (k mod 8)"
proof (induction bs arbitrary: k)
  case Nil
  then show ?case by simp
next
  case (Cons b bs)
  show ?case
  proof (cases "k < 8")
    case True
    then show ?thesis by (auto simp: bit_simps)
  next
    case False
    then have k: "k = Suc 7 + (k - 8)" by simp
    have "k div 8 = Suc ((k - 8) div 8)" "k mod 8 = (k - 8) mod 8"
      using False by (simp_all add: le_div_geq le_mod_geq)
    then show ?thesis using False Cons.IH [of "k - 8"] by (auto simp: bit_simps dest: bit_imp_le_length)
  qed
qed

lemma bit_le_bytes:
  "i < LENGTH('a) div 8 \<Longrightarrow> bit (le_bytes (w :: 'a::len word) ! i) j \<longleftrightarrow> j < 8 \<and> bit w (8 * i + j)"
  by (auto simp: le_bytes_def bit_simps)

lemma of_le_le_bytes:
  fixes w :: "'a::len word"
  assumes "8 dvd LENGTH('a)"
  shows "of_le_bytes (le_bytes w) = w"
proof (rule bit_word_eqI)
  fix k assume k: "k < LENGTH('a)"
  have "k div 8 < LENGTH('a) div 8" using k assms by (auto elim!: dvdE)
  then show "bit (of_le_bytes (le_bytes w) :: 'a word) k = bit w k"
    using k by (simp add: bit_of_le_bytes bit_le_bytes)
qed

lemma le_of_le_bytes:
  assumes "8 * length bs = LENGTH('a)"
  shows "le_bytes (of_le_bytes bs :: 'a::len word) = bs"
proof (rule nth_equalityI)
  show l: "length (le_bytes (of_le_bytes bs :: 'a word)) = length bs" using assms [symmetric] by simp
  fix i assume i: "i < length (le_bytes (of_le_bytes bs :: 'a word))"
  then have i8: "i < LENGTH('a) div 8" by simp
  show "le_bytes (of_le_bytes bs :: 'a word) ! i = bs ! i"
  proof (rule bit_word_eqI)
    fix j assume "j < LENGTH(8)"
    then have j: "j < 8" by simp
    have "8 * i + j < LENGTH('a)" using i l j assms by simp
    then show "bit (le_bytes (of_le_bytes bs :: 'a word) ! i) j = bit (bs ! i) j"
      using i l j by (simp add: bit_le_bytes [OF i8] bit_of_le_bytes)
  qed
qed

lemma le_bytes_byteswap:
  "8 dvd LENGTH('a) \<Longrightarrow> le_bytes (byteswap (w :: 'a::len word)) = rev (le_bytes w)"
  by (simp add: byteswap_def le_of_le_bytes)

lemma byteswap_byteswap: "8 dvd LENGTH('a) \<Longrightarrow> byteswap (byteswap (w :: 'a::len word)) = w"
  by (subst (1) byteswap_def) (simp add: le_bytes_byteswap of_le_le_bytes)

lemma byteswapOnLittleEndian_inverse:
  "8 dvd LENGTH('a) \<Longrightarrow> byteswapOnLittleEndian h (byteswapOnLittleEndian h (w :: 'a::len word)) = w"
  by (simp add: byteswapOnLittleEndian_def byteswap_byteswap)

text \<open>Swapping when the orders differ makes the memory image the wire image, on either machine.\<close>

lemma host_bytes_wire:
  fixes w :: "'a::len word"
  assumes "8 dvd LENGTH('a)" "is_order e" "is_order host"
  shows "host_bytes host (if e \<noteq> host then byteswap w else w) = wire_bytes e w"
  using assms by (auto simp: is_order_def host_bytes_def wire_bytes_def le_bytes_byteswap
      RADIXUN_LITTLE_ENDIAN_def RADIXUN_BIG_ENDIAN_def)

lemma host_word_wire:
  fixes w :: "'a::len word"
  assumes "8 dvd LENGTH('a)" "is_order e" "is_order host"
  shows "(let v = host_word host (wire_bytes e w) in if e = host then v else byteswap v) = w"
  using assms by (auto simp: is_order_def host_word_def wire_bytes_def of_le_le_bytes byteswap_byteswap
      byteswap_def [symmetric] RADIXUN_LITTLE_ENDIAN_def RADIXUN_BIG_ENDIAN_def)

text \<open>\<open>byteswapOnLittleEndian\<close> gives network order: the memory image is big endian on either machine.\<close>

lemma byteswapOnLittleEndian_network:
  fixes w :: "'a::len word"
  assumes "8 dvd LENGTH('a)" "is_order host"
  shows "host_bytes host (byteswapOnLittleEndian host w) = wire_bytes RADIXUN_BIG_ENDIAN w"
  using assms by (auto simp: is_order_def byteswapOnLittleEndian_def host_bytes_def wire_bytes_def
      le_bytes_byteswap RADIXUN_LITTLE_ENDIAN_def RADIXUN_BIG_ENDIAN_def)

section \<open>Bits of a swapped word\<close>

definition swap_index :: "nat \<Rightarrow> nat \<Rightarrow> nat" where
  "swap_index n k = 8 * (n - Suc (k div 8)) + k mod 8"

lemma bit_byteswap:
  fixes w :: "'a::len word"
  assumes "8 dvd LENGTH('a)"
  shows "bit (byteswap w) k \<longleftrightarrow> k < LENGTH('a) \<and> bit w (swap_index (LENGTH('a) div 8) k)"
proof (cases "k < LENGTH('a)")
  case True
  then have "k div 8 < LENGTH('a) div 8" using assms by (auto elim!: dvdE)
  then show ?thesis using True
    by (simp add: byteswap_def bit_of_le_bytes rev_nth bit_le_bytes swap_index_def)
next
  case False
  then show ?thesis by (simp add: byteswap_def bit_of_le_bytes)
qed

lemma swap_index_involution: "k < 8 * n \<Longrightarrow> swap_index n (swap_index n k) = k"
proof -
  assume "k < 8 * n"
  then have "k div 8 < n" by linarith
  then have "n - Suc (n - Suc (k div 8)) = k div 8" by simp
  then show ?thesis by (simp add: swap_index_def)
qed

lemma swap_index_less: "k < 8 * n \<Longrightarrow> swap_index n k < 8 * n"
proof -
  assume "k < 8 * n"
  then have "n - Suc (k div 8) < n" "k mod 8 < 8" by simp_all
  then show ?thesis unfolding swap_index_def by linarith
qed

lemma byteswap_bitwise:
  fixes v w :: "'a::len word"
  assumes "8 dvd LENGTH('a)"
  shows "byteswap (v OR w) = byteswap v OR byteswap w"
    and "byteswap (v AND w) = byteswap v AND byteswap w"
    and "byteswap (NOT w) = NOT (byteswap w)"
proof -
  have l: "k < LENGTH('a) \<Longrightarrow> swap_index (LENGTH('a) div 8) k < LENGTH('a)" for k
    using assms swap_index_less [of k "LENGTH('a) div 8"] by simp
  show "byteswap (v OR w) = byteswap v OR byteswap w"
    by (rule bit_word_eqI) (auto simp: bit_byteswap [OF assms] bit_or_iff)
  show "byteswap (v AND w) = byteswap v AND byteswap w"
    by (rule bit_word_eqI) (auto simp: bit_byteswap [OF assms] bit_and_iff)
  show "byteswap (NOT w) = NOT (byteswap w)"
    by (rule bit_word_eqI) (auto simp: bit_byteswap [OF assms] bit_not_iff l)
qed

lemma byteswapOnLittleEndian_bitwise:
  fixes v w :: "'a::len word"
  assumes "8 dvd LENGTH('a)"
  shows "byteswapOnLittleEndian h (v OR w) = byteswapOnLittleEndian h v OR byteswapOnLittleEndian h w"
    and "byteswapOnLittleEndian h (v AND w) = byteswapOnLittleEndian h v AND byteswapOnLittleEndian h w"
    and "byteswapOnLittleEndian h (NOT w) = NOT (byteswapOnLittleEndian h w)"
  by (simp_all add: byteswapOnLittleEndian_def byteswap_bitwise [OF assms])

lemma card_bits_byteswap:
  fixes w :: "'a::len word"
  assumes "8 dvd LENGTH('a)"
  shows "card {k. bit (byteswap w) k} = card {k. bit w k}"
proof -
  let ?f = "swap_index (LENGTH('a) div 8)"
  have inv: "k < LENGTH('a) \<Longrightarrow> ?f (?f k) = k" for k
    using assms by (intro swap_index_involution) simp
  have less: "k < LENGTH('a) \<Longrightarrow> ?f k < LENGTH('a)" for k
    using assms swap_index_less [of k "LENGTH('a) div 8"] by simp
  have inv': "bit w k \<Longrightarrow> ?f (?f k) = k" for k
    by (rule inv) (rule bit_imp_le_length)
  have "bij_betw ?f {k. bit (byteswap w) k} {k. bit w k}"
    by (rule bij_betw_byWitness [where f' = ?f])
      (auto simp: bit_byteswap [OF assms] inv inv' less dest: bit_imp_le_length)
  then show ?thesis by (rule bij_betw_same_card)
qed

end
