(* ===== verification/ByteArray.thy ===== *)
theory ByteArray
  imports Endian
begin

unbundle bit_operations_syntax

text \<open>
  The block list of \<open>radixun/common/bytearray.{h,cpp}\<close>: the state of \<open>ByteArray\<close>, the capacity and
  cursor arithmetic, raw reads and writes, the iovec views and the file loops.

  \<^item> \<open>ba_root\<close> is the singly linked list of \<open>Node\<close>s from \<open>m_root\<close> on, each the contents of its
    memory block; \<open>ba_cur\<close> is \<open>m_cur\<close> as an index into it, \<open>None\<close> the null pointer;
  \<^item> \<open>ba_fresh\<close> gives the bytes that \<open>new char[s]\<close> happens to hold (the C++ leaves them
    uninitialised), by absolute position: every theorem is for an arbitrary \<open>ba_fresh\<close>;
  \<^item> a dereference of a null \<open>m_cur\<close>, a copy that leaves its block and a division by
    \<open>m_baseSize = 0\<close> are \<open>Fault\<close>s; \<open>std::out_of_range\<close> is \<open>Throw OutOfRange\<close>.

  The abstract view is one flat byte sequence: \<open>ba_flat\<close> is the whole memory, \<open>ba_unread\<close> the bytes
  between \<open>m_position\<close> and \<open>m_size\<close>.
\<close>

record byte_array =
  ba_baseSize :: nat
  ba_position :: nat
  ba_capacity :: nat
  ba_size :: nat
  ba_endian :: nat
  ba_root :: "byte list list"
  ba_cur :: "nat option"
  ba_fresh :: "nat \<Rightarrow> byte"

section \<open>Construction, cursor and capacity\<close>

text \<open>\<open>new Node(s)\<close> as the \<open>k\<close>-th node of the list.\<close>

definition new_Node :: "(nat \<Rightarrow> byte) \<Rightarrow> nat \<Rightarrow> nat \<Rightarrow> byte list" where
  "new_Node fresh k s = map (\<lambda>j. fresh (k * s + j)) [0..<s]"

definition ByteArray_new :: "(nat \<Rightarrow> byte) \<Rightarrow> nat \<Rightarrow> byte_array" where
  "ByteArray_new fresh base_size =
     \<lparr>ba_baseSize = base_size, ba_position = 0, ba_capacity = base_size, ba_size = 0,
      ba_endian = RADIXUN_BIG_ENDIAN, ba_root = [new_Node fresh 0 base_size],
      ba_cur = Some 0, ba_fresh = fresh\<rparr>"

definition isLittleEndian :: "byte_array \<Rightarrow> bool" where
  "isLittleEndian ba \<longleftrightarrow> ba_endian ba = RADIXUN_LITTLE_ENDIAN"

definition setIsLittleEndian :: "byte_array \<Rightarrow> bool \<Rightarrow> byte_array" where
  "setIsLittleEndian ba v =
     (if v then ba\<lparr>ba_endian := RADIXUN_LITTLE_ENDIAN\<rparr>
      else ba\<lparr>ba_endian := RADIXUN_BIG_ENDIAN\<rparr>)"

definition getReadSize :: "byte_array \<Rightarrow> nat" where
  "getReadSize ba = size_sub (ba_size ba) (ba_position ba)"

definition getCapacity :: "byte_array \<Rightarrow> nat" where
  "getCapacity ba = size_sub (ba_capacity ba) (ba_position ba)"

text \<open>\<open>node->size\<close> of the \<open>i\<close>-th node and \<open>node->next\<close> as an index.\<close>

definition node_size :: "byte_array \<Rightarrow> nat \<Rightarrow> nat" where
  "node_size ba i = length (ba_root ba ! i)"

definition next_node :: "byte_array \<Rightarrow> nat \<Rightarrow> nat option" where
  "next_node ba i = (if Suc i < length (ba_root ba) then Some (Suc i) else None)"

text \<open>
  \<open>addCapacity\<close>: walk to the tail, append \<open>count\<close> nodes; \<open>first\<close> is the first new node, null when
  none was added.
\<close>

definition addCapacity :: "byte_array \<Rightarrow> nat \<Rightarrow> byte_array outcome" where
  "addCapacity ba sz =
     (if sz = 0 then Ret ba
      else let old_cap = getCapacity ba in
        if sz \<le> old_cap then Ret ba
        else if ba_baseSize ba = 0 then Fault DivByZero
        else let size' = sz - old_cap;
                 base = ba_baseSize ba;
                 count = size' div base + (if size' mod base > old_cap then 1 else 0);
                 n = length (ba_root ba);
                 first = (if count > 0 then Some n else None);
                 ba1 = ba\<lparr>ba_root := ba_root ba @ map (\<lambda>k. new_Node (ba_fresh ba) k base) [n..<n + count],
                          ba_capacity := ba_capacity ba + count * base\<rparr>
             in Ret (if old_cap = 0 then ba1\<lparr>ba_cur := first\<rparr> else ba1))"

text \<open>\<open>memcpy(node->ptr + npos, src, |src|)\<close>, refused when it leaves the node's memory.\<close>

definition node_write :: "byte_array \<Rightarrow> nat \<Rightarrow> nat \<Rightarrow> byte list \<Rightarrow> byte_array outcome" where
  "node_write ba i npos src =
     (if npos + length src \<le> node_size ba i
      then Ret (ba\<lparr>ba_root := (ba_root ba)[i := blit npos src (ba_root ba ! i)]\<rparr>)
      else Fault OutOfBounds)"

definition node_read :: "byte_array \<Rightarrow> nat \<Rightarrow> nat \<Rightarrow> nat \<Rightarrow> byte list outcome" where
  "node_read ba i npos n =
     (if npos + n \<le> node_size ba i then Ret (take n (drop npos (ba_root ba ! i)))
      else Fault OutOfBounds)"

section \<open>Raw writes and reads\<close>

text \<open>
  The loop of \<open>write\<close>: \<open>buf\<close> is what is left of the source (\<open>size\<close> bytes from \<open>buf + bpos\<close>). It
  ends because every iteration but the last leaves a node behind.
\<close>

definition nodes_ahead :: "byte_array \<Rightarrow> nat" where
  "nodes_ahead ba = (case ba_cur ba of None \<Rightarrow> 0 | Some i \<Rightarrow> length (ba_root ba) - i)"

lemma node_write_frame:
  assumes "node_write ba i npos src = Ret ba1"
  shows "length (ba_root ba1) = length (ba_root ba) \<and> ba_cur ba1 = ba_cur ba"
  using assms by (auto simp: node_write_def split: if_splits)

function write_loop :: "byte_array \<Rightarrow> byte list \<Rightarrow> nat \<Rightarrow> nat \<Rightarrow> byte_array outcome" where
  "write_loop ba buf npos ncap =
     (if buf = [] then Ret ba
      else case ba_cur ba of
        None \<Rightarrow> Fault NullDeref
      | Some i \<Rightarrow>
          if length buf \<le> ncap then
            obind (node_write ba i npos buf) (\<lambda>ba1.
              let ba2 = (if node_size ba i = npos + length buf
                         then ba1\<lparr>ba_cur := next_node ba1 i\<rparr> else ba1)
              in Ret (ba2\<lparr>ba_position := ba_position ba2 + length buf\<rparr>))
          else
            obind (node_write ba i npos (take ncap buf)) (\<lambda>ba1.
              let ba2 = ba1\<lparr>ba_position := ba_position ba1 + ncap, ba_cur := next_node ba1 i\<rparr>
              in (case next_node ba1 i of
                    None \<Rightarrow> Fault NullDeref
                  | Some j \<Rightarrow> write_loop ba2 (drop ncap buf) 0 (node_size ba2 j))))"
  by pat_completeness auto
termination
  by (relation "measure (\<lambda>(ba, buf, npos, ncap). nodes_ahead ba)")
     (auto simp: nodes_ahead_def next_node_def dest!: node_write_frame split: if_splits)

declare write_loop.simps [simp del]

definition ba_write :: "byte_array \<Rightarrow> byte list \<Rightarrow> byte_array outcome" where
  "ba_write ba buf =
     (if buf = [] then Ret ba
      else obind (addCapacity ba (length buf)) (\<lambda>ba1.
        if ba_baseSize ba1 = 0 then Fault DivByZero
        else let npos = ba_position ba1 mod ba_baseSize ba1 in
          (case ba_cur ba1 of
             None \<Rightarrow> Fault NullDeref
           | Some i \<Rightarrow>
               let ncap = size_sub (node_size ba1 i) npos in
               obind (write_loop ba1 buf npos ncap) (\<lambda>ba2.
                 Ret (if ba_position ba2 > ba_size ba2
                      then ba2\<lparr>ba_size := ba_position ba2\<rparr> else ba2)))))"

text \<open>The loop of the position-changing \<open>read\<close>; \<open>acc\<close> is the part of \<open>buf\<close> already filled.\<close>

function read_loop :: "byte_array \<Rightarrow> nat \<Rightarrow> nat \<Rightarrow> nat \<Rightarrow> byte list
    \<Rightarrow> (byte list \<times> byte_array) outcome" where
  "read_loop ba sz npos ncap acc =
     (if sz = 0 then Ret (acc, ba)
      else case ba_cur ba of
        None \<Rightarrow> Fault NullDeref
      | Some i \<Rightarrow>
          if sz \<le> ncap then
            obind (node_read ba i npos sz) (\<lambda>bs.
              let ba1 = (if node_size ba i = npos + sz then ba\<lparr>ba_cur := next_node ba i\<rparr> else ba)
              in Ret (acc @ bs, ba1\<lparr>ba_position := ba_position ba1 + sz\<rparr>))
          else
            obind (node_read ba i npos ncap) (\<lambda>bs.
              let ba1 = ba\<lparr>ba_position := ba_position ba + ncap, ba_cur := next_node ba i\<rparr>
              in (case next_node ba i of
                    None \<Rightarrow> Fault NullDeref
                  | Some j \<Rightarrow> read_loop ba1 (sz - ncap) 0 (node_size ba1 j) (acc @ bs))))"
  by pat_completeness auto
termination
  by (relation "measure (\<lambda>(ba, sz, npos, ncap, acc). nodes_ahead ba)")
     (auto simp: nodes_ahead_def next_node_def split: if_splits)

declare read_loop.simps [simp del]

definition ba_read :: "byte_array \<Rightarrow> nat \<Rightarrow> (byte list \<times> byte_array) outcome" where
  "ba_read ba sz =
     (if sz > getReadSize ba then Throw OutOfRange
      else if ba_baseSize ba = 0 then Fault DivByZero
      else let npos = ba_position ba mod ba_baseSize ba in
        (case ba_cur ba of
           None \<Rightarrow> Fault NullDeref
         | Some i \<Rightarrow> read_loop ba sz npos (size_sub (node_size ba i) npos) []))"

text \<open>
  The const \<open>read\<close> at an explicit position. It starts from the current node \<open>m_cur\<close>, whatever the
  position is. \<open>node_walk_read\<close> is its loop over the local \<open>cur\<close>.
\<close>

function node_walk_read :: "byte_array \<Rightarrow> nat option \<Rightarrow> nat \<Rightarrow> nat \<Rightarrow> nat \<Rightarrow> byte list
    \<Rightarrow> byte list outcome" where
  "node_walk_read ba cur sz npos ncap acc =
     (if sz = 0 then Ret acc
      else case cur of
        None \<Rightarrow> Fault NullDeref
      | Some i \<Rightarrow>
          if sz \<le> ncap then
            obind (node_read ba i npos sz) (\<lambda>bs. Ret (acc @ bs))
          else
            obind (node_read ba i npos ncap) (\<lambda>bs.
              case next_node ba i of
                None \<Rightarrow> Fault NullDeref
              | Some j \<Rightarrow> node_walk_read ba (Some j) (sz - ncap) 0 (node_size ba j) (acc @ bs)))"
  by pat_completeness auto
termination
  by (relation "measure (\<lambda>(ba, cur, sz, npos, ncap, acc).
       case cur of None \<Rightarrow> 0 | Some i \<Rightarrow> length (ba_root ba) - i)")
     (auto simp: next_node_def split: if_splits)

declare node_walk_read.simps [simp del]

definition ba_read_at :: "byte_array \<Rightarrow> nat \<Rightarrow> nat \<Rightarrow> byte list outcome" where
  "ba_read_at ba sz pos =
     (if sz > size_sub (ba_size ba) pos then Throw OutOfRange
      else if ba_baseSize ba = 0 then Fault DivByZero
      else let npos = pos mod ba_baseSize ba in
        (case ba_cur ba of
           None \<Rightarrow> Fault NullDeref
         | Some i \<Rightarrow> node_walk_read ba (Some i) sz npos (size_sub (node_size ba i) npos) []))"

text \<open>\<open>clear\<close> frees every node but the first; \<open>m_endian\<close> and the base size stay.\<close>

definition ba_clear :: "byte_array \<Rightarrow> byte_array" where
  "ba_clear ba = ba\<lparr>ba_position := 0, ba_size := 0, ba_capacity := ba_baseSize ba,
     ba_root := take 1 (ba_root ba), ba_cur := Some 0\<rparr>"

text \<open>\<open>setPosition\<close> walks from the root; \<open>seek\<close> is its loop and the final step to the next node.\<close>

function seek :: "byte_array \<Rightarrow> nat option \<Rightarrow> nat \<Rightarrow> nat option outcome" where
  "seek ba cur v =
     (case cur of
        None \<Rightarrow> Fault NullDeref
      | Some i \<Rightarrow>
          if v > node_size ba i then
            (case next_node ba i of
               None \<Rightarrow> Fault NullDeref
             | Some j \<Rightarrow> seek ba (Some j) (v - node_size ba i))
          else Ret (if v = node_size ba i then next_node ba i else Some i))"
  by pat_completeness auto
termination
  by (relation "measure (\<lambda>(ba, cur, v). case cur of None \<Rightarrow> 0 | Some i \<Rightarrow> length (ba_root ba) - i)")
     (auto simp: next_node_def split: if_splits)

declare seek.simps [simp del]

definition setPosition :: "byte_array \<Rightarrow> nat \<Rightarrow> byte_array outcome" where
  "setPosition ba v =
     (if v > ba_capacity ba then Throw OutOfRange
      else let ba1 = ba\<lparr>ba_position := v\<rparr>;
               ba2 = (if v > ba_size ba1 then ba1\<lparr>ba_size := v\<rparr> else ba1)
           in obind (seek ba2 (Some 0) v) (\<lambda>c. Ret (ba2\<lparr>ba_cur := c\<rparr>)))"

section \<open>The representation invariant\<close>

definition ba_flat :: "byte_array \<Rightarrow> byte list" where
  "ba_flat ba = concat (ba_root ba)"

definition ba_unread :: "byte_array \<Rightarrow> byte list" where
  "ba_unread ba = take (ba_size ba - ba_position ba) (drop (ba_position ba) (ba_flat ba))"

definition ba_geom :: "byte_array \<Rightarrow> bool" where
  "ba_geom ba \<longleftrightarrow> 0 < ba_baseSize ba \<and> ba_root ba \<noteq> [] \<and> uniform (ba_baseSize ba) (ba_root ba)
     \<and> ba_capacity ba = length (ba_root ba) * ba_baseSize ba"

text \<open>Where \<open>m_cur\<close> must point for a position: at the end of the capacity it is null.\<close>

definition cursor_at :: "byte_array \<Rightarrow> nat \<Rightarrow> nat option" where
  "cursor_at ba p = (if p < ba_capacity ba then Some (p div ba_baseSize ba) else None)"

definition ba_inv :: "byte_array \<Rightarrow> bool" where
  "ba_inv ba \<longleftrightarrow> ba_geom ba \<and> ba_position ba \<le> ba_size ba \<and> ba_size ba \<le> ba_capacity ba
     \<and> ba_cur ba = cursor_at ba (ba_position ba)"

lemma cursor_at_update [simp]:
  "cursor_at (ba\<lparr>ba_root := r\<rparr>) p = cursor_at ba p"
  "cursor_at (ba\<lparr>ba_position := q\<rparr>) p = cursor_at ba p"
  "cursor_at (ba\<lparr>ba_cur := c\<rparr>) p = cursor_at ba p"
  "cursor_at (ba\<lparr>ba_size := n\<rparr>) p = cursor_at ba p"
  "cursor_at (ba\<lparr>ba_endian := e\<rparr>) p = cursor_at ba p"
  by (simp_all add: cursor_at_def)

lemma ba_invI [intro?]:
  "ba_geom ba \<Longrightarrow> ba_position ba \<le> ba_size ba \<Longrightarrow> ba_size ba \<le> ba_capacity ba
   \<Longrightarrow> ba_cur ba = cursor_at ba (ba_position ba) \<Longrightarrow> ba_inv ba"
  by (simp add: ba_inv_def)

lemma ba_invD:
  assumes "ba_inv ba"
  shows "ba_geom ba" "ba_position ba \<le> ba_size ba" "ba_size ba \<le> ba_capacity ba"
    "ba_cur ba = cursor_at ba (ba_position ba)" "0 < ba_baseSize ba"
  using assms by (auto simp: ba_inv_def ba_geom_def)

lemma geom_node_size: "ba_geom ba \<Longrightarrow> i < length (ba_root ba) \<Longrightarrow> node_size ba i = ba_baseSize ba"
  by (simp add: ba_geom_def node_size_def uniform_nth)

lemma geom_length_flat: "ba_geom ba \<Longrightarrow> length (ba_flat ba) = ba_capacity ba"
  by (simp add: ba_geom_def ba_flat_def length_concat_uniform)

lemma inv_length_unread: "ba_inv ba \<Longrightarrow> length (ba_unread ba) = ba_size ba - ba_position ba"
  by (auto simp: ba_inv_def ba_unread_def geom_length_flat)

lemma inv_getReadSize: "ba_inv ba \<Longrightarrow> getReadSize ba = length (ba_unread ba)"
  by (simp add: inv_length_unread getReadSize_def ba_inv_def)

lemma cursor_next:
  assumes "ba_geom ba" "i < length (ba_root ba)"
  shows "next_node ba i = cursor_at ba (i * ba_baseSize ba + ba_baseSize ba)"
proof -
  have b: "0 < ba_baseSize ba" and c: "ba_capacity ba = length (ba_root ba) * ba_baseSize ba"
    using assms(1) by (auto simp: ba_geom_def)
  have e: "i * ba_baseSize ba + ba_baseSize ba = Suc i * ba_baseSize ba" by simp
  show ?thesis unfolding next_node_def cursor_at_def e c using b by (simp del: mult_Suc)
qed

lemma cursor_inside:
  assumes "ba_geom ba" "i < length (ba_root ba)" "q < ba_baseSize ba"
  shows "cursor_at ba (i * ba_baseSize ba + q) = Some i"
proof -
  have "i * ba_baseSize ba + ba_baseSize ba \<le> length (ba_root ba) * ba_baseSize ba"
    using assms(2) by (rule block_bound)
  then show ?thesis using assms(1,3) by (simp add: cursor_at_def ba_geom_def)
qed

lemma inv_cursor_Some:
  assumes "ba_inv ba" "ba_position ba < ba_capacity ba"
  defines "i \<equiv> ba_position ba div ba_baseSize ba"
  shows "ba_cur ba = Some i" "i < length (ba_root ba)"
    "ba_position ba mod ba_baseSize ba < ba_baseSize ba"
    "i * ba_baseSize ba + ba_position ba mod ba_baseSize ba = ba_position ba"
  using assms block_index_less [of "ba_baseSize ba" "ba_position ba" "length (ba_root ba)"]
  by (auto simp: ba_inv_def cursor_at_def ba_geom_def)

section \<open>The loops on the flat view\<close>

lemma node_write_ok:
  "ba_geom ba \<Longrightarrow> i < length (ba_root ba) \<Longrightarrow> npos + length src \<le> ba_baseSize ba \<Longrightarrow>
   node_write ba i npos src = Ret (ba\<lparr>ba_root := (ba_root ba)[i := blit npos src (ba_root ba ! i)]\<rparr>)"
  by (simp add: node_write_def geom_node_size)

lemma node_read_ok:
  assumes "ba_geom ba" "i < length (ba_root ba)" "npos + n \<le> ba_baseSize ba"
  shows "node_read ba i npos n = Ret (take n (drop (i * ba_baseSize ba + npos) (ba_flat ba)))"
  using assms concat_segment [of "ba_baseSize ba" "ba_root ba" i npos n]
  by (simp add: node_read_def geom_node_size ba_flat_def ba_geom_def)

lemma geom_blit:
  assumes "ba_geom ba" "i < length (ba_root ba)" "npos + length src \<le> ba_baseSize ba"
  defines "root' \<equiv> (ba_root ba)[i := blit npos src (ba_root ba ! i)]"
  shows "uniform (ba_baseSize ba) root'" "length root' = length (ba_root ba)"
    "concat root' = blit (i * ba_baseSize ba + npos) src (ba_flat ba)"
  using assms concat_blit [of "ba_baseSize ba" "ba_root ba" i npos src]
  by (auto simp: ba_geom_def ba_flat_def uniform_nth intro!: uniform_update)

lemma geom_root_update [simp]:
  "ba_geom (ba\<lparr>ba_root := r, ba_position := p, ba_cur := c\<rparr>) \<longleftrightarrow>
     ba_geom (ba\<lparr>ba_root := r\<rparr>)"
  "ba_geom (ba\<lparr>ba_position := p\<rparr>) \<longleftrightarrow> ba_geom ba"
  "ba_geom (ba\<lparr>ba_cur := c\<rparr>) \<longleftrightarrow> ba_geom ba"
  "ba_geom (ba\<lparr>ba_size := n\<rparr>) \<longleftrightarrow> ba_geom ba"
  "ba_geom (ba\<lparr>ba_endian := e\<rparr>) \<longleftrightarrow> ba_geom ba"
  by (simp_all add: ba_geom_def)

lemma write_loop_ok:
  assumes "ba_geom ba" "ba_cur ba = Some i" "i < length (ba_root ba)"
    "npos \<le> ba_baseSize ba" "ncap = ba_baseSize ba - npos" "buf \<noteq> []"
    "i * ba_baseSize ba + npos + length buf \<le> ba_capacity ba"
  shows "\<exists>root'. write_loop ba buf npos ncap
            = Ret (ba\<lparr>ba_root := root', ba_position := ba_position ba + length buf,
                      ba_cur := cursor_at ba (i * ba_baseSize ba + npos + length buf)\<rparr>)
          \<and> uniform (ba_baseSize ba) root' \<and> length root' = length (ba_root ba)
          \<and> concat root' = blit (i * ba_baseSize ba + npos) buf (ba_flat ba)"
  using assms
proof (induction ba buf npos ncap arbitrary: i rule: write_loop.induct)
  case (1 ba buf npos ncap)
  let ?b = "ba_baseSize ba" and ?n = "length buf"
  note g = "1.prems"(1) and cur = "1.prems"(2) and i = "1.prems"(3)
  show ?case
  proof (cases "?n \<le> ncap")
    case True
    then have fits: "npos + ?n \<le> ?b" using "1.prems"(4,5) by simp
    let ?root = "(ba_root ba)[i := blit npos buf (ba_root ba ! i)]"
    have cur': "(if node_size ba i = npos + ?n then next_node (ba\<lparr>ba_root := ?root\<rparr>) i else Some i)
        = cursor_at ba (i * ?b + npos + ?n)"
      using cursor_next [OF g i] cursor_inside [OF g i, of "npos + ?n"] fits
      by (auto simp: geom_node_size [OF g i] next_node_def add.assoc)
    have "write_loop ba buf npos ncap
        = Ret (ba\<lparr>ba_root := ?root, ba_position := ba_position ba + ?n,
                  ba_cur := cursor_at ba (i * ?b + npos + ?n)\<rparr>)"
      unfolding cur' [symmetric]
      using True "1.prems"(6) cur by (simp add: write_loop.simps [of ba] node_write_ok [OF g i fits] Let_def)
    then show ?thesis using geom_blit [OF g i fits] by blast
  next
    case False
    let ?r = "take ncap buf" and ?root = "(ba_root ba)[i := blit npos (take ncap buf) (ba_root ba ! i)]"
    have fits: "npos + length ?r \<le> ?b" and lr: "length ?r = ncap" and sum: "npos + ncap = ?b"
      using False "1.prems"(4,5) by auto
    have more: "i * ?b + ?b < ba_capacity ba" using False "1.prems"(5,4,7) by simp
    then have nxt: "next_node ba i = Some (Suc i)" and si: "Suc i < length (ba_root ba)"
      using cursor_next [OF g i] g by (auto simp: cursor_at_def next_node_def split: if_splits)
    let ?ba2 = "ba\<lparr>ba_root := ?root, ba_position := ba_position ba + ncap, ba_cur := Some (Suc i)\<rparr>"
    note blit = geom_blit [OF g i fits]
    have g2: "ba_geom ?ba2" using g blit by (simp add: ba_geom_def)
    have step: "write_loop ba buf npos ncap = write_loop ?ba2 (drop ncap buf) 0 ?b"
      using False "1.prems"(6) cur nxt geom_node_size [OF g2, of "Suc i"] si
      by (simp add: write_loop.simps [of ba] node_write_ok [OF g i fits] Let_def next_node_def)
    have "\<exists>root'. write_loop ?ba2 (drop ncap buf) 0 ?b
            = Ret (?ba2\<lparr>ba_root := root', ba_position := ba_position ?ba2 + length (drop ncap buf),
                      ba_cur := cursor_at ?ba2 (Suc i * ba_baseSize ?ba2 + 0 + length (drop ncap buf))\<rparr>)
          \<and> uniform (ba_baseSize ?ba2) root' \<and> length root' = length (ba_root ?ba2)
          \<and> concat root' = blit (Suc i * ba_baseSize ?ba2 + 0) (drop ncap buf) (ba_flat ?ba2)"
      using "1.IH" [OF "1.prems"(6) cur False node_write_ok [OF g i fits], of ?ba2 "Suc i" "Suc i"]
        g2 si nxt False geom_node_size [OF g2, of "Suc i"] "1.prems"(4,5,7) sum
      by (simp add: next_node_def) 
    then obtain root' where
      r: "write_loop ?ba2 (drop ncap buf) 0 ?b
            = Ret (?ba2\<lparr>ba_root := root', ba_position := ba_position ba + ncap + (?n - ncap),
                      ba_cur := cursor_at ba (?b + i * ?b + (?n - ncap))\<rparr>)"
      and u: "uniform ?b root'" and l: "length root' = length (ba_root ba)"
      and c: "concat root' = blit (?b + i * ?b) (drop ncap buf) (concat ?root)"
      by (auto simp: ba_flat_def)
    have e: "ba_position ba + ncap + (?n - ncap) = ba_position ba + ?n"
      "?b + i * ?b + (?n - ncap) = i * ?b + npos + ?n"
      using False sum by auto
    have idx: "?b + i * ?b = (i * ?b + npos) + length ?r" using lr sum by simp
    have "concat root' = blit ((i * ?b + npos) + length ?r) (drop ncap buf)
            (blit (i * ?b + npos) ?r (ba_flat ba))"
      using c unfolding idx by (simp only: blit(3))
    also have "\<dots> = blit (i * ?b + npos) (?r @ drop ncap buf) (ba_flat ba)"
      using "1.prems"(7) by (intro blit_append_src) (simp add: geom_length_flat [OF g])
    finally have c': "concat root' = blit (i * ?b + npos) buf (ba_flat ba)" by simp
    show ?thesis
      using step r u l c' by (intro exI [of _ root']) (simp add: e)
  qed
qed

lemma write_loop_short:
  assumes "ba_geom ba" "ba_cur ba = Some i" "i < length (ba_root ba)"
    "npos \<le> ba_baseSize ba" "ncap = ba_baseSize ba - npos"
    "ba_capacity ba < i * ba_baseSize ba + npos + length buf"
  shows "write_loop ba buf npos ncap = Fault NullDeref"
  using assms
proof (induction ba buf npos ncap arbitrary: i rule: write_loop.induct)
  case (1 ba buf npos ncap)
  let ?b = "ba_baseSize ba" and ?n = "length buf"
  note g = "1.prems"(1) and cur = "1.prems"(2) and i = "1.prems"(3)
  have room: "i * ?b + ?b \<le> ba_capacity ba"
    using g block_bound [OF i, of ?b] by (simp add: ba_geom_def)
  have ne: "buf \<noteq> []" and False: "\<not> ?n \<le> ncap"
    using "1.prems"(4-6) room by auto
  let ?root = "(ba_root ba)[i := blit npos (take ncap buf) (ba_root ba ! i)]"
  have fits: "npos + length (take ncap buf) \<le> ?b" using "1.prems"(4,5) by simp
  note blit = geom_blit [OF g i fits]
  show ?case
  proof (cases "next_node ba i")
    case None
    then show ?thesis using False ne cur
      by (simp add: write_loop.simps [of ba] node_write_ok [OF g i fits] Let_def next_node_def)
  next
    case (Some j)
    then have j: "j = Suc i" "Suc i < length (ba_root ba)" by (auto simp: next_node_def split: if_splits)
    let ?ba2 = "ba\<lparr>ba_root := ?root, ba_position := ba_position ba + ncap, ba_cur := Some (Suc i)\<rparr>"
    have g2: "ba_geom ?ba2" using g blit by (simp add: ba_geom_def)
    have "write_loop ba buf npos ncap = write_loop ?ba2 (drop ncap buf) 0 ?b"
      using False ne cur Some j geom_node_size [OF g2, of "Suc i"]
      by (simp add: write_loop.simps [of ba] node_write_ok [OF g i fits] Let_def next_node_def)
    also have "\<dots> = Fault NullDeref"
      using "1.IH" [OF ne cur False node_write_ok [OF g i fits], of ?ba2 "Suc i" "Suc i"]
        g2 j False geom_node_size [OF g2, of "Suc i"] "1.prems"(4-6)
      by (simp add: next_node_def)
    finally show ?thesis .
  qed
qed

lemma read_loop_ok:
  assumes "ba_geom ba" "ba_cur ba = Some i" "i < length (ba_root ba)"
    "npos \<le> ba_baseSize ba" "ncap = ba_baseSize ba - npos" "0 < sz"
    "i * ba_baseSize ba + npos + sz \<le> ba_capacity ba"
  shows "read_loop ba sz npos ncap acc
    = Ret (acc @ take sz (drop (i * ba_baseSize ba + npos) (ba_flat ba)),
           ba\<lparr>ba_position := ba_position ba + sz,
              ba_cur := cursor_at ba (i * ba_baseSize ba + npos + sz)\<rparr>)"
  using assms
proof (induction ba sz npos ncap acc arbitrary: i rule: read_loop.induct)
  case (1 ba sz npos ncap acc)
  let ?b = "ba_baseSize ba"
  note g = "1.prems"(1) and cur = "1.prems"(2) and i = "1.prems"(3)
  show ?case
  proof (cases "sz \<le> ncap")
    case True
    then have fits: "npos + sz \<le> ?b" using "1.prems"(4,5) by simp
    have "(if node_size ba i = npos + sz then next_node ba i else Some i)
        = cursor_at ba (i * ?b + npos + sz)"
      using cursor_next [OF g i] cursor_inside [OF g i, of "npos + sz"] fits
      by (auto simp: geom_node_size [OF g i] add.assoc)
    then show ?thesis using True "1.prems"(6) cur
      by (auto simp: read_loop.simps [of ba] node_read_ok [OF g i fits] Let_def split: if_splits)
  next
    case False
    have fits: "npos + ncap \<le> ?b" and sum: "npos + ncap = ?b" using "1.prems"(4,5) by auto
    have more: "i * ?b + ?b < ba_capacity ba" using False "1.prems"(5,4,7) by simp
    then have nxt: "next_node ba i = Some (Suc i)" and si: "Suc i < length (ba_root ba)"
      using cursor_next [OF g i] g by (auto simp: cursor_at_def next_node_def split: if_splits)
    let ?p = "i * ?b + npos" and ?F = "ba_flat ba"
    let ?ba2 = "ba\<lparr>ba_position := ba_position ba + ncap, ba_cur := Some (Suc i)\<rparr>"
    have g2: "ba_geom ?ba2" using g by simp
    have step: "read_loop ba sz npos ncap acc
        = read_loop ?ba2 (sz - ncap) 0 ?b (acc @ take ncap (drop ?p ?F))"
      using False cur nxt geom_node_size [OF g si]
      by (simp add: read_loop.simps [of ba] node_read_ok [OF g i fits] Let_def) (simp add: node_size_def)
    have rest: "read_loop ?ba2 (sz - ncap) 0 ?b (acc @ take ncap (drop ?p ?F))
      = Ret ((acc @ take ncap (drop ?p ?F)) @ take (sz - ncap) (drop (Suc i * ?b) ?F),
        ?ba2\<lparr>ba_position := ba_position ba + ncap + (sz - ncap),
             ba_cur := cursor_at ba (Suc i * ?b + (sz - ncap))\<rparr>)"
      using "1.IH" [OF _ cur False node_read_ok [OF g i fits], of ?ba2 "Suc i" "Suc i"]
        g2 si nxt False geom_node_size [OF g2, of "Suc i"] "1.prems"(4-7) sum
      by (simp add: ba_flat_def next_node_def)
    have e: "Suc i * ?b = ncap + ?p" using sum by simp
    have "drop (Suc i * ?b) ?F = drop ncap (drop ?p ?F)" by (simp only: e drop_drop)
    then have "take ncap (drop ?p ?F) @ take (sz - ncap) (drop (Suc i * ?b) ?F)
        = take (ncap + (sz - ncap)) (drop ?p ?F)" by (simp only: take_add)
    moreover have "ncap + (sz - ncap) = sz" "Suc i * ?b + (sz - ncap) = ?p + sz"
      "ba_position ba + ncap + (sz - ncap) = ba_position ba + sz"
      using False sum by auto
    ultimately show ?thesis unfolding step rest by (simp del: mult_Suc)
  qed
qed

lemma node_walk_read_eq:
  "ba_root ba' = ba_root ba \<Longrightarrow> ba_cur ba' = cur \<Longrightarrow>
   node_walk_read ba cur sz npos ncap acc
     = obind (read_loop ba' sz npos ncap acc) (\<lambda>(bs, _). Ret bs)"
proof (induction ba cur sz npos ncap acc arbitrary: ba' rule: node_walk_read.induct)
  case (1 ba cur sz npos ncap acc)
  have same: "node_read ba' i n m = node_read ba i n m" "next_node ba' i = next_node ba i"
    "node_size ba' i = node_size ba i" for i n m
    using "1.prems"(1) by (simp_all add: node_read_def next_node_def node_size_def)
  show ?case
  proof (cases "sz = 0 \<or> cur = None \<or> sz \<le> ncap")
    case True
    then show ?thesis using "1.prems"
      by (auto simp: node_walk_read.simps [of ba] read_loop.simps [of ba'] same obind_assoc Let_def
          split: option.splits)
  next
    case False
    then obtain i where i: "cur = Some i" "sz \<noteq> 0" "\<not> sz \<le> ncap" by auto
    show ?thesis
    proof (cases "node_read ba i npos ncap")
      case (Ret bs)
      show ?thesis
      proof (cases "next_node ba i")
        case None
        then show ?thesis using i "1.prems" Ret
          by (simp add: node_walk_read.simps [of ba] read_loop.simps [of ba'] same Let_def)
      next
        case (Some j)
        let ?ba1 = "ba'\<lparr>ba_position := ba_position ba' + ncap, ba_cur := Some j\<rparr>"
        have ns: "node_size ?ba1 j = node_size ba j" using "1.prems"(1) by (simp add: node_size_def)
        have "node_walk_read ba (Some j) (sz - ncap) 0 (node_size ba j) (acc @ bs)
            = obind (read_loop ?ba1 (sz - ncap) 0 (node_size ba j) (acc @ bs)) (\<lambda>(bs, _). Ret bs)"
          using "1.IH" [OF i(2,1,3) Ret Some, of ?ba1] "1.prems"(1) by simp
        then show ?thesis using i "1.prems" Ret Some ns
          by (simp add: node_walk_read.simps [of ba "Some i"] read_loop.simps [of ba'] same Let_def)
      qed
    qed (use i "1.prems" in \<open>simp_all add: node_walk_read.simps [of ba] read_loop.simps [of ba'] same\<close>)
  qed
qed

lemma seek_ok:
  assumes "ba_geom ba" "i < length (ba_root ba)" "i * ba_baseSize ba + v \<le> ba_capacity ba"
  shows "seek ba (Some i) v = Ret (cursor_at ba (i * ba_baseSize ba + v))"
  using assms
proof (induction ba "Some i" v arbitrary: i rule: seek.induct)
  case (1 ba v)
  let ?b = "ba_baseSize ba"
  note g = "1.prems"(1) and i = "1.prems"(2)
  note ns = geom_node_size [OF g i]
  show ?case
  proof (cases "v > ?b")
    case True
    then have more: "i * ?b + ?b < ba_capacity ba" using "1.prems"(3) by simp
    then have nxt: "next_node ba i = Some (Suc i)" and si: "Suc i < length (ba_root ba)"
      using cursor_next [OF g i] g by (auto simp: cursor_at_def next_node_def split: if_splits)
    have "seek ba (Some (Suc i)) (v - ?b) = Ret (cursor_at ba (Suc i * ?b + (v - ?b)))"
      using "1.hyps" [OF refl, of "Suc i"] True ns nxt si g "1.prems"(3) by simp
    moreover have "Suc i * ?b + (v - ?b) = i * ?b + v" using True by simp
    ultimately show ?thesis using True ns nxt by (simp add: seek.simps [of ba "Some i"])
  next
    case False
    then show ?thesis using cursor_next [OF g i] cursor_inside [OF g i, of v] ns
      by (auto simp: seek.simps [of ba "Some i"])
  qed
qed

section \<open>The abstract buffer\<close>

text \<open>
  What \<open>ByteArray\<close> promises: a byte sequence with a position. \<open>fb_write\<close> overwrites from the
  position on and may extend the sequence, \<open>fb_read\<close> returns bytes that are there or refuses.
\<close>

record flat_buf =
  fb_data :: "byte list"
  fb_pos :: nat

definition fb_write :: "flat_buf \<Rightarrow> byte list \<Rightarrow> flat_buf" where
  "fb_write f buf = \<lparr>fb_data = take (fb_pos f) (fb_data f) @ buf @ drop (fb_pos f + length buf) (fb_data f),
                     fb_pos = fb_pos f + length buf\<rparr>"

definition fb_read :: "flat_buf \<Rightarrow> nat \<Rightarrow> (byte list \<times> flat_buf) outcome" where
  "fb_read f n = (if n > length (fb_data f) - fb_pos f then Throw OutOfRange
                  else Ret (take n (drop (fb_pos f) (fb_data f)), f\<lparr>fb_pos := fb_pos f + n\<rparr>))"

definition ba_abs :: "byte_array \<Rightarrow> flat_buf" where
  "ba_abs ba = \<lparr>fb_data = take (ba_size ba) (ba_flat ba), fb_pos = ba_position ba\<rparr>"

text \<open>
  When \<open>addCapacity\<close> leaves too little room: the bytes missing, taken modulo the block size, are
  compared with the old free capacity instead of with zero.
\<close>

definition capacity_shortfall :: "byte_array \<Rightarrow> nat \<Rightarrow> bool" where
  "capacity_shortfall ba n \<longleftrightarrow>
     (let room = ba_capacity ba - ba_position ba; missing = n - room
      in room < n \<and> 0 < missing mod ba_baseSize ba \<and> missing mod ba_baseSize ba \<le> room)"

section \<open>Correctness of the operations\<close>

lemma ByteArray_new_inv: "0 < b \<Longrightarrow> ba_inv (ByteArray_new fresh b)"
  by (simp add: ba_inv_def ba_geom_def ByteArray_new_def new_Node_def cursor_at_def)

lemma ByteArray_new_abs: "ba_abs (ByteArray_new fresh b) = \<lparr>fb_data = [], fb_pos = 0\<rparr>"
  by (simp add: ba_abs_def ByteArray_new_def)

lemma ba_clear_inv: "ba_inv ba \<Longrightarrow> ba_inv (ba_clear ba)"
  by (cases "ba_root ba") (auto simp: ba_inv_def ba_geom_def ba_clear_def cursor_at_def)

lemma ba_clear_abs: "ba_abs (ba_clear ba) = \<lparr>fb_data = [], fb_pos = 0\<rparr>"
  by (simp add: ba_abs_def ba_clear_def)

lemma setIsLittleEndian_inv: "ba_inv ba \<Longrightarrow> ba_inv (setIsLittleEndian ba v)"
  by (simp add: ba_inv_def setIsLittleEndian_def)

lemma setIsLittleEndian_abs: "ba_abs (setIsLittleEndian ba v) = ba_abs ba"
  by (simp add: ba_abs_def setIsLittleEndian_def ba_flat_def)

lemma addCapacity_grow:
  assumes inv: "ba_inv ba" and less: "ba_capacity ba - ba_position ba < n"
  defines "room \<equiv> ba_capacity ba - ba_position ba" and "b \<equiv> ba_baseSize ba"
  defines "count \<equiv> (n - room) div b + (if (n - room) mod b > room then 1 else 0)"
  defines "ba1 \<equiv> ba\<lparr>ba_root := ba_root ba @ map (\<lambda>k. new_Node (ba_fresh ba) k b)
                      [length (ba_root ba)..<length (ba_root ba) + count],
                   ba_capacity := ba_capacity ba + count * b,
                   ba_cur := cursor_at (ba\<lparr>ba_capacity := ba_capacity ba + count * b\<rparr>) (ba_position ba)\<rparr>"
  shows "addCapacity ba n = Ret ba1" "ba_inv ba1"
proof -
  note I = ba_invD [OF inv]
  have b: "0 < b" using I(5) by (simp add: b_def)
  have n: "n \<noteq> 0" "\<not> n \<le> room" using less by (auto simp: room_def)
  have gc: "getCapacity ba = room" using I(2,3) by (simp add: getCapacity_def room_def)
  have cap: "ba_capacity ba = length (ba_root ba) * b" using I(1) by (simp add: ba_geom_def b_def)
  have some: "room = 0 \<Longrightarrow> 0 < count"
  proof -
    assume "room = 0"
    then show "0 < count" using n(1) b by (cases "n mod b = 0") (auto simp: count_def)
  qed
  have cur: "(if room = 0 then if 0 < count then Some (length (ba_root ba)) else None else ba_cur ba)
      = cursor_at (ba\<lparr>ba_capacity := ba_capacity ba + count * b\<rparr>) (ba_position ba)"
  proof (cases "room = 0")
    case True
    then have p: "ba_position ba = length (ba_root ba) * b" using I(2,3) cap by (simp add: room_def)
    then show ?thesis using True some [OF True] b cap by (simp add: cursor_at_def b_def)
  next
    case False
    then have "ba_position ba < ba_capacity ba" by (simp add: room_def)
    then show ?thesis using False I(4) by (simp add: cursor_at_def)
  qed
  show "addCapacity ba n = Ret ba1"
    unfolding addCapacity_def Let_def gc b_def [symmetric] count_def [symmetric]
      ba1_def cur [symmetric]
    using n b by simp
  have g1: "ba_geom ba1" using I(1) b cap
    by (auto simp: ba_geom_def ba1_def b_def uniform_def new_Node_def add_mult_distrib)
  show "ba_inv ba1"
    using I(2,3) by (intro ba_invI g1) (simp_all add: ba1_def cursor_at_def)
qed

lemma addCapacity_ok:
  assumes inv: "ba_inv ba"
  obtains ba1 new where "addCapacity ba n = Ret ba1" "ba_inv ba1"
    "ba_flat ba1 = ba_flat ba @ new"
    "ba_position ba1 = ba_position ba" "ba_size ba1 = ba_size ba"
    "ba_baseSize ba1 = ba_baseSize ba" "ba_endian ba1 = ba_endian ba"
    "n \<le> ba_capacity ba1 - ba_position ba1 \<longleftrightarrow> \<not> capacity_shortfall ba n"
proof (cases "n \<le> ba_capacity ba - ba_position ba")
  case True
  then have "addCapacity ba n = Ret ba"
    using ba_invD [OF inv] by (simp add: addCapacity_def getCapacity_def)
  moreover have "\<not> capacity_shortfall ba n" using True by (simp add: capacity_shortfall_def Let_def)
  ultimately show ?thesis using True inv by (intro that [of ba "[]"]) auto
next
  case False
  let ?room = "ba_capacity ba - ba_position ba" and ?b = "ba_baseSize ba"
  let ?s = "n - ?room"
  let ?count = "?s div ?b + (if ?s mod ?b > ?room then 1 else 0)"
  note grow = addCapacity_grow [OF inv, of n]
  have b: "0 < ?b" and pc: "ba_position ba \<le> ba_capacity ba" using ba_invD [OF inv] by auto
  have "n \<le> ?room + ?count * ?b \<longleftrightarrow> ?s \<le> ?count * ?b"
    by (simp only: le_diff_conv add.commute)
  also have "\<dots> \<longleftrightarrow> ?s mod ?b = 0 \<or> ?s mod ?b > ?room"
    by (rule blocks_suffice [OF b])
  finally have enough: "n \<le> ?room + ?count * ?b \<longleftrightarrow> \<not> capacity_shortfall ba n"
    using False by (auto simp: capacity_shortfall_def Let_def)
  show ?thesis
    by (rule that [OF grow]) (use False enough pc in \<open>auto simp: ba_flat_def\<close>)
qed

text \<open>What a write leaves: the invariant, and the abstract write.\<close>

lemma ba_write_enough:
  assumes inv: "ba_inv ba" and enough: "\<not> capacity_shortfall ba (length buf)"
  obtains ba' where "ba_write ba buf = Ret ba'" "ba_inv ba'" "ba_abs ba' = fb_write (ba_abs ba) buf"
    "ba_endian ba' = ba_endian ba" "ba_baseSize ba' = ba_baseSize ba"
proof (cases "buf = []")
  case True
  have "fb_write (ba_abs ba) [] = ba_abs ba" by (simp add: fb_write_def)
  with True inv show ?thesis by (intro that [of ba]) (simp_all add: ba_write_def)
next
  case False
  obtain ba1 new where a: "addCapacity ba (length buf) = Ret ba1" "ba_inv ba1"
    and f: "ba_flat ba1 = ba_flat ba @ new"
    and same: "ba_position ba1 = ba_position ba" "ba_size ba1 = ba_size ba"
      "ba_baseSize ba1 = ba_baseSize ba" "ba_endian ba1 = ba_endian ba"
    and room: "length buf \<le> ba_capacity ba1 - ba_position ba1 \<longleftrightarrow> \<not> capacity_shortfall ba (length buf)"
    using addCapacity_ok [OF inv, of "length buf"] by metis
  let ?b = "ba_baseSize ba1" and ?p = "ba_position ba1" and ?n = "length buf"
  note I = ba_invD [OF a(2)]
  have fits: "?p + ?n \<le> ba_capacity ba1" using room enough I(2,3) by linarith
  have pc: "?p < ba_capacity ba1" using fits False by (cases buf) auto
  let ?i = "?p div ?b" and ?q = "?p mod ?b"
  note C = inv_cursor_Some [OF a(2) pc]
  have q: "?q \<le> ?b" "?i * ?b + ?q + ?n \<le> ba_capacity ba1"
    using C(3,4) fits by simp_all
  obtain root' where w: "write_loop ba1 buf ?q (?b - ?q)
      = Ret (ba1\<lparr>ba_root := root', ba_position := ?p + ?n, ba_cur := cursor_at ba1 (?p + ?n)\<rparr>)"
    and r: "uniform ?b root'" "length root' = length (ba_root ba1)"
    and c: "concat root' = blit ?p buf (ba_flat ba1)"
    using write_loop_ok [OF I(1) C(1,2) q(1) refl False q(2)] unfolding C(4) by blast
  let ?ba2 = "ba1\<lparr>ba_root := root', ba_position := ?p + ?n, ba_cur := cursor_at ba1 (?p + ?n)\<rparr>"
  let ?ba3 = "if ?p + ?n > ba_size ba1 then ?ba2\<lparr>ba_size := ?p + ?n\<rparr> else ?ba2"
  have res: "ba_write ba buf = Ret ?ba3"
    using False a(1) I(5) C(1,3) w
    by (simp add: ba_write_def Let_def geom_node_size [OF I(1) C(2)] less_imp_le)
  have g: "ba_geom ?ba2" using I(1) r by (auto simp: ba_geom_def)
  have inv': "ba_inv ?ba3"
    using g I(2,3) fits by (intro ba_invI) (auto simp: cursor_at_def)
  have flat: "ba_flat ?ba3 = blit ?p buf (ba_flat ba1)" using c by (simp add: ba_flat_def)
  have L: "length (ba_flat ba1) = ba_capacity ba1" by (rule geom_length_flat [OF I(1)])
  have old: "take (ba_size ba1) (ba_flat ba1) = take (ba_size ba) (ba_flat ba)"
    using ba_invD(1,3) [OF inv] by (simp add: f same geom_length_flat)
  have pre: "take ?p (ba_flat ba1) = take ?p (ba_flat ba)"
    using ba_invD(1-3) [OF inv] by (simp add: f same geom_length_flat)
  have abs: "ba_abs ?ba3 = fb_write (ba_abs ba) buf"
  proof (cases "?p + ?n > ba_size ba1")
    case True
    have "take (?p + ?n) (blit ?p buf (ba_flat ba1)) = take ?p (ba_flat ba1) @ buf"
      using fits L by (simp add: take_blit_all)
    then show ?thesis using True flat same I(2) pre by (simp add: ba_abs_def fb_write_def min_absorb1)
  next
    case F: False
    let ?s = "ba_size ba1"
    have ps: "?p < ?s" using F False by (cases buf) auto
    have "take ?s (blit ?p buf (ba_flat ba1)) = take ?p (take ?s (ba_flat ba1)) @ buf @ drop (?p + ?n) (take ?s (ba_flat ba1))"
      using F I(3) L ps by (auto simp: blit_def min_def drop_take)
    then show ?thesis using F flat same old pre I(2) by (simp add: ba_abs_def fb_write_def min_absorb1)
  qed
  show ?thesis by (rule that [OF res inv' abs]) (auto simp: same)
qed

lemma ba_write_shortfall:
  assumes inv: "ba_inv ba" and short: "capacity_shortfall ba (length buf)"
  shows "ba_write ba buf = Fault NullDeref"
proof -
  obtain ba1 new where a: "addCapacity ba (length buf) = Ret ba1" "ba_inv ba1"
    and same: "ba_position ba1 = ba_position ba" "ba_size ba1 = ba_size ba"
      "ba_baseSize ba1 = ba_baseSize ba"
    and room: "length buf \<le> ba_capacity ba1 - ba_position ba1 \<longleftrightarrow> \<not> capacity_shortfall ba (length buf)"
    using addCapacity_ok [OF inv, of "length buf"] by metis
  let ?b = "ba_baseSize ba1" and ?p = "ba_position ba1" and ?n = "length buf"
  note I = ba_invD [OF a(2)]
  have ne: "buf \<noteq> []" and over: "ba_capacity ba1 < ?p + ?n"
    using short room by (auto simp: capacity_shortfall_def Let_def)
  show ?thesis
  proof (cases "?p < ba_capacity ba1")
    case True
    note C = inv_cursor_Some [OF a(2) True]
    have "write_loop ba1 buf (?p mod ?b) (?b - ?p mod ?b) = Fault NullDeref"
      using C over by (intro write_loop_short [OF I(1) C(1,2)]) auto
    then show ?thesis using ne a(1) I(5) C(1,3)
      by (simp add: ba_write_def Let_def geom_node_size [OF I(1) C(2)] less_imp_le)
  next
    case False
    then show ?thesis using ne a(1) I(4,5) by (simp add: ba_write_def Let_def cursor_at_def)
  qed
qed

lemma ba_read_refuses:
  "ba_inv ba \<Longrightarrow> n > ba_size ba - ba_position ba \<Longrightarrow> ba_read ba n = Throw OutOfRange"
  by (simp add: ba_read_def inv_getReadSize inv_length_unread)

lemma ba_read_enough:
  assumes inv: "ba_inv ba" and n: "n \<le> ba_size ba - ba_position ba"
    and here: "0 < n \<or> ba_position ba < ba_capacity ba"
  shows "ba_read ba n = Ret (take n (ba_unread ba),
           ba\<lparr>ba_position := ba_position ba + n, ba_cur := cursor_at ba (ba_position ba + n)\<rparr>)"
    "ba_inv (ba\<lparr>ba_position := ba_position ba + n, ba_cur := cursor_at ba (ba_position ba + n)\<rparr>)"
proof -
  note I = ba_invD [OF inv]
  have pc: "ba_position ba < ba_capacity ba" using here n I(2,3) by auto
  note C = inv_cursor_Some [OF inv pc]
  let ?b = "ba_baseSize ba" and ?p = "ba_position ba"
  show "ba_inv (ba\<lparr>ba_position := ?p + n, ba_cur := cursor_at ba (?p + n)\<rparr>)"
    using I n by (intro ba_invI) auto
  have out: "take n (ba_unread ba) = take n (drop ?p (ba_flat ba))"
    using n by (simp add: ba_unread_def min_def)
  have start: "ba_read ba n = read_loop ba n (?p mod ?b) (?b - ?p mod ?b) []"
    using n I(5) C(1,3)
    by (simp add: ba_read_def inv_getReadSize [OF inv] inv_length_unread [OF inv] Let_def
        geom_node_size [OF I(1) C(2)] less_imp_le)
  show "ba_read ba n = Ret (take n (ba_unread ba),
           ba\<lparr>ba_position := ?p + n, ba_cur := cursor_at ba (?p + n)\<rparr>)"
  proof (cases "n = 0")
    case True
    then show ?thesis using start I(4) by (simp add: read_loop.simps [of ba 0])
  next
    case False
    have q: "?p mod ?b \<le> ?b" "?p div ?b * ?b + ?p mod ?b + n \<le> ba_capacity ba"
      using C(3,4) n I(2,3) by simp_all
    show ?thesis
      using read_loop_ok [OF I(1) C(1,2) q(1) refl _ q(2)] False start out unfolding C(4) by simp
  qed
qed

lemma ba_read_empty_at_end:
  "ba_inv ba \<Longrightarrow> ba_position ba = ba_capacity ba \<Longrightarrow> ba_read ba 0 = Fault NullDeref"
  using ba_invD [of ba] by (simp add: ba_read_def cursor_at_def Let_def)

lemma ba_abs_unread: "ba_inv ba \<Longrightarrow> drop (fb_pos (ba_abs ba)) (fb_data (ba_abs ba)) = ba_unread ba"
  by (simp add: ba_abs_def ba_unread_def drop_take)

lemma ba_abs_length: "ba_inv ba \<Longrightarrow> length (fb_data (ba_abs ba)) = ba_size ba"
  using ba_invD [of ba] by (simp add: ba_abs_def geom_length_flat)

lemma fb_write_append: "fb_write (fb_write f xs) ys = fb_write f (xs @ ys)" if "fb_pos f \<le> length (fb_data f)"
  using that by (auto simp: fb_write_def ac_simps)

lemma setPosition_ok:
  assumes inv: "ba_inv ba" and v: "v \<le> ba_capacity ba"
  shows "setPosition ba v = Ret (ba\<lparr>ba_position := v, ba_size := max v (ba_size ba),
           ba_cur := cursor_at ba v\<rparr>)"
    "ba_inv (ba\<lparr>ba_position := v, ba_size := max v (ba_size ba), ba_cur := cursor_at ba v\<rparr>)"
proof -
  note I = ba_invD [OF inv]
  show "ba_inv (ba\<lparr>ba_position := v, ba_size := max v (ba_size ba), ba_cur := cursor_at ba v\<rparr>)"
    using I v by (intro ba_invI) auto
  let ?ba2 = "ba\<lparr>ba_position := v, ba_size := max v (ba_size ba)\<rparr>"
  have g: "ba_geom ?ba2" and r: "0 < length (ba_root ?ba2)" using I(1) by (auto simp: ba_geom_def)
  have s: "seek ?ba2 (Some 0) v = Ret (cursor_at ba v)"
    using seek_ok [OF g r, of v] v by simp
  have e: "(if ba_size ba < v then ba\<lparr>ba_position := v, ba_size := v\<rparr> else ba\<lparr>ba_position := v\<rparr>) = ?ba2"
    by (simp add: max_def)
  show "setPosition ba v = Ret (ba\<lparr>ba_position := v, ba_size := max v (ba_size ba), ba_cur := cursor_at ba v\<rparr>)"
    using v s e by (simp add: setPosition_def Let_def max_def split: if_splits)
qed

lemma setPosition_refuses: "ba_capacity ba < v \<Longrightarrow> setPosition ba v = Throw OutOfRange"
  by (simp add: setPosition_def)

lemma setPosition_abs:
  assumes "ba_inv ba" "v \<le> ba_size ba"
  obtains ba' where "setPosition ba v = Ret ba'" "ba_inv ba'" "ba_abs ba' = (ba_abs ba)\<lparr>fb_pos := v\<rparr>"
    "ba_endian ba' = ba_endian ba"
proof -
  have v: "v \<le> ba_capacity ba" using assms ba_invD(3) [of ba] by simp
  show ?thesis
    by (rule that [OF setPosition_ok [OF assms(1) v]])
       (use assms(2) in \<open>auto simp: ba_abs_def ba_flat_def max_def\<close>)
qed

text \<open>The const read at the current position returns what the moving read returns.\<close>

lemma ba_read_at_here:
  assumes "ba_inv ba"
  shows "ba_read_at ba n (ba_position ba) = obind (ba_read ba n) (\<lambda>(bs, _). Ret bs)"
proof (cases "ba_cur ba")
  case None
  then show ?thesis by (simp add: ba_read_at_def ba_read_def getReadSize_def)
next
  case (Some i)
  then show ?thesis
    by (simp add: ba_read_at_def ba_read_def getReadSize_def node_walk_read_eq [of ba ba] Let_def)
qed


text \<open>A read elsewhere than at the end of the capacity is the flat-buffer read.\<close>

lemma ba_read_elsewhere:
  assumes "ba_inv ba" and "0 < n \<or> ba_position ba < ba_capacity ba"
  shows "obind (ba_read ba n) (\<lambda>(bs, ba'). Ret (bs, ba_abs ba')) = fb_read (ba_abs ba) n
     \<and> (\<forall>bs ba'. ba_read ba n = Ret (bs, ba') \<longrightarrow> ba_inv ba' \<and> ba_flat ba' = ba_flat ba)"
proof (cases "n \<le> ba_size ba - ba_position ba")
  case True
  have "drop (fb_pos (ba_abs ba)) (fb_data (ba_abs ba)) = ba_unread ba"
    "length (fb_data (ba_abs ba)) = ba_size ba" "fb_pos (ba_abs ba) = ba_position ba"
    using ba_abs_unread [OF assms(1)] ba_abs_length [OF assms(1)] by (simp_all add: ba_abs_def)
  with True show ?thesis using ba_read_enough [OF assms(1) True assms(2)]
    by (auto simp: fb_read_def ba_abs_def ba_flat_def)
next
  case False
  then show ?thesis using ba_read_refuses [OF assms(1)] ba_abs_length [OF assms(1)]
    by (simp add: fb_read_def) (simp add: ba_abs_def)
qed


section \<open>Properties\<close>

text \<open>C1. \<open>write\<close> implements the flat-buffer write and keeps the representation invariant, and it returns
  exactly when \<open>addCapacity\<close> does not fall short: otherwise the code dereferences a null node.\<close>

theorem ba_write_refines:
  assumes "ba_inv ba"
  shows "if capacity_shortfall ba (length buf) then ba_write ba buf = Fault NullDeref
         else \<exists>ba'. ba_write ba buf = Ret ba' \<and> ba_inv ba' \<and> ba_abs ba' = fb_write (ba_abs ba) buf
                \<and> ba_endian ba' = ba_endian ba \<and> ba_baseSize ba' = ba_baseSize ba"
proof (cases "capacity_shortfall ba (length buf)")
  case True
  then show ?thesis by (simp add: ba_write_shortfall [OF assms])
next
  case False
  from ba_write_enough [OF assms this] obtain ba' where "ba_write ba buf = Ret ba'" "ba_inv ba'"
    "ba_abs ba' = fb_write (ba_abs ba) buf" "ba_endian ba' = ba_endian ba"
    "ba_baseSize ba' = ba_baseSize ba" .
  with False show ?thesis by auto
qed

theorem ba_write_refines_witness:
  "ba_write (ByteArray_new (\<lambda>_. 0) 4) [1, 2, 3, 4, 5, 6, 7] = Fault NullDeref
   \<and> (\<exists>ba'. ba_write (ByteArray_new (\<lambda>_. 0) 4) [1, 2, 3, 4, 5, 6, 7, 8] = Ret ba'
        \<and> fb_data (ba_abs ba') = [1, 2, 3, 4, 5, 6, 7, 8])"
proof -
  let ?ba = "ByteArray_new (\<lambda>_. 0) 4"
  have "capacity_shortfall ?ba (length [1 :: byte, 2, 3, 4, 5, 6, 7])"
    "\<not> capacity_shortfall ?ba (length [1 :: byte, 2, 3, 4, 5, 6, 7, 8])"
    by (simp_all add: capacity_shortfall_def ByteArray_new_def Let_def)
  then show ?thesis
    using ba_write_refines [OF ByteArray_new_inv, of 4 "\<lambda>_. 0" "[1, 2, 3, 4, 5, 6, 7]"]
      ba_write_refines [OF ByteArray_new_inv, of 4 "\<lambda>_. 0" "[1, 2, 3, 4, 5, 6, 7, 8]"]
    by (auto simp: ByteArray_new_abs fb_write_def)
qed

text \<open>C2. \<open>read\<close> of \<open>n\<close> bytes, in any state that keeps the representation invariant. Reading no byte
  while the position is at the end of the capacity dereferences the null current node. Every other
  read implements the flat-buffer read: it throws \<open>out_of_range\<close> exactly when fewer bytes are unread,
  else returns the next bytes, moves the cursor past them and keeps the invariant and the contents.\<close>

theorem ba_read_refines:
  assumes "ba_inv ba"
  shows "if n = 0 \<and> ba_position ba = ba_capacity ba then ba_read ba n = Fault NullDeref
     else obind (ba_read ba n) (\<lambda>(bs, ba'). Ret (bs, ba_abs ba')) = fb_read (ba_abs ba) n
       \<and> (\<forall>bs ba'. ba_read ba n = Ret (bs, ba') \<longrightarrow> ba_inv ba' \<and> ba_flat ba' = ba_flat ba)"
proof (cases "n = 0 \<and> ba_position ba = ba_capacity ba")
  case True
  then show ?thesis using ba_read_empty_at_end [OF assms] by simp
next
  case False
  then have "0 < n \<or> ba_position ba < ba_capacity ba" using ba_invD(2,3) [OF assms] by auto
  then show ?thesis using ba_read_elsewhere [OF assms] False by auto
qed

theorem ba_read_refines_witness:
  "obind (ba_read (ByteArray_new (\<lambda>_. 0) 4) 1) (\<lambda>(bs, ba'). Ret (bs, ba_abs ba')) = Throw OutOfRange
   \<and> (\<exists>ba'. setPosition (ByteArray_new (\<lambda>_. 0) 4) 4 = Ret ba' \<and> ba_read ba' 0 = Fault NullDeref)"
proof -
  let ?ba = "ByteArray_new (\<lambda>_. 0) 4"
  have i: "ba_inv ?ba" and c: "4 \<le> ba_capacity ?ba" by (rule ByteArray_new_inv) (simp_all add: ByteArray_new_def)
  note s = setPosition_ok [OF i c]
  have "obind (ba_read ?ba 1) (\<lambda>(bs, ba'). Ret (bs, ba_abs ba')) = Throw OutOfRange"
    using ba_read_refines [OF i, of 1] by (simp add: ByteArray_new_abs fb_read_def)
  then show ?thesis using s(1) ba_read_refines [OF s(2), of 0] by (simp add: ByteArray_new_def)
qed

end
