(* ===== verification/ByteArray_IO.thy ===== *)
theory ByteArray_IO
  imports ByteArray
begin

text \<open>
  The views of \<open>radixun/common/bytearray.cpp\<close> onto files, sockets and strings: the iovec arrays of
  \<open>getReadBuffers\<close> and \<open>getWriteBuffers\<close>, \<open>writeToFile\<close>, \<open>readFromFile\<close>, \<open>toString\<close> and
  \<open>toHexString\<close>. An iovec is a node index, an offset in the node and a length; what a gathering
  send reads and a scattering receive writes through such an array is \<open>iov_gather\<close> and
  \<open>iov_scatter\<close>.
\<close>

record iovec =
  iov_node :: nat
  iov_off :: nat
  iov_len :: nat

section \<open>Operations\<close>

text \<open>The loop that the three buffer functions share, over the local \<open>cur\<close>.\<close>

function collect_iovs :: "byte_array \<Rightarrow> nat option \<Rightarrow> nat \<Rightarrow> nat \<Rightarrow> nat \<Rightarrow> iovec list outcome" where
  "collect_iovs ba cur len npos ncap =
     (if len = 0 then Ret []
      else case cur of
        None \<Rightarrow> Fault NullDeref
      | Some i \<Rightarrow>
          if len \<le> ncap then Ret [\<lparr>iov_node = i, iov_off = npos, iov_len = len\<rparr>]
          else (case next_node ba i of
                  None \<Rightarrow> Fault NullDeref
                | Some j \<Rightarrow>
                    obind (collect_iovs ba (Some j) (len - ncap) 0 (node_size ba j)) (\<lambda>iovs.
                      Ret (\<lparr>iov_node = i, iov_off = npos, iov_len = ncap\<rparr> # iovs))))"
  by pat_completeness auto
termination
  by (relation "measure (\<lambda>(ba, cur, len, npos, ncap).
       case cur of None \<Rightarrow> 0 | Some i \<Rightarrow> length (ba_root ba) - i)")
     (auto simp: next_node_def split: if_splits)

declare collect_iovs.simps [simp del]

definition iovs_from :: "byte_array \<Rightarrow> nat option \<Rightarrow> nat \<Rightarrow> nat \<Rightarrow> (nat \<times> iovec list) outcome" where
  "iovs_from ba cur len npos =
     (case cur of
        None \<Rightarrow> Fault NullDeref
      | Some i \<Rightarrow> obind (collect_iovs ba (Some i) len npos (size_sub (node_size ba i) npos))
                    (\<lambda>iovs. Ret (len, iovs)))"

definition getReadBuffers :: "byte_array \<Rightarrow> nat \<Rightarrow> (nat \<times> iovec list) outcome" where
  "getReadBuffers ba len0 =
     (let len = (if len0 > getReadSize ba then getReadSize ba else len0)
      in if len = 0 then Ret (0, [])
         else if ba_baseSize ba = 0 then Fault DivByZero
         else iovs_from ba (ba_cur ba) len (ba_position ba mod ba_baseSize ba))"

text \<open>The overload with a position: \<open>count\<close> nodes are skipped from the root.\<close>

primrec skip_nodes :: "byte_array \<Rightarrow> nat \<Rightarrow> nat option \<Rightarrow> nat option outcome" where
  "skip_nodes ba 0 cur = Ret cur"
| "skip_nodes ba (Suc count) cur =
     (case cur of None \<Rightarrow> Fault NullDeref | Some i \<Rightarrow> skip_nodes ba count (next_node ba i))"

definition getReadBuffers_at :: "byte_array \<Rightarrow> nat \<Rightarrow> nat \<Rightarrow> (nat \<times> iovec list) outcome" where
  "getReadBuffers_at ba len0 position =
     (let len = (if len0 > getReadSize ba then getReadSize ba else len0)
      in if len = 0 then Ret (0, [])
         else if ba_baseSize ba = 0 then Fault DivByZero
         else obind (skip_nodes ba (position div ba_baseSize ba) (Some 0)) (\<lambda>cur.
                iovs_from ba cur len (position mod ba_baseSize ba)))"

definition getWriteBuffers :: "byte_array \<Rightarrow> nat \<Rightarrow> ((nat \<times> iovec list) \<times> byte_array) outcome" where
  "getWriteBuffers ba len =
     (if len = 0 then Ret ((0, []), ba)
      else obind (addCapacity ba len) (\<lambda>ba1.
        if ba_baseSize ba1 = 0 then Fault DivByZero
        else obind (iovs_from ba1 (ba_cur ba1) len (ba_position ba1 mod ba_baseSize ba1))
               (\<lambda>r. Ret (r, ba1))))"

text \<open>What a vectored send reads, and what a vectored receive of \<open>data\<close> leaves in memory.\<close>

definition iov_bytes :: "byte_array \<Rightarrow> iovec \<Rightarrow> byte list" where
  "iov_bytes ba v = take (iov_len v) (drop (iov_off v) (ba_root ba ! iov_node v))"

definition iov_gather :: "byte_array \<Rightarrow> iovec list \<Rightarrow> byte list" where
  "iov_gather ba iovs = concat (map (iov_bytes ba) iovs)"

fun iov_scatter :: "byte_array \<Rightarrow> iovec list \<Rightarrow> byte list \<Rightarrow> byte_array" where
  "iov_scatter ba [] data = ba"
| "iov_scatter ba (v # vs) data =
     (let i = iov_node v
      in iov_scatter (ba\<lparr>ba_root := (ba_root ba)[i := blit (iov_off v) (take (iov_len v) data) (ba_root ba ! i)]\<rparr>)
           vs (drop (iov_len v) data))"

text \<open>
  \<open>writeToFile\<close>: \<open>opened\<close> says whether the stream opened; the result is the returned flag and the
  bytes given to \<open>ofs.write\<close>. A negative count has no defined meaning there.
\<close>

function writeToFile_loop :: "byte_array \<Rightarrow> int \<Rightarrow> nat \<Rightarrow> nat option \<Rightarrow> byte list outcome" where
  "writeToFile_loop ba read_size pos cur =
     (if read_size \<le> 0 then Ret []
      else let diff = pos mod ba_baseSize ba;
               len = (if read_size > int (ba_baseSize ba) then int (ba_baseSize ba) else read_size) - int diff
           in case cur of
                None \<Rightarrow> Fault NullDeref
              | Some i \<Rightarrow>
                  if len < 0 then Fault OutOfBounds
                  else obind (node_read ba i diff (nat len)) (\<lambda>bs.
                    obind (case next_node ba i of
                             None \<Rightarrow> (if read_size - len \<le> 0 then Ret [] else Fault NullDeref)
                           | Some j \<Rightarrow> writeToFile_loop ba (read_size - len) (pos + nat len) (Some j))
                      (\<lambda>rest. Ret (bs @ rest))))"
  by pat_completeness auto
termination
  by (relation "measure (\<lambda>(ba, read_size, pos, cur).
       case cur of None \<Rightarrow> 0 | Some i \<Rightarrow> length (ba_root ba) - i)")
     (auto simp: next_node_def split: if_splits)

declare writeToFile_loop.simps [simp del]

definition writeToFile :: "bool \<Rightarrow> byte_array \<Rightarrow> (bool \<times> byte list) outcome" where
  "writeToFile opened ba =
     (if \<not> opened then Ret (False, [])
      else if ba_baseSize ba = 0 \<and> getReadSize ba > 0 then Fault DivByZero
      else obind (writeToFile_loop ba (int (getReadSize ba)) (ba_position ba) (ba_cur ba))
             (\<lambda>bs. Ret (True, bs)))"

text \<open>
  \<open>readFromFile\<close>: chunks of at most \<open>m_baseSize\<close> bytes until one falls short (end of file). With
  \<open>m_baseSize = 0\<close> the stream never reports its end.
\<close>

function readFromFile_loop :: "byte_array \<Rightarrow> nat \<Rightarrow> byte list \<Rightarrow> byte_array outcome" where
  "readFromFile_loop ba base content =
     (if base = 0 then Fault Diverge
      else obind (ba_write ba (take base content)) (\<lambda>ba1.
             if length content < base then Ret ba1
             else readFromFile_loop ba1 base (drop base content)))"
  by pat_completeness auto
termination
  by (relation "measure (\<lambda>(ba, base, content). length content)") auto

declare readFromFile_loop.simps [simp del]

definition readFromFile :: "byte list option \<Rightarrow> byte_array \<Rightarrow> (bool \<times> byte_array) outcome" where
  "readFromFile file ba =
     (case file of
        None \<Rightarrow> Ret (False, ba)
      | Some content \<Rightarrow>
          obind (readFromFile_loop ba (ba_baseSize ba) content) (\<lambda>ba1. Ret (True, ba1)))"

definition ba_toString :: "byte_array \<Rightarrow> byte list outcome" where
  "ba_toString ba =
     (if getReadSize ba = 0 then Ret [] else ba_read_at ba (getReadSize ba) (ba_position ba))"

definition hex_char :: "nat \<Rightarrow> char" where
  "hex_char n = (if n < 10 then char_of (48 + n) else char_of (87 + n))"

text \<open>One byte of \<open>toHexString\<close> at index \<open>i\<close>: two digits and a blank, a newline before every 32nd.\<close>

definition hex_cell :: "nat \<Rightarrow> byte \<Rightarrow> string" where
  "hex_cell i b = (if i > 0 \<and> i mod 32 = 0 then [CHR 0x0A] else [])
     @ [hex_char (unat b div 16), hex_char (unat b mod 16), CHR '' '']"

definition toHexString :: "byte_array \<Rightarrow> string outcome" where
  "toHexString ba = obind (ba_toString ba) (\<lambda>bs.
     Ret (concat (map (\<lambda>i. hex_cell i (bs ! i)) [0..<length bs])))"

section \<open>The iovec arrays cover a contiguous segment\<close>

fun iovs_cover :: "byte_array \<Rightarrow> nat \<Rightarrow> iovec list \<Rightarrow> bool" where
  "iovs_cover ba p [] = True"
| "iovs_cover ba p (v # vs) \<longleftrightarrow>
     iov_node v < length (ba_root ba) \<and> iov_off v + iov_len v \<le> ba_baseSize ba
     \<and> iov_node v * ba_baseSize ba + iov_off v = p \<and> iovs_cover ba (p + iov_len v) vs"

definition iovs_total :: "iovec list \<Rightarrow> nat" where
  "iovs_total vs = sum_list (map iov_len vs)"

lemma iovs_total_simps [simp]:
  "iovs_total [] = 0" "iovs_total (v # vs) = iov_len v + iovs_total vs"
  by (simp_all add: iovs_total_def)

lemma collect_iovs_ok:
  assumes "ba_geom ba" "i < length (ba_root ba)" "npos \<le> ba_baseSize ba"
    "ncap = ba_baseSize ba - npos" "0 < len" "i * ba_baseSize ba + npos + len \<le> ba_capacity ba"
  shows "\<exists>iovs. collect_iovs ba (Some i) len npos ncap = Ret iovs
          \<and> iovs_cover ba (i * ba_baseSize ba + npos) iovs \<and> iovs_total iovs = len"
  using assms
proof (induction ba "Some i" len npos ncap arbitrary: i rule: collect_iovs.induct)
  case (1 ba len npos ncap)
  let ?b = "ba_baseSize ba"
  note g = "1.prems"(1) and i = "1.prems"(2)
  show ?case
  proof (cases "len \<le> ncap")
    case True
    then show ?thesis using "1.prems" by (simp add: collect_iovs.simps [of ba "Some i"])
  next
    case False
    then have more: "i * ?b + ?b < ba_capacity ba" using "1.prems"(3,4,6) by simp
    then have nxt: "next_node ba i = Some (Suc i)" and si: "Suc i < length (ba_root ba)"
      using cursor_next [OF g i] g by (auto simp: cursor_at_def next_node_def split: if_splits)
    have bl: "?b < len + npos" using False "1.prems"(3,4) by simp
    obtain iovs where c: "collect_iovs ba (Some (Suc i)) (len - ncap) 0 ?b = Ret iovs"
      "iovs_cover ba (Suc i * ?b) iovs" "iovs_total iovs = len - ncap"
      using "1.hyps" [OF _ refl False nxt] False g si "1.prems"(3-6) geom_node_size [OF g si] bl
      by auto
    have e: "Suc i * ?b = i * ?b + npos + ncap" using "1.prems"(3,4) by simp
    show ?thesis
      using False nxt c(1,3) c(2) [unfolded e] "1.prems"(3-5) i geom_node_size [OF g si]
      by (simp add: collect_iovs.simps [of ba "Some i"])
  qed
qed

lemma gather_cover:
  assumes "ba_geom ba" "iovs_cover ba p iovs"
  shows "iov_gather ba iovs = take (iovs_total iovs) (drop p (ba_flat ba))"
  using assms(2)
proof (induction iovs arbitrary: p)
  case Nil
  then show ?case by (simp add: iov_gather_def)
next
  case (Cons v vs)
  have u: "uniform (ba_baseSize ba) (ba_root ba)" using assms(1) by (simp add: ba_geom_def)
  have v: "iov_bytes ba v = take (iov_len v) (drop p (ba_flat ba))"
    using concat_segment [OF u, of "iov_node v" "iov_off v" "iov_len v"] Cons.prems
    by (auto simp: iov_bytes_def ba_flat_def)
  have "iov_gather ba vs = take (iovs_total vs) (drop (p + iov_len v) (ba_flat ba))"
    using Cons by simp
  with v show ?case by (simp add: iov_gather_def take_add add.commute)
qed

lemma scatter_cover:
  assumes "ba_geom ba" "iovs_cover ba p iovs" "length data \<le> iovs_total iovs"
    "p + iovs_total iovs \<le> ba_capacity ba"
  shows "ba_flat (iov_scatter ba iovs data) = blit p data (ba_flat ba)
    \<and> (\<exists>root'. iov_scatter ba iovs data = ba\<lparr>ba_root := root'\<rparr>
          \<and> uniform (ba_baseSize ba) root' \<and> length root' = length (ba_root ba))"
  using assms
proof (induction ba iovs data arbitrary: p rule: iov_scatter.induct)
  case (1 ba data)
  then show ?case by (auto simp: ba_geom_def intro!: exI [of _ "ba_root ba"])
next
  case (2 ba v vs data)
  let ?b = "ba_baseSize ba" and ?i = "iov_node v" and ?o = "iov_off v" and ?n = "iov_len v"
  let ?root = "(ba_root ba)[?i := blit ?o (take ?n data) (ba_root ba ! ?i)]"
  let ?ba1 = "ba\<lparr>ba_root := ?root\<rparr>"
  have i: "?i < length (ba_root ba)" and p: "?i * ?b + ?o = p" and fits: "?o + length (take ?n data) \<le> ?b"
    using "2.prems"(2) by auto
  note blit = geom_blit [OF "2.prems"(1) i fits]
  have g1: "ba_geom ?ba1" using "2.prems"(1) blit by (simp add: ba_geom_def)
  have cover1: "iovs_cover ?ba1 q ws = iovs_cover ba q ws" for q ws
    by (induction ws arbitrary: q) auto
  have IH: "ba_flat (iov_scatter ?ba1 vs (drop ?n data)) = blit (p + ?n) (drop ?n data) (ba_flat ?ba1)
    \<and> (\<exists>root'. iov_scatter ?ba1 vs (drop ?n data) = ?ba1\<lparr>ba_root := root'\<rparr>
          \<and> uniform (ba_baseSize ?ba1) root' \<and> length root' = length (ba_root ?ba1))"
    using "2.prems" g1 by (intro "2.IH" [OF refl]) (auto simp: cover1)
  have flat1: "ba_flat ?ba1 = blit p (take ?n data) (ba_flat ba)"
    using blit(3) p by (simp add: ba_flat_def)
  have "blit (p + ?n) (drop ?n data) (ba_flat ?ba1) = blit p data (ba_flat ba)"
  proof (cases "length data \<le> ?n")
    case True
    then show ?thesis using flat1 by simp
  next
    case False
    then have l: "length (take ?n data) = ?n" by simp
    have "blit (p + ?n) (drop ?n data) (ba_flat ?ba1)
        = blit (p + length (take ?n data)) (drop ?n data) (blit p (take ?n data) (ba_flat ba))"
      by (simp only: flat1 l)
    also have "\<dots> = blit p (take ?n data @ drop ?n data) (ba_flat ba)"
      using "2.prems"(3,4) by (intro blit_append_src) (simp add: geom_length_flat [OF "2.prems"(1)])
    finally show ?thesis by simp
  qed
  then show ?case using IH by (auto simp: Let_def)
qed

section \<open>Buffer functions\<close>

lemma iovs_from_ok:
  assumes inv: "ba_inv ba" and len: "0 < len" and fits: "ba_position ba + len \<le> ba_capacity ba"
  obtains iovs where
    "iovs_from ba (ba_cur ba) len (ba_position ba mod ba_baseSize ba) = Ret (len, iovs)"
    "iovs_cover ba (ba_position ba) iovs" "iovs_total iovs = len"
proof -
  note I = ba_invD [OF inv]
  have pc: "ba_position ba < ba_capacity ba" using len fits by simp
  note C = inv_cursor_Some [OF inv pc]
  let ?b = "ba_baseSize ba" and ?p = "ba_position ba"
  have q: "?p mod ?b \<le> ?b" "?p div ?b * ?b + ?p mod ?b + len \<le> ba_capacity ba"
    using C(3,4) fits by simp_all
  obtain iovs where "collect_iovs ba (Some (?p div ?b)) len (?p mod ?b) (?b - ?p mod ?b) = Ret iovs"
    "iovs_cover ba ?p iovs" "iovs_total iovs = len"
    using collect_iovs_ok [OF I(1) C(2) q(1) refl len q(2)] unfolding C(4) by blast
  then show ?thesis using C(1,3)
    by (intro that [of iovs]) (simp_all add: iovs_from_def geom_node_size [OF I(1) C(2)] less_imp_le)
qed

lemma getReadBuffers_ok:
  assumes inv: "ba_inv ba"
  obtains iovs where "getReadBuffers ba len = Ret (min len (length (ba_unread ba)), iovs)"
    "iovs_cover ba (ba_position ba) iovs" "iovs_total iovs = min len (length (ba_unread ba))"
    "iov_gather ba iovs = take len (ba_unread ba)"
proof (cases "min len (length (ba_unread ba)) = 0")
  case True
  then have "getReadBuffers ba len = Ret (0, [])"
    by (auto simp: getReadBuffers_def inv_getReadSize [OF inv] Let_def)
  then show ?thesis using True by (intro that [of "[]"]) (auto simp: iov_gather_def min_def split: if_splits)
next
  case False
  let ?n = "min len (length (ba_unread ba))"
  note I = ba_invD [OF inv]
  have fits: "ba_position ba + ?n \<le> ba_capacity ba" using I(2,3) by (simp add: inv_length_unread [OF inv])
  obtain iovs where f: "iovs_from ba (ba_cur ba) ?n (ba_position ba mod ba_baseSize ba) = Ret (?n, iovs)"
    "iovs_cover ba (ba_position ba) iovs" "iovs_total iovs = ?n"
    using iovs_from_ok [OF inv _ fits] False by auto
  have "(if len > getReadSize ba then getReadSize ba else len) = ?n"
    by (simp add: inv_getReadSize [OF inv] min_def)
  then have "getReadBuffers ba len = Ret (?n, iovs)"
    using False f(1) I(5) by (simp add: getReadBuffers_def Let_def del: min_less_iff_conj)
  moreover have "iov_gather ba iovs = take ?n (drop (ba_position ba) (ba_flat ba))"
    using gather_cover [OF I(1) f(2)] f(3) by simp
  moreover have "take ?n (drop (ba_position ba) (ba_flat ba)) = take len (ba_unread ba)"
    by (simp only: inv_length_unread [OF inv]) (simp add: ba_unread_def)
  ultimately show ?thesis using f(2,3) by (intro that [of iovs]) auto
qed

text \<open>
  Receiving through \<open>getWriteBuffers\<close>: the array covers \<open>len\<close> bytes from the position on; filling it
  with \<open>data\<close> and moving the position by \<open>|data|\<close> is the abstract write of \<open>data\<close>.
\<close>

lemma collect_iovs_short:
  assumes "ba_geom ba" "i < length (ba_root ba)" "npos \<le> ba_baseSize ba"
    "ncap = ba_baseSize ba - npos" "ba_capacity ba < i * ba_baseSize ba + npos + len"
  shows "collect_iovs ba (Some i) len npos ncap = Fault NullDeref"
  using assms
proof (induction ba "Some i" len npos ncap arbitrary: i rule: collect_iovs.induct)
  case (1 ba len npos ncap)
  let ?b = "ba_baseSize ba"
  note g = "1.prems"(1) and i = "1.prems"(2)
  have "Suc i * ?b \<le> length (ba_root ba) * ?b" using i by (intro mult_le_mono1) simp
  then have cap: "i * ?b + ?b \<le> ba_capacity ba" using g by (simp add: ba_geom_def)
  have len: "\<not> len \<le> ncap" "len \<noteq> 0" using cap "1.prems"(3-5) by auto
  show ?case
  proof (cases "next_node ba i")
    case None
    then show ?thesis using len by (simp add: collect_iovs.simps [of ba "Some i"])
  next
    case (Some j)
    then have j: "j = Suc i" "Suc i < length (ba_root ba)" by (auto simp: next_node_def split: if_splits)
    have "ba_capacity ba < Suc i * ?b + 0 + (len - ncap)" using "1.prems"(3-5) len(1) by simp
    then have "collect_iovs ba (Some (Suc i)) (len - ncap) 0 ?b = Fault NullDeref"
      using "1.hyps" [OF len(2) refl len(1) Some] Some g j geom_node_size [OF g j(2)] by simp
    then show ?thesis using len Some j geom_node_size [OF g j(2)]
      by (simp add: collect_iovs.simps [of ba "Some i"])
  qed
qed

lemma getWriteBuffers_shortfall:
  assumes inv: "ba_inv ba" and short: "capacity_shortfall ba len"
  shows "getWriteBuffers ba len = Fault NullDeref"
proof -
  obtain ba1 new where a: "addCapacity ba len = Ret ba1" "ba_inv ba1"
    and room: "len \<le> ba_capacity ba1 - ba_position ba1 \<longleftrightarrow> \<not> capacity_shortfall ba len"
    using addCapacity_ok [OF inv, of len] by metis
  let ?b = "ba_baseSize ba1" and ?p = "ba_position ba1"
  note I = ba_invD [OF a(2)]
  have ne: "len \<noteq> 0" and over: "ba_capacity ba1 < ?p + len"
    using short room by (auto simp: capacity_shortfall_def Let_def)
  have "iovs_from ba1 (ba_cur ba1) len (?p mod ?b) = Fault NullDeref"
  proof (cases "?p < ba_capacity ba1")
    case True
    note C = inv_cursor_Some [OF a(2) True]
    have "collect_iovs ba1 (Some (?p div ?b)) len (?p mod ?b) (?b - ?p mod ?b) = Fault NullDeref"
      using C over by (intro collect_iovs_short [OF I(1) C(2)]) auto
    then show ?thesis using C(1,3)
      by (simp add: iovs_from_def geom_node_size [OF I(1) C(2)] less_imp_le)
  next
    case False
    then show ?thesis using I(4) by (simp add: iovs_from_def cursor_at_def)
  qed
  then show ?thesis using ne a(1) I(5) by (simp add: getWriteBuffers_def)
qed

lemma getWriteBuffers_ok:
  assumes inv: "ba_inv ba" and enough: "\<not> capacity_shortfall ba len" and len: "0 < len"
  obtains iovs ba1 where "getWriteBuffers ba len = Ret ((len, iovs), ba1)" "ba_inv ba1"
    "iovs_cover ba1 (ba_position ba1) iovs" "iovs_total iovs = len"
    "ba_abs ba1 = ba_abs ba" "ba_position ba1 + len \<le> ba_capacity ba1"
proof -
  obtain ba1 new where a: "addCapacity ba len = Ret ba1" "ba_inv ba1"
    and f: "ba_flat ba1 = ba_flat ba @ new"
    and same: "ba_position ba1 = ba_position ba" "ba_size ba1 = ba_size ba"
    and room: "len \<le> ba_capacity ba1 - ba_position ba1 \<longleftrightarrow> \<not> capacity_shortfall ba len"
    using addCapacity_ok [OF inv, of len] by metis
  note I = ba_invD [OF a(2)]
  have fits: "ba_position ba1 + len \<le> ba_capacity ba1" using room enough I(2,3) by linarith
  obtain iovs where i: "iovs_from ba1 (ba_cur ba1) len (ba_position ba1 mod ba_baseSize ba1) = Ret (len, iovs)"
    "iovs_cover ba1 (ba_position ba1) iovs" "iovs_total iovs = len"
    using iovs_from_ok [OF a(2) len fits] by blast
  have abs: "ba_abs ba1 = ba_abs ba"
    using ba_invD(1,3) [OF inv] by (simp add: ba_abs_def f same geom_length_flat)
  show ?thesis
    by (rule that [OF _ a(2) i(2,3) abs fits]) (use a(1) i(1) I(5) len in \<open>simp add: getWriteBuffers_def\<close>)
qed

lemma scatter_then_setPosition:
  assumes inv: "ba_inv ba" and cover: "iovs_cover ba (ba_position ba) iovs"
    and len: "length data \<le> iovs_total iovs" "ba_position ba + iovs_total iovs \<le> ba_capacity ba"
  obtains ba' where "setPosition (iov_scatter ba iovs data) (ba_position ba + length data) = Ret ba'"
    "ba_inv ba'" "ba_abs ba' = fb_write (ba_abs ba) data"
proof -
  note I = ba_invD [OF inv]
  let ?p = "ba_position ba" and ?n = "length data" and ?s = "ba_size ba"
  obtain root' where flat: "ba_flat (iov_scatter ba iovs data) = blit ?p data (ba_flat ba)"
    and eq: "iov_scatter ba iovs data = ba\<lparr>ba_root := root'\<rparr>"
    and u: "uniform (ba_baseSize ba) root'" "length root' = length (ba_root ba)"
    using scatter_cover [OF I(1) cover len] by blast
  have inv1: "ba_inv (ba\<lparr>ba_root := root'\<rparr>)"
    using inv u by (auto simp: ba_inv_def ba_geom_def)
  have v: "?p + ?n \<le> ba_capacity (ba\<lparr>ba_root := root'\<rparr>)" using len by simp
  note S = setPosition_ok [OF inv1 v]
  have L: "length (ba_flat ba) = ba_capacity ba" by (rule geom_length_flat [OF I(1)])
  have c: "concat root' = blit ?p data (ba_flat ba)" using flat by (simp add: eq ba_flat_def)
  have "take (max (?p + ?n) ?s) (blit ?p data (ba_flat ba))
      = take ?p (take ?s (ba_flat ba)) @ data @ drop (?p + ?n) (take ?s (ba_flat ba))"
  proof (cases "?p + ?n \<ge> ?s")
    case True
    then show ?thesis using len L I(2,3) by (simp add: take_blit_all max_def min_absorb1)
  next
    case False
    then show ?thesis using I(2,3) L by (auto simp: blit_def min_def drop_take max_def)
  qed
  then have "ba_abs (ba\<lparr>ba_root := root', ba_position := ?p + ?n, ba_size := max (?p + ?n) ?s,
      ba_cur := cursor_at ba (?p + ?n)\<rparr>) = fb_write (ba_abs ba) data"
    by (simp add: ba_abs_def fb_write_def ba_flat_def c)
  moreover have "setPosition (iov_scatter ba iovs data) (?p + ?n) = Ret (ba\<lparr>ba_root := root',
      ba_position := ?p + ?n, ba_size := max (?p + ?n) ?s, ba_cur := cursor_at ba (?p + ?n)\<rparr>)"
    using S(1) by (simp add: eq)
  ultimately show ?thesis using S(2) by (intro that) auto
qed

section \<open>Files and strings\<close>

lemma ba_toString_ok: "ba_inv ba \<Longrightarrow> ba_toString ba = Ret (ba_unread ba)"
proof -
  assume inv: "ba_inv ba"
  show ?thesis
  proof (cases "ba_unread ba = []")
    case True
    then show ?thesis by (simp add: ba_toString_def inv_getReadSize [OF inv])
  next
    case False
    then have "0 < length (ba_unread ba)" by simp
    then have "ba_position ba < ba_size ba" by (simp add: inv_length_unread [OF inv])
    then show ?thesis
      using ba_read_enough(1) [OF inv, of "length (ba_unread ba)"] inv_length_unread [OF inv]
      by (simp add: ba_toString_def inv_getReadSize [OF inv] ba_read_at_here [OF inv])
  qed
qed

lemma writeToFile_loop_aligned:
  assumes "ba_geom ba" "0 < r" "p mod ba_baseSize ba = 0" "p + r \<le> ba_capacity ba"
  shows "writeToFile_loop ba (int r) p (Some (p div ba_baseSize ba)) = Ret (take r (drop p (ba_flat ba)))"
  using assms(2-4)
proof (induction r arbitrary: p rule: less_induct)
  case (less r)
  let ?b = "ba_baseSize ba" and ?i = "p div ba_baseSize ba"
  have b: "0 < ?b" and cap: "ba_capacity ba = length (ba_root ba) * ?b"
    using assms(1) by (auto simp: ba_geom_def)
  have p: "?i * ?b = p" using less.prems(2) by auto
  have i: "?i < length (ba_root ba)"
    using less.prems b cap by (intro block_index_less) auto
  have read: "node_read ba ?i 0 m = Ret (take m (drop p (ba_flat ba)))" if "m \<le> ?b" for m
    using node_read_ok [OF assms(1) i, of 0 m] that p by simp
  show ?case
  proof (cases "r \<le> ?b")
    case True
    then show ?thesis using less.prems(1,2) read [OF True]
      by (simp add: writeToFile_loop.simps [of ba "int r"] writeToFile_loop.simps [of ba 0] Let_def
          split: option.split)
  next
    case False
    have e: "(p + ?b) div ?b = Suc ?i" using div_add_self2 [of ?b p] b by simp
    have nxt: "next_node ba ?i = Some (Suc ?i)"
      using cursor_next [OF assms(1) i] less.prems(3) False b unfolding p
      by (simp add: cursor_at_def e)
    have "writeToFile_loop ba (int r - int ?b) (p + ?b) (Some (Suc ?i))
        = Ret (take (r - ?b) (drop (p + ?b) (ba_flat ba)))"
      using less.IH [of "r - ?b" "p + ?b"] False less.prems b unfolding e by (simp add: of_nat_diff)
    moreover have "take r (drop p (ba_flat ba))
        = take ?b (drop p (ba_flat ba)) @ take (r - ?b) (drop (p + ?b) (ba_flat ba))"
      using take_add [of ?b "r - ?b" "drop p (ba_flat ba)"] False by (simp add: add.commute)
    ultimately show ?thesis using False less.prems(2) read [of ?b] nxt
      by (simp add: writeToFile_loop.simps [of ba "int r"] Let_def)
  qed
qed

text \<open>
  \<open>writeToFile\<close> is right when the position is a multiple of the block size or at least one block is
  left to write; the first chunk is otherwise cut short by the offset.
\<close>

lemma writeToFile_ok:
  assumes inv: "ba_inv ba"
    and ok: "ba_position ba mod ba_baseSize ba = 0 \<or> ba_baseSize ba \<le> length (ba_unread ba)"
  shows "writeToFile True ba = Ret (True, ba_unread ba)"
proof -
  note I = ba_invD [OF inv]
  let ?b = "ba_baseSize ba" and ?p = "ba_position ba" and ?r = "length (ba_unread ba)"
  let ?d = "?p mod ?b" and ?i = "?p div ?b"
  have r: "?r = ba_size ba - ?p" by (rule inv_length_unread [OF inv])
  have out: "ba_unread ba = take ?r (drop ?p (ba_flat ba))" by (simp add: r) (simp add: ba_unread_def)
  have "writeToFile_loop ba (int ?r) ?p (ba_cur ba) = Ret (ba_unread ba)"
  proof (cases "?r = 0")
    case True
    then show ?thesis by (simp add: writeToFile_loop.simps [of ba 0])
  next
    case False
    have fits: "?p + ?r \<le> ba_capacity ba" using I(2,3) r by simp
    moreover from False have "0 < ?r" by simp
    ultimately have pc: "?p < ba_capacity ba" by linarith
    note C = inv_cursor_Some [OF inv pc]
    show ?thesis
    proof (cases "?d = 0")
      case True
      then show ?thesis using writeToFile_loop_aligned [OF I(1) _ True fits] False C(1) out by simp
    next
      case d: False
      then have big: "?b \<le> ?r" using ok by simp
      let ?m = "?b - ?d"
      have m: "?m < ?r" "?p + ?m = Suc ?i * ?b" using d big C(3) block_end [OF I(5)] by auto
      have nxt: "next_node ba ?i = Some (Suc ?i)"
        using cursor_next [OF I(1) C(2)] m fits I(5) by (simp add: cursor_at_def)
      have idx: "(?p + ?m) div ?b = Suc ?i" "(?p + ?m) mod ?b = 0" unfolding m(2) using I(5) by simp_all
      have rest: "writeToFile_loop ba (int ?r - int ?m) (?p + ?m) (Some (Suc ?i))
          = Ret (take (?r - ?m) (drop (?p + ?m) (ba_flat ba)))"
        using writeToFile_loop_aligned [OF I(1), of "?r - ?m" "?p + ?m"] idx m(1) fits
        by (simp add: of_nat_diff)
      have read: "node_read ba ?i ?d ?m = Ret (take ?m (drop ?p (ba_flat ba)))"
        using node_read_ok [OF I(1) C(2), of ?d ?m] C(3,4) by simp
      have len: "(if int ?r > int ?b then int ?b else int ?r) - int ?d = int ?m"
        using big C(3) by (cases "?r = ?b") auto
      have "writeToFile_loop ba (int ?r) ?p (Some ?i)
          = Ret (take ?m (drop ?p (ba_flat ba)) @ take (?r - ?m) (drop (?p + ?m) (ba_flat ba)))"
        using False read nxt rest by (simp only: writeToFile_loop.simps [of ba "int ?r"] Let_def len) simp
      also have "take ?m (drop ?p (ba_flat ba)) @ take (?r - ?m) (drop (?p + ?m) (ba_flat ba))
          = take ?r (drop ?p (ba_flat ba))"
        using take_add [of ?m "?r - ?m" "drop ?p (ba_flat ba)"] m(1) by (simp add: add.commute)
      finally show ?thesis using C(1) out by simp
    qed
  qed
  then show ?thesis using I(5) by (simp add: writeToFile_def inv_getReadSize [OF inv])
qed

text \<open>A block-sized write at a block boundary is never short of capacity.\<close>

lemma no_shortfall_aligned:
  assumes inv: "ba_inv ba" and al: "ba_position ba mod ba_baseSize ba = 0" and n: "n \<le> ba_baseSize ba"
  shows "\<not> capacity_shortfall ba n"
proof -
  note I = ba_invD [OF inv]
  have "(ba_capacity ba - ba_position ba) mod ba_baseSize ba = 0"
    using I(1) al by (simp add: ba_geom_def) (metis dvd_diff_nat dvd_triv_right mod_0_imp_dvd dvd_imp_mod_0)
  then have "ba_capacity ba - ba_position ba = 0 \<or> ba_baseSize ba \<le> ba_capacity ba - ba_position ba"
    by (metis mod_less not_less)
  then show ?thesis using n by (auto simp: capacity_shortfall_def Let_def)
qed

lemma readFromFile_loop_ok:
  assumes "ba_inv ba" "ba_position ba mod ba_baseSize ba = 0"
  obtains ba' where "readFromFile_loop ba (ba_baseSize ba) content = Ret ba'" "ba_inv ba'"
    "ba_abs ba' = fb_write (ba_abs ba) content"
  using assms
proof (induction ba "ba_baseSize ba" content arbitrary: thesis rule: readFromFile_loop.induct)
  case (1 ba content)
  note inv = "1.prems"(2) and al = "1.prems"(3)
  let ?b = "ba_baseSize ba" and ?c = "take (ba_baseSize ba) content"
  have b: "?b \<noteq> 0" using ba_invD(5) [OF inv] by simp
  have c: "length ?c \<le> ?b" by simp
  obtain ba1 where w: "ba_write ba ?c = Ret ba1" "ba_inv ba1" "ba_abs ba1 = fb_write (ba_abs ba) ?c"
    and base: "ba_baseSize ba1 = ?b"
    using ba_write_enough [OF inv no_shortfall_aligned [OF inv al c]] by metis
  show ?case
  proof (cases "length content < ?b")
    case True
    then show ?thesis using w b "1.prems"(1) [of ba1] by (simp add: readFromFile_loop.simps [of ba])
  next
    case False
    have pos: "ba_position ba1 = ba_position ba + ?b"
      using w(3) False by (simp add: ba_abs_def fb_write_def)
    have al1: "ba_position ba1 mod ba_baseSize ba1 = 0" using al pos base by simp
    obtain ba2 where r: "readFromFile_loop ba1 ?b (drop ?b content) = Ret ba2" "ba_inv ba2"
      "ba_abs ba2 = fb_write (ba_abs ba1) (drop ?b content)"
      using "1.hyps" [OF b w(1) False base [symmetric]] w(2) al1 base by metis
    have "fb_pos (ba_abs ba) \<le> length (fb_data (ba_abs ba))"
      using ba_invD(2) [OF inv] ba_abs_length [OF inv] by (simp add: ba_abs_def)
    then have "ba_abs ba2 = fb_write (ba_abs ba) content"
      using r(3) w(3) by (simp add: fb_write_append)
    then show ?thesis using r(1,2) w(1) b False "1.prems"(1) [of ba2]
      by (simp add: readFromFile_loop.simps [of ba])
  qed
qed


section \<open>Properties\<close>

text \<open>C5. The zero-copy input path of the socket stream, for a positive length and any state that keeps
  the invariant. When \<open>addCapacity\<close> falls short of the length, \<open>getWriteBuffers(len)\<close> dereferences a
  null node. Otherwise the buffers it hands out cover \<open>len\<close> bytes from the cursor, and filling them
  with received data and then moving the position past it is the same as writing the data, whatever
  part of the room was filled.\<close>

theorem getWriteBuffers_scatter:
  assumes "ba_inv ba" and "0 < len" and "length data \<le> len"
  shows "if capacity_shortfall ba len then getWriteBuffers ba len = Fault NullDeref
     else \<exists>iovs ba1 ba2. getWriteBuffers ba len = Ret ((len, iovs), ba1) \<and> iovs_total iovs = len
       \<and> setPosition (iov_scatter ba1 iovs data) (ba_position ba1 + length data) = Ret ba2
       \<and> ba_inv ba2 \<and> ba_abs ba2 = fb_write (ba_abs ba) data"
proof (cases "capacity_shortfall ba len")
  case True
  then show ?thesis using getWriteBuffers_shortfall [OF assms(1)] by simp
next
  case False
  obtain iovs ba1 where g: "getWriteBuffers ba len = Ret ((len, iovs), ba1)" "ba_inv ba1"
    "iovs_cover ba1 (ba_position ba1) iovs" "iovs_total iovs = len"
    "ba_abs ba1 = ba_abs ba" "ba_position ba1 + len \<le> ba_capacity ba1"
    using getWriteBuffers_ok [OF assms(1) False assms(2)] .
  obtain ba2 where "setPosition (iov_scatter ba1 iovs data) (ba_position ba1 + length data) = Ret ba2"
    "ba_inv ba2" "ba_abs ba2 = fb_write (ba_abs ba1) data"
    using scatter_then_setPosition [OF g(2,3), of data] g(4,6) assms(3) by metis
  with g False show ?thesis by auto
qed

theorem getWriteBuffers_scatter_witness:
  "\<exists>iovs ba1 ba2. getWriteBuffers (ByteArray_new (\<lambda>_. 0) 4) 8 = Ret ((8, iovs), ba1)
     \<and> setPosition (iov_scatter ba1 iovs [1, 2, 3, 4, 5]) (ba_position ba1 + 5) = Ret ba2
     \<and> fb_data (ba_abs ba2) = [1, 2, 3, 4, 5] \<and> getWriteBuffers (ByteArray_new (\<lambda>_. 0) 4) 7 = Fault NullDeref"
proof -
  let ?ba = "ByteArray_new (\<lambda>_. 0) 4"
  have e: "\<not> capacity_shortfall ?ba 8" "capacity_shortfall ?ba 7"
    by (simp_all add: capacity_shortfall_def ByteArray_new_def Let_def)
  have i: "ba_inv ?ba" by (simp add: ByteArray_new_inv)
  have "getWriteBuffers ?ba 7 = Fault NullDeref"
    using getWriteBuffers_scatter [OF i, of 7 "[]"] e(2) by simp
  moreover have "\<exists>iovs ba1 ba2. getWriteBuffers ?ba 8 = Ret ((8, iovs), ba1)
     \<and> setPosition (iov_scatter ba1 iovs [1, 2, 3, 4, 5]) (ba_position ba1 + length [1, 2, 3, 4, 5 :: byte]) = Ret ba2
     \<and> fb_data (ba_abs ba2) = [1, 2, 3, 4, 5]"
    using getWriteBuffers_scatter [OF i, of 8 "[1, 2, 3, 4, 5]"] e(1)
    by (fastforce simp: ByteArray_new_abs fb_write_def)
  moreover have "length [1, 2, 3, 4, 5 :: byte] = 5" by simp
  ultimately show ?thesis by (metis (no_types))
qed

text \<open>C6. The zero-copy output path: the buffers \<open>getReadBuffers(len)\<close> hands out are, concatenated, the
  next \<open>len\<close> unread bytes (all of them when fewer are left), which is what \<open>toString\<close> copies out.\<close>

theorem getReadBuffers_gather:
  assumes "ba_inv ba"
  shows "\<exists>iovs. getReadBuffers ba len = Ret (min len (length (ba_unread ba)), iovs)
     \<and> iov_gather ba iovs = take len (ba_unread ba) \<and> ba_toString ba = Ret (ba_unread ba)"
  using getReadBuffers_ok [OF assms, of len] ba_toString_ok [OF assms] by blast

theorem getReadBuffers_gather_witness:
  "\<exists>iovs. getReadBuffers ((ByteArray_new (\<lambda>_. 7) 4)\<lparr>ba_size := 3\<rparr>) 2 = Ret (2, iovs)
     \<and> iov_gather ((ByteArray_new (\<lambda>_. 7) 4)\<lparr>ba_size := 3\<rparr>) iovs = [7, 7]"
proof -
  let ?ba = "(ByteArray_new (\<lambda>_. 7) 4)\<lparr>ba_size := 3\<rparr>"
  have "ba_inv ?ba" by (simp add: ba_inv_def ba_geom_def ByteArray_new_def new_Node_def cursor_at_def)
  moreover have "ba_unread ?ba = [7, 7, 7]"
    by (simp add: ba_unread_def ba_flat_def ByteArray_new_def new_Node_def upt_rec)
  ultimately show ?thesis using getReadBuffers_gather [of ?ba 2]
    by (auto simp: numeral_2_eq_2 numeral_3_eq_3)
qed

end
