(* ===== verification/ByteArray_Codec.thy ===== *)
theory ByteArray_Codec
  imports ByteArray
begin

unbundle bit_operations_syntax

text \<open>
  The typed reads and writes of \<open>radixun/common/bytearray.cpp\<close>: fixed-width integers in the array's
  byte order, base-128 varints, zigzag-coded signed varints and the four string formats.

  Signed and unsigned versions share a model: an \<open>intN_t\<close> is its \<open>N\<close>-bit two's complement word. A
  \<open>float\<close> or \<open>double\<close> is its 32 or 64 bit image, which is all the code touches. \<open>host\<close> is
  \<open>RADIXUN_BYTE_ORDER\<close>.

  The locale \<open>codec\<close> states the contract of one pair of functions (what it writes is a wire image,
  what it reads is the value whose image is next) and proves once that any sequence of values
  written and read back is unchanged. It is interpreted on every pair below.
\<close>

section \<open>Fixed-width values\<close>

definition writeFixed :: "nat \<Rightarrow> byte_array \<Rightarrow> 'a::len word \<Rightarrow> byte_array outcome" where
  "writeFixed host ba v =
     (let v' = (if ba_endian ba \<noteq> host then byteswap v else v) in ba_write ba (host_bytes host v'))"

definition readFixed :: "nat \<Rightarrow> byte_array \<Rightarrow> ('a::len word \<times> byte_array) outcome" where
  "readFixed host ba = obind (ba_read ba (LENGTH('a) div 8)) (\<lambda>(bs, ba1).
     let v = host_word host bs in Ret (if ba_endian ba1 = host then v else byteswap v, ba1))"

definition writeFuint8 :: "byte_array \<Rightarrow> byte \<Rightarrow> byte_array outcome" where
  "writeFuint8 ba v = ba_write ba [v]"

definition readFuint8 :: "byte_array \<Rightarrow> (byte \<times> byte_array) outcome" where
  "readFuint8 ba = obind (ba_read ba 1) (\<lambda>(bs, ba1). Ret (hd bs, ba1))"

definition writeFuint16 :: "nat \<Rightarrow> byte_array \<Rightarrow> u16 \<Rightarrow> byte_array outcome" where
  "writeFuint16 = writeFixed"

definition writeFuint32 :: "nat \<Rightarrow> byte_array \<Rightarrow> u32 \<Rightarrow> byte_array outcome" where
  "writeFuint32 = writeFixed"

definition writeFuint64 :: "nat \<Rightarrow> byte_array \<Rightarrow> u64 \<Rightarrow> byte_array outcome" where
  "writeFuint64 = writeFixed"

definition readFuint16 :: "nat \<Rightarrow> byte_array \<Rightarrow> (u16 \<times> byte_array) outcome" where
  "readFuint16 = readFixed"

definition readFuint32 :: "nat \<Rightarrow> byte_array \<Rightarrow> (u32 \<times> byte_array) outcome" where
  "readFuint32 = readFixed"

definition readFuint64 :: "nat \<Rightarrow> byte_array \<Rightarrow> (u64 \<times> byte_array) outcome" where
  "readFuint64 = readFixed"

text \<open>The signed and the floating-point versions, on two's complement words and on memory images.\<close>

definition writeFint8 :: "byte_array \<Rightarrow> byte \<Rightarrow> byte_array outcome" where
  "writeFint8 ba v = ba_write ba [v]"

definition readFint8 :: "byte_array \<Rightarrow> (byte \<times> byte_array) outcome" where
  "readFint8 ba = obind (ba_read ba 1) (\<lambda>(bs, ba1). Ret (hd bs, ba1))"

definition writeFint16 :: "nat \<Rightarrow> byte_array \<Rightarrow> u16 \<Rightarrow> byte_array outcome" where
  "writeFint16 = writeFixed"

definition readFint16 :: "nat \<Rightarrow> byte_array \<Rightarrow> (u16 \<times> byte_array) outcome" where
  "readFint16 = readFixed"

definition writeFint32 :: "nat \<Rightarrow> byte_array \<Rightarrow> u32 \<Rightarrow> byte_array outcome" where
  "writeFint32 = writeFixed"

definition readFint32 :: "nat \<Rightarrow> byte_array \<Rightarrow> (u32 \<times> byte_array) outcome" where
  "readFint32 = readFixed"

definition writeFint64 :: "nat \<Rightarrow> byte_array \<Rightarrow> u64 \<Rightarrow> byte_array outcome" where
  "writeFint64 = writeFixed"

definition readFint64 :: "nat \<Rightarrow> byte_array \<Rightarrow> (u64 \<times> byte_array) outcome" where
  "readFint64 = readFixed"

definition writeFloat :: "nat \<Rightarrow> byte_array \<Rightarrow> u32 \<Rightarrow> byte_array outcome" where
  "writeFloat host ba img = writeFuint32 host ba img"

definition writeDouble :: "nat \<Rightarrow> byte_array \<Rightarrow> u64 \<Rightarrow> byte_array outcome" where
  "writeDouble host ba img = writeFuint64 host ba img"

definition readFloat :: "nat \<Rightarrow> byte_array \<Rightarrow> (u32 \<times> byte_array) outcome" where
  "readFloat host ba = readFuint32 host ba"

definition readDouble :: "nat \<Rightarrow> byte_array \<Rightarrow> (u64 \<times> byte_array) outcome" where
  "readDouble host ba = readFuint64 host ba"

section \<open>Varints and zigzag\<close>

text \<open>The bytes \<open>tmp\<close> of \<open>writeUint32\<close> and \<open>writeUint64\<close>: seven bits at a time, low bits first.\<close>

function varint_bytes :: "nat \<Rightarrow> byte list" where
  "varint_bytes value =
     (if value \<ge> 0x80
      then of_nat ((value AND 0x7F) OR 0x80) # varint_bytes (drop_bit 7 value)
      else [of_nat value])"
  by pat_completeness auto
termination
  by (relation "measure id") (auto simp: drop_bit_eq_div)

declare varint_bytes.simps [simp del]

definition writeUint32 :: "byte_array \<Rightarrow> u32 \<Rightarrow> byte_array outcome" where
  "writeUint32 ba value = ba_write ba (varint_bytes (unat value))"

definition writeUint64 :: "byte_array \<Rightarrow> u64 \<Rightarrow> byte_array outcome" where
  "writeUint64 ba value = ba_write ba (varint_bytes (unat value))"

text \<open>The loop of \<open>readUint32\<close> and \<open>readUint64\<close>, at the width of the result.\<close>

function readVarint_loop :: "byte_array \<Rightarrow> nat \<Rightarrow> 'a::len word \<Rightarrow> ('a word \<times> byte_array) outcome" where
  "readVarint_loop ba i result =
     (if i < LENGTH('a) then
        obind (readFuint8 ba) (\<lambda>(b, ba1).
          if b < 0x80 then Ret (result OR push_bit i (ucast b), ba1)
          else readVarint_loop ba1 (i + 7) (result OR push_bit i (ucast (b AND 0x7F))))
      else Ret (result, ba))"
  by pat_completeness auto
termination
  by (relation "measure (\<lambda>(ba, i, result :: 'a::len word). LENGTH('a) - i)") auto

declare readVarint_loop.simps [simp del]

definition readUint32 :: "byte_array \<Rightarrow> (u32 \<times> byte_array) outcome" where
  "readUint32 ba = readVarint_loop ba 0 0"

definition readUint64 :: "byte_array \<Rightarrow> (u64 \<times> byte_array) outcome" where
  "readUint64 ba = readVarint_loop ba 0 0"

text \<open>
  \<open>EncodeZigzag\<close> and \<open>DecodeZigzag\<close>. The encoder computes \<open>-v\<close> and \<open>v * 2\<close> in the signed type of \<open>v\<close>,
  before the result is converted to the unsigned one: a result that the signed type cannot hold
  (\<open>-v\<close> of the least value, \<open>v * 2\<close> from \<open>2 ^ (N - 2)\<close> on) is \<open>Fault SignedOverflow\<close>. The \<open>* 2 - 1\<close>
  of the negative branch is unsigned and wraps.
\<close>

definition fits_signed :: "nat \<Rightarrow> int \<Rightarrow> bool" where
  "fits_signed n r \<longleftrightarrow> - (2 ^ (n - 1)) \<le> r \<and> r < 2 ^ (n - 1)"

definition EncodeZigzag :: "'a::len word \<Rightarrow> 'a word outcome" where
  "EncodeZigzag v =
     (if v <s 0 then
        if fits_signed LENGTH('a) (- sint v) then Ret ((- v) * 2 - 1) else Fault SignedOverflow
      else if fits_signed LENGTH('a) (sint v * 2) then Ret (v * 2) else Fault SignedOverflow)"

definition DecodeZigzag :: "'a::len word \<Rightarrow> 'a word" where
  "DecodeZigzag v = drop_bit 1 v XOR - (v AND 1)"

definition writeInt32 :: "byte_array \<Rightarrow> u32 \<Rightarrow> byte_array outcome" where
  "writeInt32 ba value = obind (EncodeZigzag value) (writeUint32 ba)"

definition writeInt64 :: "byte_array \<Rightarrow> u64 \<Rightarrow> byte_array outcome" where
  "writeInt64 ba value = obind (EncodeZigzag value) (writeUint64 ba)"

definition readInt32 :: "byte_array \<Rightarrow> (u32 \<times> byte_array) outcome" where
  "readInt32 ba = obind (readUint32 ba) (\<lambda>(v, ba1). Ret (DecodeZigzag v, ba1))"

definition readInt64 :: "byte_array \<Rightarrow> (u64 \<times> byte_array) outcome" where
  "readInt64 ba = obind (readUint64 ba) (\<lambda>(v, ba1). Ret (DecodeZigzag v, ba1))"

section \<open>Strings\<close>

definition writeStringF16 :: "nat \<Rightarrow> byte_array \<Rightarrow> byte list \<Rightarrow> byte_array outcome" where
  "writeStringF16 host ba value =
     obind (writeFuint16 host ba (of_nat (length value))) (\<lambda>ba1. ba_write ba1 value)"

definition writeStringF32 :: "nat \<Rightarrow> byte_array \<Rightarrow> byte list \<Rightarrow> byte_array outcome" where
  "writeStringF32 host ba value =
     obind (writeFuint32 host ba (of_nat (length value))) (\<lambda>ba1. ba_write ba1 value)"

definition writeStringF64 :: "nat \<Rightarrow> byte_array \<Rightarrow> byte list \<Rightarrow> byte_array outcome" where
  "writeStringF64 host ba value =
     obind (writeFuint64 host ba (of_nat (length value))) (\<lambda>ba1. ba_write ba1 value)"

definition writeStringVint :: "byte_array \<Rightarrow> byte list \<Rightarrow> byte_array outcome" where
  "writeStringVint ba value =
     obind (writeUint64 ba (of_nat (length value))) (\<lambda>ba1. ba_write ba1 value)"

definition writeStringWithoutLength :: "byte_array \<Rightarrow> byte list \<Rightarrow> byte_array outcome" where
  "writeStringWithoutLength ba value = ba_write ba value"

text \<open>
  The readers size the string before they read into it. \<open>std::string::resize\<close> throws \<open>length_error\<close>
  beyond \<open>max_size\<close> and \<open>bad_alloc\<close> when the allocator does not grant the memory: both come from the
  platform and are arguments. The at most 65535 bytes of \<open>readStringF16\<close> are taken to be granted.
\<close>

definition resize_string :: "nat \<Rightarrow> (nat \<Rightarrow> bool) \<Rightarrow> nat \<Rightarrow> unit outcome" where
  "resize_string max_size grants len =
     (if max_size < len then Throw LengthError else if grants len then Ret () else Throw BadAlloc)"

definition readStringF16 :: "nat \<Rightarrow> byte_array \<Rightarrow> (byte list \<times> byte_array) outcome" where
  "readStringF16 host ba = obind (readFuint16 host ba) (\<lambda>(len, ba1). ba_read ba1 (unat len))"

definition readStringF32 :: "nat \<Rightarrow> (nat \<Rightarrow> bool) \<Rightarrow> nat \<Rightarrow> byte_array \<Rightarrow> (byte list \<times> byte_array) outcome" where
  "readStringF32 max_size grants host ba =
     obind (readFuint32 host ba) (\<lambda>(len, ba1).
     obind (resize_string max_size grants (unat len)) (\<lambda>_. ba_read ba1 (unat len)))"

definition readStringF64 :: "nat \<Rightarrow> (nat \<Rightarrow> bool) \<Rightarrow> nat \<Rightarrow> byte_array \<Rightarrow> (byte list \<times> byte_array) outcome" where
  "readStringF64 max_size grants host ba =
     obind (readFuint64 host ba) (\<lambda>(len, ba1).
     obind (resize_string max_size grants (unat len)) (\<lambda>_. ba_read ba1 (unat len)))"

definition readStringVint :: "nat \<Rightarrow> (nat \<Rightarrow> bool) \<Rightarrow> byte_array \<Rightarrow> (byte list \<times> byte_array) outcome" where
  "readStringVint max_size grants ba =
     obind (readUint64 ba) (\<lambda>(len, ba1).
     obind (resize_string max_size grants (unat len)) (\<lambda>_. ba_read ba1 (unat len)))"

text \<open>Sequences of calls, as a client makes them.\<close>

fun write_all :: "(byte_array \<Rightarrow> 'v \<Rightarrow> byte_array outcome) \<Rightarrow> byte_array \<Rightarrow> 'v list \<Rightarrow> byte_array outcome" where
  "write_all wr ba [] = Ret ba"
| "write_all wr ba (v # vs) = obind (wr ba v) (\<lambda>ba1. write_all wr ba1 vs)"

fun read_all :: "(byte_array \<Rightarrow> ('v \<times> byte_array) outcome) \<Rightarrow> byte_array \<Rightarrow> nat
    \<Rightarrow> ('v list \<times> byte_array) outcome" where
  "read_all rd ba 0 = Ret ([], ba)"
| "read_all rd ba (Suc n) = obind (rd ba) (\<lambda>(v, ba1).
     obind (read_all rd ba1 n) (\<lambda>(vs, ba2). Ret (v # vs, ba2)))"

section \<open>The contract of a codec\<close>

definition writes :: "byte_array \<Rightarrow> byte_array outcome \<Rightarrow> byte list \<Rightarrow> bool" where
  "writes ba r bs \<longleftrightarrow> (\<forall>ba'. r = Ret ba' \<longrightarrow> ba_inv ba' \<and> ba_abs ba' = fb_write (ba_abs ba) bs
     \<and> ba_endian ba' = ba_endian ba \<and> ba_baseSize ba' = ba_baseSize ba)"

definition reads :: "byte_array \<Rightarrow> ('v \<times> byte_array) outcome \<Rightarrow> 'v \<Rightarrow> byte list \<Rightarrow> bool" where
  "reads ba r v rest \<longleftrightarrow> (\<exists>ba'. r = Ret (v, ba') \<and> ba_inv ba' \<and> ba_unread ba' = rest
     \<and> ba_endian ba' = ba_endian ba \<and> ba_size ba' = ba_size ba)"

locale codec =
  fixes wr :: "byte_array \<Rightarrow> 'v \<Rightarrow> byte_array outcome"
    and rd :: "byte_array \<Rightarrow> ('v \<times> byte_array) outcome"
    and enc :: "nat \<Rightarrow> 'v \<Rightarrow> byte list"
    and okv :: "'v \<Rightarrow> bool"
  assumes wr_enc: "ba_inv ba \<Longrightarrow> is_order (ba_endian ba) \<Longrightarrow> okv v
      \<Longrightarrow> writes ba (wr ba v) (enc (ba_endian ba) v)"
    and rd_enc: "ba_inv ba \<Longrightarrow> is_order (ba_endian ba) \<Longrightarrow> okv v
      \<Longrightarrow> ba_unread ba = enc (ba_endian ba) v @ rest \<Longrightarrow> reads ba (rd ba) v rest"
begin

lemma write_all_enc:
  "ba_inv ba \<Longrightarrow> is_order (ba_endian ba) \<Longrightarrow> list_all okv vs \<Longrightarrow>
   writes ba (write_all wr ba vs) (concat (map (enc (ba_endian ba)) vs))"
proof (induction vs arbitrary: ba)
  case Nil
  then show ?case by (simp add: writes_def fb_write_def)
next
  case (Cons v vs)
  show ?case unfolding writes_def
  proof (intro allI impI)
    fix ba2 assume "write_all wr ba (v # vs) = Ret ba2"
    then obtain ba1 where s: "wr ba v = Ret ba1" "write_all wr ba1 vs = Ret ba2"
      by (auto simp: obind_Ret_iff)
    have w: "ba_inv ba1" "ba_abs ba1 = fb_write (ba_abs ba) (enc (ba_endian ba) v)"
      "ba_endian ba1 = ba_endian ba" "ba_baseSize ba1 = ba_baseSize ba"
      using wr_enc [OF Cons.prems(1,2), of v] Cons.prems(3) s(1) by (auto simp: writes_def)
    have "fb_pos (ba_abs ba) \<le> length (fb_data (ba_abs ba))"
      using ba_invD(2) [OF Cons.prems(1)] ba_abs_length [OF Cons.prems(1)] by (simp add: ba_abs_def)
    then show "ba_inv ba2 \<and> ba_abs ba2 = fb_write (ba_abs ba) (concat (map (enc (ba_endian ba)) (v # vs)))
        \<and> ba_endian ba2 = ba_endian ba \<and> ba_baseSize ba2 = ba_baseSize ba"
      using Cons.IH [OF w(1)] Cons.prems(2,3) s(2) w(2-4)
      by (auto simp: writes_def fb_write_append)
  qed
qed

lemma read_all_enc:
  "ba_inv ba \<Longrightarrow> is_order (ba_endian ba) \<Longrightarrow> list_all okv vs \<Longrightarrow>
   ba_unread ba = concat (map (enc (ba_endian ba)) vs) @ rest \<Longrightarrow>
   reads ba (read_all rd ba (length vs)) vs rest"
proof (induction vs arbitrary: ba)
  case Nil
  then show ?case by (simp add: reads_def)
next
  case (Cons v vs)
  obtain ba1 where r: "rd ba = Ret (v, ba1)" "ba_inv ba1"
    "ba_unread ba1 = concat (map (enc (ba_endian ba)) vs) @ rest"
    "ba_endian ba1 = ba_endian ba" "ba_size ba1 = ba_size ba"
    using rd_enc [OF Cons.prems(1,2), of v] Cons.prems(3,4) by (auto simp: reads_def)
  then show ?case using Cons.IH [of ba1] Cons.prems(2,3) by (auto simp: reads_def)
qed

text \<open>Write a sequence, go back to where it starts, read it: the same sequence.\<close>

lemma write_seek_read:
  assumes inv: "ba_inv ba" and e: "is_order (ba_endian ba)" and ok: "list_all okv vs"
    and w: "write_all wr ba vs = Ret ba1" and s: "setPosition ba1 (ba_position ba) = Ret ba2"
  shows "\<exists>ba3. read_all rd ba2 (length vs) = Ret (vs, ba3) \<and> ba_inv ba3
           \<and> ba_position ba3 = ba_position ba1"
proof -
  let ?bs = "concat (map (enc (ba_endian ba)) vs)" and ?f = "ba_abs ba"
  have w1: "ba_inv ba1" "ba_abs ba1 = fb_write ?f ?bs" "ba_endian ba1 = ba_endian ba"
    using write_all_enc [OF inv e ok] w by (auto simp: writes_def)
  have pos1: "ba_position ba1 = ba_position ba + length ?bs"
    using w1(2) by (simp add: ba_abs_def fb_write_def)
  then have "ba_position ba \<le> ba_size ba1" using ba_invD(2) [OF w1(1)] by simp
  then obtain ba2' where "setPosition ba1 (ba_position ba) = Ret ba2'" and s2: "ba_inv ba2'"
    "ba_abs ba2' = (ba_abs ba1)\<lparr>fb_pos := ba_position ba\<rparr>" "ba_endian ba2' = ba_endian ba1"
    using setPosition_abs [OF w1(1)] by metis
  then have eq: "ba2' = ba2" using s by simp
  let ?rest = "drop (length ?bs) (ba_unread ba2)"
  have fp: "fb_pos ?f \<le> length (fb_data ?f)"
    using ba_invD(2) [OF inv] ba_abs_length [OF inv] by (simp add: ba_abs_def)
  have "ba_unread ba2 = drop (ba_position ba) (fb_data (fb_write ?f ?bs))"
    using ba_abs_unread [OF s2(1)] s2(2) w1(2) by (simp add: eq)
  also have "\<dots> = ?bs @ drop (fb_pos ?f + length ?bs) (fb_data ?f)"
    using fp by (simp add: fb_write_def) (simp add: ba_abs_def)
  finally have u: "ba_unread ba2 = ?bs @ ?rest" by simp
  have "reads ba2 (read_all rd ba2 (length vs)) vs ?rest"
    using s2 w1(3) e u by (intro read_all_enc [OF _ _ ok]) (auto simp: eq)
  then obtain ba3 where r: "read_all rd ba2 (length vs) = Ret (vs, ba3)" "ba_inv ba3" "ba_unread ba3 = ?rest"
    "ba_size ba3 = ba_size ba2"
    by (auto simp: reads_def)
  have "length (ba_unread ba2) = length ?bs + length ?rest" by (subst u) simp
  moreover have "ba_position ba2 = ba_position ba"
    using s2(2) by (simp add: eq ba_abs_def)
  ultimately have "ba_position ba3 = ba_position ba1"
    using arg_cong [OF r(3), of length] r(4) ba_invD(2) [OF r(2)] ba_invD(2) [OF s2(1)] inv_length_unread [OF r(2)]
      inv_length_unread [OF s2(1)] pos1 unfolding eq by linarith
  with r show ?thesis by blast
qed

end


section \<open>Composing writes and reads\<close>

lemma writes_raw: "ba_inv ba \<Longrightarrow> writes ba (ba_write ba bs) bs"
proof (cases "capacity_shortfall ba (length bs)")
  case True
  then show "ba_inv ba \<Longrightarrow> ?thesis" by (simp add: writes_def ba_write_shortfall)
next
  case False
  assume "ba_inv ba"
  from ba_write_enough [OF this False] obtain ba' where "ba_write ba bs = Ret ba'" "ba_inv ba'"
    "ba_abs ba' = fb_write (ba_abs ba) bs" "ba_endian ba' = ba_endian ba"
    "ba_baseSize ba' = ba_baseSize ba" .
  then show ?thesis by (simp add: writes_def)
qed

lemma reads_raw:
  assumes inv: "ba_inv ba" and u: "ba_unread ba = bs @ rest" and ne: "bs \<noteq> []" and n: "n = length bs"
  shows "reads ba (ba_read ba n) bs rest"
proof -
  have le: "n \<le> ba_size ba - ba_position ba" and pos: "0 < n \<or> ba_position ba < ba_capacity ba"
    using u n ne inv_length_unread [OF inv] by auto
  have "ba_unread (ba\<lparr>ba_position := ba_position ba + n, ba_cur := cursor_at ba (ba_position ba + n)\<rparr>)
      = drop n (ba_unread ba)"
    by (simp add: ba_unread_def ba_flat_def drop_take add.commute)
  then show ?thesis
    using ba_read_enough [OF inv le pos] u n by (simp add: reads_def)
qed

lemma writes_bind:
  assumes inv: "ba_inv ba" and m: "writes ba m xs"
    and f: "\<And>ba1. ba_inv ba1 \<Longrightarrow> ba_endian ba1 = ba_endian ba \<Longrightarrow> writes ba1 (f ba1) ys"
  shows "writes ba (obind m f) (xs @ ys)"
proof -
  have "fb_pos (ba_abs ba) \<le> length (fb_data (ba_abs ba))"
    using ba_invD(2) [OF inv] ba_abs_length [OF inv] by (simp add: ba_abs_def)
  then have app: "fb_write (fb_write (ba_abs ba) xs) ys = fb_write (ba_abs ba) (xs @ ys)"
    by (rule fb_write_append)
  show ?thesis unfolding writes_def
  proof (intro allI impI)
    fix ba2 assume "obind m f = Ret ba2"
    then obtain ba1 where s: "m = Ret ba1" "f ba1 = Ret ba2" by (auto simp: obind_Ret_iff)
    have w1: "ba_inv ba1" "ba_abs ba1 = fb_write (ba_abs ba) xs" "ba_endian ba1 = ba_endian ba"
      "ba_baseSize ba1 = ba_baseSize ba" using m s(1) by (auto simp: writes_def)
    have "ba_inv ba2" "ba_abs ba2 = fb_write (ba_abs ba1) ys" "ba_endian ba2 = ba_endian ba1"
      "ba_baseSize ba2 = ba_baseSize ba1" using f [OF w1(1,3)] s(2) by (auto simp: writes_def)
    then show "ba_inv ba2 \<and> ba_abs ba2 = fb_write (ba_abs ba) (xs @ ys)
        \<and> ba_endian ba2 = ba_endian ba \<and> ba_baseSize ba2 = ba_baseSize ba"
      using w1 app by simp
  qed
qed

lemma reads_bind:
  assumes m: "reads ba m v mid"
    and f: "\<And>ba1. ba_inv ba1 \<Longrightarrow> ba_endian ba1 = ba_endian ba \<Longrightarrow> ba_unread ba1 = mid
      \<Longrightarrow> reads ba1 (f (v, ba1)) w rest"
  shows "reads ba (obind m f) w rest"
  using m f by (force simp: reads_def)

lemma reads_ret: "ba_inv ba \<Longrightarrow> reads ba (Ret (v, ba)) v (ba_unread ba)"
  by (simp add: reads_def)

lemma reads_map: "reads ba m v rest \<Longrightarrow> reads ba (obind m (\<lambda>(v, ba1). Ret (g v, ba1))) (g v) rest"
  by (auto simp: reads_def)

section \<open>Every codec meets the contract\<close>

lemma writes_fixed:
  fixes v :: "'a::len word"
  assumes "8 dvd LENGTH('a)" "is_order host" "ba_inv ba" "is_order (ba_endian ba)"
  shows "writes ba (writeFixed host ba v) (wire_bytes (ba_endian ba) v)"
  using assms by (simp add: writeFixed_def Let_def host_bytes_wire writes_raw)

lemma reads_fixed:
  fixes v :: "'a::len word"
  assumes d: "8 dvd LENGTH('a)" and h: "is_order host" and inv: "ba_inv ba"
    and e: "is_order (ba_endian ba)" and u: "ba_unread ba = wire_bytes (ba_endian ba) v @ rest"
  shows "reads ba (readFixed host ba) v rest"
proof -
  have "LENGTH('a) div 8 \<noteq> 0" using d by (metis dvd_div_eq_0_iff len_not_eq_0)
  then have ne: "wire_bytes (ba_endian ba) v \<noteq> []" by (metis length_0_conv length_wire_bytes)
  show ?thesis unfolding readFixed_def
    by (rule reads_bind [OF reads_raw [OF inv u ne]])
       (use host_word_wire [OF d e h, of v] in \<open>auto simp: Let_def reads_def\<close>)
qed


lemma writes_mono: "writes ba m xs \<Longrightarrow> xs = ys \<Longrightarrow> writes ba m ys"
  by simp

text \<open>The varint loop, started at bit \<open>i\<close>: it adds the bits of the value that was encoded.\<close>

lemma varint_byte_small: "m < 128 \<Longrightarrow> (of_nat m :: byte) < 0x80"
  by (simp add: word_less_nat_alt unat_of_nat)

lemma and_0x7F: "m AND 0x7F = take_bit 7 (m :: nat)"
  by (simp add: take_bit_eq_mask mask_eq_exp_minus_1)

lemma or_0x80: "take_bit 7 m OR 0x80 = take_bit 7 m + (0x80 :: nat)"
proof -
  have "take_bit 7 m AND 2 ^ 7 = (0 :: nat)"
    by (simp only: and_exp_eq_0_iff_not_bit) (simp add: bit_simps)
  then show ?thesis using disjunctive_add_eq_or [of "take_bit 7 m" "2 ^ 7"] by simp
qed

lemma varint_byte_more:
  "\<not> (of_nat ((m AND 0x7F) OR 0x80) :: byte) < 0x80"
  "(of_nat ((m AND 0x7F) OR 0x80) :: byte) AND 0x7F = of_nat (take_bit 7 m)"
proof -
  have l: "take_bit 7 m < (128 :: nat)" using take_bit_nat_less_exp [of 7 m] by simp
  have u: "unat (of_nat ((m AND 0x7F) OR 0x80) :: byte) = take_bit 7 m + 128"
    using l unfolding and_0x7F or_0x80 by (simp only: unat_of_nat) simp
  then show "\<not> (of_nat ((m AND 0x7F) OR 0x80) :: byte) < 0x80"
    by (simp add: word_less_nat_alt)
  have "unat ((of_nat ((m AND 0x7F) OR 0x80) :: byte) AND 0x7F) = take_bit 7 (take_bit 7 m + 128)"
    unfolding unsigned_and_eq u by (simp add: and_0x7F)
  also have "\<dots> = take_bit 7 m" by (simp add: take_bit_eq_mod)
  also have "\<dots> = unat (of_nat (take_bit 7 m) :: byte)" using l by (simp add: unat_of_nat)
  finally show "(of_nat ((m AND 0x7F) OR 0x80) :: byte) AND 0x7F = of_nat (take_bit 7 m)"
    by (simp only: word_unat_eq_iff)
qed

lemma ucast_of_nat_byte: "m < 256 \<Longrightarrow> (ucast (of_nat m :: byte) :: 'a::len word) = of_nat m"
  by (simp add: unsigned_of_nat take_bit_nat_eq_self)

lemma readVarint_loop_ok:
  fixes result :: "'a::len word"
  assumes "ba_inv ba" "i < LENGTH('a)" "m < 2 ^ (LENGTH('a) - i)"
    "ba_unread ba = varint_bytes m @ rest"
  shows "reads ba (readVarint_loop ba i result) (result OR push_bit i (of_nat m)) rest"
  using assms
proof (induction m arbitrary: ba i result rule: varint_bytes.induct)
  case (1 m)
  note inv = "1.prems"(1) and i = "1.prems"(2) and m = "1.prems"(3) and u = "1.prems"(4)
  show ?case
  proof (cases "m \<ge> 0x80")
    case False
    then have u1: "ba_unread ba = [of_nat m] @ rest" using u by (simp add: varint_bytes.simps [of m])
    have "reads ba (readFuint8 ba) (of_nat m) rest"
      unfolding readFuint8_def by (rule reads_bind [OF reads_raw [OF inv u1]]) (auto simp: reads_def)
    then obtain ba1 where r: "readFuint8 ba = Ret (of_nat m, ba1)" "ba_inv ba1" "ba_unread ba1 = rest"
      "ba_endian ba1 = ba_endian ba" "ba_size ba1 = ba_size ba"
      by (auto simp: reads_def)
    have "(ucast (of_nat m :: byte) :: 'a word) = of_nat m"
      using False by (intro ucast_of_nat_byte) simp
    then show ?thesis using r i False varint_byte_small [of m]
      by (simp add: readVarint_loop.simps [of ba] reads_def)
  next
    case True
    let ?b = "of_nat ((m AND 0x7F) OR 0x80) :: byte"
    have u1: "ba_unread ba = [?b] @ varint_bytes (drop_bit 7 m) @ rest"
      using u True by (simp add: varint_bytes.simps [of m])
    have "reads ba (readFuint8 ba) ?b (varint_bytes (drop_bit 7 m) @ rest)"
      unfolding readFuint8_def by (rule reads_bind [OF reads_raw [OF inv u1]]) (auto simp: reads_def)
    then obtain ba1 where r: "readFuint8 ba = Ret (?b, ba1)" "ba_inv ba1"
      "ba_unread ba1 = varint_bytes (drop_bit 7 m) @ rest"
      "ba_endian ba1 = ba_endian ba" "ba_size ba1 = ba_size ba"
      by (auto simp: reads_def)
    have "(2 :: nat) ^ 7 < 2 ^ (LENGTH('a) - i)" using True m by simp
    then have d: "7 < LENGTH('a) - i" using power_strict_increasing_iff [of "2 :: nat" 7] by simp
    then have i7: "i + 7 < LENGTH('a)" by simp
    have "m < 2 ^ (LENGTH('a) - (i + 7)) * 2 ^ 7"
      using m d unfolding power_add [symmetric] by simp
    then have m7: "drop_bit 7 m < 2 ^ (LENGTH('a) - (i + 7))"
      by (simp add: drop_bit_eq_div less_mult_imp_div_less)
    have "reads ba1 (readVarint_loop ba1 (i + 7) (result OR push_bit i (ucast (?b AND 0x7F))))
        ((result OR push_bit i (ucast (?b AND 0x7F))) OR push_bit (i + 7) (of_nat (drop_bit 7 m))) rest"
      by (rule "1.IH" [OF True r(2) i7 m7 r(3)])
    moreover have "(result OR push_bit i (ucast (?b AND 0x7F))) OR push_bit (i + 7) (of_nat (drop_bit 7 m))
        = result OR push_bit i (of_nat m)"
    proof -
      have "(of_nat m :: 'a word) = of_nat (take_bit 7 m) OR push_bit 7 (of_nat (drop_bit 7 m))"
        by (rule bit_word_eqI) (auto simp: bit_simps)
      then have "push_bit i (of_nat m :: 'a word)
          = push_bit i (of_nat (take_bit 7 m)) OR push_bit (i + 7) (of_nat (drop_bit 7 m))"
        by (simp add: push_bit_or push_bit_push_bit)
      moreover have "take_bit 7 m < 256" using take_bit_nat_less_exp [of 7 m] by simp
      ultimately show ?thesis
        unfolding varint_byte_more(2) by (simp add: ucast_of_nat_byte or.assoc)
    qed
    ultimately show ?thesis
      using r i varint_byte_more(1) [of m]
      by (simp add: readVarint_loop.simps [of ba] reads_def)
  qed
qed


lemma varint_bytes_ne: "varint_bytes m \<noteq> []"
  by (simp add: varint_bytes.simps [of m])

text \<open>A value of \<open>7 k\<close> bits takes at most \<open>k\<close> bytes: 5 for 32 bits, 10 for 64, the sizes of \<open>tmp\<close>.\<close>

lemma length_varint_bytes: "0 < k \<Longrightarrow> m < 2 ^ (7 * k) \<Longrightarrow> length (varint_bytes m) \<le> k"
proof (induction k arbitrary: m)
  case 0
  then show ?case by simp
next
  case (Suc k)
  show ?case
  proof (cases "m \<ge> 0x80")
    case False
    then show ?thesis by (simp add: varint_bytes.simps [of m])
  next
    case True
    then have k: "0 < k" using Suc.prems by (cases k) auto
    have "m < 2 ^ (7 * k) * 2 ^ 7" using Suc.prems(2) unfolding power_add [symmetric] by (simp add: add.commute)
    then have "drop_bit 7 m < 2 ^ (7 * k)" by (simp add: drop_bit_eq_div less_mult_imp_div_less)
    then show ?thesis using Suc.IH [OF k, of "drop_bit 7 m"] True by (simp add: varint_bytes.simps [of m])
  qed
qed

lemma reads_varint:
  fixes v :: "'a::len word"
  assumes "ba_inv ba" "ba_unread ba = varint_bytes (unat v) @ rest"
  shows "reads ba (readVarint_loop ba 0 0) v rest"
  using readVarint_loop_ok [where result = "0 :: 'a word" and i = 0, OF assms(1) _ _ assms(2)] unsigned_less [of v]
  by (simp add: len_gt_0)

text \<open>The code that the encoder returns, and the values that have one.\<close>

definition zigzag :: "'a::len word \<Rightarrow> 'a word" where
  "zigzag v = (if v <s 0 then (- v) * 2 - 1 else v * 2)"

definition zigzag_ok :: "'a::len word \<Rightarrow> bool" where
  "zigzag_ok v \<longleftrightarrow> - (2 ^ (LENGTH('a) - 1)) < sint v \<and> sint v * 2 < 2 ^ (LENGTH('a) - 1)"

lemma EncodeZigzag_eq: "EncodeZigzag v = (if zigzag_ok v then Ret (zigzag v) else Fault SignedOverflow)"
proof -
  let ?M = "2 ^ (LENGTH('a) - 1) :: int"
  have r: "- ?M \<le> sint v" "sint v < ?M" using sint_ge [of v] sint_lt [of v] by simp_all
  show ?thesis
  proof (cases "sint v < 0")
    case True
    have "fits_signed LENGTH('a) (- sint v) \<longleftrightarrow> zigzag_ok v"
      unfolding fits_signed_def zigzag_ok_def using True r by linarith
    with True show ?thesis by (simp add: EncodeZigzag_def zigzag_def word_sless_alt)
  next
    case False
    have "fits_signed LENGTH('a) (sint v * 2) \<longleftrightarrow> zigzag_ok v"
      unfolding fits_signed_def zigzag_ok_def using False r by linarith
    with False show ?thesis by (simp add: EncodeZigzag_def zigzag_def word_sless_alt)
  qed
qed

text \<open>Zigzag is a bijection of the words, and keeps small magnitudes small.\<close>

lemma DecodeZigzag_zigzag: "1 < LENGTH('a) \<Longrightarrow> DecodeZigzag (zigzag v) = (v :: 'a::len word)"
proof -
  assume L: "1 < LENGTH('a)"
  have neg: "(- v) * 2 - 1 = NOT (push_bit 1 v)"
    by (simp add: push_bit_double not_eq_complement)
  have pos: "v * 2 = push_bit 1 v" by (simp add: push_bit_double)
  show ?thesis
  proof (cases "v <s 0")
    case True
    then have m: "bit v (LENGTH('a) - 1)" by (simp add: word_sless_alt bit_last_iff)
    have one: "NOT (push_bit 1 v) AND 1 = (1 :: 'a word)"
      by (rule bit_word_eqI) (auto simp: bit_simps simp del: push_bit_Suc push_bit_numeral One_nat_def)
    have "drop_bit 1 (NOT (push_bit 1 v)) XOR - 1 = v"
    proof (rule bit_word_eqI)
      fix n assume "n < LENGTH('a)"
      then show "bit (drop_bit 1 (NOT (push_bit 1 v)) XOR - 1) n = bit v n"
        using m L by (cases "n = LENGTH('a) - 1")
          (auto simp: bit_simps simp del: push_bit_Suc push_bit_numeral One_nat_def)
    qed
    then show ?thesis using True by (simp only: zigzag_def DecodeZigzag_def neg one if_True)
  next
    case False
    then have m: "\<not> bit v (LENGTH('a) - 1)" by (simp add: word_sless_alt bit_last_iff)
    have one: "push_bit 1 v AND 1 = (0 :: 'a word)"
      by (rule bit_word_eqI) (auto simp: bit_simps simp del: push_bit_Suc push_bit_numeral One_nat_def)
    have "drop_bit 1 (push_bit 1 v) = v"
    proof (rule bit_word_eqI)
      fix n assume "n < LENGTH('a)"
      then show "bit (drop_bit 1 (push_bit 1 v)) n = bit v n"
        using m L by (cases "n = LENGTH('a) - 1")
          (auto simp: bit_simps simp del: push_bit_Suc push_bit_numeral One_nat_def)
    qed
    then show ?thesis using False by (simp only: zigzag_def DecodeZigzag_def pos one if_False) simp
  qed
qed


lemma writes_string:
  assumes inv: "ba_inv ba" and m: "writes ba m len_image"
  shows "writes ba (obind m (\<lambda>ba1. ba_write ba1 bs)) (len_image @ bs)"
  by (rule writes_bind [OF inv m]) (rule writes_raw)

lemma reads_string:
  assumes m: "reads ba m len (bs @ rest)" and ne: "bs \<noteq> []" and l: "unat len = length bs"
    and z: "rs (length bs) = Ret ()"
  shows "reads ba (obind m (\<lambda>(len, ba1). obind (rs (unat len)) (\<lambda>_. ba_read ba1 (unat len)))) bs rest"
  by (rule reads_bind [OF m]) (simp add: reads_raw ne l z)

definition enc_string :: "(nat \<Rightarrow> nat \<Rightarrow> byte list) \<Rightarrow> nat \<Rightarrow> byte list \<Rightarrow> byte list" where
  "enc_string len_image e bs = len_image e (length bs) @ bs"

definition ok_string :: "nat \<Rightarrow> byte list \<Rightarrow> bool" where
  "ok_string w bs \<longleftrightarrow> bs \<noteq> [] \<and> length bs < 2 ^ w"

lemma unat_length: "ok_string LENGTH('a) bs \<Longrightarrow> unat (of_nat (length bs) :: 'a::len word) = length bs"
  by (simp add: ok_string_def unat_of_nat)

interpretation fuint8: codec writeFuint8 readFuint8 "\<lambda>_ v. [v]" "\<lambda>_. True"
proof
  fix ba :: byte_array and v :: byte and rest
  assume inv: "ba_inv ba"
  show "writes ba (writeFuint8 ba v) [v]" by (simp add: writeFuint8_def writes_raw inv)
  assume "ba_unread ba = [v] @ rest"
  from reads_raw [OF inv this] show "reads ba (readFuint8 ba) v rest"
    unfolding readFuint8_def by (intro reads_bind) (auto simp: reads_def)
qed

interpretation fixed_le: codec "writeFixed RADIXUN_LITTLE_ENDIAN" "readFixed RADIXUN_LITTLE_ENDIAN"
  "wire_bytes :: nat \<Rightarrow> 'a::len word \<Rightarrow> byte list" "\<lambda>_. 8 dvd LENGTH('a)"
  by unfold_locales (simp_all add: writes_fixed reads_fixed is_order_def)

lemma codec_fixed:
  "8 dvd LENGTH('a) \<Longrightarrow> is_order host \<Longrightarrow>
   codec (writeFixed host) (readFixed host) (wire_bytes :: nat \<Rightarrow> 'a::len word \<Rightarrow> byte list) (\<lambda>_. True)"
  by unfold_locales (simp_all add: writes_fixed reads_fixed)

lemma codec_varint32: "codec writeUint32 readUint32 (\<lambda>_ v. varint_bytes (unat v)) (\<lambda>_. True)"
  by unfold_locales (simp_all add: writeUint32_def readUint32_def writes_raw reads_varint)

interpretation varint32: codec writeUint32 readUint32 "\<lambda>_ v. varint_bytes (unat v)" "\<lambda>_. True"
  by (rule codec_varint32)

interpretation varint64: codec writeUint64 readUint64 "\<lambda>_ v. varint_bytes (unat v)" "\<lambda>_. True"
  by unfold_locales (simp_all add: writeUint64_def readUint64_def writes_raw reads_varint)

lemma reads_zigzag:
  "reads ba m (zigzag v) rest \<Longrightarrow> 1 < LENGTH('a)
   \<Longrightarrow> reads ba (obind m (\<lambda>(v, ba1). Ret (DecodeZigzag v, ba1))) (v :: 'a::len word) rest"
  using reads_map [of ba m "zigzag v" rest DecodeZigzag] by (simp add: DecodeZigzag_zigzag)

interpretation zigzag32: codec writeInt32 readInt32 "\<lambda>_ v. varint_bytes (unat (zigzag v))" zigzag_ok
  by unfold_locales
    (simp_all add: writeInt32_def readInt32_def EncodeZigzag_eq varint32.wr_enc varint32.rd_enc reads_zigzag)

interpretation zigzag64: codec writeInt64 readInt64 "\<lambda>_ v. varint_bytes (unat (zigzag v))" zigzag_ok
  by unfold_locales
    (simp_all add: writeInt64_def readInt64_def EncodeZigzag_eq varint64.wr_enc varint64.rd_enc reads_zigzag)

text \<open>The overflow is the encoder's alone, and a sequence of writes that returns had none.\<close>

lemma ba_write_no_overflow: "ba_inv ba \<Longrightarrow> ba_write ba bs \<noteq> Fault SignedOverflow"
  using ba_write_shortfall [of ba bs] ba_write_enough [of ba bs]
  by (cases "capacity_shortfall ba (length bs)") force+

lemma writeInt64_overflow_iff:
  "ba_inv ba \<Longrightarrow> writeInt64 ba v = Fault SignedOverflow \<longleftrightarrow> \<not> zigzag_ok v"
  by (simp add: writeInt64_def EncodeZigzag_eq writeUint64_def ba_write_no_overflow)

lemma zigzag_ok64: "zigzag_ok (v :: u64) \<longleftrightarrow> - (2 ^ 63) < sint v \<and> sint v < 2 ^ 62"
  by (simp add: zigzag_ok_def)

lemma write_all_Ret_zigzag_ok: "write_all writeInt64 ba vs = Ret ba1 \<Longrightarrow> list_all zigzag_ok vs"
  by (induction vs arbitrary: ba)
    (auto simp: writeInt64_def EncodeZigzag_eq obind_Ret_iff split: if_splits)


text \<open>The strings: a length, then the bytes.\<close>

lemma codec_string:
  fixes wl :: "byte_array \<Rightarrow> 'a::len word \<Rightarrow> byte_array outcome"
  assumes c: "codec wl rl el (\<lambda>_. True)"
  shows "codec (\<lambda>ba bs. obind (wl ba (of_nat (length bs))) (\<lambda>ba1. ba_write ba1 bs))
    (\<lambda>ba. obind (rl ba) (\<lambda>(len, ba1). obind (rs (unat len)) (\<lambda>_. ba_read ba1 (unat len))))
    (enc_string (\<lambda>e n. el e (of_nat n)))
    (\<lambda>bs. ok_string LENGTH('a) bs \<and> rs (length bs) = Ret ())"
proof
  fix ba :: byte_array and bs :: "byte list" and rest
  assume inv: "ba_inv ba" and e: "is_order (ba_endian ba)"
    and ok': "ok_string LENGTH('a) bs \<and> rs (length bs) = Ret ()"
  then have ok: "ok_string LENGTH('a) bs" and z: "rs (length bs) = Ret ()" by simp_all
  show "writes ba (obind (wl ba (of_nat (length bs))) (\<lambda>ba1. ba_write ba1 bs))
      (enc_string (\<lambda>e n. el e (of_nat n)) (ba_endian ba) bs)"
    unfolding enc_string_def by (rule writes_string [OF inv codec.wr_enc [OF c inv e TrueI]])
  assume u: "ba_unread ba = enc_string (\<lambda>e n. el e (of_nat n)) (ba_endian ba) bs @ rest"
  have "reads ba (rl ba) (of_nat (length bs)) (bs @ rest)"
    by (rule codec.rd_enc [OF c inv e TrueI]) (use u in \<open>simp add: enc_string_def\<close>)
  then show "reads ba (obind (rl ba) (\<lambda>(len, ba1). obind (rs (unat len)) (\<lambda>_. ba_read ba1 (unat len)))) bs rest"
    by (rule reads_string) (use ok z unat_length [OF ok] in \<open>simp_all add: ok_string_def\<close>)
qed

lemma codec_stringF16: "is_order host \<Longrightarrow> codec (writeStringF16 host) (readStringF16 host)
    (enc_string (\<lambda>e n. wire_bytes e (of_nat n :: u16))) (ok_string 16)"
  using codec_string [OF codec_fixed [where 'a = 16], where rs = "\<lambda>_. Ret ()"]
  by (simp add: writeStringF16_def [abs_def] readStringF16_def [abs_def] writeFuint16_def readFuint16_def)

lemma codec_stringF32: "is_order host \<Longrightarrow> codec (writeStringF32 host) (readStringF32 max_size grants host)
    (enc_string (\<lambda>e n. wire_bytes e (of_nat n :: u32)))
    (\<lambda>bs. ok_string 32 bs \<and> resize_string max_size grants (length bs) = Ret ())"
  using codec_string [OF codec_fixed [where 'a = 32], where rs = "resize_string max_size grants"]
  by (simp add: writeStringF32_def [abs_def] readStringF32_def [abs_def] writeFuint32_def readFuint32_def)

lemma codec_stringF64: "is_order host \<Longrightarrow> codec (writeStringF64 host) (readStringF64 max_size grants host)
    (enc_string (\<lambda>e n. wire_bytes e (of_nat n :: u64)))
    (\<lambda>bs. ok_string 64 bs \<and> resize_string max_size grants (length bs) = Ret ())"
  using codec_string [OF codec_fixed [where 'a = 64], where rs = "resize_string max_size grants"]
  by (simp add: writeStringF64_def [abs_def] readStringF64_def [abs_def] writeFuint64_def readFuint64_def)

interpretation stringVint: codec writeStringVint "readStringVint max_size grants"
  "enc_string (\<lambda>e n. varint_bytes (unat (of_nat n :: u64)))"
  "\<lambda>bs. ok_string 64 bs \<and> resize_string max_size grants (length bs) = Ret ()"
  for max_size :: nat and grants :: "nat \<Rightarrow> bool"
  using codec_string [OF varint64.codec_axioms, where rs = "resize_string max_size grants"]
  by (simp add: writeStringVint_def [abs_def] readStringVint_def [abs_def])

section \<open>When a write cannot fail\<close>

text \<open>With one-byte blocks \<open>addCapacity\<close> always provides the room, so no write dereferences null.\<close>

lemma base_one_no_shortfall: "ba_baseSize ba = 1 \<Longrightarrow> \<not> capacity_shortfall ba n"
  by (simp add: capacity_shortfall_def Let_def)

lemma ba_write_base_one:
  assumes "ba_inv ba" "ba_baseSize ba = 1"
  shows "\<exists>ba'. ba_write ba bs = Ret ba'"
  using ba_write_enough [OF assms(1) base_one_no_shortfall [OF assms(2)], of bs] by blast

text \<open>A write that returns needs no more bytes than \<open>tmp\<close> holds.\<close>

lemma length_varint32: "length (varint_bytes (unat (v :: u32))) \<le> 5"
proof -
  have "unat v < 2 ^ LENGTH(32)" by (rule unsigned_less)
  then show ?thesis by (intro length_varint_bytes) simp_all
qed

lemma length_varint64: "length (varint_bytes (unat (v :: u64))) \<le> 10"
proof -
  have "unat v < 2 ^ LENGTH(64)" by (rule unsigned_less)
  then show ?thesis by (intro length_varint_bytes) simp_all
qed


section \<open>Properties\<close>

text \<open>C3. \<open>writeInt64\<close> (zigzag then varint) overflows its signed arithmetic exactly for the least value
  and for the values from \<open>2 ^ 62\<close> on. A sequence of signed 64-bit values that it writes without a
  fault, from any buffer state that keeps the invariant and any byte order, therefore lies within
  these bounds, and \<open>readInt64\<close> reads it back unchanged after seeking to where it was written; the
  cursor ends where the writes left it.\<close>

theorem writeInt64_readInt64:
  assumes "ba_inv ba" and "is_order (ba_endian ba)"
    and "write_all writeInt64 ba vs = Ret ba1" and "setPosition ba1 (ba_position ba) = Ret ba2"
  shows "(\<forall>v. writeInt64 ba v = Fault SignedOverflow \<longleftrightarrow> \<not> (- (2 ^ 63) < sint v \<and> sint v < 2 ^ 62))
     \<and> (\<forall>v\<in>set vs. - (2 ^ 63) < sint v \<and> sint v < 2 ^ 62)
     \<and> (\<exists>ba3. read_all readInt64 ba2 (length vs) = Ret (vs, ba3) \<and> ba_inv ba3
           \<and> ba_position ba3 = ba_position ba1)"
proof -
  have z: "list_all zigzag_ok vs" by (rule write_all_Ret_zigzag_ok [OF assms(3)])
  then show ?thesis
    using zigzag64.write_seek_read [OF assms(1,2) z assms(3,4)]
    by (auto simp: writeInt64_overflow_iff [OF assms(1)] zigzag_ok64 list_all_iff)
qed

text \<open>C4. Strings written with a 16-bit length prefix, on a machine of either byte order into an array
  of either byte order, are read back unchanged by \<open>readStringF16\<close>, when each is non-empty and shorter
  than 65536 bytes (a longer length is truncated by the cast to \<open>uint16_t\<close>).\<close>

theorem writeStringF16_readStringF16:
  assumes "is_order host" and "ba_inv ba" and "is_order (ba_endian ba)" and "list_all (ok_string 16) vs"
    and "write_all (writeStringF16 host) ba vs = Ret ba1" and "setPosition ba1 (ba_position ba) = Ret ba2"
  shows "\<exists>ba3. read_all (readStringF16 host) ba2 (length vs) = Ret (vs, ba3) \<and> ba_inv ba3
           \<and> ba_position ba3 = ba_position ba1"
  by (rule codec.write_seek_read [OF codec_stringF16 [OF assms(1)] assms(2-6)])


theorem writeInt64_readInt64_witness:
  "\<exists>ba1 ba2 ba3. write_all writeInt64 (ByteArray_new (\<lambda>_. 0) 1) [- 3, 700] = Ret ba1
     \<and> setPosition ba1 0 = Ret ba2 \<and> read_all readInt64 ba2 2 = Ret ([- 3, 700], ba3)"
proof -
  let ?ba = "ByteArray_new (\<lambda>_. 0) 1" and ?vs = "[- 3, 700] :: u64 list"
  have i: "ba_inv ?ba" by (simp add: ByteArray_new_inv)
  have e: "is_order (ba_endian ?ba)" by (simp add: is_order_def ByteArray_new_def)
  have "is_Ret (obind (write_all writeInt64 ?ba ?vs) (\<lambda>ba1. setPosition ba1 (ba_position ?ba)))"
    by code_simp
  then obtain ba1 ba2 where w: "write_all writeInt64 ?ba ?vs = Ret ba1"
    "setPosition ba1 (ba_position ?ba) = Ret ba2"
    by (auto simp only: is_Ret_iff obind_Ret_iff)
  have p: "ba_position ?ba = 0" and l: "length ?vs = 2" by (simp_all add: ByteArray_new_def)
  obtain ba3 where "read_all readInt64 ba2 2 = Ret (?vs, ba3)"
    using writeInt64_readInt64 [OF i e w] unfolding l by blast
  with w show ?thesis unfolding p by blast
qed

theorem writeStringF16_readStringF16_witness:
  "\<exists>ba1 ba2 ba3. write_all (writeStringF16 RADIXUN_LITTLE_ENDIAN) (ByteArray_new (\<lambda>_. 0) 1) [[104, 105], [33]] = Ret ba1
     \<and> setPosition ba1 0 = Ret ba2
     \<and> read_all (readStringF16 RADIXUN_LITTLE_ENDIAN) ba2 2 = Ret ([[104, 105], [33]], ba3)"
proof -
  let ?h = RADIXUN_LITTLE_ENDIAN
  let ?ba = "ByteArray_new (\<lambda>_. 0) 1" and ?vs = "[[104, 105], [33]] :: byte list list"
  have h: "is_order ?h" by (simp add: is_order_def)
  have i: "ba_inv ?ba" by (simp add: ByteArray_new_inv)
  have e: "is_order (ba_endian ?ba)" by (simp add: is_order_def ByteArray_new_def)
  have o: "list_all (ok_string 16) ?vs" by (simp add: ok_string_def)
  have "is_Ret (obind (write_all (writeStringF16 ?h) ?ba ?vs) (\<lambda>ba1. setPosition ba1 (ba_position ?ba)))"
    by code_simp
  then obtain ba1 ba2 where w: "write_all (writeStringF16 ?h) ?ba ?vs = Ret ba1"
    "setPosition ba1 (ba_position ?ba) = Ret ba2"
    by (auto simp only: is_Ret_iff obind_Ret_iff)
  have p: "ba_position ?ba = 0" and l: "length ?vs = 2" by (simp_all add: ByteArray_new_def)
  obtain ba3 where "read_all (readStringF16 ?h) ba2 2 = Ret (?vs, ba3)"
    using writeStringF16_readStringF16 [OF h i e o w] unfolding l by blast
  with w show ?thesis unfolding p by blast
qed

end
