(* ===== verification/Ordered.thy ===== *)
theory Ordered
  imports Prelude
begin

text \<open>
  The ordered containers of the C++ standard library, \<open>std::set<K, C>\<close> and \<open>std::map<K, V, C>\<close>, as
  lists strictly sorted by the comparator \<open>C\<close>: a model of the library the components use, not of
  code of this repository.

  The locale \<open>strict_weak\<close> states what the library requires of a comparator (a strict weak ordering)
  and proves what the containers then guarantee. \<open>key_order\<close> is the same requirement on the keys of
  a map; its entries are ordered by their keys, so it gives \<open>strict_weak\<close> on the entries. Each
  comparator of the repository is shown to be one in the theory that defines it.
\<close>

section \<open>Operations\<close>

type_synonym 'a cmp = "'a \<Rightarrow> 'a \<Rightarrow> bool"

definition equiv :: "'a cmp \<Rightarrow> 'a \<Rightarrow> 'a \<Rightarrow> bool" where
  "equiv lt x y \<longleftrightarrow> \<not> lt x y \<and> \<not> lt y x"

text \<open>\<open>set::insert\<close>: nothing happens when an equivalent element is present.\<close>

fun os_insert :: "'a cmp \<Rightarrow> 'a \<Rightarrow> 'a list \<Rightarrow> 'a list" where
  "os_insert lt x [] = [x]"
| "os_insert lt x (y # ys) =
     (if lt x y then x # y # ys
      else if lt y x then y # os_insert lt x ys
      else y # ys)"

definition os_find :: "'a cmp \<Rightarrow> 'a \<Rightarrow> 'a list \<Rightarrow> 'a option" where
  "os_find lt x xs = List.find (equiv lt x) xs"

definition os_erase :: "'a cmp \<Rightarrow> 'a \<Rightarrow> 'a list \<Rightarrow> 'a list" where
  "os_erase lt x xs = filter (\<lambda>y. \<not> equiv lt x y) xs"

text \<open>The part of the container from \<open>lower_bound(x)\<close> on, and the part before it.\<close>

definition os_lower_bound :: "'a cmp \<Rightarrow> 'a \<Rightarrow> 'a list \<Rightarrow> 'a list" where
  "os_lower_bound lt x xs = dropWhile (\<lambda>y. lt y x) xs"

definition os_before :: "'a cmp \<Rightarrow> 'a \<Rightarrow> 'a list \<Rightarrow> 'a list" where
  "os_before lt x xs = takeWhile (\<lambda>y. lt y x) xs"

text \<open>Maps: \<open>find\<close>, \<open>insert\<close> or \<open>emplace\<close> (the first value stays), \<open>m[k] = v\<close>, \<open>erase(k)\<close>.\<close>

definition entry_less :: "'k cmp \<Rightarrow> ('k \<times> 'v) cmp" where
  "entry_less lt p q = lt (fst p) (fst q)"

definition om_find :: "'k cmp \<Rightarrow> 'k \<Rightarrow> ('k \<times> 'v) list \<Rightarrow> 'v option" where
  "om_find lt k m = map_option snd (List.find (\<lambda>p. equiv lt k (fst p)) m)"

definition om_emplace :: "'k cmp \<Rightarrow> 'k \<Rightarrow> 'v \<Rightarrow> ('k \<times> 'v) list \<Rightarrow> ('k \<times> 'v) list" where
  "om_emplace lt k v m = os_insert (entry_less lt) (k, v) m"

fun om_assign :: "'k cmp \<Rightarrow> 'k \<Rightarrow> 'v \<Rightarrow> ('k \<times> 'v) list \<Rightarrow> ('k \<times> 'v) list" where
  "om_assign lt k v [] = [(k, v)]"
| "om_assign lt k v (p # m) =
     (if lt k (fst p) then (k, v) # p # m
      else if lt (fst p) k then p # om_assign lt k v m
      else (fst p, v) # m)"

definition om_erase :: "'k cmp \<Rightarrow> 'k \<Rightarrow> ('k \<times> 'v) list \<Rightarrow> ('k \<times> 'v) list" where
  "om_erase lt k m = filter (\<lambda>p. \<not> equiv lt k (fst p)) m"

section \<open>Sets under a strict weak ordering\<close>

locale strict_weak =
  fixes lt :: "'a cmp"
  assumes irrefl: "\<not> lt x x"
    and trans: "lt x y \<Longrightarrow> lt y z \<Longrightarrow> lt x z"
    and neg_trans: "lt x z \<Longrightarrow> lt x y \<or> lt y z"
begin

lemma asym: "lt x y \<Longrightarrow> \<not> lt y x"
  using irrefl trans by blast

lemma equiv_refl [simp]: "equiv lt x x"
  by (simp add: equiv_def irrefl)

lemma equiv_sym: "equiv lt x y \<Longrightarrow> equiv lt y x"
  by (simp add: equiv_def)

lemma equiv_trans: "equiv lt x y \<Longrightarrow> equiv lt y z \<Longrightarrow> equiv lt x z"
  unfolding equiv_def using neg_trans by blast

lemma less_equiv: "lt x y \<Longrightarrow> equiv lt y z \<Longrightarrow> lt x z"
  unfolding equiv_def using neg_trans by blast

lemma equiv_less: "equiv lt x y \<Longrightarrow> lt y z \<Longrightarrow> lt x z"
  unfolding equiv_def using neg_trans by blast

lemma set_os_insert: "set (os_insert lt x xs) \<subseteq> insert x (set xs)"
  by (induction xs) auto

lemma set_os_insert_sup: "set xs \<subseteq> set (os_insert lt x xs)"
  by (induction xs) auto

lemma sorted_os_insert: "sorted_wrt lt xs \<Longrightarrow> sorted_wrt lt (os_insert lt x xs)"
proof (induction xs)
  case (Cons y ys)
  then show ?case using set_os_insert [of x ys] trans by auto
qed simp

lemma os_insert_new: "sorted_wrt lt xs \<Longrightarrow> \<forall>y\<in>set xs. \<not> equiv lt x y \<Longrightarrow>
    set (os_insert lt x xs) = insert x (set xs)"
  by (induction xs) (auto simp: equiv_def)

lemma os_insert_present: "sorted_wrt lt xs \<Longrightarrow> y \<in> set xs \<Longrightarrow> equiv lt x y \<Longrightarrow>
    os_insert lt x xs = xs"
proof (induction xs)
  case (Cons z zs)
  show ?case
  proof (cases "y = z")
    case True
    then show ?thesis using Cons.prems(3) by (simp add: equiv_def)
  next
    case False
    then have "lt z x" using Cons.prems less_equiv [of z y x] equiv_sym by auto
    then show ?thesis using Cons False asym [of z x] by auto
  qed
qed simp

lemma sorted_os_erase: "sorted_wrt lt xs \<Longrightarrow> sorted_wrt lt (os_erase lt x xs)"
  by (simp add: os_erase_def sorted_wrt_filter)

lemma set_os_erase: "set (os_erase lt x xs) = {y \<in> set xs. \<not> equiv lt x y}"
  by (auto simp: os_erase_def)

lemma sorted_distinct: "sorted_wrt lt xs \<Longrightarrow> distinct xs"
  by (induction xs) (auto simp: irrefl)

lemma os_find_Some: "os_find lt x xs = Some y \<Longrightarrow> y \<in> set xs \<and> equiv lt x y"
  by (auto simp: os_find_def find_Some_iff)

lemma os_find_None: "os_find lt x xs = None \<longleftrightarrow> (\<forall>y\<in>set xs. \<not> equiv lt x y)"
  by (auto simp: os_find_def find_None_iff)

lemma os_before_eq: "sorted_wrt lt xs \<Longrightarrow> os_before lt x xs = filter (\<lambda>y. lt y x) xs"
  unfolding os_before_def
proof (induction xs)
  case (Cons y ys)
  have "\<not> lt y x \<Longrightarrow> filter (\<lambda>z. lt z x) ys = []"
    using Cons.prems trans by (auto simp: filter_empty_conv)
  then show ?case using Cons by auto
qed simp

lemma os_lower_bound_eq: "sorted_wrt lt xs \<Longrightarrow> os_lower_bound lt x xs = filter (\<lambda>y. \<not> lt y x) xs"
  unfolding os_lower_bound_def
proof (induction xs)
  case (Cons y ys)
  have "\<not> lt y x \<Longrightarrow> filter (\<lambda>z. \<not> lt z x) ys = ys"
    using Cons.prems trans by (auto simp: filter_id_conv)
  then show ?case using Cons by auto
qed simp

lemma os_split: "xs = os_before lt x xs @ os_lower_bound lt x xs"
  by (simp add: os_before_def os_lower_bound_def)

end

section \<open>Maps\<close>

locale key_order = keys: strict_weak lt for lt :: "'k cmp"

sublocale key_order \<subseteq> entries: strict_weak "entry_less lt"
  by unfold_locales (use keys.irrefl keys.trans keys.neg_trans in \<open>auto simp: entry_less_def\<close>)

context key_order
begin

abbreviation "wf_map m \<equiv> sorted_wrt (entry_less lt) m"

lemma wf_Nil: "wf_map []"
  by simp

lemma fst_om_assign: "p \<in> set (om_assign lt k v m) \<Longrightarrow> fst p = k \<or> fst p \<in> fst ` set m"
  by (induction m) (auto split: if_splits)

lemma wf_om_emplace: "wf_map m \<Longrightarrow> wf_map (om_emplace lt k v m)"
  by (simp add: om_emplace_def entries.sorted_os_insert)

lemma wf_om_erase: "wf_map m \<Longrightarrow> wf_map (om_erase lt k m)"
  by (simp add: om_erase_def sorted_wrt_filter)

lemma wf_om_assign: "wf_map m \<Longrightarrow> wf_map (om_assign lt k v m)"
proof (induction m)
  case (Cons p m)
  have lt: "lt (fst p) (fst q)" if "q \<in> set (om_assign lt k v m)" "lt (fst p) k" for q
    using fst_om_assign [OF that(1)] that(2) Cons.prems by (auto simp: entry_less_def)
  show ?case using Cons lt keys.trans by (auto simp: entry_less_def)
qed simp

lemma om_find_equiv: "equiv lt k k' \<Longrightarrow> om_find lt k m = om_find lt k' m"
proof -
  assume "equiv lt k k'"
  then have "equiv lt k = equiv lt k'"
    using keys.equiv_sym keys.equiv_trans by blast
  then show ?thesis by (simp add: om_find_def)
qed

lemma find_skip: "wf_map (p # m) \<Longrightarrow> lt k (fst p) \<Longrightarrow> om_find lt k (p # m) = None"
  using keys.trans by (fastforce simp: om_find_def equiv_def entry_less_def find_None_iff)

lemma om_find_assign:
  "wf_map m \<Longrightarrow> om_find lt k (om_assign lt k' v m) =
     (if equiv lt k k' then Some v else om_find lt k m)"
proof (induction m)
  case Nil
  then show ?case by (simp add: om_find_def)
next
  case (Cons p m)
  have IH: "om_find lt k (om_assign lt k' v m) = (if equiv lt k k' then Some v else om_find lt k m)"
    using Cons by simp
  consider "lt k' (fst p)" | "lt (fst p) k'" | "equiv lt k' (fst p)"
    by (auto simp: equiv_def)
  then show ?case
  proof cases
    case 1
    then show ?thesis by (simp add: om_find_def)
  next
    case 2
    then have n: "\<not> lt k' (fst p)" by (rule keys.asym)
    have "equiv lt k (fst p) \<Longrightarrow> \<not> equiv lt k k'"
      using 2 keys.equiv_trans [of "fst p" k k'] keys.equiv_sym by (auto simp: equiv_def)
    then show ?thesis using 2 n IH by (auto simp: om_find_def)
  next
    case 3
    then have "equiv lt k k' = equiv lt k (fst p)"
      using keys.equiv_trans keys.equiv_sym by blast
    with 3 show ?thesis by (auto simp: om_find_def equiv_def)
  qed
qed

lemma om_find_emplace:
  "wf_map m \<Longrightarrow> om_find lt k (om_emplace lt k' v m) =
     (case om_find lt k m of Some w \<Rightarrow> Some w | None \<Rightarrow> if equiv lt k k' then Some v else None)"
proof (induction m)
  case Nil
  then show ?case by (simp add: om_find_def om_emplace_def)
next
  case (Cons p m)
  have IH: "om_find lt k (om_emplace lt k' v m) =
     (case om_find lt k m of Some w \<Rightarrow> Some w | None \<Rightarrow> if equiv lt k k' then Some v else None)"
    using Cons by simp
  consider "lt k' (fst p)" | "lt (fst p) k'" | "equiv lt k' (fst p)"
    by (auto simp: equiv_def)
  then show ?case
  proof cases
    case 1
    have "equiv lt k k' \<Longrightarrow> om_find lt k (p # m) = None"
      using find_skip [OF Cons.prems 1] om_find_equiv [of k k' "p # m"] by simp
    with 1 show ?thesis
      by (cases p) (auto simp: om_find_def om_emplace_def entry_less_def split: option.splits)
  next
    case 2
    then have "\<not> lt k' (fst p)" by (rule keys.asym)
    with 2 IH show ?thesis
      by (cases p) (auto simp: om_find_def om_emplace_def entry_less_def split: option.splits)
  next
    case 3
    then have "equiv lt k k' = equiv lt k (fst p)"
      using keys.equiv_trans keys.equiv_sym by blast
    with 3 show ?thesis
      by (cases p) (auto simp: om_find_def om_emplace_def entry_less_def equiv_def split: option.splits)
  qed
qed

lemma om_find_erase:
  "om_find lt k (om_erase lt k' m) = (if equiv lt k k' then None else om_find lt k m)"
proof (cases "equiv lt k k'")
  case True
  then have e: "equiv lt k = equiv lt k'" using keys.equiv_sym keys.equiv_trans by blast
  show ?thesis using True by (simp add: om_find_def om_erase_def e find_None_iff)
next
  case False
  have "equiv lt k (fst p) \<Longrightarrow> \<not> equiv lt k' (fst p)" for p
    using False keys.equiv_sym keys.equiv_trans by blast
  then show ?thesis using False by (induction m) (auto simp: om_find_def om_erase_def)
qed

end

section \<open>Total keys\<close>

lemma strict_weak_linorder: "strict_weak ((<) :: 'a::linorder cmp)"
  by unfold_locales auto

text \<open>Lexicographic order of two keys.\<close>

lemma strict_weak_lex:
  fixes f :: "'a \<Rightarrow> 'b::linorder" and g :: "'a \<Rightarrow> 'c::linorder"
  shows "strict_weak (\<lambda>x y. f x < f y \<or> f x = f y \<and> g x < g y)"
proof
  show "\<not> (f x < f x \<or> f x = f x \<and> g x < g x)" for x by simp
  show "f x < f y \<or> f x = f y \<and> g x < g y \<Longrightarrow> f y < f z \<or> f y = f z \<and> g y < g z
      \<Longrightarrow> f x < f z \<or> f x = f z \<and> g x < g z" for x y z
    using order.strict_trans [of "f x" "f y" "f z"] order.strict_trans [of "g x" "g y" "g z"] by auto
  show "f x < f z \<or> f x = f z \<and> g x < g z \<Longrightarrow>
      (f x < f y \<or> f x = f y \<and> g x < g y) \<or> (f y < f z \<or> f y = f z \<and> g y < g z)" for x y z
    using less_linear [of "f x" "f y"] less_linear [of "g x" "g y"]
      order.strict_trans [of "f y" "f x" "f z"] order.strict_trans [of "g y" "g x" "g z"] by auto
qed

lemma equiv_linorder [simp]: "equiv ((<) :: 'a::linorder cmp) x y \<longleftrightarrow> x = y"
  by (auto simp: equiv_def)

interpretation nat_order: key_order "(<) :: nat cmp"
  by (rule key_order.intro) (rule strict_weak_linorder)

end
