(* ===== verification/Timer.thy ===== *)
theory Timer
  imports Ordered
begin

unbundle bit_operations_syntax

text \<open>
  \<open>radixun/common/timer.{h,cpp}\<close>: timers, their order and the \<open>TimerManager\<close>.

  \<^item> a \<open>Timer::ptr\<close> is an address into \<open>tm_heap\<close>, which holds the \<open>Timer\<close> objects; \<open>m_timers\<close> is the
    ordered set of addresses under \<open>Timer::Comparator\<close>;
  \<^item> times are 64-bit words, so \<open>m_next\<close> wraps as \<open>uint64_t\<close> does; \<open>GetCurrentMS()\<close> and the address
    that \<open>new Timer\<close> returns are arguments;
  \<^item> a callback is an abstract \<open>'c\<close>; \<open>OnTimer\<close> is the wrapper that \<open>addConditionTimer\<close> binds around
    one. The boolean that \<open>addTimer\<close> and \<open>reset\<close> add to their result says whether they called the
    virtual \<open>onTimerInsertedAtFront\<close>;
  \<^item> each operation holds \<open>m_mutex\<close> for its whole effect, so an operation is one step.
\<close>

datatype 'c callback = Fn 'c | OnTimer nat "'c option"

record 'c timer =
  t_recurring :: bool
  t_ms :: u64
  t_next :: u64
  t_cb :: "'c callback option"

type_synonym 'c timer_heap = "nat \<Rightarrow> 'c timer option"

record 'c timer_manager =
  tm_heap :: "'c timer_heap"
  tm_timers :: "nat list"
  tm_tickled :: bool
  tm_previouseTime :: u64

section \<open>The order of timers\<close>

definition m_next :: "'c timer_heap \<Rightarrow> nat \<Rightarrow> u64" where
  "m_next h a = (case h a of Some t \<Rightarrow> t_next t | None \<Rightarrow> 0)"

definition Comparator :: "'c timer_heap \<Rightarrow> nat option \<Rightarrow> nat option \<Rightarrow> bool" where
  "Comparator h lhs rhs =
     (case (lhs, rhs) of
        (None, None) \<Rightarrow> False
      | (None, Some _) \<Rightarrow> True
      | (Some _, None) \<Rightarrow> False
      | (Some l, Some r) \<Rightarrow>
          if m_next h l < m_next h r then True
          else if m_next h r < m_next h l then False
          else l < r)"

definition timer_less :: "'c timer_heap \<Rightarrow> nat cmp" where
  "timer_less h l r = Comparator h (Some l) (Some r)"

lemma Comparator_simps [simp]:
  "\<not> Comparator h lhs None"
  "Comparator h None (Some r)"
  "Comparator h (Some l) (Some r) \<longleftrightarrow> timer_less h l r"
  by (simp_all add: Comparator_def timer_less_def split: option.split)

lemma timer_less_iff:
  "timer_less h l r \<longleftrightarrow> m_next h l < m_next h r \<or> m_next h l = m_next h r \<and> l < r"
  unfolding timer_less_def Comparator_def by (simp add: antisym_conv3) force

interpretation timer_order: strict_weak "timer_less h" for h :: "'c timer_heap"
  using strict_weak_lex [of "m_next h" id] by (simp add: timer_less_iff [abs_def])

interpretation ptr_order: strict_weak "Comparator h" for h :: "'c timer_heap"
proof
  show "\<not> Comparator h x x" for x by (cases x) (simp_all add: timer_order.irrefl)
  show "Comparator h x y \<Longrightarrow> Comparator h y z \<Longrightarrow> Comparator h x z" for x y z
    using timer_order.trans by (cases x; cases y; cases z) auto
  show "Comparator h x z \<Longrightarrow> Comparator h x y \<or> Comparator h y z" for x y z
    using timer_order.neg_trans by (cases x; cases y; cases z) auto
qed

lemma equiv_timer [simp]: "equiv (timer_less h) a b \<longleftrightarrow> a = b"
  by (auto simp: equiv_def timer_less_iff)

section \<open>Construction\<close>

definition Timer_new :: "u64 \<Rightarrow> u64 \<Rightarrow> 'c callback option \<Rightarrow> bool \<Rightarrow> 'c timer" where
  "Timer_new now ms cb recurring =
     \<lparr>t_recurring = recurring, t_ms = ms, t_next = now + ms, t_cb = cb\<rparr>"

definition Timer_at :: "u64 \<Rightarrow> 'c timer" where
  "Timer_at next = \<lparr>t_recurring = False, t_ms = 0, t_next = next, t_cb = None\<rparr>"

definition TimerManager_new :: "u64 \<Rightarrow> 'c timer_manager" where
  "TimerManager_new now =
     \<lparr>tm_heap = (\<lambda>_. None), tm_timers = [], tm_tickled = False, tm_previouseTime = now\<rparr>"

section \<open>Operations\<close>

text \<open>The protected \<open>addTimer(val, lock)\<close>.\<close>

definition addTimer_locked :: "nat \<Rightarrow> 'c timer_manager \<Rightarrow> bool \<times> 'c timer_manager" where
  "addTimer_locked val m =
     (let ts = os_insert (timer_less (tm_heap m)) val (tm_timers m);
          at_front = (ts \<noteq> [] \<and> hd ts = val \<and> \<not> tm_tickled m);
          m1 = m\<lparr>tm_timers := ts\<rparr>
      in (at_front, if at_front then m1\<lparr>tm_tickled := True\<rparr> else m1))"

definition addTimer :: "nat \<Rightarrow> u64 \<Rightarrow> u64 \<Rightarrow> 'c callback option \<Rightarrow> bool \<Rightarrow> 'c timer_manager
    \<Rightarrow> bool \<times> 'c timer_manager" where
  "addTimer a now ms cb recurring m =
     addTimer_locked a (m\<lparr>tm_heap := (tm_heap m)(a \<mapsto> Timer_new now ms cb recurring)\<rparr>)"

definition addConditionTimer :: "nat \<Rightarrow> u64 \<Rightarrow> u64 \<Rightarrow> 'c option \<Rightarrow> nat \<Rightarrow> bool \<Rightarrow> 'c timer_manager
    \<Rightarrow> bool \<times> 'c timer_manager" where
  "addConditionTimer a now ms cb weak_cond recurring m =
     addTimer a now ms (Some (OnTimer weak_cond cb)) recurring m"

text \<open>
  What calling a callback does: \<open>Some\<close> the client function that runs. The static \<open>OnTimer\<close> runs it
  only while the condition object is \<open>alive\<close>; calling an empty \<open>std::function\<close> throws.
\<close>

fun run_callback :: "(nat \<Rightarrow> bool) \<Rightarrow> 'c callback \<Rightarrow> 'c option outcome" where
  "run_callback alive (Fn c) = Ret (Some c)"
| "run_callback alive (OnTimer weak_cond cb) =
     (if alive weak_cond then (case cb of Some c \<Rightarrow> Ret (Some c) | None \<Rightarrow> Throw BadFunctionCall)
      else Ret None)"

definition erase_found :: "nat \<Rightarrow> 'c timer_manager \<Rightarrow> 'c timer_manager option" where
  "erase_found a m =
     (case os_find (timer_less (tm_heap m)) a (tm_timers m) of
        None \<Rightarrow> None
      | Some _ \<Rightarrow> Some (m\<lparr>tm_timers := os_erase (timer_less (tm_heap m)) a (tm_timers m)\<rparr>))"

text \<open>\<open>cancel\<close> erases what \<open>find\<close> returned without looking at it: erasing \<open>end()\<close> is undefined.\<close>

definition cancel :: "nat \<Rightarrow> 'c timer_manager \<Rightarrow> (bool \<times> 'c timer_manager) outcome" where
  "cancel a m =
     (case tm_heap m a of
        None \<Rightarrow> Fault NullDeref
      | Some t \<Rightarrow>
          (case t_cb t of
             None \<Rightarrow> Ret (False, m)
           | Some _ \<Rightarrow>
               (case erase_found a (m\<lparr>tm_heap := (tm_heap m)(a \<mapsto> t\<lparr>t_cb := None\<rparr>)\<rparr>) of
                  None \<Rightarrow> Fault OutOfBounds
                | Some m1 \<Rightarrow> Ret (True, m1))))"

definition refresh :: "nat \<Rightarrow> u64 \<Rightarrow> 'c timer_manager \<Rightarrow> (bool \<times> 'c timer_manager) outcome" where
  "refresh a now m =
     (case tm_heap m a of
        None \<Rightarrow> Fault NullDeref
      | Some t \<Rightarrow>
          (case t_cb t of
             None \<Rightarrow> Ret (False, m)
           | Some _ \<Rightarrow>
               (case erase_found a m of
                  None \<Rightarrow> Ret (False, m)
                | Some m1 \<Rightarrow>
                    let h = (tm_heap m1)(a \<mapsto> t\<lparr>t_next := now + t_ms t\<rparr>)
                    in Ret (True, m1\<lparr>tm_heap := h, tm_timers := os_insert (timer_less h) a (tm_timers m1)\<rparr>))))"

definition reset :: "nat \<Rightarrow> u64 \<Rightarrow> bool \<Rightarrow> u64 \<Rightarrow> 'c timer_manager
    \<Rightarrow> ((bool \<times> bool) \<times> 'c timer_manager) outcome" where
  "reset a ms from_now now m =
     (case tm_heap m a of
        None \<Rightarrow> Fault NullDeref
      | Some t \<Rightarrow>
          if ms = t_ms t \<and> \<not> from_now then Ret ((True, False), m)
          else (case t_cb t of
             None \<Rightarrow> Ret ((False, False), m)
           | Some _ \<Rightarrow>
               (case erase_found a m of
                  None \<Rightarrow> Ret ((False, False), m)
                | Some m1 \<Rightarrow>
                    let start = (if from_now then now else t_next t - t_ms t);
                        m2 = m1\<lparr>tm_heap := (tm_heap m1)(a \<mapsto> t\<lparr>t_ms := ms, t_next := start + ms\<rparr>)\<rparr>;
                        (front, m3) = addTimer_locked a m2
                    in Ret ((True, front), m3))))"

definition getNextTimer :: "u64 \<Rightarrow> 'c timer_manager \<Rightarrow> u64 \<times> 'c timer_manager" where
  "getNextTimer now m =
     (let m1 = m\<lparr>tm_tickled := False\<rparr>
      in case tm_timers m1 of
           [] \<Rightarrow> (NOT 0, m1)
         | a # _ \<Rightarrow> let next = m_next (tm_heap m1) a
                    in (if now \<ge> next then 0 else next - now, m1))"

text \<open>The loop of \<open>listExpiredCb\<close> over \<open>expired\<close>.\<close>

fun expire :: "u64 \<Rightarrow> nat list \<Rightarrow> 'c timer_manager
    \<Rightarrow> ('c callback option list \<times> 'c timer_manager) outcome" where
  "expire now [] m = Ret ([], m)"
| "expire now (a # as) m =
     (case tm_heap m a of
        None \<Rightarrow> Fault NullDeref
      | Some t \<Rightarrow>
          let m1 = (if t_recurring t
                    then let h = (tm_heap m)(a \<mapsto> t\<lparr>t_next := now + t_ms t\<rparr>)
                         in m\<lparr>tm_heap := h, tm_timers := os_insert (timer_less h) a (tm_timers m)\<rparr>
                    else m\<lparr>tm_heap := (tm_heap m)(a \<mapsto> t\<lparr>t_cb := None\<rparr>)\<rparr>)
          in obind (expire now as m1) (\<lambda>(cbs, m2). Ret (t_cb t # cbs, m2)))"

text \<open>\<open>p\<close> is the address of the temporary \<open>now_timer\<close>, by which \<open>lower_bound\<close> compares.\<close>

definition listExpiredCb :: "nat \<Rightarrow> u64 \<Rightarrow> 'c timer_manager
    \<Rightarrow> ('c callback option list \<times> 'c timer_manager) outcome" where
  "listExpiredCb p now_ms m =
     (case tm_timers m of
        [] \<Rightarrow> Ret ([], m)
      | b # _ \<Rightarrow>
          if m_next (tm_heap m) b > now_ms then Ret ([], m)
          else let h = (tm_heap m)(p \<mapsto> Timer_at now_ms);
                   from_it = os_lower_bound (timer_less h) p (tm_timers m);
                   due_now = takeWhile (\<lambda>a. m_next h a = now_ms) from_it;
                   expired = os_before (timer_less h) p (tm_timers m) @ due_now;
                   rest = dropWhile (\<lambda>a. m_next h a = now_ms) from_it
               in expire now_ms expired (m\<lparr>tm_timers := rest\<rparr>))"

definition hasTimer :: "'c timer_manager \<Rightarrow> bool" where
  "hasTimer m \<longleftrightarrow> tm_timers m \<noteq> []"


section \<open>The invariant\<close>

text \<open>
  The set is sorted, every element is a live timer, and a timer whose callback is set is in the set
  (so \<open>cancel\<close> always finds what it erases).
\<close>

definition tm_inv :: "'c timer_manager \<Rightarrow> bool" where
  "tm_inv m \<longleftrightarrow> sorted_wrt (timer_less (tm_heap m)) (tm_timers m)
     \<and> (\<forall>a\<in>set (tm_timers m). tm_heap m a \<noteq> None)
     \<and> (\<forall>a t. tm_heap m a = Some t \<longrightarrow> t_cb t \<noteq> None \<longrightarrow> a \<in> set (tm_timers m))"

lemma m_next_upd [simp]:
  "m_next (h(a \<mapsto> t)) b = (if b = a then t_next t else m_next h b)"
  by (simp add: m_next_def)

lemma sorted_frame:
  "sorted_wrt (timer_less h) xs \<Longrightarrow> (\<And>x. x \<in> set xs \<Longrightarrow> m_next h' x = m_next h x)
   \<Longrightarrow> sorted_wrt (timer_less h') xs"
  by (erule sorted_wrt_mono_rel [rotated]) (auto simp: timer_less_iff)

lemma set_insert_timer: "sorted_wrt (timer_less h) xs \<Longrightarrow>
    set (os_insert (timer_less h) a xs) = insert a (set xs)"
  using timer_order.os_insert_new [of h xs a] timer_order.os_insert_present [of h xs a a]
  by (cases "a \<in> set xs") auto

lemma erase_found_eq:
  "erase_found a m = (if a \<in> set (tm_timers m)
     then Some (m\<lparr>tm_timers := filter (\<lambda>b. b \<noteq> a) (tm_timers m)\<rparr>) else None)"
proof -
  have "os_find (timer_less (tm_heap m)) a (tm_timers m) = (if a \<in> set (tm_timers m) then Some a else None)"
    using timer_order.os_find_None [of "tm_heap m" a "tm_timers m"]
      timer_order.os_find_Some [of "tm_heap m" a "tm_timers m"]
    by (cases "os_find (timer_less (tm_heap m)) a (tm_timers m)") auto
  moreover have "os_erase (timer_less (tm_heap m)) a (tm_timers m) = filter (\<lambda>b. b \<noteq> a) (tm_timers m)"
    by (auto simp: os_erase_def intro: filter_cong)
  ultimately show ?thesis by (simp add: erase_found_def)
qed

text \<open>Rewriting one timer that is not in the set, then inserting it or leaving it out.\<close>

lemma inv_update_insert:
  assumes "sorted_wrt (timer_less h) xs" "a \<notin> set xs" "\<forall>b\<in>set xs. h b \<noteq> None"
    "\<forall>b t. h b = Some t \<longrightarrow> t_cb t \<noteq> None \<longrightarrow> b = a \<or> b \<in> set xs"
    "tm_heap m = h(a \<mapsto> t)" "tm_timers m = os_insert (timer_less (h(a \<mapsto> t))) a xs"
  shows "tm_inv m"
proof -
  have s: "sorted_wrt (timer_less (h(a \<mapsto> t))) xs"
    using assms(1) by (rule sorted_frame) (use assms(2) in auto)
  have "b = a \<or> b \<in> set xs" if "(h(a \<mapsto> t)) b = Some u" "t_cb u \<noteq> None" for b u
    using assms(4) that by (cases "b = a") auto
  then show ?thesis unfolding tm_inv_def assms(5,6) set_insert_timer [OF s]
    using timer_order.sorted_os_insert [OF s] assms(3) by auto
qed

lemma inv_update_drop:
  assumes "sorted_wrt (timer_less h) xs" "a \<notin> set xs" "\<forall>b\<in>set xs. h b \<noteq> None"
    "\<forall>b t. h b = Some t \<longrightarrow> t_cb t \<noteq> None \<longrightarrow> b = a \<or> b \<in> set xs"
    "tm_heap m = h(a \<mapsto> t)" "tm_timers m = xs" "t_cb t = None"
  shows "tm_inv m"
proof -
  have s: "sorted_wrt (timer_less (h(a \<mapsto> t))) xs"
    using assms(1) by (rule sorted_frame) (use assms(2) in auto)
  have "b \<in> set xs" if "(h(a \<mapsto> t)) b = Some u" "t_cb u \<noteq> None" for b u
    using assms(4,7) that by (cases "b = a") auto
  with s show ?thesis unfolding tm_inv_def assms(5,6) using assms(3) by auto
qed

lemma inv_removed:
  assumes "tm_inv m"
  shows "sorted_wrt (timer_less (tm_heap m)) (filter (\<lambda>b. b \<noteq> a) (tm_timers m))"
    "a \<notin> set (filter (\<lambda>b. b \<noteq> a) (tm_timers m))"
    "\<forall>b\<in>set (filter (\<lambda>b. b \<noteq> a) (tm_timers m)). tm_heap m b \<noteq> None"
    "\<forall>b t. tm_heap m b = Some t \<longrightarrow> t_cb t \<noteq> None \<longrightarrow> b = a \<or> b \<in> set (filter (\<lambda>b. b \<noteq> a) (tm_timers m))"
  using assms by (auto simp: tm_inv_def sorted_wrt_filter)

lemma addTimer_locked_snd [simp]:
  "tm_heap (snd (addTimer_locked a m)) = tm_heap m"
  "tm_timers (snd (addTimer_locked a m)) = os_insert (timer_less (tm_heap m)) a (tm_timers m)"
  by (simp_all add: addTimer_locked_def Let_def)

text \<open>A timer that is off: its callback is cleared and it is in no expired prefix.\<close>

definition timer_off :: "nat \<Rightarrow> 'c timer_manager \<Rightarrow> bool" where
  "timer_off a m \<longleftrightarrow> (\<exists>t. tm_heap m a = Some t \<and> t_cb t = None) \<and> a \<notin> set (tm_timers m)"

lemma TimerManager_new_inv: "tm_inv (TimerManager_new now)"
  by (simp add: tm_inv_def TimerManager_new_def)

lemma addTimer_inv:
  assumes "tm_inv m" "tm_heap m a = None"
  shows "tm_inv (snd (addTimer a now ms cb recurring m))"
proof (rule inv_update_insert)
  show "sorted_wrt (timer_less (tm_heap m)) (tm_timers m)" "a \<notin> set (tm_timers m)"
    "\<forall>b\<in>set (tm_timers m). tm_heap m b \<noteq> None"
    "\<forall>b t. tm_heap m b = Some t \<longrightarrow> t_cb t \<noteq> None \<longrightarrow> b = a \<or> b \<in> set (tm_timers m)"
    using assms by (auto simp: tm_inv_def)
qed (simp_all add: addTimer_def)

lemma cancel_spec:
  assumes "tm_inv m" "tm_heap m a = Some t"
  obtains m' where "cancel a m = Ret (t_cb t \<noteq> None, m')" "tm_inv m'"
    "tm_heap m' = (tm_heap m)(a \<mapsto> t\<lparr>t_cb := None\<rparr>)"
    "t_cb t \<noteq> None \<Longrightarrow> a \<notin> set (tm_timers m')" "tm_tickled m' = tm_tickled m"
    "\<forall>b. timer_off b m \<longrightarrow> timer_off b m'"
proof (cases "t_cb t")
  case None
  then have "(tm_heap m)(a \<mapsto> t\<lparr>t_cb := None\<rparr>) = tm_heap m" using assms(2) by (auto simp: fun_eq_iff)
  with None assms show ?thesis by (intro that [of m]) (auto simp: cancel_def)
next
  case (Some c)
  then have a: "a \<in> set (tm_timers m)" using assms by (auto simp: tm_inv_def)
  let ?m' = "m\<lparr>tm_heap := (tm_heap m)(a \<mapsto> t\<lparr>t_cb := None\<rparr>), tm_timers := filter (\<lambda>b. b \<noteq> a) (tm_timers m)\<rparr>"
  have "tm_inv ?m'" by (rule inv_update_drop [OF inv_removed [OF assms(1)], where t = "t\<lparr>t_cb := None\<rparr>"]) simp_all
  with Some a assms(2) show ?thesis by (intro that [of ?m']) (auto simp: cancel_def erase_found_eq timer_off_def)
qed

lemma refresh_spec:
  assumes "tm_inv m" "tm_heap m a = Some t"
  obtains m' where "refresh a now m = Ret (t_cb t \<noteq> None, m')" "tm_inv m'"
    "tm_heap m' = (if t_cb t = None then tm_heap m else (tm_heap m)(a \<mapsto> t\<lparr>t_next := now + t_ms t\<rparr>))"
    "set (tm_timers m') = set (tm_timers m)" "tm_tickled m' = tm_tickled m"
    "\<forall>b. timer_off b m \<longrightarrow> timer_off b m'"
proof (cases "t_cb t")
  case None
  with assms show ?thesis by (intro that [of m]) (auto simp: refresh_def)
next
  case (Some c)
  then have a: "a \<in> set (tm_timers m)" using assms by (auto simp: tm_inv_def)
  let ?h = "(tm_heap m)(a \<mapsto> t\<lparr>t_next := now + t_ms t\<rparr>)"
  let ?xs = "filter (\<lambda>b. b \<noteq> a) (tm_timers m)"
  let ?m' = "m\<lparr>tm_heap := ?h, tm_timers := os_insert (timer_less ?h) a ?xs\<rparr>"
  have i: "tm_inv ?m'" by (rule inv_update_insert [OF inv_removed [OF assms(1)]]) simp_all
  have "sorted_wrt (timer_less ?h) ?xs"
    by (rule sorted_frame [OF inv_removed(1) [OF assms(1)]]) auto
  then have "set (tm_timers ?m') = set (tm_timers m)" using a by (auto simp: set_insert_timer)
  with i Some a assms(2) show ?thesis
    by (intro that [of ?m']) (auto simp: refresh_def erase_found_eq Let_def timer_off_def)
qed

lemma reset_spec:
  assumes "tm_inv m" "tm_heap m a = Some t"
  obtains ok front m' where "reset a ms from_now now m = Ret ((ok, front), m')" "tm_inv m'"
    "t_cb t = None \<Longrightarrow> m' = m"
    "dom (tm_heap m') = dom (tm_heap m)" "\<forall>b. timer_off b m \<longrightarrow> timer_off b m'"
proof (cases "(ms = t_ms t \<and> \<not> from_now) \<or> t_cb t = None")
  case True
  with assms show ?thesis
    by (intro that [of "ms = t_ms t \<and> \<not> from_now" False m]) (auto simp: reset_def)
next
  case False
  then have a: "a \<in> set (tm_timers m)" using assms by (auto simp: tm_inv_def)
  let ?st = "if from_now then now else t_next t - t_ms t"
  let ?h = "(tm_heap m)(a \<mapsto> t\<lparr>t_ms := ms, t_next := ?st + ms\<rparr>)"
  let ?xs = "filter (\<lambda>b. b \<noteq> a) (tm_timers m)"
  let ?r = "addTimer_locked a (m\<lparr>tm_timers := ?xs, tm_heap := ?h\<rparr>)"
  have e: "reset a ms from_now now m = Ret ((True, fst ?r), snd ?r)"
    using False a assms(2)
    by (auto simp: reset_def erase_found_eq Let_def split_beta)
  have i: "tm_inv (snd ?r)"
    by (rule inv_update_insert [OF inv_removed [OF assms(1)], where t = "t\<lparr>t_ms := ms, t_next := ?st + ms\<rparr>"]) simp_all
  have "dom (tm_heap (snd ?r)) = dom (tm_heap m)"
    using assms(2) by auto
  moreover have "timer_off b (snd ?r)" if "timer_off b m" for b
  proof -
    have "sorted_wrt (timer_less ?h) ?xs"
      by (rule sorted_frame [OF inv_removed(1) [OF assms(1)]]) auto
    then show ?thesis using that False assms(2) by (auto simp: timer_off_def set_insert_timer)
  qed
  ultimately show ?thesis by (intro that [OF e i]) (use False in auto)
qed

lemma getNextTimer_snd: "snd (getNextTimer now m) = m\<lparr>tm_tickled := False\<rparr>"
  by (auto simp: getNextTimer_def Let_def split: list.splits)

lemma getNextTimer_inv: "tm_inv m \<Longrightarrow> tm_inv (snd (getNextTimer now m))"
  by (simp add: getNextTimer_snd tm_inv_def)


section \<open>Expiry\<close>

definition rearm :: "u64 \<Rightarrow> 'c timer \<Rightarrow> 'c timer" where
  "rearm now t = (if t_recurring t then t\<lparr>t_next := now + t_ms t\<rparr> else t\<lparr>t_cb := None\<rparr>)"

definition recurs :: "'c timer_heap \<Rightarrow> nat \<Rightarrow> bool" where
  "recurs h a \<longleftrightarrow> (\<exists>t. h a = Some t \<and> t_recurring t)"

definition heap_cb :: "'c timer_heap \<Rightarrow> nat \<Rightarrow> 'c callback option" where
  "heap_cb h a = (case h a of Some t \<Rightarrow> t_cb t | None \<Rightarrow> None)"

definition pending :: "nat list \<Rightarrow> 'c timer_manager \<Rightarrow> bool" where
  "pending as m \<longleftrightarrow> sorted_wrt (timer_less (tm_heap m)) (tm_timers m)
     \<and> distinct as \<and> set as \<inter> set (tm_timers m) = {}
     \<and> (\<forall>a\<in>set as \<union> set (tm_timers m). tm_heap m a \<noteq> None)
     \<and> (\<forall>a t. tm_heap m a = Some t \<longrightarrow> t_cb t \<noteq> None \<longrightarrow> a \<in> set as \<or> a \<in> set (tm_timers m))"

lemma pending_Nil: "pending [] m \<longleftrightarrow> tm_inv m"
  by (auto simp: pending_def tm_inv_def)

definition expire_one :: "u64 \<Rightarrow> nat \<Rightarrow> 'c timer \<Rightarrow> 'c timer_manager \<Rightarrow> 'c timer_manager" where
  "expire_one now a t m =
     (if t_recurring t
      then m\<lparr>tm_heap := (tm_heap m)(a \<mapsto> rearm now t),
             tm_timers := os_insert (timer_less ((tm_heap m)(a \<mapsto> rearm now t))) a (tm_timers m)\<rparr>
      else m\<lparr>tm_heap := (tm_heap m)(a \<mapsto> rearm now t)\<rparr>)"

lemma expire_Cons:
  "tm_heap m a = Some t \<Longrightarrow> expire now (a # as) m =
     obind (expire now as (expire_one now a t m)) (\<lambda>(cbs, m2). Ret (t_cb t # cbs, m2))"
  by (simp add: expire_one_def rearm_def Let_def)

lemma pending_step:
  assumes "pending (a # as) m" "tm_heap m a = Some t"
  shows "pending as (expire_one now a t m)"
    "tm_heap (expire_one now a t m) = (tm_heap m)(a \<mapsto> rearm now t)"
    "set (tm_timers (expire_one now a t m)) =
       (if t_recurring t then insert a (set (tm_timers m)) else set (tm_timers m))"
    "tm_tickled (expire_one now a t m) = tm_tickled m"
proof -
  let ?h = "(tm_heap m)(a \<mapsto> rearm now t)"
  have s: "sorted_wrt (timer_less ?h) (tm_timers m)"
    by (rule sorted_frame [where h = "tm_heap m"]) (use assms(1) in \<open>auto simp: pending_def\<close>)
  show h: "tm_heap (expire_one now a t m) = ?h" "tm_tickled (expire_one now a t m) = tm_tickled m"
    by (simp_all add: expire_one_def)
  show ts: "set (tm_timers (expire_one now a t m)) =
       (if t_recurring t then insert a (set (tm_timers m)) else set (tm_timers m))"
    using s by (simp add: expire_one_def set_insert_timer)
  have sorted: "sorted_wrt (timer_less ?h) (tm_timers (expire_one now a t m))"
    using s timer_order.sorted_os_insert [OF s] by (simp add: expire_one_def)
  have cb: "b \<in> set as \<or> b \<in> set (tm_timers (expire_one now a t m))"
    if "?h b = Some u" "t_cb u \<noteq> None" for b u
  proof (cases "b = a")
    case True
    then show ?thesis using that ts by (auto simp: rearm_def split: if_splits)
  next
    case False
    then have "b \<in> set as \<or> b \<in> set (tm_timers m)"
      using that assms(1) unfolding pending_def by (metis fun_upd_apply set_ConsD)
    then show ?thesis unfolding ts by auto
  qed
  show "pending as (expire_one now a t m)"
    unfolding pending_def h ts using sorted cb assms(1) by (auto simp: pending_def ts)
qed

lemma expire_ok:
  "pending as m \<Longrightarrow> \<exists>m'. expire now as m = Ret (map (heap_cb (tm_heap m)) as, m') \<and> tm_inv m'
     \<and> tm_heap m' = (\<lambda>a. if a \<in> set as then map_option (rearm now) (tm_heap m a) else tm_heap m a)
     \<and> set (tm_timers m') = set (tm_timers m) \<union> {a \<in> set as. recurs (tm_heap m) a}
     \<and> tm_tickled m' = tm_tickled m"
proof (induction as arbitrary: m)
  case Nil
  then show ?case by (simp add: pending_Nil)
next
  case (Cons a as)
  then obtain t where t: "tm_heap m a = Some t" by (auto simp: pending_def)
  note P = pending_step [OF Cons.prems t, of now]
  let ?m1 = "expire_one now a t m"
  obtain m' where m': "expire now as ?m1 = Ret (map (heap_cb (tm_heap ?m1)) as, m')" "tm_inv m'"
    "tm_heap m' = (\<lambda>a. if a \<in> set as then map_option (rearm now) (tm_heap ?m1 a) else tm_heap ?m1 a)"
    "set (tm_timers m') = set (tm_timers ?m1) \<union> {a \<in> set as. recurs (tm_heap ?m1) a}"
    "tm_tickled m' = tm_tickled ?m1"
    using Cons.IH [OF P(1)] by blast
  have a: "a \<notin> set as" using Cons.prems by (simp add: pending_def)
  have same: "tm_heap ?m1 b = tm_heap m b" if "b \<in> set as" for b using that a by (auto simp: P(2))
  have cbs: "map (heap_cb (tm_heap ?m1)) as = map (heap_cb (tm_heap m)) as"
    by (simp add: heap_cb_def same)
  have heap: "tm_heap m' = (\<lambda>b. if b \<in> set (a # as) then map_option (rearm now) (tm_heap m b) else tm_heap m b)"
    unfolding m'(3) using a t same by (auto simp: P(2))
  have ts: "set (tm_timers m') = set (tm_timers m) \<union> {b \<in> set (a # as). recurs (tm_heap m) b}"
    unfolding m'(4) P(3) using t same by (auto simp: recurs_def)
  show ?case
    using m'(1,2,5) cbs heap ts t P(4)
    by (intro exI [of _ m']) (simp add: expire_Cons del: expire.simps, simp add: heap_cb_def)
qed

text \<open>The timers due at \<open>now\<close>, in the order of the set. The temporary's address does not matter.\<close>

definition due :: "'c timer_manager \<Rightarrow> u64 \<Rightarrow> nat \<Rightarrow> bool" where
  "due m now a \<longleftrightarrow> m_next (tm_heap m) a \<le> now"

lemma sorted_next: "sorted_wrt (timer_less h) (a # as) \<Longrightarrow> b \<in> set as \<Longrightarrow> m_next h a \<le> m_next h b"
  by (auto simp: timer_less_iff less_imp_le)

lemma due_prefix:
  "sorted_wrt (timer_less h) ts \<Longrightarrow>
     takeWhile (\<lambda>a. m_next h a \<le> now) ts = filter (\<lambda>a. m_next h a \<le> now) ts
   \<and> dropWhile (\<lambda>a. m_next h a \<le> now) ts = filter (\<lambda>a. \<not> m_next h a \<le> now) ts"
proof (induction ts)
  case (Cons a ts)
  have "\<not> m_next h a \<le> now \<Longrightarrow> b \<in> set ts \<Longrightarrow> \<not> m_next h b \<le> now" for b
    using sorted_next [OF Cons.prems] order.trans by blast
  then have "\<not> m_next h a \<le> now \<Longrightarrow> filter (\<lambda>a. m_next h a \<le> now) ts = []
      \<and> filter (\<lambda>a. \<not> m_next h a \<le> now) ts = ts"
    by (auto simp: filter_empty_conv filter_id_conv)
  then show ?case using Cons by auto
qed simp

lemma expired_prefix:
  fixes h :: "'c timer_heap" and p :: nat and now :: u64
  defines "h' \<equiv> h(p \<mapsto> Timer_at now)"
  assumes "sorted_wrt (timer_less h) ts" "p \<notin> set ts"
  shows "os_before (timer_less h') p ts @ takeWhile (\<lambda>a. m_next h' a = now) (os_lower_bound (timer_less h') p ts)
           = filter (\<lambda>a. m_next h a \<le> now) ts
    \<and> dropWhile (\<lambda>a. m_next h' a = now) (os_lower_bound (timer_less h') p ts)
           = filter (\<lambda>a. \<not> m_next h a \<le> now) ts"
  using assms(2,3)
proof (induction ts)
  case Nil
  show ?case by (simp add: os_before_def os_lower_bound_def)
next
  case (Cons a ts)
  have ap: "a \<noteq> p" using Cons.prems(2) by auto
  have le: "timer_less h' a p \<longleftrightarrow> m_next h a < now \<or> m_next h a = now \<and> a < p"
    using ap by (simp add: timer_less_iff h'_def Timer_at_def)
  show ?case
  proof (cases "timer_less h' a p")
    case True
    then have "m_next h a \<le> now" using le by auto
    with True Cons show ?thesis by (simp add: os_before_def os_lower_bound_def)
  next
    case False
    have now: "(m_next h' b = now) = (m_next h b \<le> now)" if b: "b \<in> set (a # ts)" for b
    proof -
      have "now \<le> m_next h a" using False le by auto
      also have "m_next h a \<le> m_next h b" using b Cons.prems(1) sorted_next [of h a ts b] by auto
      finally show ?thesis using b Cons.prems(2) by (auto simp: h'_def)
    qed
    have "takeWhile (\<lambda>a. m_next h' a = now) (a # ts) = takeWhile (\<lambda>a. m_next h a \<le> now) (a # ts)"
      "dropWhile (\<lambda>a. m_next h' a = now) (a # ts) = dropWhile (\<lambda>a. m_next h a \<le> now) (a # ts)"
      by (rule takeWhile_cong [OF refl now], assumption) (rule dropWhile_cong [OF refl now])
    then show ?thesis using False due_prefix [OF Cons.prems(1), of now]
      by (simp add: os_before_def os_lower_bound_def del: filter.simps)
  qed
qed

text \<open>What \<open>listExpiredCb\<close> returns and leaves.\<close>

lemma listExpiredCb_ok:
  assumes inv: "tm_inv m" and p: "tm_heap m p = None"
  shows "\<exists>m'. listExpiredCb p now m = Ret (map (heap_cb (tm_heap m)) (filter (due m now) (tm_timers m)), m')
     \<and> tm_inv m'
     \<and> tm_heap m' = (\<lambda>a. if a \<in> set (tm_timers m) \<and> due m now a then map_option (rearm now) (tm_heap m a)
                          else tm_heap m a)
     \<and> set (tm_timers m') = {a \<in> set (tm_timers m). due m now a \<longrightarrow> recurs (tm_heap m) a}
     \<and> tm_tickled m' = tm_tickled m"
proof (cases "tm_timers m")
  case Nil
  then show ?thesis using inv by (intro exI [of _ m]) (simp add: listExpiredCb_def)
next
  case (Cons b bs)
  have s: "sorted_wrt (timer_less (tm_heap m)) (tm_timers m)" and pn: "p \<notin> set (tm_timers m)"
    using inv p by (auto simp: tm_inv_def)
  show ?thesis
  proof (cases "m_next (tm_heap m) b > now")
    case True
    have none: "\<not> due m now a" if "a \<in> set (tm_timers m)" for a
    proof -
      have "m_next (tm_heap m) b \<le> m_next (tm_heap m) a"
        using sorted_next [of "tm_heap m" b bs a] s that Cons by auto
      with True show ?thesis unfolding due_def by (simp add: not_le order.strict_trans2)
    qed
    then have "filter (due m now) (tm_timers m) = []" by (simp add: filter_empty_conv)
    moreover have "listExpiredCb p now m = Ret ([], m)" using Cons True by (simp add: listExpiredCb_def)
    ultimately show ?thesis using inv none by (intro exI [of _ m]) (auto simp: fun_eq_iff)
  next
    case False
    let ?exp = "filter (due m now) (tm_timers m)" and ?rest = "filter (\<lambda>a. \<not> due m now a) (tm_timers m)"
    let ?m1 = "m\<lparr>tm_timers := ?rest\<rparr>"
    have e: "listExpiredCb p now m = expire now ?exp ?m1"
      using Cons False expired_prefix [OF s pn, of now]
      by (simp add: listExpiredCb_def Let_def due_def [abs_def])
    have "pending ?exp ?m1"
      using inv timer_order.sorted_distinct [OF s] by (auto simp: pending_def tm_inv_def sorted_wrt_filter)
    from expire_ok [OF this, of now] obtain m' where m': "expire now ?exp ?m1 = Ret (map (heap_cb (tm_heap ?m1)) ?exp, m')"
      "tm_inv m'" "tm_heap m' = (\<lambda>a. if a \<in> set ?exp then map_option (rearm now) (tm_heap ?m1 a) else tm_heap ?m1 a)"
      "set (tm_timers m') = set ?rest \<union> {a \<in> set ?exp. recurs (tm_heap ?m1) a}" "tm_tickled m' = tm_tickled m"
      by auto
    show ?thesis
      by (rule exI [of _ m'], unfold e m'(1,3,4,5)) (use m'(2) in \<open>auto simp: fun_eq_iff\<close>)
  qed
qed


section \<open>Histories\<close>

text \<open>
  One call on a manager. A new timer gets an address that no timer object has (the manager's objects
  are kept alive by their \<open>shared_ptr\<close>s); a \<open>Timer::ptr\<close> given to a method is the address of a live
  object. \<open>fired\<close> is what \<open>listExpiredCb\<close> handed out: the addresses whose callbacks it copied.
\<close>

datatype 'c tm_op =
    Add nat u64 u64 "'c callback option" bool
  | Cancel nat
  | Refresh nat u64
  | Reset nat u64 bool u64
  | NextTimer u64
  | Expire nat u64

fun tm_exec :: "'c tm_op \<Rightarrow> 'c timer_manager \<Rightarrow> 'c timer_manager outcome" where
  "tm_exec (Add a now ms cb rec) m = Ret (snd (addTimer a now ms cb rec m))"
| "tm_exec (Cancel a) m = obind (cancel a m) (\<lambda>(_, m1). Ret m1)"
| "tm_exec (Refresh a now) m = obind (refresh a now m) (\<lambda>(_, m1). Ret m1)"
| "tm_exec (Reset a ms from_now now) m = obind (reset a ms from_now now m) (\<lambda>(_, m1). Ret m1)"
| "tm_exec (NextTimer now) m = Ret (snd (getNextTimer now m))"
| "tm_exec (Expire p now) m = obind (listExpiredCb p now m) (\<lambda>(_, m1). Ret m1)"

fun tm_allowed :: "'c tm_op \<Rightarrow> 'c timer_manager \<Rightarrow> bool" where
  "tm_allowed (Add a now ms cb rec) m \<longleftrightarrow> tm_heap m a = None"
| "tm_allowed (Cancel a) m \<longleftrightarrow> tm_heap m a \<noteq> None"
| "tm_allowed (Refresh a now) m \<longleftrightarrow> tm_heap m a \<noteq> None"
| "tm_allowed (Reset a ms from_now now) m \<longleftrightarrow> tm_heap m a \<noteq> None"
| "tm_allowed (NextTimer now) m \<longleftrightarrow> True"
| "tm_allowed (Expire p now) m \<longleftrightarrow> tm_heap m p = None"

inductive tm_step :: "'c timer_manager \<Rightarrow> 'c tm_op \<Rightarrow> 'c timer_manager \<Rightarrow> bool" where
  "tm_allowed op m \<Longrightarrow> tm_exec op m = Ret m' \<Longrightarrow> tm_step m op m'"

inductive_cases tm_stepE: "tm_step m op m'"

inductive tm_run :: "'c timer_manager \<Rightarrow> 'c tm_op list \<Rightarrow> 'c timer_manager \<Rightarrow> bool" where
  run_Nil: "tm_run m [] m"
| run_Cons: "tm_step m op m1 \<Longrightarrow> tm_run m1 ops m2 \<Longrightarrow> tm_run m (op # ops) m2"

lemma run_step: "tm_allowed op m \<Longrightarrow> tm_exec op m = Ret m1 \<Longrightarrow> tm_run m1 ops m2 \<Longrightarrow> tm_run m (op # ops) m2"
  by (blast intro: tm_step.intros tm_run.intros)

inductive_cases tm_run_ConsE: "tm_run m (op # ops) m2"

text \<open>Every call returns and keeps the invariant; what is off stays off.\<close>

lemma tm_exec_ok:
  assumes "tm_inv m" "tm_allowed op m"
  shows "\<exists>m'. tm_exec op m = Ret m' \<and> tm_inv m' \<and> (\<forall>a. timer_off a m \<longrightarrow> timer_off a m')"
proof (cases op)
  case (Add a now ms cb rec)
  let ?m' = "snd (addTimer a now ms cb rec m)"
  have s: "sorted_wrt (timer_less ((tm_heap m)(a \<mapsto> Timer_new now ms cb rec))) (tm_timers m)"
    by (rule sorted_frame [where h = "tm_heap m"]) (use assms Add in \<open>auto simp: tm_inv_def\<close>)
  have "timer_off b ?m'" if "timer_off b m" for b
    using that assms(2) Add by (auto simp: timer_off_def addTimer_def set_insert_timer [OF s])
  then show ?thesis using addTimer_inv [of m a] assms Add by simp
next
  case (Cancel a)
  then obtain t where t: "tm_heap m a = Some t" using assms(2) by auto
  obtain m' where "cancel a m = Ret (t_cb t \<noteq> None, m')" "tm_inv m'" "\<forall>b. timer_off b m \<longrightarrow> timer_off b m'"
    using cancel_spec [OF assms(1) t] by metis
  then show ?thesis using Cancel by simp
next
  case (Refresh a now)
  then obtain t where t: "tm_heap m a = Some t" using assms(2) by auto
  obtain m' where "refresh a now m = Ret (t_cb t \<noteq> None, m')" "tm_inv m'" "\<forall>b. timer_off b m \<longrightarrow> timer_off b m'"
    using refresh_spec [OF assms(1) t] by metis
  then show ?thesis using Refresh by simp
next
  case (Reset a ms from_now now)
  then obtain t where t: "tm_heap m a = Some t" using assms(2) by auto
  obtain r m' where "reset a ms from_now now m = Ret (r, m')" "tm_inv m'" "\<forall>b. timer_off b m \<longrightarrow> timer_off b m'"
    using reset_spec [OF assms(1) t] by metis
  then show ?thesis using Reset by simp
next
  case (NextTimer now)
  then show ?thesis using assms(1) getNextTimer_inv [of m now]
    by (simp add: getNextTimer_snd timer_off_def)
next
  case (Expire p now)
  then obtain m' where "listExpiredCb p now m = Ret (map (heap_cb (tm_heap m)) (filter (due m now) (tm_timers m)), m')"
    "tm_inv m'"
    "tm_heap m' = (\<lambda>a. if a \<in> set (tm_timers m) \<and> due m now a then map_option (rearm now) (tm_heap m a) else tm_heap m a)"
    "set (tm_timers m') = {a \<in> set (tm_timers m). due m now a \<longrightarrow> recurs (tm_heap m) a}"
    using listExpiredCb_ok [OF assms(1), of p now] assms(2) by auto
  with Expire show ?thesis by (auto simp: timer_off_def)
qed


lemma tm_run_ok:
  "tm_run m ops m' \<Longrightarrow> tm_inv m \<Longrightarrow> tm_inv m' \<and> (\<forall>a. timer_off a m \<longrightarrow> timer_off a m')"
proof (induction rule: tm_run.induct)
  case (run_Cons m op m1 ops m2)
  then show ?case using tm_exec_ok [of m op] by (auto elim!: tm_stepE)
qed simp

section \<open>Properties\<close>

text \<open>C8. In every state that calls on a fresh manager can reach, the timer set is sorted by expiry
  time, holds live timers only and contains every armed timer, and every further call on a live timer
  returns: \<open>cancel\<close> never erases \<open>end()\<close> and no freed timer is touched.\<close>

theorem timer_manager_invariant:
  assumes "tm_run (TimerManager_new t0) ops m"
  shows "tm_inv m \<and> (\<forall>op. tm_allowed op m \<longrightarrow> (\<exists>m'. tm_exec op m = Ret m' \<and> tm_inv m'))"
  using tm_run_ok [OF assms TimerManager_new_inv] tm_exec_ok [of m] by blast

theorem timer_manager_invariant_witness:
  "\<exists>m. tm_run (TimerManager_new 0) [Add 1 100 50 (Some (Fn ''cb'')) True, Cancel 1] m \<and> tm_inv m"
proof -
  let ?m1 = "snd (addTimer 1 100 50 (Some (Fn ''cb'')) True (TimerManager_new 0))"
  have a1: "tm_allowed (Add 1 100 50 (Some (Fn ''cb'')) True) (TimerManager_new 0)"
    "tm_exec (Add 1 100 50 (Some (Fn ''cb'')) True) (TimerManager_new 0) = Ret ?m1"
    by (simp_all add: TimerManager_new_def)
  have r1: "tm_run (TimerManager_new 0) [Add 1 100 50 (Some (Fn ''cb'')) True] ?m1"
    by (rule run_step [OF a1 run_Nil])
  have a: "tm_allowed (Cancel 1) ?m1" by (simp add: addTimer_def)
  obtain m where m: "tm_exec (Cancel 1) ?m1 = Ret m" "tm_inv m"
    using timer_manager_invariant [OF r1] a by blast
  then have "tm_run (TimerManager_new 0) [Add 1 100 50 (Some (Fn ''cb'')) True, Cancel 1] m"
    by (intro run_step [OF a1 run_step [OF a m(1) run_Nil]])
  with m show ?thesis by blast
qed

text \<open>C10. \<open>listExpiredCb\<close> hands out exactly the callbacks of the timers whose time has come, in the
  order of their expiry times; afterwards the one-shot ones are disarmed and out of the set, the
  recurring ones are rearmed one period from now, and the others are untouched.\<close>

theorem listExpiredCb_spec:
  assumes "tm_inv m" and "tm_heap m p = None"
  shows "\<exists>m'. listExpiredCb p now m = Ret (map (heap_cb (tm_heap m)) (filter (due m now) (tm_timers m)), m')
     \<and> sorted_wrt (timer_less (tm_heap m)) (filter (due m now) (tm_timers m))
     \<and> set (tm_timers m') = {a \<in> set (tm_timers m). due m now a \<longrightarrow> recurs (tm_heap m) a}
     \<and> (\<forall>a. tm_heap m' a = (if a \<in> set (tm_timers m) \<and> due m now a
                             then map_option (rearm now) (tm_heap m a) else tm_heap m a))"
proof -
  have "sorted_wrt (timer_less (tm_heap m)) (filter (due m now) (tm_timers m))"
    using assms(1) by (simp add: tm_inv_def sorted_wrt_filter)
  with listExpiredCb_ok [OF assms, of now] show ?thesis by (metis (no_types, lifting))
qed

theorem listExpiredCb_spec_witness:
  "\<exists>m'. listExpiredCb 9 60 (snd (addTimer 1 0 50 (Some (Fn ''cb'')) False (TimerManager_new 0)))
     = Ret ([Some (Fn ''cb'')], m') \<and> tm_timers m' = []"
proof -
  let ?m = "snd (addTimer 1 0 50 (Some (Fn ''cb'')) False (TimerManager_new 0))"
  have i: "tm_inv ?m" by (rule addTimer_inv [OF TimerManager_new_inv]) (simp add: TimerManager_new_def)
  have p: "tm_heap ?m 9 = None" by (simp add: addTimer_def TimerManager_new_def)
  have d: "filter (due ?m 60) (tm_timers ?m) = [1]" "tm_timers ?m = [1]"
    by (simp_all add: due_def addTimer_def TimerManager_new_def Timer_new_def)
  have c: "heap_cb (tm_heap ?m) 1 = Some (Fn ''cb'')" "\<not> recurs (tm_heap ?m) 1" "due ?m 60 1"
    by (simp_all add: heap_cb_def recurs_def due_def addTimer_def Timer_new_def)
  obtain m' where r: "listExpiredCb 9 60 ?m = Ret (map (heap_cb (tm_heap ?m)) (filter (due ?m 60) (tm_timers ?m)), m')"
    and ts: "set (tm_timers m') = {a \<in> set (tm_timers ?m). due ?m 60 a \<longrightarrow> recurs (tm_heap ?m) a}"
    using listExpiredCb_spec [OF i p, of 60] by blast
  note m' = r [unfolded d(1)] ts [unfolded d(2)]
  have "set (tm_timers m') = {}" unfolding m'(2) using c(2,3) by (auto simp del: One_nat_def)
  then show ?thesis using m'(1) c(1) by (simp del: One_nat_def)
qed

text \<open>C15. A cancelled timer never fires again: whatever calls follow (\<open>refresh\<close> and \<open>reset\<close> of the
  same timer included), its callback stays cleared and it is in no later expired batch.\<close>

theorem cancelled_timer_never_fires:
  assumes "tm_inv m" and "tm_heap m a = Some t" and "t_cb t \<noteq> None"
    and "cancel a m = Ret (ok, m1)" and "tm_run m1 ops m2"
  shows "ok \<and> heap_cb (tm_heap m2) a = None \<and> a \<notin> set (filter (due m2 now) (tm_timers m2))"
proof -
  obtain m' where "cancel a m = Ret (t_cb t \<noteq> None, m')" "tm_inv m'"
    "tm_heap m' = (tm_heap m)(a \<mapsto> t\<lparr>t_cb := None\<rparr>)" "a \<notin> set (tm_timers m')"
    using cancel_spec [OF assms(1,2)] assms(3) by metis
  then have ok: "ok" and "tm_inv m1" "timer_off a m1"
    using assms(3,4) by (auto simp: timer_off_def)
  then have "timer_off a m2" using tm_run_ok [OF assms(5)] by blast
  with ok show ?thesis by (auto simp: timer_off_def heap_cb_def)
qed

theorem cancelled_timer_never_fires_witness:
  "\<exists>m1 m2. cancel 1 (snd (addTimer 1 0 50 (Some (Fn ''cb'')) False (TimerManager_new 0))) = Ret (True, m1)
     \<and> tm_run m1 [NextTimer 7] m2 \<and> heap_cb (tm_heap m2) 1 = None"
proof -
  let ?m = "snd (addTimer 1 0 50 (Some (Fn ''cb'')) False (TimerManager_new 0))"
  have i: "tm_inv ?m" by (rule addTimer_inv [OF TimerManager_new_inv]) (simp add: TimerManager_new_def)
  have h: "tm_heap ?m 1 = Some (Timer_new 0 50 (Some (Fn ''cb'')) False)" by (simp add: addTimer_def)
  have c: "t_cb (Timer_new 0 50 (Some (Fn ''cb'')) False) \<noteq> None" by (simp add: Timer_new_def)
  obtain ok m1 where m1: "cancel 1 ?m = Ret (ok, m1)" using cancel_spec [OF i h] by metis
  have r: "tm_run m1 [NextTimer 7] (snd (getNextTimer 7 m1))"
    by (rule run_step [OF _ _ run_Nil]) simp_all
  show ?thesis using cancelled_timer_never_fires [OF i h c m1 r] m1 r by auto
qed

end
