(* ===== verification/Fiber.thy ===== *)
theory Fiber
  imports Prelude
begin

text \<open>
  \<open>radixun/common/fiber.{h,cpp}\<close>: fibers and their life cycle.

  \<^item> a \<open>Fiber::ptr\<close> is an address into \<open>fs_heap\<close>; \<open>fs_id\<close> and \<open>fs_count\<close> are \<open>s_fiber_id\<close> and
    \<open>s_fiber_count\<close>, \<open>tls_fiber\<close> and \<open>tls_threadFiber\<close> the thread-local \<open>t_fiber\<close> and
    \<open>t_threadFiber\<close> of the thread that runs the operation;
  \<^item> the saved \<open>ucontext_t\<close> is not modelled: an operation that calls \<open>swapcontext\<close> returns the address
    of the fiber control goes to. The body of a fiber is client code, an abstract \<open>'c\<close>; how it ended is
    the argument \<open>ending\<close> of \<open>MainFunc\<close>;
  \<^item> a failing \<open>RADIXUN_ASSERT\<close> is \<open>Fault AssertFail\<close>; \<open>getcontext\<close> and \<open>swapcontext\<close> succeed.
\<close>

datatype state = INIT | HOLD | EXEC | TERM' | READY | EXCEPT

datatype ending = Returned | StdException | OtherException

datatype entry = EnterMainFunc | EnterCallerMainFunc

record 'c fiber =
  f_id :: u64
  f_stacksize :: u32
  f_state :: state
  f_stack :: bool
  f_cb :: "'c option"
  f_entry :: entry

record 'c fiber_sys =
  fs_heap :: "nat \<Rightarrow> 'c fiber option"
  fs_id :: u64
  fs_count :: u64
  tls_fiber :: "nat option"
  tls_threadFiber :: "nat option"

section \<open>Operations\<close>

definition with_fiber :: "nat \<Rightarrow> 'c fiber_sys \<Rightarrow> ('c fiber \<Rightarrow> 'r outcome) \<Rightarrow> 'r outcome" where
  "with_fiber a s k = (case fs_heap s a of None \<Rightarrow> Fault NullDeref | Some f \<Rightarrow> k f)"

definition put_fiber :: "nat \<Rightarrow> 'c fiber \<Rightarrow> 'c fiber_sys \<Rightarrow> 'c fiber_sys" where
  "put_fiber a f s = s\<lparr>fs_heap := (fs_heap s)(a \<mapsto> f)\<rparr>"

definition assert_that :: "bool \<Rightarrow> 'r outcome \<Rightarrow> 'r outcome" where
  "assert_that p r = (if p then r else Fault AssertFail)"

definition SetThis :: "nat option \<Rightarrow> 'c fiber_sys \<Rightarrow> 'c fiber_sys" where
  "SetThis f s = s\<lparr>tls_fiber := f\<rparr>"

text \<open>The private constructor: the fiber of the thread's own stack.\<close>

definition Fiber_main :: "nat \<Rightarrow> 'c fiber_sys \<Rightarrow> 'c fiber_sys" where
  "Fiber_main a s =
     (let s1 = SetThis (Some a) (put_fiber a
          \<lparr>f_id = 0, f_stacksize = 0, f_state = EXEC, f_stack = False, f_cb = None, f_entry = EnterMainFunc\<rparr> s)
      in s1\<lparr>fs_count := fs_count s1 + 1\<rparr>)"

definition Fiber_new :: "u32 \<Rightarrow> nat \<Rightarrow> 'c option \<Rightarrow> u32 \<Rightarrow> bool \<Rightarrow> 'c fiber_sys \<Rightarrow> 'c fiber_sys" where
  "Fiber_new conf_stack_size a cb stacksize use_caller s =
     (let s1 = s\<lparr>fs_id := fs_id s + 1, fs_count := fs_count s + 1\<rparr>
      in put_fiber a
          \<lparr>f_id = fs_id s1, f_stacksize = (if stacksize \<noteq> 0 then stacksize else conf_stack_size),
           f_state = INIT, f_stack = True, f_cb = cb,
           f_entry = (if use_caller then EnterCallerMainFunc else EnterMainFunc)\<rparr> s1)"

definition reusable :: "state \<Rightarrow> bool" where
  "reusable st \<longleftrightarrow> st = TERM' \<or> st = EXCEPT \<or> st = INIT"

definition Fiber_destroy :: "nat \<Rightarrow> 'c fiber_sys \<Rightarrow> 'c fiber_sys outcome" where
  "Fiber_destroy a s = with_fiber a s (\<lambda>f.
     let s1 = s\<lparr>fs_count := fs_count s - 1\<rparr>;
         gone = s1\<lparr>fs_heap := (fs_heap s1)(a := None)\<rparr>
     in if f_stack f then assert_that (reusable (f_state f)) (Ret gone)
        else assert_that (f_cb f = None) (assert_that (f_state f = EXEC)
          (Ret (if tls_fiber s = Some a then SetThis None gone else gone))))"

definition fiber_reset :: "nat \<Rightarrow> 'c option \<Rightarrow> 'c fiber_sys \<Rightarrow> 'c fiber_sys outcome" where
  "fiber_reset a cb s = with_fiber a s (\<lambda>f.
     assert_that (f_stack f) (assert_that (reusable (f_state f))
       (Ret (put_fiber a (f\<lparr>f_cb := cb, f_entry := EnterMainFunc, f_state := INIT\<rparr>) s))))"

text \<open>Switches return where control goes. \<open>main\<close> is \<open>Scheduler::GetMainFiber()\<close>.\<close>

definition fiber_call :: "nat \<Rightarrow> 'c fiber_sys \<Rightarrow> (nat \<times> 'c fiber_sys) outcome" where
  "fiber_call a s = with_fiber a s (\<lambda>f.
     if tls_threadFiber s = None then Fault NullDeref
     else Ret (a, put_fiber a (f\<lparr>f_state := EXEC\<rparr>) (SetThis (Some a) s)))"

definition fiber_back :: "nat \<Rightarrow> 'c fiber_sys \<Rightarrow> (nat \<times> 'c fiber_sys) outcome" where
  "fiber_back a s = with_fiber a s (\<lambda>f.
     case tls_threadFiber s of None \<Rightarrow> Fault NullDeref | Some t \<Rightarrow> Ret (t, SetThis (Some a) s))"

definition swapIn :: "nat option \<Rightarrow> nat \<Rightarrow> 'c fiber_sys \<Rightarrow> (nat \<times> 'c fiber_sys) outcome" where
  "swapIn main a s = with_fiber a s (\<lambda>f.
     let s1 = SetThis (Some a) s
     in assert_that (f_state f \<noteq> EXEC)
          (if main = None then Fault NullDeref
           else Ret (a, put_fiber a (f\<lparr>f_state := EXEC\<rparr>) s1)))"

definition swapOut :: "nat option \<Rightarrow> nat \<Rightarrow> 'c fiber_sys \<Rightarrow> (nat \<times> 'c fiber_sys) outcome" where
  "swapOut main a s = with_fiber a s (\<lambda>f.
     case main of None \<Rightarrow> Fault NullDeref | Some m \<Rightarrow> Ret (m, SetThis (Some m) s))"

text \<open>\<open>new_a\<close> is the address \<open>new Fiber\<close> returns when the thread has no fiber yet.\<close>

definition GetThis :: "nat \<Rightarrow> 'c fiber_sys \<Rightarrow> (nat \<times> 'c fiber_sys) outcome" where
  "GetThis new_a s =
     (case tls_fiber s of
        Some a \<Rightarrow> (if fs_heap s a = None then Fault NullDeref else Ret (a, s))
      | None \<Rightarrow> let s1 = Fiber_main new_a s
                in assert_that (tls_fiber s1 = Some new_a)
                     (Ret (new_a, s1\<lparr>tls_threadFiber := Some new_a\<rparr>)))"

text \<open>
  A yield first marks the new state of the current fiber, \<open>cur\<close>, and then switches. Another thread can act
  between the two, so the mark is a definition of its own, which the steps of the scheduler use too.
\<close>

definition yield_mark :: "state \<Rightarrow> nat \<Rightarrow> 'c fiber_sys \<Rightarrow> (nat \<times> 'c fiber_sys) outcome" where
  "yield_mark st new_a s =
     obind (GetThis new_a s) (\<lambda>(cur, s1). with_fiber cur s1 (\<lambda>f.
       assert_that (f_state f = EXEC) (Ret (cur, put_fiber cur (f\<lparr>f_state := st\<rparr>) s1))))"

definition yield_with :: "state \<Rightarrow> nat option \<Rightarrow> nat \<Rightarrow> 'c fiber_sys \<Rightarrow> (nat \<times> 'c fiber_sys) outcome" where
  "yield_with st main new_a s = obind (yield_mark st new_a s) (\<lambda>(cur, s1). swapOut main cur s1)"

definition YieldToReady :: "nat option \<Rightarrow> nat \<Rightarrow> 'c fiber_sys \<Rightarrow> (nat \<times> 'c fiber_sys) outcome" where
  "YieldToReady = yield_with READY"

definition YieldToHold :: "nat option \<Rightarrow> nat \<Rightarrow> 'c fiber_sys \<Rightarrow> (nat \<times> 'c fiber_sys) outcome" where
  "YieldToHold = yield_with HOLD"

definition GetFiberId :: "'c fiber_sys \<Rightarrow> u64 outcome" where
  "GetFiberId s = (case tls_fiber s of Some a \<Rightarrow> with_fiber a s (\<lambda>f. Ret (f_id f)) | None \<Rightarrow> Ret 0)"

definition TotalFibers :: "'c fiber_sys \<Rightarrow> u64" where
  "TotalFibers s = fs_count s"

text \<open>
  What \<open>MainFunc\<close> does when the callback ended. A \<open>std::exception\<close> is logged only: the state stays
  \<open>EXEC\<close> and the callback stays set.
\<close>

definition cb_ended :: "ending \<Rightarrow> 'c fiber \<Rightarrow> 'c fiber" where
  "cb_ended e f = (case e of
       Returned \<Rightarrow> f\<lparr>f_cb := None, f_state := TERM'\<rparr>
     | StdException \<Rightarrow> f
     | OtherException \<Rightarrow> f\<lparr>f_state := EXCEPT\<rparr>)"

definition end_mark :: "ending \<Rightarrow> nat \<Rightarrow> 'c fiber_sys \<Rightarrow> (nat \<times> 'c fiber_sys) outcome" where
  "end_mark e new_a s =
     obind (GetThis new_a s) (\<lambda>(cur, s1). with_fiber cur s1 (\<lambda>f.
       Ret (cur, put_fiber cur (cb_ended e f) s1)))"

definition MainFunc :: "nat option \<Rightarrow> nat \<Rightarrow> ending \<Rightarrow> 'c fiber_sys \<Rightarrow> (nat \<times> 'c fiber_sys) outcome" where
  "MainFunc main new_a e s = obind (end_mark e new_a s) (\<lambda>(cur, s1). swapOut main cur s1)"

definition CallerMainFunc :: "nat \<Rightarrow> ending \<Rightarrow> 'c fiber_sys \<Rightarrow> (nat \<times> 'c fiber_sys) outcome" where
  "CallerMainFunc new_a e s = obind (end_mark e new_a s) (\<lambda>(cur, s1). fiber_back cur s1)"

section \<open>The life cycle\<close>

text \<open>
  Every change of \<open>m_state\<close> the class makes. \<open>Scheduler::run\<close> adds one: a fiber that came back in
  another state than \<open>READY\<close>, \<open>TERM'\<close> or \<open>EXCEPT\<close> is put in \<open>HOLD\<close>.
\<close>

inductive fiber_edge :: "state \<Rightarrow> state \<Rightarrow> bool" where
  resume: "st \<noteq> EXEC \<Longrightarrow> fiber_edge st EXEC"
| yield_ready: "fiber_edge EXEC READY"
| yield_hold: "fiber_edge EXEC HOLD"
| finish: "fiber_edge EXEC TERM'"
| fail: "fiber_edge EXEC EXCEPT"
| reinit: "reusable st \<Longrightarrow> fiber_edge st INIT"

inductive_simps fiber_edge_EXEC [simp]: "fiber_edge EXEC st"
inductive_cases fiber_edge_intoE: "fiber_edge st EXEC"

definition state_of :: "nat \<Rightarrow> 'c fiber_sys \<Rightarrow> state option" where
  "state_of a s = map_option f_state (fs_heap s a)"

lemmas fiber_defs = with_fiber_def put_fiber_def assert_that_def SetThis_def state_of_def Let_def

lemma state_of_put [simp]: "state_of b (put_fiber a f s) = (if b = a then Some (f_state f) else state_of b s)"
  by (simp add: fiber_defs)

lemma state_of_upd [simp]:
  "state_of b (SetThis x s) = state_of b s"
  "state_of b (s\<lparr>fs_id := i\<rparr>) = state_of b s"
  "state_of b (s\<lparr>fs_count := n\<rparr>) = state_of b s"
  "state_of b (s\<lparr>tls_threadFiber := t\<rparr>) = state_of b s"
  by (simp_all add: fiber_defs)

lemma swapIn_edge:
  assumes "swapIn main a s = Ret (t, s')"
  shows "t = a \<and> tls_fiber s' = Some a \<and> (\<exists>st. state_of a s = Some st \<and> fiber_edge st EXEC)
     \<and> state_of a s' = Some EXEC \<and> (\<forall>b. b \<noteq> a \<longrightarrow> state_of b s' = state_of b s)"
  using assms by (auto simp: swapIn_def fiber_defs intro: fiber_edge.resume split: option.splits if_splits)

lemma yield_edge:
  assumes "yield_with st main new_a s = Ret (t, s')" "tls_fiber s = Some a" "st \<in> {READY, HOLD}"
  shows "main = Some t \<and> tls_fiber s' = Some t \<and> state_of a s = Some EXEC \<and> fiber_edge EXEC st
     \<and> state_of a s' = Some st \<and> (\<forall>b. b \<noteq> a \<longrightarrow> state_of b s' = state_of b s)"
  using assms by (auto simp: yield_with_def yield_mark_def GetThis_def swapOut_def fiber_defs split: option.splits if_splits)

lemma MainFunc_edge:
  assumes "MainFunc main new_a e s = Ret (t, s')" "tls_fiber s = Some a" "state_of a s = Some EXEC"
  shows "main = Some t \<and> tls_fiber s' = Some t
     \<and> state_of a s' = Some (case e of Returned \<Rightarrow> TERM' | StdException \<Rightarrow> EXEC | OtherException \<Rightarrow> EXCEPT)
     \<and> (\<forall>b. b \<noteq> a \<longrightarrow> state_of b s' = state_of b s)"
  using assms
  by (auto simp: MainFunc_def end_mark_def GetThis_def swapOut_def cb_ended_def fiber_defs split: option.splits ending.splits)

lemma reset_edge:
  assumes "fiber_reset a cb s = Ret s'"
  shows "\<exists>st. state_of a s = Some st \<and> fiber_edge st INIT \<and> state_of a s' = Some INIT"
  using assms by (auto simp: fiber_reset_def fiber_defs intro: fiber_edge.reinit split: option.splits if_splits)

text \<open>Destruction and reuse of a fiber with a stack need a final or fresh state, and nothing else.\<close>

lemma destroy_iff:
  assumes "fs_heap s a = Some f" "f_stack f"
  shows "is_Ret (Fiber_destroy a s) \<longleftrightarrow> reusable (f_state f)"
    and "is_Ret (fiber_reset a cb s) \<longleftrightarrow> reusable (f_state f)"
  using assms by (auto simp: Fiber_destroy_def fiber_reset_def fiber_defs)

text \<open>A resumed fiber runs, and gives control back to the scheduler's fiber.\<close>

definition run_fiber :: "nat \<Rightarrow> nat \<Rightarrow> nat \<Rightarrow> ending \<Rightarrow> 'c fiber_sys \<Rightarrow> (nat \<times> 'c fiber_sys) outcome" where
  "run_fiber main new_a a e s = obind (swapIn (Some main) a s) (\<lambda>(_, s1). MainFunc (Some main) new_a e s1)"

lemma run_fiber_eq:
  assumes "fs_heap s a = Some f" "f_state f \<noteq> EXEC"
  shows "run_fiber main new_a a e s =
    Ret (main, SetThis (Some main) (put_fiber a (cb_ended e (f\<lparr>f_state := EXEC\<rparr>)) (SetThis (Some a) s)))"
  using assms by (simp add: run_fiber_def swapIn_def MainFunc_def end_mark_def GetThis_def swapOut_def fiber_defs)

section \<open>Properties\<close>

text \<open>A fiber that the scheduler resumes and whose callback ends leaves control with the scheduler's
  fiber and every other fiber as it was; it can then be destroyed or reused exactly when the callback
  did not end in a \<open>std::exception\<close>, which \<open>MainFunc\<close> logs without leaving \<open>EXEC\<close>.\<close>

theorem fiber_end_reusable:
  assumes "fs_heap s a = Some f" and "f_stack f" and "f_state f \<noteq> EXEC" and "main \<noteq> a"
  shows "\<exists>s'. run_fiber main new_a a e s = Ret (main, s') \<and> tls_fiber s' = Some main
     \<and> (\<forall>b. b \<noteq> a \<longrightarrow> state_of b s' = state_of b s)
     \<and> (is_Ret (Fiber_destroy a s') \<longleftrightarrow> e \<noteq> StdException)
     \<and> (is_Ret (fiber_reset a cb s') \<longleftrightarrow> e \<noteq> StdException)"
proof -
  let ?f = "cb_ended e (f\<lparr>f_state := EXEC\<rparr>)"
  let ?s = "SetThis (Some main) (put_fiber a ?f (SetThis (Some a) s))"
  have h: "fs_heap ?s a = Some ?f" by (simp add: fiber_defs)
  have st: "f_stack ?f" using assms(2) by (cases e) (simp_all add: cb_ended_def)
  have r: "reusable (f_state ?f) \<longleftrightarrow> e \<noteq> StdException"
    by (cases e) (simp_all add: cb_ended_def reusable_def)
  have o: "\<forall>b. b \<noteq> a \<longrightarrow> state_of b ?s = state_of b s" by simp
  have t: "tls_fiber ?s = Some main" by (simp add: SetThis_def)
  show ?thesis using run_fiber_eq [OF assms(1,3)] destroy_iff [OF h st] r o t by metis
qed

theorem fiber_end_reusable_witness:
  "\<exists>s'. run_fiber 1 9 2 StdException
       (Fiber_new 131072 2 (Some ''job'') 0 False (Fiber_main 1
         \<lparr>fs_heap = (\<lambda>_. None), fs_id = 0, fs_count = 0, tls_fiber = None, tls_threadFiber = None\<rparr>)) = Ret (1, s')
     \<and> \<not> is_Ret (Fiber_destroy 2 s')"
proof -
  let ?s0 = "\<lparr>fs_heap = (\<lambda>_. None), fs_id = 0, fs_count = 0, tls_fiber = None, tls_threadFiber = None\<rparr>"
  let ?s = "Fiber_new 131072 2 (Some ''job'') 0 False (Fiber_main 1 ?s0)"
  let ?f = "\<lparr>f_id = 1, f_stacksize = 131072, f_state = INIT, f_stack = True, f_cb = Some ''job'',
      f_entry = EnterMainFunc\<rparr>"
  have h: "fs_heap ?s 2 = Some ?f" by (simp add: Fiber_new_def Fiber_main_def fiber_defs)
  show ?thesis using fiber_end_reusable [OF h, of 1 9 StdException None] by auto
qed

end
