(* ===== verification/Scheduler.thy ===== *)
theory Scheduler
  imports Fiber
begin

text \<open>
  \<open>radixun/common/scheduler.{h,cpp}\<close>: the task queue, the run loop of a worker thread and the
  stop protocol, for any number of threads.

  \<^item> \<open>sched\<close> is the \<open>Scheduler\<close> object; \<open>run_local\<close> holds the locals of one execution of \<open>run\<close>
    (\<open>idle_fiber\<close>, \<open>cb_fiber\<close>, \<open>ft\<close>) and where it stands, \<open>pc\<close>;
  \<^item> \<open>world\<close> is the scheduler, the fibers and one \<open>run_local\<close> per thread id. The step relation
    \<open>sched_step\<close> interleaves the threads: a step is one critical section or one piece of \<open>run\<close> between
    them, or one action of the client code that a fiber executes. A yield and the end of a callback are
    two steps each, the two halves of \<open>yield_with\<close> and \<open>MainFunc\<close> in \<open>Fiber\<close>: \<open>yield_mark\<close> or \<open>end_mark\<close>
    changes the state, \<open>swapOut\<close> leaves the fiber afterwards;
  \<^item> \<open>rl_this\<close> is the thread's \<open>t_fiber\<close>: it is in \<open>tls_fiber\<close> while the thread runs an operation of \<open>Fiber\<close>;
  \<^item> a call of the virtual \<open>tickle\<close> is a boolean in the result of the operation.
\<close>

record 'c task =
  tk_fiber :: "nat option"
  tk_cb :: "'c option"
  tk_thread :: int

record 'c sched =
  sc_fibers :: "'c task list"
  sc_threadIds :: "int list"
  sc_threadCount :: nat
  sc_threads :: "int list"
  sc_activeThreadCount :: nat
  sc_idleThreadCount :: nat
  sc_stopping :: bool
  sc_autoStop :: bool
  sc_rootThread :: int
  sc_rootFiber :: "nat option"

section \<open>Scheduling\<close>

datatype 'c fiber_or_cb = ByFiber "nat option" | ByCb "'c option"

fun FiberAndThread :: "'c fiber_or_cb \<Rightarrow> int \<Rightarrow> 'c task" where
  "FiberAndThread (ByFiber f) thr = \<lparr>tk_fiber = f, tk_cb = None, tk_thread = thr\<rparr>"
| "FiberAndThread (ByCb cb) thr = \<lparr>tk_fiber = None, tk_cb = cb, tk_thread = thr\<rparr>"

definition runnable :: "'c task \<Rightarrow> bool" where
  "runnable t \<longleftrightarrow> tk_fiber t \<noteq> None \<or> tk_cb t \<noteq> None"

definition scheduleNoLock :: "'c fiber_or_cb \<Rightarrow> int \<Rightarrow> 'c sched \<Rightarrow> bool \<times> 'c sched" where
  "scheduleNoLock fc thread s =
     (let need_tickle = (sc_fibers s = []); ft = FiberAndThread fc thread
      in (need_tickle, if runnable ft then s\<lparr>sc_fibers := sc_fibers s @ [ft]\<rparr> else s))"

definition schedule :: "'c fiber_or_cb \<Rightarrow> int \<Rightarrow> 'c sched \<Rightarrow> bool \<times> 'c sched" where
  "schedule fc thread s = scheduleNoLock fc thread s"

fun schedule_all :: "'c fiber_or_cb list \<Rightarrow> 'c sched \<Rightarrow> bool \<times> 'c sched" where
  "schedule_all [] s = (False, s)"
| "schedule_all (fc # fcs) s =
     (let (t1, s1) = scheduleNoLock fc (- 1) s; (t2, s2) = schedule_all fcs s1
      in (t1 \<or> t2, s2))"

definition stopping :: "'c sched \<Rightarrow> bool" where
  "stopping s \<longleftrightarrow> sc_autoStop s \<and> sc_stopping s \<and> sc_fibers s = [] \<and> sc_activeThreadCount s = 0"

definition hasIdleThreads :: "'c sched \<Rightarrow> bool" where
  "hasIdleThreads s \<longleftrightarrow> 0 < sc_idleThreadCount s"

section \<open>Construction, start and stop\<close>

text \<open>\<open>root\<close> is the address of the root fiber and \<open>tid\<close> the thread that constructs the scheduler.\<close>

definition Scheduler_new :: "nat \<Rightarrow> bool \<Rightarrow> nat \<Rightarrow> int \<Rightarrow> bool \<Rightarrow> 'c sched outcome" where
  "Scheduler_new threads use_caller root tid has_scheduler =
     (if threads = 0 then Fault AssertFail
      else if use_caller then
        (if has_scheduler then Fault AssertFail
         else Ret \<lparr>sc_fibers = [], sc_threadIds = [tid], sc_threadCount = threads - 1, sc_threads = [],
                sc_activeThreadCount = 0, sc_idleThreadCount = 0, sc_stopping = True, sc_autoStop = False,
                sc_rootThread = tid, sc_rootFiber = Some root\<rparr>)
      else Ret \<lparr>sc_fibers = [], sc_threadIds = [], sc_threadCount = threads, sc_threads = [],
                sc_activeThreadCount = 0, sc_idleThreadCount = 0, sc_stopping = True, sc_autoStop = False,
                sc_rootThread = - 1, sc_rootFiber = None\<rparr>)"

definition Scheduler_destroy :: "'c sched \<Rightarrow> unit outcome" where
  "Scheduler_destroy s = (if sc_stopping s then Ret () else Fault AssertFail)"

text \<open>\<open>tids\<close> are the ids of the threads that \<open>start\<close> creates, one per \<open>m_threadCount\<close>.\<close>

definition start :: "int list \<Rightarrow> 'c sched \<Rightarrow> 'c sched outcome" where
  "start tids s =
     (if \<not> sc_stopping s then Ret s
      else if sc_threads s \<noteq> [] then Fault AssertFail
      else let new = take (sc_threadCount s) tids
           in Ret (s\<lparr>sc_stopping := False, sc_threads := new, sc_threadIds := sc_threadIds s @ new\<rparr>))"

text \<open>
  \<open>stop\<close> up to the joins: the number of tickles, whether the root fiber is called, and the threads to
  join. \<open>root_state\<close> is the state of the root fiber and \<open>this_is_current\<close> is \<open>GetThis() == this\<close>.
\<close>

definition stop :: "state \<Rightarrow> bool \<Rightarrow> 'c sched \<Rightarrow> ((nat \<times> bool \<times> int list) \<times> 'c sched) outcome" where
  "stop root_state this_is_current s =
     (let s1 = s\<lparr>sc_autoStop := True\<rparr>;
          lone = (sc_rootFiber s1 \<noteq> None \<and> sc_threadCount s1 = 0 \<and> (root_state = TERM' \<or> root_state = INIT));
          s2 = (if lone then s1\<lparr>sc_stopping := True\<rparr> else s1)
      in if lone \<and> stopping s2 then Ret ((0, False, []), s2)
         else if (sc_rootThread s2 \<noteq> - 1) \<noteq> this_is_current then Fault AssertFail
         else let s3 = s2\<lparr>sc_stopping := True\<rparr>;
                  tickles = sc_threadCount s3 + (if sc_rootFiber s3 \<noteq> None then 1 else 0);
                  call = (sc_rootFiber s3 \<noteq> None \<and> \<not> stopping s3)
              in Ret ((tickles, call, sc_threads s3), s3\<lparr>sc_threads := []\<rparr>))"

section \<open>Taking a task\<close>

text \<open>
  The scan of the queue by thread \<open>tid\<close>: whether a task of another thread was passed over, and the task
  taken with the queue that is left. \<open>running\<close> tells the fibers in state \<open>EXEC\<close>.
\<close>

fun take_task :: "(nat \<Rightarrow> bool) \<Rightarrow> int \<Rightarrow> 'c task list
    \<Rightarrow> (bool \<times> ('c task \<times> 'c task list) option) outcome" where
  "take_task running tid [] = Ret (False, None)"
| "take_task running tid (it # q) =
     (let skip = (\<lambda>tickle. obind (take_task running tid q) (\<lambda>(t, r).
            Ret (tickle \<or> t, map_option (\<lambda>(x, q'). (x, it # q')) r)))
      in if tk_thread it \<noteq> - 1 \<and> tk_thread it \<noteq> tid then skip True
         else if \<not> runnable it then Fault AssertFail
         else if (case tk_fiber it of Some f \<Rightarrow> running f | None \<Rightarrow> False) then skip False
         else Ret (False, Some (it, q)))"

definition eligible :: "(nat \<Rightarrow> bool) \<Rightarrow> int \<Rightarrow> 'c task \<Rightarrow> bool" where
  "eligible running tid t \<longleftrightarrow> (tk_thread t = - 1 \<or> tk_thread t = tid)
     \<and> (case tk_fiber t of Some f \<Rightarrow> \<not> running f | None \<Rightarrow> True)"

definition foreign :: "int \<Rightarrow> 'c task \<Rightarrow> bool" where
  "foreign tid t \<longleftrightarrow> tk_thread t \<noteq> - 1 \<and> tk_thread t \<noteq> tid"

lemma take_task_ok:
  assumes "\<forall>t\<in>set q. runnable t"
  shows "case find (eligible running tid) q of
           None \<Rightarrow> take_task running tid q = Ret (\<exists>t\<in>set q. foreign tid t, None)
         | Some t \<Rightarrow> \<exists>pre post. q = pre @ t # post \<and> (\<forall>u\<in>set pre. \<not> eligible running tid u)
             \<and> take_task running tid q = Ret (\<exists>u\<in>set pre. foreign tid u, Some (t, pre @ post))"
  using assms
proof (induction q)
  case (Cons it q)
  show ?case
  proof (cases "eligible running tid it")
    case True
    then have "take_task running tid (it # q) = Ret (False, Some (it, q))"
      using Cons.prems by (auto simp: eligible_def Let_def split: option.splits)
    with True show ?thesis by (intro option.split [THEN iffD2]) (auto intro: exI [of _ "[]"])
  next
    case False
    have skip: "take_task running tid (it # q) = obind (take_task running tid q) (\<lambda>(t, r).
        Ret (foreign tid it \<or> t, map_option (\<lambda>(x, q'). (x, it # q')) r))"
      using False Cons.prems by (auto simp: eligible_def foreign_def Let_def split: option.splits)
    show ?thesis
    proof (cases "find (eligible running tid) q")
      case None
      then show ?thesis using Cons False skip by (simp add: Let_def del: take_task.simps)
    next
      case (Some t)
      then obtain pre post where "q = pre @ t # post" "\<forall>u\<in>set pre. \<not> eligible running tid u"
        "take_task running tid q = Ret (\<exists>u\<in>set pre. foreign tid u, Some (t, pre @ post))"
        using Cons by auto
      then have X: "it # q = (it # pre) @ t # post \<and> (\<forall>u\<in>set (it # pre). \<not> eligible running tid u)
          \<and> take_task running tid (it # q) = Ret (\<exists>u\<in>set (it # pre). foreign tid u, Some (t, (it # pre) @ post))"
        using False skip by (simp del: take_task.simps)
      have f: "find (eligible running tid) (it # q) = Some t" using Some False by simp
      show ?thesis unfolding f option.case using X by blast
    qed
  qed
qed simp

section \<open>The run loop\<close>

text \<open>
  Where a thread stands in \<open>run\<close>. \<open>In k leaving\<close> is inside \<open>swapIn\<close> of the fiber the loop resumed;
  \<open>leaving\<close> says that the fiber has marked its new state but has not switched back yet.
\<close>

datatype work = Fib nat | Cb nat | Idle nat

datatype 'c pc = AtLoop | HasTask "'c task" | NoTask | In work bool | Done

record 'c run_local =
  rl_main :: nat
  rl_idle :: nat
  rl_cb_fiber :: "nat option"
  rl_this :: "nat option"
  rl_pc :: "'c pc"

record 'c world =
  w_sched :: "'c sched"
  w_fibers :: "'c fiber_sys"
  w_locals :: "int \<Rightarrow> 'c run_local"

definition fiber_st :: "'c world \<Rightarrow> nat \<Rightarrow> state" where
  "fiber_st w a = (case fs_heap (w_fibers w) a of Some f \<Rightarrow> f_state f | None \<Rightarrow> TERM')"

definition set_st :: "nat \<Rightarrow> state \<Rightarrow> 'c world \<Rightarrow> 'c world" where
  "set_st a st w = (case fs_heap (w_fibers w) a of
     None \<Rightarrow> w
   | Some f \<Rightarrow> w\<lparr>w_fibers := put_fiber a (f\<lparr>f_state := st\<rparr>) (w_fibers w)\<rparr>)"

definition set_pc :: "int \<Rightarrow> 'c pc \<Rightarrow> 'c world \<Rightarrow> 'c world" where
  "set_pc tid p w = w\<lparr>w_locals := (w_locals w)(tid := (w_locals w tid)\<lparr>rl_pc := p\<rparr>)\<rparr>"

definition pc_of :: "'c world \<Rightarrow> int \<Rightarrow> 'c pc" where
  "pc_of w tid = rl_pc (w_locals w tid)"

text \<open>The fibers as thread \<open>tid\<close> sees them, and what an operation of that thread leaves.\<close>

definition fibers_of :: "int \<Rightarrow> 'c world \<Rightarrow> 'c fiber_sys" where
  "fibers_of tid w = (w_fibers w)\<lparr>tls_fiber := rl_this (w_locals w tid)\<rparr>"

definition store_fibers :: "int \<Rightarrow> 'c fiber_sys \<Rightarrow> 'c world \<Rightarrow> 'c world" where
  "store_fibers tid fs w =
     w\<lparr>w_fibers := fs, w_locals := (w_locals w)(tid := (w_locals w tid)\<lparr>rl_this := tls_fiber fs\<rparr>)\<rparr>"

definition upd_sched :: "('c sched \<Rightarrow> 'c sched) \<Rightarrow> 'c world \<Rightarrow> 'c world" where
  "upd_sched f w = w\<lparr>w_sched := f (w_sched w)\<rparr>"

definition add_active :: "'c sched \<Rightarrow> 'c sched" where
  "add_active s = s\<lparr>sc_activeThreadCount := sc_activeThreadCount s + 1\<rparr>"

definition drop_active :: "'c sched \<Rightarrow> 'c sched" where
  "drop_active s = s\<lparr>sc_activeThreadCount := size_sub (sc_activeThreadCount s) 1\<rparr>"

text \<open>The locked section at the top of the loop.\<close>

definition run_take :: "int \<Rightarrow> 'c world \<Rightarrow> (bool \<times> 'c world) outcome" where
  "run_take tid w =
     obind (take_task (\<lambda>a. fiber_st w a = EXEC) tid (sc_fibers (w_sched w))) (\<lambda>(tickle_me, r).
       case r of
         None \<Rightarrow> Ret (tickle_me, set_pc tid NoTask w)
       | Some (t, rest) \<Rightarrow>
           Ret (tickle_me, set_pc tid (HasTask t)
             (upd_sched (\<lambda>s. add_active (s\<lparr>sc_fibers := rest\<rparr>)) w)))"

text \<open>\<open>swapIn\<close> of fiber \<open>a\<close> by thread \<open>tid\<close>.\<close>

definition enter :: "int \<Rightarrow> work \<Rightarrow> nat \<Rightarrow> 'c world \<Rightarrow> 'c world outcome" where
  "enter tid k a w =
     obind (swapIn (Some (rl_main (w_locals w tid))) a (fibers_of tid w)) (\<lambda>(_, fs).
       Ret (set_pc tid (In k False) (store_fibers tid fs w)))"

text \<open>\<open>cb_fiber->reset(cb)\<close>, or a new fiber at \<open>new_a\<close>.\<close>

definition cb_fiber_for :: "int \<Rightarrow> nat \<Rightarrow> 'c \<Rightarrow> 'c world \<Rightarrow> (nat \<times> 'c world) outcome" where
  "cb_fiber_for tid new_a cb w =
     (let l = w_locals w tid
      in case rl_cb_fiber l of
           Some a \<Rightarrow> obind (fiber_reset a (Some cb) (w_fibers w)) (\<lambda>fs. Ret (a, w\<lparr>w_fibers := fs\<rparr>))
         | None \<Rightarrow> Ret (new_a, w\<lparr>w_fibers := Fiber_new 131072 new_a (Some cb) 0 False (w_fibers w),
                               w_locals := (w_locals w)(tid := l\<lparr>rl_cb_fiber := Some new_a\<rparr>)\<rparr>))"

definition run_start :: "int \<Rightarrow> nat \<Rightarrow> 'c world \<Rightarrow> 'c world outcome" where
  "run_start tid new_a w =
     (case pc_of w tid of
        HasTask t \<Rightarrow>
          (case tk_fiber t of
             Some a \<Rightarrow>
               if fiber_st w a \<noteq> TERM' \<and> fiber_st w a \<noteq> EXCEPT then enter tid (Fib a) a w
               else (case tk_cb t of
                       Some cb \<Rightarrow> obind (cb_fiber_for tid new_a cb w) (\<lambda>(b, w1). enter tid (Cb b) b w1)
                     | None \<Rightarrow> Ret (set_pc tid AtLoop (upd_sched drop_active w)))
           | None \<Rightarrow>
               (case tk_cb t of
                  Some cb \<Rightarrow> obind (cb_fiber_for tid new_a cb w) (\<lambda>(b, w1). enter tid (Cb b) b w1)
                | None \<Rightarrow> Ret (set_pc tid AtLoop (upd_sched drop_active w))))
      | NoTask \<Rightarrow>
          (let i = rl_idle (w_locals w tid)
           in if fiber_st w i = TERM' then Ret (set_pc tid Done w)
              else enter tid (Idle i) i
                     (upd_sched (\<lambda>s. s\<lparr>sc_idleThreadCount := sc_idleThreadCount s + 1\<rparr>) w))
      | _ \<Rightarrow> Ret w)"

text \<open>What \<open>run\<close> does when \<open>swapIn\<close> returns; the boolean is \<open>tickle\<close> from \<open>schedule\<close>.\<close>

definition run_back :: "int \<Rightarrow> 'c world \<Rightarrow> (bool \<times> 'c world) outcome" where
  "run_back tid w =
     (case pc_of w tid of
        In (Fib a) _ \<Rightarrow>
          (let w1 = upd_sched drop_active w
           in if fiber_st w1 a = READY then
                (let (t, s) = schedule (ByFiber (Some a)) (- 1) (w_sched w1)
                 in Ret (t, set_pc tid AtLoop (w1\<lparr>w_sched := s\<rparr>)))
              else if fiber_st w1 a \<noteq> TERM' \<and> fiber_st w1 a \<noteq> EXCEPT
                then Ret (False, set_pc tid AtLoop (set_st a HOLD w1))
              else Ret (False, set_pc tid AtLoop w1))
      | In (Cb a) _ \<Rightarrow>
          (let w1 = upd_sched drop_active w; l = w_locals w1 tid;
               forget = w1\<lparr>w_locals := (w_locals w1)(tid := l\<lparr>rl_cb_fiber := None\<rparr>)\<rparr>
           in if fiber_st w1 a = READY then
                (let (t, s) = schedule (ByFiber (Some a)) (- 1) (w_sched forget)
                 in Ret (t, set_pc tid AtLoop (forget\<lparr>w_sched := s\<rparr>)))
              else if fiber_st w1 a = EXCEPT \<or> fiber_st w1 a = TERM'
                then obind (fiber_reset a None (w_fibers w1)) (\<lambda>fs.
                       Ret (False, set_pc tid AtLoop (w1\<lparr>w_fibers := fs\<rparr>)))
              else Ret (False, set_pc tid AtLoop (set_st a HOLD forget)))
      | In (Idle a) _ \<Rightarrow>
          (let w1 = upd_sched (\<lambda>s. s\<lparr>sc_idleThreadCount := size_sub (sc_idleThreadCount s) 1\<rparr>) w
           in if fiber_st w1 a \<noteq> TERM' \<and> fiber_st w1 a \<noteq> EXCEPT
              then Ret (False, set_pc tid AtLoop (set_st a HOLD w1))
              else Ret (False, set_pc tid AtLoop w1))
      | _ \<Rightarrow> Ret (False, w))"

text \<open>\<open>Scheduler::idle\<close>, one round up to the switch: it returns to \<open>MainFunc\<close> when \<open>stopping()\<close>, else yields.\<close>

definition idle_round :: "int \<Rightarrow> nat \<Rightarrow> 'c world \<Rightarrow> (nat \<times> 'c fiber_sys) outcome" where
  "idle_round tid new_a w =
     (if stopping (w_sched w) then end_mark Returned new_a (fibers_of tid w)
      else yield_mark HOLD new_a (fibers_of tid w))"

text \<open>The switch out of the fiber that \<open>tid\<close> runs, which is still its \<open>t_fiber\<close>, back into \<open>run\<close>.\<close>

definition leave_fiber :: "int \<Rightarrow> 'c world \<Rightarrow> 'c world outcome" where
  "leave_fiber tid w =
     (case rl_this (w_locals w tid) of
        None \<Rightarrow> Fault NullDeref
      | Some cur \<Rightarrow> obind (swapOut (Some (rl_main (w_locals w tid))) cur (fibers_of tid w))
                      (\<lambda>(_, fs). Ret (store_fibers tid fs w)))"


section \<open>Interleavings\<close>

text \<open>
  A step of any thread of \<open>T\<close>. The client code of a fiber may schedule tasks, call a yield and end in any
  way; any other thread may schedule too, and the thread that stops the scheduler sets both flags.
\<close>

inductive sched_step :: "int list \<Rightarrow> 'c world \<Rightarrow> 'c world \<Rightarrow> bool" for T :: "int list" where
  step_take: "tid \<in> set T \<Longrightarrow> pc_of w tid = AtLoop \<Longrightarrow> run_take tid w = Ret (t, w') \<Longrightarrow> sched_step T w w'"
| step_begin_task: "tid \<in> set T \<Longrightarrow> pc_of w tid = HasTask tk \<Longrightarrow> fs_heap (w_fibers w) new_a = None
    \<Longrightarrow> run_start tid new_a w = Ret w' \<Longrightarrow> sched_step T w w'"
| step_begin_idle: "tid \<in> set T \<Longrightarrow> pc_of w tid = NoTask \<Longrightarrow> run_start tid new_a w = Ret w' \<Longrightarrow> sched_step T w w'"
| step_schedule: "w' = w\<lparr>w_sched := snd (schedule fc thr (w_sched w))\<rparr> \<Longrightarrow> sched_step T w w'"
| step_yield: "tid \<in> set T \<Longrightarrow> pc_of w tid = In k False \<Longrightarrow> k = Fib a \<or> k = Cb a \<Longrightarrow> st = READY \<or> st = HOLD
    \<Longrightarrow> yield_mark st new_a (fibers_of tid w) = Ret (cur, fs)
    \<Longrightarrow> w' = set_pc tid (In k True) (store_fibers tid fs w) \<Longrightarrow> sched_step T w w'"
| step_end: "tid \<in> set T \<Longrightarrow> pc_of w tid = In k False \<Longrightarrow> k = Fib a \<or> k = Cb a
    \<Longrightarrow> end_mark e new_a (fibers_of tid w) = Ret (cur, fs)
    \<Longrightarrow> w' = set_pc tid (In k True) (store_fibers tid fs w) \<Longrightarrow> sched_step T w w'"
| step_idle: "tid \<in> set T \<Longrightarrow> pc_of w tid = In (Idle a) False \<Longrightarrow> idle_round tid new_a w = Ret (cur, fs)
    \<Longrightarrow> w' = set_pc tid (In (Idle a) True) (store_fibers tid fs w) \<Longrightarrow> sched_step T w w'"
| step_back: "tid \<in> set T \<Longrightarrow> pc_of w tid = In k True \<Longrightarrow> leave_fiber tid w = Ret w1
    \<Longrightarrow> run_back tid w1 = Ret (t, w') \<Longrightarrow> sched_step T w w'"
| step_stop: "w' = upd_sched (\<lambda>s. s\<lparr>sc_autoStop := True, sc_stopping := True\<rparr>) w \<Longrightarrow> sched_step T w w'"

inductive_cases sched_stepE: "sched_step T w w'"

inductive sched_reach :: "int list \<Rightarrow> 'c world \<Rightarrow> 'c world \<Rightarrow> bool" for T w0 where
  reach_0: "sched_reach T w0 w0"
| reach_step: "sched_reach T w0 w \<Longrightarrow> sched_step T w w' \<Longrightarrow> sched_reach T w0 w'"

section \<open>The accounting invariant\<close>

fun busy :: "'c pc \<Rightarrow> bool" where
  "busy (HasTask t) = True"
| "busy (In (Fib a) l) = True"
| "busy (In (Cb a) l) = True"
| "busy _ = False"

fun idling :: "'c pc \<Rightarrow> bool" where
  "idling (In (Idle a) l) = True"
| "idling _ = False"

definition count_pc :: "('c pc \<Rightarrow> bool) \<Rightarrow> int list \<Rightarrow> 'c world \<Rightarrow> nat" where
  "count_pc P T w = length (filter (\<lambda>tid. P (pc_of w tid)) T)"

definition sched_inv :: "int list \<Rightarrow> 'c world \<Rightarrow> bool" where
  "sched_inv T w \<longleftrightarrow> distinct T
     \<and> sc_activeThreadCount (w_sched w) = count_pc busy T w
     \<and> sc_idleThreadCount (w_sched w) = count_pc idling T w
     \<and> (\<forall>t\<in>set (sc_fibers (w_sched w)). runnable t)"

lemma count_set_pc:
  assumes "distinct T" "tid \<in> set T"
  shows "count_pc P T (set_pc tid p w) + (if P (pc_of w tid) then 1 else 0)
       = count_pc P T w + (if P p then 1 else 0)"
  using assms
proof (induction T)
  case (Cons x T)
  have other: "tid \<notin> set T \<Longrightarrow> count_pc P T (set_pc tid p w) = count_pc P T w"
    by (auto simp: count_pc_def pc_of_def set_pc_def intro!: arg_cong [where f = length] filter_cong)
  show ?case
  proof (cases "x = tid")
    case True
    then show ?thesis using Cons.prems other by (simp add: count_pc_def pc_of_def set_pc_def)
  next
    case False
    then have "pc_of (set_pc tid p w) x = pc_of w x" by (simp add: pc_of_def set_pc_def)
    then show ?thesis using Cons False by (simp add: count_pc_def)
  qed
qed simp

lemma count_set_pc_eq:
  assumes "distinct T" "tid \<in> set T"
  shows "count_pc P T (set_pc tid p w) =
    (if P (pc_of w tid) then count_pc P T w - 1 else count_pc P T w) + (if P p then 1 else 0)"
    "P (pc_of w tid) \<Longrightarrow> 0 < count_pc P T w"
proof -
  show pos: "P (pc_of w tid) \<Longrightarrow> 0 < count_pc P T w"
    using assms(2) by (auto simp: count_pc_def filter_empty_conv)
  show "count_pc P T (set_pc tid p w) =
    (if P (pc_of w tid) then count_pc P T w - 1 else count_pc P T w) + (if P p then 1 else 0)"
    using count_set_pc [OF assms, of P p w] pos by (auto split: if_splits)
qed

lemma pc_of_upd [simp]:
  "pc_of (w\<lparr>w_sched := s\<rparr>) tid = pc_of w tid"
  "pc_of (w\<lparr>w_fibers := fs\<rparr>) tid = pc_of w tid"
  "pc_of (upd_sched f w) tid = pc_of w tid"
  "pc_of (set_st a st w) tid = pc_of w tid"
  "pc_of (store_fibers t fs w) tid = pc_of w tid"
  "pc_of (set_pc t p w) tid = (if tid = t then p else pc_of w tid)"
  "pc_of (w\<lparr>w_locals := (w_locals w)(t := (w_locals w t)\<lparr>rl_cb_fiber := c\<rparr>)\<rparr>) tid = pc_of w tid"
  by (auto simp: pc_of_def upd_sched_def set_st_def set_pc_def store_fibers_def split: option.split)

lemma count_frame: "(\<And>t. pc_of w' t = pc_of w t) \<Longrightarrow> count_pc P T w' = count_pc P T w"
  by (simp add: count_pc_def)

lemma w_sched_upd [simp]:
  "w_sched (upd_sched f w) = f (w_sched w)"
  "w_sched (set_st a st w) = w_sched w"
  "w_sched (store_fibers t fs w) = w_sched w"
  "w_sched (set_pc t p w) = w_sched w"
  by (auto simp: upd_sched_def set_st_def set_pc_def store_fibers_def split: option.split)

text \<open>A thread moves from a place to another with the counters that go with both.\<close>

lemma sched_inv_move:
  assumes inv: "sched_inv T w" and tid: "tid \<in> set T"
    and w1: "\<And>t. pc_of w1 t = pc_of w t"
    and a: "sc_activeThreadCount (w_sched w1) + (if busy (pc_of w tid) then 1 else 0)
          = sc_activeThreadCount (w_sched w) + (if busy p then 1 else 0)"
    and i: "sc_idleThreadCount (w_sched w1) + (if idling (pc_of w tid) then 1 else 0)
          = sc_idleThreadCount (w_sched w) + (if idling p then 1 else 0)"
    and q: "\<forall>t\<in>set (sc_fibers (w_sched w1)). runnable t"
  shows "sched_inv T (set_pc tid p w1)"
proof -
  have d: "distinct T" using inv by (simp add: sched_inv_def)
  have "count_pc P T (set_pc tid p w1) + (if P (pc_of w tid) then 1 else 0)
      = count_pc P T w + (if P p then 1 else 0)" for P :: "'a pc \<Rightarrow> bool"
    using count_set_pc [OF d tid, of P p w1] count_frame [of w1 w P T] w1 by simp
  from this [of busy] this [of idling] show ?thesis using inv a i q d
    by (simp add: sched_inv_def)
qed


lemma enter_move:
  assumes "enter tid k a w = Ret w'"
  shows "\<exists>fs. w' = set_pc tid (In k False) (store_fibers tid fs w)"
  using assms by (auto simp: enter_def obind_Ret_iff)

lemma cb_fiber_for_frame:
  assumes "cb_fiber_for tid new_a cb w = Ret (b, w1)"
  shows "pc_of w1 t = pc_of w t \<and> w_sched w1 = w_sched w"
  using assms by (auto simp: cb_fiber_for_def Let_def obind_Ret_iff pc_of_def split: option.splits)

lemma inv_queue: "sched_inv T w \<Longrightarrow> \<forall>t\<in>set (sc_fibers (w_sched w)). runnable t"
  by (simp add: sched_inv_def)

lemma inv_busy_pos: "sched_inv T w \<Longrightarrow> tid \<in> set T \<Longrightarrow> busy (pc_of w tid) \<Longrightarrow> 0 < sc_activeThreadCount (w_sched w)"
  using count_set_pc_eq(2) [of T tid busy w] by (simp add: sched_inv_def)

lemma inv_idle_pos: "sched_inv T w \<Longrightarrow> tid \<in> set T \<Longrightarrow> idling (pc_of w tid) \<Longrightarrow> 0 < sc_idleThreadCount (w_sched w)"
  using count_set_pc_eq(2) [of T tid idling w] by (simp add: sched_inv_def)

lemma schedule_frame:
  "\<forall>t\<in>set (sc_fibers s). runnable t \<Longrightarrow> \<forall>t\<in>set (sc_fibers (snd (schedule fc thr s))). runnable t"
  "sc_activeThreadCount (snd (schedule fc thr s)) = sc_activeThreadCount s"
  "sc_idleThreadCount (snd (schedule fc thr s)) = sc_idleThreadCount s"
  by (auto simp: schedule_def scheduleNoLock_def Let_def)

lemma take_inv:
  assumes inv: "sched_inv T w" and tid: "tid \<in> set T" and pc: "pc_of w tid = AtLoop"
    and r: "run_take tid w = Ret (t, w')"
  shows "sched_inv T w'"
proof -
  note q = inv_queue [OF inv]
  from take_task_ok [OF q, of "\<lambda>a. fiber_st w a = EXEC" tid] r
  consider "w' = set_pc tid NoTask w"
    | tk rest pre post where "w' = set_pc tid (HasTask tk) (upd_sched (\<lambda>s. add_active (s\<lparr>sc_fibers := rest\<rparr>)) w)"
        "sc_fibers (w_sched w) = pre @ tk # post" "rest = pre @ post"
    by (auto simp: run_take_def split: option.splits)
  then show ?thesis
  proof cases
    case 1
    show ?thesis unfolding 1 by (rule sched_inv_move [OF inv tid]) (use q pc in auto)
  next
    case 2
    show ?thesis unfolding 2(1)
      by (rule sched_inv_move [OF inv tid]) (use q pc 2(2,3) in \<open>auto simp: add_active_def\<close>)
  qed
qed

lemma start_inv:
  assumes inv: "sched_inv T w" and tid: "tid \<in> set T" and r: "run_start tid new_a w = Ret w'"
  shows "sched_inv T w'"
proof (cases "pc_of w tid")
  case (HasTask tk)
  have b: "busy (pc_of w tid)" "\<not> idling (pc_of w tid)" using HasTask by simp_all
  note q = inv_queue [OF inv] and pos = inv_busy_pos [OF inv tid b(1)]
  have ent: "sched_inv T w2" if "enter tid k a w1 = Ret w2" "\<And>t. pc_of w1 t = pc_of w t" "w_sched w1 = w_sched w"
      "busy (In k False :: 'a pc)" "\<not> idling (In k False :: 'a pc)" for k a w1 w2
  proof -
    from enter_move [OF that(1)]
    obtain fs where e: "w2 = set_pc tid (In k False) (store_fibers tid fs w1)" by blast
    show ?thesis unfolding e by (rule sched_inv_move [OF inv tid]) (use that q b in auto)
  qed
  have drop: "sched_inv T (set_pc tid AtLoop (upd_sched drop_active w))"
    by (rule sched_inv_move [OF inv tid]) (use q b pos in \<open>auto simp: drop_active_def\<close>)
  have cbf: "sched_inv T w2" if "cb_fiber_for tid new_a cb w = Ret (b, w1)" "enter tid (Cb b) b w1 = Ret w2" for cb b w1 w2
    using ent [OF that(2)] cb_fiber_for_frame [OF that(1)] by simp
  show ?thesis using r HasTask drop cbf ent [of "Fib _" _ w]
    by (auto simp: run_start_def obind_Ret_iff split: option.splits if_splits)
next
  case NoTask
  note q = inv_queue [OF inv]
  let ?i = "rl_idle (w_locals w tid)"
  let ?w1 = "upd_sched (\<lambda>s. s\<lparr>sc_idleThreadCount := sc_idleThreadCount s + 1\<rparr>) w"
  have fin: "sched_inv T (set_pc tid Done w)"
    by (rule sched_inv_move [OF inv tid]) (use q NoTask in auto)
  have ent: "sched_inv T w2" if "enter tid (Idle ?i) ?i ?w1 = Ret w2" for w2
  proof -
    from enter_move [OF that]
    obtain fs where e: "w2 = set_pc tid (In (Idle ?i) False) (store_fibers tid fs ?w1)" by blast
    show ?thesis unfolding e by (rule sched_inv_move [OF inv tid]) (use q NoTask in auto)
  qed
  show ?thesis using r NoTask fin ent by (auto simp: run_start_def Let_def split: if_splits)
qed (use inv r in \<open>auto simp: run_start_def\<close>)

lemma back_inv:
  assumes inv: "sched_inv T w" and tid: "tid \<in> set T" and pc: "pc_of w tid = In k True"
    and r: "run_back tid w = Ret (t, w')"
  shows "sched_inv T w'"
proof -
  note q = inv_queue [OF inv]
  have leave: "sched_inv T (set_pc tid AtLoop w1)"
    if "\<And>t. pc_of w1 t = pc_of w t" "busy (pc_of w tid)" "\<not> idling (pc_of w tid)"
      "w_sched w1 = drop_active (w_sched w) \<or> (\<exists>fc. w_sched w1 = snd (schedule fc (- 1) (drop_active (w_sched w))))" for w1
    using that(4) schedule_frame [where s = "drop_active (w_sched w)"] q inv_busy_pos [OF inv tid that(2)]
    by (intro sched_inv_move [OF inv tid that(1)]) (auto simp: drop_active_def that(2,3))
  show ?thesis
  proof (cases k)
    case (Fib a)
    with pc have p: "pc_of w tid = In (Fib a) True" "busy (pc_of w tid)" "\<not> idling (pc_of w tid)" by simp_all
    show ?thesis using r p(1)
      by (auto simp: run_back_def Let_def split: prod.splits if_splits intro!: leave [OF _ p(2,3)])
        (metis snd_conv)
  next
    case (Cb a)
    with pc have p: "pc_of w tid = In (Cb a) True" "busy (pc_of w tid)" "\<not> idling (pc_of w tid)" by simp_all
    show ?thesis using r p(1)
      by (auto simp: run_back_def Let_def obind_Ret_iff split: prod.splits if_splits intro!: leave [OF _ p(2,3)])
        (metis snd_conv)
  next
    case (Idle a)
    with pc have p: "pc_of w tid = In (Idle a) True" by simp
    have pos: "0 < sc_idleThreadCount (w_sched w)" using inv_idle_pos [OF inv tid] p by simp
    show ?thesis using r p
      by (auto simp: run_back_def Let_def split: if_splits intro!: sched_inv_move [OF inv tid] q [rule_format])
        (use pos in auto)
  qed
qed

lemma leave_frame: "leave_fiber tid w = Ret w1 \<Longrightarrow> (\<forall>t. pc_of w1 t = pc_of w t) \<and> w_sched w1 = w_sched w"
  by (auto simp: leave_fiber_def obind_Ret_iff split: option.splits)

lemma leave_inv: "leave_fiber tid w = Ret w1 \<Longrightarrow> sched_inv T w \<Longrightarrow> sched_inv T w1"
  using leave_frame [of tid w w1] count_frame [of w1 w] by (simp add: sched_inv_def)

text \<open>The mark moves the thread within the same fiber.\<close>

lemma mark_inv:
  assumes "sched_inv T w" "tid \<in> set T" "pc_of w tid = In k False"
  shows "sched_inv T (set_pc tid (In k True) (store_fibers tid fs w))"
  by (rule sched_inv_move [OF assms(1,2)]) (use assms(3) inv_queue [OF assms(1)] in \<open>cases k; auto\<close>)+

lemma sched_step_inv: "sched_step T w w' \<Longrightarrow> sched_inv T w \<Longrightarrow> sched_inv T w'"
proof (induction rule: sched_step.induct)
  case (step_take tid w t w')
  then show ?case by (blast intro: take_inv)
next
  case (step_begin_task tid w tk new_a w')
  then show ?case by (blast intro: start_inv)
next
  case (step_begin_idle tid w new_a w')
  then show ?case by (blast intro: start_inv)
next
  case (step_schedule w' fc thr w)
  then show ?case using schedule_frame [where s = "w_sched w"] count_frame [of w' w]
    by (simp add: sched_inv_def)
next
  case (step_yield tid w k a st new_a cur fs w')
  then show ?case by (simp only: mark_inv)
next
  case (step_end tid w k a e new_a cur fs w')
  then show ?case by (simp only: mark_inv)
next
  case (step_idle tid w a new_a cur fs w')
  then show ?case by (simp only: mark_inv)
next
  case (step_back tid w k w1 t w')
  then show ?case using leave_frame [of tid w w1] leave_inv [of tid w w1 T] by (metis back_inv)
next
  case (step_stop w' w)
  then show ?case using count_frame [of w' w] by (simp add: sched_inv_def)
qed

lemma sched_reach_inv: "sched_reach T w0 w \<Longrightarrow> sched_inv T w0 \<Longrightarrow> sched_inv T w"
  by (induction rule: sched_reach.induct) (auto intro: sched_step_inv)


text \<open>The world when \<open>start\<close> has created its threads: each is at the top of its loop.\<close>

definition started_world :: "'c fiber_sys \<Rightarrow> (int \<Rightarrow> nat) \<Rightarrow> (int \<Rightarrow> nat) \<Rightarrow> 'c sched \<Rightarrow> 'c world" where
  "started_world fs mains idles s =
     \<lparr>w_sched = s\<lparr>sc_activeThreadCount := 0, sc_idleThreadCount := 0\<rparr>, w_fibers = fs,
      w_locals = (\<lambda>tid. \<lparr>rl_main = mains tid, rl_idle = idles tid, rl_cb_fiber = None,
                            rl_this = Some (mains tid), rl_pc = AtLoop\<rparr>)\<rparr>"

lemma started_inv:
  "distinct T \<Longrightarrow> \<forall>t\<in>set (sc_fibers s). runnable t \<Longrightarrow> sched_inv T (started_world fs mains idles s)"
  by (simp add: sched_inv_def started_world_def count_pc_def pc_of_def)

lemma stopping_quiet:
  assumes "sched_inv T w" "stopping (w_sched w)" "tid \<in> set T"
  shows "\<not> busy (pc_of w tid)"
  using inv_busy_pos [OF assms(1,3)] assms(2) by (auto simp: stopping_def)

section \<open>A fiber that is scheduled while it yields\<close>

lemma take_task_after_foreign:
  assumes "\<forall>t\<in>set q. foreign tid t" "\<not> running a"
  shows "take_task running tid (q @ [FiberAndThread (ByFiber (Some a)) (- 1)]) =
    Ret (q \<noteq> [], Some (FiberAndThread (ByFiber (Some a)) (- 1), q))"
  using assms by (induction q) (auto simp: runnable_def foreign_def Let_def)

lemma fiber_st_upd [simp]:
  "fiber_st (w\<lparr>w_sched := s\<rparr>) a = fiber_st w a"
  "fiber_st (set_pc tid p w) a = fiber_st w a"
  "fiber_st (upd_sched g w) a = fiber_st w a"
  by (simp_all add: fiber_st_def set_pc_def upd_sched_def)

lemma fiber_st_store [simp]:
  "fiber_st (store_fibers tid fs w) a = (case fs_heap fs a of Some f \<Rightarrow> f_state f | None \<Rightarrow> TERM')"
  by (simp add: fiber_st_def store_fibers_def)

lemma yield_mark_of:
  assumes "rl_this (w_locals w tid) = Some a" "fs_heap (w_fibers w) a = Some f" "f_state f = EXEC"
  shows "yield_mark st new_a (fibers_of tid w) = Ret (a, put_fiber a (f\<lparr>f_state := st\<rparr>) (fibers_of tid w))"
  using assms by (simp add: yield_mark_def GetThis_def fibers_of_def fiber_defs)

section \<open>Properties\<close>

text \<open>C29. The scan of the task queue takes the oldest task that the thread may run (unbound or bound to
  it, and not a fiber that is executing), keeps the others in order, and asks for a tickle exactly when
  it passed over a task bound to another thread; with no such task it takes none.\<close>

theorem take_task_oldest_eligible:
  assumes "\<forall>t\<in>set q. runnable t"
  shows "case find (eligible running tid) q of
           None \<Rightarrow> take_task running tid q = Ret (\<exists>t\<in>set q. foreign tid t, None)
         | Some t \<Rightarrow> \<exists>pre post. q = pre @ t # post \<and> (\<forall>u\<in>set pre. \<not> eligible running tid u)
             \<and> take_task running tid q = Ret (\<exists>u\<in>set pre. foreign tid u, Some (t, pre @ post))"
  by (rule take_task_ok [OF assms])

theorem take_task_oldest_eligible_witness:
  "take_task (\<lambda>_. False) 7 [FiberAndThread (ByCb (Some ''a'')) 8, FiberAndThread (ByCb (Some ''b'')) 7]
     = Ret (True, Some (FiberAndThread (ByCb (Some ''b'')) 7, [FiberAndThread (ByCb (Some ''a'')) 8]))"
proof -
  let ?q = "[FiberAndThread (ByCb (Some ''a'')) 8, FiberAndThread (ByCb (Some ''b'')) 7]"
  have r: "\<forall>t\<in>set ?q. runnable t" by (simp add: runnable_def)
  show ?thesis using take_task_oldest_eligible [OF r, of "\<lambda>_. False" 7]
    by (auto simp: eligible_def foreign_def Cons_eq_append_conv)
qed

text \<open>However the worker threads, other threads and a stopping thread interleave, the active and
  idle counters count exactly the threads that hold or run a task and that run their idle fiber, no
  worker ever fails the assertion of the queue scan, and when \<open>stopping()\<close> holds no task is queued,
  held or running anywhere.\<close>

theorem scheduler_accounting:
  assumes "distinct T" and "\<forall>t\<in>set (sc_fibers s). runnable t"
    and "sched_reach T (started_world fs mains idles s) w"
  shows "sc_activeThreadCount (w_sched w) = count_pc busy T w
     \<and> sc_idleThreadCount (w_sched w) = count_pc idling T w
     \<and> (\<forall>tid. is_Ret (run_take tid w))
     \<and> (stopping (w_sched w) \<longrightarrow> sc_fibers (w_sched w) = [] \<and> (\<forall>tid\<in>set T. \<not> busy (pc_of w tid)))"
proof -
  have inv: "sched_inv T w" by (rule sched_reach_inv [OF assms(3) started_inv [OF assms(1,2)]])
  have "is_Ret (run_take tid w)" for tid
    using take_task_ok [OF inv_queue [OF inv], of "\<lambda>a. fiber_st w a = EXEC" tid]
    by (auto simp: run_take_def split: option.splits)
  with inv stopping_quiet [OF inv] show ?thesis by (auto simp: sched_inv_def stopping_def)
qed

definition demo_sched :: "string sched" where
  "demo_sched = \<lparr>sc_fibers = [FiberAndThread (ByFiber (Some 5)) (- 1)], sc_threadIds = [11, 12],
     sc_threadCount = 2, sc_threads = [11, 12], sc_activeThreadCount = 0, sc_idleThreadCount = 0,
     sc_stopping = False, sc_autoStop = False, sc_rootThread = - 1, sc_rootFiber = None\<rparr>"

definition demo_fibers :: "string fiber_sys" where
  "demo_fibers = Fiber_new 4096 5 (Some ''job'') 0 False
     \<lparr>fs_heap = (\<lambda>_. None), fs_id = 0, fs_count = 0, tls_fiber = None, tls_threadFiber = None\<rparr>"

definition demo_world :: "string world" where
  "demo_world = started_world demo_fibers (\<lambda>_. 1) (\<lambda>_. 2) demo_sched"

theorem scheduler_accounting_witness:
  "\<exists>w. sched_reach [11, 12] demo_world w \<and> sc_activeThreadCount (w_sched w) = count_pc busy [11, 12] w"
proof -
  have r: "\<forall>t\<in>set (sc_fibers demo_sched). runnable t" by (simp add: demo_sched_def runnable_def)
  have "sched_reach [11, 12] demo_world demo_world" by (rule reach_0)
  with scheduler_accounting [OF _ r this [unfolded demo_world_def]] show ?thesis
    by (auto simp: demo_world_def)
qed


text \<open>C30. A fiber \<open>a\<close> can run on two workers at once. Worker \<open>tid1\<close> runs \<open>a\<close>, which calls \<open>YieldToHold\<close> or
  \<open>YieldToReady\<close>; worker \<open>tid2\<close> is at the top of its loop and finds at most tasks bound to other threads. Both yields
  mark the fiber (\<open>yield_mark\<close>) and switch (\<open>swapOut\<close>) afterwards: when any thread schedules \<open>a\<close> in between, \<open>tid2\<close>
  takes it, passes the \<open>m_state != EXEC\<close> assertion and switches into \<open>a\<close> while \<open>tid1\<close> has not left it, both threads
  having \<open>a\<close> as their current fiber.\<close>

theorem fiber_on_two_threads:
  assumes "tid1 \<in> set T" "tid2 \<in> set T" "tid1 \<noteq> tid2"
    and "pc_of w tid1 = In (Fib a) False" "rl_this (w_locals w tid1) = Some a"
    and "fs_heap (w_fibers w) a = Some f" "f_state f = EXEC" "fs_heap (w_fibers w) new_a = None"
    and "pc_of w tid2 = AtLoop" "\<forall>t\<in>set (sc_fibers (w_sched w)). foreign tid2 t"
    and "(st, yield) = (HOLD, YieldToHold) \<or> (st, yield) = (READY, YieldToReady)"
  shows "\<exists>fs w1 w'. yield_mark st new_a (fibers_of tid1 w) = Ret (a, fs)
    \<and> yield (Some m) new_a (fibers_of tid1 w) = swapOut (Some m) a fs
    \<and> w1 = set_pc tid1 (In (Fib a) True) (store_fibers tid1 fs w) \<and> sched_step T w w1 \<and> sched_reach T w1 w'
    \<and> pc_of w' tid1 = In (Fib a) True \<and> rl_this (w_locals w' tid1) = Some a
    \<and> pc_of w' tid2 = In (Fib a) False \<and> rl_this (w_locals w' tid2) = Some a \<and> fiber_st w' a = EXEC"
proof -
  have st: "st = READY \<or> st = HOLD" "yield = yield_with st"
    using assms(11) by (auto simp: YieldToHold_def YieldToReady_def)
  let ?f1 = "f\<lparr>f_state := st\<rparr>" and ?task = "FiberAndThread (ByFiber (Some a)) (- 1) :: 'a task"
  let ?fs = "put_fiber a ?f1 (fibers_of tid1 w)"
  let ?w1 = "set_pc tid1 (In (Fib a) True) (store_fibers tid1 ?fs w)"
  let ?w2 = "?w1\<lparr>w_sched := snd (schedule (ByFiber (Some a)) (- 1) (w_sched ?w1))\<rparr>"
  let ?w3 = "set_pc tid2 (HasTask ?task) (upd_sched (\<lambda>s. add_active (s\<lparr>sc_fibers := sc_fibers (w_sched w)\<rparr>)) ?w2)"
  let ?w4 = "set_pc tid2 (In (Fib a) False) (store_fibers tid2
      (put_fiber a (?f1\<lparr>f_state := EXEC\<rparr>) (SetThis (Some a) (fibers_of tid2 ?w3))) ?w3)"
  have y: "yield_mark st new_a (fibers_of tid1 w) = Ret (a, ?fs)" by (rule yield_mark_of [OF assms(5-7)])
  then have yw: "yield (Some m) new_a (fibers_of tid1 w) = swapOut (Some m) a ?fs" by (simp add: st(2) yield_with_def)
  have s1: "sched_step T w ?w1" by (rule step_yield [OF assms(1,4) _ st(1) y refl]) simp
  have s2: "sched_step T ?w1 ?w2" by (rule step_schedule) simp
  have q: "sc_fibers (w_sched ?w2) = sc_fibers (w_sched w) @ [?task]"
    by (simp add: schedule_def scheduleNoLock_def Let_def runnable_def)
  have h1: "fs_heap (w_fibers ?w2) a = Some ?f1"
    by (simp add: set_pc_def store_fibers_def put_fiber_def)
  then have nr: "\<not> fiber_st ?w2 a = EXEC" "fiber_st ?w2 a = st" using st(1) by (auto simp: fiber_st_def)
  have "run_take tid2 ?w2 = Ret (sc_fibers (w_sched w) \<noteq> [], ?w3)"
    using take_task_after_foreign [where running = "\<lambda>b. fiber_st ?w2 b = EXEC", OF assms(10) nr(1)]
    unfolding run_take_def q by (simp add: upd_sched_def)
  then have s3: "sched_step T ?w2 ?w3"
    using assms(2,3,9) by (intro step_take) simp_all
  have h3: "fs_heap (fibers_of tid2 ?w3) a = Some ?f1" "fs_heap (w_fibers ?w3) new_a = None"
    using assms(6,8) by (auto simp: fibers_of_def set_pc_def store_fibers_def put_fiber_def upd_sched_def)
  have "enter tid2 (Fib a) a ?w3 = Ret ?w4"
    using h3(1) st(1) by (auto simp: enter_def swapIn_def with_fiber_def assert_that_def put_fiber_def SetThis_def)
  then have "run_start tid2 new_a ?w3 = Ret ?w4"
    using nr(2) st(1) by (auto simp: run_start_def)
  then have s4: "sched_step T ?w3 ?w4"
    using assms(2) h3(2) by (intro step_begin_task) simp_all
  have "sched_reach T ?w1 ?w4" by (intro reach_step [OF _ s4] reach_step [OF _ s3] reach_step [OF _ s2] reach_0)
  moreover have "pc_of ?w4 tid1 = In (Fib a) True" "pc_of ?w4 tid2 = In (Fib a) False" using assms(3) by simp_all
  moreover have "rl_this (w_locals ?w4 tid1) = Some a" "rl_this (w_locals ?w4 tid2) = Some a"
    using assms(3,5) by (simp_all add: set_pc_def store_fibers_def put_fiber_def SetThis_def upd_sched_def fibers_of_def)
  moreover have "fiber_st ?w4 a = EXEC" by (simp add: put_fiber_def)
  ultimately show ?thesis using y yw s1 by blast
qed

text \<open>Worker 11 has resumed fiber 5.\<close>

definition demo_running :: "string world" where
  "demo_running =
     (case run_take 11 demo_world of
        Ret (_, w) \<Rightarrow> (case run_start 11 90 w of Ret w1 \<Rightarrow> w1 | _ \<Rightarrow> w)
      | _ \<Rightarrow> demo_world)"

theorem fiber_on_two_threads_witness:
  "\<exists>w1 w'. sched_step [11, 12] demo_running w1 \<and> sched_reach [11, 12] w1 w'
    \<and> pc_of w' 11 = In (Fib 5) True \<and> pc_of w' 12 = In (Fib 5) False \<and> fiber_st w' 5 = EXEC"
proof -
  have p: "pc_of demo_running 11 = In (Fib 5) False" "rl_this (w_locals demo_running 11) = Some 5"
    "fs_heap (w_fibers demo_running) 91 = None" "pc_of demo_running 12 = AtLoop" "sc_fibers (w_sched demo_running) = []"
    "map_option f_state (fs_heap (w_fibers demo_running) 5) = Some EXEC"
    by code_simp+
  then obtain f where f: "fs_heap (w_fibers demo_running) 5 = Some f" "f_state f = EXEC" by auto
  show ?thesis using fiber_on_two_threads [OF _ _ _ p(1,2) f p(3,4), of "[11, 12]" HOLD YieldToHold] p(5) by fastforce
qed

end
