(* ===== verification/IOManager.thy ===== *)
theory IOManager
  imports Timer Scheduler
begin

unbundle bit_operations_syntax

text \<open>
  \<open>radixun/common/iomanager.{h,cpp}\<close>: I/O events on file descriptors, over epoll.

  \<^item> \<open>io_contexts\<close> is \<open>m_fdContexts\<close>, \<open>io_pending\<close> is \<open>m_pendingEventCount\<close>; \<open>io_epoll\<close> is the
    kernel's interest list, as the successful \<open>epoll_ctl\<close> calls leave it, and \<open>io_scheduled\<close> the calls
    \<open>ctx.scheduler->schedule(...)\<close> in order;
  \<^item> the result \<open>rt\<close> of each \<open>epoll_ctl\<close> is an argument (zero for success), as are
    \<open>Scheduler::GetThis()\<close> and the current fiber;
  \<^item> an operation holds the mutex of its \<open>FdContext\<close> from the lookup on, so it is one step.
\<close>

type_synonym event = u32

definition NONE :: event where "NONE = 0x00"
definition READ :: event where "READ = 0x01"
definition WRITE :: event where "WRITE = 0x4"

definition EPOLLIN :: u32 where "EPOLLIN = 0x001"
definition EPOLLOUT :: u32 where "EPOLLOUT = 0x004"
definition EPOLLERR :: u32 where "EPOLLERR = 0x008"
definition EPOLLHUP :: u32 where "EPOLLHUP = 0x010"
definition EPOLLET :: u32 where "EPOLLET = 0x80000000"

record 'c event_context =
  ec_scheduler :: "nat option"
  ec_fiber :: "nat option"
  ec_cb :: "'c option"

record 'c fd_context =
  fc_read :: "'c event_context"
  fc_write :: "'c event_context"
  fc_fd :: int
  fc_events :: event

record 'c iom =
  io_contexts :: "'c fd_context list"
  io_pending :: nat
  io_epoll :: "int \<Rightarrow> u32 option"
  io_scheduled :: "(nat \<times> 'c fiber_or_cb) list"

section \<open>Event contexts\<close>

definition blank_context :: "'c event_context" where
  "blank_context = \<lparr>ec_scheduler = None, ec_fiber = None, ec_cb = None\<rparr>"

definition getContext :: "event \<Rightarrow> 'c fd_context \<Rightarrow> 'c event_context outcome" where
  "getContext event c =
     (if event = READ then Ret (fc_read c) else if event = WRITE then Ret (fc_write c)
      else Fault AssertFail)"

definition putContext :: "event \<Rightarrow> 'c event_context \<Rightarrow> 'c fd_context \<Rightarrow> 'c fd_context" where
  "putContext event e c = (if event = READ then c\<lparr>fc_read := e\<rparr> else c\<lparr>fc_write := e\<rparr>)"

definition resetContext :: "'c event_context \<Rightarrow> 'c event_context" where
  "resetContext e = e\<lparr>ec_scheduler := None, ec_fiber := None, ec_cb := None\<rparr>"

text \<open>
  \<open>triggerEvent\<close>: the task given to the event's scheduler. \<open>schedule(&ctx.cb)\<close> and
  \<open>schedule(&ctx.fiber)\<close> swap the task out, so the context is left empty.
\<close>

definition triggerEvent :: "event \<Rightarrow> 'c fd_context
    \<Rightarrow> ((nat \<times> 'c fiber_or_cb) \<times> 'c fd_context) outcome" where
  "triggerEvent event c =
     (if fc_events c AND event = 0 then Fault AssertFail
      else let c1 = c\<lparr>fc_events := fc_events c AND NOT event\<rparr>
        in obind (getContext event c1) (\<lambda>ctx.
          case ec_scheduler ctx of
            None \<Rightarrow> Fault NullDeref
          | Some s \<Rightarrow>
              let (task, ctx1) = (case ec_cb ctx of
                     Some cb \<Rightarrow> (ByCb (Some cb), ctx\<lparr>ec_cb := None\<rparr>)
                   | None \<Rightarrow> (ByFiber (ec_fiber ctx), ctx\<lparr>ec_fiber := None\<rparr>))
              in Ret ((s, task), putContext event (ctx1\<lparr>ec_scheduler := None\<rparr>) c1)))"

definition fresh_context :: "nat \<Rightarrow> 'c fd_context" where
  "fresh_context i = \<lparr>fc_read = blank_context, fc_write = blank_context, fc_fd = int i, fc_events = NONE\<rparr>"

definition contextResize :: "nat \<Rightarrow> 'c iom \<Rightarrow> 'c iom" where
  "contextResize sz m =
     m\<lparr>io_contexts := take sz (io_contexts m)
        @ map fresh_context [length (io_contexts m)..<sz]\<rparr>"

definition IOManager_new :: "'c iom" where
  "IOManager_new = contextResize 32
     \<lparr>io_contexts = [], io_pending = 0, io_epoll = (\<lambda>_. None), io_scheduled = []\<rparr>"

section \<open>Operations\<close>

text \<open>\<open>m_fdContexts[fd]\<close>: a negative \<open>fd\<close> passes the size test and indexes outside the vector.\<close>

definition with_context :: "int \<Rightarrow> 'c iom \<Rightarrow> ('c fd_context \<Rightarrow> 'r outcome) \<Rightarrow> 'r outcome" where
  "with_context fd m k =
     (if fd < 0 \<or> int (length (io_contexts m)) \<le> fd then Fault OutOfBounds
      else k (io_contexts m ! nat fd))"

definition put_context :: "int \<Rightarrow> 'c fd_context \<Rightarrow> 'c iom \<Rightarrow> 'c iom" where
  "put_context fd c m = m\<lparr>io_contexts := (io_contexts m)[nat fd := c]\<rparr>"

definition watch :: "int \<Rightarrow> event \<Rightarrow> 'c iom \<Rightarrow> 'c iom" where
  "watch fd events m =
     m\<lparr>io_epoll := (io_epoll m)(fd := (if events = 0 then None else Some (EPOLLET OR events)))\<rparr>"

definition addEvent :: "int \<Rightarrow> nat option \<Rightarrow> nat \<times> state \<Rightarrow> int \<Rightarrow> event \<Rightarrow> 'c option \<Rightarrow> 'c iom
    \<Rightarrow> (int \<times> 'c iom) outcome" where
  "addEvent rt this_scheduler cur fd event cb m =
     (let m1 = (if int (length (io_contexts m)) > fd then m
                else contextResize (nat (fd * 3 div 2)) m)
      in with_context fd m1 (\<lambda>c.
        if fc_events c AND event \<noteq> 0 then Fault AssertFail
        else if rt \<noteq> 0 then Ret (- 1, m1)
        else let events = fc_events c OR event;
                 c1 = c\<lparr>fc_events := events\<rparr>;
                 m2 = (watch fd events m1)\<lparr>io_pending := io_pending m1 + 1\<rparr>
          in obind (getContext event c1) (\<lambda>ctx.
            if ec_scheduler ctx \<noteq> None \<or> ec_fiber ctx \<noteq> None \<or> ec_cb ctx \<noteq> None then Fault AssertFail
            else let ctx1 = ctx\<lparr>ec_scheduler := this_scheduler\<rparr>
              in case cb of
                   Some f \<Rightarrow> Ret (0, put_context fd (putContext event (ctx1\<lparr>ec_cb := Some f\<rparr>) c1) m2)
                 | None \<Rightarrow>
                     if snd cur \<noteq> EXEC then Fault AssertFail
                     else Ret (0, put_context fd (putContext event (ctx1\<lparr>ec_fiber := Some (fst cur)\<rparr>) c1) m2))))"

definition delEvent :: "int \<Rightarrow> int \<Rightarrow> event \<Rightarrow> 'c iom \<Rightarrow> (bool \<times> 'c iom) outcome" where
  "delEvent rt fd event m =
     (if int (length (io_contexts m)) \<le> fd then Ret (False, m)
      else with_context fd m (\<lambda>c.
        if fc_events c AND event = 0 then Ret (False, m)
        else if rt \<noteq> 0 then Ret (False, m)
        else let new_events = fc_events c AND NOT event;
                 m1 = (watch fd new_events m)\<lparr>io_pending := size_sub (io_pending m) 1\<rparr>;
                 c1 = c\<lparr>fc_events := new_events\<rparr>
          in obind (getContext event c1) (\<lambda>ctx.
               Ret (True, put_context fd (putContext event (resetContext ctx) c1) m1))))"

definition log_task :: "nat \<times> 'c fiber_or_cb \<Rightarrow> 'c iom \<Rightarrow> 'c iom" where
  "log_task t m = m\<lparr>io_scheduled := io_scheduled m @ [t]\<rparr>"

text \<open>\<open>fd_ctx->triggerEvent(event); --m_pendingEventCount\<close>, as three operations do it.\<close>

definition fire :: "int \<Rightarrow> event \<Rightarrow> 'c iom \<Rightarrow> 'c iom outcome" where
  "fire fd event m = with_context fd m (\<lambda>c.
     obind (triggerEvent event c) (\<lambda>(t, c1).
       Ret (log_task t ((put_context fd c1 m)\<lparr>io_pending := size_sub (io_pending m) 1\<rparr>))))"

definition cancelEvent :: "int \<Rightarrow> int \<Rightarrow> event \<Rightarrow> 'c iom \<Rightarrow> (bool \<times> 'c iom) outcome" where
  "cancelEvent rt fd event m =
     (if int (length (io_contexts m)) \<le> fd then Ret (False, m)
      else with_context fd m (\<lambda>c.
        if fc_events c AND event = 0 then Ret (False, m)
        else if rt \<noteq> 0 then Ret (False, m)
        else obind (fire fd event (watch fd (fc_events c AND NOT event) m)) (\<lambda>m1. Ret (True, m1))))"

definition fire_if :: "event \<Rightarrow> int \<Rightarrow> event \<Rightarrow> 'c iom \<Rightarrow> 'c iom outcome" where
  "fire_if events fd event m = (if events AND event \<noteq> 0 then fire fd event m else Ret m)"

definition cancelAll :: "int \<Rightarrow> int \<Rightarrow> 'c iom \<Rightarrow> (bool \<times> 'c iom) outcome" where
  "cancelAll rt fd m =
     (if int (length (io_contexts m)) \<le> fd then Ret (False, m)
      else with_context fd m (\<lambda>c.
        if fc_events c = 0 then Ret (False, m)
        else if rt \<noteq> 0 then Ret (False, m)
        else obind (fire_if (fc_events c) fd READ (watch fd 0 m)) (\<lambda>m1.
          with_context fd m1 (\<lambda>c1. obind (fire_if (fc_events c1) fd WRITE m1) (\<lambda>m2.
            with_context fd m2 (\<lambda>c2.
              if fc_events c2 = 0 then Ret (True, m2) else Fault AssertFail))))))"

definition iom_stopping :: "u64 \<Rightarrow> nat \<Rightarrow> bool \<Rightarrow> bool" where
  "iom_stopping timeout n_pending base_stopping \<longleftrightarrow> timeout = NOT 0 \<and> n_pending = 0 \<and> base_stopping"

text \<open>\<open>tickle\<close>: whether a byte is written to the pipe.\<close>

definition iom_tickle :: "'c sched \<Rightarrow> bool" where
  "iom_tickle s \<longleftrightarrow> \<not> hasIdleThreads s"

section \<open>The idle fiber\<close>

text \<open>The \<open>int\<close> passed to \<open>epoll_wait\<close>: a negative one means no timeout.\<close>

definition epoll_timeout :: "u64 \<Rightarrow> int" where
  "epoll_timeout next_timeout =
     (let t = (if next_timeout \<noteq> NOT 0
               then (if sint (ucast next_timeout :: u32) > 3000 then 3000 else next_timeout)
               else 3000)
      in sint (ucast t :: u32))"

definition real_events :: "u32 \<Rightarrow> event" where
  "real_events ev0 =
     (let ev = (if ev0 AND (EPOLLERR OR EPOLLHUP) \<noteq> 0 then ev0 OR (EPOLLIN OR EPOLLOUT) else ev0)
      in (if ev AND EPOLLIN \<noteq> 0 then READ else NONE) OR (if ev AND EPOLLOUT \<noteq> 0 then WRITE else NONE))"

text \<open>One entry that \<open>epoll_wait\<close> reported for the context of \<open>fd\<close>, with the result of its \<open>epoll_ctl\<close>.\<close>

definition handle_event :: "int \<Rightarrow> int \<Rightarrow> u32 \<Rightarrow> 'c iom \<Rightarrow> 'c iom outcome" where
  "handle_event rt2 fd ev m = with_context fd m (\<lambda>c.
     let re = real_events ev
     in if fc_events c AND re = NONE then Ret m
        else if rt2 \<noteq> 0 then Ret m
        else obind (fire_if re fd READ (watch (fc_fd c) (fc_events c AND NOT re) m)) (\<lambda>m1.
               fire_if re fd WRITE m1))"

datatype ready = TickleByte | ReadyFd int int u32

fun handle_all :: "ready list \<Rightarrow> 'c iom \<Rightarrow> 'c iom outcome" where
  "handle_all [] m = Ret m"
| "handle_all (TickleByte # rs) m = handle_all rs m"
| "handle_all (ReadyFd rt2 fd ev # rs) m = obind (handle_event rt2 fd ev m) (handle_all rs)"

text \<open>
  One round of \<open>idle\<close>: \<open>None\<close> when it ends, else the state when it switches out. \<open>t1\<close> and \<open>t2\<close> are the
  clock before and after \<open>epoll_wait\<close>, \<open>p\<close> the address of \<open>now_timer\<close>.
\<close>

definition iom_idle_round :: "u64 \<Rightarrow> u64 \<Rightarrow> nat \<Rightarrow> ready list
    \<Rightarrow> 'c timer_manager \<Rightarrow> 'c callback sched \<Rightarrow> 'c callback iom
    \<Rightarrow> (('c timer_manager \<times> 'c callback sched \<times> 'c callback iom) option \<times> int) outcome" where
  "iom_idle_round t1 t2 p ready tm s m =
     (let (timeout, tm1) = getNextTimer t1 tm
      in if iom_stopping timeout (io_pending m) (stopping s) then Ret (None, 0)
         else obind (listExpiredCb p t2 tm1) (\<lambda>(cbs, tm2).
           let s1 = snd (schedule_all (map ByCb cbs) s)
           in obind (handle_all ready m) (\<lambda>m1. Ret (Some (tm2, s1, m1), epoll_timeout timeout))))"


section \<open>The invariant\<close>

text \<open>
  A set event bit goes with an armed slot (a scheduler and exactly one of fiber and callback), a clear
  one with an empty slot; the pending counter is the number of set bits; the kernel watches exactly the
  set bits.
\<close>

lemmas event_defs = READ_def WRITE_def NONE_def

definition has :: "event \<Rightarrow> 'c fd_context \<Rightarrow> bool" where
  "has ev c \<longleftrightarrow> fc_events c AND ev \<noteq> 0"

definition slot :: "event \<Rightarrow> 'c fd_context \<Rightarrow> 'c event_context" where
  "slot ev c = (if ev = READ then fc_read c else fc_write c)"

definition armed :: "'c event_context \<Rightarrow> bool" where
  "armed e \<longleftrightarrow> ec_scheduler e \<noteq> None \<and> (ec_fiber e = None) \<noteq> (ec_cb e = None)"

definition ctx_ok :: "'c fd_context \<Rightarrow> bool" where
  "ctx_ok c \<longleftrightarrow> fc_events c \<in> {0, 1, 4, 5}
     \<and> (\<forall>ev\<in>{READ, WRITE}. if has ev c then armed (slot ev c) else slot ev c = blank_context)"

definition bits :: "'c fd_context \<Rightarrow> nat" where
  "bits c = (if has READ c then 1 else 0) + (if has WRITE c then 1 else 0)"

definition ctx_inv :: "'c iom \<Rightarrow> bool" where
  "ctx_inv m \<longleftrightarrow> (\<forall>i<length (io_contexts m). ctx_ok (io_contexts m ! i) \<and> fc_fd (io_contexts m ! i) = int i)
     \<and> io_pending m = sum_list (map bits (io_contexts m))"

definition watched :: "'c iom \<Rightarrow> int \<Rightarrow> bool" where
  "watched m fd \<longleftrightarrow> io_epoll m fd =
     (if 0 \<le> fd \<and> fd < int (length (io_contexts m)) \<and> fc_events (io_contexts m ! nat fd) \<noteq> 0
      then Some (EPOLLET OR fc_events (io_contexts m ! nat fd)) else None)"

definition iom_inv :: "'c iom \<Rightarrow> bool" where
  "iom_inv m \<longleftrightarrow> ctx_inv m \<and> (\<forall>fd. watched m fd)"

definition valid_fd :: "int \<Rightarrow> 'c iom \<Rightarrow> bool" where
  "valid_fd fd m \<longleftrightarrow> 0 \<le> fd \<and> fd < int (length (io_contexts m))"

definition ctx_at :: "'c iom \<Rightarrow> int \<Rightarrow> 'c fd_context" where
  "ctx_at m fd = io_contexts m ! nat fd"

text \<open>The task that waits for an event: the callback if there is one, else the fiber.\<close>

definition waiting :: "event \<Rightarrow> 'c fd_context \<Rightarrow> nat \<times> 'c fiber_or_cb" where
  "waiting ev c = (the (ec_scheduler (slot ev c)),
     case ec_cb (slot ev c) of Some cb \<Rightarrow> ByCb (Some cb) | None \<Rightarrow> ByFiber (ec_fiber (slot ev c)))"

lemma with_context_ok [simp]: "valid_fd fd m \<Longrightarrow> with_context fd m k = k (ctx_at m fd)"
  by (auto simp: with_context_def valid_fd_def ctx_at_def)

lemma ctx_at_put [simp]: "valid_fd fd m \<Longrightarrow> ctx_at (put_context fd c m) fd = c"
  by (auto simp: ctx_at_def put_context_def valid_fd_def)

lemma ctx_at_frame [simp]:
  "ctx_at (watch fd e m) x = ctx_at m x" "valid_fd x (watch fd e m) = valid_fd x m"
  "ctx_at (m\<lparr>io_pending := n\<rparr>) x = ctx_at m x" "valid_fd x (m\<lparr>io_pending := n\<rparr>) = valid_fd x m"
  "ctx_at (log_task t m) x = ctx_at m x" "valid_fd x (log_task t m) = valid_fd x m"
  "valid_fd x (put_context fd c m) = valid_fd x m"
  by (auto simp: ctx_at_def watch_def valid_fd_def log_task_def put_context_def)

lemma sum_bits_update:
  "i < length xs \<Longrightarrow> sum_list (map bits (xs[i := c])) + bits (xs ! i) = sum_list (map bits xs) + bits c"
proof (induction xs arbitrary: i)
  case (Cons x xs)
  then show ?case by (cases i) auto
qed simp

lemma bits_le_sum: "i < length xs \<Longrightarrow> bits (xs ! i) \<le> sum_list (map bits xs)"
  by (metis elem_le_sum_list length_map nth_map)

text \<open>Replacing one context, with the counter adjusted.\<close>

lemma ctx_inv_put:
  assumes "ctx_inv m" "valid_fd fd m" "ctx_ok c" "fc_fd c = fd"
    "io_pending m' + bits (ctx_at m fd) = io_pending m + bits c"
    "io_contexts m' = (io_contexts m)[nat fd := c]"
  shows "ctx_inv m'"
proof -
  let ?i = "nat fd"
  have i: "?i < length (io_contexts m)" "int ?i = fd" using assms(2) by (auto simp: valid_fd_def)
  have "io_pending m' = sum_list (map bits (io_contexts m'))"
    using sum_bits_update [OF i(1), of c] assms(1,5) unfolding assms(6) by (simp add: ctx_inv_def ctx_at_def)
  moreover have "ctx_ok (io_contexts m' ! j) \<and> fc_fd (io_contexts m' ! j) = int j"
    if "j < length (io_contexts m')" for j
    using that assms(1,3,4) i unfolding assms(6) by (cases "j = ?i") (auto simp: ctx_inv_def)
  ultimately show ?thesis by (simp add: ctx_inv_def)
qed

lemma ctx_inv_frame:
  "ctx_inv (watch fd e m) = ctx_inv m" "ctx_inv (log_task t m) = ctx_inv m"
  by (simp_all add: ctx_inv_def watch_def log_task_def)

lemma ctx_inv_at: "ctx_inv m \<Longrightarrow> valid_fd fd m \<Longrightarrow> ctx_ok (ctx_at m fd) \<and> fc_fd (ctx_at m fd) = fd"
  by (auto simp: ctx_inv_def ctx_at_def valid_fd_def)

lemma iom_inv_put:
  assumes inv: "iom_inv m" and v: "valid_fd fd m" and c: "ctx_inv m'"
    and cs: "io_contexts m' = (io_contexts m)[nat fd := c]"
    and ep: "io_epoll m' = (io_epoll m)(fd := (if fc_events c = 0 then None else Some (EPOLLET OR fc_events c)))"
  shows "iom_inv m'"
proof -
  have "watched m' x" for x
    using inv v unfolding iom_inv_def watched_def valid_fd_def cs ep
    by (cases "x = fd") (auto simp: nat_eq_iff)
  with c show ?thesis by (simp add: iom_inv_def)
qed

section \<open>Triggering\<close>

text \<open>Clearing the bit and emptying the slot of one event.\<close>

definition disarm :: "event \<Rightarrow> 'c fd_context \<Rightarrow> 'c fd_context" where
  "disarm ev c = putContext ev blank_context (c\<lparr>fc_events := fc_events c AND NOT ev\<rparr>)"

lemma disarm_ok:
  assumes "ctx_ok c" "ev \<in> {READ, WRITE}"
  shows "ctx_ok (disarm ev c)" "fc_events (disarm ev c) = fc_events c AND NOT ev" "fc_fd (disarm ev c) = fc_fd c"
    "has ev c \<Longrightarrow> bits c = Suc (bits (disarm ev c))"
    "ev' \<in> {READ, WRITE} \<Longrightarrow> ev' \<noteq> ev \<Longrightarrow> slot ev' (disarm ev c) = slot ev' c \<and> has ev' (disarm ev c) = has ev' c"
  using assms
  by (auto simp: ctx_ok_def disarm_def putContext_def has_def slot_def bits_def event_defs)

lemma trigger_ok:
  assumes "ctx_ok c" "ev \<in> {READ, WRITE}" "has ev c"
  shows "triggerEvent ev c = Ret (waiting ev c, disarm ev c)"
proof -
  have "armed (slot ev c)" using assms by (auto simp: ctx_ok_def)
  with assms(2,3) show ?thesis
    by (auto simp: triggerEvent_def has_def getContext_def slot_def armed_def waiting_def disarm_def
        putContext_def blank_context_def Let_def event_defs split: option.splits)
qed

lemma fire_ok:
  assumes inv: "ctx_inv m" and v: "valid_fd fd m" and ev: "ev \<in> {READ, WRITE}" and h: "has ev (ctx_at m fd)"
  shows "\<exists>m'. fire fd ev m = Ret m' \<and> ctx_inv m' \<and> io_contexts m' = (io_contexts m)[nat fd := disarm ev (ctx_at m fd)]
    \<and> io_epoll m' = io_epoll m \<and> io_scheduled m' = io_scheduled m @ [waiting ev (ctx_at m fd)]
    \<and> io_pending m = Suc (io_pending m')"
proof -
  note c = ctx_inv_at [OF inv v]
  let ?c = "disarm ev (ctx_at m fd)"
  let ?m' = "log_task (waiting ev (ctx_at m fd)) ((put_context fd ?c m)\<lparr>io_pending := size_sub (io_pending m) 1\<rparr>)"
  note d = disarm_ok [OF conjunct1 [OF c] ev]
  have "bits (ctx_at m fd) \<le> io_pending m"
    using bits_le_sum [of "nat fd" "io_contexts m"] inv v by (auto simp: ctx_inv_def ctx_at_def valid_fd_def)
  then have p: "0 < io_pending m" using d(4) [OF h] by linarith
  have "ctx_inv ?m'"
    by (rule ctx_inv_put [OF inv v d(1)]) (use d(3,4) h c p in \<open>auto simp: log_task_def put_context_def\<close>)
  then show ?thesis using v trigger_ok [OF conjunct1 [OF c] ev h] p
    by (intro exI [of _ ?m']) (simp add: fire_def, simp add: log_task_def put_context_def)
qed

lemma fire_not_registered:
  "valid_fd fd m \<Longrightarrow> \<not> has ev (ctx_at m fd) \<Longrightarrow> fire fd ev m = Fault AssertFail"
  by (simp add: fire_def triggerEvent_def has_def)


section \<open>What each operation does\<close>

definition iom_grow :: "int \<Rightarrow> 'c iom \<Rightarrow> 'c iom" where
  "iom_grow fd m = (if int (length (io_contexts m)) > fd then m else contextResize (nat (fd * 3 div 2)) m)"

lemma length_contextResize: "length (io_contexts m) \<le> n \<Longrightarrow> length (io_contexts (contextResize n m)) = n"
  by (simp add: contextResize_def)

lemma contextResize_inv:
  assumes "iom_inv m" "length (io_contexts m) \<le> n"
  shows "iom_inv (contextResize n m)"
proof -
  have cs: "io_contexts (contextResize n m) = io_contexts m @ map fresh_context [length (io_contexts m)..<n]"
    using assms(2) by (simp add: contextResize_def)
  have b: "bits (fresh_context i :: 'a fd_context) = 0" "ctx_ok (fresh_context i :: 'a fd_context)"
    "fc_fd (fresh_context i :: 'a fd_context) = int i" "fc_events (fresh_context i :: 'a fd_context) = 0" for i
    by (simp_all add: fresh_context_def bits_def has_def ctx_ok_def slot_def event_defs)
  have "sum_list (map bits (map (fresh_context :: nat \<Rightarrow> 'a fd_context) [length (io_contexts m)..<n])) = 0"
    by (simp add: b(1) comp_def sum_list_triv)
  moreover have "io_pending (contextResize n m) = io_pending m" "io_epoll (contextResize n m) = io_epoll m"
    by (simp_all add: contextResize_def)
  moreover have "ctx_ok (io_contexts (contextResize n m) ! i) \<and> fc_fd (io_contexts (contextResize n m) ! i) = int i"
    if "i < n" for i
    using that assms(1) b(2,3) unfolding cs
    by (cases "i < length (io_contexts m)") (auto simp: nth_append iom_inv_def ctx_inv_def)
  ultimately have ci: "ctx_inv (contextResize n m)"
    using assms(1) unfolding ctx_inv_def iom_inv_def cs by (auto simp: length_contextResize assms(2))
  have "watched (contextResize n m) fd" for fd
    using assms(1) unfolding iom_inv_def watched_def cs \<open>io_epoll (contextResize n m) = io_epoll m\<close>
    by (auto simp: nth_append b(4))
  with ci show ?thesis by (simp add: iom_inv_def)
qed

lemma IOManager_new_inv: "iom_inv IOManager_new"
  unfolding IOManager_new_def
  by (rule contextResize_inv) (simp_all add: iom_inv_def ctx_inv_def watched_def)

lemma iom_grow_ok:
  assumes "iom_inv m" "32 \<le> length (io_contexts m)" "0 \<le> fd"
  shows "iom_inv (iom_grow fd m)" "valid_fd fd (iom_grow fd m)"
proof -
  have l: "length (io_contexts m) \<le> nat (fd * 3 div 2)" if "\<not> int (length (io_contexts m)) > fd"
    using that assms(2) by linarith
  show "iom_inv (iom_grow fd m)"
    using contextResize_inv [OF assms(1) l] assms(1) by (auto simp: iom_grow_def)
  show "valid_fd fd (iom_grow fd m)"
    using assms(2,3) length_contextResize [OF l] by (auto simp: iom_grow_def valid_fd_def)
qed

text \<open>Arming a slot.\<close>

definition arm :: "event \<Rightarrow> nat \<Rightarrow> 'c option \<Rightarrow> nat \<Rightarrow> 'c fd_context \<Rightarrow> 'c fd_context" where
  "arm ev s cb cur c = putContext ev \<lparr>ec_scheduler = Some s,
      ec_fiber = (if cb = None then Some cur else None), ec_cb = cb\<rparr> (c\<lparr>fc_events := fc_events c OR ev\<rparr>)"

lemma arm_ok:
  assumes "ctx_ok c" "ev \<in> {READ, WRITE}" "\<not> has ev c"
  shows "ctx_ok (arm ev s cb cur c)" "fc_fd (arm ev s cb cur c) = fc_fd c"
    "bits (arm ev s cb cur c) = Suc (bits c)" "has ev (arm ev s cb cur c)"
    "fc_events (arm ev s cb cur c) = fc_events c OR ev" "fc_events c OR ev \<noteq> 0"
    "waiting ev (arm ev s cb cur c) = (s, case cb of Some f \<Rightarrow> ByCb (Some f) | None \<Rightarrow> ByFiber (Some cur))"
  using assms
  by (auto simp: ctx_ok_def arm_def putContext_def has_def slot_def bits_def armed_def waiting_def event_defs
      split: option.splits)

lemma addEvent_ok:
  assumes inv: "iom_inv m" and len: "32 \<le> length (io_contexts m)" and fd: "0 \<le> fd"
    and ev: "ev \<in> {READ, WRITE}" and cur: "cb \<noteq> None \<or> snd cur = EXEC"
  defines "m1 \<equiv> iom_grow fd m"
  shows "has ev (ctx_at m1 fd) \<Longrightarrow> addEvent rt (Some s) cur fd ev cb m = Fault AssertFail"
    and "\<not> has ev (ctx_at m1 fd) \<Longrightarrow> rt \<noteq> 0 \<Longrightarrow> addEvent rt (Some s) cur fd ev cb m = Ret (- 1, m1)"
    and "\<not> has ev (ctx_at m1 fd) \<Longrightarrow> rt = 0 \<Longrightarrow> \<exists>m'. addEvent rt (Some s) cur fd ev cb m = Ret (0, m')
       \<and> iom_inv m' \<and> ctx_at m' fd = arm ev s cb (fst cur) (ctx_at m1 fd)
       \<and> io_contexts m' = (io_contexts m1)[nat fd := ctx_at m' fd] \<and> io_scheduled m' = io_scheduled m"
proof -
  note g = iom_grow_ok [OF inv len fd, folded m1_def]
  have c: "ctx_ok (ctx_at m1 fd)" "fc_fd (ctx_at m1 fd) = fd"
    using ctx_inv_at [OF _ g(2)] g(1) by (auto simp: iom_inv_def)
  note add = addEvent_def [of rt "Some s" cur fd ev cb m, folded iom_grow_def m1_def, unfolded Let_def with_context_ok [OF g(2)]]
  show "has ev (ctx_at m1 fd) \<Longrightarrow> addEvent rt (Some s) cur fd ev cb m = Fault AssertFail"
    unfolding add by (simp add: has_def)
  show "\<not> has ev (ctx_at m1 fd) \<Longrightarrow> rt \<noteq> 0 \<Longrightarrow> addEvent rt (Some s) cur fd ev cb m = Ret (- 1, m1)"
    unfolding add by (simp add: has_def)
  assume h: "\<not> has ev (ctx_at m1 fd)" and rt: "rt = 0"
  let ?c = "arm ev s cb (fst cur) (ctx_at m1 fd)"
  let ?m' = "put_context fd ?c ((watch fd (fc_events (ctx_at m1 fd) OR ev) m1)\<lparr>io_pending := io_pending m1 + 1\<rparr>)"
  note a = arm_ok [OF c(1) ev h]
  have "slot ev (ctx_at m1 fd) = blank_context" using c(1) ev h by (auto simp: ctx_ok_def)
  then have get: "getContext ev (ctx_at m1 fd\<lparr>fc_events := e\<rparr>) = Ret blank_context" for e
    using ev by (auto simp: getContext_def slot_def event_defs)
  have r: "addEvent rt (Some s) cur fd ev cb m = Ret (0, ?m')"
  proof (cases cb)
    case None
    with cur h rt show ?thesis unfolding add get
      by (simp add: has_def get arm_def) (simp add: blank_context_def)
  next
    case (Some f)
    with h rt show ?thesis unfolding add get
      by (simp add: has_def get arm_def) (simp add: blank_context_def)
  qed
  have cs: "io_contexts ?m' = (io_contexts m1)[nat fd := ?c]" by (simp add: put_context_def watch_def)
  have ci: "ctx_inv ?m'"
    by (rule ctx_inv_put [OF _ g(2) a(1) _ _ cs]) (use g(1) a(2,3) c(2) in \<open>auto simp: iom_inv_def put_context_def\<close>)
  have "iom_inv ?m'"
    by (rule iom_inv_put [OF g(1,2) ci cs]) (use a(5,6) in \<open>simp add: put_context_def watch_def\<close>)
  moreover have "io_scheduled ?m' = io_scheduled m"
    by (simp add: put_context_def watch_def m1_def iom_grow_def contextResize_def)
  ultimately show "\<exists>m'. addEvent rt (Some s) cur fd ev cb m = Ret (0, m')
       \<and> iom_inv m' \<and> ctx_at m' fd = arm ev s cb (fst cur) (ctx_at m1 fd)
       \<and> io_contexts m' = (io_contexts m1)[nat fd := ctx_at m' fd] \<and> io_scheduled m' = io_scheduled m"
    using r cs g(2) by (intro exI [of _ ?m']) simp
qed


lemma inv_parts: "iom_inv m \<Longrightarrow> valid_fd fd m \<Longrightarrow> ctx_inv m \<and> ctx_ok (ctx_at m fd) \<and> fc_fd (ctx_at m fd) = fd"
  using ctx_inv_at by (auto simp: iom_inv_def)

lemma has_positive:
  assumes "ctx_inv m" "valid_fd fd m" "has ev (ctx_at m fd)" "ev \<in> {READ, WRITE}"
  shows "0 < io_pending m"
proof -
  have "bits (ctx_at m fd) \<le> io_pending m"
    using bits_le_sum [of "nat fd" "io_contexts m"] assms(1,2) by (auto simp: ctx_inv_def ctx_at_def valid_fd_def)
  then show ?thesis using assms(3,4) by (auto simp: bits_def)
qed

lemma resetContext_blank [simp]: "resetContext e = (blank_context :: 'c event_context)"
  by (cases e) (simp add: resetContext_def blank_context_def)

lemma delEvent_ok:
  assumes inv: "iom_inv m" and v: "valid_fd fd m" and ev: "ev \<in> {READ, WRITE}" and h: "has ev (ctx_at m fd)"
  shows "\<exists>m'. delEvent 0 fd ev m = Ret (True, m') \<and> iom_inv m' \<and> \<not> has ev (ctx_at m' fd)
     \<and> io_scheduled m' = io_scheduled m \<and> io_pending m = Suc (io_pending m')"
proof -
  note c = inv_parts [OF inv v]
  let ?c = "disarm ev (ctx_at m fd)"
  let ?m' = "put_context fd ?c ((watch fd (fc_events ?c) m)\<lparr>io_pending := size_sub (io_pending m) 1\<rparr>)"
  note d = disarm_ok [OF conjunct1 [OF conjunct2 [OF c]] ev]
  have p: "0 < io_pending m" using has_positive [OF _ v h ev] c by blast
  have r: "delEvent 0 fd ev m = Ret (True, ?m')"
    using v h ev unfolding d(2)
    by (auto simp: delEvent_def has_def valid_fd_def Let_def getContext_def disarm_def
        putContext_def event_defs)
  have cs: "io_contexts ?m' = (io_contexts m)[nat fd := ?c]" by (simp add: put_context_def watch_def)
  have ci: "ctx_inv ?m'"
    by (rule ctx_inv_put [OF _ v d(1) _ _ cs]) (use c d(3,4) h p in \<open>auto simp: put_context_def\<close>)
  have "iom_inv ?m'" by (rule iom_inv_put [OF inv v ci cs]) (simp add: put_context_def watch_def)
  moreover have "\<not> has ev ?c" unfolding has_def d(2) by (simp add: and.assoc)
  moreover have "io_scheduled ?m' = io_scheduled m" by (simp add: put_context_def watch_def)
  moreover have "io_pending m = Suc (io_pending ?m')" using p by (simp add: put_context_def)
  moreover have "ctx_at ?m' fd = ?c" using v by simp
  ultimately show ?thesis using r by metis
qed

lemma fire_inv:
  assumes inv: "iom_inv m" and v: "valid_fd fd m" and ev: "ev \<in> {READ, WRITE}" and h: "has ev (ctx_at m fd)"
  shows "\<exists>m'. fire fd ev (watch fd (fc_events (ctx_at m fd) AND NOT ev) m) = Ret m' \<and> iom_inv m'
     \<and> ctx_at m' fd = disarm ev (ctx_at m fd) \<and> io_scheduled m' = io_scheduled m @ [waiting ev (ctx_at m fd)]
     \<and> io_pending m = Suc (io_pending m') \<and> valid_fd fd m'"
proof -
  let ?w = "watch fd (fc_events (ctx_at m fd) AND NOT ev) m"
  note c = inv_parts [OF inv v]
  note d = disarm_ok [OF conjunct1 [OF conjunct2 [OF c]] ev]
  have w: "ctx_inv ?w" "valid_fd fd ?w" "has ev (ctx_at ?w fd)" using c v h by (simp_all add: ctx_inv_frame)
  obtain m' where m': "fire fd ev ?w = Ret m'" "ctx_inv m'"
    "io_contexts m' = (io_contexts m)[nat fd := disarm ev (ctx_at m fd)]" "io_epoll m' = io_epoll ?w"
    "io_scheduled m' = io_scheduled m @ [waiting ev (ctx_at m fd)]" "io_pending m = Suc (io_pending m')"
    using fire_ok [OF w(1,2) ev w(3)] by (auto simp: watch_def ctx_at_def)
  have "iom_inv m'"
    by (rule iom_inv_put [OF inv v m'(2,3)]) (simp add: m'(4) watch_def d(2))
  moreover have "ctx_at m' fd = disarm ev (ctx_at m fd)" "valid_fd fd m'"
    using m'(3) v by (auto simp: ctx_at_def valid_fd_def)
  ultimately show ?thesis using m' by blast
qed

lemma cancelEvent_ok:
  assumes "iom_inv m" "valid_fd fd m" "ev \<in> {READ, WRITE}" "has ev (ctx_at m fd)"
  shows "\<exists>m'. cancelEvent 0 fd ev m = Ret (True, m') \<and> iom_inv m' \<and> \<not> has ev (ctx_at m' fd)
     \<and> io_scheduled m' = io_scheduled m @ [waiting ev (ctx_at m fd)] \<and> io_pending m = Suc (io_pending m')"
proof -
  obtain m' where m': "fire fd ev (watch fd (fc_events (ctx_at m fd) AND NOT ev) m) = Ret m'" "iom_inv m'"
     "ctx_at m' fd = disarm ev (ctx_at m fd)" "io_scheduled m' = io_scheduled m @ [waiting ev (ctx_at m fd)]"
     "io_pending m = Suc (io_pending m')"
    using fire_inv [OF assms] by blast
  have "\<not> has ev (ctx_at m' fd)"
    unfolding m'(3) has_def using disarm_ok(2) [of "ctx_at m fd" ev] inv_parts [OF assms(1,2)] assms(3)
    by (simp add: and.assoc)
  moreover have "\<not> int (length (io_contexts m)) \<le> fd" "fc_events (ctx_at m fd) AND ev \<noteq> 0"
    using assms(2,4) by (auto simp: valid_fd_def has_def)
  ultimately show ?thesis using m' assms(2) by (simp add: cancelEvent_def)
qed

text \<open>Firing both events, with the interest list cleared first.\<close>

definition tasks_of :: "event \<Rightarrow> 'c fd_context \<Rightarrow> (nat \<times> 'c fiber_or_cb) list" where
  "tasks_of re c = (if re AND READ \<noteq> 0 then [waiting READ c] else [])
     @ (if re AND WRITE \<noteq> 0 then [waiting WRITE c] else [])"

lemma fire_both:
  assumes inv: "iom_inv m" and v: "valid_fd fd m"
    and re: "re \<in> {1, 4, 5}" and sub: "re AND NOT (fc_events (ctx_at m fd)) = 0"
  shows "\<exists>m'. obind (fire_if re fd READ (watch fd (fc_events (ctx_at m fd) AND NOT re) m)) (\<lambda>m1. fire_if re fd WRITE m1)
       = Ret m' \<and> iom_inv m' \<and> fc_events (ctx_at m' fd) = fc_events (ctx_at m fd) AND NOT re
     \<and> io_scheduled m' = io_scheduled m @ tasks_of re (ctx_at m fd)"
proof -
  note c = inv_parts [OF inv v]
  have regs: "fc_events (ctx_at m fd) \<in> {0, 1, 4, 5}" using c by (simp add: ctx_ok_def)
  have RW: "READ \<in> {READ, WRITE}" "WRITE \<in> {READ, WRITE}" by simp_all
  note fi = fire_if_def tasks_of_def event_defs
  consider "re = 1" | "re = 4" | "re = 5" using re by auto
  then show ?thesis
  proof cases
    case 1
    have "has READ (ctx_at m fd)" using regs sub 1 by (auto simp: has_def event_defs)
    from fire_inv [OF inv v RW(1) this] show ?thesis
      using disarm_ok(2) [OF conjunct1 [OF conjunct2 [OF c]] RW(1)] 1 by (auto simp: fi)
  next
    case 2
    have "has WRITE (ctx_at m fd)" using regs sub 2 by (auto simp: has_def event_defs)
    from fire_inv [OF inv v RW(2) this] show ?thesis
      using disarm_ok(2) [OF conjunct1 [OF conjunct2 [OF c]] RW(2)] 2 by (auto simp: fi)
  next
    case 3
    let ?c = "ctx_at m fd" let ?w = "watch fd (fc_events ?c AND NOT re) m"
    have h: "has READ ?c" "has WRITE ?c" "fc_events ?c AND NOT re = 0"
      using regs sub 3 by (auto simp: has_def event_defs)
    have w: "ctx_inv ?w" "valid_fd fd ?w" "has READ (ctx_at ?w fd)" using c v h by (simp_all add: ctx_inv_frame)
    note d1 = disarm_ok [OF conjunct1 [OF conjunct2 [OF c]] RW(1)]
    note d2 = disarm_ok [OF d1(1) RW(2)]
    obtain m1 where m1: "fire fd READ ?w = Ret m1" "ctx_inv m1" "io_contexts m1 = (io_contexts m)[nat fd := disarm READ ?c]"
      "io_epoll m1 = io_epoll ?w" "io_scheduled m1 = io_scheduled m @ [waiting READ ?c]"
      using fire_ok [OF w(1,2) RW(1) w(3)] by (auto simp: watch_def ctx_at_def)
    have at1: "ctx_at m1 fd = disarm READ ?c" "valid_fd fd m1"
      using m1(3) v by (auto simp: ctx_at_def valid_fd_def)
    have ne: "WRITE \<noteq> READ" by (simp add: event_defs)
    have h1: "has WRITE (ctx_at m1 fd)" and sl0: "slot WRITE (disarm READ ?c) = slot WRITE ?c"
      unfolding at1 using d1(5) [OF RW(2) ne] h by auto
    have sl: "waiting WRITE (ctx_at m1 fd) = waiting WRITE ?c"
      unfolding at1 waiting_def sl0 ..
    obtain m2 where m2: "fire fd WRITE m1 = Ret m2" "ctx_inv m2" "io_contexts m2 = (io_contexts m1)[nat fd := disarm WRITE (ctx_at m1 fd)]"
      "io_epoll m2 = io_epoll m1" "io_scheduled m2 = io_scheduled m1 @ [waiting WRITE (ctx_at m1 fd)]"
      using fire_ok [OF m1(2) at1(2) RW(2) h1] by blast
    have cs: "io_contexts m2 = (io_contexts m)[nat fd := disarm WRITE (disarm READ ?c)]"
      using m2(3) m1(3) at1(1) by simp
    have e0: "fc_events (disarm WRITE (disarm READ ?c)) = 0"
      unfolding d2(2) d1(2) using h(3) 3 by (simp add: and.assoc event_defs)
    have "iom_inv m2"
      by (rule iom_inv_put [OF inv v m2(2) cs]) (simp add: e0 m2(4) m1(4) h(3) watch_def)
    moreover have "ctx_at m2 fd = disarm WRITE (disarm READ ?c)" using cs v by (auto simp: ctx_at_def valid_fd_def)
    ultimately show ?thesis using m1(1,5) m2(1,5) sl e0 h(3) 3
      by (intro exI [of _ m2]) (simp add: fire_if_def tasks_of_def event_defs)
  qed
qed

lemma fire_valid: "fire fd ev m = Ret m' \<Longrightarrow> valid_fd x m' = valid_fd x m"
  by (auto simp: fire_def with_context_def obind_Ret_iff split: if_splits)

lemma fire_if_valid: "fire_if re fd ev m = Ret m' \<Longrightarrow> valid_fd x m' = valid_fd x m"
  using fire_valid [of fd ev m m' x] by (simp add: fire_if_def split: if_splits)

text \<open>\<open>cancelAll\<close> always returns; it acts when an event is registered and epoll lets the descriptor go.\<close>

lemma cancelAll_ok:
  assumes inv: "iom_inv m" and fd: "0 \<le> fd"
  shows "if valid_fd fd m \<and> fc_events (ctx_at m fd) \<noteq> 0 \<and> rt = 0
    then \<exists>m'. cancelAll rt fd m = Ret (True, m') \<and> iom_inv m' \<and> fc_events (ctx_at m' fd) = 0
      \<and> io_scheduled m' = io_scheduled m @ tasks_of (fc_events (ctx_at m fd)) (ctx_at m fd)
    else cancelAll rt fd m = Ret (False, m)"
proof (cases "valid_fd fd m \<and> fc_events (ctx_at m fd) \<noteq> 0 \<and> rt = 0")
  case False
  then show ?thesis using fd
    by (cases "valid_fd fd m") (auto simp: cancelAll_def valid_fd_def with_context_ok [unfolded valid_fd_def])
next
  case True
  let ?c = "ctx_at m fd" let ?re = "fc_events ?c" let ?w = "watch fd 0 m"
  have v: "valid_fd fd m" and ne: "?re \<noteq> 0" and rt: "rt = 0" using True by simp_all
  note c = inv_parts [OF inv v]
  have re: "?re \<in> {1, 4, 5}" using c ne by (auto simp: ctx_ok_def)
  have z: "?re AND NOT ?re = 0" by simp
  obtain m' where f: "obind (fire_if ?re fd READ ?w) (\<lambda>m1. fire_if ?re fd WRITE m1) = Ret m'" and m': "iom_inv m'"
    "fc_events (ctx_at m' fd) = 0" "io_scheduled m' = io_scheduled m @ tasks_of ?re ?c"
    using fire_both [OF inv v re z] unfolding z by auto
  obtain m1 where m1: "fire_if ?re fd READ ?w = Ret m1" "fire_if ?re fd WRITE m1 = Ret m'"
    using f by (auto simp: obind_Ret_iff)
  have v1: "valid_fd fd m1" "valid_fd fd m'"
    using fire_if_valid [OF m1(1), of fd] fire_if_valid [OF m1(2), of fd] v by simp_all
  have "fc_events (ctx_at m1 fd) AND WRITE = ?re AND WRITE"
  proof (cases "?re AND READ = 0")
    case True
    then have "m1 = ?w" using m1(1) by (simp add: fire_if_def)
    then show ?thesis by simp
  next
    case False
    then have h: "has READ (ctx_at ?w fd)" by (simp add: has_def)
    have w: "ctx_inv ?w" "valid_fd fd ?w" using c v by (simp_all add: ctx_inv_frame)
    have "io_contexts m1 = (io_contexts m)[nat fd := disarm READ ?c]"
      using fire_ok [OF w _ h] m1(1) False by (auto simp: fire_if_def watch_def ctx_at_def)
    then have "ctx_at m1 fd = disarm READ ?c" using v by (auto simp: ctx_at_def valid_fd_def)
    then show ?thesis using disarm_ok(2) [of ?c READ] c re by (auto simp: event_defs)
  qed
  then have "fire_if (fc_events (ctx_at m1 fd)) fd WRITE m1 = Ret m'" using m1(2) by (simp add: fire_if_def)
  then have "cancelAll rt fd m = Ret (True, m')"
    using v v1 ne rt m1(1) m'(2) fd by (simp add: cancelAll_def) (simp add: valid_fd_def)
  then show ?thesis using True m' by auto
qed

lemma real_events_range: "real_events ev \<in> {0, 1, 4, 5}"
  by (auto simp: real_events_def Let_def event_defs)


lemma handle_event_cases:
  fixes m :: "'c iom" and ev :: u32
  assumes inv: "iom_inv m" and v: "valid_fd fd m"
  defines "re \<equiv> real_events ev" and "regs \<equiv> fc_events (ctx_at m fd)"
  shows "regs AND re = 0 \<Longrightarrow> handle_event rt2 fd ev m = Ret m"
    and "rt2 \<noteq> 0 \<Longrightarrow> handle_event rt2 fd ev m = Ret m"
    and "regs AND re \<noteq> 0 \<Longrightarrow> rt2 = 0 \<Longrightarrow> re AND NOT regs \<noteq> 0 \<Longrightarrow> handle_event rt2 fd ev m = Fault AssertFail"
    and "regs AND re \<noteq> 0 \<Longrightarrow> rt2 = 0 \<Longrightarrow> re AND NOT regs = 0 \<Longrightarrow> \<exists>m'. handle_event rt2 fd ev m = Ret m'
      \<and> iom_inv m' \<and> fc_events (ctx_at m' fd) = regs AND NOT re
      \<and> io_scheduled m' = io_scheduled m @ tasks_of re (ctx_at m fd)"
proof -
  note c = inv_parts [OF inv v]
  have fdc: "fc_fd (ctx_at m fd) = fd" using c by simp
  have regs: "regs \<in> {0, 1, 4, 5}" using c by (simp add: ctx_ok_def regs_def)
  have re: "re \<in> {0, 1, 4, 5}" unfolding re_def by (rule real_events_range)
  note he = handle_event_def [of rt2 fd ev m, unfolded with_context_ok [OF v] Let_def fdc, folded re_def regs_def, unfolded NONE_def]
  show "regs AND re = 0 \<Longrightarrow> handle_event rt2 fd ev m = Ret m" by (simp add: he)
  show "rt2 \<noteq> 0 \<Longrightarrow> handle_event rt2 fd ev m = Ret m" by (simp add: he)
  {
    assume a: "regs AND re \<noteq> 0" "rt2 = 0" "re AND NOT regs = 0"
    then have "re \<in> {1, 4, 5}" using re by auto
    from fire_both [OF inv v this] a show "\<exists>m'. handle_event rt2 fd ev m = Ret m'
      \<and> iom_inv m' \<and> fc_events (ctx_at m' fd) = regs AND NOT re
      \<and> io_scheduled m' = io_scheduled m @ tasks_of re (ctx_at m fd)"
      unfolding he by (simp add: regs_def)
  }
  assume a: "regs AND re \<noteq> 0" "rt2 = 0" "re AND NOT regs \<noteq> 0"
  then have five: "re = 5" and one: "regs = 1 \<or> regs = 4" using re regs by auto
  let ?w = "watch fd (regs AND NOT re) m"
  have w: "ctx_inv ?w" "valid_fd fd ?w" using c v by (simp_all add: ctx_inv_frame)
  show "handle_event rt2 fd ev m = Fault AssertFail"
  proof (cases "regs = 1")
    case True
    then have h: "has READ (ctx_at ?w fd)" "\<not> has WRITE (ctx_at m fd)"
      by (auto simp: has_def event_defs regs_def [symmetric])
    obtain m1 where m1: "fire fd READ ?w = Ret m1" "io_contexts m1 = (io_contexts m)[nat fd := disarm READ (ctx_at m fd)]"
      using fire_ok [OF w(1,2) _ h(1)] by (auto simp: watch_def ctx_at_def)
    have at1: "ctx_at m1 fd = disarm READ (ctx_at m fd)" "valid_fd fd m1"
      using m1(2) v by (auto simp: ctx_at_def valid_fd_def)
    have "\<not> has WRITE (ctx_at m1 fd)"
      unfolding at1 has_def using disarm_ok(2) [OF conjunct1 [OF conjunct2 [OF c]], of READ] True
      by (simp add: regs_def [symmetric] event_defs)
    from fire_not_registered [OF at1(2) this] m1(1) a five show ?thesis
      unfolding he fire_if_def event_defs by simp
  next
    case False
    then have h: "\<not> has READ (ctx_at ?w fd)" using one by (auto simp: has_def event_defs regs_def [symmetric])
    from fire_not_registered [OF w(2) h] a five show ?thesis
      unfolding he fire_if_def event_defs by simp
  qed
qed

section \<open>The epoll timeout\<close>

lemma epoll_timeout_small:
  fixes v :: u64
  assumes "v < 2 ^ 31"
  shows "epoll_timeout v = min (int (unat v)) 3000"
proof -
  have "unat v < 2147483648" using assms by (simp add: word_less_nat_alt)
  then have "int (unat v) < 2147483648" by linarith
  then have n: "uint v < 2147483648" by simp
  have u: "uint (ucast v :: u32) = uint v"
    using n by (simp add: unsigned_ucast_eq take_bit_int_eq_self)
  have s: "sint (ucast v :: u32) = uint v"
  proof -
    have "- 2147483648 \<le> uint v" using uint_ge_0 [of v] by linarith
    then show ?thesis unfolding sint_uint u using n by (simp add: signed_take_bit_int_eq_self)
  qed
  have "v \<noteq> NOT 0"
  proof
    assume "v = NOT 0"
    then have "uint v = 18446744073709551615"
      by (simp add: unsigned_minus_1_eq_mask mask_eq_exp_minus_1)
    with n show False by simp
  qed
  then show ?thesis using s by (simp add: epoll_timeout_def Let_def min_def)
qed

section \<open>Properties\<close>

text \<open>C32. The life of a registered event: \<open>addEvent\<close> arms its slot, registers it with epoll and counts
  it; then \<open>cancelEvent\<close> schedules the waiting task exactly once and \<open>delEvent\<close> schedules nothing; after
  either the bit is clear, the counter is back and the invariant (bits, slots, counter and epoll's
  interest list agree) holds.\<close>

theorem event_life_cycle:
  assumes "iom_inv m" and "32 \<le> length (io_contexts m)" and "0 \<le> fd" and "ev \<in> {READ, WRITE}"
    and "cb \<noteq> None \<or> snd cur = EXEC" and "\<not> has ev (ctx_at (iom_grow fd m) fd)"
  shows "\<exists>m1 m2 m3. addEvent 0 (Some s) cur fd ev cb m = Ret (0, m1) \<and> iom_inv m1 \<and> has ev (ctx_at m1 fd)
     \<and> io_scheduled m1 = io_scheduled m
     \<and> cancelEvent 0 fd ev m1 = Ret (True, m2) \<and> iom_inv m2 \<and> \<not> has ev (ctx_at m2 fd)
     \<and> io_scheduled m2 = io_scheduled m @ [(s, case cb of Some f \<Rightarrow> ByCb (Some f) | None \<Rightarrow> ByFiber (Some (fst cur)))]
     \<and> delEvent 0 fd ev m1 = Ret (True, m3) \<and> iom_inv m3 \<and> \<not> has ev (ctx_at m3 fd)
     \<and> io_scheduled m3 = io_scheduled m \<and> io_pending m1 = Suc (io_pending m2) \<and> io_pending m3 = io_pending m2"
proof -
  note g = iom_grow_ok [OF assms(1-3)]
  obtain m1 where m1: "addEvent 0 (Some s) cur fd ev cb m = Ret (0, m1)" "iom_inv m1"
    "ctx_at m1 fd = arm ev s cb (fst cur) (ctx_at (iom_grow fd m) fd)"
    "io_contexts m1 = (io_contexts (iom_grow fd m))[nat fd := ctx_at m1 fd]" "io_scheduled m1 = io_scheduled m"
    using addEvent_ok(3) [OF assms(1-5,6), of 0 s] by blast
  have v: "valid_fd fd m1" using g(2) by (simp add: valid_fd_def m1(4))
  note a = arm_ok [OF _ assms(4,6)]
  have c: "ctx_ok (ctx_at (iom_grow fd m) fd)" using inv_parts [OF g] by blast
  have h: "has ev (ctx_at m1 fd)" unfolding m1(3) by (rule a(4) [OF c])
  have w: "waiting ev (ctx_at m1 fd) = (s, case cb of Some f \<Rightarrow> ByCb (Some f) | None \<Rightarrow> ByFiber (Some (fst cur)))"
    unfolding m1(3) by (rule a(7) [OF c])
  obtain m2 where m2: "cancelEvent 0 fd ev m1 = Ret (True, m2)" "iom_inv m2" "\<not> has ev (ctx_at m2 fd)"
    "io_scheduled m2 = io_scheduled m1 @ [waiting ev (ctx_at m1 fd)]" "io_pending m1 = Suc (io_pending m2)"
    using cancelEvent_ok [OF m1(2) v assms(4) h] by blast
  obtain m3 where m3: "delEvent 0 fd ev m1 = Ret (True, m3)" "iom_inv m3" "\<not> has ev (ctx_at m3 fd)"
    "io_scheduled m3 = io_scheduled m1" "io_pending m1 = Suc (io_pending m3)"
    using delEvent_ok [OF m1(2) v assms(4) h] by blast
  show ?thesis
    by (intro exI [of _ m1] exI [of _ m2] exI [of _ m3]) (use m1(1,2,5) h m2 m3 w in simp)
qed

theorem event_life_cycle_witness:
  "\<exists>m1 m2. addEvent 0 (Some 3) (77, EXEC) 5 READ None (IOManager_new :: string iom) = Ret (0, m1)
     \<and> cancelEvent 0 5 READ m1 = Ret (True, m2) \<and> io_scheduled m2 = [(3, ByFiber (Some 77))]"
proof -
  have l: "32 \<le> length (io_contexts (IOManager_new :: string iom))"
    by (simp add: IOManager_new_def contextResize_def)
  have h: "\<not> has READ (ctx_at (iom_grow 5 (IOManager_new :: string iom)) 5)"
    by (simp add: iom_grow_def IOManager_new_def contextResize_def ctx_at_def has_def fresh_context_def NONE_def)
  show ?thesis
    using event_life_cycle [OF IOManager_new_inv l _ _ _ h, of None "(77, EXEC)" 3]
    by (auto simp: IOManager_new_def contextResize_def)
qed

text \<open>C33. When epoll reports events for a registered descriptor, exactly the waiting tasks of those events
  are scheduled and unregistered, if every reported event is registered. An error or hang-up, which the
  code widens to read and write, on a descriptor with only one of the two registered fails the assertion
  of \<open>triggerEvent\<close>.\<close>

theorem handle_event_exact:
  assumes "iom_inv m" and "valid_fd fd m" and "fc_events (ctx_at m fd) AND real_events ev \<noteq> 0"
  shows "if real_events ev AND NOT (fc_events (ctx_at m fd)) = 0
     then \<exists>m'. handle_event 0 fd ev m = Ret m' \<and> iom_inv m'
            \<and> fc_events (ctx_at m' fd) = fc_events (ctx_at m fd) AND NOT (real_events ev)
            \<and> io_scheduled m' = io_scheduled m @ tasks_of (real_events ev) (ctx_at m fd)
     else handle_event 0 fd ev m = Fault AssertFail"
  using handle_event_cases(3,4) [OF assms(1,2), of ev 0] assms(3) by auto

definition one_reader :: "string iom" where
  "one_reader = (case addEvent 0 (Some 3) (77, EXEC) 5 READ None IOManager_new of Ret (_, m) \<Rightarrow> m | _ \<Rightarrow> IOManager_new)"

theorem handle_event_exact_witness:
  "handle_event 0 5 EPOLLHUP one_reader = Fault AssertFail
   \<and> (\<exists>m'. handle_event 0 5 EPOLLIN one_reader = Ret m' \<and> io_scheduled m' = [(3, ByFiber (Some 77))])"
proof -
  have l: "32 \<le> length (io_contexts (IOManager_new :: string iom))"
    by (simp add: IOManager_new_def contextResize_def)
  have h: "\<not> has READ (ctx_at (iom_grow 5 (IOManager_new :: string iom)) 5)"
    by (simp add: iom_grow_def IOManager_new_def contextResize_def ctx_at_def has_def fresh_context_def NONE_def)
  obtain m1 where "addEvent 0 (Some 3) (77, EXEC) 5 READ None (IOManager_new :: string iom) = Ret (0, m1)"
    and i: "iom_inv m1" using addEvent_ok(3) [OF IOManager_new_inv l _ _ _ h, of None "(77, EXEC)" 0 3] by auto
  then have inv: "iom_inv one_reader" by (simp add: one_reader_def)
  have v: "valid_fd 5 one_reader" "fc_events (ctx_at one_reader 5) = 1" "io_scheduled one_reader = []"
    "tasks_of 1 (ctx_at one_reader 5) = [(3, ByFiber (Some 77))]"
    by code_simp+
  have r: "real_events EPOLLHUP = 5" "real_events EPOLLIN = 1" by code_simp+
  show ?thesis
    using handle_event_exact [OF inv v(1), of EPOLLHUP] handle_event_exact [OF inv v(1), of EPOLLIN]
    unfolding r v(2,3,4) by auto
qed

text \<open>The idle fiber waits in epoll at most until the earliest timer and at most 3 seconds, as long as
  the next timer is less than \<open>2 ^ 31\<close> milliseconds away; at \<open>2 ^ 31\<close> the cast to \<open>int\<close> makes the timeout
  negative, which blocks without limit.\<close>

theorem epoll_timeout_bounded:
  assumes "v < 2 ^ 31 \<or> v = NOT 0"
  shows "epoll_timeout v = (if v = NOT 0 then 3000 else min (int (unat v)) 3000) \<and> epoll_timeout (2 ^ 31) < 0"
proof
  show "epoll_timeout (2 ^ 31) < 0" by code_simp
  show "epoll_timeout v = (if v = NOT 0 then 3000 else min (int (unat v)) 3000)"
  proof (cases "v = NOT 0")
    case True
    moreover have "epoll_timeout (NOT 0) = 3000" by code_simp
    ultimately show ?thesis by simp
  next
    case False
    then show ?thesis using assms epoll_timeout_small by auto
  qed
qed

theorem epoll_timeout_bounded_witness: "epoll_timeout 5000 = 3000 \<and> epoll_timeout 20 = 20"
  using epoll_timeout_bounded [of 5000] epoll_timeout_bounded [of 20] by simp

end
