(* ===== verification/FdManager.thy ===== *)
theory FdManager
  imports Prelude
begin

unbundle bit_operations_syntax

text \<open>
  \<open>radixun/common/fd_manager.{h,cpp}\<close>: what the hook layer knows of each file descriptor.

  \<^item> \<open>fm_datas\<close> is \<open>m_datas\<close> (a null \<open>shared_ptr\<close> is \<open>None\<close>); a context is only reached through it, so
    its setters update it in place;
  \<^item> \<open>fm_flags\<close> is the kernel's file status flags of each descriptor, read and written by \<open>fcntl_f\<close>; the
    outcome of \<open>fstat\<close> (\<open>None\<close> on error, else whether it is a socket) is an argument.
\<close>

definition O_NONBLOCK :: u32 where "O_NONBLOCK = 0x800"
definition SO_RCVTIMEO :: int where "SO_RCVTIMEO = 20"
definition SO_SNDTIMEO :: int where "SO_SNDTIMEO = 21"

record fd_ctx =
  fx_isInit :: bool
  fx_isSocket :: bool
  fx_sysNonblock :: bool
  fx_userNonblock :: bool
  fx_isClosed :: bool
  fx_fd :: int
  fx_recvTimeout :: u64
  fx_sendTimeout :: u64

record fd_manager =
  fm_datas :: "fd_ctx option list"
  fm_flags :: "int \<Rightarrow> u32"

text \<open>The constructor with \<open>init\<close>: the context and the flags \<open>init\<close> leaves on the descriptor.\<close>

definition FdCtx_new :: "int \<Rightarrow> bool option \<Rightarrow> (int \<Rightarrow> u32) \<Rightarrow> fd_ctx \<times> (int \<Rightarrow> u32)" where
  "FdCtx_new fd fstat flags =
     (let is_init = (fstat \<noteq> None); is_socket = (fstat = Some True);
          flags' = (if is_socket \<and> flags fd AND O_NONBLOCK = 0
                    then flags(fd := flags fd OR O_NONBLOCK) else flags)
      in (\<lparr>fx_isInit = is_init, fx_isSocket = is_socket, fx_sysNonblock = is_socket,
           fx_userNonblock = False, fx_isClosed = False, fx_fd = fd,
           fx_recvTimeout = - 1, fx_sendTimeout = - 1\<rparr>, flags'))"

definition setTimeout :: "int \<Rightarrow> u64 \<Rightarrow> fd_ctx \<Rightarrow> fd_ctx" where
  "setTimeout type v c = (if type = SO_RCVTIMEO then c\<lparr>fx_recvTimeout := v\<rparr> else c\<lparr>fx_sendTimeout := v\<rparr>)"

definition getTimeout :: "int \<Rightarrow> fd_ctx \<Rightarrow> u64" where
  "getTimeout type c = (if type = SO_RCVTIMEO then fx_recvTimeout c else fx_sendTimeout c)"

definition setUserNonblock :: "bool \<Rightarrow> fd_ctx \<Rightarrow> fd_ctx" where
  "setUserNonblock v c = c\<lparr>fx_userNonblock := v\<rparr>"

definition FdManager_new :: "(int \<Rightarrow> u32) \<Rightarrow> fd_manager" where
  "FdManager_new flags = \<lparr>fm_datas = replicate 64 None, fm_flags = flags\<rparr>"

text \<open>\<open>m_datas.resize(n)\<close> and \<open>m_datas[fd] = c\<close>.\<close>

definition resize_datas :: "nat \<Rightarrow> fd_ctx option list \<Rightarrow> fd_ctx option list" where
  "resize_datas n xs = take n xs @ replicate (n - length xs) None"

definition fdm_get :: "bool option \<Rightarrow> int \<Rightarrow> bool \<Rightarrow> fd_manager \<Rightarrow> (fd_ctx option \<times> fd_manager) outcome" where
  "fdm_get fstat fd auto_create m =
     (if fd = - 1 then Ret (None, m)
      else if int (length (fm_datas m)) \<le> fd \<and> \<not> auto_create then Ret (None, m)
      else if \<not> int (length (fm_datas m)) \<le> fd \<and> fd < 0 then Fault OutOfBounds
      else if \<not> int (length (fm_datas m)) \<le> fd \<and> (fm_datas m ! nat fd \<noteq> None \<or> \<not> auto_create)
        then Ret (fm_datas m ! nat fd, m)
      else let (ctx, flags) = FdCtx_new fd fstat (fm_flags m);
               datas = (if fd \<ge> int (length (fm_datas m)) then resize_datas (nat (fd * 3 div 2)) (fm_datas m)
                        else fm_datas m)
           in if nat fd < length datas
              then Ret (Some ctx, m\<lparr>fm_datas := datas[nat fd := Some ctx], fm_flags := flags\<rparr>)
              else Fault OutOfBounds)"

definition fdm_del :: "int \<Rightarrow> fd_manager \<Rightarrow> fd_manager outcome" where
  "fdm_del fd m =
     (if int (length (fm_datas m)) \<le> fd then Ret m
      else if fd < 0 then Fault OutOfBounds
      else Ret (m\<lparr>fm_datas := (fm_datas m)[nat fd := None]\<rparr>))"

definition fdm_put :: "int \<Rightarrow> fd_ctx \<Rightarrow> fd_manager \<Rightarrow> fd_manager" where
  "fdm_put fd c m = m\<lparr>fm_datas := (fm_datas m)[nat fd := Some c]\<rparr>"

definition fdm_at :: "fd_manager \<Rightarrow> int \<Rightarrow> fd_ctx option" where
  "fdm_at m fd = (if 0 \<le> fd \<and> fd < int (length (fm_datas m)) then fm_datas m ! nat fd else None)"

section \<open>The invariant\<close>

text \<open>
  A context belongs to its descriptor; only sockets are system-nonblocking, and the kernel has each of
  those in non-blocking mode, which is what lets a hooked call give up the thread instead of blocking it.
\<close>

definition ctx_consistent :: "(int \<Rightarrow> u32) \<Rightarrow> int \<Rightarrow> fd_ctx \<Rightarrow> bool" where
  "ctx_consistent flags fd c \<longleftrightarrow> fx_fd c = fd \<and> fx_sysNonblock c = fx_isSocket c
     \<and> (fx_sysNonblock c \<longrightarrow> flags fd AND O_NONBLOCK \<noteq> 0)"

definition fdm_inv :: "fd_manager \<Rightarrow> bool" where
  "fdm_inv m \<longleftrightarrow> 64 \<le> length (fm_datas m)
     \<and> (\<forall>fd c. fdm_at m fd = Some c \<longrightarrow> ctx_consistent (fm_flags m) fd c)"

lemma or_and_absorb: "(x OR y) AND y = (y :: 'a::len word)"
  by (rule bit_word_eqI) (auto simp: bit_simps)

lemma O_NONBLOCK_nonzero [simp]: "(x OR O_NONBLOCK) AND O_NONBLOCK \<noteq> 0" "O_NONBLOCK \<noteq> 0"
  unfolding or_and_absorb by (simp_all add: O_NONBLOCK_def)

lemma FdManager_new_inv: "fdm_inv (FdManager_new flags)"
  by (auto simp: fdm_inv_def FdManager_new_def fdm_at_def split: if_splits)

lemma FdCtx_new_consistent:
  "FdCtx_new fd fstat flags = (c, flags') \<Longrightarrow> ctx_consistent flags' fd c
     \<and> (\<forall>x. flags x AND O_NONBLOCK \<noteq> 0 \<longrightarrow> flags' x AND O_NONBLOCK \<noteq> 0)"
  by (auto simp: FdCtx_new_def Let_def ctx_consistent_def split: if_splits)

lemma fdm_at_put: "fdm_at m fd \<noteq> None \<Longrightarrow> fdm_at (fdm_put fd c m) x = (if x = fd then Some c else fdm_at m x)"
  by (auto simp: fdm_at_def fdm_put_def nat_eq_iff split: if_splits)

text \<open>Looking up: what is there, or a new consistent context; never a fault for a non-negative descriptor.\<close>

lemma fdm_get_ok:
  assumes inv: "fdm_inv m" and fd: "- 1 \<le> fd"
  shows "\<exists>r m'. fdm_get fstat fd auto_create m = Ret (r, m') \<and> fdm_inv m' \<and> r = fdm_at m' fd
     \<and> (auto_create \<and> fd \<noteq> - 1 \<longrightarrow> r \<noteq> None) \<and> (\<not> auto_create \<longrightarrow> m' = m)
     \<and> (\<forall>x. x \<noteq> fd \<longrightarrow> fdm_at m' x = fdm_at m x)"
proof (cases "fd = - 1 \<or> fdm_at m fd \<noteq> None \<or> \<not> auto_create")
  case True
  then have "fdm_get fstat fd auto_create m = Ret (fdm_at m fd, m)"
    using fd by (auto simp: fdm_get_def fdm_at_def split: if_splits)
  with True inv show ?thesis by auto
next
  case False
  then have fd0: "0 \<le> fd" and none: "fdm_at m fd = None" and auto: "auto_create" "fd \<noteq> - 1" using fd by auto
  obtain ctx flags where new: "FdCtx_new fd fstat (fm_flags m) = (ctx, flags)" by fastforce
  let ?datas = "if fd \<ge> int (length (fm_datas m)) then resize_datas (nat (fd * 3 div 2)) (fm_datas m) else fm_datas m"
  let ?m' = "m\<lparr>fm_datas := ?datas[nat fd := Some ctx], fm_flags := flags\<rparr>"
  have l64: "64 \<le> length (fm_datas m)" using inv by (simp add: fdm_inv_def)
  have len: "nat fd < length ?datas" "64 \<le> length ?datas"
    using fd0 l64 by (auto simp: resize_datas_def)
  have get: "fdm_get fstat fd auto_create m = Ret (Some ctx, ?m')"
    using auto none fd0 len(1) new by (auto simp: fdm_get_def fdm_at_def Let_def split: if_splits)
  have same: "fdm_at ?m' x = fdm_at m x" if "x \<noteq> fd" for x
  proof (cases "0 \<le> x \<and> x < int (length ?datas)")
    case False
    then show ?thesis using l64 fd0 by (auto simp: fdm_at_def resize_datas_def)
  next
    case True
    then have "nat x \<noteq> nat fd" using that fd0 by auto
    moreover have "?datas ! nat x = (if x < int (length (fm_datas m)) then fm_datas m ! nat x else None)"
      using True fd0 by (auto simp: resize_datas_def nth_append)
    ultimately show ?thesis using True by (simp add: fdm_at_def)
  qed
  have here: "fdm_at ?m' fd = Some ctx" using fd0 len(1) by (simp add: fdm_at_def)
  note nc = FdCtx_new_consistent [OF new]
  have "ctx_consistent flags x c" if "fdm_at ?m' x = Some c" for x c
  proof (cases "x = fd")
    case True
    then show ?thesis using that here nc by simp
  next
    case False
    then show ?thesis using that same inv nc by (auto simp: fdm_inv_def ctx_consistent_def)
  qed
  then have "fdm_inv ?m'" using len(2) by (simp add: fdm_inv_def)
  with get here same auto show ?thesis by (intro exI [of _ "Some ctx"] exI [of _ ?m']) auto
qed

lemma fdm_at_flags [simp]: "fdm_at (m\<lparr>fm_flags := flags\<rparr>) x = fdm_at m x"
  by (simp add: fdm_at_def)

lemma fdm_put_inv:
  assumes "fdm_inv m" "fdm_at m fd \<noteq> None" "ctx_consistent flags fd c"
    "\<And>x. x \<noteq> fd \<Longrightarrow> flags x = fm_flags m x"
  shows "fdm_inv ((fdm_put fd c m)\<lparr>fm_flags := flags\<rparr>)"
proof -
  have "fdm_at ((fdm_put fd c m)\<lparr>fm_flags := flags\<rparr>) x = (if x = fd then Some c else fdm_at m x)" for x
    using fdm_at_put [OF assms(2), of c x] by simp
  moreover have "length (fm_datas (fdm_put fd c m)) = length (fm_datas m)" by (simp add: fdm_put_def)
  moreover have "ctx_consistent flags x d" if "x \<noteq> fd" "fdm_at m x = Some d" for x d
    using assms(1,4) that by (auto simp: fdm_inv_def ctx_consistent_def)
  ultimately show ?thesis using assms(1,3) by (auto simp: fdm_inv_def split: if_splits)
qed

lemma fdm_del_inv: "fdm_inv m \<Longrightarrow> 0 \<le> fd \<Longrightarrow> \<exists>m'. fdm_del fd m = Ret m' \<and> fdm_inv m' \<and> fdm_at m' fd = None"
  by (auto simp: fdm_del_def fdm_inv_def fdm_at_def nth_list_update split: if_splits)

end
