(* ===== verification/Hook.thy ===== *)
theory Hook
  imports FdManager IOManager "HOL-Library.Signed_Division"
begin

unbundle bit_operations_syntax

text \<open>
  \<open>radixun/common/hook.cpp\<close>: the system calls the library replaces, so that a blocking call of a fiber
  gives up the thread.

  The kernel is a script: \<open>attempts\<close> are the successive results \<open>(n, errno)\<close> of the original function,
  \<open>waits\<close> what happens each time the call has to wait (\<open>AddFails\<close>: \<open>addEvent\<close> returned non-zero, with
  the \<open>errno\<close> it left; \<open>Woken c\<close>: the fiber was resumed and \<open>tinfo->cancelled\<close> was \<open>c\<close>). The result is
  the returned value with \<open>errno\<close>, and the log of what the call did; \<open>None\<close> says that the script ended
  while the call was still waiting or retrying. \<open>has_iom\<close> says whether the thread runs in an \<open>IOManager\<close>:
  without one \<open>IOManager::GetThis()\<close> is null, and a call that has to wait dereferences it. \<open>close\<close> acts on
  the \<open>IOManager\<close> itself, its argument \<open>this\<close>; \<open>rt\<close> is the result of its \<open>epoll_ctl\<close>.
\<close>

definition EINTR :: int where "EINTR = 4"
definition EBADF :: int where "EBADF = 9"
definition EAGAIN :: int where "EAGAIN = 11"
definition ETIMEDOUT :: int where "ETIMEDOUT = 110"
definition EINPROGRESS :: int where "EINPROGRESS = 115"

type_synonym sys_result = "int \<times> int"

datatype wait = AddFails int | Woken int

datatype act = Call | AddTimer u64 | AddEvent | Yield | CancelTimer | GetSockOpt

section \<open>\<open>do_io\<close>\<close>

definition timer_set :: "u64 \<Rightarrow> act list" where
  "timer_set to = (if to \<noteq> NOT 0 then [AddTimer to] else [])"

definition timer_end :: "u64 \<Rightarrow> act list" where
  "timer_end to = (if to \<noteq> NOT 0 then [CancelTimer] else [])"

fun do_io_loop :: "bool \<Rightarrow> u64 \<Rightarrow> sys_result list \<Rightarrow> wait list \<Rightarrow> (sys_result \<times> act list) outcome option" where
  "do_io_loop has_iom to [] waits = None"
| "do_io_loop has_iom to ((n, errno) # attempts) waits =
     (if n = - 1 \<and> errno = EINTR then
        map_option (\<lambda>m. obind m (\<lambda>(r, acts). Ret (r, Call # acts))) (do_io_loop has_iom to attempts waits)
      else if n = - 1 \<and> errno = EAGAIN then
        (if \<not> has_iom then Some (Fault NullDeref)
         else case waits of
           [] \<Rightarrow> None
         | AddFails e # _ \<Rightarrow> Some (Ret ((- 1, e), [Call] @ timer_set to @ [AddEvent] @ timer_end to))
         | Woken cancelled # waits' \<Rightarrow>
             (let acts = [Call] @ timer_set to @ [AddEvent, Yield] @ timer_end to
              in if cancelled \<noteq> 0 then Some (Ret ((- 1, cancelled), acts))
                 else map_option (\<lambda>m. obind m (\<lambda>(r, more). Ret (r, acts @ more)))
                        (do_io_loop has_iom to attempts waits')))
      else Some (Ret ((n, errno), [Call])))"

definition do_io :: "bool \<Rightarrow> bool \<Rightarrow> fd_ctx option \<Rightarrow> int \<Rightarrow> sys_result list \<Rightarrow> wait list
    \<Rightarrow> (sys_result \<times> act list) outcome option" where
  "do_io hook_enable has_iom ctx timeout_so attempts waits =
     (let direct = (case attempts of [] \<Rightarrow> None | r # _ \<Rightarrow> Some (Ret (r, [Call])))
      in if \<not> hook_enable then direct
         else (case ctx of
                 None \<Rightarrow> direct
               | Some c \<Rightarrow>
                   if fx_isClosed c then Some (Ret ((- 1, EBADF), []))
                   else if \<not> fx_isSocket c \<or> fx_userNonblock c then direct
                   else do_io_loop has_iom (getTimeout timeout_so c) attempts waits))"

text \<open>The replaced calls: the event each waits for and the timeout it uses.\<close>

datatype io_call =
    Accept | Read | Readv | Recv | Recvfrom | Recvmsg | Write | Writev | Send | Sendto | Sendmsg

fun waits_to_write :: "io_call \<Rightarrow> bool" where
  "waits_to_write Accept = False"
| "waits_to_write Read = False"
| "waits_to_write Readv = False"
| "waits_to_write Recv = False"
| "waits_to_write Recvfrom = False"
| "waits_to_write Recvmsg = False"
| "waits_to_write Write = True"
| "waits_to_write Writev = True"
| "waits_to_write Send = True"
| "waits_to_write Sendto = True"
| "waits_to_write Sendmsg = True"

definition io_timeout_so :: "io_call \<Rightarrow> int" where
  "io_timeout_so c = (if waits_to_write c then SO_SNDTIMEO else SO_RCVTIMEO)"

definition hooked_io :: "bool \<Rightarrow> bool \<Rightarrow> fd_ctx option \<Rightarrow> io_call \<Rightarrow> sys_result list \<Rightarrow> wait list
    \<Rightarrow> (sys_result \<times> act list) outcome option" where
  "hooked_io hook_enable has_iom ctx c attempts waits =
     do_io hook_enable has_iom ctx (io_timeout_so c) attempts waits"

text \<open>\<open>accept\<close> registers the new descriptor; \<open>socket\<close> too.\<close>

definition hooked_accept :: "bool \<Rightarrow> bool \<Rightarrow> fd_ctx option \<Rightarrow> sys_result list \<Rightarrow> wait list \<Rightarrow> bool option
    \<Rightarrow> fd_manager \<Rightarrow> (sys_result \<times> fd_manager) outcome option" where
  "hooked_accept hook_enable has_iom ctx attempts waits fstat m =
     map_option (\<lambda>r. obind r (\<lambda>((fd, e), _).
       if fd \<ge> 0 then obind (fdm_get fstat fd True m) (\<lambda>(_, m1). Ret ((fd, e), m1)) else Ret ((fd, e), m)))
       (hooked_io hook_enable has_iom ctx Accept attempts waits)"

definition hooked_socket :: "bool \<Rightarrow> int \<Rightarrow> bool option \<Rightarrow> fd_manager \<Rightarrow> (int \<times> fd_manager) outcome" where
  "hooked_socket hook_enable fd fstat m =
     (if \<not> hook_enable \<or> fd = - 1 then Ret (fd, m)
      else obind (fdm_get fstat fd True m) (\<lambda>(_, m1). Ret (fd, m1)))"

section \<open>Sleeping and connecting\<close>

text \<open>The delay in milliseconds of the timer that wakes the fiber.\<close>

definition sleep_ms :: "u32 \<Rightarrow> u64" where
  "sleep_ms seconds = ucast (seconds * 1000)"

definition usleep_ms :: "u32 \<Rightarrow> u64" where
  "usleep_ms usec = ucast (usec div 1000)"

definition nanosleep_ms :: "u64 \<Rightarrow> u64 \<Rightarrow> u64" where
  "nanosleep_ms tv_sec tv_nsec =
     scast (ucast (tv_sec * 1000 + (tv_nsec div 1000) div 1000) :: u32)"

text \<open>
  \<open>connect_with_timeout\<close>: \<open>first\<close> is the result of the original \<open>connect\<close>, \<open>w\<close> what the wait ended with,
  \<open>sockopt\<close> the result of \<open>getsockopt\<close> and the socket error it reported.
\<close>

definition connect_with_timeout :: "bool \<Rightarrow> bool \<Rightarrow> fd_ctx option \<Rightarrow> u64 \<Rightarrow> sys_result \<Rightarrow> wait \<Rightarrow> sys_result \<times> int
    \<Rightarrow> (sys_result \<times> act list) outcome" where
  "connect_with_timeout hook_enable has_iom ctx timeout_ms first w sockopt =
     (let finish = (\<lambda>acts. Ret ((if fst (fst sockopt) = - 1 then (- 1, snd (fst sockopt))
                          else if snd sockopt = 0 then (0, snd (fst sockopt)) else (- 1, snd sockopt)),
                         acts @ [GetSockOpt]))
      in if \<not> hook_enable then Ret (first, [Call])
         else (case ctx of
                 None \<Rightarrow> Ret ((- 1, EBADF), [])
               | Some c \<Rightarrow>
                   if fx_isClosed c then Ret ((- 1, EBADF), [])
                   else if \<not> fx_isSocket c then Ret (first, [Call])
                   else if fx_userNonblock c then Ret (first, [Call])
                   else if fst first = 0 then Ret (first, [Call])
                   else if fst first \<noteq> - 1 \<or> snd first \<noteq> EINPROGRESS then Ret (first, [Call])
                   else if \<not> has_iom then Fault NullDeref
                   else (case w of
                           Woken cancelled \<Rightarrow>
                             let acts = [Call] @ timer_set timeout_ms @ [AddEvent, Yield] @ timer_end timeout_ms
                             in if cancelled \<noteq> 0 then Ret ((- 1, cancelled), acts) else finish acts
                         | AddFails _ \<Rightarrow>
                             finish ([Call] @ timer_set timeout_ms @ [AddEvent] @ timer_end timeout_ms))))"

section \<open>Descriptor options\<close>

definition hook_close :: "int \<Rightarrow> int \<Rightarrow> fd_manager \<Rightarrow> 'c iom option \<Rightarrow> (fd_manager \<times> 'c iom option) outcome" where
  "hook_close rt fd m this = obind (fdm_get None fd False m) (\<lambda>(ctx, m1).
     case ctx of
       None \<Rightarrow> Ret (m1, this)
     | Some _ \<Rightarrow>
         obind (case this of
                  None \<Rightarrow> Ret None
                | Some iom \<Rightarrow> obind (cancelAll rt fd iom) (\<lambda>(_, iom1). Ret (Some iom1))) (\<lambda>this1.
         obind (fdm_del fd m1) (\<lambda>m2. Ret (m2, this1))))"

definition managed :: "fd_ctx option \<Rightarrow> bool" where
  "managed ctx \<longleftrightarrow> (case ctx of None \<Rightarrow> False | Some c \<Rightarrow> \<not> fx_isClosed c \<and> fx_isSocket c)"

text \<open>\<open>fcntl(fd, F_SETFL, arg)\<close> and \<open>fcntl(fd, F_GETFL)\<close>; the other commands are passed on unchanged.\<close>

definition fcntl_setfl :: "int \<Rightarrow> u32 \<Rightarrow> fd_manager \<Rightarrow> fd_manager outcome" where
  "fcntl_setfl fd arg m = obind (fdm_get None fd False m) (\<lambda>(ctx, m1).
     if \<not> managed ctx then Ret (m1\<lparr>fm_flags := (fm_flags m1)(fd := arg)\<rparr>)
     else let c = setUserNonblock (arg AND O_NONBLOCK \<noteq> 0) (the ctx);
              arg' = (if fx_sysNonblock c then arg OR O_NONBLOCK else arg AND NOT O_NONBLOCK)
          in Ret ((fdm_put fd c m1)\<lparr>fm_flags := (fm_flags m1)(fd := arg')\<rparr>))"

definition fcntl_getfl :: "int \<Rightarrow> fd_manager \<Rightarrow> u32 outcome" where
  "fcntl_getfl fd m = obind (fdm_get None fd False m) (\<lambda>(ctx, m1).
     let arg = fm_flags m1 fd
     in Ret (if \<not> managed ctx then arg
             else if fx_userNonblock (the ctx) then arg OR O_NONBLOCK
             else arg AND NOT O_NONBLOCK))"

text \<open>\<open>ioctl(d, FIONBIO, &nb)\<close>: the user's wish is recorded, and the call is passed on as it came.\<close>

definition ioctl_fionbio :: "int \<Rightarrow> bool \<Rightarrow> fd_manager \<Rightarrow> fd_manager outcome" where
  "ioctl_fionbio d nb m = obind (fdm_get None d False m) (\<lambda>(ctx, m1).
     let flags = (fm_flags m1)(d := (if nb then fm_flags m1 d OR O_NONBLOCK else fm_flags m1 d AND NOT O_NONBLOCK))
     in if \<not> managed ctx then Ret (m1\<lparr>fm_flags := flags\<rparr>)
        else Ret ((fdm_put d (setUserNonblock nb (the ctx)) m1)\<lparr>fm_flags := flags\<rparr>))"

text \<open>\<open>setsockopt\<close> of the two timeout options at level \<open>SOL_SOCKET\<close>.\<close>

definition timeval_ms :: "u64 \<Rightarrow> u64 \<Rightarrow> u64" where
  "timeval_ms tv_sec tv_usec = tv_sec * 1000 + word_of_int (sint tv_usec sdiv 1000)"

definition setsockopt_timeo :: "bool \<Rightarrow> int \<Rightarrow> int \<Rightarrow> u64 \<Rightarrow> u64 \<Rightarrow> fd_manager \<Rightarrow> fd_manager outcome" where
  "setsockopt_timeo hook_enable fd optname tv_sec tv_usec m =
     (if \<not> hook_enable \<or> optname \<notin> {SO_RCVTIMEO, SO_SNDTIMEO} then Ret m
      else obind (fdm_get None fd False m) (\<lambda>(ctx, m1).
        case ctx of None \<Rightarrow> Ret m1
        | Some c \<Rightarrow> Ret (fdm_put fd (setTimeout optname (timeval_ms tv_sec tv_usec) c) m1)))"


section \<open>How \<open>do_io\<close> ends\<close>

definition transient :: "sys_result \<Rightarrow> bool" where
  "transient r \<longleftrightarrow> fst r = - 1 \<and> (snd r = EINTR \<or> snd r = EAGAIN)"

definition would_block :: "sys_result \<Rightarrow> bool" where
  "would_block r \<longleftrightarrow> fst r = - 1 \<and> snd r = EAGAIN"

definition count_act :: "(act \<Rightarrow> bool) \<Rightarrow> act list \<Rightarrow> nat" where
  "count_act P acts = length (filter P acts)"

fun is_AddTimer :: "act \<Rightarrow> bool" where
  "is_AddTimer (AddTimer _) = True"
| "is_AddTimer _ = False"

lemma count_act_simps [simp]:
  "count_act P [] = 0"
  "count_act P (a # acts) = (if P a then 1 else 0) + count_act P acts"
  "count_act P (xs @ ys) = count_act P xs + count_act P ys"
  by (simp_all add: count_act_def)

lemma EINTR_EAGAIN: "EINTR \<noteq> EAGAIN"
  by (simp add: EINTR_def EAGAIN_def)

lemma do_io_loop_timers:
  "do_io_loop has_iom to attempts waits = Some (Ret (r, acts)) \<Longrightarrow>
     count_act is_AddTimer acts = count_act ((=) CancelTimer) acts"
proof (induction has_iom to attempts waits arbitrary: r acts rule: do_io_loop.induct)
  case (2 has_iom to n errno attempts waits)
  then show ?case
    by (auto simp: obind_Ret_iff timer_set_def timer_end_def Let_def split: if_splits list.splits wait.splits)
qed simp

lemma do_io_loop_result:
  "do_io_loop has_iom to attempts waits = Some (Ret (r, acts)) \<Longrightarrow>
     (r \<in> set attempts \<and> \<not> transient r)
     \<or> (\<exists>e. AddFails e \<in> set waits \<and> r = (- 1, e)) \<or> (\<exists>c. c \<noteq> 0 \<and> Woken c \<in> set waits \<and> r = (- 1, c))"
proof (induction has_iom to attempts waits arbitrary: r acts rule: do_io_loop.induct)
  case (2 has_iom to n errno attempts waits)
  then show ?case
    by (auto simp: obind_Ret_iff transient_def Let_def split: if_splits list.splits wait.splits)
qed simp

lemma do_io_loop_completes:
  assumes "\<forall>p\<in>set pre. transient p" "\<not> transient r" "length (filter would_block pre) \<le> length waits"
    "\<forall>w\<in>set waits. w = Woken 0"
  shows "\<exists>acts. do_io_loop True to (pre @ [r]) waits = Some (Ret (r, acts))
     \<and> count_act ((=) Call) acts = Suc (length pre) \<and> count_act ((=) Yield) acts = length (filter would_block pre)
     \<and> do_io_loop False to (pre @ [r]) waits =
         Some (if \<exists>p\<in>set pre. would_block p then Fault NullDeref else Ret (r, acts))"
  using assms
proof (induction pre arbitrary: waits)
  case Nil
  then show ?case by (cases r) (auto simp: transient_def)
next
  case (Cons p pre)
  obtain n e where p: "p = (n, e)" by fastforce
  have tp: "n = - 1" "e = EINTR \<or> e = EAGAIN" using Cons.prems(1) by (auto simp: p transient_def)
  show ?case
  proof (cases "e = EINTR")
    case True
    then have nb: "\<not> would_block p" using EINTR_EAGAIN by (simp add: p would_block_def)
    obtain acts where "do_io_loop True to (pre @ [r]) waits = Some (Ret (r, acts))"
      "count_act ((=) Call) acts = Suc (length pre)" "count_act ((=) Yield) acts = length (filter would_block pre)"
      "do_io_loop False to (pre @ [r]) waits = Some (if \<exists>p\<in>set pre. would_block p then Fault NullDeref else Ret (r, acts))"
      using Cons.IH [of waits] Cons.prems nb by auto
    then show ?thesis using True tp nb by (simp add: p)
  next
    case False
    then have e: "e = EAGAIN" and wb: "would_block p" using tp by (auto simp: p would_block_def)
    from Cons.prems(3) wb obtain w ws where ws: "waits = w # ws" by (cases waits) auto
    have w: "w = Woken 0" using Cons.prems(4) ws by simp
    obtain acts where "do_io_loop True to (pre @ [r]) ws = Some (Ret (r, acts))"
      "count_act ((=) Call) acts = Suc (length pre)" "count_act ((=) Yield) acts = length (filter would_block pre)"
      using Cons.IH [of ws] Cons.prems wb ws by auto
    then show ?thesis using False e tp wb by (simp add: p ws w timer_set_def timer_end_def)
  qed
qed

section \<open>The two views of non-blocking mode\<close>

lemma managed_Some: "managed ctx \<Longrightarrow> \<exists>c. ctx = Some c \<and> \<not> fx_isClosed c \<and> fx_isSocket c"
  by (auto simp: managed_def split: option.splits)

lemma get_existing:
  assumes "fdm_inv m" "fdm_at m fd = Some c"
  shows "fdm_get fstat fd auto_create m = Ret (Some c, m)"
  using assms by (auto simp: fdm_get_def fdm_at_def split: if_splits)

lemma nonblock_mask:
  "(x OR O_NONBLOCK) AND NOT O_NONBLOCK = x AND NOT O_NONBLOCK"
  "x AND O_NONBLOCK \<noteq> 0 \<Longrightarrow> x OR O_NONBLOCK = x"
  "x AND O_NONBLOCK = 0 \<Longrightarrow> x AND NOT O_NONBLOCK = x"
proof -
  have e2: "O_NONBLOCK = 2 ^ 11" by (simp add: O_NONBLOCK_def)
  have e: "bit O_NONBLOCK n \<longleftrightarrow> n = 11" for n
    unfolding e2 by (simp only: bit_exp_iff) auto
  show "(x OR O_NONBLOCK) AND NOT O_NONBLOCK = x AND NOT O_NONBLOCK"
    by (rule bit_word_eqI) (auto simp: bit_simps)
  have b: "x AND O_NONBLOCK \<noteq> 0 \<longleftrightarrow> bit x 11"
    unfolding e2 and_exp_eq_0_iff_not_bit by simp
  show "x AND O_NONBLOCK \<noteq> 0 \<Longrightarrow> x OR O_NONBLOCK = x"
    unfolding b by (rule bit_word_eqI) (auto simp: e bit_simps)
  show "x AND O_NONBLOCK = 0 \<Longrightarrow> x AND NOT O_NONBLOCK = x"
    using b by (intro bit_word_eqI) (auto simp: e bit_simps)
qed

lemma fcntl_setfl_ok:
  assumes inv: "fdm_inv m" and at: "fdm_at m fd = Some c" and man: "managed (Some c)"
  shows "\<exists>m'. fcntl_setfl fd arg m = Ret m' \<and> fdm_inv m' \<and> fcntl_getfl fd m' = Ret arg
     \<and> fm_flags m' fd AND O_NONBLOCK \<noteq> 0"
proof -
  have cc: "ctx_consistent (fm_flags m) fd c" using inv at by (simp add: fdm_inv_def)
  have s: "fx_isSocket c" "\<not> fx_isClosed c" using man by (simp_all add: managed_def)
  have sys: "fx_sysNonblock c" using cc s by (simp add: ctx_consistent_def)
  let ?c = "setUserNonblock (arg AND O_NONBLOCK \<noteq> 0) c"
  let ?flags = "(fm_flags m)(fd := arg OR O_NONBLOCK)"
  let ?m' = "(fdm_put fd ?c m)\<lparr>fm_flags := ?flags\<rparr>"
  have set: "fcntl_setfl fd arg m = Ret ?m'"
    using get_existing [OF inv at] man sys by (simp add: fcntl_setfl_def setUserNonblock_def Let_def)
  have inv': "fdm_inv ?m'"
    by (rule fdm_put_inv [OF inv]) (use at cc in \<open>auto simp: ctx_consistent_def setUserNonblock_def\<close>)
  have at': "fdm_at ?m' fd = Some ?c" using fdm_at_put [of m fd ?c fd] at by simp
  have man': "managed (Some ?c)" using s by (simp add: managed_def setUserNonblock_def)
  have "fcntl_getfl fd ?m' = Ret arg"
    using get_existing [OF inv' at'] man' nonblock_mask(1) [of arg] nonblock_mask(2,3) [of arg]
    by (auto simp: fcntl_getfl_def Let_def setUserNonblock_def or.assoc)
  with set inv' show ?thesis by (intro exI [of _ ?m']) simp
qed

section \<open>Properties\<close>

text \<open>C34. A hooked call on a blocking-mode socket retries through every interruption and would-block
  result: when the waits end in events, it returns the first definite result of the original function,
  after exactly one call per attempt and one yield per would-block result. This is a call on a thread that
  runs in an \<open>IOManager\<close>; on any other thread the first would-block result dereferences a null pointer, and
  a call without one behaves the same.\<close>

theorem do_io_first_definite_result:
  assumes "fx_isSocket c" and "\<not> fx_isClosed c" and "\<not> fx_userNonblock c"
    and "\<forall>p\<in>set pre. transient p" and "\<not> transient r"
    and "length (filter would_block pre) \<le> length waits" and "\<forall>w\<in>set waits. w = Woken 0"
  shows "\<exists>acts. hooked_io True True (Some c) k (pre @ [r]) waits = Some (Ret (r, acts))
     \<and> count_act ((=) Call) acts = Suc (length pre) \<and> count_act ((=) Yield) acts = length (filter would_block pre)
     \<and> hooked_io True False (Some c) k (pre @ [r]) waits =
         Some (if \<exists>p\<in>set pre. would_block p then Fault NullDeref else Ret (r, acts))"
  using do_io_loop_completes [OF assms(4-7)] assms(1-3) by (simp add: hooked_io_def do_io_def)

definition demo_ctx :: fd_ctx where
  "demo_ctx = fst (FdCtx_new 7 (Some True) (\<lambda>_. 0))"

theorem do_io_first_definite_result_witness:
  "\<exists>acts. hooked_io True True (Some demo_ctx) Read [(- 1, EINTR), (- 1, EAGAIN), (5, 0)] [Woken 0] = Some (Ret ((5, 0), acts))
     \<and> count_act ((=) Yield) acts = 1"
proof -
  have c: "fx_isSocket demo_ctx" "\<not> fx_isClosed demo_ctx" "\<not> fx_userNonblock demo_ctx"
    by (simp_all add: demo_ctx_def FdCtx_new_def Let_def)
  have t: "\<forall>p\<in>set [(- 1, EINTR), (- 1, EAGAIN)]. transient p" "\<not> transient (5, 0)"
    "length (filter would_block [(- 1, EINTR), (- 1, EAGAIN)]) = 1"
    by (auto simp: transient_def would_block_def EINTR_def EAGAIN_def)
  have w: "length (filter would_block [(- 1, EINTR), (- 1, EAGAIN)]) \<le> length [Woken 0]" "\<forall>w\<in>set [Woken 0]. w = Woken 0"
    unfolding t(3) by simp_all
  have "\<exists>acts. hooked_io True True (Some demo_ctx) Read ([(- 1, EINTR), (- 1, EAGAIN)] @ [(5, 0)]) [Woken 0] = Some (Ret ((5, 0), acts))
     \<and> count_act ((=) Call) acts = Suc (length [(- 1 :: int, EINTR), (- 1, EAGAIN)]) \<and> count_act ((=) Yield) acts = 1"
    using do_io_first_definite_result [OF c t(1,2) w, of Read] unfolding t(3) by blast
  then show ?thesis by auto
qed

text \<open>However a hooked call ends, it has cancelled every timer it set, and its result is a definite
  result of the original function, the failure of \<open>addEvent\<close>, or the error that cancelled the wait
  (\<open>ETIMEDOUT\<close>).\<close>

theorem do_io_timers_cancelled:
  assumes "do_io_loop has_iom to attempts waits = Some (Ret (r, acts))"
  shows "count_act is_AddTimer acts = count_act ((=) CancelTimer) acts
     \<and> ((r \<in> set attempts \<and> \<not> transient r)
        \<or> (\<exists>e. AddFails e \<in> set waits \<and> r = (- 1, e)) \<or> (\<exists>c. c \<noteq> 0 \<and> Woken c \<in> set waits \<and> r = (- 1, c)))"
  using do_io_loop_timers [OF assms] do_io_loop_result [OF assms] by blast

theorem do_io_timers_cancelled_witness:
  "\<exists>acts. do_io_loop True 500 [(- 1, EAGAIN)] [Woken ETIMEDOUT] = Some (Ret ((- 1, ETIMEDOUT), acts))
     \<and> count_act is_AddTimer acts = count_act ((=) CancelTimer) acts"
proof -
  have "do_io_loop True 500 [(- 1, EAGAIN)] [Woken ETIMEDOUT]
      = Some (Ret ((- 1, ETIMEDOUT), [Call] @ timer_set 500 @ [AddEvent, Yield] @ timer_end 500))"
    by (simp add: EAGAIN_def EINTR_def ETIMEDOUT_def)
  from do_io_timers_cancelled [OF this] this show ?thesis by blast
qed

text \<open>For a managed socket the user's view of the file flags is transparent: what \<open>fcntl(F_SETFL)\<close>
  sets is what \<open>fcntl(F_GETFL)\<close> then reports, while the kernel's flags keep \<open>O_NONBLOCK\<close> in any case.\<close>

theorem fcntl_transparent:
  assumes "fdm_inv m" and "fdm_at m fd = Some c" and "managed (Some c)"
  shows "\<exists>m'. fcntl_setfl fd arg m = Ret m' \<and> fdm_inv m' \<and> fcntl_getfl fd m' = Ret arg
     \<and> fm_flags m' fd AND O_NONBLOCK \<noteq> 0"
  by (rule fcntl_setfl_ok [OF assms])

definition demo_fdm :: fd_manager where
  "demo_fdm = (case fdm_get (Some True) 7 True (FdManager_new (\<lambda>_. 2)) of Ret (_, m) \<Rightarrow> m | _ \<Rightarrow> FdManager_new (\<lambda>_. 0))"

lemma demo_fdm: "fdm_inv demo_fdm \<and> (\<exists>c. fdm_at demo_fdm 7 = Some c \<and> managed (Some c))"
proof -
  obtain r m where g: "fdm_get (Some True) 7 True (FdManager_new (\<lambda>_. 2)) = Ret (r, m)" "fdm_inv m" "r = fdm_at m 7"
    using fdm_get_ok [OF FdManager_new_inv, of 7 "Some True" True "\<lambda>_. 2"] by auto
  then have "demo_fdm = m" by (simp add: demo_fdm_def)
  moreover have "managed (fdm_at demo_fdm 7)" by code_simp
  ultimately show ?thesis using g(2) managed_Some [of "fdm_at demo_fdm 7"] by (auto simp: managed_def)
qed

theorem fcntl_transparent_witness:
  "\<exists>m'. fcntl_setfl 7 2 demo_fdm = Ret m' \<and> fcntl_getfl 7 m' = Ret 2 \<and> fm_flags m' 7 AND O_NONBLOCK \<noteq> 0"
proof -
  obtain c where "fdm_at demo_fdm 7 = Some c" "managed (Some c)" using demo_fdm by blast
  from fcntl_transparent [OF conjunct1 [OF demo_fdm] this] show ?thesis by blast
qed

text \<open>\<open>ioctl(FIONBIO)\<close> does not keep the two views apart: switching non-blocking mode off reaches the
  kernel, so the descriptor is left in blocking mode although its context says it is non-blocking, and a
  hooked call on it would block the thread.\<close>

theorem ioctl_breaks_nonblocking:
  assumes "fdm_inv m" and "fdm_at m fd = Some c" and "managed (Some c)"
  shows "\<exists>m'. ioctl_fionbio fd False m = Ret m' \<and> fm_flags m' fd AND O_NONBLOCK = 0
     \<and> (\<exists>c'. fdm_at m' fd = Some c' \<and> fx_sysNonblock c' \<and> \<not> fx_userNonblock c') \<and> \<not> fdm_inv m'"
proof -
  have cc: "ctx_consistent (fm_flags m) fd c" using assms(1,2) by (simp add: fdm_inv_def)
  have sys: "fx_sysNonblock c" using cc assms(3) by (simp add: ctx_consistent_def managed_def)
  let ?c = "setUserNonblock False c" and ?flags = "(fm_flags m)(fd := fm_flags m fd AND NOT O_NONBLOCK)"
  let ?m' = "(fdm_put fd ?c m)\<lparr>fm_flags := ?flags\<rparr>"
  have r: "ioctl_fionbio fd False m = Ret ?m'"
    using get_existing [OF assms(1,2)] assms(3) by (simp add: ioctl_fionbio_def Let_def)
  have at': "fdm_at ?m' fd = Some ?c" using fdm_at_put [of m fd ?c fd] assms(2) by simp
  have z: "fm_flags ?m' fd AND O_NONBLOCK = 0" by (simp add: and.assoc)
  have "fx_sysNonblock ?c" "\<not> fx_userNonblock ?c" using sys by (simp_all add: setUserNonblock_def)
  then show ?thesis using r at' z by (intro exI [of _ ?m']) (auto simp: fdm_inv_def ctx_consistent_def)
qed

theorem ioctl_breaks_nonblocking_witness:
  "\<exists>m'. ioctl_fionbio 7 False demo_fdm = Ret m' \<and> fm_flags m' 7 AND O_NONBLOCK = 0 \<and> \<not> fdm_inv m'"
proof -
  obtain c where "fdm_at demo_fdm 7 = Some c" "managed (Some c)" using demo_fdm by blast
  from ioctl_breaks_nonblocking [OF conjunct1 [OF demo_fdm] this] show ?thesis by blast
qed

end
