(* ===== verification/Address.thy ===== *)
theory Address
  imports Endian Ordered "HOL-Library.List_Lexorder" "HOL-Library.Char_ord"
begin

unbundle bit_operations_syntax

text \<open>
  \<open>radixun/net/address.{h,cpp}\<close>: socket addresses, prefix masks, printing, ordering and the parsing of
  host names.

  \<^item> \<open>address\<close> is the class hierarchy; each struct holds its fields as the machine loads them from the
    \<open>sockaddr\<close> memory, so ports and IPv4 addresses are in network order and \<open>host\<close> is the machine's
    byte order; \<open>addr_image\<close> is the memory of the struct;
  \<^item> \<open>getaddrinfo\<close>, \<open>inet_pton\<close> and \<open>getifaddrs\<close> are arguments (their results);
  \<^item> the shift of \<open>CreateMask\<close> is a 32-bit \<open>int\<close> shift: an amount of 32 or more is \<open>Fault BadShift\<close>.
\<close>

definition AF_UNSPEC :: nat where "AF_UNSPEC = 0"
definition AF_UNIX :: nat where "AF_UNIX = 1"
definition AF_INET :: nat where "AF_INET = 2"
definition AF_INET6 :: nat where "AF_INET6 = 10"

record sockaddr_in =
  sin_family :: u16
  sin_port :: u16
  s_addr :: u32
  sin_zero :: "byte list"

record sockaddr_in6 =
  sin6_family :: u16
  sin6_port :: u16
  sin6_flowinfo :: u32
  s6_addr :: "byte list"
  sin6_scope_id :: u32

record sockaddr_un =
  sun_family :: u16
  sun_path :: "byte list"

record sockaddr_any =
  sa_family :: u16
  sa_data :: "byte list"

datatype address =
    IPv4Address sockaddr_in
  | IPv6Address sockaddr_in6
  | UnixAddress sockaddr_un nat
  | UnknownAddress sockaddr_any

section \<open>Masks\<close>

definition CreateMask :: "nat \<Rightarrow> 'a::len word outcome" where
  "CreateMask bits =
     (if bits \<le> LENGTH('a) \<and> LENGTH('a) - bits < 32
      then Ret (ucast (push_bit (LENGTH('a) - bits) (1 :: u32) - 1))
      else Fault BadShift)"

lemma clear_lowest_less: "value \<noteq> 0 \<Longrightarrow> unat (value AND (value - 1)) < unat (value :: 'a::len word)"
proof -
  assume v: "value \<noteq> 0"
  have "value AND (value - 1) \<le> value - 1" by (rule word_and_le1)
  then have "unat (value AND (value - 1)) \<le> unat (value - 1)" by (simp add: word_le_nat_alt)
  also have "\<dots> < unat value" using v by (rule measure_unat)
  finally show ?thesis .
qed

function CountBytes :: "'a::len word \<Rightarrow> nat" where
  "CountBytes value = (if value = 0 then 0 else Suc (CountBytes (value AND (value - 1))))"
  by pat_completeness auto
termination
  by (relation "measure unat") (auto simp: clear_lowest_less)

declare CountBytes.simps [simp del]

section \<open>Memory images\<close>

definition sockaddr_in_image :: "nat \<Rightarrow> sockaddr_in \<Rightarrow> byte list" where
  "sockaddr_in_image host a =
     host_bytes host (sin_family a) @ host_bytes host (sin_port a) @ host_bytes host (s_addr a) @ sin_zero a"

definition sockaddr_in6_image :: "nat \<Rightarrow> sockaddr_in6 \<Rightarrow> byte list" where
  "sockaddr_in6_image host a =
     host_bytes host (sin6_family a) @ host_bytes host (sin6_port a) @
     host_bytes host (sin6_flowinfo a) @ s6_addr a @ host_bytes host (sin6_scope_id a)"

definition getAddr :: "nat \<Rightarrow> address \<Rightarrow> byte list" where
  "getAddr host a =
     (case a of
        IPv4Address s \<Rightarrow> sockaddr_in_image host s
      | IPv6Address s \<Rightarrow> sockaddr_in6_image host s
      | UnixAddress s n \<Rightarrow> host_bytes host (sun_family s) @ sun_path s
      | UnknownAddress s \<Rightarrow> host_bytes host (sa_family s) @ sa_data s)"

definition getAddrLen :: "address \<Rightarrow> nat" where
  "getAddrLen a =
     (case a of IPv4Address s \<Rightarrow> 16 | IPv6Address s \<Rightarrow> 28 | UnixAddress s n \<Rightarrow> n | UnknownAddress s \<Rightarrow> 16)"

text \<open>The sizes of the structs, and a Unix address whose length stays inside its struct.\<close>

definition wf_address :: "address \<Rightarrow> bool" where
  "wf_address a \<longleftrightarrow>
     (case a of
        IPv4Address s \<Rightarrow> length (sin_zero s) = 8
      | IPv6Address s \<Rightarrow> length (s6_addr s) = 16
      | UnixAddress s n \<Rightarrow> length (sun_path s) = 108 \<and> n \<le> 110
      | UnknownAddress s \<Rightarrow> length (sa_data s) = 14)"

definition getFamily :: "address \<Rightarrow> u16" where
  "getFamily a =
     (case a of IPv4Address s \<Rightarrow> sin_family s | IPv6Address s \<Rightarrow> sin6_family s
      | UnixAddress s n \<Rightarrow> sun_family s | UnknownAddress s \<Rightarrow> sa_family s)"

text \<open>Reading a struct out of memory, as the copy constructors do after the casts of \<open>Create\<close>.\<close>

definition load_sockaddr_in :: "nat \<Rightarrow> byte list \<Rightarrow> sockaddr_in outcome" where
  "load_sockaddr_in host m =
     (if length m < 16 then Fault OutOfBounds
      else Ret \<lparr>sin_family = host_word host (take 2 m), sin_port = host_word host (take 2 (drop 2 m)),
                s_addr = host_word host (take 4 (drop 4 m)), sin_zero = take 8 (drop 8 m)\<rparr>)"

definition load_sockaddr_in6 :: "nat \<Rightarrow> byte list \<Rightarrow> sockaddr_in6 outcome" where
  "load_sockaddr_in6 host m =
     (if length m < 28 then Fault OutOfBounds
      else Ret \<lparr>sin6_family = host_word host (take 2 m), sin6_port = host_word host (take 2 (drop 2 m)),
                sin6_flowinfo = host_word host (take 4 (drop 4 m)), s6_addr = take 16 (drop 8 m),
                sin6_scope_id = host_word host (take 4 (drop 24 m))\<rparr>)"

definition load_sockaddr :: "nat \<Rightarrow> byte list \<Rightarrow> sockaddr_any outcome" where
  "load_sockaddr host m =
     (if length m < 16 then Fault OutOfBounds
      else Ret \<lparr>sa_family = host_word host (take 2 m), sa_data = take 14 (drop 2 m)\<rparr>)"

definition load_family :: "nat \<Rightarrow> byte list \<Rightarrow> nat outcome" where
  "load_family host m =
     (if length m < 2 then Fault OutOfBounds else Ret (unat (host_word host (take 2 m) :: u16)))"

section \<open>Creation\<close>

definition Address_Create :: "nat \<Rightarrow> byte list option \<Rightarrow> address option outcome" where
  "Address_Create host addr =
     (case addr of
        None \<Rightarrow> Ret None
      | Some m \<Rightarrow> obind (load_family host m) (\<lambda>family.
          if family = AF_INET then obind (load_sockaddr_in host m) (\<lambda>s. Ret (Some (IPv4Address s)))
          else if family = AF_INET6 then obind (load_sockaddr_in6 host m) (\<lambda>s. Ret (Some (IPv6Address s)))
          else obind (load_sockaddr host m) (\<lambda>s. Ret (Some (UnknownAddress s)))))"

definition IPv4Address_new :: "nat \<Rightarrow> u32 \<Rightarrow> u16 \<Rightarrow> sockaddr_in" where
  "IPv4Address_new host a port =
     \<lparr>sin_family = of_nat AF_INET, sin_port = byteswapOnLittleEndian host port,
      s_addr = byteswapOnLittleEndian host a, sin_zero = replicate 8 0\<rparr>"

definition IPv6Address_zero :: sockaddr_in6 where
  "IPv6Address_zero =
     \<lparr>sin6_family = of_nat AF_INET6, sin6_port = 0, sin6_flowinfo = 0, s6_addr = replicate 16 0,
      sin6_scope_id = 0\<rparr>"

definition IPv6Address_new :: "nat \<Rightarrow> byte list \<Rightarrow> u16 \<Rightarrow> sockaddr_in6" where
  "IPv6Address_new host a port =
     IPv6Address_zero\<lparr>sin6_port := byteswapOnLittleEndian host port, s6_addr := a\<rparr>"

text \<open>\<open>inet_pton\<close> is the argument: the result code and the bytes it stores on success.\<close>

definition IPv4Address_Create :: "nat \<Rightarrow> (string \<Rightarrow> int \<times> byte list) \<Rightarrow> string \<Rightarrow> u16 \<Rightarrow> sockaddr_in option" where
  "IPv4Address_Create host inet_pton a port =
     (let rt = (IPv4Address_new host 0 0)\<lparr>sin_port := byteswapOnLittleEndian host port\<rparr>;
          (result, bytes) = inet_pton a
      in if result \<le> 0 then None else Some (rt\<lparr>s_addr := host_word host bytes\<rparr>))"

definition IPv6Address_Create :: "nat \<Rightarrow> (string \<Rightarrow> int \<times> byte list) \<Rightarrow> string \<Rightarrow> u16 \<Rightarrow> sockaddr_in6 option" where
  "IPv6Address_Create host inet_pton a port =
     (let rt = IPv6Address_zero\<lparr>sin6_port := byteswapOnLittleEndian host port\<rparr>;
          (result, bytes) = inet_pton a
      in if result \<le> 0 then None else Some (rt\<lparr>s6_addr := bytes\<rparr>))"

section \<open>Ports\<close>

definition is_ip :: "address \<Rightarrow> bool" where
  "is_ip a = (case a of IPv4Address s \<Rightarrow> True | IPv6Address s \<Rightarrow> True | UnixAddress s n \<Rightarrow> False | UnknownAddress s \<Rightarrow> False)"

definition getPort :: "nat \<Rightarrow> address \<Rightarrow> u16" where
  "getPort host a =
     (case a of IPv4Address s \<Rightarrow> byteswapOnLittleEndian host (sin_port s)
      | IPv6Address s \<Rightarrow> byteswapOnLittleEndian host (sin6_port s)
      | UnixAddress s n \<Rightarrow> 0 | UnknownAddress s \<Rightarrow> 0)"

definition setPort :: "nat \<Rightarrow> u16 \<Rightarrow> address \<Rightarrow> address" where
  "setPort host v a =
     (case a of IPv4Address s \<Rightarrow> IPv4Address (s\<lparr>sin_port := byteswapOnLittleEndian host v\<rparr>)
      | IPv6Address s \<Rightarrow> IPv6Address (s\<lparr>sin6_port := byteswapOnLittleEndian host v\<rparr>)
      | UnixAddress s n \<Rightarrow> a | UnknownAddress s \<Rightarrow> a)"

section \<open>Name resolution\<close>

text \<open>\<open>getaddrinfo\<close>: the error code, or the memory of each \<open>ai_addr\<close> of the result list.\<close>

type_synonym gai = "string \<Rightarrow> string option \<Rightarrow> int \<Rightarrow> int \<Rightarrow> int \<Rightarrow> int + byte list option list"

definition c_str :: "string \<Rightarrow> string" where
  "c_str s = takeWhile (\<lambda>c. of_char c \<noteq> (0 :: nat)) s"

fun memchr :: "char \<Rightarrow> string \<Rightarrow> nat option" where
  "memchr c [] = None"
| "memchr c (x # xs) = (if x = c then Some 0 else map_option Suc (memchr c xs))"

definition split_brackets :: "string \<Rightarrow> string \<times> string option" where
  "split_brackets host =
     (if host \<noteq> [] \<and> hd host = CHR ''[''
      then (case memchr (CHR '']'') (tl host) of
              None \<Rightarrow> ([], None)
            | Some i \<Rightarrow>
                (take i (tl host),
                 (let after = drop (Suc i) (tl host)
                  in if after \<noteq> [] \<and> hd after = CHR '':'' then Some (tl after) else None)))
      else ([], None))"

definition split_host :: "string \<Rightarrow> string \<times> string option" where
  "split_host host =
     (let (node, service) = split_brackets host;
          (node, service) =
            (if node = []
             then (case memchr (CHR '':'') host of
                     None \<Rightarrow> (node, None)
                   | Some i \<Rightarrow>
                       (if memchr (CHR '':'') (drop (Suc i) host) = None
                        then (take i host, Some (drop (Suc i) host))
                        else (node, Some (drop i host))))
             else (node, service))
      in (if node = [] then host else node, service))"

primrec create_all :: "nat \<Rightarrow> byte list option list \<Rightarrow> address option list outcome" where
  "create_all host [] = Ret []"
| "create_all host (a # as) =
     obind (Address_Create host a) (\<lambda>x. obind (create_all host as) (\<lambda>xs. Ret (x # xs)))"

definition Lookup :: "nat \<Rightarrow> gai \<Rightarrow> address option list \<Rightarrow> string \<Rightarrow> int \<Rightarrow> int \<Rightarrow> int \<Rightarrow> (bool \<times> address option list) outcome" where
  "Lookup host gai result name family ty protocol =
     (let (node, service) = split_host name
      in case gai (c_str node) (map_option c_str service) family ty protocol of
           Inl err \<Rightarrow> Ret (False, result)
         | Inr results \<Rightarrow> obind (create_all host results) (\<lambda>as. Ret (True, result @ as)))"

definition LookupAny :: "nat \<Rightarrow> gai \<Rightarrow> string \<Rightarrow> int \<Rightarrow> int \<Rightarrow> int \<Rightarrow> address option outcome" where
  "LookupAny host gai name family ty protocol =
     obind (Lookup host gai [] name family ty protocol) (\<lambda>(ok, result).
       if ok then (case result of [] \<Rightarrow> Fault OutOfBounds | a # _ \<Rightarrow> Ret a) else Ret None)"

definition LookupAnyIPAddress :: "nat \<Rightarrow> gai \<Rightarrow> string \<Rightarrow> int \<Rightarrow> int \<Rightarrow> int \<Rightarrow> address option outcome" where
  "LookupAnyIPAddress host gai name family ty protocol =
     obind (Lookup host gai [] name family ty protocol) (\<lambda>(ok, result).
       if ok then Ret (find is_ip (map the (filter (\<lambda>a. a \<noteq> None) result))) else Ret None)"

text \<open>\<open>IPAddress::Create\<close>: \<open>getaddrinfo\<close> with \<open>AI_NUMERICHOST\<close>.\<close>

definition IPAddress_Create :: "nat \<Rightarrow> (string \<Rightarrow> int + byte list option list) \<Rightarrow> string \<Rightarrow> u16 \<Rightarrow> address option outcome" where
  "IPAddress_Create host gai_numeric a port =
     (case gai_numeric a of
        Inl err \<Rightarrow> Ret None
      | Inr [] \<Rightarrow> Fault NullDeref
      | Inr (r # _) \<Rightarrow> obind (Address_Create host r) (\<lambda>result.
          case result of
            None \<Rightarrow> Ret None
          | Some x \<Rightarrow> Ret (if is_ip x then Some (setPort host port x) else None)))"

section \<open>Interfaces\<close>

record ifaddr =
  ifa_name :: string
  ifa_addr :: "byte list option"
  ifa_netmask :: "byte list option"

definition deref :: "'a option \<Rightarrow> 'a outcome" where
  "deref p = (case p of None \<Rightarrow> Fault NullDeref | Some x \<Rightarrow> Ret x)"

text \<open>\<open>std::multimap::insert\<close>, and the elements of \<open>equal_range\<close>.\<close>

definition mm_insert :: "'k::linorder \<Rightarrow> 'v \<Rightarrow> ('k \<times> 'v) list \<Rightarrow> ('k \<times> 'v) list" where
  "mm_insert k v m = takeWhile (\<lambda>p. fst p \<le> k) m @ (k, v) # dropWhile (\<lambda>p. fst p \<le> k) m"

definition mm_equal_range :: "'k::linorder \<Rightarrow> ('k \<times> 'v) list \<Rightarrow> ('k \<times> 'v) list" where
  "mm_equal_range k m = takeWhile (\<lambda>p. fst p \<le> k) (dropWhile (\<lambda>p. fst p < k) m)"

definition interface_address :: "nat \<Rightarrow> ifaddr \<Rightarrow> (address option \<times> u32) outcome" where
  "interface_address host i =
     obind (deref (ifa_addr i)) (\<lambda>m. obind (load_family host m) (\<lambda>family.
       if family = AF_INET then
         obind (Address_Create host (ifa_addr i)) (\<lambda>addr.
         obind (deref (ifa_netmask i)) (\<lambda>n. obind (load_sockaddr_in host n) (\<lambda>s.
         Ret (addr, of_nat (CountBytes (s_addr s))))))
       else if family = AF_INET6 then
         obind (Address_Create host (ifa_addr i)) (\<lambda>addr.
         obind (deref (ifa_netmask i)) (\<lambda>n. obind (load_sockaddr_in6 host n) (\<lambda>s.
         Ret (addr, of_nat (sum_list (map CountBytes (s6_addr s)))))))
       else Ret (None, - 1)))"

type_synonym interface_map = "(string \<times> (address \<times> u32)) list"

definition skip_family :: "nat \<Rightarrow> nat \<Rightarrow> ifaddr \<Rightarrow> bool outcome" where
  "skip_family host family i =
     (if family = AF_UNSPEC then Ret False
      else obind (deref (ifa_addr i)) (\<lambda>m. obind (load_family host m) (\<lambda>f. Ret (family \<noteq> f))))"

fun interface_loop :: "nat \<Rightarrow> nat \<Rightarrow> ifaddr list \<Rightarrow> interface_map \<Rightarrow> interface_map outcome" where
  "interface_loop host family [] result = Ret result"
| "interface_loop host family (i # rest) result =
     obind (skip_family host family i) (\<lambda>skip.
        if skip then interface_loop host family rest result
        else obind (interface_address host i) (\<lambda>(addr, prefix_len).
          interface_loop host family rest
            (case addr of
               None \<Rightarrow> result
             | Some a \<Rightarrow> mm_insert (ifa_name i) (a, prefix_len) result)))"

definition GetInterfaceAddresses :: "nat \<Rightarrow> ifaddr list option \<Rightarrow> nat \<Rightarrow> interface_map \<Rightarrow> (bool \<times> interface_map) outcome" where
  "GetInterfaceAddresses host getifaddrs family result =
     (case getifaddrs of
        None \<Rightarrow> Ret (False, result)
      | Some l \<Rightarrow> obind (interface_loop host family l result) (\<lambda>r. Ret (True, r)))"

definition GetInterfaceAddresses_of :: "nat \<Rightarrow> ifaddr list option \<Rightarrow> string \<Rightarrow> nat \<Rightarrow> (address \<times> u32) list \<Rightarrow> (bool \<times> (address \<times> u32) list) outcome" where
  "GetInterfaceAddresses_of host getifaddrs iface family result =
     (if iface = [] \<or> iface = ''*'' then
        Ret (True, result
          @ (if family = AF_INET \<or> family = AF_UNSPEC then [(IPv4Address (IPv4Address_new host 0 0), 0)] else [])
          @ (if family = AF_INET6 \<or> family = AF_UNSPEC then [(IPv6Address IPv6Address_zero, 0)] else []))
      else
        obind (GetInterfaceAddresses host getifaddrs family []) (\<lambda>(ok, results).
          if ok then Ret (True, result @ map snd (mm_equal_range iface results)) else Ret (False, result)))"

section \<open>Comparison\<close>

primrec memcmp :: "nat \<Rightarrow> byte list \<Rightarrow> byte list \<Rightarrow> int outcome" where
  "memcmp 0 a b = Ret 0"
| "memcmp (Suc n) a b =
     (if a = [] \<or> b = [] then Fault OutOfBounds
      else if hd a = hd b then memcmp n (tl a) (tl b)
      else Ret (uint (hd a) - uint (hd b)))"

definition addr_less :: "nat \<Rightarrow> address \<Rightarrow> address \<Rightarrow> bool outcome" where
  "addr_less host a b =
     (let minlen = min (getAddrLen a) (getAddrLen b)
      in obind (memcmp minlen (getAddr host a) (getAddr host b)) (\<lambda>result.
           if result < 0 then Ret True
           else if result > 0 then Ret False
           else if getAddrLen a < getAddrLen b then Ret True
           else Ret False))"

definition addr_eq :: "nat \<Rightarrow> address \<Rightarrow> address \<Rightarrow> bool outcome" where
  "addr_eq host a b =
     (if getAddrLen a = getAddrLen b
      then obind (memcmp (getAddrLen a) (getAddr host a) (getAddr host b)) (\<lambda>r. Ret (r = 0))
      else Ret False)"

definition addr_neq :: "nat \<Rightarrow> address \<Rightarrow> address \<Rightarrow> bool outcome" where
  "addr_neq host a b = obind (addr_eq host a b) (\<lambda>r. Ret (\<not> r))"

section \<open>Prefixes\<close>

definition IPv4_broadcastAddress :: "nat \<Rightarrow> nat \<Rightarrow> sockaddr_in \<Rightarrow> sockaddr_in option outcome" where
  "IPv4_broadcastAddress host prefix_len a =
     (if prefix_len > 32 then Ret None
      else obind (CreateMask prefix_len) (\<lambda>mask.
        Ret (Some (a\<lparr>s_addr := s_addr a OR byteswapOnLittleEndian host mask\<rparr>))))"

definition IPv4_networdAddress :: "nat \<Rightarrow> nat \<Rightarrow> sockaddr_in \<Rightarrow> sockaddr_in option outcome" where
  "IPv4_networdAddress host prefix_len a =
     (if prefix_len > 32 then Ret None
      else obind (CreateMask prefix_len) (\<lambda>mask.
        Ret (Some (a\<lparr>s_addr := s_addr a AND byteswapOnLittleEndian host mask\<rparr>))))"

definition IPv4_subnetMask :: "nat \<Rightarrow> nat \<Rightarrow> sockaddr_in outcome" where
  "IPv4_subnetMask host prefix_len =
     obind (CreateMask prefix_len) (\<lambda>mask.
       Ret \<lparr>sin_family = of_nat AF_INET, sin_port = 0,
            s_addr = NOT (byteswapOnLittleEndian host mask), sin_zero = replicate 8 0\<rparr>)"

definition at_byte :: "nat \<Rightarrow> (byte \<Rightarrow> byte) \<Rightarrow> byte list \<Rightarrow> byte list outcome" where
  "at_byte i f bs = (if i < length bs then Ret (bs[i := f (bs ! i)]) else Fault OutOfBounds)"

definition IPv6_broadcastAddress :: "nat \<Rightarrow> sockaddr_in6 \<Rightarrow> sockaddr_in6 outcome" where
  "IPv6_broadcastAddress prefix_len a =
     obind (CreateMask (prefix_len mod 8)) (\<lambda>mask.
     obind (at_byte (prefix_len div 8) (\<lambda>b. b OR mask) (s6_addr a)) (\<lambda>bs.
     Ret (a\<lparr>s6_addr := take (prefix_len div 8 + 1) bs @ replicate (16 - (prefix_len div 8 + 1)) 0xff\<rparr>)))"

definition IPv6_networdAddress :: "nat \<Rightarrow> sockaddr_in6 \<Rightarrow> sockaddr_in6 outcome" where
  "IPv6_networdAddress prefix_len a =
     obind (CreateMask (prefix_len mod 8)) (\<lambda>mask.
     obind (at_byte (prefix_len div 8) (\<lambda>b. b AND mask) (s6_addr a)) (\<lambda>bs.
     Ret (a\<lparr>s6_addr := take (prefix_len div 8 + 1) bs @ replicate (16 - (prefix_len div 8 + 1)) 0\<rparr>)))"

definition IPv6_subnetMask :: "nat \<Rightarrow> sockaddr_in6 outcome" where
  "IPv6_subnetMask prefix_len =
     obind (CreateMask (prefix_len mod 8)) (\<lambda>mask.
     obind (at_byte (prefix_len div 8) (\<lambda>_. NOT mask) (s6_addr IPv6Address_zero)) (\<lambda>bs.
     Ret (IPv6Address_zero\<lparr>s6_addr := replicate (prefix_len div 8) 0xff @ drop (prefix_len div 8) bs\<rparr>)))"

section \<open>Unix paths\<close>

definition MAX_PATH_LEN :: nat where "MAX_PATH_LEN = 108 - 1"

definition byte_of_char :: "char \<Rightarrow> byte" where "byte_of_char c = of_char c"

definition char_of_byte :: "byte \<Rightarrow> char" where "char_of_byte b = char_of (unat b)"

definition UnixAddress_zero :: "sockaddr_un \<times> nat" where
  "UnixAddress_zero = (\<lparr>sun_family = of_nat AF_UNIX, sun_path = replicate 108 0\<rparr>, 2 + MAX_PATH_LEN)"

definition UnixAddress_new :: "string \<Rightarrow> (sockaddr_un \<times> nat) outcome" where
  "UnixAddress_new path =
     (let m_length = length path + 1;
          m_length = (if path \<noteq> [] \<and> of_char (hd path) = (0 :: nat) then m_length - 1 else m_length)
      in if m_length > 108 then Throw LogicError
         else Ret (\<lparr>sun_family = of_nat AF_UNIX,
                    sun_path = blit 0 (take m_length (map byte_of_char path @ [0])) (replicate 108 0)\<rparr>,
                   2 + m_length))"

definition setAddrLen :: "nat \<Rightarrow> sockaddr_un \<times> nat \<Rightarrow> sockaddr_un \<times> nat" where
  "setAddrLen v a = (fst a, v)"

definition UnknownAddress_new :: "int \<Rightarrow> sockaddr_any" where
  "UnknownAddress_new family = \<lparr>sa_family = word_of_int family, sa_data = replicate 14 0\<rparr>"

section \<open>Printing\<close>

definition IPv4_insert :: "nat \<Rightarrow> sockaddr_in \<Rightarrow> string" where
  "IPv4_insert host a =
     (let v = byteswapOnLittleEndian host (s_addr a)
      in dec_string (unat (drop_bit 24 v AND 0xff)) @ ''.'' @
         dec_string (unat (drop_bit 16 v AND 0xff)) @ ''.'' @
         dec_string (unat (drop_bit 8 v AND 0xff)) @ ''.'' @
         dec_string (unat (v AND 0xff)) @ '':'' @
         dec_string (unat (byteswapOnLittleEndian host (sin_port a))))"

text \<open>The loop of \<open>IPv6Address::insert\<close> over the eight groups as the machine loads them.\<close>

function insert_groups :: "nat \<Rightarrow> u16 list \<Rightarrow> nat \<Rightarrow> bool \<Rightarrow> string" where
  "insert_groups host addr i used_zeros =
     (if i < 8 then
        (if addr ! i = 0 \<and> \<not> used_zeros then insert_groups host addr (Suc i) used_zeros
         else
           (let close = (i \<noteq> 0 \<and> addr ! (i - 1) = 0 \<and> \<not> used_zeros)
            in (if close then '':'' else []) @ (if i \<noteq> 0 then '':'' else []) @
               hex_string (unat (byteswapOnLittleEndian host (addr ! i))) @
               insert_groups host addr (Suc i) (used_zeros \<or> close)))
      else if \<not> used_zeros \<and> addr ! 7 = 0 then ''::'' else [])"
  by pat_completeness auto
termination
  by (relation "measure (\<lambda>(host, addr, i, u). 8 - i)") auto

declare insert_groups.simps [simp del]

definition groups_of :: "nat \<Rightarrow> byte list \<Rightarrow> u16 list" where
  "groups_of host bs = map (\<lambda>i. host_word host [bs ! (2 * i), bs ! (2 * i + 1)]) [0..<8]"

definition IPv6_insert :: "nat \<Rightarrow> sockaddr_in6 \<Rightarrow> string" where
  "IPv6_insert host a =
     ''['' @ insert_groups host (groups_of host (s6_addr a)) 0 False @ '']:'' @
     dec_string (unat (byteswapOnLittleEndian host (sin6_port a)))"

definition Unix_insert :: "sockaddr_un \<Rightarrow> nat \<Rightarrow> string outcome" where
  "Unix_insert a m_length =
     (if m_length > 2 \<and> hd (sun_path a) = 0
      then (if m_length - 2 - 1 \<le> length (tl (sun_path a))
            then Ret (CHR 0x5C # ''0'' @ map char_of_byte (take (m_length - 2 - 1) (tl (sun_path a))))
            else Fault OutOfBounds)
      else if 0 \<in> set (sun_path a)
      then Ret (map char_of_byte (takeWhile (\<lambda>b. b \<noteq> 0) (sun_path a)))
      else Fault OutOfBounds)"

definition Unknown_insert :: "sockaddr_any \<Rightarrow> string" where
  "Unknown_insert a = ''[UnknownAddress family='' @ dec_string (unat (sa_family a)) @ '']''"

definition Address_toString :: "nat \<Rightarrow> address \<Rightarrow> string outcome" where
  "Address_toString host a =
     (case a of
        IPv4Address s \<Rightarrow> Ret (IPv4_insert host s)
      | IPv6Address s \<Rightarrow> Ret (IPv6_insert host s)
      | UnixAddress s n \<Rightarrow> Unix_insert s n
      | UnknownAddress s \<Rightarrow> Ret (Unknown_insert s))"

section \<open>The text of an IPv6 address determines it\<close>

text \<open>Reading the groups of an IPv6 text: fields between colons, one \<open>::\<close> standing for the missing zeros.\<close>

fun split_double_colon :: "string \<Rightarrow> string \<times> string option" where
  "split_double_colon [] = ([], None)"
| "split_double_colon (c # cs) =
     (if c = CHR '':'' \<and> cs \<noteq> [] \<and> hd cs = CHR '':'' then ([], Some (tl cs))
      else map_prod (Cons c) id (split_double_colon cs))"

fun pieces :: "string \<Rightarrow> string list" where
  "pieces [] = [[]]"
| "pieces (c # cs) = (if c = CHR '':'' then [] # pieces cs else (c # hd (pieces cs)) # tl (pieces cs))"

definition fields :: "string \<Rightarrow> string list" where
  "fields s = (if s = [] then [] else pieces s)"

definition read_groups :: "string \<Rightarrow> nat list" where
  "read_groups s =
     (case split_double_colon s of
        (a, None) \<Rightarrow> map hex_value (fields a)
      | (a, Some b) \<Rightarrow>
          map hex_value (fields a) @ replicate (8 - length (fields a) - length (fields b)) 0 @
          map hex_value (fields b))"

definition colons :: "string list \<Rightarrow> string" where
  "colons fs = concat (map (Cons CHR '':'') fs)"

definition join :: "string list \<Rightarrow> string" where
  "join fs = (case fs of [] \<Rightarrow> [] | f # r \<Rightarrow> f @ colons r)"

definition field_ok :: "string \<Rightarrow> bool" where
  "field_ok f \<longleftrightarrow> f \<noteq> [] \<and> CHR '':'' \<notin> set f"

lemma colons_simps [simp]:
  "colons [] = []"
  "colons (f # fs) = CHR '':'' # f @ colons fs"
  by (simp_all add: colons_def)

lemma split_plain:
  "CHR '':'' \<notin> set f \<Longrightarrow> split_double_colon (f @ r) = map_prod ((@) f) id (split_double_colon r)"
  by (induction f) (auto simp: prod.map_comp o_def map_prod_def split_beta)

lemma split_colon_field:
  assumes "field_ok f"
  shows "split_double_colon (CHR '':'' # f @ r) = map_prod ((@) (CHR '':'' # f)) id (split_double_colon r)"
  using assms split_plain [of f r] by (cases f) (auto simp: field_ok_def map_prod_def split_beta)

lemma split_colons:
  "\<forall>f\<in>set fs. field_ok f \<Longrightarrow>
   split_double_colon (colons fs @ r) = map_prod ((@) (colons fs)) id (split_double_colon r)"
proof (induction fs)
  case (Cons f fs)
  then show ?case
    using split_colon_field [of f "colons fs @ r"] by (simp add: map_prod_def split_beta)
qed (simp add: map_prod_def)

lemma split_join:
  "\<forall>f\<in>set fs. field_ok f \<Longrightarrow>
   split_double_colon (join fs @ r) = map_prod ((@) (join fs)) id (split_double_colon r)"
  using split_plain [of "hd fs" "colons (tl fs) @ r"] split_colons [of "tl fs" r]
  by (cases fs) (auto simp: join_def field_ok_def map_prod_def split_beta)

lemma pieces_ne: "pieces s \<noteq> []"
  by (cases s) auto

lemma pieces_plain: "CHR '':'' \<notin> set f \<Longrightarrow> pieces (f @ r) = (f @ hd (pieces r)) # tl (pieces r)"
  by (induction f) (auto simp: pieces_ne)

lemma pieces_colons: "\<forall>f\<in>set fs. field_ok f \<Longrightarrow> pieces (colons fs) = [] # fs"
  by (induction fs) (auto simp: pieces_plain field_ok_def)

lemma fields_join: "\<forall>f\<in>set fs. field_ok f \<Longrightarrow> fields (join fs) = fs"
  by (cases fs) (auto simp: fields_def join_def field_ok_def pieces_plain pieces_colons)

lemma read_groups_join:
  "\<forall>f\<in>set fs. field_ok f \<Longrightarrow> read_groups (join fs) = map hex_value fs"
  using split_join [of fs "[]"] by (simp add: read_groups_def fields_join)

lemma read_groups_join2:
  "\<forall>f\<in>set fs \<union> set gs. field_ok f \<Longrightarrow>
   read_groups (join fs @ ''::'' @ join gs) =
     map hex_value fs @ replicate (8 - length fs - length gs) 0 @ map hex_value gs"
  using split_join [of fs "''::'' @ join gs"] by (simp add: read_groups_def fields_join)

definition group_text :: "nat \<Rightarrow> u16 \<Rightarrow> string" where
  "group_text host g = hex_string (unat (byteswapOnLittleEndian host g))"

lemma insert_groups_used:
  assumes "length addr = 8" "0 < i" "i \<le> 8"
  shows "insert_groups host addr i True = colons (map (group_text host) (drop i addr))"
  using assms(3,2)
proof (induction rule: inc_induct)
  case base
  then show ?case using assms by (simp add: insert_groups.simps)
next
  case (step n)
  then show ?case using assms Cons_nth_drop_Suc [of n addr, symmetric]
    by (subst insert_groups.simps) (simp add: group_text_def [symmetric])
qed

lemma insert_groups_zeros:
  assumes "length addr = 8" "0 < i" "i \<le> 8" "addr ! (i - 1) = 0"
  shows "insert_groups host addr i False =
    ''::'' @ join (map (group_text host) (dropWhile (\<lambda>g. g = 0) (drop i addr)))"
  using assms(3,2,4)
proof (induction rule: inc_induct)
  case base
  then show ?case using assms by (simp add: insert_groups.simps join_def)
next
  case (step n)
  have d: "drop n addr = addr ! n # drop (Suc n) addr"
    using step assms by (simp add: Cons_nth_drop_Suc)
  show ?case
  proof (cases "addr ! n = 0")
    case True
    then show ?thesis using step d by (subst insert_groups.simps) simp
  next
    case False
    then show ?thesis using step d assms insert_groups_used [of addr "Suc n" host]
      by (subst insert_groups.simps) (simp add: join_def group_text_def)
  qed
qed

lemma insert_groups_nonzero:
  assumes "length addr = 8" "i \<le> 8" "i = 0 \<or> addr ! (i - 1) \<noteq> 0"
  shows "insert_groups host addr i False =
    (if i = 0 then join else colons) (map (group_text host) (takeWhile (\<lambda>g. g \<noteq> 0) (drop i addr))) @
    (case dropWhile (\<lambda>g. g \<noteq> 0) (drop i addr) of
       [] \<Rightarrow> []
     | g # r \<Rightarrow> ''::'' @ join (map (group_text host) (dropWhile (\<lambda>g. g = 0) r)))"
  using assms(2,3)
proof (induction rule: inc_induct)
  case base
  then show ?case using assms by (simp add: insert_groups.simps)
next
  case (step n)
  have d: "drop n addr = addr ! n # drop (Suc n) addr"
    using step assms by (simp add: Cons_nth_drop_Suc)
  show ?case
  proof (cases "addr ! n = 0")
    case True
    then show ?thesis using step d assms insert_groups_zeros [of addr "Suc n" host]
      by (subst insert_groups.simps) (simp add: join_def)
  next
    case False
    then have "takeWhile (\<lambda>g. g \<noteq> 0) (drop n addr) = addr ! n # takeWhile (\<lambda>g. g \<noteq> 0) (drop (Suc n) addr)"
      "dropWhile (\<lambda>g. g \<noteq> 0) (drop n addr) = dropWhile (\<lambda>g. g \<noteq> 0) (drop (Suc n) addr)"
      by (simp_all add: d)
    then show ?thesis using False step.IH step.hyps step.prems
      by (cases "n = 0"; subst insert_groups.simps) (auto simp: join_def group_text_def [symmetric] Let_def)
  qed
qed

lemma field_ok_group_text: "field_ok (group_text host g)"
  using digits_chars [of 16 "unat (byteswapOnLittleEndian host g)"]
  by (auto simp: field_ok_def group_text_def hex_string_def digits_ne)

lemma hex_value_group_text: "hex_value (group_text host g) = unat (byteswapOnLittleEndian host g)"
  by (simp add: group_text_def)

lemma byteswapOnLittleEndian_zero [simp]:
  "byteswapOnLittleEndian host (0 :: 'a::len word) = 0"
proof -
  have "of_le_bytes (replicate n 0) = (0 :: 'a word)" for n by (induction n) auto
  moreover have "le_bytes (0 :: 'a word) = replicate (LENGTH('a) div 8) 0"
    by (simp add: le_bytes_def map_replicate_const)
  ultimately show ?thesis by (simp add: byteswapOnLittleEndian_def byteswap_def)
qed

lemma dropWhile_zero_run:
  "dropWhile (\<lambda>g. g \<noteq> 0) addr = g # r \<Longrightarrow>
   addr = takeWhile (\<lambda>g. g \<noteq> 0) addr @ replicate (length addr - length (takeWhile (\<lambda>g. g \<noteq> 0) addr) - length (dropWhile (\<lambda>g. g = 0) r)) (0 :: u16)
     @ dropWhile (\<lambda>g. g = 0) r"
proof -
  assume a: "dropWhile (\<lambda>g. g \<noteq> 0) addr = g # r"
  then have g: "g = 0" using hd_dropWhile [of "\<lambda>g. g \<noteq> 0" addr] by simp
  let ?p = "takeWhile (\<lambda>g. g \<noteq> 0) addr" and ?z = "takeWhile (\<lambda>g. g = 0) r" and ?q = "dropWhile (\<lambda>g. g = 0) r"
  have "\<forall>x\<in>set ?z. x = 0" by (meson set_takeWhileD)
  then obtain n where z: "?z = replicate n 0" by (metis replicate_length_same)
  have "?p @ 0 # ?z @ ?q = addr" using takeWhile_dropWhile_id [of "\<lambda>g. g \<noteq> 0" addr] unfolding a g by simp
  then have "addr = ?p @ 0 # ?z @ ?q" by (rule sym)
  then have e: "addr = ?p @ replicate (Suc n) 0 @ ?q" unfolding z replicate_Suc append_Cons .
  have "length x = length p + k + length q" if "x = p @ replicate k (0 :: u16) @ q" for x p q k
    using that by simp
  from this [OF e] have "length addr = length ?p + Suc n + length ?q" .
  then have k: "length addr - length ?p - length ?q = Suc n" by simp
  show ?thesis unfolding k by (rule e)
qed

text \<open>C36. The text an IPv6 address prints, whose first run of zero groups is compressed to \<open>::\<close>, reads
  back as its eight groups in network order, so two addresses with the same text have the same groups.\<close>

theorem IPv6_text_determines_groups:
  assumes "length addr = 8"
  shows "read_groups (insert_groups host addr 0 False) = map (\<lambda>g. unat (byteswapOnLittleEndian host g)) addr"
proof (cases "dropWhile (\<lambda>g. g \<noteq> 0) addr")
  case Nil
  then have tw: "takeWhile (\<lambda>g. g \<noteq> 0) addr = addr" by (metis append_Nil2 takeWhile_dropWhile_id)
  have "insert_groups host addr 0 False = join (map (group_text host) (takeWhile (\<lambda>g. g \<noteq> 0) addr))"
    using insert_groups_nonzero [of addr 0 host] assms Nil by simp
  then have "insert_groups host addr 0 False = join (map (group_text host) addr)" unfolding tw .
  then show ?thesis
    using read_groups_join [of "map (group_text host) addr"]
    by (simp add: field_ok_group_text hex_value_group_text o_def)
next
  case (Cons g r)
  define p q where "p = takeWhile (\<lambda>g. g \<noteq> 0) addr" and "q = dropWhile (\<lambda>g. g = 0) r"
  have "insert_groups host addr 0 False = join (map (group_text host) p) @ ''::'' @ join (map (group_text host) q)"
    using insert_groups_nonzero [of addr 0 host] assms Cons by (simp add: p_def q_def)
  then have "read_groups (insert_groups host addr 0 False)
      = map (\<lambda>g. unat (byteswapOnLittleEndian host g)) (p @ replicate (8 - length p - length q) 0 @ q)"
    using read_groups_join2 [of "map (group_text host) p" "map (group_text host) q"]
    by (simp add: field_ok_group_text hex_value_group_text o_def ball_Un)
  also have "p @ replicate (8 - length p - length q) 0 @ q = addr"
    using dropWhile_zero_run [OF Cons] unfolding p_def q_def assms by (rule sym)
  finally show ?thesis .
qed

theorem IPv6_text_determines_groups_witness:
  "length ([0x120, 0, 0, 0, 7, 0, 0, 0x100] :: u16 list) = 8 \<and>
   read_groups (insert_groups RADIXUN_LITTLE_ENDIAN [0x120, 0, 0, 0, 7, 0, 0, 0x100] 0 False)
     = [0x2001, 0, 0, 0, 0x700, 0, 0, 1]"
proof -
  have "map (\<lambda>g. unat (byteswapOnLittleEndian RADIXUN_LITTLE_ENDIAN (g :: u16))) [0x120, 0, 0, 0, 7, 0, 0, 0x100]
      = [0x2001, 0, 0, 0, 0x700, 0, 0, 1]" by code_simp
  then show ?thesis
    using IPv6_text_determines_groups [of "[0x120, 0, 0, 0, 7, 0, 0, 0x100]" RADIXUN_LITTLE_ENDIAN] by simp
qed

section \<open>The order of addresses\<close>

lemma length_host_bytes [simp]: "length (host_bytes host (w :: 'a::len word)) = LENGTH('a) div 8"
  by (simp add: host_bytes_def)

lemma length_getAddr: "wf_address a \<Longrightarrow> getAddrLen a \<le> length (getAddr host a)"
  by (auto simp: wf_address_def getAddrLen_def getAddr_def sockaddr_in_image_def sockaddr_in6_image_def
      split: address.splits)

lemma memcmp_returns: "n \<le> length a \<Longrightarrow> n \<le> length b \<Longrightarrow> \<exists>r. memcmp n a b = Ret r
   \<and> (r < 0 \<longleftrightarrow> take n a < take n b) \<and> (r = 0 \<longleftrightarrow> take n a = take n b)"
proof (induction n arbitrary: a b)
  case (Suc n)
  then obtain x xs y ys where "a = x # xs" "b = y # ys" by (metis Suc_le_length_iff)
  then show ?case using Suc by (auto simp: word_less_def word_uint_eq_iff)
qed simp

lemma less_list_take:
  "xs < (ys :: 'a::linorder list) \<longleftrightarrow>
     (let m = min (length xs) (length ys)
      in take m xs < take m ys \<or> (take m xs = take m ys \<and> length xs < length ys))"
proof (induction xs arbitrary: ys)
  case Nil
  then show ?case by (cases ys) auto
next
  case (Cons x xs)
  then show ?case by (cases ys) (auto simp: Let_def)
qed

definition addr_key :: "nat \<Rightarrow> address \<Rightarrow> byte list" where
  "addr_key host a = take (getAddrLen a) (getAddr host a)"

lemma length_addr_key: "wf_address a \<Longrightarrow> length (addr_key host a) = getAddrLen a"
  using length_getAddr [of a host] by (simp add: addr_key_def)

lemma memcmp_key:
  assumes "wf_address a" "wf_address b" "n \<le> getAddrLen a" "n \<le> getAddrLen b"
  obtains r where "memcmp n (getAddr host a) (getAddr host b) = Ret r"
    "r < 0 \<longleftrightarrow> take n (addr_key host a) < take n (addr_key host b)"
    "r = 0 \<longleftrightarrow> take n (addr_key host a) = take n (addr_key host b)"
proof -
  have "n \<le> length (getAddr host a)" "n \<le> length (getAddr host b)"
    using assms length_getAddr [of a host] length_getAddr [of b host] by simp_all
  moreover have "take n (addr_key host a) = take n (getAddr host a)"
    "take n (addr_key host b) = take n (getAddr host b)"
    using assms by (simp_all add: addr_key_def min_absorb1)
  ultimately show ?thesis using memcmp_returns [of n "getAddr host a" "getAddr host b"] that by force
qed

text \<open>C35. Comparing two addresses whose lengths fit their structs never reads outside them, and
  \<open>operator<\<close> and \<open>operator==\<close> are the lexicographic order and the equality of the first
  \<open>getAddrLen\<close> bytes of the structs.\<close>

theorem address_comparison_lexicographic:
  assumes "wf_address a" "wf_address b"
  shows "addr_less host a b = Ret (addr_key host a < addr_key host b)
    \<and> addr_eq host a b = Ret (addr_key host a = addr_key host b)"
proof
  define m where "m = min (getAddrLen a) (getAddrLen b)"
  have l: "length (addr_key host a) = getAddrLen a" "length (addr_key host b) = getAddrLen b"
    using assms by (simp_all add: length_addr_key)
  have mm: "m \<le> getAddrLen a" "m \<le> getAddrLen b" by (simp_all add: m_def)
  obtain r where "memcmp m (getAddr host a) (getAddr host b) = Ret r"
    "r < 0 \<longleftrightarrow> take m (addr_key host a) < take m (addr_key host b)"
    "r = 0 \<longleftrightarrow> take m (addr_key host a) = take m (addr_key host b)"
    by (rule memcmp_key [OF assms mm])
  then show "addr_less host a b = Ret (addr_key host a < addr_key host b)"
    unfolding less_list_take [of "addr_key host a"] by (auto simp: addr_less_def l m_def Let_def)
next
  show "addr_eq host a b = Ret (addr_key host a = addr_key host b)"
  proof (cases "getAddrLen a = getAddrLen b")
    case True
    obtain r where "memcmp (getAddrLen a) (getAddr host a) (getAddr host b) = Ret r"
      "r = 0 \<longleftrightarrow> take (getAddrLen a) (addr_key host a) = take (getAddrLen a) (addr_key host b)"
      using memcmp_key [OF assms, of "getAddrLen a" host] True by auto
    then show ?thesis using True length_addr_key [OF assms(1), of host] length_addr_key [OF assms(2), of host]
      by (simp add: addr_eq_def)
  next
    case False
    then show ?thesis using length_addr_key [OF assms(1), of host] length_addr_key [OF assms(2), of host]
      by (auto simp: addr_eq_def)
  qed
qed

theorem address_comparison_lexicographic_witness:
  "addr_less 1 (IPv4Address (IPv4Address_new 1 0x0a000001 80)) (IPv4Address (IPv4Address_new 1 0x0a000002 80)) = Ret True \<and>
   addr_eq 1 (IPv4Address (IPv4Address_new 1 0x0a000001 80)) (IPv4Address (IPv4Address_new 1 0x0a000001 81)) = Ret False"
proof -
  have "wf_address (IPv4Address (IPv4Address_new 1 0x0a000001 80))"
    "wf_address (IPv4Address (IPv4Address_new 1 0x0a000002 80))"
    "wf_address (IPv4Address (IPv4Address_new 1 0x0a000001 81))" by code_simp+
  moreover have
    "addr_key 1 (IPv4Address (IPv4Address_new 1 0x0a000001 80)) < addr_key 1 (IPv4Address (IPv4Address_new 1 0x0a000002 80))"
    "addr_key 1 (IPv4Address (IPv4Address_new 1 0x0a000001 80)) \<noteq> addr_key 1 (IPv4Address (IPv4Address_new 1 0x0a000001 81))"
    by code_simp+
  ultimately show ?thesis by (simp add: address_comparison_lexicographic)
qed

text \<open>The order is a strict weak order on addresses, so they can be keys of the ordered containers.\<close>

definition addr_before :: "nat \<Rightarrow> address \<Rightarrow> address \<Rightarrow> bool" where
  "addr_before host a b \<longleftrightarrow> addr_key host a < addr_key host b"

interpretation addr_order: strict_weak "addr_before host" for host
  by unfold_locales (auto simp: addr_before_def)

section \<open>Prefix lengths and masks\<close>

lemma nat_clear_lowest:
  "0 < n \<Longrightarrow> \<exists>k. bit n k \<and> (\<forall>j. bit (n AND (n - 1)) j \<longleftrightarrow> bit n j \<and> j \<noteq> k)" for n :: nat
proof (induction n rule: nat_bit_induct)
  case (even n)
  then obtain k where k: "bit n k" "\<forall>j. bit (n AND (n - 1)) j \<longleftrightarrow> bit n j \<and> j \<noteq> k" by auto
  have d: "(2 * n - 1) div 2 = n - 1" by simp
  have "bit (2 * n AND (2 * n - 1)) j \<longleftrightarrow> bit (2 * n) j \<and> j \<noteq> Suc k" for j
  proof (cases j)
    case (Suc i)
    have "bit n i \<and> bit (n - 1) i \<longleftrightarrow> bit n i \<and> i \<noteq> k" using k(2) by (simp add: bit_and_iff)
    then show ?thesis unfolding Suc bit_and_iff unfolding bit_Suc d by simp
  next
    case 0
    show ?thesis unfolding 0 bit_and_iff unfolding bit_0 by simp
  qed
  moreover have "bit (2 * n) (Suc k)" using k by (simp add: bit_Suc)
  ultimately show ?case by blast
next
  case (odd n)
  have "bit (Suc (2 * n) AND (Suc (2 * n) - 1)) j \<longleftrightarrow> bit (Suc (2 * n)) j \<and> j \<noteq> 0" for j
    unfolding bit_and_iff by (cases j) (auto simp: bit_0 bit_Suc)
  moreover have "bit (Suc (2 * n)) 0" by (simp add: bit_0)
  ultimately show ?case by blast
qed simp

lemma clear_lowest_bits:
  fixes w :: "'a::len word"
  assumes "w \<noteq> 0"
  obtains k where "bit w k" "\<And>j. bit (w AND (w - 1)) j \<longleftrightarrow> bit w j \<and> j \<noteq> k"
proof -
  have "0 < unat w" using assms by (simp add: unat_gt_0)
  then obtain k where k: "bit (unat w) k"
    "\<forall>j. bit (unat w AND (unat w - 1)) j \<longleftrightarrow> bit (unat w) j \<and> j \<noteq> k"
    using nat_clear_lowest by blast
  have "unat (w AND (w - 1)) = unat w AND (unat w - 1)"
    using assms by (simp add: unsigned_and_eq unat_minus_one)
  then show ?thesis using k that [of k] by (metis bit_unsigned_iff bit_imp_le_length possible_bit_nat)
qed

text \<open>\<open>CountBytes\<close> counts the bits that are set.\<close>

lemma CountBytes_card: "CountBytes w = card {k. bit w k}" for w :: "'a::len word"
proof (induction w rule: CountBytes.induct)
  case (1 w)
  have fin: "finite {k. bit w k}"
    by (rule finite_subset [of _ "{..<LENGTH('a)}"]) (auto dest: bit_imp_le_length)
  show ?case
  proof (cases "w = 0")
    case True
    then show ?thesis by (simp add: CountBytes.simps)
  next
    case False
    then obtain k where k: "bit w k" "\<And>j. bit (w AND (w - 1)) j \<longleftrightarrow> bit w j \<and> j \<noteq> k"
      using clear_lowest_bits by metis
    then have "{j. bit (w AND (w - 1)) j} = {j. bit w j} - {k}" by auto
    then show ?thesis using 1 False k fin
      by (subst CountBytes.simps) (simp add: card_Suc_Diff1 del: card_Diff_insert)
  qed
qed

lemma CountBytes_byteswapOnLittleEndian:
  "8 dvd LENGTH('a) \<Longrightarrow> CountBytes (byteswapOnLittleEndian host w) = CountBytes (w :: 'a::len word)"
  by (simp add: CountBytes_card byteswapOnLittleEndian_def card_bits_byteswap)

lemma CreateMask_32:
  assumes "1 \<le> p" "p \<le> 32"
  shows "CreateMask p = Ret (mask (32 - p) :: u32)"
  using assms by (simp add: CreateMask_def mask_eq_decr_exp push_bit_eq_mult)

lemma CountBytes_not_mask:
  assumes "p \<le> 32"
  shows "CountBytes (NOT (mask (32 - p) :: u32)) = p"
proof -
  have "{k. bit (NOT (mask (32 - p) :: u32)) k} = {32 - p..<32}"
    by (auto simp: bit_not_iff bit_mask_iff)
  then show ?thesis using assms by (simp add: CountBytes_card)
qed

text \<open>For a prefix of 1 to 32 bits, \<open>broadcastAddress\<close> keeps the prefix and sets every host bit,
  \<open>subnetMask\<close> is the mask of exactly the prefix, whose bits \<open>CountBytes\<close> counts back to the prefix
  length, and \<open>networdAddress\<close> clears the prefix and keeps the host bits.\<close>

theorem IPv4_prefix_operations:
  assumes "1 \<le> p" "p \<le> 32"
  shows "\<exists>b n m. IPv4_broadcastAddress host p a = Ret (Some (a\<lparr>s_addr := b\<rparr>))
    \<and> IPv4_networdAddress host p a = Ret (Some (a\<lparr>s_addr := n\<rparr>))
    \<and> IPv4_subnetMask host p = Ret m \<and> CountBytes (s_addr m) = p
    \<and> (\<forall>k < 32. (bit (byteswapOnLittleEndian host b) k \<longleftrightarrow>
            k < 32 - p \<or> bit (byteswapOnLittleEndian host (s_addr a)) k)
        \<and> (bit (byteswapOnLittleEndian host n) k \<longleftrightarrow>
            k < 32 - p \<and> bit (byteswapOnLittleEndian host (s_addr a)) k)
        \<and> (bit (byteswapOnLittleEndian host (s_addr m)) k \<longleftrightarrow> 32 - p \<le> k))"
proof -
  have i: "byteswapOnLittleEndian host (byteswapOnLittleEndian host w) = w" for w :: u32
    by (rule byteswapOnLittleEndian_inverse) simp
  have b: "byteswapOnLittleEndian host (v OR byteswapOnLittleEndian host w) = byteswapOnLittleEndian host v OR w"
    "byteswapOnLittleEndian host (v AND byteswapOnLittleEndian host w) = byteswapOnLittleEndian host v AND w"
    "byteswapOnLittleEndian host (NOT (byteswapOnLittleEndian host w)) = NOT w" for v w :: u32
    by (simp_all add: byteswapOnLittleEndian_bitwise i)
  let ?w = "NOT (byteswapOnLittleEndian host (mask (32 - p) :: u32))"
  have "CountBytes (byteswapOnLittleEndian host ?w) = CountBytes ?w"
    by (rule CountBytes_byteswapOnLittleEndian) simp
  then have c: "CountBytes ?w = p" using CountBytes_not_mask [OF assms(2)] b(3) by simp
  let ?m = "byteswapOnLittleEndian host (mask (32 - p) :: u32)"
  show ?thesis
    by (rule exI [of _ "s_addr a OR ?m"], rule exI [of _ "s_addr a AND ?m"], rule exI)
      (use c assms in \<open>auto simp: IPv4_broadcastAddress_def IPv4_networdAddress_def IPv4_subnetMask_def
        CreateMask_32 b bit_or_iff bit_and_iff bit_not_iff bit_mask_iff not_less\<close>)
qed

theorem IPv4_prefix_operations_witness:
  "\<exists>b n m. IPv4_broadcastAddress 1 24 (IPv4Address_new 1 0xc0a80107 0) = Ret (Some b)
    \<and> IPv4_networdAddress 1 24 (IPv4Address_new 1 0xc0a80107 0) = Ret (Some n)
    \<and> IPv4_subnetMask 1 24 = Ret m \<and> CountBytes (s_addr m) = 24"
  using IPv4_prefix_operations [of 24 1 "IPv4Address_new 1 0xc0a80107 0"] by auto

lemma IPv4_prefix_zero: "IPv4_broadcastAddress host 0 a = Fault BadShift"
  "IPv4_networdAddress host 0 a = Fault BadShift" "IPv4_subnetMask host 0 = Fault BadShift"
  by (simp_all add: IPv4_broadcastAddress_def IPv4_networdAddress_def IPv4_subnetMask_def CreateMask_def)

text \<open>The network address of 192.168.1.7/24 is 192.168.1.0; the code returns 0.0.0.7.\<close>

lemma IPv4_network_is_host_part:
  "(case IPv4_networdAddress 1 24 (IPv4Address_new 1 0xc0a80107 0) of Ret (Some n) \<Rightarrow> IPv4_insert 1 n | _ \<Rightarrow> [])
     = ''0.0.0.7:0''"
  by code_simp

lemma IPv6_prefix_128:
  assumes "length (s6_addr a) = 16"
  shows "IPv6_broadcastAddress 128 a = Fault OutOfBounds" "IPv6_networdAddress 128 a = Fault OutOfBounds"
    "IPv6_subnetMask 128 = Fault OutOfBounds"
  using assms by (simp_all add: IPv6_broadcastAddress_def IPv6_networdAddress_def IPv6_subnetMask_def
      CreateMask_def at_byte_def IPv6Address_zero_def)

section \<open>Splitting host and service\<close>

lemma memchr_None: "memchr c xs = None \<longleftrightarrow> c \<notin> set xs"
  by (induction xs) auto

lemma memchr_append: "c \<notin> set xs \<Longrightarrow> memchr c (xs @ c # ys) = Some (length xs)"
  by (induction xs) auto

lemma split_host_cases:
  assumes "h \<noteq> []" "hd h \<noteq> CHR ''[''" "CHR '':'' \<notin> set h" "CHR '':'' \<notin> set s"
    and "a \<noteq> []" "CHR '']'' \<notin> set a"
  shows "split_host h = (h, None)"
    and "split_host (h @ '':'' @ s) = (h, Some s)"
    and "split_host (''['' @ a @ '']'') = (a, None)"
    and "split_host (''['' @ a @ '']:'' @ s) = (a, Some s)"
    and "split_host (h @ '':'' @ s @ '':'' @ t) = (h @ '':'' @ s @ '':'' @ t, Some ('':'' @ s @ '':'' @ t))"
proof -
  have h: "hd (h @ r) \<noteq> CHR ''[''" for r using assms by (cases h) auto
  show "split_host h = (h, None)"
  proof -
    have "memchr CHR '':'' h = None" using assms(3) by (simp add: memchr_None)
    then show ?thesis using assms(1,2) by (simp add: split_host_def split_brackets_def)
  qed
  have b: "split_brackets (h @ r) = ([], None)" for r
    using h [of r] by (simp add: split_brackets_def)
  have m: "memchr CHR '':'' (h @ CHR '':'' # r) = Some (length h)" for r
    using assms(3) by (rule memchr_append)
  show "split_host (h @ '':'' @ s) = (h, Some s)"
    using assms(1,4) by (simp add: split_host_def b m memchr_None)
  have "memchr CHR '':'' (s @ CHR '':'' # t) \<noteq> None" by (simp add: memchr_None)
  then show "split_host (h @ '':'' @ s @ '':'' @ t) = (h @ '':'' @ s @ '':'' @ t, Some ('':'' @ s @ '':'' @ t))"
    by (simp add: split_host_def b m)
  have e: "memchr CHR '']'' (a @ CHR '']'' # r) = Some (length a)" for r
    using assms(6) by (rule memchr_append)
  show "split_host (''['' @ a @ '']'') = (a, None)" "split_host (''['' @ a @ '']:'' @ s) = (a, Some s)"
    using assms(5) by (simp_all add: split_host_def split_brackets_def e)
qed

text \<open>\<open>Address::Lookup\<close> splits \<open>host\<close>, \<open>host:service\<close>, \<open>[v6]\<close> and \<open>[v6]:service\<close> into the node and the
  service it passes to \<open>getaddrinfo\<close>; a name with two colons and no brackets keeps the whole name as its
  node, but its service is the rest of the name from the first colon instead of none.\<close>

theorem Lookup_splits_host:
  assumes "h \<noteq> []" "hd h \<noteq> CHR ''[''" "CHR '':'' \<notin> set h" "CHR '':'' \<notin> set s"
    and "a \<noteq> []" "CHR '']'' \<notin> set a"
  shows "split_host h = (h, None) \<and> split_host (h @ '':'' @ s) = (h, Some s)
    \<and> split_host (''['' @ a @ '']'') = (a, None) \<and> split_host (''['' @ a @ '']:'' @ s) = (a, Some s)
    \<and> split_host (h @ '':'' @ s @ '':'' @ t) = (h @ '':'' @ s @ '':'' @ t, Some ('':'' @ s @ '':'' @ t))"
  using split_host_cases [OF assms] by blast

theorem Lookup_splits_host_witness:
  "split_host ''www.radixun.org:80'' = (''www.radixun.org'', Some ''80'') \<and>
   split_host ''[::1]:80'' = (''::1'', Some ''80'') \<and>
   split_host ''fe80:::1'' = (''fe80:::1'', Some '':::1'')"
  using Lookup_splits_host [of "''www.radixun.org''" "''80''" "''::1''"]
    Lookup_splits_host [of "''fe80''" "[]" "''::1''" "'':1''"] by simp

section \<open>Interfaces by name\<close>

lemma sorted_mm_insert: "sorted_wrt (\<le>) (map fst m) \<Longrightarrow> sorted_wrt (\<le>) (map fst (mm_insert k v m))"
  for k :: "'k::linorder"
  by (induction m) (auto simp: mm_insert_def dest: set_takeWhileD set_dropWhileD)

lemma filter_mm_insert:
  "sorted_wrt (\<le>) (map fst m) \<Longrightarrow>
   filter (\<lambda>p. fst p = x) (mm_insert k v m) =
     filter (\<lambda>p. fst p = x) m @ (if k = x then [(k, v)] else [])"
  for k :: "'k::linorder"
proof (induction m)
  case (Cons p m)
  show ?case
  proof (cases "fst p \<le> k")
    case True
    then show ?thesis using Cons by (simp add: mm_insert_def)
  next
    case False
    then have "filter (\<lambda>q. fst q = k) (p # m) = []" using Cons.prems
      by (auto simp: filter_empty_conv)
    then show ?thesis using False by (auto simp: mm_insert_def)
  qed
qed (simp add: mm_insert_def)

lemma mm_equal_range_filter:
  "sorted_wrt (\<le>) (map fst m) \<Longrightarrow> mm_equal_range k m = filter (\<lambda>p. fst p = k) m" for k :: "'k::linorder"
proof (induction m)
  case (Cons p m)
  then have IH: "takeWhile (\<lambda>p. fst p \<le> k) (dropWhile (\<lambda>p. fst p < k) m) = filter (\<lambda>p. fst p = k) m"
    by (simp add: mm_equal_range_def)
  consider "fst p < k" | "fst p = k" | "k < fst p" by force
  then show ?case
  proof cases
    case 2
    have "dropWhile (\<lambda>p. fst p < k) m = m" using 2 Cons.prems by (cases m) auto
    then show ?thesis using IH 2 by (simp add: mm_equal_range_def)
  next
    case 3
    then have "filter (\<lambda>p. fst p = k) m = []" using Cons.prems by (auto simp: filter_empty_conv)
    then show ?thesis using 3 by (auto simp: mm_equal_range_def)
  qed (simp_all add: IH mm_equal_range_def)
qed (simp add: mm_equal_range_def)

text \<open>The entries \<open>GetInterfaceAddresses\<close> collects, in the order of the system's list.\<close>

fun interface_entries :: "nat \<Rightarrow> nat \<Rightarrow> ifaddr list \<Rightarrow> interface_map" where
  "interface_entries host family [] = []"
| "interface_entries host family (i # rest) =
     (case (ifa_addr i, interface_address host i) of
        (Some m, Ret (Some a, prefix_len)) \<Rightarrow>
          (if family = AF_UNSPEC \<or> load_family host m = Ret family
           then [(ifa_name i, (a, prefix_len))] else [])
      | _ \<Rightarrow> []) @ interface_entries host family rest"

lemma interface_address_loads:
  "interface_address host i = Ret z \<Longrightarrow> \<exists>m f. ifa_addr i = Some m \<and> load_family host m = Ret f"
  by (auto simp: interface_address_def obind_Ret_iff deref_def split: option.splits)

lemma skip_family_iff:
  "ifa_addr i = Some m \<Longrightarrow> load_family host m = Ret f \<Longrightarrow>
   skip_family host family i = Ret (family \<noteq> AF_UNSPEC \<and> family \<noteq> f)"
  by (simp add: skip_family_def deref_def)

lemma skip_family_True: "skip_family host family i = Ret True \<Longrightarrow>
   \<exists>m f. ifa_addr i = Some m \<and> load_family host m = Ret f \<and> family \<noteq> AF_UNSPEC \<and> family \<noteq> f"
  by (auto simp: skip_family_def deref_def obind_Ret_iff split: option.splits if_splits)

lemma interface_loop_entries:
  "interface_loop host family l result = Ret r \<Longrightarrow> sorted_wrt (\<le>) (map fst result) \<Longrightarrow>
   sorted_wrt (\<le>) (map fst r) \<and>
   filter (\<lambda>p. fst p = x) r = filter (\<lambda>p. fst p = x) result @
     filter (\<lambda>p. fst p = x) (interface_entries host family l)"
proof (induction host family l result rule: interface_loop.induct)
  case (2 host family i rest result)
  from 2(3) obtain skip where sk: "skip_family host family i = Ret skip"
    by (auto simp: obind_Ret_iff)
  show ?case
  proof (cases skip)
    case True
    then obtain m f where "ifa_addr i = Some m" "load_family host m = Ret f" "family \<noteq> AF_UNSPEC" "family \<noteq> f"
      using sk skip_family_True [of host family i] by auto
    moreover from True have "interface_loop host family rest result = Ret r" using 2(3) sk by simp
    ultimately show ?thesis using 2(1) [OF sk True _ 2(4)] by (auto split: outcome.splits option.splits)
  next
    case False
    then obtain addr n where a: "interface_address host i = Ret (addr, n)"
      and L: "interface_loop host family rest
        (case addr of None \<Rightarrow> result | Some a \<Rightarrow> mm_insert (ifa_name i) (a, n) result) = Ret r"
      using 2(3) sk by (auto simp: obind_Ret_iff)
    obtain m f where m: "ifa_addr i = Some m" "load_family host m = Ret f"
      using interface_address_loads [OF a] by blast
    then have fam: "family = AF_UNSPEC \<or> family = f" using sk False by (simp add: skip_family_iff)
    define m' where "m' = (case addr of None \<Rightarrow> result | Some a \<Rightarrow> mm_insert (ifa_name i) (a, n) result)"
    have so: "sorted_wrt (\<le>) (map fst m')"
      using 2(4) by (cases addr) (simp_all add: m'_def sorted_mm_insert)
    have fi: "filter (\<lambda>p. fst p = x) m' = filter (\<lambda>p. fst p = x) result @
      (case addr of None \<Rightarrow> [] | Some a \<Rightarrow> if ifa_name i = x then [(x, (a, n))] else [])"
      using 2(4) by (cases addr) (simp_all add: m'_def filter_mm_insert)
    have "sorted_wrt (\<le>) (map fst r) \<and> filter (\<lambda>p. fst p = x) r
        = filter (\<lambda>p. fst p = x) m' @ filter (\<lambda>p. fst p = x) (interface_entries host family rest)"
      using 2(2) [OF sk False a refl] L so unfolding m'_def by blast
    then show ?thesis using fi m a fam by (auto split: option.splits)
  qed
qed simp

text \<open>Asking for one interface appends exactly that interface's addresses of the wanted family with
  the number of set bits of their netmasks, in the order the system lists them.\<close>

theorem interface_lookup_exact:
  assumes "iface \<noteq> []" "iface \<noteq> ''*''"
    and "GetInterfaceAddresses_of host (Some l) iface family result = Ret (ok, out)"
  shows "ok \<and> out = result @ map snd (filter (\<lambda>p. fst p = iface) (interface_entries host family l))"
proof -
  obtain r where r: "interface_loop host family l [] = Ret r"
    "ok" "out = result @ map snd (mm_equal_range iface r)"
    using assms by (auto simp: GetInterfaceAddresses_of_def GetInterfaceAddresses_def obind_Ret_iff)
  then show ?thesis using interface_loop_entries [OF r(1)] by (simp add: mm_equal_range_filter)
qed

theorem interface_lookup_exact_witness:
  "map snd (filter (\<lambda>p. fst p = ''eth0'') (interface_entries 1 AF_INET
     [\<lparr>ifa_name = ''lo'', ifa_addr = Some [2,0,0,0,127,0,0,1,0,0,0,0,0,0,0,0],
       ifa_netmask = Some [2,0,0,0,255,0,0,0,0,0,0,0,0,0,0,0]\<rparr>,
      \<lparr>ifa_name = ''eth0'', ifa_addr = Some [2,0,0,0,10,0,0,7,0,0,0,0,0,0,0,0],
       ifa_netmask = Some [2,0,0,0,255,255,0,0,0,0,0,0,0,0,0,0]\<rparr>]))
   = [(IPv4Address \<lparr>sin_family = 2, sin_port = 0, s_addr = 0x700000a, sin_zero = replicate 8 0\<rparr>, 16)]"
proof -
  let ?l = "[\<lparr>ifa_name = ''lo'', ifa_addr = Some [2,0,0,0,127,0,0,1,0,0,0,0,0,0,0,0],
       ifa_netmask = Some [2,0,0,0,255,0,0,0,0,0,0,0,0,0,0,0]\<rparr>,
      \<lparr>ifa_name = ''eth0'', ifa_addr = Some [2,0,0,0,10,0,0,7,0,0,0,0,0,0,0,0],
       ifa_netmask = Some [2,0,0,0,255,255,0,0,0,0,0,0,0,0,0,0]\<rparr>]"
  have "GetInterfaceAddresses_of 1 (Some ?l) ''eth0'' AF_INET [] = Ret (True,
      [(IPv4Address \<lparr>sin_family = 2, sin_port = 0, s_addr = 0x700000a, sin_zero = replicate 8 0\<rparr>, 16)])"
    by code_simp
  from interface_lookup_exact [OF _ _ this] show ?thesis by simp
qed

section \<open>Unix paths\<close>

lemma char_of_byte_of_char [simp]: "char_of_byte (byte_of_char c) = c"
proof -
  have "of_char c < (256 :: nat)" by (cases c) (simp add: of_char_def)
  then have "take_bit 8 (of_char c :: nat) = of_char c" by (simp add: take_bit_nat_eq_self)
  moreover have "(of_char c :: byte) = of_nat (of_char c)" by (simp only: of_nat_of_char)
  ultimately have "unat (of_char c :: byte) = of_char c" by (simp only: unsigned_of_nat) simp
  then show ?thesis by (simp add: char_of_byte_def byte_of_char_def)
qed

lemma byte_of_char_zero: "byte_of_char c = 0 \<longleftrightarrow> of_char c = (0 :: nat)"
proof
  assume "byte_of_char c = 0"
  then have "c = char_of (0 :: nat)" using char_of_byte_of_char [of c] by (simp add: char_of_byte_def)
  then show "of_char c = (0 :: nat)" by simp
next
  assume "of_char c = (0 :: nat)"
  then have "of_nat (of_char c) = (0 :: byte)" by simp
  then show "byte_of_char c = 0" unfolding byte_of_char_def of_nat_of_char .
qed

lemma takeWhile_until: "\<forall>x\<in>set xs. P x \<Longrightarrow> \<not> P y \<Longrightarrow> takeWhile P (xs @ y # ys) = xs"
  by (induction xs) auto

text \<open>A path name of 1 to 107 characters is stored with its terminator and printed back; a longer one is
  refused. A path that starts with NUL is an abstract name, stored without a terminator.\<close>

lemma Unix_path_roundtrip:
  assumes "path \<noteq> []" "\<forall>c\<in>set path. of_char c \<noteq> (0 :: nat)"
  shows "length path \<le> 107 \<Longrightarrow> \<exists>s. UnixAddress_new path = Ret (s, length path + 3) \<and> Unix_insert s (length path + 3) = Ret path"
    and "107 < length path \<Longrightarrow> UnixAddress_new path = Throw LogicError"
proof -
  have h: "of_char (hd path) \<noteq> (0 :: nat)" using assms by (cases path) auto
  show "107 < length path \<Longrightarrow> UnixAddress_new path = Throw LogicError"
    using h by (simp add: UnixAddress_new_def)
  assume l: "length path \<le> 107"
  let ?bs = "map byte_of_char path @ [0] @ replicate (107 - length path) 0"
  have r: "UnixAddress_new path = Ret (\<lparr>sun_family = of_nat AF_UNIX, sun_path = ?bs\<rparr>, length path + 3)"
    using h l by (simp add: UnixAddress_new_def blit_def)
  have nz: "\<forall>b\<in>set (map byte_of_char path). b \<noteq> 0" using assms(2) by (simp add: byte_of_char_zero)
  have "hd ?bs \<noteq> 0" using assms nz by (cases path) auto
  moreover have "takeWhile (\<lambda>b. b \<noteq> 0) ?bs = map byte_of_char path"
    using nz takeWhile_until [of "map byte_of_char path" "\<lambda>b. b \<noteq> 0" 0 "replicate (107 - length path) 0"] by simp
  ultimately have "Unix_insert \<lparr>sun_family = of_nat AF_UNIX, sun_path = ?bs\<rparr> (length path + 3) = Ret path"
    by (simp add: Unix_insert_def o_def)
  then show "\<exists>s. UnixAddress_new path = Ret (s, length path + 3) \<and> Unix_insert s (length path + 3) = Ret path"
    using r by blast
qed

section \<open>Memory and ports round trip\<close>

lemma host_word_bytes: "8 dvd LENGTH('a) \<Longrightarrow> host_word host (host_bytes host (w :: 'a::len word)) = w"
  by (simp add: host_word_def host_bytes_def of_le_le_bytes)

lemma load_sockaddr_in_image:
  "length (sin_zero a) = 8 \<Longrightarrow> load_sockaddr_in host (sockaddr_in_image host a) = Ret a"
  by (simp add: load_sockaddr_in_def sockaddr_in_image_def host_word_bytes)

lemma getPort_setPort: "is_ip a \<Longrightarrow> getPort host (setPort host v a) = v"
  by (auto simp: is_ip_def getPort_def setPort_def byteswapOnLittleEndian_inverse split: address.splits)

end
