(* ===== verification/Socket.thy ===== *)
theory Socket
  imports Address Hook IOManager
begin

text \<open>
  \<open>radixun/net/socket.{h,cpp}\<close>: the socket object over the hooked system calls.

  \<^item> \<open>sock\<close> holds the members of \<open>Socket\<close>; \<open>net\<close> is what the object acts on: the descriptor manager of
    \<open>FdManager\<close>, the \<open>IOManager\<close> of the thread (\<open>IOManager::GetThis()\<close>, its callbacks named by numbers) and the
    log of the system calls made, \<open>bind\<close> and \<open>listen\<close> with what they returned;
  \<^item> \<open>kernel\<close> is the argument with the results the (hooked) system calls return during one operation;
    \<open>getsockname\<close> and \<open>getpeername\<close> are functions of the address object whose memory they fill;
  \<^item> the implicit destructor call of a \<open>Socket\<close> that is dropped is \<open>close\<close>.
\<close>

definition SOCK_STREAM :: int where "SOCK_STREAM = 1"
definition SOCK_DGRAM :: int where "SOCK_DGRAM = 2"
definition SOL_SOCKET :: int where "SOL_SOCKET = 1"
definition SO_REUSEADDR :: int where "SO_REUSEADDR = 2"
definition SO_ERROR :: int where "SO_ERROR = 4"
definition IPPROTO_TCP :: int where "IPPROTO_TCP = 6"
definition TCP_NODELAY :: int where "TCP_NODELAY = 1"

record sock =
  sk_sock :: int
  sk_family :: int
  sk_type :: int
  sk_protocol :: int
  sk_isConnected :: bool
  sk_local :: "address option"
  sk_remote :: "address option"

datatype syscall =
    SysSocket int int int
  | SysSetsockopt int int int
  | SysGetsockopt int int int
  | SysBind int "byte list" nat int
  | SysListen int int int
  | SysAccept int
  | SysConnect int "byte list" nat u64
  | SysClose int
  | SysIo io_call int nat int "(byte list \<times> nat) option"
  | SysGetpeername int
  | SysGetsockname int

record net =
  n_fdm :: fd_manager
  n_iom :: "nat iom option"
  n_calls :: "syscall list"

record kernel =
  k_hook :: bool
  k_socket :: int
  k_fstat :: "bool option"
  k_bind :: int
  k_listen :: int
  k_accept :: int
  k_connect :: int
  k_io :: int
  k_setsockopt :: int
  k_getsockopt :: "int \<times> int"
  k_getsockname :: "address \<Rightarrow> int \<times> address \<times> nat"
  k_getpeername :: "address \<Rightarrow> int \<times> address \<times> nat"
  k_errno :: int
  k_epoll_ctl :: int

definition log_call :: "syscall \<Rightarrow> net \<Rightarrow> net" where
  "log_call c n = n\<lparr>n_calls := n_calls n @ [c]\<rparr>"

section \<open>Creation\<close>

definition Socket_new :: "int \<Rightarrow> int \<Rightarrow> int \<Rightarrow> sock" where
  "Socket_new family ty protocol =
     \<lparr>sk_sock = - 1, sk_family = family, sk_type = ty, sk_protocol = protocol, sk_isConnected = False,
      sk_local = None, sk_remote = None\<rparr>"

definition CreateTCP :: "address \<Rightarrow> sock" where
  "CreateTCP a = Socket_new (int (unat (getFamily a))) SOCK_STREAM 0"

definition CreateUDP :: "address \<Rightarrow> sock" where
  "CreateUDP a = Socket_new (int (unat (getFamily a))) SOCK_DGRAM 0"

definition CreateTCPSocket :: sock where "CreateTCPSocket = Socket_new (int AF_INET) SOCK_STREAM 0"
definition CreateUDPSocket :: sock where "CreateUDPSocket = Socket_new (int AF_INET) SOCK_DGRAM 0"
definition CreateTCPSocket6 :: sock where "CreateTCPSocket6 = Socket_new (int AF_INET6) SOCK_STREAM 0"
definition CreateUDPSocket6 :: sock where "CreateUDPSocket6 = Socket_new (int AF_INET6) SOCK_DGRAM 0"
definition CreateUnixTCPSocket :: sock where "CreateUnixTCPSocket = Socket_new (int AF_UNIX) SOCK_STREAM 0"
definition CreateUnixUDPSocket :: sock where "CreateUnixUDPSocket = Socket_new (int AF_UNIX) SOCK_DGRAM 0"

definition isValid :: "sock \<Rightarrow> bool" where "isValid s \<longleftrightarrow> sk_sock s \<noteq> - 1"

section \<open>Options\<close>

definition setOption :: "kernel \<Rightarrow> int \<Rightarrow> int \<Rightarrow> sock \<Rightarrow> net \<Rightarrow> bool \<times> net" where
  "setOption k level option s n =
     (k_setsockopt k = 0, log_call (SysSetsockopt (sk_sock s) level option) n)"

definition getOption :: "kernel \<Rightarrow> int \<Rightarrow> int \<Rightarrow> sock \<Rightarrow> net \<Rightarrow> (bool \<times> int) \<times> net" where
  "getOption k level option s n =
     ((fst (k_getsockopt k) = 0, snd (k_getsockopt k)), log_call (SysGetsockopt (sk_sock s) level option) n)"

definition getError :: "kernel \<Rightarrow> sock \<Rightarrow> net \<Rightarrow> int \<times> net" where
  "getError k s n =
     (let ((ok, error), n1) = getOption k SOL_SOCKET SO_ERROR s n in (if ok then error else k_errno k, n1))"

text \<open>\<open>timeval tv{int(v / 1000), int(v % 1000 * 1000)}\<close>: both narrowed to \<open>int\<close>, then widened again.\<close>

definition timeval_of :: "int \<Rightarrow> u64 \<times> u64" where
  "timeval_of v =
     (scast (word_of_int (v sdiv 1000) :: u32), scast (word_of_int (v smod 1000 * 1000) :: u32))"

definition set_timeout_option :: "kernel \<Rightarrow> int \<Rightarrow> int \<Rightarrow> sock \<Rightarrow> net \<Rightarrow> net outcome" where
  "set_timeout_option k option v s n =
     (let (tv_sec, tv_usec) = timeval_of v
      in obind (setsockopt_timeo (k_hook k) (sk_sock s) option tv_sec tv_usec (n_fdm n)) (\<lambda>m.
           Ret (log_call (SysSetsockopt (sk_sock s) SOL_SOCKET option) (n\<lparr>n_fdm := m\<rparr>))))"

definition get_timeout_option :: "int \<Rightarrow> sock \<Rightarrow> net \<Rightarrow> int outcome" where
  "get_timeout_option option s n =
     obind (fdm_get None (sk_sock s) False (n_fdm n)) (\<lambda>(ctx, _).
       case ctx of Some c \<Rightarrow> Ret (sint (getTimeout option c)) | None \<Rightarrow> Ret (- 1))"

definition setSendTimeout :: "kernel \<Rightarrow> int \<Rightarrow> sock \<Rightarrow> net \<Rightarrow> net outcome" where
  "setSendTimeout k v s n = set_timeout_option k SO_SNDTIMEO v s n"

definition getSendTimeout :: "sock \<Rightarrow> net \<Rightarrow> int outcome" where
  "getSendTimeout s n = get_timeout_option SO_SNDTIMEO s n"

definition setRecvTimeout :: "kernel \<Rightarrow> int \<Rightarrow> sock \<Rightarrow> net \<Rightarrow> net outcome" where
  "setRecvTimeout k v s n = set_timeout_option k SO_RCVTIMEO v s n"

definition getRecvTimeout :: "sock \<Rightarrow> net \<Rightarrow> int outcome" where
  "getRecvTimeout s n = get_timeout_option SO_RCVTIMEO s n"

section \<open>Addresses\<close>

definition blank_address :: "nat \<Rightarrow> int \<Rightarrow> address" where
  "blank_address host family =
     (if family = int AF_INET then IPv4Address (IPv4Address_new host 0 0)
      else if family = int AF_INET6 then IPv6Address IPv6Address_zero
      else if family = int AF_UNIX then UnixAddress (fst UnixAddress_zero) (snd UnixAddress_zero)
      else UnknownAddress (UnknownAddress_new family))"

text \<open>What the call left in the address: the length is only taken over for a Unix address.\<close>

definition named_address :: "int \<Rightarrow> address \<Rightarrow> nat \<Rightarrow> address outcome" where
  "named_address family a addrlen =
     (if family = int AF_UNIX
      then (case a of UnixAddress u n \<Rightarrow> Ret (UnixAddress u addrlen) | _ \<Rightarrow> Fault NullDeref)
      else Ret a)"

definition getRemoteAddress :: "nat \<Rightarrow> kernel \<Rightarrow> sock \<Rightarrow> net \<Rightarrow> (address \<times> sock \<times> net) outcome" where
  "getRemoteAddress host k s n =
     (case sk_remote s of
        Some a \<Rightarrow> Ret (a, s, n)
      | None \<Rightarrow>
          let (rt, a, addrlen) = k_getpeername k (blank_address host (sk_family s));
              n1 = log_call (SysGetpeername (sk_sock s)) n
          in if rt \<noteq> 0 then Ret (UnknownAddress (UnknownAddress_new (sk_family s)), s, n1)
             else obind (named_address (sk_family s) a addrlen) (\<lambda>r. Ret (r, s\<lparr>sk_remote := Some r\<rparr>, n1)))"

definition getLocalAddress :: "nat \<Rightarrow> kernel \<Rightarrow> sock \<Rightarrow> net \<Rightarrow> (address \<times> sock \<times> net) outcome" where
  "getLocalAddress host k s n =
     (case sk_local s of
        Some a \<Rightarrow> Ret (a, s, n)
      | None \<Rightarrow>
          let (rt, a, addrlen) = k_getsockname k (blank_address host (sk_family s));
              n1 = log_call (SysGetsockname (sk_sock s)) n
          in if rt \<noteq> 0 then Ret (UnknownAddress (UnknownAddress_new (sk_family s)), s, n1)
             else obind (named_address (sk_family s) a addrlen) (\<lambda>r. Ret (r, s\<lparr>sk_local := Some r\<rparr>, n1)))"

section \<open>Life cycle\<close>

definition initSock :: "kernel \<Rightarrow> sock \<Rightarrow> net \<Rightarrow> net" where
  "initSock k s n =
     (let n1 = snd (setOption k SOL_SOCKET SO_REUSEADDR s n)
      in if sk_type s = SOCK_STREAM then snd (setOption k IPPROTO_TCP TCP_NODELAY s n1) else n1)"

definition newSock :: "kernel \<Rightarrow> sock \<Rightarrow> net \<Rightarrow> (sock \<times> net) outcome" where
  "newSock k s n =
     (let n1 = log_call (SysSocket (sk_family s) (sk_type s) (sk_protocol s)) n
      in obind (hooked_socket (k_hook k) (k_socket k) (k_fstat k) (n_fdm n1)) (\<lambda>(fd, m).
           let s1 = s\<lparr>sk_sock := fd\<rparr>; n2 = n1\<lparr>n_fdm := m\<rparr>
           in Ret (s1, if fd \<noteq> - 1 then initSock k s1 n2 else n2)))"

definition sock_init :: "nat \<Rightarrow> kernel \<Rightarrow> int \<Rightarrow> sock \<Rightarrow> net \<Rightarrow> (bool \<times> sock \<times> net) outcome" where
  "sock_init host k fd s n =
     obind (fdm_get None fd False (n_fdm n)) (\<lambda>(ctx, _).
       case ctx of
         None \<Rightarrow> Ret (False, s, n)
       | Some c \<Rightarrow>
           if fx_isSocket c \<and> \<not> fx_isClosed c then
             let s1 = s\<lparr>sk_sock := fd, sk_isConnected := True\<rparr>; n1 = initSock k s1 n
             in obind (getLocalAddress host k s1 n1) (\<lambda>(_, s2, n2).
                obind (getRemoteAddress host k s2 n2) (\<lambda>(_, s3, n3). Ret (True, s3, n3)))
           else Ret (False, s, n))"

definition sock_close :: "kernel \<Rightarrow> sock \<Rightarrow> net \<Rightarrow> (bool \<times> sock \<times> net) outcome" where
  "sock_close k s n =
     (if \<not> sk_isConnected s \<and> sk_sock s = - 1 then Ret (True, s, n)
      else let s1 = s\<lparr>sk_isConnected := False\<rparr>
           in if sk_sock s \<noteq> - 1
              then obind (if k_hook k then hook_close (k_epoll_ctl k) (sk_sock s) (n_fdm n) (n_iom n)
                          else Ret (n_fdm n, n_iom n)) (\<lambda>(m, iom).
                   Ret (False, s1\<lparr>sk_sock := - 1\<rparr>,
                        log_call (SysClose (sk_sock s)) (n\<lparr>n_fdm := m, n_iom := iom\<rparr>)))
              else Ret (False, s1, n))"

text \<open>Opening the descriptor on first use, as \<open>bind\<close> and \<open>connect\<close> do.\<close>

definition ensure_open :: "kernel \<Rightarrow> sock \<Rightarrow> net \<Rightarrow> (bool \<times> sock \<times> net) outcome" where
  "ensure_open k s n =
     (if isValid s then Ret (True, s, n)
      else obind (newSock k s n) (\<lambda>(s1, n1). Ret (isValid s1, s1, n1)))"

definition sock_bind :: "nat \<Rightarrow> kernel \<Rightarrow> address \<Rightarrow> sock \<Rightarrow> net \<Rightarrow> (bool \<times> sock \<times> net) outcome" where
  "sock_bind host k addr s n =
     obind (ensure_open k s n) (\<lambda>(ok, s1, n1).
       if \<not> ok then Ret (False, s1, n1)
       else if int (unat (getFamily addr)) \<noteq> sk_family s1 then Ret (False, s1, n1)
       else let n2 = log_call (SysBind (sk_sock s1) (getAddr host addr) (getAddrLen addr) (k_bind k)) n1
            in if k_bind k \<noteq> 0 then Ret (False, s1, n2)
               else obind (getLocalAddress host k s1 n2) (\<lambda>(_, s3, n3). Ret (True, s3, n3)))"

definition sock_listen :: "kernel \<Rightarrow> int \<Rightarrow> sock \<Rightarrow> net \<Rightarrow> bool \<times> net" where
  "sock_listen k backlog s n =
     (if \<not> isValid s then (False, n)
      else (k_listen k = 0, log_call (SysListen (sk_sock s) backlog (k_listen k)) n))"

text \<open>The hooked \<open>accept\<close> registers the new descriptor before it returns it.\<close>

definition sock_accept :: "nat \<Rightarrow> kernel \<Rightarrow> sock \<Rightarrow> net \<Rightarrow> (sock option \<times> net) outcome" where
  "sock_accept host k s n =
     (let sk = Socket_new (sk_family s) (sk_type s) (sk_protocol s);
          n1 = log_call (SysAccept (sk_sock s)) n;
          newsock = k_accept k
      in obind (if newsock \<ge> 0 then obind (fdm_get (k_fstat k) newsock True (n_fdm n1)) (\<lambda>(_, m). Ret m)
                else Ret (n_fdm n1)) (\<lambda>m.
         let n2 = n1\<lparr>n_fdm := m\<rparr>
         in if newsock = - 1 then obind (sock_close k sk n2) (\<lambda>(_, _, n3). Ret (None, n3))
            else obind (sock_init host k newsock sk n2) (\<lambda>(ok, s3, n3).
                   if ok then Ret (Some s3, n3)
                   else obind (sock_close k s3 n3) (\<lambda>(_, _, n4). Ret (None, n4)))))"

definition sock_connect :: "nat \<Rightarrow> kernel \<Rightarrow> address \<Rightarrow> u64 \<Rightarrow> sock \<Rightarrow> net \<Rightarrow> (bool \<times> sock \<times> net) outcome" where
  "sock_connect host k addr timeout_ms s n =
     obind (ensure_open k s n) (\<lambda>(ok, s1, n1).
       if \<not> ok then Ret (False, s1, n1)
       else if int (unat (getFamily addr)) \<noteq> sk_family s1 then Ret (False, s1, n1)
       else let n2 = log_call (SysConnect (sk_sock s1) (getAddr host addr) (getAddrLen addr) timeout_ms) n1
            in if k_connect k \<noteq> 0
               then obind (sock_close k s1 n2) (\<lambda>(_, s3, n3). Ret (False, s3, n3))
               else obind (getRemoteAddress host k (s1\<lparr>sk_isConnected := True\<rparr>) n2) (\<lambda>(_, s3, n3).
                    obind (getLocalAddress host k s3 n3) (\<lambda>(_, s4, n4). Ret (True, s4, n4))))"

section \<open>Input and output\<close>

text \<open>The \<open>ssize_t\<close> of the call is returned as an \<open>int\<close>.\<close>

definition guarded_io :: "kernel \<Rightarrow> io_call \<Rightarrow> nat \<Rightarrow> int \<Rightarrow> (byte list \<times> nat) option \<Rightarrow> sock \<Rightarrow> net \<Rightarrow> int \<times> net" where
  "guarded_io k c len flags to s n =
     (if sk_isConnected s
      then (sint (word_of_int (k_io k) :: u32), log_call (SysIo c (sk_sock s) len flags to) n)
      else (- 1, n))"

definition sock_send :: "kernel \<Rightarrow> nat \<Rightarrow> int \<Rightarrow> sock \<Rightarrow> net \<Rightarrow> int \<times> net" where
  "sock_send k len flags = guarded_io k Send len flags None"

definition sock_send_iov :: "kernel \<Rightarrow> nat \<Rightarrow> int \<Rightarrow> sock \<Rightarrow> net \<Rightarrow> int \<times> net" where
  "sock_send_iov k len flags = guarded_io k Sendmsg len flags None"

definition sock_sendTo :: "nat \<Rightarrow> kernel \<Rightarrow> nat \<Rightarrow> address \<Rightarrow> int \<Rightarrow> sock \<Rightarrow> net \<Rightarrow> int \<times> net" where
  "sock_sendTo host k len to flags = guarded_io k Sendto len flags (Some (getAddr host to, getAddrLen to))"

definition sock_sendTo_iov :: "nat \<Rightarrow> kernel \<Rightarrow> nat \<Rightarrow> address \<Rightarrow> int \<Rightarrow> sock \<Rightarrow> net \<Rightarrow> int \<times> net" where
  "sock_sendTo_iov host k len to flags = guarded_io k Sendmsg len flags (Some (getAddr host to, getAddrLen to))"

definition sock_recv :: "kernel \<Rightarrow> nat \<Rightarrow> int \<Rightarrow> sock \<Rightarrow> net \<Rightarrow> int \<times> net" where
  "sock_recv k len flags = guarded_io k Recv len flags None"

definition sock_recv_iov :: "kernel \<Rightarrow> nat \<Rightarrow> int \<Rightarrow> sock \<Rightarrow> net \<Rightarrow> int \<times> net" where
  "sock_recv_iov k len flags = guarded_io k Recvmsg len flags None"

definition sock_recvFrom :: "nat \<Rightarrow> kernel \<Rightarrow> nat \<Rightarrow> address \<Rightarrow> int \<Rightarrow> sock \<Rightarrow> net \<Rightarrow> int \<times> net" where
  "sock_recvFrom host k len from_addr flags =
     guarded_io k Recvfrom len flags (Some (getAddr host from_addr, getAddrLen from_addr))"

definition sock_recvFrom_iov :: "nat \<Rightarrow> kernel \<Rightarrow> nat \<Rightarrow> address \<Rightarrow> int \<Rightarrow> sock \<Rightarrow> net \<Rightarrow> int \<times> net" where
  "sock_recvFrom_iov host k len from_addr flags =
     guarded_io k Recvmsg len flags (Some (getAddr host from_addr, getAddrLen from_addr))"

section \<open>Events and printing\<close>

definition cancelRead :: "int \<Rightarrow> 'c iom option \<Rightarrow> sock \<Rightarrow> (bool \<times> 'c iom) outcome" where
  "cancelRead rt this s = obind (deref this) (cancelEvent rt (sk_sock s) READ)"

definition cancelWrite :: "int \<Rightarrow> 'c iom option \<Rightarrow> sock \<Rightarrow> (bool \<times> 'c iom) outcome" where
  "cancelWrite rt this s = obind (deref this) (cancelEvent rt (sk_sock s) WRITE)"

definition cancelAccept :: "int \<Rightarrow> 'c iom option \<Rightarrow> sock \<Rightarrow> (bool \<times> 'c iom) outcome" where
  "cancelAccept rt this s = obind (deref this) (cancelEvent rt (sk_sock s) READ)"

definition sock_cancelAll :: "int \<Rightarrow> 'c iom option \<Rightarrow> sock \<Rightarrow> (bool \<times> 'c iom) outcome" where
  "sock_cancelAll rt this s = obind (deref this) (cancelAll rt (sk_sock s))"

definition int_string :: "int \<Rightarrow> string" where
  "int_string i = (if i < 0 then ''-'' @ dec_string (nat (- i)) else dec_string (nat i))"

definition opt_address :: "nat \<Rightarrow> string \<Rightarrow> address option \<Rightarrow> string outcome" where
  "opt_address host label a =
     (case a of None \<Rightarrow> Ret [] | Some x \<Rightarrow> obind (Address_toString host x) (\<lambda>t. Ret (label @ t)))"

definition sock_dump :: "nat \<Rightarrow> sock \<Rightarrow> string outcome" where
  "sock_dump host s =
     obind (opt_address host '' local_address='' (sk_local s)) (\<lambda>l.
     obind (opt_address host '' remote_address='' (sk_remote s)) (\<lambda>r.
     Ret (''[Socket sock='' @ int_string (sk_sock s) @
          '' is_connected='' @ (if sk_isConnected s then ''1'' else ''0'') @
          '' family='' @ int_string (sk_family s) @ '' type='' @ int_string (sk_type s) @
          '' protocol='' @ int_string (sk_protocol s) @ l @ r @ '']'')))"

section \<open>Closing\<close>

definition sock_ok :: "sock \<Rightarrow> bool" where
  "sock_ok s \<longleftrightarrow> (sk_isConnected s \<longrightarrow> sk_sock s \<noteq> - 1) \<and> - 1 \<le> sk_sock s"

lemma sock_ok_new: "sock_ok (Socket_new f t p)"
  by (simp add: sock_ok_def Socket_new_def)

text \<open>What the hooked \<open>close\<close> does to the thread's \<open>IOManager\<close> when the descriptor is known.\<close>

definition events_cancelled :: "int \<Rightarrow> int \<Rightarrow> nat iom option \<Rightarrow> nat iom option \<Rightarrow> bool" where
  "events_cancelled rt fd this this' \<longleftrightarrow>
     (case this of
        None \<Rightarrow> this' = None
      | Some i \<Rightarrow> (\<exists>i'. this' = Some i' \<and> iom_inv i'
          \<and> (if valid_fd fd i \<and> fc_events (ctx_at i fd) \<noteq> 0 \<and> rt = 0
             then fc_events (ctx_at i' fd) = 0
               \<and> io_scheduled i' = io_scheduled i @ tasks_of (fc_events (ctx_at i fd)) (ctx_at i fd)
             else i' = i)))"

lemma hook_close_ok:
  assumes "0 \<le> fd" "\<forall>i. this = Some i \<longrightarrow> iom_inv i"
  shows "\<exists>m' this'. hook_close rt fd m this = Ret (m', this') \<and> fdm_at m' fd = None
    \<and> (if fdm_at m fd = None then this' = this else events_cancelled rt fd this this')"
proof (cases "fdm_at m fd")
  case None
  then have "hook_close rt fd m this = Ret (m, this)"
    using assms(1) by (auto simp: hook_close_def fdm_get_def fdm_at_def split: if_splits)
  with None show ?thesis by simp
next
  case (Some c)
  then have g: "fdm_get None fd False m = Ret (Some c, m)" and l: "fd < int (length (fm_datas m))"
    by (auto simp: fdm_get_def fdm_at_def split: if_splits)
  let ?m' = "m\<lparr>fm_datas := (fm_datas m)[nat fd := None]\<rparr>"
  have d: "fdm_del fd m = Ret ?m'" "fdm_at ?m' fd = None"
    using assms(1) l by (simp_all add: fdm_del_def fdm_at_def nat_less_iff)
  show ?thesis
  proof (cases this)
    case None
    then have "hook_close rt fd m this = Ret (?m', None)" using g d by (simp add: hook_close_def)
    then show ?thesis using d(2) Some None by (simp add: events_cancelled_def)
  next
    case (Some i)
    have i: "iom_inv i" using assms(2) Some by simp
    from cancelAll_ok [OF i assms(1), of rt] obtain r i' where c: "cancelAll rt fd i = Ret (r, i')"
      and e: "events_cancelled rt fd this (Some i')"
      using i by (auto simp: Some events_cancelled_def split: if_splits)
    have "hook_close rt fd m this = Ret (?m', Some i')" using g d c Some by (simp add: hook_close_def)
    then show ?thesis using d(2) e \<open>fdm_at m fd = Some c\<close> by simp
  qed
qed

text \<open>C37. Closing an open socket, on a thread whose \<open>IOManager\<close> (if it has one) keeps its invariant. The call
  returns, calls \<open>close\<close> once on the descriptor and forgets it in the object, whose further \<open>close\<close>, the
  destructor's included, makes no call. With the hooks enabled the descriptor manager forgets the descriptor, and
  when it knew it, the thread's \<open>IOManager\<close> cancels the descriptor's events: every waiting task is scheduled and
  none stays registered (unless \<open>epoll_ctl\<close> fails). With the hooks disabled both managers are left as they were,
  the descriptor's context included.\<close>

theorem close_releases_descriptor_once:
  assumes "sock_ok s" "isValid s" "\<forall>i. n_iom n = Some i \<longrightarrow> iom_inv i"
  shows "\<exists>s' n'. sock_close k s n = Ret (False, s', n')
    \<and> n_calls n' = n_calls n @ [SysClose (sk_sock s)]
    \<and> (if k_hook k
       then fdm_at (n_fdm n') (sk_sock s) = None
         \<and> (if fdm_at (n_fdm n) (sk_sock s) = None then n_iom n' = n_iom n
            else events_cancelled (k_epoll_ctl k) (sk_sock s) (n_iom n) (n_iom n'))
       else n_fdm n' = n_fdm n \<and> n_iom n' = n_iom n)
    \<and> sk_sock s' = - 1 \<and> \<not> sk_isConnected s' \<and> sock_close k s' n' = Ret (True, s', n')"
proof (cases "k_hook k")
  case True
  have "0 \<le> sk_sock s" using assms by (auto simp: sock_ok_def isValid_def)
  then obtain m iom where h: "hook_close (k_epoll_ctl k) (sk_sock s) (n_fdm n) (n_iom n) = Ret (m, iom)"
    "fdm_at m (sk_sock s) = None" "if fdm_at (n_fdm n) (sk_sock s) = None then iom = n_iom n
       else events_cancelled (k_epoll_ctl k) (sk_sock s) (n_iom n) iom"
    using hook_close_ok [OF _ assms(3)] by blast
  let ?s' = "s\<lparr>sk_isConnected := False, sk_sock := - 1\<rparr>"
  let ?n' = "log_call (SysClose (sk_sock s)) (n\<lparr>n_fdm := m, n_iom := iom\<rparr>)"
  have "sock_close k s n = Ret (False, ?s', ?n')" "sock_close k ?s' ?n' = Ret (True, ?s', ?n')"
    using True assms(2) h(1) by (simp_all add: sock_close_def isValid_def)
  then show ?thesis using True h(2,3)
    by (intro exI [of _ ?s'] exI [of _ ?n']) (simp add: log_call_def)
next
  case False
  then show ?thesis using assms(2) by (simp add: sock_close_def isValid_def log_call_def)
qed

text \<open>A kernel whose calls succeed, for the concrete instances.\<close>

definition plain_kernel :: "address \<Rightarrow> kernel" where
  "plain_kernel peer =
     \<lparr>k_hook = True, k_socket = 7, k_fstat = Some True, k_bind = 0, k_listen = 0, k_accept = 8,
      k_connect = 0, k_io = 5, k_setsockopt = 0, k_getsockopt = (0, 0),
      k_getsockname = (\<lambda>a. (0, a, 16)), k_getpeername = (\<lambda>_. (0, peer, 16)), k_errno = 0,
      k_epoll_ctl = 0\<rparr>"

definition plain_net :: net where
  "plain_net = \<lparr>n_fdm = FdManager_new (\<lambda>_. 0), n_iom = None, n_calls = []\<rparr>"

definition opened :: "(sock \<times> net)" where
  "opened = (case newSock (plain_kernel (IPv4Address (IPv4Address_new 1 0 0))) CreateTCPSocket plain_net of Ret x \<Rightarrow> x)"

text \<open>A thread whose \<open>IOManager\<close> has a reader waiting on descriptor 7.\<close>

definition reader_iom :: "nat iom" where
  "reader_iom = (case addEvent 0 (Some 3) (77, EXEC) 7 READ None IOManager_new of Ret (_, i) \<Rightarrow> i)"

lemma reader_iom_inv: "iom_inv reader_iom"
proof -
  have l: "32 \<le> length (io_contexts (IOManager_new :: nat iom))" by (simp add: IOManager_new_def contextResize_def)
  have h: "\<not> has READ (ctx_at (iom_grow 7 (IOManager_new :: nat iom)) 7)"
    by (simp add: iom_grow_def IOManager_new_def contextResize_def ctx_at_def has_def fresh_context_def NONE_def)
  show ?thesis using addEvent_ok(3) [OF IOManager_new_inv l _ _ _ h refl, of None "(77, EXEC)" 3]
    by (auto simp: reader_iom_def)
qed

theorem close_releases_descriptor_once_witness:
  "\<exists>s' n' i'. sock_close (plain_kernel (IPv4Address (IPv4Address_new 1 0 0))) (fst opened) ((snd opened)\<lparr>n_iom := Some reader_iom\<rparr>)
      = Ret (False, s', n')
    \<and> n_calls n' = n_calls (snd opened) @ [SysClose 7] \<and> sk_sock s' = - 1 \<and> fdm_at (n_fdm n') 7 = None
    \<and> n_iom n' = Some i' \<and> io_scheduled i' = [(3, ByFiber (Some 77))]"
proof -
  let ?n = "(snd opened)\<lparr>n_iom := Some reader_iom\<rparr>" and ?k = "plain_kernel (IPv4Address (IPv4Address_new 1 0 0))"
  have f: "sk_sock (fst opened) = 7" by code_simp
  have o: "sock_ok (fst opened)" "isValid (fst opened)" by code_simp+
  have "fdm_at (n_fdm (snd opened)) 7 \<noteq> None" by code_simp
  moreover have "fc_events (ctx_at reader_iom 7) \<noteq> 0" "valid_fd 7 reader_iom"
    "io_scheduled reader_iom @ tasks_of (fc_events (ctx_at reader_iom 7)) (ctx_at reader_iom 7) = [(3, ByFiber (Some 77))]"
    by code_simp+
  moreover have "k_hook ?k" "k_epoll_ctl ?k = 0" by (simp_all add: plain_kernel_def)
  ultimately show ?thesis
    using close_releases_descriptor_once [OF o, of ?n ?k] reader_iom_inv unfolding f
    by (auto simp: events_cancelled_def)
qed

section \<open>Timeouts\<close>

lemma sdiv_smod_1000: "v sdiv 1000 * 1000 + v smod 1000 = (v :: int)"
  by (rule sdiv_mult_smod_eq)

lemma scast_narrow:
  assumes "- (2 ^ 31) \<le> i" "i < 2 ^ 31"
  shows "(scast (word_of_int i :: u32) :: u64) = word_of_int i"
proof -
  have "signed_take_bit 31 i = i" using assms by (intro signed_take_bit_int_eq_self) auto
  then show ?thesis by (simp add: signed_of_int)
qed

lemma sint_word_of_int_u64:
  assumes "- (2 ^ 63) \<le> i" "i < 2 ^ 63"
  shows "sint (word_of_int i :: u64) = i"
proof -
  have "signed_take_bit 63 i = i" using assms by (intro signed_take_bit_int_eq_self) auto
  then show ?thesis by (simp add: signed_of_int)
qed

lemma sdiv_bounds: "\<bar>v sdiv 1000\<bar> \<le> \<bar>v :: int\<bar> div 1000"
  by (simp add: signed_divide_int_def abs_mult abs_sgn_eq)

lemma smod_bounds: "\<bar>v smod 1000\<bar> < (1000 :: int)"
  using smod_int_range [of 1000 v] by auto

lemma timeval_ms_of:
  assumes "\<bar>v\<bar> < 2 ^ 31 * 1000"
  shows "(case timeval_of v of (a, b) \<Rightarrow> timeval_ms a b) = word_of_int v"
proof -
  have q: "- (2 ^ 31) \<le> v sdiv 1000" "v sdiv 1000 < 2 ^ 31"
    using sdiv_bounds [of v] assms by linarith+
  have r: "- (2 ^ 31) \<le> v smod 1000 * 1000" "v smod 1000 * 1000 < 2 ^ 31"
    using smod_bounds [of v] unfolding abs_less_iff by simp_all
  have s: "sint (word_of_int (v smod 1000 * 1000) :: u64) = v smod 1000 * 1000"
    using r by (intro sint_word_of_int_u64) simp_all
  have d: "(v smod 1000 * 1000) sdiv 1000 = v smod 1000"
    by (simp add: signed_divide_int_def sgn_mult abs_mult sgn_mult_abs)
  have "timeval_of v = (word_of_int (v sdiv 1000), word_of_int (v smod 1000 * 1000))"
    by (simp only: timeval_of_def scast_narrow [OF q] scast_narrow [OF r])
  then have "(case timeval_of v of (a, b) \<Rightarrow> timeval_ms a b)
      = word_of_int (v sdiv 1000) * 1000 + word_of_int (v smod 1000)"
    by (simp only: prod.case timeval_ms_def s d)
  also have "\<dots> = word_of_int (v sdiv 1000 * 1000 + v smod 1000)" by simp
  finally show ?thesis by (simp only: sdiv_smod_1000)
qed

lemma fdm_get_managed: "fdm_at m fd = Some c \<Longrightarrow> fdm_get fs fd False m = Ret (Some c, m)"
  by (auto simp: fdm_at_def fdm_get_def split: if_splits)

lemma fdm_at_put_same: "fdm_at m fd = Some c \<Longrightarrow> fdm_at (fdm_put fd c' m) fd = Some c'"
  by (auto simp: fdm_at_def fdm_put_def split: if_splits)

text \<open>A timeout of less than 2^31 seconds set on a socket the descriptor manager knows is the timeout
  that is read back, also a negative one, and the other direction's timeout is unchanged.\<close>

theorem socket_timeout_roundtrip:
  assumes "k_hook k" "fdm_at (n_fdm n) (sk_sock s) = Some c" "\<bar>v\<bar> < 2 ^ 31 * 1000"
  shows "(\<exists>n'. setSendTimeout k v s n = Ret n' \<and> getSendTimeout s n' = Ret v
      \<and> getRecvTimeout s n' = getRecvTimeout s n)
    \<and> (\<exists>n'. setRecvTimeout k v s n = Ret n' \<and> getRecvTimeout s n' = Ret v
      \<and> getSendTimeout s n' = getSendTimeout s n)"
proof -
  have v: "sint (word_of_int v :: u64) = v"
    using assms(3) by (intro sint_word_of_int_u64) auto
  obtain a b where ab: "timeval_of v = (a, b)" by fastforce
  then have ms: "timeval_ms a b = word_of_int v" using timeval_ms_of [OF assms(3)] by simp
  note defs = setSendTimeout_def setRecvTimeout_def set_timeout_option_def setsockopt_timeo_def
    getSendTimeout_def getRecvTimeout_def get_timeout_option_def log_call_def
    fdm_get_managed [OF assms(2)] fdm_get_managed [OF fdm_at_put_same [OF assms(2)]] ab ms
    setTimeout_def getTimeout_def SO_RCVTIMEO_def SO_SNDTIMEO_def
  have "\<exists>n'. setSendTimeout k v s n = Ret n' \<and> getSendTimeout s n' = Ret v
      \<and> getRecvTimeout s n' = getRecvTimeout s n"
    using assms(1) v by (simp add: defs)
  moreover have "\<exists>n'. setRecvTimeout k v s n = Ret n' \<and> getRecvTimeout s n' = Ret v
      \<and> getSendTimeout s n' = getSendTimeout s n"
    using assms(1) v by (simp add: defs)
  ultimately show ?thesis by blast
qed

theorem socket_timeout_roundtrip_witness:
  "\<exists>n'. setSendTimeout (plain_kernel (IPv4Address (IPv4Address_new 1 0 0))) 1500 (fst opened) (snd opened) = Ret n'
    \<and> getSendTimeout (fst opened) n' = Ret 1500"
proof -
  have "case fdm_at (n_fdm (snd opened)) (sk_sock (fst opened)) of None \<Rightarrow> False | Some c \<Rightarrow> True" by code_simp
  then obtain c where "fdm_at (n_fdm (snd opened)) (sk_sock (fst opened)) = Some c"
    by (auto split: option.splits)
  from socket_timeout_roundtrip [OF _ this, of "plain_kernel (IPv4Address (IPv4Address_new 1 0 0))" 1500]
  show ?thesis by (auto simp: plain_kernel_def)
qed

section \<open>Addresses survive the connection they name\<close>

lemma sock_close_keeps_addresses:
  "sock_close k s n = Ret (r, s', n') \<Longrightarrow>
   sk_remote s' = sk_remote s \<and> sk_local s' = sk_local s \<and> sk_family s' = sk_family s"
  by (auto simp: sock_close_def obind_Ret_iff Let_def split: if_splits)

lemma ensure_open_keeps:
  "ensure_open k s n = Ret (r, s', n') \<Longrightarrow>
   sk_remote s' = sk_remote s \<and> sk_local s' = sk_local s \<and> sk_family s' = sk_family s"
  by (auto simp: ensure_open_def newSock_def Let_def obind_Ret_iff split: if_splits)

lemma getAddress_cached:
  "sk_remote s = Some a \<Longrightarrow> getRemoteAddress host k s n = Ret (a, s, n)"
  "sk_local s = Some a \<Longrightarrow> getLocalAddress host k s n = Ret (a, s, n)"
  by (simp_all add: getRemoteAddress_def getLocalAddress_def)

text \<open>A socket object that is closed and connected again still answers with the peer address of its
  first connection, whatever peer the second connection has.\<close>

theorem reconnect_reports_old_peer:
  assumes "sk_remote s = Some a" "sk_local s = Some l"
    and "sock_close k1 s n = Ret (b, s1, n1)"
    and "sock_connect host k2 addr timeout_ms s1 n1 = Ret (True, s2, n2)"
  shows "getRemoteAddress host k3 s2 n2 = Ret (a, s2, n2) \<and> getLocalAddress host k3 s2 n2 = Ret (l, s2, n2)"
proof -
  have c: "sk_remote s1 = Some a" "sk_local s1 = Some l"
    using sock_close_keeps_addresses [OF assms(3)] assms(1,2) by simp_all
  have "sk_remote s2 = Some a \<and> sk_local s2 = Some l"
    using assms(4) c ensure_open_keeps
    by (fastforce simp: sock_connect_def Let_def obind_Ret_iff getAddress_cached split: if_splits)
  then show ?thesis by (simp add: getAddress_cached)
qed

definition addr_1 :: address where "addr_1 = IPv4Address (IPv4Address_new 1 0x0a000001 80)"
definition addr_2 :: address where "addr_2 = IPv4Address (IPv4Address_new 1 0x0a000002 80)"

text \<open>Connect to the first peer, close, connect to the second.\<close>

definition connected_once :: "(sock \<times> net) outcome" where
  "connected_once = obind (sock_connect 1 (plain_kernel addr_1) addr_1 (- 1) CreateTCPSocket plain_net) (\<lambda>(_, s, n). Ret (s, n))"

definition closed_once :: "(bool \<times> sock \<times> net) outcome" where
  "closed_once = obind connected_once (\<lambda>(s, n). sock_close (plain_kernel addr_1) s n)"

definition connected_twice :: "(bool \<times> sock \<times> net) outcome" where
  "connected_twice = obind closed_once (\<lambda>(_, s, n). sock_connect 1 (plain_kernel addr_2) addr_2 (- 1) s n)"

theorem reconnect_reports_old_peer_witness:
  "\<exists>s n. connected_twice = Ret (True, s, n) \<and> getRemoteAddress 1 (plain_kernel addr_2) s n = Ret (addr_1, s, n)"
proof -
  have "case connected_once of Ret (s, n) \<Rightarrow> sk_remote s = Some addr_1 \<and> sk_local s \<noteq> None | _ \<Rightarrow> False"
    by code_simp
  then obtain s n l where sn: "connected_once = Ret (s, n)" "sk_remote s = Some addr_1" "sk_local s = Some l"
    by (auto split: outcome.splits prod.splits)
  have "is_Ret closed_once" by code_simp
  then obtain b s1 n1 where c: "closed_once = Ret (b, s1, n1)" by (auto simp: is_Ret_iff)
  have "case connected_twice of Ret (True, s, n) \<Rightarrow> True | _ \<Rightarrow> False" by code_simp
  then obtain s2 n2 where t: "connected_twice = Ret (True, s2, n2)"
    by (auto split: outcome.splits prod.splits bool.splits)
  have "sock_close (plain_kernel addr_1) s n = Ret (b, s1, n1)" using c unfolding closed_once_def sn(1) by simp
  moreover have "sock_connect 1 (plain_kernel addr_2) addr_2 (- 1) s1 n1 = Ret (True, s2, n2)"
    using t unfolding connected_twice_def c by simp
  ultimately show ?thesis using reconnect_reports_old_peer [OF sn(2,3)] t by blast
qed

text \<open>A datagram socket that was only bound can neither send nor receive: no call is made.\<close>

lemma unconnected_io_refused:
  assumes "\<not> sk_isConnected s"
  shows "sock_sendTo host k len to flags s n = (- 1, n)" "sock_recvFrom host k len to flags s n = (- 1, n)"
    "sock_send k len flags s n = (- 1, n)" "sock_recv k len flags s n = (- 1, n)"
  using assms by (simp_all add: sock_sendTo_def sock_recvFrom_def sock_send_def sock_recv_def guarded_io_def)

lemma getLocalAddress_connected:
  "getLocalAddress host k s n = Ret (a, s', n') \<Longrightarrow> sk_isConnected s' = sk_isConnected s"
  by (auto simp: getLocalAddress_def obind_Ret_iff Let_def split: option.splits prod.splits if_splits)

lemma ensure_open_connected: "ensure_open k s n = Ret (r, s', n') \<Longrightarrow> sk_isConnected s' = sk_isConnected s"
  by (auto simp: ensure_open_def newSock_def Let_def obind_Ret_iff split: if_splits)

lemma bind_does_not_connect:
  "sock_bind host k a s n = Ret (r, s', n') \<Longrightarrow> sk_isConnected s' = sk_isConnected s"
  by (auto simp: sock_bind_def Let_def obind_Ret_iff split: if_splits
      dest!: ensure_open_connected getLocalAddress_connected)

end
