(* ===== verification/Stream.thy ===== *)
theory Stream
  imports Socket ByteArray_IO
begin

text \<open>
  \<open>radixun/common/stream.{h,cpp}\<close> and \<open>radixun/net/socket_stream.{h,cpp}\<close>: byte streams.

  \<^item> the virtual \<open>read\<close> and \<open>write\<close> of a \<open>Stream\<close> are the function arguments \<open>rd\<close> and \<open>wr\<close> of the
    fixed-size loops; the loops have fuel (one unit per call), \<open>None\<close> saying that it ran out;
  \<^item> \<open>size_t len = read(...)\<close> is kept: a negative \<open>int\<close> becomes a huge \<open>size_t\<close>;
  \<^item> a \<open>sock_stream\<close> holds the socket, and the peer as a function: what the \<open>i\<close>-th receive of at most
    \<open>n\<close> bytes returns and stores, what the \<open>i\<close>-th send returns.
\<close>

section \<open>The fixed-size loops\<close>

type_synonym 's reader = "'s \<Rightarrow> nat \<Rightarrow> (int \<times> byte list) \<times> 's"
type_synonym 's writer = "'s \<Rightarrow> byte list \<Rightarrow> int \<times> 's"
type_synonym 's ba_io = "'s \<Rightarrow> byte_array \<Rightarrow> nat \<Rightarrow> (int \<times> byte_array \<times> 's) outcome"

fun read_fix_loop :: "nat \<Rightarrow> 's reader \<Rightarrow> nat \<Rightarrow> nat \<Rightarrow> nat \<Rightarrow> byte list \<Rightarrow> 's
    \<Rightarrow> ((int \<times> byte list) outcome \<times> 's) option" where
  "read_fix_loop 0 rd want offset left buf s = None"
| "read_fix_loop (Suc fuel) rd want offset left buf s =
     (if left > 0 then
        let ((r, d), s1) = rd s left; len = to_size r
        in if d \<noteq> [] \<and> \<not> offset + length d \<le> length buf then Some (Fault OutOfBounds, s1)
           else let buf1 = (if d = [] then buf else blit offset d buf)
                in if len = 0 then Some (Ret (to_int len, buf1), s1)
                   else read_fix_loop fuel rd want (size_add offset len) (size_sub left len) buf1 s1
      else Some (Ret (to_int want, buf), s))"

definition readFixSize :: "nat \<Rightarrow> 's reader \<Rightarrow> nat \<Rightarrow> byte list \<Rightarrow> 's \<Rightarrow> ((int \<times> byte list) outcome \<times> 's) option" where
  "readFixSize fuel rd len buf s = read_fix_loop fuel rd len 0 len buf s"

text \<open>A write that is given memory outside the buffer is a fault.\<close>

fun write_fix_loop :: "nat \<Rightarrow> 's writer \<Rightarrow> nat \<Rightarrow> nat \<Rightarrow> nat \<Rightarrow> byte list \<Rightarrow> 's \<Rightarrow> (int outcome \<times> 's) option" where
  "write_fix_loop 0 wr want offset left buf s = None"
| "write_fix_loop (Suc fuel) wr want offset left buf s =
     (if left > 0 then
        (if offset + left \<le> length buf then
           let (r, s1) = wr s (take left (drop offset buf)); len = to_size r
           in if len = 0 then Some (Ret (to_int len), s1)
              else write_fix_loop fuel wr want (size_add offset len) (size_sub left len) buf s1
         else Some (Fault OutOfBounds, s))
      else Some (Ret (to_int want), s))"

definition writeFixSize :: "nat \<Rightarrow> 's writer \<Rightarrow> nat \<Rightarrow> byte list \<Rightarrow> 's \<Rightarrow> (int outcome \<times> 's) option" where
  "writeFixSize fuel wr len buf s = write_fix_loop fuel wr len 0 len buf s"

text \<open>The overloads over a \<open>ByteArray\<close>; \<open>read\<close> and \<open>write\<close> have the same loop.\<close>

fun ba_fix_loop :: "nat \<Rightarrow> 's ba_io \<Rightarrow> nat \<Rightarrow> nat \<Rightarrow> byte_array \<Rightarrow> 's \<Rightarrow> (int \<times> byte_array \<times> 's) outcome option" where
  "ba_fix_loop 0 io want left ba s = None"
| "ba_fix_loop (Suc fuel) io want left ba s =
     (if left > 0 then
        (case io s ba left of
           Throw e \<Rightarrow> Some (Throw e)
         | Fault f \<Rightarrow> Some (Fault f)
         | Ret (r, ba1, s1) \<Rightarrow>
             let len = to_size r
             in if len = 0 then Some (Ret (to_int len, ba1, s1))
                else ba_fix_loop fuel io want (size_sub left len) ba1 s1)
      else Some (Ret (to_int want, ba, s)))"

definition readFixSize_ba :: "nat \<Rightarrow> 's ba_io \<Rightarrow> nat \<Rightarrow> byte_array \<Rightarrow> 's \<Rightarrow> (int \<times> byte_array \<times> 's) outcome option" where
  "readFixSize_ba fuel rd len ba s = ba_fix_loop fuel rd len len ba s"

definition writeFixSize_ba :: "nat \<Rightarrow> 's ba_io \<Rightarrow> nat \<Rightarrow> byte_array \<Rightarrow> 's \<Rightarrow> (int \<times> byte_array \<times> 's) outcome option" where
  "writeFixSize_ba fuel wr len ba s = ba_fix_loop fuel wr len len ba s"

section \<open>Socket streams\<close>

record sock_stream =
  ss_socket :: "sock option"
  ss_owner :: bool
  ss_net :: net
  ss_kernel :: kernel
  ss_recvs :: nat
  ss_sends :: nat
  ss_peer_in :: "nat \<Rightarrow> nat \<Rightarrow> int \<times> byte list"
  ss_peer_out :: "nat \<Rightarrow> byte list \<Rightarrow> int"

definition ss_isConnected :: "sock_stream \<Rightarrow> bool" where
  "ss_isConnected t = (case ss_socket t of None \<Rightarrow> False | Some s \<Rightarrow> sk_isConnected s)"

text \<open>One receive, respectively send, of the socket against the peer.\<close>

definition ss_recv :: "(kernel \<Rightarrow> sock \<Rightarrow> net \<Rightarrow> int \<times> net) \<Rightarrow> nat \<Rightarrow> sock_stream \<Rightarrow> (int \<times> byte list) \<times> sock_stream" where
  "ss_recv call n t =
     (let (r, d) = ss_peer_in t (ss_recvs t) n;
          (rt, net') = call ((ss_kernel t)\<lparr>k_io := r\<rparr>) (the (ss_socket t)) (ss_net t)
      in ((rt, d), t\<lparr>ss_net := net', ss_recvs := Suc (ss_recvs t)\<rparr>))"

definition ss_send :: "(kernel \<Rightarrow> sock \<Rightarrow> net \<Rightarrow> int \<times> net) \<Rightarrow> byte list \<Rightarrow> sock_stream \<Rightarrow> int \<times> sock_stream" where
  "ss_send call d t =
     (let r = ss_peer_out t (ss_sends t) d;
          (rt, net') = call ((ss_kernel t)\<lparr>k_io := r\<rparr>) (the (ss_socket t)) (ss_net t)
      in (rt, t\<lparr>ss_net := net', ss_sends := Suc (ss_sends t)\<rparr>))"

definition ss_read :: "sock_stream reader" where
  "ss_read t len =
     (if \<not> ss_isConnected t then ((- 1, []), t)
      else ss_recv (\<lambda>k. sock_recv k len 0) len t)"

definition ss_write :: "sock_stream writer" where
  "ss_write t buf =
     (if \<not> ss_isConnected t then (- 1, t)
      else ss_send (\<lambda>k. sock_send k (length buf) 0) buf t)"

text \<open>\<open>&iovs[0]\<close> needs a first element.\<close>

definition ss_read_ba :: "sock_stream ba_io" where
  "ss_read_ba t ba len =
     (if \<not> ss_isConnected t then Ret (- 1, ba, t)
      else obind (getWriteBuffers ba len) (\<lambda>((_, iovs), ba1).
        if iovs = [] then Fault OutOfBounds
        else let ((rt, d), t1) = ss_recv (\<lambda>k. sock_recv_iov k (length iovs) 0) len t;
                 ba2 = iov_scatter ba1 iovs d
             in if rt > 0
                then obind (setPosition ba2 (ba_position ba2 + nat rt)) (\<lambda>ba3. Ret (rt, ba3, t1))
                else Ret (rt, ba2, t1)))"

definition ss_write_ba :: "sock_stream ba_io" where
  "ss_write_ba t ba len =
     (if \<not> ss_isConnected t then Ret (- 1, ba, t)
      else obind (getReadBuffers ba len) (\<lambda>(_, iovs).
        if iovs = [] then Fault OutOfBounds
        else let (rt, t1) = ss_send (\<lambda>k. sock_send_iov k (length iovs) 0) (iov_gather ba iovs) t
             in if rt > 0
                then obind (setPosition ba (ba_position ba + nat rt)) (\<lambda>ba1. Ret (rt, ba1, t1))
                else Ret (rt, ba, t1)))"

definition ss_close :: "sock_stream \<Rightarrow> sock_stream outcome" where
  "ss_close t =
     (case ss_socket t of
        None \<Rightarrow> Ret t
      | Some s \<Rightarrow> obind (sock_close (ss_kernel t) s (ss_net t)) (\<lambda>(_, s1, n1).
          Ret (t\<lparr>ss_socket := Some s1, ss_net := n1\<rparr>)))"

definition ss_destroy :: "sock_stream \<Rightarrow> sock_stream outcome" where
  "ss_destroy t = (if ss_owner t \<and> ss_socket t \<noteq> None then ss_close t else Ret t)"

section \<open>Reading a fixed size\<close>

text \<open>
  What successive reads of a stream deliver when \<open>n\<close> bytes are wanted: the bytes, and whether the end of
  the stream came first.
\<close>

inductive delivers :: "'s reader \<Rightarrow> 's \<Rightarrow> nat \<Rightarrow> byte list \<Rightarrow> bool \<Rightarrow> 's \<Rightarrow> bool" for rd where
  complete: "delivers rd s 0 [] False s"
| at_end: "0 < n \<Longrightarrow> rd s n = ((0, []), s') \<Longrightarrow> delivers rd s n [] True s'"
| some: "0 < length d \<Longrightarrow> length d \<le> n \<Longrightarrow> rd s n = ((int (length d), d), s1)
    \<Longrightarrow> delivers rd s1 (n - length d) ds eof s' \<Longrightarrow> delivers rd s n (d @ ds) eof s'"

inductive_cases delivers_zeroE: "delivers rd s 0 ds eof s'"

lemma delivers_length: "delivers rd s n ds eof s' \<Longrightarrow> length ds \<le> n \<and> (\<not> eof \<longrightarrow> length ds = n)"
  by (induction rule: delivers.induct) auto

lemma read_fix_loop_delivers:
  "delivers rd s left ds eof s' \<Longrightarrow> left < fuel \<Longrightarrow> length buf = offset + left \<Longrightarrow> offset + left < 2 ^ 31 \<Longrightarrow>
   read_fix_loop fuel rd (offset + left) offset left buf s
     = Some (Ret ((if eof then 0 else int (offset + left)), blit offset ds buf), s')"
proof (induction arbitrary: fuel offset buf rule: delivers.induct)
  case (complete s)
  then show ?case by (cases fuel) (simp_all add: to_int_small)
next
  case (at_end n s s')
  then show ?case by (cases fuel) (simp_all add: to_size_def to_int_small)
next
  case (some d n s s1 ds eof s')
  then obtain f where f: "fuel = Suc f" by (cases fuel) auto
  let ?k = "length d"
  have k: "to_size (int ?k) = ?k" using some by (simp add: to_size_nonneg)
  have a: "size_add offset ?k = offset + ?k" using some by (simp add: size_add_def)
  have "read_fix_loop f rd (offset + ?k + (n - ?k)) (offset + ?k) (n - ?k) (blit offset d buf) s1
      = Some (Ret (if eof then 0 else int (offset + ?k + (n - ?k)), blit (offset + ?k) ds (blit offset d buf)), s')"
  proof (rule some.IH)
    show "n - ?k < f" using some.hyps(1,2) some.prems(1) f by linarith
  qed (use some in simp_all)
  moreover have "offset + ?k + (n - ?k) = offset + n" using some by simp
  moreover have "blit (offset + ?k) ds (blit offset d buf) = blit offset (d @ ds) buf"
  proof (rule blit_append_src)
    have "length ds \<le> n - ?k" using delivers_length [OF some(4)] by simp
    then have "length (d @ ds) \<le> n" using some.hyps(2) by simp
    then show "offset + length (d @ ds) \<le> length buf" using some.prems(2) by simp
  qed
  ultimately show ?case using some f k a by auto
qed

lemma readFixSize_delivers:
  assumes "delivers rd s n ds eof s'" "n < fuel" "length buf = n" "n < 2 ^ 31"
  shows "readFixSize fuel rd n buf s = Some (Ret ((if eof then 0 else int n), ds @ drop (length ds) buf), s')"
  using read_fix_loop_delivers [OF assms(1,2), of buf 0] assms(3,4) by (simp add: readFixSize_def blit_def)

text \<open>A stream that obeys the contract of \<open>read\<close> and never fails.\<close>

locale healthy_reader =
  fixes rd :: "'s reader" and healthy :: "'s \<Rightarrow> bool"
  assumes read_contract: "healthy s \<Longrightarrow> 0 < n \<Longrightarrow> n < 2 ^ 31 \<Longrightarrow> rd s n = ((r, d), s') \<Longrightarrow>
    0 \<le> r \<and> r \<le> int n \<and> length d = nat r \<and> healthy s'"
begin

lemma delivers_exists:
  "healthy s \<Longrightarrow> n < 2 ^ 31 \<Longrightarrow> \<exists>ds eof s'. delivers rd s n ds eof s' \<and> healthy s'"
proof (induction n arbitrary: s rule: less_induct)
  case (less n)
  show ?case
  proof (cases "n = 0")
    case True
    then show ?thesis using less.prems complete by metis
  next
    case False
    obtain r d s1 where r: "rd s n = ((r, d), s1)" by (metis surj_pair)
    then have c: "0 \<le> r" "r \<le> int n" "length d = nat r" "healthy s1"
      using read_contract [OF less.prems(1) _ less.prems(2) r] False by auto
    show ?thesis
    proof (cases "r = 0")
      case True
      then show ?thesis using r c False at_end [of n rd s s1] by auto
    next
      case r0: False
      then obtain ds eof s' where "delivers rd s1 (n - length d) ds eof s'" "healthy s'"
      proof -
        have "n - length d < n" "n - length d < 2 ^ 31" using r0 c less.prems(2) by auto
        then show thesis using less.IH [of "n - length d" s1] c(4) that by blast
      qed
      moreover have "rd s n = ((int (length d), d), s1)" using r c by simp
      moreover have "0 < length d" "length d \<le> n" using r0 c by auto
      ultimately have "delivers rd s n (d @ ds) eof s'" by (metis some)
      then show ?thesis using \<open>healthy s'\<close> by blast
    qed
  qed
qed

lemma readFixSize_total:
  assumes "healthy s" "n < fuel" "length buf = n" "n < 2 ^ 31"
  shows "\<exists>ds eof s'. delivers rd s n ds eof s' \<and> healthy s' \<and> (\<not> eof \<longrightarrow> length ds = n)
    \<and> readFixSize fuel rd n buf s = Some (Ret ((if eof then 0 else int n), ds @ drop (length ds) buf), s')"
  using delivers_exists [OF assms(1,4)] readFixSize_delivers [OF _ assms(2-4)] delivers_length by metis

end

definition recv_contract :: "(nat \<Rightarrow> nat \<Rightarrow> int \<times> byte list) \<Rightarrow> bool" where
  "recv_contract peer \<longleftrightarrow>
     (\<forall>i n. 0 < n \<longrightarrow> (case peer i n of (r, d) \<Rightarrow> 0 \<le> r \<and> r \<le> int n \<and> length d = nat r))"

definition ss_healthy :: "sock_stream \<Rightarrow> bool" where
  "ss_healthy t \<longleftrightarrow> ss_isConnected t \<and> recv_contract (ss_peer_in t)"

lemma ss_healthyD:
  assumes "ss_healthy t" "0 < n" "ss_peer_in t i n = (r, d)"
  shows "0 \<le> r" "r \<le> int n" "length d = nat r"
proof -
  have "case ss_peer_in t i n of (r, d) \<Rightarrow> 0 \<le> r \<and> r \<le> int n \<and> length d = nat r"
    using assms(1,2) by (auto simp: ss_healthy_def recv_contract_def)
  then show "0 \<le> r" "r \<le> int n" "length d = nat r" unfolding assms(3) by simp_all
qed

lemma narrow_int: "0 \<le> r \<Longrightarrow> r < 2 ^ 31 \<Longrightarrow> sint (word_of_int r :: u32) = r"
proof -
  assume "0 \<le> r" "r < 2 ^ 31"
  then have "signed_take_bit 31 r = r" by (intro signed_take_bit_int_eq_self) auto
  then show ?thesis by (simp add: signed_of_int)
qed

lemma ss_read_healthy:
  assumes "ss_healthy t" "0 < n" "n < 2 ^ 31" "ss_read t n = ((r, d), t')"
  shows "ss_peer_in t (ss_recvs t) n = (r, d) \<and> 0 \<le> r \<and> r \<le> int n \<and> length d = nat r \<and> ss_healthy t'"
proof -
  obtain r0 d0 where p: "ss_peer_in t (ss_recvs t) n = (r0, d0)" by fastforce
  then have r0: "0 \<le> r0" "r0 \<le> int n" "length d0 = nat r0" using assms(1,2) ss_healthyD by blast+
  have "sint (word_of_int r0 :: u32) = r0" using r0 assms(3) by (intro narrow_int) auto
  moreover have c: "sk_isConnected (the (ss_socket t))" "ss_isConnected t"
    using assms(1) by (auto simp: ss_healthy_def ss_isConnected_def split: option.splits)
  ultimately have "r = r0 \<and> d = d0 \<and> ss_healthy t'"
    using assms(1,4) p by (auto simp: ss_read_def ss_recv_def sock_recv_def guarded_io_def ss_healthy_def
        ss_isConnected_def split: option.splits)
  then show ?thesis using p r0 by simp
qed

interpretation ss_reader: healthy_reader ss_read ss_healthy
  by unfold_locales (use ss_read_healthy in blast)

text \<open>C38. On a connected socket whose receives keep their contract, \<open>readFixSize\<close> fills the whole buffer
  with the bytes that arrive, in order, and returns its length, or returns 0 when the stream ends first;
  one call per delivered piece is enough.\<close>

theorem socket_readFixSize_fills_buffer:
  assumes "ss_healthy t" "n < fuel" "length buf = n" "n < 2 ^ 31"
  shows "\<exists>ds eof t'. delivers ss_read t n ds eof t' \<and> (\<not> eof \<longrightarrow> length ds = n)
    \<and> readFixSize fuel ss_read n buf t = Some (Ret ((if eof then 0 else int n), ds @ drop (length ds) buf), t')"
  using ss_reader.readFixSize_total [OF assms] by blast

definition demo_stream :: "(nat \<Rightarrow> nat \<Rightarrow> int \<times> byte list) \<Rightarrow> sock_stream" where
  "demo_stream peer =
     \<lparr>ss_socket = Some (CreateTCPSocket\<lparr>sk_sock := 7, sk_isConnected := True\<rparr>), ss_owner = True,
      ss_net = plain_net, ss_kernel = plain_kernel addr_1, ss_recvs = 0, ss_sends = 0,
      ss_peer_in = peer, ss_peer_out = (\<lambda>_ d. int (length d))\<rparr>"

theorem socket_readFixSize_fills_buffer_witness:
  "\<exists>r buf t'. readFixSize 6 ss_read 5 [0, 0, 0, 0, 0] (demo_stream (\<lambda>i n. (int (min n 2), replicate (min n 2) (of_nat i))))
    = Some (Ret (r, buf), t') \<and> (r = 0 \<or> r = 5)"
proof -
  let ?t = "demo_stream (\<lambda>i n. (int (min n 2), replicate (min n 2) (of_nat i)))"
  have h: "ss_healthy ?t" by (simp add: ss_healthy_def recv_contract_def demo_stream_def ss_isConnected_def)
  show ?thesis using socket_readFixSize_fills_buffer [OF h, of 5 6 "[0, 0, 0, 0, 0]"] by auto
qed

section \<open>Errors in the loop\<close>

lemma read_fix_loop_spins:
  assumes "\<And>n. rd s n = ((- 1, []), s)"
  shows "0 < left \<Longrightarrow> left + fuel \<le> 2 ^ 64 \<Longrightarrow> read_fix_loop fuel rd want offset left buf s = None"
proof (induction fuel arbitrary: left offset)
  case (Suc fuel)
  show ?case
  proof (cases "fuel = 0")
    case False
    then have "size_sub left (2 ^ 64 - 1) = left + 1" using Suc.prems by (auto simp: size_sub_def)
    then show ?thesis using Suc by (simp add: assms to_size_minus_one)
  qed (use Suc.prems in \<open>simp add: assms to_size_minus_one\<close>)
qed simp

text \<open>An error is not reported: on a stream that is not connected every read returns -1, which the
  loop takes for 2^64-1 bytes, so \<open>readFixSize\<close> goes on calling \<open>read\<close> and does not return within
  2^64-n calls.\<close>

theorem readFixSize_disconnected_spins:
  assumes "\<not> ss_isConnected t" "0 < n" "n + fuel \<le> 2 ^ 64"
  shows "readFixSize fuel ss_read n buf t = None"
proof -
  have "ss_read t m = ((- 1, []), t)" for m using assms(1) by (simp add: ss_read_def)
  then show ?thesis using read_fix_loop_spins [of ss_read t n fuel] assms(2,3) by (simp add: readFixSize_def)
qed

theorem readFixSize_disconnected_spins_witness:
  "readFixSize 1000 ss_read 8 (replicate 8 0) ((demo_stream (\<lambda>_ _. (0, [])))\<lparr>ss_socket := None\<rparr>) = None"
  by (rule readFixSize_disconnected_spins) (simp_all add: ss_isConnected_def)

text \<open>After one failed read the loop's offset lies before the buffer, so the next bytes that arrive are
  stored outside it.\<close>

lemma readFixSize_error_overruns:
  assumes "0 < n" "rd s n = ((- 1, []), s1)" "rd s1 (n + 1) = ((r, d), s2)" "d \<noteq> []"
    and "length buf = n" "n < 2 ^ 31"
  shows "readFixSize (Suc (Suc fuel)) rd n buf s = Some (Fault OutOfBounds, s2)"
proof -
  have "size_sub n (2 ^ 64 - 1) = n + 1" "size_add 0 (2 ^ 64 - 1) = 2 ^ 64 - 1"
    using assms(6) by (auto simp: size_sub_def size_add_def)
  then show ?thesis using assms by (simp add: readFixSize_def to_size_minus_one)
qed

section \<open>Reading into a ByteArray\<close>

text \<open>C39. Reading up to \<open>len\<close> bytes (\<open>0 < len < 2^31\<close>) from a connected socket whose receives keep their
  contract into a \<open>ByteArray\<close> that keeps its invariant. When \<open>addCapacity\<close> falls short of \<open>len\<close>, the
  call dereferences a null node. Otherwise it returns what the receive returned, and received bytes
  amount to one \<open>write\<close> of them: the scattered bytes and the moved position.\<close>

theorem socket_read_into_ByteArray:
  assumes "ss_healthy t" "ba_inv ba" "0 < len" "len < 2 ^ 31"
  shows "if capacity_shortfall ba len then ss_read_ba t ba len = Fault NullDeref
    else \<exists>r d ba' t'. ss_peer_in t (ss_recvs t) len = (r, d) \<and> ss_read_ba t ba len = Ret (r, ba', t')
      \<and> (0 < r \<longrightarrow> ba_inv ba' \<and> ba_abs ba' = fb_write (ba_abs ba) d) \<and> ss_healthy t'"
proof (cases "capacity_shortfall ba len")
  case True
  have "ss_isConnected t" using assms(1) by (simp add: ss_healthy_def)
  then show ?thesis using True getWriteBuffers_shortfall [OF assms(2) True] by (simp add: ss_read_ba_def)
next
  case False
  obtain iovs ba1 where g: "getWriteBuffers ba len = Ret ((len, iovs), ba1)" "ba_inv ba1"
    "iovs_cover ba1 (ba_position ba1) iovs" "iovs_total iovs = len"
    "ba_abs ba1 = ba_abs ba" "ba_position ba1 + len \<le> ba_capacity ba1"
    using getWriteBuffers_ok [OF assms(2) False assms(3)] .
  have ne: "iovs \<noteq> []" using g(4) assms(3) by auto
  obtain r d where p: "ss_peer_in t (ss_recvs t) len = (r, d)" by fastforce
  then have r: "0 \<le> r" "r \<le> int len" "length d = nat r" using assms(1,3) ss_healthyD by blast+
  have n: "sint (word_of_int r :: u32) = r" using r assms(4) by (intro narrow_int) auto
  have c: "sk_isConnected (the (ss_socket t))" "ss_isConnected t"
    using assms(1) by (auto simp: ss_healthy_def ss_isConnected_def split: option.splits)
  obtain t' where t: "ss_recv (\<lambda>k. sock_recv_iov k (length iovs) 0) len t = ((r, d), t')"
    using p n c by (simp add: ss_recv_def sock_recv_iov_def guarded_io_def)
  have h: "ss_healthy t'" using t assms(1)
    by (auto simp: ss_recv_def ss_healthy_def ss_isConnected_def split: prod.splits)
  have pos: "ba_position (iov_scatter ba1 iovs d) = ba_position ba1"
    by (induction iovs arbitrary: ba1 d) (simp_all add: Let_def)
  have l: "length d \<le> iovs_total iovs" "ba_position ba1 + iovs_total iovs \<le> ba_capacity ba1"
    using r g by auto
  obtain ba2 where "setPosition (iov_scatter ba1 iovs d) (ba_position ba1 + length d) = Ret ba2"
    "ba_inv ba2" "ba_abs ba2 = fb_write (ba_abs ba1) d"
    using scatter_then_setPosition [OF g(2,3) l] .
  then show ?thesis using False p t h g(1,5) ne c r pos by (auto simp: ss_read_ba_def Let_def)
qed

theorem socket_read_into_ByteArray_witness:
  "\<exists>ba' t'. ss_read_ba (demo_stream (\<lambda>i n. (int (min n 3), take (min n 3) [7, 8, 9]))) (ByteArray_new (\<lambda>_. 0) 4) 8
      = Ret (3, ba', t') \<and> fb_data (ba_abs ba') = [7, 8, 9]
    \<and> ss_read_ba (demo_stream (\<lambda>i n. (int (min n 3), take (min n 3) [7, 8, 9]))) (ByteArray_new (\<lambda>_. 0) 4) 7
      = Fault NullDeref"
proof -
  let ?t = "demo_stream (\<lambda>i n. (int (min n 3), take (min n 3) [7, 8, 9]))" and ?ba = "ByteArray_new (\<lambda>_. 0) 4"
  have h: "ss_healthy ?t" by (simp add: ss_healthy_def recv_contract_def demo_stream_def ss_isConnected_def)
  have e: "\<not> capacity_shortfall ?ba 8" "capacity_shortfall ?ba 7" by (simp_all add: capacity_shortfall_def ByteArray_new_def Let_def)
  have i: "ba_inv ?ba" by (simp add: ByteArray_new_inv)
  have p: "ss_peer_in ?t (ss_recvs ?t) 8 = (3, [7, 8, 9])" by (simp add: demo_stream_def)
  have "ss_read_ba ?t ?ba 7 = Fault NullDeref"
    using socket_read_into_ByteArray [OF h i, of 7] e(2) by simp
  then show ?thesis using socket_read_into_ByteArray [OF h i, of 8] e(1) p
    by (auto simp: ByteArray_new_abs fb_write_def)
qed

end
