(* ===== verification/TcpServer.thy ===== *)
theory TcpServer
  imports Stream
begin

text \<open>
  \<open>radixun/net/tcp_server.{h,cpp}\<close>: the server that binds, accepts and hands connections to a scheduler.

  \<^item> \<open>ts_accept_tasks\<close> and \<open>ts_tasks\<close> are what was scheduled on \<open>m_acceptWorker\<close> and \<open>m_worker\<close>;
  \<^item> every address to bind, and every round of the accept loop, comes with the kernel results of that
    round; a round also says whether \<open>m_isStop\<close> was seen set;
  \<^item> a socket whose last \<open>shared_ptr\<close> goes away is closed by its destructor (\<open>drop_sock\<close>).
\<close>

definition SOMAXCONN :: int where "SOMAXCONN = 4096"

datatype accept_task = StartAccept sock | CloseAll

record tcp_server =
  ts_socks :: "sock list"
  ts_accept_tasks :: "accept_task list"
  ts_tasks :: "sock list"
  ts_recvTimeout :: u64
  ts_name :: string
  ts_isStop :: bool

definition TcpServer_new :: "u64 \<Rightarrow> tcp_server" where
  "TcpServer_new read_timeout =
     \<lparr>ts_socks = [], ts_accept_tasks = [], ts_tasks = [], ts_recvTimeout = read_timeout,
      ts_name = ''radixun/1.0.0'', ts_isStop = True\<rparr>"

definition default_read_timeout :: u64 where "default_read_timeout = 60 * 1000 * 2"

definition drop_sock :: "kernel \<Rightarrow> sock \<Rightarrow> net \<Rightarrow> net outcome" where
  "drop_sock k s n = obind (sock_close k s n) (\<lambda>(_, _, n1). Ret n1)"

primrec drop_all :: "kernel \<Rightarrow> sock list \<Rightarrow> net \<Rightarrow> net outcome" where
  "drop_all k [] n = Ret n"
| "drop_all k (s # ss) n = obind (drop_sock k s n) (drop_all k ss)"

text \<open>One round of the binding loop: the listening socket, or nothing when \<open>bind\<close> or \<open>listen\<close> failed.\<close>

definition bind_one :: "nat \<Rightarrow> kernel \<Rightarrow> address \<Rightarrow> net \<Rightarrow> (sock option \<times> net) outcome" where
  "bind_one host k addr n =
     obind (sock_bind host k addr (CreateTCP addr) n) (\<lambda>(ok, s, n1).
       if \<not> ok then obind (drop_sock k s n1) (\<lambda>n2. Ret (None, n2))
       else let (ok2, n2) = sock_listen k SOMAXCONN s n1
            in if \<not> ok2 then obind (drop_sock k s n2) (\<lambda>n3. Ret (None, n3))
               else Ret (Some s, n2))"

fun bind_loop :: "nat \<Rightarrow> (address \<times> kernel) list \<Rightarrow> address list \<Rightarrow> sock list \<Rightarrow> net
    \<Rightarrow> (address list \<times> sock list \<times> net) outcome" where
  "bind_loop host [] fails socks n = Ret (fails, socks, n)"
| "bind_loop host ((addr, k) # rest) fails socks n =
     obind (bind_one host k addr n) (\<lambda>(s, n1).
       case s of
         None \<Rightarrow> bind_loop host rest (fails @ [addr]) socks n1
       | Some x \<Rightarrow> bind_loop host rest fails (socks @ [x]) n1)"

definition ts_bind_all :: "nat \<Rightarrow> kernel \<Rightarrow> (address \<times> kernel) list \<Rightarrow> address list \<Rightarrow> tcp_server \<Rightarrow> net
    \<Rightarrow> (bool \<times> address list \<times> tcp_server \<times> net) outcome" where
  "ts_bind_all host k addrs fails srv n =
     obind (bind_loop host addrs fails (ts_socks srv) n) (\<lambda>(fails1, socks, n1).
       if fails1 \<noteq> []
       then obind (drop_all k socks n1) (\<lambda>n2. Ret (False, fails1, srv\<lparr>ts_socks := []\<rparr>, n2))
       else Ret (True, fails1, srv\<lparr>ts_socks := socks\<rparr>, n1))"

definition ts_bind :: "nat \<Rightarrow> kernel \<Rightarrow> address \<Rightarrow> tcp_server \<Rightarrow> net \<Rightarrow> (bool \<times> tcp_server \<times> net) outcome" where
  "ts_bind host k addr srv n =
     obind (ts_bind_all host k [(addr, k)] [] srv n) (\<lambda>(ok, _, srv1, n1). Ret (ok, srv1, n1))"

definition ts_destroy :: "kernel \<Rightarrow> tcp_server \<Rightarrow> net \<Rightarrow> (tcp_server \<times> net) outcome" where
  "ts_destroy k srv n = obind (drop_all k (ts_socks srv) n) (\<lambda>n1. Ret (srv\<lparr>ts_socks := []\<rparr>, n1))"

fun startAccept :: "nat \<Rightarrow> (bool \<times> kernel) list \<Rightarrow> sock \<Rightarrow> tcp_server \<Rightarrow> net \<Rightarrow> (tcp_server \<times> net) outcome" where
  "startAccept host [] s srv n = Ret (srv, n)"
| "startAccept host ((stopped, k) # rounds) s srv n =
     (if stopped then Ret (srv, n)
      else obind (sock_accept host k s n) (\<lambda>(client, n1).
        case client of
          None \<Rightarrow> startAccept host rounds s srv n1
        | Some c \<Rightarrow>
            obind (setRecvTimeout k (sint (ts_recvTimeout srv)) c n1) (\<lambda>n2.
              startAccept host rounds s (srv\<lparr>ts_tasks := ts_tasks srv @ [c]\<rparr>) n2)))"

definition ts_start :: "tcp_server \<Rightarrow> bool \<times> tcp_server" where
  "ts_start srv =
     (if \<not> ts_isStop srv then (True, srv)
      else (True, srv\<lparr>ts_isStop := False,
                      ts_accept_tasks := ts_accept_tasks srv @ map StartAccept (ts_socks srv)\<rparr>))"

definition ts_stop :: "tcp_server \<Rightarrow> tcp_server" where
  "ts_stop srv = srv\<lparr>ts_isStop := True, ts_accept_tasks := ts_accept_tasks srv @ [CloseAll]\<rparr>"

text \<open>The lambda that \<open>stop\<close> schedules, run by the accept worker, whose \<open>IOManager\<close> is \<open>n_iom\<close>.\<close>

fun close_all :: "kernel \<Rightarrow> sock list \<Rightarrow> net \<Rightarrow> net outcome" where
  "close_all k [] n = Ret n"
| "close_all k (s # ss) n =
     obind (sock_cancelAll (k_epoll_ctl k) (n_iom n) s) (\<lambda>(_, iom).
     obind (sock_close k s (n\<lparr>n_iom := Some iom\<rparr>)) (\<lambda>(_, _, n1). close_all k ss n1))"

definition ts_run_CloseAll :: "kernel \<Rightarrow> tcp_server \<Rightarrow> net \<Rightarrow> (tcp_server \<times> net) outcome" where
  "ts_run_CloseAll k srv n =
     obind (close_all k (ts_socks srv) n) (\<lambda>n1. Ret (srv\<lparr>ts_socks := []\<rparr>, n1))"

section \<open>Binding is all or nothing\<close>

text \<open>The log shows that \<open>s\<close> was bound to \<open>addr\<close> and listens: both calls returned zero.\<close>

definition listening_at :: "nat \<Rightarrow> syscall list \<Rightarrow> address \<Rightarrow> sock \<Rightarrow> bool" where
  "listening_at host calls addr s \<longleftrightarrow> sk_sock s \<noteq> - 1
     \<and> SysBind (sk_sock s) (getAddr host addr) (getAddrLen addr) 0 \<in> set calls
     \<and> SysListen (sk_sock s) SOMAXCONN 0 \<in> set calls"

text \<open>Nothing a socket operation does shortens the log.\<close>

definition extends :: "net \<Rightarrow> net \<Rightarrow> bool" where
  "extends n n' \<longleftrightarrow> (\<exists>more. n_calls n' = n_calls n @ more)"

lemma extends_refl [simp]: "extends n n"
  by (simp add: extends_def)

lemma extends_trans: "extends n n1 \<Longrightarrow> extends n1 n2 \<Longrightarrow> extends n n2"
  by (auto simp: extends_def)

lemma extends_simps [simp]:
  "extends n (n'\<lparr>n_fdm := m\<rparr>) \<longleftrightarrow> extends n n'"
  "extends (n\<lparr>n_fdm := m\<rparr>) n' \<longleftrightarrow> extends n n'"
  "extends n (n'\<lparr>n_iom := i\<rparr>) \<longleftrightarrow> extends n n'"
  by (simp_all add: extends_def)

lemma extends_log [simp]: "extends n n' \<Longrightarrow> extends n (log_call c n')"
  by (auto simp: extends_def log_call_def)

lemma extends_from_log: "extends (log_call c n) n' \<Longrightarrow> extends n n'"
  by (auto simp: extends_def log_call_def)

lemma sock_close_extends: "sock_close k s n = Ret (r, s', n') \<Longrightarrow> extends n n'"
  by (auto simp: sock_close_def Let_def obind_Ret_iff split: if_splits)

lemma initSock_extends: "extends n (initSock k s n)"
  by (simp add: initSock_def setOption_def Let_def)

lemma ensure_open_extends: "ensure_open k s n = Ret (r, s', n') \<Longrightarrow> extends n n'"
  by (auto simp: ensure_open_def newSock_def Let_def obind_Ret_iff split: if_splits
      intro: extends_trans [OF _ initSock_extends])

lemma getLocalAddress_extends:
  "getLocalAddress host k s n = Ret (a, s', n') \<Longrightarrow> extends n n' \<and> sk_sock s' = sk_sock s"
  by (auto simp: getLocalAddress_def Let_def obind_Ret_iff split: option.splits prod.splits if_splits)

lemma sock_bind_extends: "sock_bind host k a s n = Ret (r, s', n') \<Longrightarrow> extends n n'"
  by (auto simp: sock_bind_def Let_def obind_Ret_iff split: if_splits
      dest!: ensure_open_extends getLocalAddress_extends extends_from_log intro: extends_trans)

lemma sock_bind_bound:
  assumes "sock_bind host k addr s n = Ret (True, s', n')"
  shows "SysBind (sk_sock s') (getAddr host addr) (getAddrLen addr) 0 \<in> set (n_calls n')"
proof -
  obtain s1 n1 a where s1: "k_bind k = 0" "getLocalAddress host k s1
      (log_call (SysBind (sk_sock s1) (getAddr host addr) (getAddrLen addr) (k_bind k)) n1) = Ret (a, s', n')"
    using assms by (auto simp: sock_bind_def Let_def obind_Ret_iff split: if_splits)
  show ?thesis using getLocalAddress_extends [OF s1(2)] s1(1) by (auto simp: extends_def log_call_def)
qed

lemma bind_one_Some:
  assumes "bind_one host k addr n = Ret (Some s, n')"
  shows "listening_at host (n_calls n') addr s"
proof -
  obtain n1 where b: "sock_bind host k addr (CreateTCP addr) n = Ret (True, s, n1)"
    and l: "sock_listen k SOMAXCONN s n1 = (True, n')"
    using assms by (auto simp: bind_one_def Let_def obind_Ret_iff split: if_splits prod.splits)
  show ?thesis using sock_bind_bound [OF b] l
    by (auto simp: sock_listen_def isValid_def listening_at_def log_call_def split: if_splits)
qed

lemma bind_one_extends: "bind_one host k addr n = Ret (s, n') \<Longrightarrow> extends n n'"
  by (auto simp: bind_one_def drop_sock_def sock_listen_def obind_Ret_iff Let_def split: if_splits
      dest!: sock_bind_extends sock_close_extends extends_from_log intro: extends_trans)

lemma listening_extends: "listening_at host (n_calls n) a s \<Longrightarrow> extends n n' \<Longrightarrow> listening_at host (n_calls n') a s"
  by (auto simp: listening_at_def extends_def)

text \<open>The addresses that were bound, \<open>bound\<close>, go with the new sockets in order; the others are reported.\<close>

lemma bind_loop_result:
  "bind_loop host addrs fails socks n = Ret (fails', socks', n') \<Longrightarrow>
   \<exists>failed bound ss. fails' = fails @ failed \<and> socks' = socks @ ss \<and> (failed = [] \<longrightarrow> bound = map fst addrs)
     \<and> set failed \<subseteq> set (map fst addrs) \<and> extends n n' \<and> list_all2 (listening_at host (n_calls n')) bound ss"
proof (induction host addrs fails socks n arbitrary: fails' socks' n' rule: bind_loop.induct)
  case (2 host addr k rest fails socks n)
  from 2(3) obtain s n1 where b: "bind_one host k addr n = Ret (s, n1)"
    and l: "(case s of None \<Rightarrow> bind_loop host rest (fails @ [addr]) socks n1
       | Some x \<Rightarrow> bind_loop host rest fails (socks @ [x]) n1) = Ret (fails', socks', n')"
    by (auto simp: obind_Ret_iff)
  have e: "extends n n1" using b by (rule bind_one_extends)
  show ?case
  proof (cases s)
    case None
    then obtain failed bound ss where "fails' = (fails @ [addr]) @ failed" "socks' = socks @ ss"
      "set failed \<subseteq> set (map fst rest)" "extends n1 n'" "list_all2 (listening_at host (n_calls n')) bound ss"
      using 2(1) [OF b refl None] l by auto
    then show ?thesis using e extends_trans
      by (intro exI [of _ "addr # failed"] exI [of _ bound] exI [of _ ss]) auto
  next
    case (Some x)
    then obtain failed bound ss where *: "fails' = fails @ failed" "socks' = (socks @ [x]) @ ss"
      "failed = [] \<longrightarrow> bound = map fst rest" "set failed \<subseteq> set (map fst rest)" "extends n1 n'"
      "list_all2 (listening_at host (n_calls n')) bound ss"
      using 2(2) [OF b refl Some] l by auto
    have "listening_at host (n_calls n') addr x" using bind_one_Some b Some *(5) listening_extends by blast
    then show ?thesis using * e extends_trans
      by (intro exI [of _ failed] exI [of _ "addr # bound"] exI [of _ "x # ss"]) auto
  qed
qed simp

text \<open>C40. Binding a list of addresses is all or nothing. It succeeds only when each address in turn has a new
  socket, appended to the server's sockets, that was bound to this very address and put to listen by calls that
  both returned zero. Otherwise it reports some of the addresses as failed and the server has no socket left, not
  even earlier ones.\<close>

theorem TcpServer_bind_all_or_nothing:
  assumes "ts_bind_all host k addrs [] srv n = Ret (ok, fails, srv', n')"
  shows "if ok then fails = [] \<and> (\<exists>ss. ts_socks srv' = ts_socks srv @ ss
             \<and> list_all2 (listening_at host (n_calls n')) (map fst addrs) ss)
         else fails \<noteq> [] \<and> set fails \<subseteq> set (map fst addrs) \<and> ts_socks srv' = []"
proof -
  obtain fails1 socks n1 where l: "bind_loop host addrs [] (ts_socks srv) n = Ret (fails1, socks, n1)"
    using assms by (auto simp: ts_bind_all_def obind_Ret_iff)
  from bind_loop_result [OF l] obtain bound ss where s: "socks = ts_socks srv @ ss"
    "fails1 = [] \<longrightarrow> bound = map fst addrs" "set fails1 \<subseteq> set (map fst addrs)"
    "list_all2 (listening_at host (n_calls n1)) bound ss" by auto
  show ?thesis
  proof (cases "fails1 = []")
    case True
    then have "ok" "fails = []" "srv' = srv\<lparr>ts_socks := socks\<rparr>" "n' = n1"
      using assms l by (simp_all add: ts_bind_all_def)
    then show ?thesis using s True by auto
  next
    case False
    then have "\<not> ok" "fails = fails1" "ts_socks srv' = []"
      using assms l by (auto simp: ts_bind_all_def obind_Ret_iff)
    then show ?thesis using s False by auto
  qed
qed

theorem TcpServer_bind_all_or_nothing_witness:
  "\<exists>srv' n'. ts_bind_all 1 (plain_kernel addr_1) [(addr_1, plain_kernel addr_1)] [] (TcpServer_new default_read_timeout) plain_net
    = Ret (True, [], srv', n') \<and> list_all2 (listening_at 1 (n_calls n')) [addr_1] (ts_socks srv')"
proof -
  have "case ts_bind_all 1 (plain_kernel addr_1) [(addr_1, plain_kernel addr_1)] [] (TcpServer_new default_read_timeout) plain_net
    of Ret (True, _) \<Rightarrow> True | _ \<Rightarrow> False" by code_simp
  then obtain f srv' n' where t: "ts_bind_all 1 (plain_kernel addr_1) [(addr_1, plain_kernel addr_1)] []
      (TcpServer_new default_read_timeout) plain_net = Ret (True, f, srv', n')"
    by (auto split: outcome.splits prod.splits bool.splits)
  have "ts_socks (TcpServer_new default_read_timeout) = []" by (simp add: TcpServer_new_def)
  then show ?thesis using TcpServer_bind_all_or_nothing [OF t] t by auto
qed

lemma ts_start_twice: "ts_start (snd (ts_start srv)) = (True, snd (ts_start srv))"
  by (simp add: ts_start_def)

end
