(* ===== verification/UriQuery.thy ===== *)
theory UriQuery
  imports Ordered "HOL-Library.List_Lexorder" "HOL-Library.Char_ord"
begin

unbundle bit_operations_syntax

text \<open>
  \<open>radixun/http/uri_query.{h,cpp}\<close>: the parameters of a query string and the URL encoding.

  \<^item> the parameter map is a \<open>std::map<std::string, std::string>\<close>: an association list in the order of the
    keys' bytes, with the operations of \<open>Ordered\<close>;
  \<^item> a \<open>char\<close> taken to an \<open>unsigned char\<close> or shifted is the byte it is.
\<close>

type_synonym query = "(string \<times> string) list"

section \<open>Splitting\<close>

text \<open>\<open>std::getline\<close> until the stream is at its end: no token after a delimiter that ends the input.\<close>

function getlines :: "char \<Rightarrow> string \<Rightarrow> string list" where
  "getlines d s =
     (if s = [] then []
      else case dropWhile (\<lambda>c. c \<noteq> d) s of
        [] \<Rightarrow> [s]
      | _ # rest \<Rightarrow> takeWhile (\<lambda>c. c \<noteq> d) s # getlines d rest)"
  by pat_completeness auto
termination
proof (relation "measure (\<lambda>(d, s). length s)")
  fix d :: char and s c rest
  assume "dropWhile (\<lambda>c. c \<noteq> d) s = c # rest"
  then have "length (c # rest) \<le> length s" using length_dropWhile_le [of "\<lambda>c. c \<noteq> d" s] by simp
  then show "((d, rest), (d, s)) \<in> measure (\<lambda>(d, s). length s)" by simp
qed simp

declare getlines.simps [simp del]

text \<open>\<open>delimiter.c_str()[0]\<close> of an empty delimiter is the terminating zero.\<close>

definition split_query :: "string \<Rightarrow> string \<Rightarrow> string list" where
  "split_query input delimiter = getlines (case delimiter of [] \<Rightarrow> CHR 0x00 | c # _ \<Rightarrow> c) input"

definition parseComponent :: "string \<Rightarrow> string \<times> string" where
  "parseComponent component =
     (let key = takeWhile (\<lambda>c. c \<noteq> CHR ''='') component
      in if key = component then (key, [])
         else (key, drop (length key + 1) component))"

section \<open>Parameters\<close>

definition q_contains :: "query \<Rightarrow> string \<Rightarrow> bool" where
  "q_contains q key \<longleftrightarrow> om_find (<) key q \<noteq> None"

definition q_add :: "string \<Rightarrow> string \<Rightarrow> query \<Rightarrow> query" where
  "q_add key val q = (if q_contains q key then q else om_assign (<) key val q)"

definition q_motify :: "string \<Rightarrow> string \<Rightarrow> query \<Rightarrow> query" where
  "q_motify key val q = om_assign (<) key val q"

definition q_erase :: "string \<Rightarrow> query \<Rightarrow> query" where
  "q_erase key q = (if \<not> q_contains q key then q else om_erase (<) key q)"

definition q_getvalue :: "query \<Rightarrow> string \<Rightarrow> string \<Rightarrow> int \<times> string" where
  "q_getvalue q key result =
     (if \<not> q_contains q key then (- 1, result) else (1, the (om_find (<) key q)))"

definition q_parse :: "string \<Rightarrow> string \<Rightarrow> query" where
  "q_parse raw delimiter =
     (if raw = [] then []
      else foldl (\<lambda>q component. let (k, v) = parseComponent component in om_emplace (<) k v q) []
             (split_query raw delimiter))"

fun q_dump_rest :: "query \<Rightarrow> string" where
  "q_dump_rest [] = []"
| "q_dump_rest ((k, v) # q) = ''&'' @ k @ ''='' @ v @ q_dump_rest q"

text \<open>The delimiter argument is not used.\<close>

definition q_dump :: "string \<Rightarrow> query \<Rightarrow> string" where
  "q_dump delimiter q =
     (case q of [] \<Rightarrow> [] | (k, v) # rest \<Rightarrow> k @ ''='' @ v @ q_dump_rest rest)"

section \<open>URL encoding\<close>

definition HEX_2_NUM_MAP :: string where "HEX_2_NUM_MAP = ''0123456789ABCDEF''"

definition ASCII_EXCEPTION :: string where
  "ASCII_EXCEPTION = [CHR 0x22] @ ''%<>['' @ [CHR 0x5C] @ '']^_'' @ [CHR 0x60] @ ''{|}''"

text \<open>\<open>std::find\<close> gives the end, index 16, for a character that is no digit; \<open>unsigned char\<close> truncates.\<close>

definition hex_index :: "char \<Rightarrow> nat" where
  "hex_index c = length (takeWhile (\<lambda>x. x \<noteq> c) HEX_2_NUM_MAP)"

definition NUM_2_HEX :: "char \<Rightarrow> char \<Rightarrow> char" where
  "NUM_2_HEX h l = char_of ((hex_index h * 16 + hex_index l) mod 256)"

definition url_escapes :: "char \<Rightarrow> bool" where
  "url_escapes c \<longleftrightarrow> of_char c \<ge> (128 :: nat) \<or> c \<in> set ASCII_EXCEPTION"

definition Encode :: "string \<Rightarrow> string" where
  "Encode url = concat (map (\<lambda>c.
     if url_escapes c
     then [CHR ''%'', HEX_2_NUM_MAP ! (of_char c div 16), HEX_2_NUM_MAP ! (of_char c mod 16)]
     else [c]) url)"

fun Decode :: "string \<Rightarrow> string outcome" where
  "Decode [] = Ret []"
| "Decode (c # url) =
     (if c = CHR ''%''
      then (case url of
              h # l # rest \<Rightarrow> obind (Decode rest) (\<lambda>ret. Ret (NUM_2_HEX h l # ret))
            | _ \<Rightarrow> Throw InvalidArgument)
      else obind (Decode url) (\<lambda>ret. Ret (c # ret)))"

section \<open>Decoding inverts encoding\<close>

lemma hex_digit_index: "n < 16 \<Longrightarrow> hex_index (HEX_2_NUM_MAP ! n) = n"
proof -
  assume "n < 16"
  then have "n \<in> set [0..<16]" by simp
  moreover have "\<forall>n \<in> set [0..<16]. hex_index (HEX_2_NUM_MAP ! n) = n" by code_simp
  ultimately show ?thesis by blast
qed

lemma high_digit_less: "of_char c div 16 < (16 :: nat)"
proof -
  have "(of_char c :: nat) < 16 * 16" using nat_of_char_less_256 [of c] by simp
  then show ?thesis by (rule less_mult_imp_div_less)
qed

lemma NUM_2_HEX_digits:
  "NUM_2_HEX (HEX_2_NUM_MAP ! (of_char c div 16)) (HEX_2_NUM_MAP ! (of_char c mod 16)) = c"
  using high_digit_less [of c] by (simp add: NUM_2_HEX_def hex_digit_index)

lemma percent_escaped: "url_escapes CHR ''%''"
  by (simp add: url_escapes_def ASCII_EXCEPTION_def)

lemma Decode_Encode: "Decode (Encode s) = Ret s"
proof (induction s)
  case Nil
  then show ?case by (simp add: Encode_def)
next
  case (Cons c s)
  have e: "Encode (c # s) = Encode [c] @ Encode s" by (simp add: Encode_def)
  show ?case
  proof (cases "url_escapes c")
    case True
    then show ?thesis using Cons unfolding e by (simp add: Encode_def NUM_2_HEX_digits)
  next
    case False
    then have "c \<noteq> CHR ''%''" using percent_escaped by blast
    then show ?thesis using Cons False unfolding e by (simp add: Encode_def)
  qed
qed

text \<open>URL encoding loses nothing: any string at all, escaped or not, is what decoding its encoding
  returns, no encoding is refused, and no escaped character remains in it but the percent signs.\<close>

theorem url_encoding_roundtrip:
  "Decode (Encode s) = Ret s \<and> set (filter url_escapes (Encode s)) \<subseteq> {CHR ''%''}"
proof -
  have "\<forall>n \<in> set [0..<16]. \<not> url_escapes (HEX_2_NUM_MAP ! n)" by code_simp
  then have d: "n < 16 \<Longrightarrow> \<not> url_escapes (HEX_2_NUM_MAP ! n)" for n by simp
  have "set (filter url_escapes (Encode s)) \<subseteq> {CHR ''%''}"
    using d high_digit_less by (auto simp: Encode_def split: if_splits)
  then show ?thesis by (simp add: Decode_Encode)
qed

section \<open>Parsing inverts printing\<close>

interpretation query_keys: key_order "(<) :: string cmp"
  by (intro key_order.intro strict_weak_linorder)

abbreviation "wf_query \<equiv> query_keys.wf_map"

lemma getlines_field: "d \<notin> set x \<Longrightarrow> getlines d (x @ d # y) = x # getlines d y"
  by (subst getlines.simps) (simp add: dropWhile_append takeWhile_append)

lemma getlines_last: "d \<notin> set x \<Longrightarrow> x \<noteq> [] \<Longrightarrow> getlines d x = [x]"
proof -
  assume "d \<notin> set x" "x \<noteq> []"
  moreover from this have "dropWhile (\<lambda>c. c \<noteq> d) x = []" by (auto simp: dropWhile_eq_Nil_conv)
  ultimately show ?thesis by (subst getlines.simps) (simp only: list.case if_False)
qed

lemma parseComponent_pair: "CHR ''='' \<notin> set k \<Longrightarrow> parseComponent (k @ ''='' @ v) = (k, v)"
  by (simp add: parseComponent_def Let_def takeWhile_append)

lemma getlines_dump:
  assumes "\<forall>(k, v) \<in> set q. CHR ''&'' \<notin> set k \<and> CHR ''&'' \<notin> set v"
  shows "q \<noteq> [] \<Longrightarrow> getlines CHR ''&'' (q_dump d q) = map (\<lambda>(k, v). k @ ''='' @ v) q"
  using assms
proof (induction q)
  case (Cons p q)
  obtain k v where p: "p = (k, v)" by (cases p)
  have n: "CHR ''&'' \<notin> set (k @ ''='' @ v)" using Cons.prems p by simp
  show ?case
  proof (cases q)
    case Nil
    then show ?thesis using getlines_last [OF n] by (simp add: q_dump_def p)
  next
    case (Cons p2 q2)
    obtain k2 v2 where p2: "p2 = (k2, v2)" by (cases p2)
    have "q_dump d (p # q) = (k @ ''='' @ v) @ CHR ''&'' # q_dump d q"
      by (simp add: q_dump_def p p2 Cons)
    then have "getlines CHR ''&'' (q_dump d (p # q)) = (k @ ''='' @ v) # getlines CHR ''&'' (q_dump d q)"
      using getlines_field [OF n] by simp
    then show ?thesis using Cons.IH Cons.prems Cons by (simp add: p)
  qed
qed simp

lemma om_emplace_last: "\<forall>p \<in> set m. fst p < k \<Longrightarrow> om_emplace (<) k v m = m @ [(k, v)]" for k :: string
  by (induction m) (auto simp: om_emplace_def entry_less_def)

lemma foldl_emplace_sorted:
  "wf_query (m @ q) \<Longrightarrow> foldl (\<lambda>q (k, v). om_emplace (<) k v q) m q = m @ q"
proof (induction q arbitrary: m)
  case (Cons p q)
  have "om_emplace (<) (fst p) (snd p) m = m @ [p]"
    using Cons.prems om_emplace_last [of m "fst p" "snd p"] by (auto simp: sorted_wrt_append entry_less_def)
  then show ?case using Cons by (simp add: case_prod_beta)
qed simp

text \<open>C31. Printing the parameters and parsing them back gives the same map, for any keys without \<open>=\<close> and keys
  and values without \<open>&\<close>, empty ones included.\<close>

theorem query_roundtrip:
  assumes "wf_query q" "\<forall>(k, v) \<in> set q. CHR ''='' \<notin> set k \<and> CHR ''&'' \<notin> set k \<and> CHR ''&'' \<notin> set v"
  shows "q_parse (q_dump d q) ''&'' = q"
proof (cases q)
  case Nil
  then show ?thesis by (simp add: q_parse_def q_dump_def)
next
  case (Cons p q')
  have "q_dump d q \<noteq> []" by (cases p) (simp add: q_dump_def Cons)
  then have "q_parse (q_dump d q) ''&'' = foldl (\<lambda>q c. let (k, v) = parseComponent c in om_emplace (<) k v q) []
      (map (\<lambda>(k, v). k @ ''='' @ v) q)"
    using getlines_dump [of q d] assms(2) Cons by (fastforce simp: q_parse_def split_query_def)
  also have "\<dots> = foldl (\<lambda>q (k, v). om_emplace (<) k v q) [] q"
    unfolding foldl_map
    by (rule foldl_cong) (use assms(2) in \<open>auto simp: parseComponent_pair [simplified]\<close>)
  also have "\<dots> = q" using foldl_emplace_sorted [of "[]" q] assms(1) by simp
  finally show ?thesis .
qed

theorem query_roundtrip_witness:
  "q_parse (q_dump ''&'' [([], ''x''), (''a'', ''1''), (''b'', [])]) ''&'' = [([], ''x''), (''a'', ''1''), (''b'', [])]"
proof (rule query_roundtrip)
  show "wf_query [([], ''x''), (''a'', ''1''), (''b'', [])]" by (simp add: entry_less_def less_char_def)
qed simp

end
