(* ===== verification/Http.thy ===== *)
theory Http
  imports Ordered "HOL-Library.List_Lexorder" "HOL-Library.Char_ord"
begin

unbundle bit_operations_syntax

text \<open>
  \<open>radixun/http/http.{h,cpp}\<close>: methods, status codes, the case-insensitive maps, requests and responses.

  \<^item> an \<open>HttpMethod\<close> is a datatype with the enumerators in the order of \<open>HTTP_METHOD_MAP\<close>; an
    \<open>HttpStatus\<close>, which the response parser casts from any number, is that number;
  \<^item> a map is an ordered association list under \<open>CaseInsensitiveLess\<close>, with the operations of \<open>Ordered\<close>;
  \<^item> \<open>boost::lexical_cast\<close> is an argument (\<open>None\<close> when it throws).
\<close>

section \<open>Methods and status codes\<close>

datatype http_method =
    DELETE | GET | HEAD | POST | PUT | CONNECT
  | OPTIONS | TRACE | COPY | LOCK | MKCOL | MOVE
  | PROPFIND | PROPPATCH | SEARCH | UNLOCK | BIND | REBIND
  | UNBIND | ACL | REPORT | MKACTIVITY | CHECKOUT | MERGE
  | MSEARCH | NOTIFY | SUBSCRIBE | UNSUBSCRIBE | PATCH | PURGE
  | MKCALENDAR | LINK | UNLINK | SOURCE
  | INVALID_METHOD

definition method_table :: "(http_method \<times> string) list" where
  "method_table =
     [(DELETE, ''DELETE''), (GET, ''GET''), (HEAD, ''HEAD''), (POST, ''POST''),
      (PUT, ''PUT''), (CONNECT, ''CONNECT''), (OPTIONS, ''OPTIONS''), (TRACE, ''TRACE''),
      (COPY, ''COPY''), (LOCK, ''LOCK''), (MKCOL, ''MKCOL''), (MOVE, ''MOVE''),
      (PROPFIND, ''PROPFIND''), (PROPPATCH, ''PROPPATCH''), (SEARCH, ''SEARCH''), (UNLOCK, ''UNLOCK''),
      (BIND, ''BIND''), (REBIND, ''REBIND''), (UNBIND, ''UNBIND''), (ACL, ''ACL''),
      (REPORT, ''REPORT''), (MKACTIVITY, ''MKACTIVITY''), (CHECKOUT, ''CHECKOUT''), (MERGE, ''MERGE''),
      (MSEARCH, ''M-SEARCH''), (NOTIFY, ''NOTIFY''), (SUBSCRIBE, ''SUBSCRIBE''), (UNSUBSCRIBE, ''UNSUBSCRIBE''),
      (PATCH, ''PATCH''), (PURGE, ''PURGE''), (MKCALENDAR, ''MKCALENDAR''), (LINK, ''LINK''),
      (UNLINK, ''UNLINK''), (SOURCE, ''SOURCE'')]"

definition status_table :: "(nat \<times> string) list" where
  "status_table =
     [(100, ''Continue''), (101, ''Switching Protocols''),
      (102, ''Processing''), (200, ''OK''),
      (201, ''Created''), (202, ''Accepted''),
      (203, ''Non-Authoritative Information''), (204, ''No Content''),
      (205, ''Reset Content''), (206, ''Partial Content''),
      (207, ''Multi-Status''), (208, ''Already Reported''),
      (226, ''IM Used''), (300, ''Multiple Choices''),
      (301, ''Moved Permanently''), (302, ''Found''),
      (303, ''See Other''), (304, ''Not Modified''),
      (305, ''Use Proxy''), (307, ''Temporary Redirect''),
      (308, ''Permanent Redirect''), (400, ''Bad Request''),
      (401, ''Unauthorized''), (402, ''Payment Required''),
      (403, ''Forbidden''), (404, ''Not Found''),
      (405, ''Method Not Allowed''), (406, ''Not Acceptable''),
      (407, ''Proxy Authentication Required''), (408, ''Request Timeout''),
      (409, ''Conflict''), (410, ''Gone''),
      (411, ''Length Required''), (412, ''Precondition Failed''),
      (413, ''Payload Too Large''), (414, ''URI Too Long''),
      (415, ''Unsupported Media Type''), (416, ''Range Not Satisfiable''),
      (417, ''Expectation Failed''), (421, ''Misdirected Request''),
      (422, ''Unprocessable Entity''), (423, ''Locked''),
      (424, ''Failed Dependency''), (426, ''Upgrade Required''),
      (428, ''Precondition Required''), (429, ''Too Many Requests''),
      (431, ''Request Header Fields Too Large''), (451, ''Unavailable For Legal Reasons''),
      (500, ''Internal Server Error''), (501, ''Not Implemented''),
      (502, ''Bad Gateway''), (503, ''Service Unavailable''),
      (504, ''Gateway Timeout''), (505, ''HTTP Version Not Supported''),
      (506, ''Variant Also Negotiates''), (507, ''Insufficient Storage''),
      (508, ''Loop Detected''), (510, ''Not Extended''),
      (511, ''Network Authentication Required'')]"

definition c_string :: "string \<Rightarrow> string" where
  "c_string s = takeWhile (\<lambda>c. c \<noteq> CHR 0x00) s"

fun first_method :: "(string \<Rightarrow> bool) \<Rightarrow> (http_method \<times> string) list \<Rightarrow> http_method" where
  "first_method P [] = INVALID_METHOD"
| "first_method P ((m, name) # rest) = (if P name then m else first_method P rest)"

definition StringToHttpMethod :: "string \<Rightarrow> http_method" where
  "StringToHttpMethod m = first_method (\<lambda>name. name = c_string m) method_table"

text \<open>\<open>m\<close> points into a buffer: only a prefix is compared.\<close>

definition CharsToHttpMethod :: "string \<Rightarrow> http_method" where
  "CharsToHttpMethod m = first_method (\<lambda>name. take (length name) m = name) method_table"

definition HttpMethodToString :: "http_method \<Rightarrow> string" where
  "HttpMethodToString m =
     (case map_of method_table m of Some s \<Rightarrow> s | None \<Rightarrow> ''<unknown>'')"

definition HttpStatusToString :: "nat \<Rightarrow> string" where
  "HttpStatusToString s = (case map_of status_table s of Some msg \<Rightarrow> msg | None \<Rightarrow> ''<unknown>'')"

section \<open>Case-insensitive maps\<close>

definition to_lower :: "char \<Rightarrow> char" where
  "to_lower c = (if of_char c \<in> {65..90 :: nat} then char_of (of_char c + 32 :: nat) else c)"

definition ci_key :: "string \<Rightarrow> string" where
  "ci_key s = map to_lower (c_string s)"

definition CaseInsensitiveLess :: "string \<Rightarrow> string \<Rightarrow> bool" where
  "CaseInsensitiveLess lhs rhs \<longleftrightarrow> ci_key lhs < ci_key rhs"

type_synonym header_map = "(string \<times> string) list"

definition map_get :: "header_map \<Rightarrow> string \<Rightarrow> string \<Rightarrow> string" where
  "map_get m key def = (case om_find CaseInsensitiveLess key m of None \<Rightarrow> def | Some v \<Rightarrow> v)"

definition map_set :: "string \<Rightarrow> string \<Rightarrow> header_map \<Rightarrow> header_map" where
  "map_set key val m = om_assign CaseInsensitiveLess key val m"

definition map_del :: "string \<Rightarrow> header_map \<Rightarrow> header_map" where
  "map_del key m = om_erase CaseInsensitiveLess key m"

text \<open>\<open>has\<close> with its optional out-parameter: what it stores there.\<close>

definition map_has :: "header_map \<Rightarrow> string \<Rightarrow> bool \<times> string option" where
  "map_has m key = (case om_find CaseInsensitiveLess key m of None \<Rightarrow> (False, None) | Some v \<Rightarrow> (True, Some v))"

definition checkGetAs :: "(string \<Rightarrow> 'a option) \<Rightarrow> header_map \<Rightarrow> string \<Rightarrow> 'a \<Rightarrow> bool \<times> 'a" where
  "checkGetAs lexical_cast m key def =
     (case om_find CaseInsensitiveLess key m of
        None \<Rightarrow> (False, def)
      | Some v \<Rightarrow> (case lexical_cast v of Some x \<Rightarrow> (True, x) | None \<Rightarrow> (False, def)))"

definition getAs :: "(string \<Rightarrow> 'a option) \<Rightarrow> header_map \<Rightarrow> string \<Rightarrow> 'a \<Rightarrow> 'a" where
  "getAs lexical_cast m key def =
     (case om_find CaseInsensitiveLess key m of
        None \<Rightarrow> def
      | Some v \<Rightarrow> (case lexical_cast v of Some x \<Rightarrow> x | None \<Rightarrow> def))"

section \<open>Requests\<close>

record http_request =
  rq_method :: http_method
  rq_version :: "8 word"
  rq_close :: bool
  rq_path :: string
  rq_query :: string
  rq_fragment :: string
  rq_body :: string
  rq_headers :: header_map
  rq_params :: header_map
  rq_cookies :: header_map

definition HttpRequest_new :: "8 word \<Rightarrow> bool \<Rightarrow> http_request" where
  "HttpRequest_new version close =
     \<lparr>rq_method = GET, rq_version = version, rq_close = close, rq_path = ''/'', rq_query = [],
      rq_fragment = [], rq_body = [], rq_headers = [], rq_params = [], rq_cookies = []\<rparr>"

definition rq_getHeader :: "http_request \<Rightarrow> string \<Rightarrow> string \<Rightarrow> string" where
  "rq_getHeader r key def = map_get (rq_headers r) key def"

definition rq_getParam :: "http_request \<Rightarrow> string \<Rightarrow> string \<Rightarrow> string" where
  "rq_getParam r key def = map_get (rq_params r) key def"

definition rq_getCookie :: "http_request \<Rightarrow> string \<Rightarrow> string \<Rightarrow> string" where
  "rq_getCookie r key def = map_get (rq_cookies r) key def"

definition rq_setHeader :: "string \<Rightarrow> string \<Rightarrow> http_request \<Rightarrow> http_request" where
  "rq_setHeader key val r = r\<lparr>rq_headers := map_set key val (rq_headers r)\<rparr>"

definition rq_setParam :: "string \<Rightarrow> string \<Rightarrow> http_request \<Rightarrow> http_request" where
  "rq_setParam key val r = r\<lparr>rq_params := map_set key val (rq_params r)\<rparr>"

definition rq_setCookie :: "string \<Rightarrow> string \<Rightarrow> http_request \<Rightarrow> http_request" where
  "rq_setCookie key val r = r\<lparr>rq_cookies := map_set key val (rq_cookies r)\<rparr>"

definition rq_delHeader :: "string \<Rightarrow> http_request \<Rightarrow> http_request" where
  "rq_delHeader key r = r\<lparr>rq_headers := map_del key (rq_headers r)\<rparr>"

definition rq_delParam :: "string \<Rightarrow> http_request \<Rightarrow> http_request" where
  "rq_delParam key r = r\<lparr>rq_params := map_del key (rq_params r)\<rparr>"

definition rq_delCookie :: "string \<Rightarrow> http_request \<Rightarrow> http_request" where
  "rq_delCookie key r = r\<lparr>rq_cookies := map_del key (rq_cookies r)\<rparr>"

definition rq_hasHeader :: "http_request \<Rightarrow> string \<Rightarrow> bool \<times> string option" where
  "rq_hasHeader r key = map_has (rq_headers r) key"

definition rq_hasParam :: "http_request \<Rightarrow> string \<Rightarrow> bool \<times> string option" where
  "rq_hasParam r key = map_has (rq_params r) key"

definition rq_hasCookie :: "http_request \<Rightarrow> string \<Rightarrow> bool \<times> string option" where
  "rq_hasCookie r key = map_has (rq_cookies r) key"

definition rq_checkGetHeaderAs :: "(string \<Rightarrow> 'a option) \<Rightarrow> http_request \<Rightarrow> string \<Rightarrow> 'a \<Rightarrow> bool \<times> 'a" where
  "rq_checkGetHeaderAs cast r key def = checkGetAs cast (rq_headers r) key def"

definition rq_getHeaderAs :: "(string \<Rightarrow> 'a option) \<Rightarrow> http_request \<Rightarrow> string \<Rightarrow> 'a \<Rightarrow> 'a" where
  "rq_getHeaderAs cast r key def = getAs cast (rq_headers r) key def"

definition rq_checkGetParamAs :: "(string \<Rightarrow> 'a option) \<Rightarrow> http_request \<Rightarrow> string \<Rightarrow> 'a \<Rightarrow> bool \<times> 'a" where
  "rq_checkGetParamAs cast r key def = checkGetAs cast (rq_headers r) key def"

definition rq_getParamAs :: "(string \<Rightarrow> 'a option) \<Rightarrow> http_request \<Rightarrow> string \<Rightarrow> 'a \<Rightarrow> 'a" where
  "rq_getParamAs cast r key def = getAs cast (rq_headers r) key def"

definition rq_checkGetCookieAs :: "(string \<Rightarrow> 'a option) \<Rightarrow> http_request \<Rightarrow> string \<Rightarrow> 'a \<Rightarrow> bool \<times> 'a" where
  "rq_checkGetCookieAs cast r key def = checkGetAs cast (rq_headers r) key def"

definition rq_getCookieAs :: "(string \<Rightarrow> 'a option) \<Rightarrow> http_request \<Rightarrow> string \<Rightarrow> 'a \<Rightarrow> 'a" where
  "rq_getCookieAs cast r key def = getAs cast (rq_headers r) key def"

section \<open>Printing\<close>

definition crlf :: string where "crlf = [CHR 0x0D, CHR 0x0A]"

definition is_connection :: "string \<Rightarrow> bool" where
  "is_connection name \<longleftrightarrow> ci_key name = ci_key ''connection''"

definition version_text :: "8 word \<Rightarrow> string" where
  "version_text v = ''HTTP/'' @ dec_string (unat (drop_bit 4 v)) @ ''.'' @ dec_string (unat (v AND 0x0F))"

definition connection_line :: "bool \<Rightarrow> string" where
  "connection_line close = ''connection: '' @ (if close then ''close'' else ''keep-alive'') @ crlf"

definition header_lines :: "string \<Rightarrow> header_map \<Rightarrow> string" where
  "header_lines sep m =
     concat (map (\<lambda>(k, v). if is_connection k then [] else k @ sep @ v @ crlf) m)"

definition body_text :: "string \<Rightarrow> string" where
  "body_text body =
     (if body \<noteq> [] then ''content-length: '' @ dec_string (length body) @ crlf @ crlf @ body else crlf)"

definition rq_dump :: "http_request \<Rightarrow> string" where
  "rq_dump r =
     HttpMethodToString (rq_method r) @ '' '' @ rq_path r
       @ (if rq_query r = [] then [] else ''?'') @ rq_query r
       @ (if rq_fragment r = [] then [] else ''#'') @ rq_fragment r
       @ '' '' @ version_text (rq_version r) @ crlf
       @ connection_line (rq_close r) @ header_lines '':'' (rq_headers r) @ body_text (rq_body r)"

definition rq_toString :: "http_request \<Rightarrow> string" where "rq_toString r = rq_dump r"

section \<open>Responses\<close>

record http_response =
  rs_status :: nat
  rs_version :: "8 word"
  rs_close :: bool
  rs_body :: string
  rs_reason :: string
  rs_headers :: header_map

definition HttpResponse_new :: "8 word \<Rightarrow> bool \<Rightarrow> http_response" where
  "HttpResponse_new version close =
     \<lparr>rs_status = 200, rs_version = version, rs_close = close, rs_body = [], rs_reason = [], rs_headers = []\<rparr>"

definition rs_getHeader :: "http_response \<Rightarrow> string \<Rightarrow> string \<Rightarrow> string" where
  "rs_getHeader r key def = map_get (rs_headers r) key def"

definition rs_setHeader :: "string \<Rightarrow> string \<Rightarrow> http_response \<Rightarrow> http_response" where
  "rs_setHeader key val r = r\<lparr>rs_headers := map_set key val (rs_headers r)\<rparr>"

definition rs_delHeader :: "string \<Rightarrow> http_response \<Rightarrow> http_response" where
  "rs_delHeader key r = r\<lparr>rs_headers := map_del key (rs_headers r)\<rparr>"

definition rs_getHeaderAs :: "(string \<Rightarrow> 'a option) \<Rightarrow> http_response \<Rightarrow> string \<Rightarrow> 'a \<Rightarrow> 'a" where
  "rs_getHeaderAs cast r key def = getAs cast (rs_headers r) key def"

definition rs_checkGetHeaderAs :: "(string \<Rightarrow> 'a option) \<Rightarrow> http_response \<Rightarrow> string \<Rightarrow> 'a \<Rightarrow> bool \<times> 'a" where
  "rs_checkGetHeaderAs cast r key def = checkGetAs cast (rs_headers r) key def"

definition rs_dump :: "http_response \<Rightarrow> string" where
  "rs_dump r =
     version_text (rs_version r) @ '' '' @ dec_string (rs_status r) @ '' ''
       @ (if rs_reason r = [] then HttpStatusToString (rs_status r) else rs_reason r) @ crlf
       @ header_lines '': '' (rs_headers r) @ connection_line (rs_close r) @ body_text (rs_body r)"

definition rs_toString :: "http_response \<Rightarrow> string" where "rs_toString r = rs_dump r"

section \<open>Method names\<close>

lemma CharsToHttpMethod_prefix:
  "m \<noteq> INVALID_METHOD \<Longrightarrow> CharsToHttpMethod (HttpMethodToString m @ rest) = m"
  by (cases m) (simp_all add: CharsToHttpMethod_def HttpMethodToString_def method_table_def)

text \<open>Every method's name names it again: exactly, and as the beginning of a buffer whatever follows it.\<close>

theorem method_name_roundtrip:
  assumes "m \<noteq> INVALID_METHOD"
  shows "StringToHttpMethod (HttpMethodToString m) = m \<and> CharsToHttpMethod (HttpMethodToString m @ rest) = m"
  using assms CharsToHttpMethod_prefix [OF assms]
  by (cases m) (simp_all add: StringToHttpMethod_def HttpMethodToString_def method_table_def c_string_def)

theorem method_name_roundtrip_witness: "CharsToHttpMethod ''M-SEARCH * HTTP/1.1'' = MSEARCH"
  using method_name_roundtrip [of MSEARCH "'' * HTTP/1.1''"] by (simp add: HttpMethodToString_def method_table_def)

section \<open>Maps\<close>

interpretation headers: key_order CaseInsensitiveLess
  by unfold_locales (auto simp: CaseInsensitiveLess_def)

lemma equiv_ci: "equiv CaseInsensitiveLess k k' \<longleftrightarrow> ci_key k = ci_key k'"
  by (auto simp: equiv_def CaseInsensitiveLess_def)

abbreviation "wf_headers \<equiv> headers.wf_map"

text \<open>The header map is case-insensitive: after \<open>setHeader\<close> a name reads the new value under any
  capitalisation and every other name its old value, after \<open>delHeader\<close> it reads the default; both keep the
  map ordered without two names that differ only in case.\<close>

theorem headers_case_insensitive:
  assumes "wf_headers (rq_headers r)"
  shows "wf_headers (rq_headers (rq_setHeader k v r)) \<and> wf_headers (rq_headers (rq_delHeader k r))
    \<and> rq_getHeader (rq_setHeader k v r) k' d = (if ci_key k' = ci_key k then v else rq_getHeader r k' d)
    \<and> rq_getHeader (rq_delHeader k r) k' d = (if ci_key k' = ci_key k then d else rq_getHeader r k' d)"
  using headers.om_find_assign [OF assms, of k' k v] headers.om_find_erase [of k' k "rq_headers r"]
    headers.wf_om_assign [OF assms, of k v] headers.wf_om_erase [OF assms, of k]
  by (simp add: rq_getHeader_def rq_setHeader_def rq_delHeader_def map_get_def map_set_def map_del_def equiv_ci)

theorem headers_case_insensitive_witness:
  "rq_getHeader (rq_setHeader ''Content-Length'' ''12'' (HttpRequest_new 0x11 True)) ''content-length'' [] = ''12''"
proof -
  have "wf_headers (rq_headers (HttpRequest_new 0x11 True))" by (simp add: HttpRequest_new_def)
  moreover have "ci_key ''content-length'' = ci_key ''Content-Length''" by code_simp
  ultimately show ?thesis using headers_case_insensitive by simp
qed

text \<open>The typed parameter and cookie accessors look the name up among the headers.\<close>

lemma typed_params_ignore_params:
  "rq_getParamAs cast (rq_setParam k v r) k' d = rq_getParamAs cast r k' d"
  "rq_getCookieAs cast (rq_setCookie k v r) k' d = rq_getCookieAs cast r k' d"
  "rq_getParamAs cast r k' d = rq_getHeaderAs cast r k' d"
  by (simp_all add: rq_getParamAs_def rq_getCookieAs_def rq_getHeaderAs_def rq_setParam_def rq_setCookie_def)

text \<open>A printed message carries exactly one connection line, whatever headers were set.\<close>

lemma header_lines_connection:
  "header_lines sep m = header_lines sep (filter (\<lambda>(k, v). \<not> is_connection k) m)"
  by (induction m) (auto simp: header_lines_def)

end
