(* ===== verification/Ragel.thy ===== *)
theory Ragel
  imports Prelude
begin

text \<open>
  The execution scheme of the \<open>goto\<close> machines that Ragel generates: \<open>radixun/http/http11_parser.rl.cc\<close>,
  \<open>httpclient_parser.rl.cc\<close> and \<open>uri.rl.cc\<close> are instances.

  \<^item> \<open>m_trans\<close> is the table: for a state and a character (\<open>*p\<close> as the signed \<open>char\<close> it is) the actions of the
    \<open>tr\<close> label jumped to and the state it continues with, 0 for a jump to \<open>st0\<close>; it may read the parser;
  \<^item> \<open>m_do\<close> is an action at a position: the event it reports to a callback, if any, and the parser after it;
  \<^item> \<open>m_break\<close> says that the action contains \<open>fbreak\<close>;
  \<^item> a state without a \<open>case\<close> label falls through the \<open>switch\<close> to the first \<open>_test_eof\<close> label, which is that of
    state 2 in all three machines;
  \<^item> the callbacks are one handler \<open>h\<close> of events, with a state of its own.
\<close>

type_synonym 'a go = "'a list \<times> nat"
type_synonym ('e, 'd) sink = "'e \<Rightarrow> 'd \<Rightarrow> 'd outcome"

record ('a, 'p, 'e) machine =
  m_trans :: "'p \<Rightarrow> nat \<Rightarrow> int \<Rightarrow> 'a go option"
  m_do :: "nat \<Rightarrow> nat \<Rightarrow> 'a \<Rightarrow> 'p \<Rightarrow> 'e option \<times> 'p"
  m_break :: "'a \<Rightarrow> bool"

text \<open>The actions of one transition; the flag says that \<open>fbreak\<close> left the machine.\<close>

fun run_acts :: "('a, 'p, 'e) machine \<Rightarrow> ('e, 'd) sink \<Rightarrow> nat \<Rightarrow> nat \<Rightarrow> 'a list \<Rightarrow> 'p \<Rightarrow> 'd
    \<Rightarrow> (bool \<times> 'p \<times> 'd) outcome" where
  "run_acts m h pe p [] s d = Ret (False, s, d)"
| "run_acts m h pe p (a # as) s d =
     (let (ev, s1) = m_do m pe p a s
      in obind (case ev of None \<Rightarrow> Ret d | Some e \<Rightarrow> h e d) (\<lambda>d1.
           if m_break m a then Ret (True, s1, d1) else run_acts m h pe p as s1 d1))"

function run_machine :: "('a, 'p, 'e) machine \<Rightarrow> ('e, 'd) sink \<Rightarrow> string \<Rightarrow> nat \<Rightarrow> nat \<Rightarrow> 'p \<Rightarrow> 'd
    \<Rightarrow> (nat \<times> nat \<times> 'p \<times> 'd) outcome" where
  "run_machine m h buf p cs s d =
     (if p \<ge> length buf then Ret (cs, p, s, d)
      else case m_trans m s cs (signed_char (buf ! p)) of
        None \<Rightarrow> Ret (2, p, s, d)
      | Some (acts, tgt) \<Rightarrow>
          obind (run_acts m h (length buf) p acts s d) (\<lambda>(brk, s1, d1).
            if brk then Ret (tgt, p + 1, s1, d1)
            else if tgt = 0 then Ret (0, p, s1, d1)
            else run_machine m h buf (p + 1) tgt s1 d1))"
  by pat_completeness auto
termination
  by (relation "measure (\<lambda>(m, h, buf, p, cs, s, d). length buf - p)") auto

declare run_machine.simps [simp del]

section \<open>The log of events\<close>

text \<open>The parser only sends events: what any callbacks do is what they do to the recorded events.\<close>

definition log_handler :: "('e, 'e list) sink" where
  "log_handler e d = Ret (d @ [e])"

primrec deliver :: "('e, 'd) sink \<Rightarrow> 'e list \<Rightarrow> 'd \<Rightarrow> 'd outcome" where
  "deliver h [] d = Ret d"
| "deliver h (e # es) d = obind (h e d) (deliver h es)"

lemma deliver_Nil: "deliver h [] = Ret"
  by (rule ext) simp

lemma deliver_append: "deliver h (es @ fs) d = obind (deliver h es d) (deliver h fs)"
  by (induction es arbitrary: d) (auto simp: obind_assoc intro: obind_cong)

lemma run_acts_deliver:
  "\<exists>stop hp' es. (\<forall>es0. run_acts m log_handler pe p acts hp es0 = Ret (stop, hp', es0 @ es))
     \<and> (\<forall>h d. run_acts m h pe p acts hp d = obind (deliver h es d) (\<lambda>d'. Ret (stop, hp', d' :: 'd)))"
proof (induction acts arbitrary: hp)
  case Nil
  then show ?case by (intro exI [of _ False] exI [of _ hp] exI [of _ "[]"]) simp
next
  case (Cons a acts)
  obtain ev hp1 where d: "m_do m pe p a hp = (ev, hp1)" by fastforce
  define es1 where "es1 = (case ev of None \<Rightarrow> [] | Some e \<Rightarrow> [e])"
  have l: "(case ev of None \<Rightarrow> Ret es0 | Some e \<Rightarrow> log_handler e es0) = Ret (es0 @ es1)" for es0
    by (simp add: es1_def log_handler_def split: option.splits)
  have r: "(case ev of None \<Rightarrow> Ret d | Some e \<Rightarrow> h e d) = deliver h es1 d" for h and d :: 'd
    by (simp add: es1_def deliver_Nil split: option.splits)
  obtain stop hp' es where ih: "\<And>es0. run_acts m log_handler pe p acts hp1 es0 = Ret (stop, hp', es0 @ es)"
    "\<And>h d. run_acts m h pe p acts hp1 d = obind (deliver h es d) (\<lambda>d'. Ret (stop, hp', d' :: 'd))"
    using Cons.IH [of hp1] by blast
  have ihf: "run_acts m h pe p acts hp1 = (\<lambda>d. obind (deliver h es d) (\<lambda>d'. Ret (stop, hp', d' :: 'd)))" for h
    by (rule ext) (rule ih(2))
  show ?case
  proof (cases "m_break m a")
    case True
    then show ?thesis using d
      by (intro exI [of _ True] exI [of _ hp1] exI [of _ es1]) (simp add: l r)
  next
    case False
    then show ?thesis using d
      by (intro exI [of _ stop] exI [of _ hp'] exI [of _ "es1 @ es"])
        (simp add: l r ih(1) ihf deliver_append obind_assoc)
  qed
qed

lemma run_machine_deliver:
  "\<exists>cs' p' hp' es. (\<forall>es0. run_machine m log_handler buf p cs hp es0 = Ret (cs', p', hp', es0 @ es))
     \<and> (\<forall>h d. run_machine m h buf p cs hp d = obind (deliver h es d) (\<lambda>d'. Ret (cs', p', hp', d' :: 'd)))"
proof (induction "length buf - p" arbitrary: p cs hp rule: less_induct)
  case less
  let ?t = "m_trans m hp cs (signed_char (buf ! p))"
  show ?case
  proof (cases "p < length buf \<and> ?t \<noteq> None")
    case False
    let ?cs = "if p < length buf then 2 else cs"
    have "run_machine m log_handler buf p cs hp es0 = Ret (?cs, p, hp, es0 @ [])" for es0
      using False by (cases ?t) (auto simp: run_machine.simps [of m _ buf p])
    moreover have "run_machine m h buf p cs hp d = obind (deliver h [] d) (\<lambda>d'. Ret (?cs, p, hp, d'))" for h and d :: 'd
      using False by (cases ?t) (auto simp: run_machine.simps [of m _ buf p])
    ultimately show ?thesis by blast
  next
    case True
    then obtain acts tgt where t: "p < length buf" "?t = Some (acts, tgt)" by auto
    obtain stop hp1 es1 where a: "\<And>es0. run_acts m log_handler (length buf) p acts hp es0 = Ret (stop, hp1, es0 @ es1)"
      "\<And>h d. run_acts m h (length buf) p acts hp d = obind (deliver h es1 d) (\<lambda>d'. Ret (stop, hp1, d' :: 'd))"
      using run_acts_deliver by metis
    have "length buf - Suc p < length buf - p" using t by simp
    from less.hyps [OF this, of tgt hp1] obtain cs' p' hp' es where ih:
      "\<And>es0. run_machine m log_handler buf (Suc p) tgt hp1 es0 = Ret (cs', p', hp', es0 @ es)"
      "\<And>h d. run_machine m h buf (Suc p) tgt hp1 d = obind (deliver h es d) (\<lambda>d'. Ret (cs', p', hp', d' :: 'd))"
      by blast
    consider "stop" | "\<not> stop" "tgt = 0" | "\<not> stop" "tgt \<noteq> 0" by blast
    then show ?thesis
    proof cases
      case 1
      have "run_machine m log_handler buf p cs hp es0 = Ret (tgt, Suc p, hp1, es0 @ es1)" for es0
        using 1 t by (simp add: run_machine.simps [of m _ buf p] a)
      moreover have "run_machine m h buf p cs hp d = obind (deliver h es1 d) (\<lambda>d'. Ret (tgt, Suc p, hp1, d'))" for h and d :: 'd
        using 1 t by (simp add: run_machine.simps [of m _ buf p] a obind_assoc)
      ultimately show ?thesis by blast
    next
      case 2
      have "run_machine m log_handler buf p cs hp es0 = Ret (0, p, hp1, es0 @ es1)" for es0
        using 2 t by (simp add: run_machine.simps [of m _ buf p] a)
      moreover have "run_machine m h buf p cs hp d = obind (deliver h es1 d) (\<lambda>d'. Ret (0, p, hp1, d'))" for h and d :: 'd
        using 2 t by (simp add: run_machine.simps [of m _ buf p] a obind_assoc)
      ultimately show ?thesis by blast
    next
      case 3
      have "run_machine m log_handler buf p cs hp es0 = Ret (cs', p', hp', es0 @ es1 @ es)" for es0
        using 3 t by (simp add: run_machine.simps [of m _ buf p] a ih)
      moreover have "run_machine m h buf p cs hp d
          = obind (deliver h (es1 @ es) d) (\<lambda>d'. Ret (cs', p', hp', d'))" for h and d :: 'd
        using 3 t by (simp add: run_machine.simps [of m _ buf p] a ih deliver_append obind_assoc)
      ultimately show ?thesis by blast
    qed
  qed
qed

section \<open>Feeding a piece\<close>

type_synonym ('p, 'e) feed_state = "nat \<times> nat \<times> 'p \<times> 'e list"

primrec feed :: "('a, 'p, 'e) machine \<Rightarrow> nat \<Rightarrow> string \<Rightarrow> ('p, 'e) feed_state \<Rightarrow> ('p, 'e) feed_state option" where
  "feed m len [] st = Some st"
| "feed m len (c # w) st = (case st of (p, cs, hp, es) \<Rightarrow>
     (case m_trans m hp cs (signed_char c) of
        None \<Rightarrow> None
      | Some (acts, tgt) \<Rightarrow>
          (case run_acts m log_handler len p acts hp es of
             Ret (stop, hp1, es1) \<Rightarrow> if stop \<or> tgt = 0 then None else feed m len w (p + 1, tgt, hp1, es1)
           | _ \<Rightarrow> None)))"

lemma feed_append: "feed m len (u @ w) st = Option.bind (feed m len u st) (feed m len w)"
  by (induction u arbitrary: st) (auto split: option.splits outcome.splits prod.splits)

lemma feed_appendI: "feed m len u st = Some st1 \<Longrightarrow> feed m len w st1 = Some st2 \<Longrightarrow> feed m len (u @ w) st = Some st2"
  by (simp add: feed_append)

lemma loop_feed:
  "feed m (length buf) w (length pre, cs, hp, es) = Some (p', cs', hp', es') \<Longrightarrow> buf = pre @ w @ post \<Longrightarrow>
   run_machine m log_handler buf (length pre) cs hp es = run_machine m log_handler buf p' cs' hp' es'
     \<and> p' = length pre + length w"
proof (induction w arbitrary: pre cs hp es)
  case Nil
  then show ?case by simp
next
  case (Cons c w)
  have c: "buf ! length pre = c" "length pre < length buf" using Cons.prems(2) by (auto simp: nth_append)
  obtain acts tgt hp1 es1 where t: "m_trans m hp cs (signed_char c) = Some (acts, tgt)"
    "run_acts m log_handler (length buf) (length pre) acts hp es = Ret (False, hp1, es1)" "tgt \<noteq> 0"
    "feed m (length buf) w (length pre + 1, tgt, hp1, es1) = Some (p', cs', hp', es')"
    using Cons.prems(1) by (auto split: option.splits outcome.splits if_splits)
  have "buf = (pre @ [c]) @ w @ post" using Cons.prems(2) by simp
  from Cons.IH [OF _ this, of tgt hp1 es1] t(4) show ?case
    using t(1-3) c by (simp add: run_machine.simps [of m _ buf "length pre"])
qed

lemma feed_self:
  "cs \<noteq> 0 \<Longrightarrow> (\<And>c. c \<in> set w \<Longrightarrow> m_trans m hp cs (signed_char c) = Some ([], cs)) \<Longrightarrow>
   feed m len w (p, cs, hp, es) = Some (p + length w, cs, hp, es)"
  by (induction w arbitrary: p) auto

section \<open>What the callbacks keep\<close>

lemma run_acts_keeps:
  assumes "\<And>e d d'. h e d = Ret d' \<Longrightarrow> f d' = f d"
  shows "run_acts m h pe p acts hp d = Ret (brk, hp', d') \<Longrightarrow> f d' = f d"
proof (induction acts arbitrary: hp d)
  case (Cons a acts)
  obtain ev hp1 where a: "m_do m pe p a hp = (ev, hp1)" by (cases "m_do m pe p a hp")
  obtain d1 where d1: "(case ev of None \<Rightarrow> Ret d | Some e \<Rightarrow> h e d) = Ret d1"
    and r: "(if m_break m a then Ret (True, hp1, d1) else run_acts m h pe p acts hp1 d1) = Ret (brk, hp', d')"
    using Cons.prems by (auto simp: a obind_Ret_iff)
  have "f d1 = f d" using d1 assms by (auto split: option.splits)
  then show ?case using r Cons.IH by (auto split: if_splits)
qed simp

lemma run_machine_keeps:
  assumes "\<And>e d d'. h e d = Ret d' \<Longrightarrow> f d' = f d"
  shows "run_machine m h buf p cs hp d = Ret (cs', p', hp', d') \<Longrightarrow> f d' = f d"
proof (induction "length buf - p" arbitrary: p cs hp d rule: less_induct)
  case less
  show ?case
  proof (cases "p \<ge> length buf")
    case True
    then show ?thesis using less.prems by (subst (asm) run_machine.simps) simp
  next
    case False
    show ?thesis
    proof (cases "m_trans m hp cs (signed_char (buf ! p))")
      case None
      then show ?thesis using less.prems False by (subst (asm) run_machine.simps) simp
    next
      case (Some at)
      obtain acts tgt where at: "at = (acts, tgt)" by (cases at)
      obtain brk hp1 d1 where a: "run_acts m h (length buf) p acts hp d = Ret (brk, hp1, d1)"
        and r: "(if brk then Ret (tgt, p + 1, hp1, d1) else if tgt = 0 then Ret (0, p, hp1, d1)
            else run_machine m h buf (p + 1) tgt hp1 d1) = Ret (cs', p', hp', d')"
        using less.prems False Some at by (subst (asm) run_machine.simps) (auto simp: obind_Ret_iff)
      have "f d1 = f d" by (rule run_acts_keeps [where h = h and f = f, OF _ a]) (rule assms)
      moreover have "run_machine m h buf (p + 1) tgt hp1 d1 = Ret (cs', p', hp', d') \<Longrightarrow> f d' = f d1"
        using False by (intro less.hyps) auto
      ultimately show ?thesis using r by (auto split: if_splits)
    qed
  qed
qed

section \<open>Certified machines\<close>

text \<open>
  A machine whose table keeps to an order of its actions: \<open>ord\<close> is the order, \<open>phase\<close> the phase of each live
  state, \<open>J\<close> an invariant of the position, the phase, the parser and the callbacks that every action in order
  keeps without a fault or an exception. Then every run is free of both and keeps it.
\<close>

primrec ords :: "('ph \<Rightarrow> 'a \<Rightarrow> 'ph option) \<Rightarrow> 'ph \<Rightarrow> 'a list \<Rightarrow> 'ph option" where
  "ords ord ph [] = Some ph"
| "ords ord ph (a # as) = (case ord ph a of None \<Rightarrow> None | Some ph' \<Rightarrow> ords ord ph' as)"

lemma ords_append:
  "ords ord ph (as @ bs) = (case ords ord ph as of None \<Rightarrow> None | Some ph' \<Rightarrow> ords ord ph' bs)"
  by (induction as arbitrary: ph) (auto split: option.splits)

locale certified_machine =
  fixes m :: "('a, 'p, 'e) machine" and h :: "('e, 'd) sink" and buf :: string
    and ord :: "'ph \<Rightarrow> 'a \<Rightarrow> 'ph option" and phase :: "nat \<Rightarrow> 'ph" and live :: "nat \<Rightarrow> bool"
    and finished :: 'ph and J :: "nat \<Rightarrow> 'ph \<Rightarrow> 'p \<Rightarrow> 'd \<Rightarrow> bool"
  assumes act: "p < length buf \<Longrightarrow> J p ph s d \<Longrightarrow> ord ph a = Some ph' \<Longrightarrow> m_do m (length buf) p a s = (ev, s') \<Longrightarrow>
      \<exists>d'. (case ev of None \<Rightarrow> Ret d | Some e \<Rightarrow> h e d) = Ret d' \<and> J p ph' s' d'"
    and shift: "J p ph s d \<Longrightarrow> J (Suc p) ph s d"
    and breaks: "m_break m a \<Longrightarrow> ord ph a = Some ph' \<Longrightarrow> ph' = finished"
    and table: "live cs \<Longrightarrow> m_trans m s cs c = Some (acts, tgt) \<Longrightarrow>
      \<exists>ph. ords ord (phase cs) acts = Some ph
        \<and> ((\<forall>a \<in> set acts. \<not> m_break m a) \<longrightarrow> tgt \<noteq> 0 \<longrightarrow> live tgt \<and> ph = phase tgt)"
    and fall_through: "live 2"
begin

lemma acts_kept:
  "p < length buf \<Longrightarrow> J p ph s d \<Longrightarrow> ords ord ph acts = Some ph' \<Longrightarrow>
    \<exists>brk s' d'. run_acts m h (length buf) p acts s d = Ret (brk, s', d')
      \<and> (brk \<longrightarrow> J p finished s' d') \<and> (\<not> brk \<longrightarrow> J p ph' s' d') \<and> (brk \<longleftrightarrow> (\<exists>a \<in> set acts. m_break m a))"
proof (induction acts arbitrary: ph s d)
  case (Cons a acts)
  obtain ph1 where o: "ord ph a = Some ph1" "ords ord ph1 acts = Some ph'"
    using Cons.prems(3) by (auto split: option.splits)
  obtain ev s1 where e: "m_do m (length buf) p a s = (ev, s1)" by fastforce
  obtain d1 where d: "(case ev of None \<Rightarrow> Ret d | Some e \<Rightarrow> h e d) = Ret d1" "J p ph1 s1 d1"
    using act [OF Cons.prems(1,2) o(1) e] by blast
  show ?case
  proof (cases "m_break m a")
    case True
    then show ?thesis using breaks [OF True o(1)] d e by auto
  next
    case False
    then show ?thesis using Cons.IH [OF Cons.prems(1) d(2) o(2)] d e by simp
  qed
qed auto

lemma run_kept:
  "live cs \<Longrightarrow> J p (phase cs) s d \<Longrightarrow> p \<le> length buf \<Longrightarrow>
    \<exists>cs' p' s' d' q ph. run_machine m h buf p cs s d = Ret (cs', p', s', d') \<and> p \<le> p' \<and> p' \<le> length buf
      \<and> J q ph s' d' \<and> (cs' = 0 \<or> live cs' \<or> ph = finished)"
proof (induction "length buf - p" arbitrary: p cs s d rule: less_induct)
  case less
  show ?case
  proof (cases "p < length buf")
    case False
    then show ?thesis using less.prems by (auto simp: run_machine.simps)
  next
    case True
    show ?thesis
    proof (cases "m_trans m s cs (signed_char (buf ! p))")
      case None
      then show ?thesis using less.prems fall_through by (auto simp: run_machine.simps)
    next
      case (Some t)
      then obtain acts tgt where t: "m_trans m s cs (signed_char (buf ! p)) = Some (acts, tgt)" by (cases t) auto
      obtain ph where ph: "ords ord (phase cs) acts = Some ph"
        "(\<forall>a \<in> set acts. \<not> m_break m a) \<longrightarrow> tgt \<noteq> 0 \<longrightarrow> live tgt \<and> ph = phase tgt"
        using table [OF less.prems(1) t] by blast
      obtain brk s1 d1 where a: "run_acts m h (length buf) p acts s d = Ret (brk, s1, d1)" "brk \<longrightarrow> J p finished s1 d1"
        "\<not> brk \<longrightarrow> J p ph s1 d1" "brk \<longleftrightarrow> (\<exists>a \<in> set acts. m_break m a)"
        using acts_kept [OF True less.prems(2) ph(1)] by blast
      consider "brk" | "\<not> brk" "tgt = 0" | "\<not> brk" "tgt \<noteq> 0" by blast
      then show ?thesis
      proof cases
        case 3
        then have n: "live tgt" "J (Suc p) (phase tgt) s1 d1" using a ph(2) by (auto intro: shift)
        have l: "run_machine m h buf p cs s d = run_machine m h buf (Suc p) tgt s1 d1"
          using 3 True t a(1) by (subst run_machine.simps) simp
        have "length buf - Suc p < length buf - p" "Suc p \<le> length buf" using True by simp_all
        from less.hyps [OF this(1) n this(2)] obtain cs' p' s' d' q ph1
          where r: "run_machine m h buf (Suc p) tgt s1 d1 = Ret (cs', p', s', d')" "Suc p \<le> p'" "p' \<le> length buf"
            "J q ph1 s' d'" "cs' = 0 \<or> live cs' \<or> ph1 = finished" by blast
        have "p \<le> p'" using r(2) by simp
        then show ?thesis unfolding l using r(1,3-5) by blast
      qed (use True t a in \<open>auto simp: run_machine.simps\<close>)
    qed
  qed
qed

end

section \<open>Certifying a table\<close>

text \<open>A transition fits when its actions are in order and it breaks, fails, or ends in the phase of its target;
  the rules walk through the conditionals of the states of a table.\<close>

definition go_fits :: "('ph \<Rightarrow> 'a \<Rightarrow> 'ph option) \<Rightarrow> ('a \<Rightarrow> bool) \<Rightarrow> (nat \<Rightarrow> 'ph) \<Rightarrow> nat \<Rightarrow> nat \<Rightarrow> 'a go \<Rightarrow> bool" where
  "go_fits ord brk phase final cs t \<longleftrightarrow>
     (case ords ord (phase cs) (fst t) of
        None \<Rightarrow> False
      | Some ph \<Rightarrow> (\<exists>a \<in> set (fst t). brk a) \<or> snd t = 0 \<or> snd t < final \<and> ph = phase (snd t))"

definition opt_fits ::
    "('ph \<Rightarrow> 'a \<Rightarrow> 'ph option) \<Rightarrow> ('a \<Rightarrow> bool) \<Rightarrow> (nat \<Rightarrow> 'ph) \<Rightarrow> nat \<Rightarrow> nat \<Rightarrow> 'a go option \<Rightarrow> bool" where
  "opt_fits ord brk phase final cs t \<longleftrightarrow>
     cs < final \<longrightarrow> (case t of None \<Rightarrow> True | Some x \<Rightarrow> go_fits ord brk phase final cs x)"

named_theorems go_rules \<open>introduction rules that walk through the conditionals of a state\<close>

lemma opt_fits_None [go_rules]: "opt_fits ord brk phase final cs None"
  by (simp add: opt_fits_def)

lemma opt_fits_case [go_rules]:
  "(n < final \<Longrightarrow> go_fits ord brk phase final n x) \<Longrightarrow> opt_fits ord brk phase final cs y
    \<Longrightarrow> opt_fits ord brk phase final cs (if cs = n then Some x else y)"
  by (auto simp: opt_fits_def)

lemma go_fits_if [go_rules]:
  "go_fits ord brk phase final n x \<Longrightarrow> go_fits ord brk phase final n y \<Longrightarrow> go_fits ord brk phase final n (if b then x else y)"
  by simp

lemma go_fits_let [go_rules]: "(\<And>w. go_fits ord brk phase final n (f w)) \<Longrightarrow> go_fits ord brk phase final n (let w = e in f w)"
  by simp

lemma opt_fits_if:
  "opt_fits ord brk phase final cs x \<Longrightarrow> opt_fits ord brk phase final cs y \<Longrightarrow> opt_fits ord brk phase final cs (if b then x else y)"
  by simp

lemma opt_fitsD:
  "opt_fits ord brk phase final cs (Some (acts, tgt)) \<Longrightarrow> cs < final \<Longrightarrow>
    \<exists>ph. ords ord (phase cs) acts = Some ph \<and> ((\<forall>a \<in> set acts. \<not> brk a) \<longrightarrow> tgt \<noteq> 0 \<longrightarrow> tgt < final \<and> ph = phase tgt)"
  by (auto simp: opt_fits_def go_fits_def split: option.splits)

end
