(* ===== verification/Http11_Table.thy ===== *)
theory Http11_Table
  imports Ragel
begin

text \<open>
  \<open>radixun/http/http11_parser.rl.cc\<close>: the states of the generated request parser.

  Each definition translates a run of consecutive \<open>case\<close> labels: for a state and a character (\<open>*p\<close> as the
  signed \<open>char\<close> it is) it gives the actions of the \<open>tr\<close> label jumped to, in order, and the state that label
  continues with; a jump to \<open>st0\<close> is the target 0. \<open>switch\<close> labels with the same target are written as one
  set. \<open>relaxed\<close> is \<open>parser->uri_relaxed\<close>, which the \<open>_widec\<close> computation folds into the character.
\<close>

datatype http11_act =
    HMark | HStartField | HWriteField | HStartQuery
  | HRequestMethod | HRequestUri | HFragment | HQueryString | HHttpVersion | HRequestPath
  | HWriteValue | HXml | HJson | HDone

type_synonym http11_go = "http11_act go"

definition http_parser_start :: nat where "http_parser_start = 1"
definition http_parser_first_final :: nat where "http_parser_first_final = 348"
definition http_parser_error :: nat where "http_parser_error = 0"

definition http11_widec :: "bool \<Rightarrow> int \<Rightarrow> int" where
  "http11_widec relaxed c =
     (let wide = (128 + (c + 128)) + (if relaxed then 256 else 0)
      in if c < 123 then (if 94 \<le> c \<and> c \<le> 94 then wide else c)
         else if c > 123 then (if 125 \<le> c \<and> c \<le> 125 then wide else c)
         else wide)"

definition http11_states_1_3 :: "bool \<Rightarrow> nat \<Rightarrow> int \<Rightarrow> http11_go option" where
  "http11_states_1_3 relaxed cs c =
     (if cs = 1 then Some (if c = 60 then ([HMark], 194)
        else if c = 64 then ([HMark], 198)
        else if c > 57 then (if 65 \<le> c \<and> c \<le> 90 then ([HMark], 2)
          else ([], 0))
        else if c \<ge> 48 then ([HMark], 2)
        else ([], 0))
      else if cs = 2 then Some (if c = 32 then ([HRequestMethod], 3)
        else if c > 57 then (if 65 \<le> c \<and> c \<le> 90 then ([], 175)
          else ([], 0))
        else if c \<ge> 48 then ([], 175)
        else ([], 0))
      else if cs = 3 then Some (let w = http11_widec relaxed c in
        if w = 32 then ([HMark, HRequestPath, HRequestUri], 4)
        else if w \<in> {33, 59, 61, 64, 95, 126, 606, 635, 637} then ([HMark], 19)
        else if w = 35 then ([HMark, HRequestPath, HRequestUri], 20)
        else if w = 37 then ([HMark], 24)
        else if w = 47 then ([HMark], 33)
        else if w = 63 then ([HMark, HRequestPath], 29)
        else if w < 65 then (if 36 \<le> w \<and> w \<le> 57 then ([HMark], 19)
          else ([], 0))
        else if w > 90 then (if 97 \<le> w \<and> w \<le> 122 then ([HMark], 173)
          else ([], 0))
        else ([HMark], 173))
      else None)"

definition http11_states_4_12 :: "bool \<Rightarrow> nat \<Rightarrow> int \<Rightarrow> http11_go option" where
  "http11_states_4_12 relaxed cs c =
     (if cs = 4 then Some (if c = 72 then ([HMark], 5)
        else ([], 0))
      else if cs = 5 then Some (if c = 84 then ([], 6)
        else ([], 0))
      else if cs = 6 then Some (if c = 84 then ([], 7)
        else ([], 0))
      else if cs = 7 then Some (if c = 80 then ([], 8)
        else ([], 0))
      else if cs = 8 then Some (if c = 47 then ([], 9)
        else ([], 0))
      else if cs = 9 then Some (if c = 49 then ([], 10)
        else ([], 0))
      else if cs = 10 then Some (if c = 46 then ([], 11)
        else ([], 0))
      else if cs = 11 then Some (if 48 \<le> c \<and> c \<le> 49 then ([], 12)
        else ([], 0))
      else if cs = 12 then Some (if c = 10 then ([HHttpVersion], 13)
        else if c = 13 then ([HHttpVersion], 17)
        else ([], 0))
      else None)"

definition http11_states_13_16 :: "bool \<Rightarrow> nat \<Rightarrow> int \<Rightarrow> http11_go option" where
  "http11_states_13_16 relaxed cs c =
     (if cs = 13 then Some (if c = 10 then ([HStartField, HDone], 348)
        else if c = 13 then ([HStartField], 18)
        else if c \<in> {33, 124, 126} then ([HStartField], 14)
        else if c < 42 then (if c < 11 then (if 1 \<le> c \<and> c \<le> 8 then ([HStartField], 14)
            else ([], 0))
          else if c > 31 then (if 35 \<le> c \<and> c \<le> 39 then ([HStartField], 14)
            else ([], 0))
          else ([HStartField], 14))
        else if c > 43 then (if c < 48 then (if 45 \<le> c \<and> c \<le> 46 then ([HStartField], 14)
            else ([], 0))
          else if c > 57 then (if c > 90 then (if 94 \<le> c \<and> c \<le> 122 then ([HStartField], 14)
              else ([], 0))
            else if c \<ge> 65 then ([HStartField], 14)
            else ([], 0))
          else ([HStartField], 14))
        else ([HStartField], 14))
      else if cs = 14 then Some (if c \<in> {33, 124, 126} then ([], 14)
        else if c = 58 then ([HWriteField], 15)
        else if c < 42 then (if c < 10 then (if 1 \<le> c \<and> c \<le> 8 then ([], 14)
            else ([], 0))
          else if c > 31 then (if 35 \<le> c \<and> c \<le> 39 then ([], 14)
            else ([], 0))
          else ([], 14))
        else if c > 43 then (if c < 48 then (if 45 \<le> c \<and> c \<le> 46 then ([], 14)
            else ([], 0))
          else if c > 57 then (if c > 90 then (if 94 \<le> c \<and> c \<le> 122 then ([], 14)
              else ([], 0))
            else if c \<ge> 65 then ([], 14)
            else ([], 0))
          else ([], 14))
        else ([], 14))
      else if cs = 15 then Some (if c \<in> {0, 127} then ([], 0)
        else if c \<in> {9, 32} then ([HMark], 15)
        else if c = 10 then ([HMark, HWriteValue], 13)
        else if c = 13 then ([HMark, HWriteValue], 17)
        else ([HMark], 16))
      else if cs = 16 then Some (if c \<in> {0, 127} then ([], 0)
        else if c = 10 then ([HWriteValue], 13)
        else if c = 13 then ([HWriteValue], 17)
        else ([], 16))
      else None)"

definition http11_states_17_18 :: "bool \<Rightarrow> nat \<Rightarrow> int \<Rightarrow> http11_go option" where
  "http11_states_17_18 relaxed cs c =
     (if cs = 17 then Some (if c = 10 then ([], 13)
        else ([], 0))
      else if cs = 348 then Some (if c \<in> {33, 124, 126} then ([], 14)
        else if c = 58 then ([HWriteField], 15)
        else if c < 42 then (if c < 10 then (if 1 \<le> c \<and> c \<le> 8 then ([], 14)
            else ([], 0))
          else if c > 31 then (if 35 \<le> c \<and> c \<le> 39 then ([], 14)
            else ([], 0))
          else ([], 14))
        else if c > 43 then (if c < 48 then (if 45 \<le> c \<and> c \<le> 46 then ([], 14)
            else ([], 0))
          else if c > 57 then (if c > 90 then (if 94 \<le> c \<and> c \<le> 122 then ([], 14)
              else ([], 0))
            else if c \<ge> 65 then ([], 14)
            else ([], 0))
          else ([], 14))
        else ([], 14))
      else if cs = 18 then Some (if c = 10 then ([HDone], 348)
        else if c \<in> {33, 124, 126} then ([], 14)
        else if c = 58 then ([HWriteField], 15)
        else if c < 42 then (if c < 11 then (if 1 \<le> c \<and> c \<le> 8 then ([], 14)
            else ([], 0))
          else if c > 31 then (if 35 \<le> c \<and> c \<le> 39 then ([], 14)
            else ([], 0))
          else ([], 14))
        else if c > 43 then (if c < 48 then (if 45 \<le> c \<and> c \<le> 46 then ([], 14)
            else ([], 0))
          else if c > 57 then (if c > 90 then (if 94 \<le> c \<and> c \<le> 122 then ([], 14)
              else ([], 0))
            else if c \<ge> 65 then ([], 14)
            else ([], 0))
          else ([], 14))
        else ([], 14))
      else None)"

definition http11_states_19_19 :: "bool \<Rightarrow> nat \<Rightarrow> int \<Rightarrow> http11_go option" where
  "http11_states_19_19 relaxed cs c =
     (if cs = 19 then Some (let w = http11_widec relaxed c in
        if w = 32 then ([HRequestPath, HRequestUri], 4)
        else if w \<in> {33, 59, 61, 95, 126, 606, 635, 637} then ([], 19)
        else if w = 35 then ([HRequestPath, HRequestUri], 20)
        else if w = 37 then ([], 24)
        else if w = 47 then ([], 26)
        else if w = 63 then ([HRequestPath], 29)
        else if w < 64 then (if 36 \<le> w \<and> w \<le> 57 then ([], 19)
          else ([], 0))
        else if w > 90 then (if 97 \<le> w \<and> w \<le> 122 then ([], 19)
          else ([], 0))
        else ([], 19))
      else None)"

definition http11_states_20_20 :: "bool \<Rightarrow> nat \<Rightarrow> int \<Rightarrow> http11_go option" where
  "http11_states_20_20 relaxed cs c =
     (if cs = 20 then Some (let w = http11_widec relaxed c in
        if w = 32 then ([HMark, HFragment], 4)
        else if w \<in> {33, 61, 95, 126, 606, 635, 637} then ([HMark], 21)
        else if w = 37 then ([HMark], 22)
        else if w < 36 then (if w \<le> -1 then ([HMark], 21)
          else ([], 0))
        else if w > 59 then (if w > 90 then (if 97 \<le> w \<and> w \<le> 122 then ([HMark], 21)
            else ([], 0))
          else if w \<ge> 63 then ([HMark], 21)
          else ([], 0))
        else ([HMark], 21))
      else None)"

definition http11_states_21_25 :: "bool \<Rightarrow> nat \<Rightarrow> int \<Rightarrow> http11_go option" where
  "http11_states_21_25 relaxed cs c =
     (if cs = 21 then Some (let w = http11_widec relaxed c in
        if w = 32 then ([HFragment], 4)
        else if w \<in> {33, 61, 95, 126, 606, 635, 637} then ([], 21)
        else if w = 37 then ([], 22)
        else if w < 36 then (if w \<le> -1 then ([], 21)
          else ([], 0))
        else if w > 59 then (if w > 90 then (if 97 \<le> w \<and> w \<le> 122 then ([], 21)
            else ([], 0))
          else if w \<ge> 63 then ([], 21)
          else ([], 0))
        else ([], 21))
      else if cs = 22 then Some (if c < 65 then (if 48 \<le> c \<and> c \<le> 57 then ([], 23)
          else ([], 0))
        else if c > 70 then (if 97 \<le> c \<and> c \<le> 102 then ([], 23)
          else ([], 0))
        else ([], 23))
      else if cs = 23 then Some (if c < 65 then (if 48 \<le> c \<and> c \<le> 57 then ([], 21)
          else ([], 0))
        else if c > 70 then (if 97 \<le> c \<and> c \<le> 102 then ([], 21)
          else ([], 0))
        else ([], 21))
      else if cs = 24 then Some (if c < 65 then (if 48 \<le> c \<and> c \<le> 57 then ([], 25)
          else ([], 0))
        else if c > 70 then (if 97 \<le> c \<and> c \<le> 102 then ([], 25)
          else ([], 0))
        else ([], 25))
      else if cs = 25 then Some (if c < 65 then (if 48 \<le> c \<and> c \<le> 57 then ([], 19)
          else ([], 0))
        else if c > 70 then (if 97 \<le> c \<and> c \<le> 102 then ([], 19)
          else ([], 0))
        else ([], 19))
      else None)"

definition http11_states_26_28 :: "bool \<Rightarrow> nat \<Rightarrow> int \<Rightarrow> http11_go option" where
  "http11_states_26_28 relaxed cs c =
     (if cs = 26 then Some (let w = http11_widec relaxed c in
        if w = 32 then ([HRequestPath, HRequestUri], 4)
        else if w \<in> {33, 61, 95, 126, 606, 635, 637} then ([], 26)
        else if w = 35 then ([HRequestPath, HRequestUri], 20)
        else if w = 37 then ([], 27)
        else if w = 63 then ([HRequestPath], 29)
        else if w < 36 then (if w \<le> -1 then ([], 26)
          else ([], 0))
        else if w > 59 then (if w > 90 then (if 97 \<le> w \<and> w \<le> 122 then ([], 26)
            else ([], 0))
          else if w \<ge> 64 then ([], 26)
          else ([], 0))
        else ([], 26))
      else if cs = 27 then Some (if c < 65 then (if 48 \<le> c \<and> c \<le> 57 then ([], 28)
          else ([], 0))
        else if c > 70 then (if 97 \<le> c \<and> c \<le> 102 then ([], 28)
          else ([], 0))
        else ([], 28))
      else if cs = 28 then Some (if c < 65 then (if 48 \<le> c \<and> c \<le> 57 then ([], 26)
          else ([], 0))
        else if c > 70 then (if 97 \<le> c \<and> c \<le> 102 then ([], 26)
          else ([], 0))
        else ([], 26))
      else None)"

definition http11_states_29_31 :: "bool \<Rightarrow> nat \<Rightarrow> int \<Rightarrow> http11_go option" where
  "http11_states_29_31 relaxed cs c =
     (if cs = 29 then Some (let w = http11_widec relaxed c in
        if w = 32 then ([HStartQuery, HQueryString, HRequestUri], 4)
        else if w \<in> {33, 61, 95, 126, 606, 635, 637} then ([HStartQuery], 30)
        else if w = 35 then ([HStartQuery, HQueryString, HRequestUri], 20)
        else if w = 37 then ([HStartQuery], 31)
        else if w < 36 then (if w \<le> -1 then ([HStartQuery], 30)
          else ([], 0))
        else if w > 59 then (if w > 90 then (if 97 \<le> w \<and> w \<le> 122 then ([HStartQuery], 30)
            else ([], 0))
          else if w \<ge> 63 then ([HStartQuery], 30)
          else ([], 0))
        else ([HStartQuery], 30))
      else if cs = 30 then Some (let w = http11_widec relaxed c in
        if w = 32 then ([HQueryString, HRequestUri], 4)
        else if w \<in> {33, 61, 95, 126, 606, 635, 637} then ([], 30)
        else if w = 35 then ([HQueryString, HRequestUri], 20)
        else if w = 37 then ([], 31)
        else if w < 36 then (if w \<le> -1 then ([], 30)
          else ([], 0))
        else if w > 59 then (if w > 90 then (if 97 \<le> w \<and> w \<le> 122 then ([], 30)
            else ([], 0))
          else if w \<ge> 63 then ([], 30)
          else ([], 0))
        else ([], 30))
      else if cs = 31 then Some (if c < 65 then (if 48 \<le> c \<and> c \<le> 57 then ([], 32)
          else ([], 0))
        else if c > 70 then (if 97 \<le> c \<and> c \<le> 102 then ([], 32)
          else ([], 0))
        else ([], 32))
      else None)"

definition http11_states_32_34 :: "bool \<Rightarrow> nat \<Rightarrow> int \<Rightarrow> http11_go option" where
  "http11_states_32_34 relaxed cs c =
     (if cs = 32 then Some (if c < 65 then (if 48 \<le> c \<and> c \<le> 57 then ([], 30)
          else ([], 0))
        else if c > 70 then (if 97 \<le> c \<and> c \<le> 102 then ([], 30)
          else ([], 0))
        else ([], 30))
      else if cs = 33 then Some (let w = http11_widec relaxed c in
        if w = 32 then ([HRequestPath, HRequestUri], 4)
        else if w \<in> {33, 61, 95, 126, 606, 635, 637} then ([], 26)
        else if w = 35 then ([HRequestPath, HRequestUri], 20)
        else if w = 37 then ([], 27)
        else if w = 47 then ([], 34)
        else if w = 63 then ([HRequestPath], 29)
        else if w < 36 then (if w \<le> -1 then ([], 26)
          else ([], 0))
        else if w > 59 then (if w > 90 then (if 97 \<le> w \<and> w \<le> 122 then ([], 26)
            else ([], 0))
          else if w \<ge> 64 then ([], 26)
          else ([], 0))
        else ([], 26))
      else if cs = 34 then Some (let w = http11_widec relaxed c in
        if w = 32 then ([HRequestPath, HRequestUri], 4)
        else if w \<in> {33, 61, 95, 126, 606, 635, 637} then ([], 35)
        else if w = 35 then ([HRequestPath, HRequestUri], 20)
        else if w = 37 then ([], 36)
        else if w = 47 then ([], 26)
        else if w = 58 then ([], 38)
        else if w = 63 then ([HRequestPath], 29)
        else if w = 64 then ([], 42)
        else if w = 91 then ([], 47)
        else if w < 65 then (if 36 \<le> w \<and> w \<le> 59 then ([], 35)
          else ([], 0))
        else if w > 90 then (if 97 \<le> w \<and> w \<le> 122 then ([], 35)
          else ([], 0))
        else ([], 35))
      else None)"

definition http11_states_35_38 :: "bool \<Rightarrow> nat \<Rightarrow> int \<Rightarrow> http11_go option" where
  "http11_states_35_38 relaxed cs c =
     (if cs = 35 then Some (let w = http11_widec relaxed c in
        if w = 32 then ([HRequestPath, HRequestUri], 4)
        else if w \<in> {33, 61, 95, 126, 606, 635, 637} then ([], 35)
        else if w = 35 then ([HRequestPath, HRequestUri], 20)
        else if w = 37 then ([], 36)
        else if w = 47 then ([], 26)
        else if w = 58 then ([], 38)
        else if w = 63 then ([HRequestPath], 29)
        else if w = 64 then ([], 42)
        else if w < 65 then (if 36 \<le> w \<and> w \<le> 59 then ([], 35)
          else ([], 0))
        else if w > 90 then (if 97 \<le> w \<and> w \<le> 122 then ([], 35)
          else ([], 0))
        else ([], 35))
      else if cs = 36 then Some (if c < 65 then (if 48 \<le> c \<and> c \<le> 57 then ([], 37)
          else ([], 0))
        else if c > 70 then (if 97 \<le> c \<and> c \<le> 102 then ([], 37)
          else ([], 0))
        else ([], 37))
      else if cs = 37 then Some (if c < 65 then (if 48 \<le> c \<and> c \<le> 57 then ([], 35)
          else ([], 0))
        else if c > 70 then (if 97 \<le> c \<and> c \<le> 102 then ([], 35)
          else ([], 0))
        else ([], 35))
      else if cs = 38 then Some (let w = http11_widec relaxed c in
        if w = 32 then ([HRequestPath, HRequestUri], 4)
        else if w \<in> {33, 61, 95, 126, 606, 635, 637} then ([], 39)
        else if w = 35 then ([HRequestPath, HRequestUri], 20)
        else if w = 37 then ([], 40)
        else if w = 47 then ([], 26)
        else if w = 63 then ([HRequestPath], 29)
        else if w = 64 then ([], 42)
        else if w < 58 then (if w > 46 then (if 48 \<le> w \<and> w \<le> 57 then ([], 38)
            else ([], 0))
          else if w \<ge> 36 then ([], 39)
          else ([], 0))
        else if w > 59 then (if w > 90 then (if 97 \<le> w \<and> w \<le> 122 then ([], 39)
            else ([], 0))
          else if w \<ge> 65 then ([], 39)
          else ([], 0))
        else ([], 39))
      else None)"

definition http11_states_39_42 :: "bool \<Rightarrow> nat \<Rightarrow> int \<Rightarrow> http11_go option" where
  "http11_states_39_42 relaxed cs c =
     (if cs = 39 then Some (let w = http11_widec relaxed c in
        if w \<in> {33, 61, 95, 126, 606, 635, 637} then ([], 39)
        else if w = 37 then ([], 40)
        else if w = 64 then ([], 42)
        else if w < 48 then (if 36 \<le> w \<and> w \<le> 46 then ([], 39)
          else ([], 0))
        else if w > 59 then (if w > 90 then (if 97 \<le> w \<and> w \<le> 122 then ([], 39)
            else ([], 0))
          else if w \<ge> 65 then ([], 39)
          else ([], 0))
        else ([], 39))
      else if cs = 40 then Some (if c < 65 then (if 48 \<le> c \<and> c \<le> 57 then ([], 41)
          else ([], 0))
        else if c > 70 then (if 97 \<le> c \<and> c \<le> 102 then ([], 41)
          else ([], 0))
        else ([], 41))
      else if cs = 41 then Some (if c < 65 then (if 48 \<le> c \<and> c \<le> 57 then ([], 39)
          else ([], 0))
        else if c > 70 then (if 97 \<le> c \<and> c \<le> 102 then ([], 39)
          else ([], 0))
        else ([], 39))
      else if cs = 42 then Some (let w = http11_widec relaxed c in
        if w = 32 then ([HRequestPath, HRequestUri], 4)
        else if w \<in> {33, 61, 95, 126, 606, 635, 637} then ([], 43)
        else if w = 35 then ([HRequestPath, HRequestUri], 20)
        else if w = 37 then ([], 44)
        else if w = 47 then ([], 26)
        else if w = 58 then ([], 46)
        else if w = 63 then ([HRequestPath], 29)
        else if w = 91 then ([], 47)
        else if w < 65 then (if 36 \<le> w \<and> w \<le> 59 then ([], 43)
          else ([], 0))
        else if w > 90 then (if 97 \<le> w \<and> w \<le> 122 then ([], 43)
          else ([], 0))
        else ([], 43))
      else None)"

definition http11_states_43_49 :: "bool \<Rightarrow> nat \<Rightarrow> int \<Rightarrow> http11_go option" where
  "http11_states_43_49 relaxed cs c =
     (if cs = 43 then Some (let w = http11_widec relaxed c in
        if w = 32 then ([HRequestPath, HRequestUri], 4)
        else if w \<in> {33, 61, 95, 126, 606, 635, 637} then ([], 43)
        else if w = 35 then ([HRequestPath, HRequestUri], 20)
        else if w = 37 then ([], 44)
        else if w = 47 then ([], 26)
        else if w = 58 then ([], 46)
        else if w = 63 then ([HRequestPath], 29)
        else if w < 65 then (if 36 \<le> w \<and> w \<le> 59 then ([], 43)
          else ([], 0))
        else if w > 90 then (if 97 \<le> w \<and> w \<le> 122 then ([], 43)
          else ([], 0))
        else ([], 43))
      else if cs = 44 then Some (if c < 65 then (if 48 \<le> c \<and> c \<le> 57 then ([], 45)
          else ([], 0))
        else if c > 70 then (if 97 \<le> c \<and> c \<le> 102 then ([], 45)
          else ([], 0))
        else ([], 45))
      else if cs = 45 then Some (if c < 65 then (if 48 \<le> c \<and> c \<le> 57 then ([], 43)
          else ([], 0))
        else if c > 70 then (if 97 \<le> c \<and> c \<le> 102 then ([], 43)
          else ([], 0))
        else ([], 43))
      else if cs = 46 then Some (if c = 32 then ([HRequestPath, HRequestUri], 4)
        else if c = 35 then ([HRequestPath, HRequestUri], 20)
        else if c = 47 then ([], 26)
        else if c = 63 then ([HRequestPath], 29)
        else if 48 \<le> c \<and> c \<le> 57 then ([], 46)
        else ([], 0))
      else if cs = 47 then Some (if c = 6 then ([], 48)
        else if c = 58 then ([], 167)
        else if c = 118 then ([], 169)
        else if c < 65 then (if 48 \<le> c \<and> c \<le> 57 then ([], 91)
          else ([], 0))
        else if c > 70 then (if 97 \<le> c \<and> c \<le> 102 then ([], 91)
          else ([], 0))
        else ([], 91))
      else if cs = 48 then Some (if c < 65 then (if 48 \<le> c \<and> c \<le> 57 then ([], 49)
          else ([], 0))
        else if c > 70 then (if 97 \<le> c \<and> c \<le> 102 then ([], 49)
          else ([], 0))
        else ([], 49))
      else if cs = 49 then Some (if c = 58 then ([], 53)
        else if c < 65 then (if 48 \<le> c \<and> c \<le> 57 then ([], 50)
          else ([], 0))
        else if c > 70 then (if 97 \<le> c \<and> c \<le> 102 then ([], 50)
          else ([], 0))
        else ([], 50))
      else None)"

definition http11_states_50_62 :: "bool \<Rightarrow> nat \<Rightarrow> int \<Rightarrow> http11_go option" where
  "http11_states_50_62 relaxed cs c =
     (if cs = 50 then Some (if c = 58 then ([], 53)
        else if c < 65 then (if 48 \<le> c \<and> c \<le> 57 then ([], 51)
          else ([], 0))
        else if c > 70 then (if 97 \<le> c \<and> c \<le> 102 then ([], 51)
          else ([], 0))
        else ([], 51))
      else if cs = 51 then Some (if c = 58 then ([], 53)
        else if c < 65 then (if 48 \<le> c \<and> c \<le> 57 then ([], 52)
          else ([], 0))
        else if c > 70 then (if 97 \<le> c \<and> c \<le> 102 then ([], 52)
          else ([], 0))
        else ([], 52))
      else if cs = 52 then Some (if c = 58 then ([], 53)
        else ([], 0))
      else if cs = 53 then Some (if c = 49 then ([], 84)
        else if c = 50 then ([], 87)
        else if c < 65 then (if 48 \<le> c \<and> c \<le> 57 then ([], 54)
          else ([], 0))
        else if c > 70 then (if 97 \<le> c \<and> c \<le> 102 then ([], 90)
          else ([], 0))
        else ([], 90))
      else if cs = 54 then Some (if c = 46 then ([], 55)
        else if c = 58 then ([], 80)
        else if c < 65 then (if 48 \<le> c \<and> c \<le> 57 then ([], 77)
          else ([], 0))
        else if c > 70 then (if 97 \<le> c \<and> c \<le> 102 then ([], 77)
          else ([], 0))
        else ([], 77))
      else if cs = 55 then Some (if c = 49 then ([], 72)
        else if c = 50 then ([], 74)
        else if 48 \<le> c \<and> c \<le> 57 then ([], 56)
        else ([], 0))
      else if cs = 56 then Some (if c = 46 then ([], 57)
        else ([], 0))
      else if cs = 57 then Some (if c = 49 then ([], 67)
        else if c = 50 then ([], 69)
        else if 48 \<le> c \<and> c \<le> 57 then ([], 58)
        else ([], 0))
      else if cs = 58 then Some (if c = 46 then ([], 59)
        else ([], 0))
      else if cs = 59 then Some (if c = 49 then ([], 62)
        else if c = 50 then ([], 64)
        else if 48 \<le> c \<and> c \<le> 57 then ([], 60)
        else ([], 0))
      else if cs = 60 then Some (if c = 93 then ([], 61)
        else ([], 0))
      else if cs = 61 then Some (if c = 32 then ([HRequestPath, HRequestUri], 4)
        else if c = 35 then ([HRequestPath, HRequestUri], 20)
        else if c = 47 then ([], 26)
        else if c = 58 then ([], 46)
        else if c = 63 then ([HRequestPath], 29)
        else ([], 0))
      else if cs = 62 then Some (if c = 93 then ([], 61)
        else if 48 \<le> c \<and> c \<le> 57 then ([], 63)
        else ([], 0))
      else None)"

definition http11_states_63_78 :: "bool \<Rightarrow> nat \<Rightarrow> int \<Rightarrow> http11_go option" where
  "http11_states_63_78 relaxed cs c =
     (if cs = 63 then Some (if c = 93 then ([], 61)
        else if 48 \<le> c \<and> c \<le> 57 then ([], 60)
        else ([], 0))
      else if cs = 64 then Some (if c = 48 then ([], 65)
        else if c = 53 then ([], 66)
        else if c = 93 then ([], 61)
        else ([], 0))
      else if cs = 65 then Some (if 48 \<le> c \<and> c \<le> 57 then ([], 60)
        else ([], 0))
      else if cs = 66 then Some (if c = 48 then ([], 60)
        else ([], 0))
      else if cs = 67 then Some (if c = 46 then ([], 59)
        else if 48 \<le> c \<and> c \<le> 57 then ([], 68)
        else ([], 0))
      else if cs = 68 then Some (if c = 46 then ([], 59)
        else if 48 \<le> c \<and> c \<le> 57 then ([], 58)
        else ([], 0))
      else if cs = 69 then Some (if c = 46 then ([], 59)
        else if c = 48 then ([], 70)
        else if c = 53 then ([], 71)
        else ([], 0))
      else if cs = 70 then Some (if 48 \<le> c \<and> c \<le> 57 then ([], 58)
        else ([], 0))
      else if cs = 71 then Some (if c = 48 then ([], 58)
        else ([], 0))
      else if cs = 72 then Some (if c = 46 then ([], 57)
        else if 48 \<le> c \<and> c \<le> 57 then ([], 73)
        else ([], 0))
      else if cs = 73 then Some (if c = 46 then ([], 57)
        else if 48 \<le> c \<and> c \<le> 57 then ([], 56)
        else ([], 0))
      else if cs = 74 then Some (if c = 46 then ([], 57)
        else if c = 48 then ([], 75)
        else if c = 53 then ([], 76)
        else ([], 0))
      else if cs = 75 then Some (if 48 \<le> c \<and> c \<le> 57 then ([], 56)
        else ([], 0))
      else if cs = 76 then Some (if c = 48 then ([], 56)
        else ([], 0))
      else if cs = 77 then Some (if c = 58 then ([], 80)
        else if c < 65 then (if 48 \<le> c \<and> c \<le> 57 then ([], 78)
          else ([], 0))
        else if c > 70 then (if 97 \<le> c \<and> c \<le> 102 then ([], 78)
          else ([], 0))
        else ([], 78))
      else if cs = 78 then Some (if c = 58 then ([], 80)
        else if c < 65 then (if 48 \<le> c \<and> c \<le> 57 then ([], 79)
          else ([], 0))
        else if c > 70 then (if 97 \<le> c \<and> c \<le> 102 then ([], 79)
          else ([], 0))
        else ([], 79))
      else None)"

definition http11_states_79_87 :: "bool \<Rightarrow> nat \<Rightarrow> int \<Rightarrow> http11_go option" where
  "http11_states_79_87 relaxed cs c =
     (if cs = 79 then Some (if c = 58 then ([], 80)
        else ([], 0))
      else if cs = 80 then Some (if c < 65 then (if 48 \<le> c \<and> c \<le> 57 then ([], 81)
          else ([], 0))
        else if c > 70 then (if 97 \<le> c \<and> c \<le> 102 then ([], 81)
          else ([], 0))
        else ([], 81))
      else if cs = 81 then Some (if c = 93 then ([], 61)
        else if c < 65 then (if 48 \<le> c \<and> c \<le> 57 then ([], 82)
          else ([], 0))
        else if c > 70 then (if 97 \<le> c \<and> c \<le> 102 then ([], 82)
          else ([], 0))
        else ([], 82))
      else if cs = 82 then Some (if c = 93 then ([], 61)
        else if c < 65 then (if 48 \<le> c \<and> c \<le> 57 then ([], 83)
          else ([], 0))
        else if c > 70 then (if 97 \<le> c \<and> c \<le> 102 then ([], 83)
          else ([], 0))
        else ([], 83))
      else if cs = 83 then Some (if c = 93 then ([], 61)
        else if c < 65 then (if 48 \<le> c \<and> c \<le> 57 then ([], 60)
          else ([], 0))
        else if c > 70 then (if 97 \<le> c \<and> c \<le> 102 then ([], 60)
          else ([], 0))
        else ([], 60))
      else if cs = 84 then Some (if c = 46 then ([], 55)
        else if c = 58 then ([], 80)
        else if c < 65 then (if 48 \<le> c \<and> c \<le> 57 then ([], 85)
          else ([], 0))
        else if c > 70 then (if 97 \<le> c \<and> c \<le> 102 then ([], 77)
          else ([], 0))
        else ([], 77))
      else if cs = 85 then Some (if c = 46 then ([], 55)
        else if c = 58 then ([], 80)
        else if c < 65 then (if 48 \<le> c \<and> c \<le> 57 then ([], 86)
          else ([], 0))
        else if c > 70 then (if 97 \<le> c \<and> c \<le> 102 then ([], 78)
          else ([], 0))
        else ([], 78))
      else if cs = 86 then Some (if c = 46 then ([], 55)
        else if c = 58 then ([], 80)
        else if c < 65 then (if 48 \<le> c \<and> c \<le> 57 then ([], 79)
          else ([], 0))
        else if c > 70 then (if 97 \<le> c \<and> c \<le> 102 then ([], 79)
          else ([], 0))
        else ([], 79))
      else if cs = 87 then Some (if c = 46 then ([], 55)
        else if c = 48 then ([], 88)
        else if c = 53 then ([], 89)
        else if c = 58 then ([], 80)
        else if c < 65 then (if 49 \<le> c \<and> c \<le> 57 then ([], 77)
          else ([], 0))
        else if c > 70 then (if 97 \<le> c \<and> c \<le> 102 then ([], 77)
          else ([], 0))
        else ([], 77))
      else None)"

definition http11_states_88_97 :: "bool \<Rightarrow> nat \<Rightarrow> int \<Rightarrow> http11_go option" where
  "http11_states_88_97 relaxed cs c =
     (if cs = 88 then Some (if c = 58 then ([], 80)
        else if c < 65 then (if 48 \<le> c \<and> c \<le> 57 then ([], 86)
          else ([], 0))
        else if c > 70 then (if 97 \<le> c \<and> c \<le> 102 then ([], 78)
          else ([], 0))
        else ([], 78))
      else if cs = 89 then Some (if c = 48 then ([], 86)
        else if c = 58 then ([], 80)
        else if c < 65 then (if 49 \<le> c \<and> c \<le> 57 then ([], 78)
          else ([], 0))
        else if c > 70 then (if 97 \<le> c \<and> c \<le> 102 then ([], 78)
          else ([], 0))
        else ([], 78))
      else if cs = 90 then Some (if c = 58 then ([], 80)
        else if c < 65 then (if 48 \<le> c \<and> c \<le> 57 then ([], 77)
          else ([], 0))
        else if c > 70 then (if 97 \<le> c \<and> c \<le> 102 then ([], 77)
          else ([], 0))
        else ([], 77))
      else if cs = 91 then Some (if c = 58 then ([], 95)
        else if c < 65 then (if 48 \<le> c \<and> c \<le> 57 then ([], 92)
          else ([], 0))
        else if c > 70 then (if 97 \<le> c \<and> c \<le> 102 then ([], 92)
          else ([], 0))
        else ([], 92))
      else if cs = 92 then Some (if c = 58 then ([], 95)
        else if c < 65 then (if 48 \<le> c \<and> c \<le> 57 then ([], 93)
          else ([], 0))
        else if c > 70 then (if 97 \<le> c \<and> c \<le> 102 then ([], 93)
          else ([], 0))
        else ([], 93))
      else if cs = 93 then Some (if c = 58 then ([], 95)
        else if c < 65 then (if 48 \<le> c \<and> c \<le> 57 then ([], 94)
          else ([], 0))
        else if c > 70 then (if 97 \<le> c \<and> c \<le> 102 then ([], 94)
          else ([], 0))
        else ([], 94))
      else if cs = 94 then Some (if c = 58 then ([], 95)
        else ([], 0))
      else if cs = 95 then Some (if c = 58 then ([], 166)
        else if c < 65 then (if 48 \<le> c \<and> c \<le> 57 then ([], 96)
          else ([], 0))
        else if c > 70 then (if 97 \<le> c \<and> c \<le> 102 then ([], 96)
          else ([], 0))
        else ([], 96))
      else if cs = 96 then Some (if c = 58 then ([], 100)
        else if c < 65 then (if 48 \<le> c \<and> c \<le> 57 then ([], 97)
          else ([], 0))
        else if c > 70 then (if 97 \<le> c \<and> c \<le> 102 then ([], 97)
          else ([], 0))
        else ([], 97))
      else if cs = 97 then Some (if c = 58 then ([], 100)
        else if c < 65 then (if 48 \<le> c \<and> c \<le> 57 then ([], 98)
          else ([], 0))
        else if c > 70 then (if 97 \<le> c \<and> c \<le> 102 then ([], 98)
          else ([], 0))
        else ([], 98))
      else None)"

definition http11_states_98_107 :: "bool \<Rightarrow> nat \<Rightarrow> int \<Rightarrow> http11_go option" where
  "http11_states_98_107 relaxed cs c =
     (if cs = 98 then Some (if c = 58 then ([], 100)
        else if c < 65 then (if 48 \<le> c \<and> c \<le> 57 then ([], 99)
          else ([], 0))
        else if c > 70 then (if 97 \<le> c \<and> c \<le> 102 then ([], 99)
          else ([], 0))
        else ([], 99))
      else if cs = 99 then Some (if c = 58 then ([], 100)
        else ([], 0))
      else if cs = 100 then Some (if c = 58 then ([], 165)
        else if c < 65 then (if 48 \<le> c \<and> c \<le> 57 then ([], 101)
          else ([], 0))
        else if c > 70 then (if 97 \<le> c \<and> c \<le> 102 then ([], 101)
          else ([], 0))
        else ([], 101))
      else if cs = 101 then Some (if c = 58 then ([], 105)
        else if c < 65 then (if 48 \<le> c \<and> c \<le> 57 then ([], 102)
          else ([], 0))
        else if c > 70 then (if 97 \<le> c \<and> c \<le> 102 then ([], 102)
          else ([], 0))
        else ([], 102))
      else if cs = 102 then Some (if c = 58 then ([], 105)
        else if c < 65 then (if 48 \<le> c \<and> c \<le> 57 then ([], 103)
          else ([], 0))
        else if c > 70 then (if 97 \<le> c \<and> c \<le> 102 then ([], 103)
          else ([], 0))
        else ([], 103))
      else if cs = 103 then Some (if c = 58 then ([], 105)
        else if c < 65 then (if 48 \<le> c \<and> c \<le> 57 then ([], 104)
          else ([], 0))
        else if c > 70 then (if 97 \<le> c \<and> c \<le> 102 then ([], 104)
          else ([], 0))
        else ([], 104))
      else if cs = 104 then Some (if c = 58 then ([], 105)
        else ([], 0))
      else if cs = 105 then Some (if c = 58 then ([], 164)
        else if c < 65 then (if 48 \<le> c \<and> c \<le> 57 then ([], 106)
          else ([], 0))
        else if c > 70 then (if 97 \<le> c \<and> c \<le> 102 then ([], 106)
          else ([], 0))
        else ([], 106))
      else if cs = 106 then Some (if c = 58 then ([], 110)
        else if c < 65 then (if 48 \<le> c \<and> c \<le> 57 then ([], 107)
          else ([], 0))
        else if c > 70 then (if 97 \<le> c \<and> c \<le> 102 then ([], 107)
          else ([], 0))
        else ([], 107))
      else if cs = 107 then Some (if c = 58 then ([], 110)
        else if c < 65 then (if 48 \<le> c \<and> c \<le> 57 then ([], 108)
          else ([], 0))
        else if c > 70 then (if 97 \<le> c \<and> c \<le> 102 then ([], 108)
          else ([], 0))
        else ([], 108))
      else None)"

definition http11_states_108_117 :: "bool \<Rightarrow> nat \<Rightarrow> int \<Rightarrow> http11_go option" where
  "http11_states_108_117 relaxed cs c =
     (if cs = 108 then Some (if c = 58 then ([], 110)
        else if c < 65 then (if 48 \<le> c \<and> c \<le> 57 then ([], 109)
          else ([], 0))
        else if c > 70 then (if 97 \<le> c \<and> c \<le> 102 then ([], 109)
          else ([], 0))
        else ([], 109))
      else if cs = 109 then Some (if c = 58 then ([], 110)
        else ([], 0))
      else if cs = 110 then Some (if c = 58 then ([], 163)
        else if c < 65 then (if 48 \<le> c \<and> c \<le> 57 then ([], 111)
          else ([], 0))
        else if c > 70 then (if 97 \<le> c \<and> c \<le> 102 then ([], 111)
          else ([], 0))
        else ([], 111))
      else if cs = 111 then Some (if c = 58 then ([], 115)
        else if c < 65 then (if 48 \<le> c \<and> c \<le> 57 then ([], 112)
          else ([], 0))
        else if c > 70 then (if 97 \<le> c \<and> c \<le> 102 then ([], 112)
          else ([], 0))
        else ([], 112))
      else if cs = 112 then Some (if c = 58 then ([], 115)
        else if c < 65 then (if 48 \<le> c \<and> c \<le> 57 then ([], 113)
          else ([], 0))
        else if c > 70 then (if 97 \<le> c \<and> c \<le> 102 then ([], 113)
          else ([], 0))
        else ([], 113))
      else if cs = 113 then Some (if c = 58 then ([], 115)
        else if c < 65 then (if 48 \<le> c \<and> c \<le> 57 then ([], 114)
          else ([], 0))
        else if c > 70 then (if 97 \<le> c \<and> c \<le> 102 then ([], 114)
          else ([], 0))
        else ([], 114))
      else if cs = 114 then Some (if c = 58 then ([], 115)
        else ([], 0))
      else if cs = 115 then Some (if c = 58 then ([], 151)
        else if c < 65 then (if 48 \<le> c \<and> c \<le> 57 then ([], 116)
          else ([], 0))
        else if c > 70 then (if 97 \<le> c \<and> c \<le> 102 then ([], 116)
          else ([], 0))
        else ([], 116))
      else if cs = 116 then Some (if c = 58 then ([], 120)
        else if c < 65 then (if 48 \<le> c \<and> c \<le> 57 then ([], 117)
          else ([], 0))
        else if c > 70 then (if 97 \<le> c \<and> c \<le> 102 then ([], 117)
          else ([], 0))
        else ([], 117))
      else if cs = 117 then Some (if c = 58 then ([], 120)
        else if c < 65 then (if 48 \<le> c \<and> c \<le> 57 then ([], 118)
          else ([], 0))
        else if c > 70 then (if 97 \<le> c \<and> c \<le> 102 then ([], 118)
          else ([], 0))
        else ([], 118))
      else None)"

definition http11_states_118_127 :: "bool \<Rightarrow> nat \<Rightarrow> int \<Rightarrow> http11_go option" where
  "http11_states_118_127 relaxed cs c =
     (if cs = 118 then Some (if c = 58 then ([], 120)
        else if c < 65 then (if 48 \<le> c \<and> c \<le> 57 then ([], 119)
          else ([], 0))
        else if c > 70 then (if 97 \<le> c \<and> c \<le> 102 then ([], 119)
          else ([], 0))
        else ([], 119))
      else if cs = 119 then Some (if c = 58 then ([], 120)
        else ([], 0))
      else if cs = 120 then Some (if c = 58 then ([], 150)
        else if c < 65 then (if 48 \<le> c \<and> c \<le> 57 then ([], 121)
          else ([], 0))
        else if c > 70 then (if 97 \<le> c \<and> c \<le> 102 then ([], 121)
          else ([], 0))
        else ([], 121))
      else if cs = 121 then Some (if c = 58 then ([], 125)
        else if c < 65 then (if 48 \<le> c \<and> c \<le> 57 then ([], 122)
          else ([], 0))
        else if c > 70 then (if 97 \<le> c \<and> c \<le> 102 then ([], 122)
          else ([], 0))
        else ([], 122))
      else if cs = 122 then Some (if c = 58 then ([], 125)
        else if c < 65 then (if 48 \<le> c \<and> c \<le> 57 then ([], 123)
          else ([], 0))
        else if c > 70 then (if 97 \<le> c \<and> c \<le> 102 then ([], 123)
          else ([], 0))
        else ([], 123))
      else if cs = 123 then Some (if c = 58 then ([], 125)
        else if c < 65 then (if 48 \<le> c \<and> c \<le> 57 then ([], 124)
          else ([], 0))
        else if c > 70 then (if 97 \<le> c \<and> c \<le> 102 then ([], 124)
          else ([], 0))
        else ([], 124))
      else if cs = 124 then Some (if c = 58 then ([], 125)
        else ([], 0))
      else if cs = 125 then Some (if c = 58 then ([], 126)
        else if c < 65 then (if 48 \<le> c \<and> c \<le> 57 then ([], 121)
          else ([], 0))
        else if c > 70 then (if 97 \<le> c \<and> c \<le> 102 then ([], 121)
          else ([], 0))
        else ([], 121))
      else if cs = 126 then Some (if c = 49 then ([], 143)
        else if c = 50 then ([], 146)
        else if c = 93 then ([], 61)
        else if c < 48 then (if 2 \<le> c \<and> c \<le> 3 then ([], 48)
          else ([], 0))
        else if c > 57 then (if c > 70 then (if 97 \<le> c \<and> c \<le> 102 then ([], 149)
            else ([], 0))
          else if c \<ge> 65 then ([], 149)
          else ([], 0))
        else ([], 127))
      else if cs = 127 then Some (if c = 46 then ([], 55)
        else if c = 58 then ([], 131)
        else if c = 93 then ([], 61)
        else if c < 65 then (if 48 \<le> c \<and> c \<le> 57 then ([], 128)
          else ([], 0))
        else if c > 70 then (if 97 \<le> c \<and> c \<le> 102 then ([], 128)
          else ([], 0))
        else ([], 128))
      else None)"

definition http11_states_128_136 :: "bool \<Rightarrow> nat \<Rightarrow> int \<Rightarrow> http11_go option" where
  "http11_states_128_136 relaxed cs c =
     (if cs = 128 then Some (if c = 58 then ([], 131)
        else if c = 93 then ([], 61)
        else if c < 65 then (if 48 \<le> c \<and> c \<le> 57 then ([], 129)
          else ([], 0))
        else if c > 70 then (if 97 \<le> c \<and> c \<le> 102 then ([], 129)
          else ([], 0))
        else ([], 129))
      else if cs = 129 then Some (if c = 58 then ([], 131)
        else if c = 93 then ([], 61)
        else if c < 65 then (if 48 \<le> c \<and> c \<le> 57 then ([], 130)
          else ([], 0))
        else if c > 70 then (if 97 \<le> c \<and> c \<le> 102 then ([], 130)
          else ([], 0))
        else ([], 130))
      else if cs = 130 then Some (if c = 58 then ([], 131)
        else if c = 93 then ([], 61)
        else ([], 0))
      else if cs = 131 then Some (if c = 49 then ([], 136)
        else if c = 50 then ([], 139)
        else if c < 65 then (if 48 \<le> c \<and> c \<le> 57 then ([], 132)
          else ([], 0))
        else if c > 70 then (if 97 \<le> c \<and> c \<le> 102 then ([], 142)
          else ([], 0))
        else ([], 142))
      else if cs = 132 then Some (if c = 46 then ([], 55)
        else if c = 58 then ([], 80)
        else if c = 93 then ([], 61)
        else if c < 65 then (if 48 \<le> c \<and> c \<le> 57 then ([], 133)
          else ([], 0))
        else if c > 70 then (if 97 \<le> c \<and> c \<le> 102 then ([], 133)
          else ([], 0))
        else ([], 133))
      else if cs = 133 then Some (if c = 58 then ([], 80)
        else if c = 93 then ([], 61)
        else if c < 65 then (if 48 \<le> c \<and> c \<le> 57 then ([], 134)
          else ([], 0))
        else if c > 70 then (if 97 \<le> c \<and> c \<le> 102 then ([], 134)
          else ([], 0))
        else ([], 134))
      else if cs = 134 then Some (if c = 58 then ([], 80)
        else if c = 93 then ([], 61)
        else if c < 65 then (if 48 \<le> c \<and> c \<le> 57 then ([], 135)
          else ([], 0))
        else if c > 70 then (if 97 \<le> c \<and> c \<le> 102 then ([], 135)
          else ([], 0))
        else ([], 135))
      else if cs = 135 then Some (if c = 58 then ([], 80)
        else if c = 93 then ([], 61)
        else ([], 0))
      else if cs = 136 then Some (if c = 46 then ([], 55)
        else if c = 58 then ([], 80)
        else if c = 93 then ([], 61)
        else if c < 65 then (if 48 \<le> c \<and> c \<le> 57 then ([], 137)
          else ([], 0))
        else if c > 70 then (if 97 \<le> c \<and> c \<le> 102 then ([], 133)
          else ([], 0))
        else ([], 133))
      else None)"

definition http11_states_137_144 :: "bool \<Rightarrow> nat \<Rightarrow> int \<Rightarrow> http11_go option" where
  "http11_states_137_144 relaxed cs c =
     (if cs = 137 then Some (if c = 46 then ([], 55)
        else if c = 58 then ([], 80)
        else if c = 93 then ([], 61)
        else if c < 65 then (if 48 \<le> c \<and> c \<le> 57 then ([], 138)
          else ([], 0))
        else if c > 70 then (if 97 \<le> c \<and> c \<le> 102 then ([], 134)
          else ([], 0))
        else ([], 134))
      else if cs = 138 then Some (if c = 46 then ([], 55)
        else if c = 58 then ([], 80)
        else if c = 93 then ([], 61)
        else if c < 65 then (if 48 \<le> c \<and> c \<le> 57 then ([], 135)
          else ([], 0))
        else if c > 70 then (if 97 \<le> c \<and> c \<le> 102 then ([], 135)
          else ([], 0))
        else ([], 135))
      else if cs = 139 then Some (if c = 46 then ([], 55)
        else if c = 48 then ([], 140)
        else if c = 53 then ([], 141)
        else if c = 58 then ([], 80)
        else if c = 93 then ([], 61)
        else if c < 65 then (if 49 \<le> c \<and> c \<le> 57 then ([], 133)
          else ([], 0))
        else if c > 70 then (if 97 \<le> c \<and> c \<le> 102 then ([], 133)
          else ([], 0))
        else ([], 133))
      else if cs = 140 then Some (if c = 58 then ([], 80)
        else if c = 93 then ([], 61)
        else if c < 65 then (if 48 \<le> c \<and> c \<le> 57 then ([], 138)
          else ([], 0))
        else if c > 70 then (if 97 \<le> c \<and> c \<le> 102 then ([], 134)
          else ([], 0))
        else ([], 134))
      else if cs = 141 then Some (if c = 48 then ([], 138)
        else if c = 58 then ([], 80)
        else if c = 93 then ([], 61)
        else if c < 65 then (if 49 \<le> c \<and> c \<le> 57 then ([], 134)
          else ([], 0))
        else if c > 70 then (if 97 \<le> c \<and> c \<le> 102 then ([], 134)
          else ([], 0))
        else ([], 134))
      else if cs = 142 then Some (if c = 58 then ([], 80)
        else if c = 93 then ([], 61)
        else if c < 65 then (if 48 \<le> c \<and> c \<le> 57 then ([], 133)
          else ([], 0))
        else if c > 70 then (if 97 \<le> c \<and> c \<le> 102 then ([], 133)
          else ([], 0))
        else ([], 133))
      else if cs = 143 then Some (if c = 46 then ([], 55)
        else if c = 58 then ([], 131)
        else if c = 93 then ([], 61)
        else if c < 65 then (if 48 \<le> c \<and> c \<le> 57 then ([], 144)
          else ([], 0))
        else if c > 70 then (if 97 \<le> c \<and> c \<le> 102 then ([], 128)
          else ([], 0))
        else ([], 128))
      else if cs = 144 then Some (if c = 46 then ([], 55)
        else if c = 58 then ([], 131)
        else if c = 93 then ([], 61)
        else if c < 65 then (if 48 \<le> c \<and> c \<le> 57 then ([], 145)
          else ([], 0))
        else if c > 70 then (if 97 \<le> c \<and> c \<le> 102 then ([], 129)
          else ([], 0))
        else ([], 129))
      else None)"

definition http11_states_145_152 :: "bool \<Rightarrow> nat \<Rightarrow> int \<Rightarrow> http11_go option" where
  "http11_states_145_152 relaxed cs c =
     (if cs = 145 then Some (if c = 46 then ([], 55)
        else if c = 58 then ([], 131)
        else if c = 93 then ([], 61)
        else if c < 65 then (if 48 \<le> c \<and> c \<le> 57 then ([], 130)
          else ([], 0))
        else if c > 70 then (if 97 \<le> c \<and> c \<le> 102 then ([], 130)
          else ([], 0))
        else ([], 130))
      else if cs = 146 then Some (if c = 46 then ([], 55)
        else if c = 48 then ([], 147)
        else if c = 53 then ([], 148)
        else if c = 58 then ([], 131)
        else if c = 93 then ([], 61)
        else if c < 65 then (if 49 \<le> c \<and> c \<le> 57 then ([], 128)
          else ([], 0))
        else if c > 70 then (if 97 \<le> c \<and> c \<le> 102 then ([], 128)
          else ([], 0))
        else ([], 128))
      else if cs = 147 then Some (if c = 58 then ([], 131)
        else if c = 93 then ([], 61)
        else if c < 65 then (if 48 \<le> c \<and> c \<le> 57 then ([], 145)
          else ([], 0))
        else if c > 70 then (if 97 \<le> c \<and> c \<le> 102 then ([], 129)
          else ([], 0))
        else ([], 129))
      else if cs = 148 then Some (if c = 48 then ([], 145)
        else if c = 58 then ([], 131)
        else if c = 93 then ([], 61)
        else if c < 65 then (if 49 \<le> c \<and> c \<le> 57 then ([], 129)
          else ([], 0))
        else if c > 70 then (if 97 \<le> c \<and> c \<le> 102 then ([], 129)
          else ([], 0))
        else ([], 129))
      else if cs = 149 then Some (if c = 58 then ([], 131)
        else if c = 93 then ([], 61)
        else if c < 65 then (if 48 \<le> c \<and> c \<le> 57 then ([], 128)
          else ([], 0))
        else if c > 70 then (if 97 \<le> c \<and> c \<le> 102 then ([], 128)
          else ([], 0))
        else ([], 128))
      else if cs = 150 then Some (if c = 49 then ([], 143)
        else if c = 50 then ([], 146)
        else if c < 48 then (if 2 \<le> c \<and> c \<le> 3 then ([], 48)
          else ([], 0))
        else if c > 57 then (if c > 70 then (if 97 \<le> c \<and> c \<le> 102 then ([], 149)
            else ([], 0))
          else if c \<ge> 65 then ([], 149)
          else ([], 0))
        else ([], 127))
      else if cs = 151 then Some (if c = 49 then ([], 156)
        else if c = 50 then ([], 159)
        else if c < 48 then (if 2 \<le> c \<and> c \<le> 3 then ([], 48)
          else ([], 0))
        else if c > 57 then (if c > 70 then (if 97 \<le> c \<and> c \<le> 102 then ([], 162)
            else ([], 0))
          else if c \<ge> 65 then ([], 162)
          else ([], 0))
        else ([], 152))
      else if cs = 152 then Some (if c = 46 then ([], 55)
        else if c = 58 then ([], 131)
        else if c < 65 then (if 48 \<le> c \<and> c \<le> 57 then ([], 153)
          else ([], 0))
        else if c > 70 then (if 97 \<le> c \<and> c \<le> 102 then ([], 153)
          else ([], 0))
        else ([], 153))
      else None)"

definition http11_states_153_161 :: "bool \<Rightarrow> nat \<Rightarrow> int \<Rightarrow> http11_go option" where
  "http11_states_153_161 relaxed cs c =
     (if cs = 153 then Some (if c = 58 then ([], 131)
        else if c < 65 then (if 48 \<le> c \<and> c \<le> 57 then ([], 154)
          else ([], 0))
        else if c > 70 then (if 97 \<le> c \<and> c \<le> 102 then ([], 154)
          else ([], 0))
        else ([], 154))
      else if cs = 154 then Some (if c = 58 then ([], 131)
        else if c < 65 then (if 48 \<le> c \<and> c \<le> 57 then ([], 155)
          else ([], 0))
        else if c > 70 then (if 97 \<le> c \<and> c \<le> 102 then ([], 155)
          else ([], 0))
        else ([], 155))
      else if cs = 155 then Some (if c = 58 then ([], 131)
        else ([], 0))
      else if cs = 156 then Some (if c = 46 then ([], 55)
        else if c = 58 then ([], 131)
        else if c < 65 then (if 48 \<le> c \<and> c \<le> 57 then ([], 157)
          else ([], 0))
        else if c > 70 then (if 97 \<le> c \<and> c \<le> 102 then ([], 153)
          else ([], 0))
        else ([], 153))
      else if cs = 157 then Some (if c = 46 then ([], 55)
        else if c = 58 then ([], 131)
        else if c < 65 then (if 48 \<le> c \<and> c \<le> 57 then ([], 158)
          else ([], 0))
        else if c > 70 then (if 97 \<le> c \<and> c \<le> 102 then ([], 154)
          else ([], 0))
        else ([], 154))
      else if cs = 158 then Some (if c = 46 then ([], 55)
        else if c = 58 then ([], 131)
        else if c < 65 then (if 48 \<le> c \<and> c \<le> 57 then ([], 155)
          else ([], 0))
        else if c > 70 then (if 97 \<le> c \<and> c \<le> 102 then ([], 155)
          else ([], 0))
        else ([], 155))
      else if cs = 159 then Some (if c = 46 then ([], 55)
        else if c = 48 then ([], 160)
        else if c = 53 then ([], 161)
        else if c = 58 then ([], 131)
        else if c < 65 then (if 49 \<le> c \<and> c \<le> 57 then ([], 153)
          else ([], 0))
        else if c > 70 then (if 97 \<le> c \<and> c \<le> 102 then ([], 153)
          else ([], 0))
        else ([], 153))
      else if cs = 160 then Some (if c = 58 then ([], 131)
        else if c < 65 then (if 48 \<le> c \<and> c \<le> 57 then ([], 158)
          else ([], 0))
        else if c > 70 then (if 97 \<le> c \<and> c \<le> 102 then ([], 154)
          else ([], 0))
        else ([], 154))
      else if cs = 161 then Some (if c = 48 then ([], 158)
        else if c = 58 then ([], 131)
        else if c < 65 then (if 49 \<le> c \<and> c \<le> 57 then ([], 154)
          else ([], 0))
        else if c > 70 then (if 97 \<le> c \<and> c \<le> 102 then ([], 154)
          else ([], 0))
        else ([], 154))
      else None)"

definition http11_states_162_170 :: "bool \<Rightarrow> nat \<Rightarrow> int \<Rightarrow> http11_go option" where
  "http11_states_162_170 relaxed cs c =
     (if cs = 162 then Some (if c = 58 then ([], 131)
        else if c < 65 then (if 48 \<le> c \<and> c \<le> 57 then ([], 153)
          else ([], 0))
        else if c > 70 then (if 97 \<le> c \<and> c \<le> 102 then ([], 153)
          else ([], 0))
        else ([], 153))
      else if cs = 163 then Some (if c < 48 then (if 2 \<le> c \<and> c \<le> 3 then ([], 48)
          else ([], 0))
        else if c > 57 then (if c > 70 then (if 97 \<le> c \<and> c \<le> 102 then ([], 49)
            else ([], 0))
          else if c \<ge> 65 then ([], 49)
          else ([], 0))
        else ([], 49))
      else if cs = 164 then Some (if 2 \<le> c \<and> c \<le> 3 then ([], 48)
        else ([], 0))
      else if cs = 165 then Some (if c = 3 then ([], 48)
        else ([], 0))
      else if cs = 166 then Some (if c = 4 then ([], 48)
        else ([], 0))
      else if cs = 167 then Some (if c = 58 then ([], 168)
        else ([], 0))
      else if cs = 168 then Some (if c = 49 then ([], 143)
        else if c = 50 then ([], 146)
        else if c = 93 then ([], 61)
        else if c < 48 then (if 2 \<le> c \<and> c \<le> 5 then ([], 48)
          else ([], 0))
        else if c > 57 then (if c > 70 then (if 97 \<le> c \<and> c \<le> 102 then ([], 149)
            else ([], 0))
          else if c \<ge> 65 then ([], 149)
          else ([], 0))
        else ([], 127))
      else if cs = 169 then Some (if c < 65 then (if 48 \<le> c \<and> c \<le> 57 then ([], 170)
          else ([], 0))
        else if c > 70 then (if 97 \<le> c \<and> c \<le> 102 then ([], 170)
          else ([], 0))
        else ([], 170))
      else if cs = 170 then Some (if c = 46 then ([], 171)
        else if c < 65 then (if 48 \<le> c \<and> c \<le> 57 then ([], 170)
          else ([], 0))
        else if c > 70 then (if 97 \<le> c \<and> c \<le> 102 then ([], 170)
          else ([], 0))
        else ([], 170))
      else None)"

definition http11_states_171_172 :: "bool \<Rightarrow> nat \<Rightarrow> int \<Rightarrow> http11_go option" where
  "http11_states_171_172 relaxed cs c =
     (if cs = 171 then Some (let w = http11_widec relaxed c in
        if w \<in> {33, 36, 61, 95, 126, 606, 635, 637} then ([], 172)
        else if w < 48 then (if 38 \<le> w \<and> w \<le> 46 then ([], 172)
          else ([], 0))
        else if w > 59 then (if w > 90 then (if 97 \<le> w \<and> w \<le> 122 then ([], 172)
            else ([], 0))
          else if w \<ge> 65 then ([], 172)
          else ([], 0))
        else ([], 172))
      else if cs = 172 then Some (let w = http11_widec relaxed c in
        if w \<in> {33, 36, 61, 95, 126, 606, 635, 637} then ([], 172)
        else if w = 93 then ([], 61)
        else if w < 48 then (if 38 \<le> w \<and> w \<le> 46 then ([], 172)
          else ([], 0))
        else if w > 59 then (if w > 90 then (if 97 \<le> w \<and> w \<le> 122 then ([], 172)
            else ([], 0))
          else if w \<ge> 65 then ([], 172)
          else ([], 0))
        else ([], 172))
      else None)"

definition http11_states_173_177 :: "bool \<Rightarrow> nat \<Rightarrow> int \<Rightarrow> http11_go option" where
  "http11_states_173_177 relaxed cs c =
     (if cs = 173 then Some (let w = http11_widec relaxed c in
        if w = 32 then ([HRequestPath, HRequestUri], 4)
        else if w \<in> {33, 59, 61, 64, 95, 126, 606, 635, 637} then ([], 19)
        else if w = 35 then ([HRequestPath, HRequestUri], 20)
        else if w = 37 then ([], 24)
        else if w = 43 then ([], 173)
        else if w = 47 then ([], 26)
        else if w = 58 then ([], 174)
        else if w = 63 then ([HRequestPath], 29)
        else if w < 45 then (if 36 \<le> w \<and> w \<le> 44 then ([], 19)
          else ([], 0))
        else if w > 57 then (if w > 90 then (if 97 \<le> w \<and> w \<le> 122 then ([], 173)
            else ([], 0))
          else if w \<ge> 65 then ([], 173)
          else ([], 0))
        else ([], 173))
      else if cs = 174 then Some (let w = http11_widec relaxed c in
        if w = 32 then ([HMark, HRequestPath, HRequestUri], 4)
        else if w \<in> {33, 61, 95, 126, 606, 635, 637} then ([HMark], 26)
        else if w = 35 then ([HMark, HRequestPath, HRequestUri], 20)
        else if w = 37 then ([HMark], 27)
        else if w = 47 then ([HMark], 33)
        else if w = 63 then ([HMark, HRequestPath], 29)
        else if w < 36 then (if w \<le> -1 then ([HMark], 26)
          else ([], 0))
        else if w > 59 then (if w > 90 then (if 97 \<le> w \<and> w \<le> 122 then ([HMark], 26)
            else ([], 0))
          else if w \<ge> 64 then ([HMark], 26)
          else ([], 0))
        else ([HMark], 26))
      else if cs = 175 then Some (if c = 32 then ([HRequestMethod], 3)
        else if c > 57 then (if 65 \<le> c \<and> c \<le> 90 then ([], 176)
          else ([], 0))
        else if c \<ge> 48 then ([], 176)
        else ([], 0))
      else if cs = 176 then Some (if c = 32 then ([HRequestMethod], 3)
        else if c > 57 then (if 65 \<le> c \<and> c \<le> 90 then ([], 177)
          else ([], 0))
        else if c \<ge> 48 then ([], 177)
        else ([], 0))
      else if cs = 177 then Some (if c = 32 then ([HRequestMethod], 3)
        else if c > 57 then (if 65 \<le> c \<and> c \<le> 90 then ([], 178)
          else ([], 0))
        else if c \<ge> 48 then ([], 178)
        else ([], 0))
      else None)"

definition http11_states_178_189 :: "bool \<Rightarrow> nat \<Rightarrow> int \<Rightarrow> http11_go option" where
  "http11_states_178_189 relaxed cs c =
     (if cs = 178 then Some (if c = 32 then ([HRequestMethod], 3)
        else if c > 57 then (if 65 \<le> c \<and> c \<le> 90 then ([], 179)
          else ([], 0))
        else if c \<ge> 48 then ([], 179)
        else ([], 0))
      else if cs = 179 then Some (if c = 32 then ([HRequestMethod], 3)
        else if c > 57 then (if 65 \<le> c \<and> c \<le> 90 then ([], 180)
          else ([], 0))
        else if c \<ge> 48 then ([], 180)
        else ([], 0))
      else if cs = 180 then Some (if c = 32 then ([HRequestMethod], 3)
        else if c > 57 then (if 65 \<le> c \<and> c \<le> 90 then ([], 181)
          else ([], 0))
        else if c \<ge> 48 then ([], 181)
        else ([], 0))
      else if cs = 181 then Some (if c = 32 then ([HRequestMethod], 3)
        else if c > 57 then (if 65 \<le> c \<and> c \<le> 90 then ([], 182)
          else ([], 0))
        else if c \<ge> 48 then ([], 182)
        else ([], 0))
      else if cs = 182 then Some (if c = 32 then ([HRequestMethod], 3)
        else if c > 57 then (if 65 \<le> c \<and> c \<le> 90 then ([], 183)
          else ([], 0))
        else if c \<ge> 48 then ([], 183)
        else ([], 0))
      else if cs = 183 then Some (if c = 32 then ([HRequestMethod], 3)
        else if c > 57 then (if 65 \<le> c \<and> c \<le> 90 then ([], 184)
          else ([], 0))
        else if c \<ge> 48 then ([], 184)
        else ([], 0))
      else if cs = 184 then Some (if c = 32 then ([HRequestMethod], 3)
        else if c > 57 then (if 65 \<le> c \<and> c \<le> 90 then ([], 185)
          else ([], 0))
        else if c \<ge> 48 then ([], 185)
        else ([], 0))
      else if cs = 185 then Some (if c = 32 then ([HRequestMethod], 3)
        else if c > 57 then (if 65 \<le> c \<and> c \<le> 90 then ([], 186)
          else ([], 0))
        else if c \<ge> 48 then ([], 186)
        else ([], 0))
      else if cs = 186 then Some (if c = 32 then ([HRequestMethod], 3)
        else if c > 57 then (if 65 \<le> c \<and> c \<le> 90 then ([], 187)
          else ([], 0))
        else if c \<ge> 48 then ([], 187)
        else ([], 0))
      else if cs = 187 then Some (if c = 32 then ([HRequestMethod], 3)
        else if c > 57 then (if 65 \<le> c \<and> c \<le> 90 then ([], 188)
          else ([], 0))
        else if c \<ge> 48 then ([], 188)
        else ([], 0))
      else if cs = 188 then Some (if c = 32 then ([HRequestMethod], 3)
        else if c > 57 then (if 65 \<le> c \<and> c \<le> 90 then ([], 189)
          else ([], 0))
        else if c \<ge> 48 then ([], 189)
        else ([], 0))
      else if cs = 189 then Some (if c = 32 then ([HRequestMethod], 3)
        else if c > 57 then (if 65 \<le> c \<and> c \<le> 90 then ([], 190)
          else ([], 0))
        else if c \<ge> 48 then ([], 190)
        else ([], 0))
      else None)"

definition http11_states_190_197 :: "bool \<Rightarrow> nat \<Rightarrow> int \<Rightarrow> http11_go option" where
  "http11_states_190_197 relaxed cs c =
     (if cs = 190 then Some (if c = 32 then ([HRequestMethod], 3)
        else if c > 57 then (if 65 \<le> c \<and> c \<le> 90 then ([], 191)
          else ([], 0))
        else if c \<ge> 48 then ([], 191)
        else ([], 0))
      else if cs = 191 then Some (if c = 32 then ([HRequestMethod], 3)
        else if c > 57 then (if 65 \<le> c \<and> c \<le> 90 then ([], 192)
          else ([], 0))
        else if c \<ge> 48 then ([], 192)
        else ([], 0))
      else if cs = 192 then Some (if c = 32 then ([HRequestMethod], 3)
        else if c > 57 then (if 65 \<le> c \<and> c \<le> 90 then ([], 193)
          else ([], 0))
        else if c \<ge> 48 then ([], 193)
        else ([], 0))
      else if cs = 193 then Some (if c = 32 then ([HRequestMethod], 3)
        else ([], 0))
      else if cs = 194 then Some (if c < 48 then (if 45 \<le> c \<and> c \<le> 46 then ([], 195)
          else ([], 0))
        else if c > 57 then (if c > 90 then (if 97 \<le> c \<and> c \<le> 122 then ([], 195)
            else ([], 0))
          else if c \<ge> 65 then ([], 195)
          else ([], 0))
        else ([], 195))
      else if cs = 195 then Some (if c \<in> {32, 47, 62} then ([HRequestPath], 196)
        else if c < 45 then (if 9 \<le> c \<and> c \<le> 13 then ([HRequestPath], 196)
          else ([], 0))
        else if c > 57 then (if c > 90 then (if 97 \<le> c \<and> c \<le> 122 then ([], 195)
            else ([], 0))
          else if c \<ge> 65 then ([], 195)
          else ([], 0))
        else ([], 195))
      else if cs = 196 then Some (if c = 62 then ([], 197)
        else ([], 196))
      else if cs = 197 then Some (if c = 0 then ([HXml, HDone], 349)
        else if c = 62 then ([], 197)
        else ([], 196))
      else None)"

definition http11_states_349_201 :: "bool \<Rightarrow> nat \<Rightarrow> int \<Rightarrow> http11_go option" where
  "http11_states_349_201 relaxed cs c =
     (if cs = 349 then Some (([], 0))
      else if cs = 198 then Some (let w = http11_widec relaxed c in
        if w = 32 then ([HRequestPath], 199)
        else if w \<in> {33, 59, 61, 95, 126, 606, 635, 637} then ([], 202)
        else if w = 37 then ([], 203)
        else if w = 47 then ([], 208)
        else if w < 64 then (if 36 \<le> w \<and> w \<le> 57 then ([], 202)
          else ([], 0))
        else if w > 90 then (if 97 \<le> w \<and> w \<le> 122 then ([], 202)
          else ([], 0))
        else ([], 202))
      else if cs = 199 then Some (if c = 123 then ([HMark], 200)
        else ([], 0))
      else if cs = 200 then Some (if c = 125 then ([], 201)
        else ([], 200))
      else if cs = 201 then Some (if c = 0 then ([HJson, HDone], 349)
        else if c = 125 then ([], 201)
        else ([], 200))
      else None)"

definition http11_states_202_207 :: "bool \<Rightarrow> nat \<Rightarrow> int \<Rightarrow> http11_go option" where
  "http11_states_202_207 relaxed cs c =
     (if cs = 202 then Some (let w = http11_widec relaxed c in
        if w = 32 then ([HRequestPath], 199)
        else if w \<in> {33, 59, 61, 95, 126, 606, 635, 637} then ([], 202)
        else if w = 37 then ([], 203)
        else if w = 47 then ([], 205)
        else if w < 64 then (if 36 \<le> w \<and> w \<le> 57 then ([], 202)
          else ([], 0))
        else if w > 90 then (if 97 \<le> w \<and> w \<le> 122 then ([], 202)
          else ([], 0))
        else ([], 202))
      else if cs = 203 then Some (if c < 65 then (if 48 \<le> c \<and> c \<le> 57 then ([], 204)
          else ([], 0))
        else if c > 70 then (if 97 \<le> c \<and> c \<le> 102 then ([], 204)
          else ([], 0))
        else ([], 204))
      else if cs = 204 then Some (if c < 65 then (if 48 \<le> c \<and> c \<le> 57 then ([], 202)
          else ([], 0))
        else if c > 70 then (if 97 \<le> c \<and> c \<le> 102 then ([], 202)
          else ([], 0))
        else ([], 202))
      else if cs = 205 then Some (let w = http11_widec relaxed c in
        if w = 32 then ([HRequestPath], 199)
        else if w \<in> {33, 61, 95, 126, 606, 635, 637} then ([], 205)
        else if w = 37 then ([], 206)
        else if w < 36 then (if w \<le> -1 then ([], 205)
          else ([], 0))
        else if w > 59 then (if w > 90 then (if 97 \<le> w \<and> w \<le> 122 then ([], 205)
            else ([], 0))
          else if w \<ge> 64 then ([], 205)
          else ([], 0))
        else ([], 205))
      else if cs = 206 then Some (if c < 65 then (if 48 \<le> c \<and> c \<le> 57 then ([], 207)
          else ([], 0))
        else if c > 70 then (if 97 \<le> c \<and> c \<le> 102 then ([], 207)
          else ([], 0))
        else ([], 207))
      else if cs = 207 then Some (if c < 65 then (if 48 \<le> c \<and> c \<le> 57 then ([], 205)
          else ([], 0))
        else if c > 70 then (if 97 \<le> c \<and> c \<le> 102 then ([], 205)
          else ([], 0))
        else ([], 205))
      else None)"

definition http11_states_208_210 :: "bool \<Rightarrow> nat \<Rightarrow> int \<Rightarrow> http11_go option" where
  "http11_states_208_210 relaxed cs c =
     (if cs = 208 then Some (let w = http11_widec relaxed c in
        if w = 32 then ([HRequestPath], 199)
        else if w \<in> {33, 61, 95, 126, 606, 635, 637} then ([], 205)
        else if w = 37 then ([], 206)
        else if w = 47 then ([], 209)
        else if w < 36 then (if w \<le> -1 then ([], 205)
          else ([], 0))
        else if w > 59 then (if w > 90 then (if 97 \<le> w \<and> w \<le> 122 then ([], 205)
            else ([], 0))
          else if w \<ge> 64 then ([], 205)
          else ([], 0))
        else ([], 205))
      else if cs = 209 then Some (let w = http11_widec relaxed c in
        if w = 32 then ([HRequestPath], 199)
        else if w \<in> {33, 61, 95, 126, 606, 635, 637} then ([], 210)
        else if w = 37 then ([], 211)
        else if w = 47 then ([], 205)
        else if w = 58 then ([], 213)
        else if w = 64 then ([], 217)
        else if w = 91 then ([], 222)
        else if w < 65 then (if 36 \<le> w \<and> w \<le> 59 then ([], 210)
          else ([], 0))
        else if w > 90 then (if 97 \<le> w \<and> w \<le> 122 then ([], 210)
          else ([], 0))
        else ([], 210))
      else if cs = 210 then Some (let w = http11_widec relaxed c in
        if w = 32 then ([HRequestPath], 199)
        else if w \<in> {33, 61, 95, 126, 606, 635, 637} then ([], 210)
        else if w = 37 then ([], 211)
        else if w = 47 then ([], 205)
        else if w = 58 then ([], 213)
        else if w = 64 then ([], 217)
        else if w < 65 then (if 36 \<le> w \<and> w \<le> 59 then ([], 210)
          else ([], 0))
        else if w > 90 then (if 97 \<le> w \<and> w \<le> 122 then ([], 210)
          else ([], 0))
        else ([], 210))
      else None)"

definition http11_states_211_215 :: "bool \<Rightarrow> nat \<Rightarrow> int \<Rightarrow> http11_go option" where
  "http11_states_211_215 relaxed cs c =
     (if cs = 211 then Some (if c < 65 then (if 48 \<le> c \<and> c \<le> 57 then ([], 212)
          else ([], 0))
        else if c > 70 then (if 97 \<le> c \<and> c \<le> 102 then ([], 212)
          else ([], 0))
        else ([], 212))
      else if cs = 212 then Some (if c < 65 then (if 48 \<le> c \<and> c \<le> 57 then ([], 210)
          else ([], 0))
        else if c > 70 then (if 97 \<le> c \<and> c \<le> 102 then ([], 210)
          else ([], 0))
        else ([], 210))
      else if cs = 213 then Some (let w = http11_widec relaxed c in
        if w = 32 then ([HRequestPath], 199)
        else if w \<in> {33, 61, 95, 126, 606, 635, 637} then ([], 214)
        else if w = 37 then ([], 215)
        else if w = 47 then ([], 205)
        else if w = 64 then ([], 217)
        else if w < 58 then (if w > 46 then (if 48 \<le> w \<and> w \<le> 57 then ([], 213)
            else ([], 0))
          else if w \<ge> 36 then ([], 214)
          else ([], 0))
        else if w > 59 then (if w > 90 then (if 97 \<le> w \<and> w \<le> 122 then ([], 214)
            else ([], 0))
          else if w \<ge> 65 then ([], 214)
          else ([], 0))
        else ([], 214))
      else if cs = 214 then Some (let w = http11_widec relaxed c in
        if w \<in> {33, 61, 95, 126, 606, 635, 637} then ([], 214)
        else if w = 37 then ([], 215)
        else if w = 64 then ([], 217)
        else if w < 48 then (if 36 \<le> w \<and> w \<le> 46 then ([], 214)
          else ([], 0))
        else if w > 59 then (if w > 90 then (if 97 \<le> w \<and> w \<le> 122 then ([], 214)
            else ([], 0))
          else if w \<ge> 65 then ([], 214)
          else ([], 0))
        else ([], 214))
      else if cs = 215 then Some (if c < 65 then (if 48 \<le> c \<and> c \<le> 57 then ([], 216)
          else ([], 0))
        else if c > 70 then (if 97 \<le> c \<and> c \<le> 102 then ([], 216)
          else ([], 0))
        else ([], 216))
      else None)"

definition http11_states_216_221 :: "bool \<Rightarrow> nat \<Rightarrow> int \<Rightarrow> http11_go option" where
  "http11_states_216_221 relaxed cs c =
     (if cs = 216 then Some (if c < 65 then (if 48 \<le> c \<and> c \<le> 57 then ([], 214)
          else ([], 0))
        else if c > 70 then (if 97 \<le> c \<and> c \<le> 102 then ([], 214)
          else ([], 0))
        else ([], 214))
      else if cs = 217 then Some (let w = http11_widec relaxed c in
        if w = 32 then ([HRequestPath], 199)
        else if w \<in> {33, 61, 95, 126, 606, 635, 637} then ([], 218)
        else if w = 37 then ([], 219)
        else if w = 47 then ([], 205)
        else if w = 58 then ([], 221)
        else if w = 91 then ([], 222)
        else if w < 65 then (if 36 \<le> w \<and> w \<le> 59 then ([], 218)
          else ([], 0))
        else if w > 90 then (if 97 \<le> w \<and> w \<le> 122 then ([], 218)
          else ([], 0))
        else ([], 218))
      else if cs = 218 then Some (let w = http11_widec relaxed c in
        if w = 32 then ([HRequestPath], 199)
        else if w \<in> {33, 61, 95, 126, 606, 635, 637} then ([], 218)
        else if w = 37 then ([], 219)
        else if w = 47 then ([], 205)
        else if w = 58 then ([], 221)
        else if w < 65 then (if 36 \<le> w \<and> w \<le> 59 then ([], 218)
          else ([], 0))
        else if w > 90 then (if 97 \<le> w \<and> w \<le> 122 then ([], 218)
          else ([], 0))
        else ([], 218))
      else if cs = 219 then Some (if c < 65 then (if 48 \<le> c \<and> c \<le> 57 then ([], 220)
          else ([], 0))
        else if c > 70 then (if 97 \<le> c \<and> c \<le> 102 then ([], 220)
          else ([], 0))
        else ([], 220))
      else if cs = 220 then Some (if c < 65 then (if 48 \<le> c \<and> c \<le> 57 then ([], 218)
          else ([], 0))
        else if c > 70 then (if 97 \<le> c \<and> c \<le> 102 then ([], 218)
          else ([], 0))
        else ([], 218))
      else if cs = 221 then Some (if c = 32 then ([HRequestPath], 199)
        else if c = 47 then ([], 205)
        else if 48 \<le> c \<and> c \<le> 57 then ([], 221)
        else ([], 0))
      else None)"

definition http11_states_222_232 :: "bool \<Rightarrow> nat \<Rightarrow> int \<Rightarrow> http11_go option" where
  "http11_states_222_232 relaxed cs c =
     (if cs = 222 then Some (if c = 6 then ([], 223)
        else if c = 58 then ([], 342)
        else if c = 118 then ([], 344)
        else if c < 65 then (if 48 \<le> c \<and> c \<le> 57 then ([], 266)
          else ([], 0))
        else if c > 70 then (if 97 \<le> c \<and> c \<le> 102 then ([], 266)
          else ([], 0))
        else ([], 266))
      else if cs = 223 then Some (if c < 65 then (if 48 \<le> c \<and> c \<le> 57 then ([], 224)
          else ([], 0))
        else if c > 70 then (if 97 \<le> c \<and> c \<le> 102 then ([], 224)
          else ([], 0))
        else ([], 224))
      else if cs = 224 then Some (if c = 58 then ([], 228)
        else if c < 65 then (if 48 \<le> c \<and> c \<le> 57 then ([], 225)
          else ([], 0))
        else if c > 70 then (if 97 \<le> c \<and> c \<le> 102 then ([], 225)
          else ([], 0))
        else ([], 225))
      else if cs = 225 then Some (if c = 58 then ([], 228)
        else if c < 65 then (if 48 \<le> c \<and> c \<le> 57 then ([], 226)
          else ([], 0))
        else if c > 70 then (if 97 \<le> c \<and> c \<le> 102 then ([], 226)
          else ([], 0))
        else ([], 226))
      else if cs = 226 then Some (if c = 58 then ([], 228)
        else if c < 65 then (if 48 \<le> c \<and> c \<le> 57 then ([], 227)
          else ([], 0))
        else if c > 70 then (if 97 \<le> c \<and> c \<le> 102 then ([], 227)
          else ([], 0))
        else ([], 227))
      else if cs = 227 then Some (if c = 58 then ([], 228)
        else ([], 0))
      else if cs = 228 then Some (if c = 49 then ([], 259)
        else if c = 50 then ([], 262)
        else if c < 65 then (if 48 \<le> c \<and> c \<le> 57 then ([], 229)
          else ([], 0))
        else if c > 70 then (if 97 \<le> c \<and> c \<le> 102 then ([], 265)
          else ([], 0))
        else ([], 265))
      else if cs = 229 then Some (if c = 46 then ([], 230)
        else if c = 58 then ([], 255)
        else if c < 65 then (if 48 \<le> c \<and> c \<le> 57 then ([], 252)
          else ([], 0))
        else if c > 70 then (if 97 \<le> c \<and> c \<le> 102 then ([], 252)
          else ([], 0))
        else ([], 252))
      else if cs = 230 then Some (if c = 49 then ([], 247)
        else if c = 50 then ([], 249)
        else if 48 \<le> c \<and> c \<le> 57 then ([], 231)
        else ([], 0))
      else if cs = 231 then Some (if c = 46 then ([], 232)
        else ([], 0))
      else if cs = 232 then Some (if c = 49 then ([], 242)
        else if c = 50 then ([], 244)
        else if 48 \<le> c \<and> c \<le> 57 then ([], 233)
        else ([], 0))
      else None)"

definition http11_states_233_249 :: "bool \<Rightarrow> nat \<Rightarrow> int \<Rightarrow> http11_go option" where
  "http11_states_233_249 relaxed cs c =
     (if cs = 233 then Some (if c = 46 then ([], 234)
        else ([], 0))
      else if cs = 234 then Some (if c = 49 then ([], 237)
        else if c = 50 then ([], 239)
        else if 48 \<le> c \<and> c \<le> 57 then ([], 235)
        else ([], 0))
      else if cs = 235 then Some (if c = 93 then ([], 236)
        else ([], 0))
      else if cs = 236 then Some (if c = 32 then ([HRequestPath], 199)
        else if c = 47 then ([], 205)
        else if c = 58 then ([], 221)
        else ([], 0))
      else if cs = 237 then Some (if c = 93 then ([], 236)
        else if 48 \<le> c \<and> c \<le> 57 then ([], 238)
        else ([], 0))
      else if cs = 238 then Some (if c = 93 then ([], 236)
        else if 48 \<le> c \<and> c \<le> 57 then ([], 235)
        else ([], 0))
      else if cs = 239 then Some (if c = 48 then ([], 240)
        else if c = 53 then ([], 241)
        else if c = 93 then ([], 236)
        else ([], 0))
      else if cs = 240 then Some (if 48 \<le> c \<and> c \<le> 57 then ([], 235)
        else ([], 0))
      else if cs = 241 then Some (if c = 48 then ([], 235)
        else ([], 0))
      else if cs = 242 then Some (if c = 46 then ([], 234)
        else if 48 \<le> c \<and> c \<le> 57 then ([], 243)
        else ([], 0))
      else if cs = 243 then Some (if c = 46 then ([], 234)
        else if 48 \<le> c \<and> c \<le> 57 then ([], 233)
        else ([], 0))
      else if cs = 244 then Some (if c = 46 then ([], 234)
        else if c = 48 then ([], 245)
        else if c = 53 then ([], 246)
        else ([], 0))
      else if cs = 245 then Some (if 48 \<le> c \<and> c \<le> 57 then ([], 233)
        else ([], 0))
      else if cs = 246 then Some (if c = 48 then ([], 233)
        else ([], 0))
      else if cs = 247 then Some (if c = 46 then ([], 232)
        else if 48 \<le> c \<and> c \<le> 57 then ([], 248)
        else ([], 0))
      else if cs = 248 then Some (if c = 46 then ([], 232)
        else if 48 \<le> c \<and> c \<le> 57 then ([], 231)
        else ([], 0))
      else if cs = 249 then Some (if c = 46 then ([], 232)
        else if c = 48 then ([], 250)
        else if c = 53 then ([], 251)
        else ([], 0))
      else None)"

definition http11_states_250_260 :: "bool \<Rightarrow> nat \<Rightarrow> int \<Rightarrow> http11_go option" where
  "http11_states_250_260 relaxed cs c =
     (if cs = 250 then Some (if 48 \<le> c \<and> c \<le> 57 then ([], 231)
        else ([], 0))
      else if cs = 251 then Some (if c = 48 then ([], 231)
        else ([], 0))
      else if cs = 252 then Some (if c = 58 then ([], 255)
        else if c < 65 then (if 48 \<le> c \<and> c \<le> 57 then ([], 253)
          else ([], 0))
        else if c > 70 then (if 97 \<le> c \<and> c \<le> 102 then ([], 253)
          else ([], 0))
        else ([], 253))
      else if cs = 253 then Some (if c = 58 then ([], 255)
        else if c < 65 then (if 48 \<le> c \<and> c \<le> 57 then ([], 254)
          else ([], 0))
        else if c > 70 then (if 97 \<le> c \<and> c \<le> 102 then ([], 254)
          else ([], 0))
        else ([], 254))
      else if cs = 254 then Some (if c = 58 then ([], 255)
        else ([], 0))
      else if cs = 255 then Some (if c < 65 then (if 48 \<le> c \<and> c \<le> 57 then ([], 256)
          else ([], 0))
        else if c > 70 then (if 97 \<le> c \<and> c \<le> 102 then ([], 256)
          else ([], 0))
        else ([], 256))
      else if cs = 256 then Some (if c = 93 then ([], 236)
        else if c < 65 then (if 48 \<le> c \<and> c \<le> 57 then ([], 257)
          else ([], 0))
        else if c > 70 then (if 97 \<le> c \<and> c \<le> 102 then ([], 257)
          else ([], 0))
        else ([], 257))
      else if cs = 257 then Some (if c = 93 then ([], 236)
        else if c < 65 then (if 48 \<le> c \<and> c \<le> 57 then ([], 258)
          else ([], 0))
        else if c > 70 then (if 97 \<le> c \<and> c \<le> 102 then ([], 258)
          else ([], 0))
        else ([], 258))
      else if cs = 258 then Some (if c = 93 then ([], 236)
        else if c < 65 then (if 48 \<le> c \<and> c \<le> 57 then ([], 235)
          else ([], 0))
        else if c > 70 then (if 97 \<le> c \<and> c \<le> 102 then ([], 235)
          else ([], 0))
        else ([], 235))
      else if cs = 259 then Some (if c = 46 then ([], 230)
        else if c = 58 then ([], 255)
        else if c < 65 then (if 48 \<le> c \<and> c \<le> 57 then ([], 260)
          else ([], 0))
        else if c > 70 then (if 97 \<le> c \<and> c \<le> 102 then ([], 252)
          else ([], 0))
        else ([], 252))
      else if cs = 260 then Some (if c = 46 then ([], 230)
        else if c = 58 then ([], 255)
        else if c < 65 then (if 48 \<le> c \<and> c \<le> 57 then ([], 261)
          else ([], 0))
        else if c > 70 then (if 97 \<le> c \<and> c \<le> 102 then ([], 253)
          else ([], 0))
        else ([], 253))
      else None)"

definition http11_states_261_269 :: "bool \<Rightarrow> nat \<Rightarrow> int \<Rightarrow> http11_go option" where
  "http11_states_261_269 relaxed cs c =
     (if cs = 261 then Some (if c = 46 then ([], 230)
        else if c = 58 then ([], 255)
        else if c < 65 then (if 48 \<le> c \<and> c \<le> 57 then ([], 254)
          else ([], 0))
        else if c > 70 then (if 97 \<le> c \<and> c \<le> 102 then ([], 254)
          else ([], 0))
        else ([], 254))
      else if cs = 262 then Some (if c = 46 then ([], 230)
        else if c = 48 then ([], 263)
        else if c = 53 then ([], 264)
        else if c = 58 then ([], 255)
        else if c < 65 then (if 49 \<le> c \<and> c \<le> 57 then ([], 252)
          else ([], 0))
        else if c > 70 then (if 97 \<le> c \<and> c \<le> 102 then ([], 252)
          else ([], 0))
        else ([], 252))
      else if cs = 263 then Some (if c = 58 then ([], 255)
        else if c < 65 then (if 48 \<le> c \<and> c \<le> 57 then ([], 261)
          else ([], 0))
        else if c > 70 then (if 97 \<le> c \<and> c \<le> 102 then ([], 253)
          else ([], 0))
        else ([], 253))
      else if cs = 264 then Some (if c = 48 then ([], 261)
        else if c = 58 then ([], 255)
        else if c < 65 then (if 49 \<le> c \<and> c \<le> 57 then ([], 253)
          else ([], 0))
        else if c > 70 then (if 97 \<le> c \<and> c \<le> 102 then ([], 253)
          else ([], 0))
        else ([], 253))
      else if cs = 265 then Some (if c = 58 then ([], 255)
        else if c < 65 then (if 48 \<le> c \<and> c \<le> 57 then ([], 252)
          else ([], 0))
        else if c > 70 then (if 97 \<le> c \<and> c \<le> 102 then ([], 252)
          else ([], 0))
        else ([], 252))
      else if cs = 266 then Some (if c = 58 then ([], 270)
        else if c < 65 then (if 48 \<le> c \<and> c \<le> 57 then ([], 267)
          else ([], 0))
        else if c > 70 then (if 97 \<le> c \<and> c \<le> 102 then ([], 267)
          else ([], 0))
        else ([], 267))
      else if cs = 267 then Some (if c = 58 then ([], 270)
        else if c < 65 then (if 48 \<le> c \<and> c \<le> 57 then ([], 268)
          else ([], 0))
        else if c > 70 then (if 97 \<le> c \<and> c \<le> 102 then ([], 268)
          else ([], 0))
        else ([], 268))
      else if cs = 268 then Some (if c = 58 then ([], 270)
        else if c < 65 then (if 48 \<le> c \<and> c \<le> 57 then ([], 269)
          else ([], 0))
        else if c > 70 then (if 97 \<le> c \<and> c \<le> 102 then ([], 269)
          else ([], 0))
        else ([], 269))
      else if cs = 269 then Some (if c = 58 then ([], 270)
        else ([], 0))
      else None)"

definition http11_states_270_279 :: "bool \<Rightarrow> nat \<Rightarrow> int \<Rightarrow> http11_go option" where
  "http11_states_270_279 relaxed cs c =
     (if cs = 270 then Some (if c = 58 then ([], 341)
        else if c < 65 then (if 48 \<le> c \<and> c \<le> 57 then ([], 271)
          else ([], 0))
        else if c > 70 then (if 97 \<le> c \<and> c \<le> 102 then ([], 271)
          else ([], 0))
        else ([], 271))
      else if cs = 271 then Some (if c = 58 then ([], 275)
        else if c < 65 then (if 48 \<le> c \<and> c \<le> 57 then ([], 272)
          else ([], 0))
        else if c > 70 then (if 97 \<le> c \<and> c \<le> 102 then ([], 272)
          else ([], 0))
        else ([], 272))
      else if cs = 272 then Some (if c = 58 then ([], 275)
        else if c < 65 then (if 48 \<le> c \<and> c \<le> 57 then ([], 273)
          else ([], 0))
        else if c > 70 then (if 97 \<le> c \<and> c \<le> 102 then ([], 273)
          else ([], 0))
        else ([], 273))
      else if cs = 273 then Some (if c = 58 then ([], 275)
        else if c < 65 then (if 48 \<le> c \<and> c \<le> 57 then ([], 274)
          else ([], 0))
        else if c > 70 then (if 97 \<le> c \<and> c \<le> 102 then ([], 274)
          else ([], 0))
        else ([], 274))
      else if cs = 274 then Some (if c = 58 then ([], 275)
        else ([], 0))
      else if cs = 275 then Some (if c = 58 then ([], 340)
        else if c < 65 then (if 48 \<le> c \<and> c \<le> 57 then ([], 276)
          else ([], 0))
        else if c > 70 then (if 97 \<le> c \<and> c \<le> 102 then ([], 276)
          else ([], 0))
        else ([], 276))
      else if cs = 276 then Some (if c = 58 then ([], 280)
        else if c < 65 then (if 48 \<le> c \<and> c \<le> 57 then ([], 277)
          else ([], 0))
        else if c > 70 then (if 97 \<le> c \<and> c \<le> 102 then ([], 277)
          else ([], 0))
        else ([], 277))
      else if cs = 277 then Some (if c = 58 then ([], 280)
        else if c < 65 then (if 48 \<le> c \<and> c \<le> 57 then ([], 278)
          else ([], 0))
        else if c > 70 then (if 97 \<le> c \<and> c \<le> 102 then ([], 278)
          else ([], 0))
        else ([], 278))
      else if cs = 278 then Some (if c = 58 then ([], 280)
        else if c < 65 then (if 48 \<le> c \<and> c \<le> 57 then ([], 279)
          else ([], 0))
        else if c > 70 then (if 97 \<le> c \<and> c \<le> 102 then ([], 279)
          else ([], 0))
        else ([], 279))
      else if cs = 279 then Some (if c = 58 then ([], 280)
        else ([], 0))
      else None)"

definition http11_states_280_289 :: "bool \<Rightarrow> nat \<Rightarrow> int \<Rightarrow> http11_go option" where
  "http11_states_280_289 relaxed cs c =
     (if cs = 280 then Some (if c = 58 then ([], 339)
        else if c < 65 then (if 48 \<le> c \<and> c \<le> 57 then ([], 281)
          else ([], 0))
        else if c > 70 then (if 97 \<le> c \<and> c \<le> 102 then ([], 281)
          else ([], 0))
        else ([], 281))
      else if cs = 281 then Some (if c = 58 then ([], 285)
        else if c < 65 then (if 48 \<le> c \<and> c \<le> 57 then ([], 282)
          else ([], 0))
        else if c > 70 then (if 97 \<le> c \<and> c \<le> 102 then ([], 282)
          else ([], 0))
        else ([], 282))
      else if cs = 282 then Some (if c = 58 then ([], 285)
        else if c < 65 then (if 48 \<le> c \<and> c \<le> 57 then ([], 283)
          else ([], 0))
        else if c > 70 then (if 97 \<le> c \<and> c \<le> 102 then ([], 283)
          else ([], 0))
        else ([], 283))
      else if cs = 283 then Some (if c = 58 then ([], 285)
        else if c < 65 then (if 48 \<le> c \<and> c \<le> 57 then ([], 284)
          else ([], 0))
        else if c > 70 then (if 97 \<le> c \<and> c \<le> 102 then ([], 284)
          else ([], 0))
        else ([], 284))
      else if cs = 284 then Some (if c = 58 then ([], 285)
        else ([], 0))
      else if cs = 285 then Some (if c = 58 then ([], 338)
        else if c < 65 then (if 48 \<le> c \<and> c \<le> 57 then ([], 286)
          else ([], 0))
        else if c > 70 then (if 97 \<le> c \<and> c \<le> 102 then ([], 286)
          else ([], 0))
        else ([], 286))
      else if cs = 286 then Some (if c = 58 then ([], 290)
        else if c < 65 then (if 48 \<le> c \<and> c \<le> 57 then ([], 287)
          else ([], 0))
        else if c > 70 then (if 97 \<le> c \<and> c \<le> 102 then ([], 287)
          else ([], 0))
        else ([], 287))
      else if cs = 287 then Some (if c = 58 then ([], 290)
        else if c < 65 then (if 48 \<le> c \<and> c \<le> 57 then ([], 288)
          else ([], 0))
        else if c > 70 then (if 97 \<le> c \<and> c \<le> 102 then ([], 288)
          else ([], 0))
        else ([], 288))
      else if cs = 288 then Some (if c = 58 then ([], 290)
        else if c < 65 then (if 48 \<le> c \<and> c \<le> 57 then ([], 289)
          else ([], 0))
        else if c > 70 then (if 97 \<le> c \<and> c \<le> 102 then ([], 289)
          else ([], 0))
        else ([], 289))
      else if cs = 289 then Some (if c = 58 then ([], 290)
        else ([], 0))
      else None)"

definition http11_states_290_299 :: "bool \<Rightarrow> nat \<Rightarrow> int \<Rightarrow> http11_go option" where
  "http11_states_290_299 relaxed cs c =
     (if cs = 290 then Some (if c = 58 then ([], 326)
        else if c < 65 then (if 48 \<le> c \<and> c \<le> 57 then ([], 291)
          else ([], 0))
        else if c > 70 then (if 97 \<le> c \<and> c \<le> 102 then ([], 291)
          else ([], 0))
        else ([], 291))
      else if cs = 291 then Some (if c = 58 then ([], 295)
        else if c < 65 then (if 48 \<le> c \<and> c \<le> 57 then ([], 292)
          else ([], 0))
        else if c > 70 then (if 97 \<le> c \<and> c \<le> 102 then ([], 292)
          else ([], 0))
        else ([], 292))
      else if cs = 292 then Some (if c = 58 then ([], 295)
        else if c < 65 then (if 48 \<le> c \<and> c \<le> 57 then ([], 293)
          else ([], 0))
        else if c > 70 then (if 97 \<le> c \<and> c \<le> 102 then ([], 293)
          else ([], 0))
        else ([], 293))
      else if cs = 293 then Some (if c = 58 then ([], 295)
        else if c < 65 then (if 48 \<le> c \<and> c \<le> 57 then ([], 294)
          else ([], 0))
        else if c > 70 then (if 97 \<le> c \<and> c \<le> 102 then ([], 294)
          else ([], 0))
        else ([], 294))
      else if cs = 294 then Some (if c = 58 then ([], 295)
        else ([], 0))
      else if cs = 295 then Some (if c = 58 then ([], 325)
        else if c < 65 then (if 48 \<le> c \<and> c \<le> 57 then ([], 296)
          else ([], 0))
        else if c > 70 then (if 97 \<le> c \<and> c \<le> 102 then ([], 296)
          else ([], 0))
        else ([], 296))
      else if cs = 296 then Some (if c = 58 then ([], 300)
        else if c < 65 then (if 48 \<le> c \<and> c \<le> 57 then ([], 297)
          else ([], 0))
        else if c > 70 then (if 97 \<le> c \<and> c \<le> 102 then ([], 297)
          else ([], 0))
        else ([], 297))
      else if cs = 297 then Some (if c = 58 then ([], 300)
        else if c < 65 then (if 48 \<le> c \<and> c \<le> 57 then ([], 298)
          else ([], 0))
        else if c > 70 then (if 97 \<le> c \<and> c \<le> 102 then ([], 298)
          else ([], 0))
        else ([], 298))
      else if cs = 298 then Some (if c = 58 then ([], 300)
        else if c < 65 then (if 48 \<le> c \<and> c \<le> 57 then ([], 299)
          else ([], 0))
        else if c > 70 then (if 97 \<le> c \<and> c \<le> 102 then ([], 299)
          else ([], 0))
        else ([], 299))
      else if cs = 299 then Some (if c = 58 then ([], 300)
        else ([], 0))
      else None)"

definition http11_states_300_307 :: "bool \<Rightarrow> nat \<Rightarrow> int \<Rightarrow> http11_go option" where
  "http11_states_300_307 relaxed cs c =
     (if cs = 300 then Some (if c = 58 then ([], 301)
        else if c < 65 then (if 48 \<le> c \<and> c \<le> 57 then ([], 296)
          else ([], 0))
        else if c > 70 then (if 97 \<le> c \<and> c \<le> 102 then ([], 296)
          else ([], 0))
        else ([], 296))
      else if cs = 301 then Some (if c = 49 then ([], 318)
        else if c = 50 then ([], 321)
        else if c = 93 then ([], 236)
        else if c < 48 then (if 2 \<le> c \<and> c \<le> 3 then ([], 223)
          else ([], 0))
        else if c > 57 then (if c > 70 then (if 97 \<le> c \<and> c \<le> 102 then ([], 324)
            else ([], 0))
          else if c \<ge> 65 then ([], 324)
          else ([], 0))
        else ([], 302))
      else if cs = 302 then Some (if c = 46 then ([], 230)
        else if c = 58 then ([], 306)
        else if c = 93 then ([], 236)
        else if c < 65 then (if 48 \<le> c \<and> c \<le> 57 then ([], 303)
          else ([], 0))
        else if c > 70 then (if 97 \<le> c \<and> c \<le> 102 then ([], 303)
          else ([], 0))
        else ([], 303))
      else if cs = 303 then Some (if c = 58 then ([], 306)
        else if c = 93 then ([], 236)
        else if c < 65 then (if 48 \<le> c \<and> c \<le> 57 then ([], 304)
          else ([], 0))
        else if c > 70 then (if 97 \<le> c \<and> c \<le> 102 then ([], 304)
          else ([], 0))
        else ([], 304))
      else if cs = 304 then Some (if c = 58 then ([], 306)
        else if c = 93 then ([], 236)
        else if c < 65 then (if 48 \<le> c \<and> c \<le> 57 then ([], 305)
          else ([], 0))
        else if c > 70 then (if 97 \<le> c \<and> c \<le> 102 then ([], 305)
          else ([], 0))
        else ([], 305))
      else if cs = 305 then Some (if c = 58 then ([], 306)
        else if c = 93 then ([], 236)
        else ([], 0))
      else if cs = 306 then Some (if c = 49 then ([], 311)
        else if c = 50 then ([], 314)
        else if c < 65 then (if 48 \<le> c \<and> c \<le> 57 then ([], 307)
          else ([], 0))
        else if c > 70 then (if 97 \<le> c \<and> c \<le> 102 then ([], 317)
          else ([], 0))
        else ([], 317))
      else if cs = 307 then Some (if c = 46 then ([], 230)
        else if c = 58 then ([], 255)
        else if c = 93 then ([], 236)
        else if c < 65 then (if 48 \<le> c \<and> c \<le> 57 then ([], 308)
          else ([], 0))
        else if c > 70 then (if 97 \<le> c \<and> c \<le> 102 then ([], 308)
          else ([], 0))
        else ([], 308))
      else None)"

definition http11_states_308_315 :: "bool \<Rightarrow> nat \<Rightarrow> int \<Rightarrow> http11_go option" where
  "http11_states_308_315 relaxed cs c =
     (if cs = 308 then Some (if c = 58 then ([], 255)
        else if c = 93 then ([], 236)
        else if c < 65 then (if 48 \<le> c \<and> c \<le> 57 then ([], 309)
          else ([], 0))
        else if c > 70 then (if 97 \<le> c \<and> c \<le> 102 then ([], 309)
          else ([], 0))
        else ([], 309))
      else if cs = 309 then Some (if c = 58 then ([], 255)
        else if c = 93 then ([], 236)
        else if c < 65 then (if 48 \<le> c \<and> c \<le> 57 then ([], 310)
          else ([], 0))
        else if c > 70 then (if 97 \<le> c \<and> c \<le> 102 then ([], 310)
          else ([], 0))
        else ([], 310))
      else if cs = 310 then Some (if c = 58 then ([], 255)
        else if c = 93 then ([], 236)
        else ([], 0))
      else if cs = 311 then Some (if c = 46 then ([], 230)
        else if c = 58 then ([], 255)
        else if c = 93 then ([], 236)
        else if c < 65 then (if 48 \<le> c \<and> c \<le> 57 then ([], 312)
          else ([], 0))
        else if c > 70 then (if 97 \<le> c \<and> c \<le> 102 then ([], 308)
          else ([], 0))
        else ([], 308))
      else if cs = 312 then Some (if c = 46 then ([], 230)
        else if c = 58 then ([], 255)
        else if c = 93 then ([], 236)
        else if c < 65 then (if 48 \<le> c \<and> c \<le> 57 then ([], 313)
          else ([], 0))
        else if c > 70 then (if 97 \<le> c \<and> c \<le> 102 then ([], 309)
          else ([], 0))
        else ([], 309))
      else if cs = 313 then Some (if c = 46 then ([], 230)
        else if c = 58 then ([], 255)
        else if c = 93 then ([], 236)
        else if c < 65 then (if 48 \<le> c \<and> c \<le> 57 then ([], 310)
          else ([], 0))
        else if c > 70 then (if 97 \<le> c \<and> c \<le> 102 then ([], 310)
          else ([], 0))
        else ([], 310))
      else if cs = 314 then Some (if c = 46 then ([], 230)
        else if c = 48 then ([], 315)
        else if c = 53 then ([], 316)
        else if c = 58 then ([], 255)
        else if c = 93 then ([], 236)
        else if c < 65 then (if 49 \<le> c \<and> c \<le> 57 then ([], 308)
          else ([], 0))
        else if c > 70 then (if 97 \<le> c \<and> c \<le> 102 then ([], 308)
          else ([], 0))
        else ([], 308))
      else if cs = 315 then Some (if c = 58 then ([], 255)
        else if c = 93 then ([], 236)
        else if c < 65 then (if 48 \<le> c \<and> c \<le> 57 then ([], 313)
          else ([], 0))
        else if c > 70 then (if 97 \<le> c \<and> c \<le> 102 then ([], 309)
          else ([], 0))
        else ([], 309))
      else None)"

definition http11_states_316_323 :: "bool \<Rightarrow> nat \<Rightarrow> int \<Rightarrow> http11_go option" where
  "http11_states_316_323 relaxed cs c =
     (if cs = 316 then Some (if c = 48 then ([], 313)
        else if c = 58 then ([], 255)
        else if c = 93 then ([], 236)
        else if c < 65 then (if 49 \<le> c \<and> c \<le> 57 then ([], 309)
          else ([], 0))
        else if c > 70 then (if 97 \<le> c \<and> c \<le> 102 then ([], 309)
          else ([], 0))
        else ([], 309))
      else if cs = 317 then Some (if c = 58 then ([], 255)
        else if c = 93 then ([], 236)
        else if c < 65 then (if 48 \<le> c \<and> c \<le> 57 then ([], 308)
          else ([], 0))
        else if c > 70 then (if 97 \<le> c \<and> c \<le> 102 then ([], 308)
          else ([], 0))
        else ([], 308))
      else if cs = 318 then Some (if c = 46 then ([], 230)
        else if c = 58 then ([], 306)
        else if c = 93 then ([], 236)
        else if c < 65 then (if 48 \<le> c \<and> c \<le> 57 then ([], 319)
          else ([], 0))
        else if c > 70 then (if 97 \<le> c \<and> c \<le> 102 then ([], 303)
          else ([], 0))
        else ([], 303))
      else if cs = 319 then Some (if c = 46 then ([], 230)
        else if c = 58 then ([], 306)
        else if c = 93 then ([], 236)
        else if c < 65 then (if 48 \<le> c \<and> c \<le> 57 then ([], 320)
          else ([], 0))
        else if c > 70 then (if 97 \<le> c \<and> c \<le> 102 then ([], 304)
          else ([], 0))
        else ([], 304))
      else if cs = 320 then Some (if c = 46 then ([], 230)
        else if c = 58 then ([], 306)
        else if c = 93 then ([], 236)
        else if c < 65 then (if 48 \<le> c \<and> c \<le> 57 then ([], 305)
          else ([], 0))
        else if c > 70 then (if 97 \<le> c \<and> c \<le> 102 then ([], 305)
          else ([], 0))
        else ([], 305))
      else if cs = 321 then Some (if c = 46 then ([], 230)
        else if c = 48 then ([], 322)
        else if c = 53 then ([], 323)
        else if c = 58 then ([], 306)
        else if c = 93 then ([], 236)
        else if c < 65 then (if 49 \<le> c \<and> c \<le> 57 then ([], 303)
          else ([], 0))
        else if c > 70 then (if 97 \<le> c \<and> c \<le> 102 then ([], 303)
          else ([], 0))
        else ([], 303))
      else if cs = 322 then Some (if c = 58 then ([], 306)
        else if c = 93 then ([], 236)
        else if c < 65 then (if 48 \<le> c \<and> c \<le> 57 then ([], 320)
          else ([], 0))
        else if c > 70 then (if 97 \<le> c \<and> c \<le> 102 then ([], 304)
          else ([], 0))
        else ([], 304))
      else if cs = 323 then Some (if c = 48 then ([], 320)
        else if c = 58 then ([], 306)
        else if c = 93 then ([], 236)
        else if c < 65 then (if 49 \<le> c \<and> c \<le> 57 then ([], 304)
          else ([], 0))
        else if c > 70 then (if 97 \<le> c \<and> c \<le> 102 then ([], 304)
          else ([], 0))
        else ([], 304))
      else None)"

definition http11_states_324_332 :: "bool \<Rightarrow> nat \<Rightarrow> int \<Rightarrow> http11_go option" where
  "http11_states_324_332 relaxed cs c =
     (if cs = 324 then Some (if c = 58 then ([], 306)
        else if c = 93 then ([], 236)
        else if c < 65 then (if 48 \<le> c \<and> c \<le> 57 then ([], 303)
          else ([], 0))
        else if c > 70 then (if 97 \<le> c \<and> c \<le> 102 then ([], 303)
          else ([], 0))
        else ([], 303))
      else if cs = 325 then Some (if c = 49 then ([], 318)
        else if c = 50 then ([], 321)
        else if c < 48 then (if 2 \<le> c \<and> c \<le> 3 then ([], 223)
          else ([], 0))
        else if c > 57 then (if c > 70 then (if 97 \<le> c \<and> c \<le> 102 then ([], 324)
            else ([], 0))
          else if c \<ge> 65 then ([], 324)
          else ([], 0))
        else ([], 302))
      else if cs = 326 then Some (if c = 49 then ([], 331)
        else if c = 50 then ([], 334)
        else if c < 48 then (if 2 \<le> c \<and> c \<le> 3 then ([], 223)
          else ([], 0))
        else if c > 57 then (if c > 70 then (if 97 \<le> c \<and> c \<le> 102 then ([], 337)
            else ([], 0))
          else if c \<ge> 65 then ([], 337)
          else ([], 0))
        else ([], 327))
      else if cs = 327 then Some (if c = 46 then ([], 230)
        else if c = 58 then ([], 306)
        else if c < 65 then (if 48 \<le> c \<and> c \<le> 57 then ([], 328)
          else ([], 0))
        else if c > 70 then (if 97 \<le> c \<and> c \<le> 102 then ([], 328)
          else ([], 0))
        else ([], 328))
      else if cs = 328 then Some (if c = 58 then ([], 306)
        else if c < 65 then (if 48 \<le> c \<and> c \<le> 57 then ([], 329)
          else ([], 0))
        else if c > 70 then (if 97 \<le> c \<and> c \<le> 102 then ([], 329)
          else ([], 0))
        else ([], 329))
      else if cs = 329 then Some (if c = 58 then ([], 306)
        else if c < 65 then (if 48 \<le> c \<and> c \<le> 57 then ([], 330)
          else ([], 0))
        else if c > 70 then (if 97 \<le> c \<and> c \<le> 102 then ([], 330)
          else ([], 0))
        else ([], 330))
      else if cs = 330 then Some (if c = 58 then ([], 306)
        else ([], 0))
      else if cs = 331 then Some (if c = 46 then ([], 230)
        else if c = 58 then ([], 306)
        else if c < 65 then (if 48 \<le> c \<and> c \<le> 57 then ([], 332)
          else ([], 0))
        else if c > 70 then (if 97 \<le> c \<and> c \<le> 102 then ([], 328)
          else ([], 0))
        else ([], 328))
      else if cs = 332 then Some (if c = 46 then ([], 230)
        else if c = 58 then ([], 306)
        else if c < 65 then (if 48 \<le> c \<and> c \<le> 57 then ([], 333)
          else ([], 0))
        else if c > 70 then (if 97 \<le> c \<and> c \<le> 102 then ([], 329)
          else ([], 0))
        else ([], 329))
      else None)"

definition http11_states_333_343 :: "bool \<Rightarrow> nat \<Rightarrow> int \<Rightarrow> http11_go option" where
  "http11_states_333_343 relaxed cs c =
     (if cs = 333 then Some (if c = 46 then ([], 230)
        else if c = 58 then ([], 306)
        else if c < 65 then (if 48 \<le> c \<and> c \<le> 57 then ([], 330)
          else ([], 0))
        else if c > 70 then (if 97 \<le> c \<and> c \<le> 102 then ([], 330)
          else ([], 0))
        else ([], 330))
      else if cs = 334 then Some (if c = 46 then ([], 230)
        else if c = 48 then ([], 335)
        else if c = 53 then ([], 336)
        else if c = 58 then ([], 306)
        else if c < 65 then (if 49 \<le> c \<and> c \<le> 57 then ([], 328)
          else ([], 0))
        else if c > 70 then (if 97 \<le> c \<and> c \<le> 102 then ([], 328)
          else ([], 0))
        else ([], 328))
      else if cs = 335 then Some (if c = 58 then ([], 306)
        else if c < 65 then (if 48 \<le> c \<and> c \<le> 57 then ([], 333)
          else ([], 0))
        else if c > 70 then (if 97 \<le> c \<and> c \<le> 102 then ([], 329)
          else ([], 0))
        else ([], 329))
      else if cs = 336 then Some (if c = 48 then ([], 333)
        else if c = 58 then ([], 306)
        else if c < 65 then (if 49 \<le> c \<and> c \<le> 57 then ([], 329)
          else ([], 0))
        else if c > 70 then (if 97 \<le> c \<and> c \<le> 102 then ([], 329)
          else ([], 0))
        else ([], 329))
      else if cs = 337 then Some (if c = 58 then ([], 306)
        else if c < 65 then (if 48 \<le> c \<and> c \<le> 57 then ([], 328)
          else ([], 0))
        else if c > 70 then (if 97 \<le> c \<and> c \<le> 102 then ([], 328)
          else ([], 0))
        else ([], 328))
      else if cs = 338 then Some (if c < 48 then (if 2 \<le> c \<and> c \<le> 3 then ([], 223)
          else ([], 0))
        else if c > 57 then (if c > 70 then (if 97 \<le> c \<and> c \<le> 102 then ([], 224)
            else ([], 0))
          else if c \<ge> 65 then ([], 224)
          else ([], 0))
        else ([], 224))
      else if cs = 339 then Some (if 2 \<le> c \<and> c \<le> 3 then ([], 223)
        else ([], 0))
      else if cs = 340 then Some (if c = 3 then ([], 223)
        else ([], 0))
      else if cs = 341 then Some (if c = 4 then ([], 223)
        else ([], 0))
      else if cs = 342 then Some (if c = 58 then ([], 343)
        else ([], 0))
      else if cs = 343 then Some (if c = 49 then ([], 318)
        else if c = 50 then ([], 321)
        else if c = 93 then ([], 236)
        else if c < 48 then (if 2 \<le> c \<and> c \<le> 5 then ([], 223)
          else ([], 0))
        else if c > 57 then (if c > 70 then (if 97 \<le> c \<and> c \<le> 102 then ([], 324)
            else ([], 0))
          else if c \<ge> 65 then ([], 324)
          else ([], 0))
        else ([], 302))
      else None)"

definition http11_states_344_347 :: "bool \<Rightarrow> nat \<Rightarrow> int \<Rightarrow> http11_go option" where
  "http11_states_344_347 relaxed cs c =
     (if cs = 344 then Some (if c < 65 then (if 48 \<le> c \<and> c \<le> 57 then ([], 345)
          else ([], 0))
        else if c > 70 then (if 97 \<le> c \<and> c \<le> 102 then ([], 345)
          else ([], 0))
        else ([], 345))
      else if cs = 345 then Some (if c = 46 then ([], 346)
        else if c < 65 then (if 48 \<le> c \<and> c \<le> 57 then ([], 345)
          else ([], 0))
        else if c > 70 then (if 97 \<le> c \<and> c \<le> 102 then ([], 345)
          else ([], 0))
        else ([], 345))
      else if cs = 346 then Some (let w = http11_widec relaxed c in
        if w \<in> {33, 36, 61, 95, 126, 606, 635, 637} then ([], 347)
        else if w < 48 then (if 38 \<le> w \<and> w \<le> 46 then ([], 347)
          else ([], 0))
        else if w > 59 then (if w > 90 then (if 97 \<le> w \<and> w \<le> 122 then ([], 347)
            else ([], 0))
          else if w \<ge> 65 then ([], 347)
          else ([], 0))
        else ([], 347))
      else if cs = 347 then Some (let w = http11_widec relaxed c in
        if w \<in> {33, 36, 61, 95, 126, 606, 635, 637} then ([], 347)
        else if w = 93 then ([], 236)
        else if w < 48 then (if 38 \<le> w \<and> w \<le> 46 then ([], 347)
          else ([], 0))
        else if w > 59 then (if w > 90 then (if 97 \<le> w \<and> w \<le> 122 then ([], 347)
            else ([], 0))
          else if w \<ge> 65 then ([], 347)
          else ([], 0))
        else ([], 347))
      else None)"

definition http11_trans :: "bool \<Rightarrow> nat \<Rightarrow> int \<Rightarrow> http11_go option" where
  "http11_trans relaxed cs c =
     (if cs = 348 then http11_states_17_18 relaxed cs c
      else if cs = 349 then http11_states_349_201 relaxed cs c
      else if cs \<le> 152 then (if cs \<le> 38 then (if cs \<le> 19 then (if cs \<le> 12 then (if cs \<le> 3 then (http11_states_1_3 relaxed cs c)
              else http11_states_4_12 relaxed cs c)
            else if cs \<le> 16 then (http11_states_13_16 relaxed cs c)
            else if cs \<le> 18 then (http11_states_17_18 relaxed cs c)
            else http11_states_19_19 relaxed cs c)
          else if cs \<le> 28 then (if cs \<le> 20 then (http11_states_20_20 relaxed cs c)
            else if cs \<le> 25 then (http11_states_21_25 relaxed cs c)
            else http11_states_26_28 relaxed cs c)
          else if cs \<le> 31 then (http11_states_29_31 relaxed cs c)
          else if cs \<le> 34 then (http11_states_32_34 relaxed cs c)
          else http11_states_35_38 relaxed cs c)
        else if cs \<le> 97 then (if cs \<le> 62 then (if cs \<le> 42 then (http11_states_39_42 relaxed cs c)
            else if cs \<le> 49 then (http11_states_43_49 relaxed cs c)
            else http11_states_50_62 relaxed cs c)
          else if cs \<le> 78 then (http11_states_63_78 relaxed cs c)
          else if cs \<le> 87 then (http11_states_79_87 relaxed cs c)
          else http11_states_88_97 relaxed cs c)
        else if cs \<le> 127 then (if cs \<le> 107 then (http11_states_98_107 relaxed cs c)
          else if cs \<le> 117 then (http11_states_108_117 relaxed cs c)
          else http11_states_118_127 relaxed cs c)
        else if cs \<le> 136 then (http11_states_128_136 relaxed cs c)
        else if cs \<le> 144 then (http11_states_137_144 relaxed cs c)
        else http11_states_145_152 relaxed cs c)
      else if cs \<le> 232 then (if cs \<le> 197 then (if cs \<le> 172 then (if cs \<le> 161 then (http11_states_153_161 relaxed cs c)
            else if cs \<le> 170 then (http11_states_162_170 relaxed cs c)
            else http11_states_171_172 relaxed cs c)
          else if cs \<le> 177 then (http11_states_173_177 relaxed cs c)
          else if cs \<le> 189 then (http11_states_178_189 relaxed cs c)
          else http11_states_190_197 relaxed cs c)
        else if cs \<le> 210 then (if cs \<le> 201 then (http11_states_349_201 relaxed cs c)
          else if cs \<le> 207 then (http11_states_202_207 relaxed cs c)
          else http11_states_208_210 relaxed cs c)
        else if cs \<le> 215 then (http11_states_211_215 relaxed cs c)
        else if cs \<le> 221 then (http11_states_216_221 relaxed cs c)
        else http11_states_222_232 relaxed cs c)
      else if cs \<le> 299 then (if cs \<le> 269 then (if cs \<le> 249 then (http11_states_233_249 relaxed cs c)
          else if cs \<le> 260 then (http11_states_250_260 relaxed cs c)
          else http11_states_261_269 relaxed cs c)
        else if cs \<le> 279 then (http11_states_270_279 relaxed cs c)
        else if cs \<le> 289 then (http11_states_280_289 relaxed cs c)
        else http11_states_290_299 relaxed cs c)
      else if cs \<le> 323 then (if cs \<le> 307 then (http11_states_300_307 relaxed cs c)
        else if cs \<le> 315 then (http11_states_308_315 relaxed cs c)
        else http11_states_316_323 relaxed cs c)
      else if cs \<le> 332 then (http11_states_324_332 relaxed cs c)
      else if cs \<le> 343 then (http11_states_333_343 relaxed cs c)
      else http11_states_344_347 relaxed cs c)"

end
