(* ===== verification/Http11_Parser.thy ===== *)
theory Http11_Parser
  imports Http11_Table
begin

text \<open>
  \<open>radixun/http/http11_parser.rl.cc\<close>: the functions around the generated table.

  \<^item> a position \<open>p\<close> is an index into the buffer, \<open>pe\<close> its length; \<open>LEN\<close> is the wrapping \<open>size_t\<close> difference;
  \<^item> the \<open>exec\<close> section is \<open>run_machine\<close> on \<open>http11_machine\<close>, with the callbacks as its handler \<open>h\<close>;
  \<^item> \<open>http_parser_init\<close> leaves \<open>query_start\<close> and \<open>uri_relaxed\<close> as they are in the argument.
\<close>

record http_parser =
  hp_cs :: nat
  hp_body_start :: nat
  hp_content_len :: int
  hp_nread :: nat
  hp_mark :: nat
  hp_field_start :: nat
  hp_field_len :: nat
  hp_query_start :: nat
  hp_xml_sent :: bool
  hp_json_sent :: bool
  hp_uri_relaxed :: bool

datatype http_element =
    RequestMethod | RequestUri | Fragment | RequestPath | QueryString | HttpVersion | HeaderDone

datatype http_event = Element http_element nat nat | HttpField nat nat nat nat

definition http_parser_init :: "http_parser \<Rightarrow> http_parser" where
  "http_parser_init hp =
     hp\<lparr>hp_cs := http_parser_start, hp_body_start := 0, hp_content_len := 0, hp_mark := 0, hp_nread := 0,
        hp_field_len := 0, hp_field_start := 0, hp_xml_sent := False, hp_json_sent := False\<rparr>"

definition http_parser_has_error :: "http_parser \<Rightarrow> bool" where
  "http_parser_has_error hp \<longleftrightarrow> hp_cs hp = http_parser_error"

definition http_parser_is_finished :: "http_parser \<Rightarrow> bool" where
  "http_parser_is_finished hp \<longleftrightarrow> hp_cs hp \<ge> http_parser_first_final"

definition http_parser_finish :: "http_parser \<Rightarrow> int" where
  "http_parser_finish hp =
     (if http_parser_has_error hp then - 1 else if http_parser_is_finished hp then 1 else 0)"

section \<open>Actions\<close>

text \<open>One action at position \<open>p\<close>: the event it reports, if any, and the parser after it.\<close>

fun http11_do :: "nat \<Rightarrow> nat \<Rightarrow> http11_act \<Rightarrow> http_parser \<Rightarrow> http_event option \<times> http_parser" where
  "http11_do pe p HMark hp = (None, hp\<lparr>hp_mark := p\<rparr>)"
| "http11_do pe p HStartField hp = (None, hp\<lparr>hp_field_start := p\<rparr>)"
| "http11_do pe p HWriteField hp = (None, hp\<lparr>hp_field_len := size_sub p (hp_field_start hp)\<rparr>)"
| "http11_do pe p HStartQuery hp = (None, hp\<lparr>hp_query_start := p\<rparr>)"
| "http11_do pe p HRequestMethod hp = (Some (Element RequestMethod (hp_mark hp) (size_sub p (hp_mark hp))), hp)"
| "http11_do pe p HRequestUri hp = (Some (Element RequestUri (hp_mark hp) (size_sub p (hp_mark hp))), hp)"
| "http11_do pe p HFragment hp = (Some (Element Fragment (hp_mark hp) (size_sub p (hp_mark hp))), hp)"
| "http11_do pe p HQueryString hp =
     (Some (Element QueryString (hp_query_start hp) (size_sub p (hp_query_start hp))), hp)"
| "http11_do pe p HHttpVersion hp = (Some (Element HttpVersion (hp_mark hp) (size_sub p (hp_mark hp))), hp)"
| "http11_do pe p HRequestPath hp = (Some (Element RequestPath (hp_mark hp) (size_sub p (hp_mark hp))), hp)"
| "http11_do pe p HWriteValue hp =
     (Some (HttpField (hp_field_start hp) (hp_field_len hp) (hp_mark hp) (size_sub p (hp_mark hp))), hp)"
| "http11_do pe p HXml hp = (None, hp\<lparr>hp_xml_sent := True\<rparr>)"
| "http11_do pe p HJson hp = (None, hp\<lparr>hp_json_sent := True\<rparr>)"
| "http11_do pe p HDone hp =
     (if hp_xml_sent hp \<or> hp_json_sent hp
      then (None, hp\<lparr>hp_body_start := hp_mark hp, hp_content_len := to_int (size_add (size_sub p (hp_mark hp)) 1)\<rparr>)
      else (Some (Element HeaderDone (p + 1) (size_sub pe (p + 1))), hp\<lparr>hp_body_start := p + 1\<rparr>))"

definition http11_machine :: "(http11_act, http_parser, http_event) machine" where
  "http11_machine =
     \<lparr>m_trans = (\<lambda>hp. http11_trans (hp_uri_relaxed hp)), m_do = http11_do, m_break = (\<lambda>a. a = HDone)\<rparr>"

lemma http11_machine_simps [simp]:
  "m_trans http11_machine hp = http11_trans (hp_uri_relaxed hp)" "m_do http11_machine = http11_do"
  "m_break http11_machine a \<longleftrightarrow> a = HDone"
  by (simp_all add: http11_machine_def)

section \<open>Execution\<close>

definition http_parser_execute :: "(http_event, 'd) sink \<Rightarrow> http_parser \<Rightarrow> string \<Rightarrow> nat \<Rightarrow> 'd
    \<Rightarrow> (nat \<times> http_parser \<times> 'd) outcome" where
  "http_parser_execute h hp buf off d =
     (let len = length buf
      in if len = 0 then Ret (0, hp, d)
         else let hp0 = hp\<lparr>hp_nread := 0, hp_mark := 0, hp_field_len := 0, hp_field_start := 0\<rparr>
              in if \<not> off \<le> len \<or> int (len - off) \<noteq> to_int len - to_int off then Fault AssertFail
                 else obind (run_machine http11_machine h buf off (hp_cs hp0) hp0 d) (\<lambda>(cs, p, hp1, d1).
                   let hp2 = (if \<not> http_parser_has_error hp1 then hp1\<lparr>hp_cs := cs\<rparr> else hp1);
                       hp3 = hp2\<lparr>hp_nread := hp_nread hp2 + (p - off)\<rparr>
                   in if hp_nread hp3 \<le> len \<and> hp_body_start hp3 \<le> len \<and> hp_mark hp3 < len
                         \<and> hp_field_len hp3 \<le> len \<and> hp_field_start hp3 < len
                      then Ret (hp_nread hp3, hp3, d1) else Fault AssertFail))"

lemma http_parser_execute_deliver:
  assumes "http_parser_execute log_handler hp buf off [] = Ret (n, hp', es)"
  shows "http_parser_execute h hp buf off d = obind (deliver h es d) (\<lambda>d'. Ret (n, hp', d' :: 'd))"
proof (cases "length buf = 0")
  case True
  then show ?thesis using assms by (auto simp: http_parser_execute_def)
next
  case False
  let ?hp = "hp\<lparr>hp_nread := 0, hp_mark := 0, hp_field_len := 0, hp_field_start := 0\<rparr>"
  obtain cs' p' hp1 es1 where l: "\<And>es0. run_machine http11_machine log_handler buf off (hp_cs ?hp) ?hp es0 = Ret (cs', p', hp1, es0 @ es1)"
      "\<And>h d. run_machine http11_machine h buf off (hp_cs ?hp) ?hp d = obind (deliver h es1 d) (\<lambda>d'. Ret (cs', p', hp1, d' :: 'd))"
    using run_machine_deliver by metis
  show ?thesis using assms False l
    by (auto simp: http_parser_execute_def Let_def obind_assoc split: if_splits)
qed

end
