(* ===== verification/Http11_Phases.thy ===== *)
theory Http11_Phases
  imports Http11_Table
begin

text \<open>
  The order in which the generated request parser performs its actions, and the certificate that its table
  keeps to it.

  \<^item> \<open>http11_order\<close> is the abstract protocol: which action may follow in which phase of a request;
  \<^item> \<open>phase_of\<close> assigns each state the phase the parser is in; \<open>http11_table_ordered\<close> checks every
    transition of the table against it.
\<close>

datatype phase =
    PStart | PMethod | PPath | PQuery | PQueryDone | PUri | PHeaders | PField | PName | PSocket | PSocketEnd | PDone

fun http11_order :: "phase \<Rightarrow> http11_act \<Rightarrow> phase option" where
  "http11_order ph HMark = Some ph"
| "http11_order ph HRequestMethod = (if ph = PStart then Some PMethod else None)"
| "http11_order ph HRequestPath =
     (if ph = PMethod then Some PPath else if ph = PStart then Some PSocket else None)"
| "http11_order ph HStartQuery = (if ph = PPath then Some PQuery else None)"
| "http11_order ph HQueryString = (if ph = PQuery then Some PQueryDone else None)"
| "http11_order ph HRequestUri = (if ph = PPath \<or> ph = PQueryDone then Some PUri else None)"
| "http11_order ph HFragment = (if ph = PUri then Some PUri else None)"
| "http11_order ph HHttpVersion = (if ph = PUri then Some PHeaders else None)"
| "http11_order ph HStartField = (if ph = PHeaders then Some PField else None)"
| "http11_order ph HWriteField = (if ph = PField then Some PName else None)"
| "http11_order ph HWriteValue = (if ph = PName then Some PHeaders else None)"
| "http11_order ph HXml = (if ph = PSocket then Some PSocketEnd else None)"
| "http11_order ph HJson = (if ph = PSocket then Some PSocketEnd else None)"
| "http11_order ph HDone = (if ph \<in> {PHeaders, PField, PSocketEnd} then Some PDone else None)"

definition phase_of :: "nat \<Rightarrow> phase" where
  "phase_of cs =
     (if cs \<le> 2 then PStart else if cs \<le> 3 then PMethod else if cs \<le> 12 then PUri
      else if cs \<le> 13 then PHeaders else if cs \<le> 14 then PField else if cs \<le> 16 then PName
      else if cs \<le> 17 then PHeaders else if cs \<le> 18 then PField else if cs \<le> 19 then PMethod
      else if cs \<le> 23 then PUri else if cs \<le> 28 then PMethod else if cs \<le> 29 then PPath
      else if cs \<le> 32 then PQuery else if cs \<le> 174 then PMethod else if cs \<le> 195 then PStart
      else if cs \<le> 197 then PSocket else if cs \<le> 198 then PStart else if cs \<le> 201 then PSocket
      else if cs \<le> 347 then PStart else PDone)"

abbreviation fits :: "nat \<Rightarrow> http11_go option \<Rightarrow> bool" where
  "fits \<equiv> opt_fits http11_order (\<lambda>a. a = HDone) phase_of http_parser_first_final"

lemmas go_eval = go_fits_def phase_of_def http_parser_first_final_def

lemma ordered_1: "fits cs (http11_states_1_3 relaxed cs c)"
  unfolding http11_states_1_3_def by (intro go_rules; simp add: go_eval)

lemma ordered_2: "fits cs (http11_states_4_12 relaxed cs c)"
  unfolding http11_states_4_12_def by (intro go_rules; simp add: go_eval)

lemma ordered_3: "fits cs (http11_states_13_16 relaxed cs c)"
  unfolding http11_states_13_16_def by (intro go_rules; simp add: go_eval)

lemma ordered_4: "fits cs (http11_states_17_18 relaxed cs c)"
  unfolding http11_states_17_18_def by (intro go_rules; simp add: go_eval)

lemma ordered_5: "fits cs (http11_states_19_19 relaxed cs c)"
  unfolding http11_states_19_19_def by (intro go_rules; simp add: go_eval)

lemma ordered_6: "fits cs (http11_states_20_20 relaxed cs c)"
  unfolding http11_states_20_20_def by (intro go_rules; simp add: go_eval)

lemma ordered_7: "fits cs (http11_states_21_25 relaxed cs c)"
  unfolding http11_states_21_25_def by (intro go_rules; simp add: go_eval)

lemma ordered_8: "fits cs (http11_states_26_28 relaxed cs c)"
  unfolding http11_states_26_28_def by (intro go_rules; simp add: go_eval)

lemma ordered_9: "fits cs (http11_states_29_31 relaxed cs c)"
  unfolding http11_states_29_31_def by (intro go_rules; simp add: go_eval)

lemma ordered_10: "fits cs (http11_states_32_34 relaxed cs c)"
  unfolding http11_states_32_34_def by (intro go_rules; simp add: go_eval)

lemma ordered_11: "fits cs (http11_states_35_38 relaxed cs c)"
  unfolding http11_states_35_38_def by (intro go_rules; simp add: go_eval)

lemma ordered_12: "fits cs (http11_states_39_42 relaxed cs c)"
  unfolding http11_states_39_42_def by (intro go_rules; simp add: go_eval)

lemma ordered_13: "fits cs (http11_states_43_49 relaxed cs c)"
  unfolding http11_states_43_49_def by (intro go_rules; simp add: go_eval)

lemma ordered_14: "fits cs (http11_states_50_62 relaxed cs c)"
  unfolding http11_states_50_62_def by (intro go_rules; simp add: go_eval)

lemma ordered_15: "fits cs (http11_states_63_78 relaxed cs c)"
  unfolding http11_states_63_78_def by (intro go_rules; simp add: go_eval)

lemma ordered_16: "fits cs (http11_states_79_87 relaxed cs c)"
  unfolding http11_states_79_87_def by (intro go_rules; simp add: go_eval)

lemma ordered_17: "fits cs (http11_states_88_97 relaxed cs c)"
  unfolding http11_states_88_97_def by (intro go_rules; simp add: go_eval)

lemma ordered_18: "fits cs (http11_states_98_107 relaxed cs c)"
  unfolding http11_states_98_107_def by (intro go_rules; simp add: go_eval)

lemma ordered_19: "fits cs (http11_states_108_117 relaxed cs c)"
  unfolding http11_states_108_117_def by (intro go_rules; simp add: go_eval)

lemma ordered_20: "fits cs (http11_states_118_127 relaxed cs c)"
  unfolding http11_states_118_127_def by (intro go_rules; simp add: go_eval)

lemma ordered_21: "fits cs (http11_states_128_136 relaxed cs c)"
  unfolding http11_states_128_136_def by (intro go_rules; simp add: go_eval)

lemma ordered_22: "fits cs (http11_states_137_144 relaxed cs c)"
  unfolding http11_states_137_144_def by (intro go_rules; simp add: go_eval)

lemma ordered_23: "fits cs (http11_states_145_152 relaxed cs c)"
  unfolding http11_states_145_152_def by (intro go_rules; simp add: go_eval)

lemma ordered_24: "fits cs (http11_states_153_161 relaxed cs c)"
  unfolding http11_states_153_161_def by (intro go_rules; simp add: go_eval)

lemma ordered_25: "fits cs (http11_states_162_170 relaxed cs c)"
  unfolding http11_states_162_170_def by (intro go_rules; simp add: go_eval)

lemma ordered_26: "fits cs (http11_states_171_172 relaxed cs c)"
  unfolding http11_states_171_172_def by (intro go_rules; simp add: go_eval)

lemma ordered_27: "fits cs (http11_states_173_177 relaxed cs c)"
  unfolding http11_states_173_177_def by (intro go_rules; simp add: go_eval)

lemma ordered_28: "fits cs (http11_states_178_189 relaxed cs c)"
  unfolding http11_states_178_189_def by (intro go_rules; simp add: go_eval)

lemma ordered_29: "fits cs (http11_states_190_197 relaxed cs c)"
  unfolding http11_states_190_197_def by (intro go_rules; simp add: go_eval)

lemma ordered_30: "fits cs (http11_states_349_201 relaxed cs c)"
  unfolding http11_states_349_201_def by (intro go_rules; simp add: go_eval)

lemma ordered_31: "fits cs (http11_states_202_207 relaxed cs c)"
  unfolding http11_states_202_207_def by (intro go_rules; simp add: go_eval)

lemma ordered_32: "fits cs (http11_states_208_210 relaxed cs c)"
  unfolding http11_states_208_210_def by (intro go_rules; simp add: go_eval)

lemma ordered_33: "fits cs (http11_states_211_215 relaxed cs c)"
  unfolding http11_states_211_215_def by (intro go_rules; simp add: go_eval)

lemma ordered_34: "fits cs (http11_states_216_221 relaxed cs c)"
  unfolding http11_states_216_221_def by (intro go_rules; simp add: go_eval)

lemma ordered_35: "fits cs (http11_states_222_232 relaxed cs c)"
  unfolding http11_states_222_232_def by (intro go_rules; simp add: go_eval)

lemma ordered_36: "fits cs (http11_states_233_249 relaxed cs c)"
  unfolding http11_states_233_249_def by (intro go_rules; simp add: go_eval)

lemma ordered_37: "fits cs (http11_states_250_260 relaxed cs c)"
  unfolding http11_states_250_260_def by (intro go_rules; simp add: go_eval)

lemma ordered_38: "fits cs (http11_states_261_269 relaxed cs c)"
  unfolding http11_states_261_269_def by (intro go_rules; simp add: go_eval)

lemma ordered_39: "fits cs (http11_states_270_279 relaxed cs c)"
  unfolding http11_states_270_279_def by (intro go_rules; simp add: go_eval)

lemma ordered_40: "fits cs (http11_states_280_289 relaxed cs c)"
  unfolding http11_states_280_289_def by (intro go_rules; simp add: go_eval)

lemma ordered_41: "fits cs (http11_states_290_299 relaxed cs c)"
  unfolding http11_states_290_299_def by (intro go_rules; simp add: go_eval)

lemma ordered_42: "fits cs (http11_states_300_307 relaxed cs c)"
  unfolding http11_states_300_307_def by (intro go_rules; simp add: go_eval)

lemma ordered_43: "fits cs (http11_states_308_315 relaxed cs c)"
  unfolding http11_states_308_315_def by (intro go_rules; simp add: go_eval)

lemma ordered_44: "fits cs (http11_states_316_323 relaxed cs c)"
  unfolding http11_states_316_323_def by (intro go_rules; simp add: go_eval)

lemma ordered_45: "fits cs (http11_states_324_332 relaxed cs c)"
  unfolding http11_states_324_332_def by (intro go_rules; simp add: go_eval)

lemma ordered_46: "fits cs (http11_states_333_343 relaxed cs c)"
  unfolding http11_states_333_343_def by (intro go_rules; simp add: go_eval)

lemma ordered_47: "fits cs (http11_states_344_347 relaxed cs c)"
  unfolding http11_states_344_347_def by (intro go_rules; simp add: go_eval)

text \<open>Every transition of the table keeps the order.\<close>

lemma http11_table_ordered: "fits cs (http11_trans relaxed cs c)"
  unfolding http11_trans_def
  by (intro opt_fits_if
    ordered_1 ordered_2 ordered_3 ordered_4 ordered_5 ordered_6 ordered_7 ordered_8 ordered_9 ordered_10 ordered_11 ordered_12 ordered_13 ordered_14 ordered_15 ordered_16 ordered_17 ordered_18 ordered_19 ordered_20 ordered_21 ordered_22 ordered_23 ordered_24 ordered_25 ordered_26 ordered_27 ordered_28 ordered_29 ordered_30 ordered_31 ordered_32 ordered_33 ordered_34 ordered_35 ordered_36 ordered_37 ordered_38 ordered_39 ordered_40 ordered_41 ordered_42 ordered_43 ordered_44 ordered_45 ordered_46 ordered_47)

end
