(* ===== verification/Http11_Safety.thy ===== *)
theory Http11_Safety
  imports Http11_Parser Http11_Phases
begin

text \<open>
  What one execution of \<open>radixun/http/http11_parser.rl.cc\<close> guarantees, from the certificate of its table:

  \<^item> the positions it keeps and the pieces it reports lie in the buffer, so its assertions hold;
  \<^item> the events it reports follow \<open>event_step\<close>, the order of a request as its callbacks see it;
  \<^item> the locale \<open>request_observer\<close> is what the parser needs of its callbacks; the log of events and, in
    \<open>HttpParser\<close>, the callbacks of \<open>HttpRequestParser\<close> provide it.
\<close>

section \<open>Positions stay inside the buffer\<close>

definition event_in :: "nat \<Rightarrow> http_event \<Rightarrow> bool" where
  "event_in len e \<longleftrightarrow>
     (case e of Element k at n \<Rightarrow> at + n \<le> len | HttpField f fl v vl \<Rightarrow> f + fl \<le> len \<and> v + vl \<le> len)"

definition positions_in :: "nat \<Rightarrow> nat \<Rightarrow> http_parser \<Rightarrow> bool" where
  "positions_in len p hp \<longleftrightarrow> hp_mark hp \<le> p \<and> hp_field_start hp \<le> p \<and> hp_field_len hp \<le> len
     \<and> hp_mark hp < len \<and> hp_field_start hp < len \<and> hp_body_start hp \<le> len"

text \<open>What each phase adds: the query, respectively the name of the field, has been recorded.\<close>

definition phase_inv :: "nat \<Rightarrow> nat \<Rightarrow> phase \<Rightarrow> http_parser \<Rightarrow> bool" where
  "phase_inv len p ph hp \<longleftrightarrow> positions_in len p hp
     \<and> (ph = PQuery \<longrightarrow> hp_query_start hp \<le> p)
     \<and> (ph = PName \<longrightarrow> hp_field_start hp + hp_field_len hp \<le> p)
     \<and> (ph \<noteq> PSocketEnd \<and> ph \<noteq> PDone \<longrightarrow> \<not> hp_xml_sent hp \<and> \<not> hp_json_sent hp)
     \<and> (ph = PSocketEnd \<longrightarrow> hp_xml_sent hp \<or> hp_json_sent hp)"

lemma phase_inv_next: "phase_inv len p ph hp \<Longrightarrow> phase_inv len (Suc p) ph hp"
  by (auto simp: phase_inv_def positions_in_def)

lemma phase_inv_positions: "phase_inv len p ph hp \<Longrightarrow> positions_in len p hp"
  by (simp add: phase_inv_def)

section \<open>The order of the events\<close>

fun element_step :: "phase \<Rightarrow> http_element \<Rightarrow> phase option" where
  "element_step ph RequestMethod = (if ph = PStart then Some PMethod else None)"
| "element_step ph RequestPath =
     (if ph = PMethod then Some PPath else if ph = PStart then Some PSocket else None)"
| "element_step ph QueryString = (if ph = PPath then Some PQueryDone else None)"
| "element_step ph RequestUri = (if ph = PPath \<or> ph = PQueryDone then Some PUri else None)"
| "element_step ph Fragment = (if ph = PUri then Some PUri else None)"
| "element_step ph HttpVersion = (if ph = PUri then Some PHeaders else None)"
| "element_step ph HeaderDone = (if ph = PHeaders then Some PDone else None)"

fun event_step :: "phase \<Rightarrow> http_event \<Rightarrow> phase option" where
  "event_step ph (Element k at n) = element_step ph k"
| "event_step ph (HttpField f fl v vl) = (if ph = PHeaders then Some PHeaders else None)"

primrec event_run :: "phase \<Rightarrow> http_event list \<Rightarrow> phase option" where
  "event_run ph [] = Some ph"
| "event_run ph (e # es) = (case event_step ph e of None \<Rightarrow> None | Some ph' \<Rightarrow> event_run ph' es)"

lemma event_run_append:
  "event_run ph (es @ fs) = (case event_run ph es of None \<Rightarrow> None | Some ph' \<Rightarrow> event_run ph' fs)"
  by (induction es arbitrary: ph) (auto split: option.splits)

text \<open>The phase as the callbacks know it; a socket message ends without an event.\<close>

fun visible :: "phase \<Rightarrow> phase" where
  "visible PQuery = PPath"
| "visible PField = PHeaders"
| "visible PName = PHeaders"
| "visible PSocketEnd = PSocket"
| "visible ph = ph"

lemma http11_do_ok:
  assumes "phase_inv len p ph hp" "http11_order ph a = Some ph'" "p < len"
  shows "phase_inv len p ph' (snd (http11_do len p a hp))"
    and "case fst (http11_do len p a hp) of
           None \<Rightarrow> visible ph' = visible ph \<or> ph = PSocketEnd \<and> ph' = PDone
         | Some e \<Rightarrow> event_in len e \<and> event_step (visible ph) e = Some (visible ph')"
    and "hp_cs (snd (http11_do len p a hp)) = hp_cs hp"
    and "hp_nread (snd (http11_do len p a hp)) = hp_nread hp"
  using assms by (cases ph; cases a; auto simp: phase_inv_def positions_in_def event_in_def)+

section \<open>What the parser needs of its callbacks\<close>

locale request_observer =
  fixes buf :: string and h :: "(http_event, 'd) sink" and I :: "phase \<Rightarrow> 'd \<Rightarrow> bool"
  assumes observe: "event_in (length buf) e \<Longrightarrow> I ph d \<Longrightarrow> event_step ph e = Some ph' \<Longrightarrow>
    \<exists>d'. h e d = Ret d' \<and> I ph' d'"
begin

definition done_inv :: "'d \<Rightarrow> bool" where
  "done_inv d \<longleftrightarrow> I PDone d \<or> I PSocket d"

definition inv_at :: "nat \<Rightarrow> phase \<Rightarrow> http_parser \<Rightarrow> 'd \<Rightarrow> bool" where
  "inv_at p ph hp d \<longleftrightarrow> phase_inv (length buf) p ph hp \<and> (if ph = PDone then done_inv d else I (visible ph) d)
     \<and> hp_cs hp = http_parser_start \<and> hp_nread hp = 0"

lemma inv_at_act:
  assumes "p < length buf" "inv_at p ph hp d" "http11_order ph a = Some ph'" "http11_do (length buf) p a hp = (ev, hp')"
  shows "\<exists>d'. (case ev of None \<Rightarrow> Ret d | Some e \<Rightarrow> h e d) = Ret d' \<and> inv_at p ph' hp' d'"
proof -
  have i: "phase_inv (length buf) p ph hp" "hp_cs hp = http_parser_start" "hp_nread hp = 0"
    "ph \<noteq> PDone \<Longrightarrow> I (visible ph) d" using assms(2) by (auto simp: inv_at_def)
  note ok = http11_do_ok [OF i(1) assms(3,1), unfolded assms(4), simplified]
  show ?thesis
  proof (cases ev)
    case None
    then show ?thesis using ok i assms(2,3) by (cases ph; cases a; auto simp: inv_at_def done_inv_def)
  next
    case (Some e)
    have "ph \<noteq> PDone" using assms(3,4) Some by (cases a) auto
    then obtain d' where "h e d = Ret d'" "I (visible ph') d'" using ok(2) Some i(4) observe by fastforce
    then show ?thesis using Some ok i by (auto simp: inv_at_def done_inv_def)
  qed
qed

sublocale certified_machine http11_machine h buf http11_order phase_of "\<lambda>cs. cs < http_parser_first_final" PDone inv_at
proof
  show "inv_at p ph hp d \<Longrightarrow> inv_at (Suc p) ph hp d" for p ph hp d
    by (simp add: inv_at_def phase_inv_next)
  show "m_break http11_machine a \<Longrightarrow> http11_order ph a = Some ph' \<Longrightarrow> ph' = PDone" for a ph ph'
    by (cases ph) auto
  fix cs hp c acts tgt
  assume "cs < http_parser_first_final" "m_trans http11_machine hp cs c = Some (acts, tgt)"
  then show "\<exists>ph. ords http11_order (phase_of cs) acts = Some ph \<and> ((\<forall>a \<in> set acts. \<not> m_break http11_machine a) \<longrightarrow>
      tgt \<noteq> 0 \<longrightarrow> tgt < http_parser_first_final \<and> ph = phase_of tgt)"
    using http11_table_ordered [of cs "hp_uri_relaxed hp" c] by (auto dest!: opt_fitsD)
qed (use inv_at_act in \<open>auto simp: http_parser_first_final_def\<close>)

lemma execute_ok:
  assumes small: "length buf < 2 ^ 31" and start: "I PStart d"
  shows "\<exists>n hp' d' ph. http_parser_execute h (http_parser_init hp) buf 0 d = Ret (n, hp', d') \<and> n \<le> length buf
    \<and> I ph d' \<and> (http_parser_is_finished hp' \<longrightarrow> done_inv d')"
proof (cases "length buf = 0")
  case True
  then show ?thesis using start
    by (auto simp: http_parser_execute_def http_parser_is_finished_def http_parser_init_def
        http_parser_first_final_def http_parser_start_def)
next
  case False
  let ?hp = "http_parser_init hp"
  have same: "?hp\<lparr>hp_nread := 0, hp_mark := 0, hp_field_len := 0, hp_field_start := 0\<rparr> = ?hp"
    by (simp add: http_parser_init_def)
  have cs: "hp_cs ?hp = 1" "hp_nread ?hp = 0" "phase_of 1 = PStart"
    by (simp_all add: http_parser_init_def http_parser_start_def phase_of_def)
  have inv: "inv_at 0 (phase_of 1) ?hp d"
    using False start by (simp add: http_parser_init_def phase_inv_def positions_in_def inv_at_def phase_of_def)
  obtain cs' p' hp' d' q ph where l: "run_machine http11_machine h buf 0 1 ?hp d = Ret (cs', p', hp', d')" "p' \<le> length buf"
    and j: "inv_at q ph hp' d'" "cs' = 0 \<or> cs' < http_parser_first_final \<or> ph = PDone"
    using run_kept [of 1 0 ?hp d] inv by (auto simp: http_parser_first_final_def)
  have q: "positions_in (length buf) q hp'" and k: "hp_cs hp' = 1" "hp_nread hp' = 0"
    using j(1) by (auto simp: inv_at_def phase_inv_def http_parser_start_def)
  obtain ph1 where i: "I ph1 d'" "http_parser_first_final \<le> cs' \<longrightarrow> done_inv d'"
    using j by (auto simp: inv_at_def done_inv_def http_parser_first_final_def split: if_splits)
  have "int (length buf - 0) = to_int (length buf) - to_int 0" using small by (simp add: to_int_small)
  then show ?thesis using False same l q k cs i
    by (auto simp: http_parser_execute_def Let_def positions_in_def http_parser_has_error_def
        http_parser_is_finished_def http_parser_error_def)
qed

end

section \<open>Execution of a fresh parser\<close>

interpretation event_log: request_observer buf log_handler "\<lambda>ph es. event_run PStart es = Some ph" for buf
  by unfold_locales (auto simp: log_handler_def event_run_append)

text \<open>C16. One execution of a freshly initialised request parser, whatever bytes it is given and whatever its
  uninitialised members hold, reads only inside the buffer: every piece it reports to its callbacks lies in
  the buffer, no assertion fails, and the number of bytes it consumes is at most those given.\<close>

theorem fresh_parser_memory_safe:
  assumes "\<And>e d. event_in (length buf) e \<Longrightarrow> \<exists>d'. h e d = Ret d'" and "length buf < 2 ^ 31"
  shows "\<exists>n hp' d'. http_parser_execute h (http_parser_init hp) buf 0 d = Ret (n, hp', d') \<and> n \<le> length buf"
proof -
  have "request_observer buf h (\<lambda>_ _. True)" using assms(1) by unfold_locales auto
  from request_observer.execute_ok [OF this assms(2) TrueI, of hp d] show ?thesis by blast
qed

theorem fresh_parser_memory_safe_witness:
  "\<exists>n hp' d'. http_parser_execute log_handler
      (http_parser_init \<lparr>hp_cs = 7, hp_body_start = 1, hp_content_len = 2, hp_nread = 3, hp_mark = 4, hp_field_start = 5,
        hp_field_len = 6, hp_query_start = 9, hp_xml_sent = True, hp_json_sent = False, hp_uri_relaxed = True\<rparr>)
      ''GET /a?b HTTP/1.1'' 0 [] = Ret (n, hp', d') \<and> n \<le> length ''GET /a?b HTTP/1.1''"
  by (rule fresh_parser_memory_safe) (simp_all add: log_handler_def)

text \<open>C19. The events of one execution of a freshly initialised request parser come in the order of a request:
  the method, the path, at most one query string, the URI, fragments, the version, header fields, the end of
  the headers; or the path of a socket message alone. When the parser says it has finished, the last of them
  has been reported.\<close>

theorem fresh_parser_event_order:
  assumes "length buf < 2 ^ 31"
  shows "\<exists>n hp' es ph. http_parser_execute log_handler (http_parser_init hp) buf 0 [] = Ret (n, hp', es)
    \<and> event_run PStart es = Some ph \<and> (http_parser_is_finished hp' \<longrightarrow> ph = PDone \<or> ph = PSocket)"
  using event_log.execute_ok [OF assms, of "[]" hp] by (auto simp: event_log.done_inv_def)

definition get_request :: string where
  "get_request = ''GET /a?q HTTP/1.1'' @ [CHR 0x0D, CHR 0x0A] @ ''H: v'' @ [CHR 0x0D, CHR 0x0A, CHR 0x0D, CHR 0x0A]"

definition blank_parser :: http_parser where
  "blank_parser = \<lparr>hp_cs = 0, hp_body_start = 0, hp_content_len = 0, hp_nread = 0, hp_mark = 0, hp_field_start = 0,
     hp_field_len = 0, hp_query_start = 0, hp_xml_sent = False, hp_json_sent = False, hp_uri_relaxed = False\<rparr>"

lemma get_request_events:
  "http_parser_execute log_handler (http_parser_init blank_parser) get_request 0 [] =
     Ret (27, \<lparr>hp_cs = 348, hp_body_start = 27, hp_content_len = 0, hp_nread = 27, hp_mark = 22, hp_field_start = 25,
         hp_field_len = 1, hp_query_start = 7, hp_xml_sent = False, hp_json_sent = False, hp_uri_relaxed = False\<rparr>,
       [Element RequestMethod 0 3, Element RequestPath 4 2, Element QueryString 7 1, Element RequestUri 4 4,
        Element HttpVersion 9 8, HttpField 19 1 22 1, Element HeaderDone 27 0])"
  by code_simp

theorem fresh_parser_event_order_witness:
  "\<exists>n hp' es ph. http_parser_execute log_handler (http_parser_init blank_parser) get_request 0 [] = Ret (n, hp', es)
    \<and> event_run PStart es = Some ph \<and> http_parser_is_finished hp' \<and> ph = PDone"
proof -
  have "length get_request < 2 ^ 31" by (simp add: get_request_def)
  from fresh_parser_event_order [OF this, of blank_parser] show ?thesis
    by (elim exE conjE) (simp add: get_request_events http_parser_is_finished_def http_parser_first_final_def)
qed

end
