(* ===== verification/Http11_Runs.thy ===== *)
theory Http11_Runs
  imports Http11_Parser
begin

text \<open>
  Runs of the generated request parser over the pieces of a well-formed request: method, path, version and
  header fields, whatever their characters, with the events each of them reports.
\<close>

section \<open>The table on the characters of a request\<close>

definition method_char :: "char \<Rightarrow> bool" where
  "method_char c \<longleftrightarrow> (let n = signed_char c in 48 \<le> n \<and> n \<le> 57 \<or> 65 \<le> n \<and> n \<le> 90)"

definition path_char :: "char \<Rightarrow> bool" where
  "path_char c \<longleftrightarrow> (let n = signed_char c in n \<in> {33, 36, 61, 95, 126} \<or> 38 \<le> n \<and> n \<le> 59 \<or> 64 \<le> n \<and> n \<le> 90
     \<or> 97 \<le> n \<and> n \<le> 122)"

definition token_char :: "char \<Rightarrow> bool" where
  "token_char c \<longleftrightarrow> (let n = signed_char c in n \<in> {33, 42, 43, 124, 126} \<or> 35 \<le> n \<and> n \<le> 39 \<or> 45 \<le> n \<and> n \<le> 46
     \<or> 48 \<le> n \<and> n \<le> 57 \<or> 65 \<le> n \<and> n \<le> 90 \<or> 94 \<le> n \<and> n \<le> 122)"

definition value_char :: "char \<Rightarrow> bool" where
  "value_char c \<longleftrightarrow> signed_char c \<notin> {0, 10, 13, 127}"

definition blank_char :: "char \<Rightarrow> bool" where
  "blank_char c \<longleftrightarrow> signed_char c \<in> {9, 32}"

lemmas class_eval = method_char_def path_char_def token_char_def value_char_def blank_char_def Let_def

lemma widec_id: "c \<noteq> 94 \<Longrightarrow> c \<noteq> 123 \<Longrightarrow> c \<noteq> 125 \<Longrightarrow> http11_widec relaxed c = c"
  by (auto simp: http11_widec_def Let_def)

lemma trans_method_first: "method_char c \<Longrightarrow> http11_trans relaxed 1 (signed_char c) = Some ([HMark], 2)"
  unfolding class_eval by (elim disjE conjE) (simp_all add: http11_trans_def http11_states_1_3_def)

lemma trans_method_second: "method_char c \<Longrightarrow> http11_trans relaxed 2 (signed_char c) = Some ([], 175)"
  unfolding class_eval by (elim disjE conjE) (simp_all add: http11_trans_def http11_states_1_3_def)

lemmas method_states = http11_trans_def http11_states_1_3_def http11_states_173_177_def http11_states_178_189_def
  http11_states_190_197_def

lemma trans_method:
  "method_char c \<Longrightarrow> cs \<in> {175, 176, 177, 178, 179, 180, 181, 182, 183, 184, 185, 186, 187, 188, 189, 190, 191, 192} \<Longrightarrow>
     http11_trans relaxed cs (signed_char c) = Some ([], cs + 1)"
  unfolding class_eval by (elim disjE conjE insertE emptyE; simp add: method_states)

lemma trans_method_end:
  "cs \<in> {2, 175, 176, 177, 178, 179, 180, 181, 182, 183, 184, 185, 186, 187, 188, 189, 190, 191, 192, 193} \<Longrightarrow>
     http11_trans relaxed cs 32 = Some ([HRequestMethod], 3)"
  by (elim insertE emptyE; simp add: method_states)

lemma path_widec: "path_char c \<Longrightarrow> http11_widec relaxed (signed_char c) = signed_char c"
  unfolding class_eval by (rule widec_id) auto

lemma trans_path: "path_char c \<Longrightarrow> http11_trans relaxed 26 (signed_char c) = Some ([], 26)"
  using path_widec [of c relaxed] unfolding class_eval
  by (elim disjE conjE insertE emptyE; simp add: http11_trans_def http11_states_26_28_def)

lemma trans_path_first:
  "path_char c \<Longrightarrow> signed_char c \<noteq> 47 \<Longrightarrow> http11_trans relaxed 33 (signed_char c) = Some ([], 26)"
  using path_widec [of c relaxed] unfolding class_eval
  by (elim disjE conjE insertE emptyE; simp add: http11_trans_def http11_states_32_34_def)

lemma trans_name_first: "token_char c \<Longrightarrow> http11_trans relaxed 13 (signed_char c) = Some ([HStartField], 14)"
  unfolding class_eval by (elim disjE conjE insertE emptyE; simp add: http11_trans_def http11_states_13_16_def)

lemma trans_name: "token_char c \<Longrightarrow> http11_trans relaxed 14 (signed_char c) = Some ([], 14)"
  unfolding class_eval by (elim disjE conjE insertE emptyE; simp add: http11_trans_def http11_states_13_16_def)

lemma trans_blank: "blank_char c \<Longrightarrow> http11_trans relaxed 15 (signed_char c) = Some ([HMark], 15)"
  unfolding class_eval by (elim insertE emptyE; simp add: http11_trans_def http11_states_13_16_def)

lemma trans_value_first:
  "value_char c \<Longrightarrow> \<not> blank_char c \<Longrightarrow> http11_trans relaxed 15 (signed_char c) = Some ([HMark], 16)"
  unfolding class_eval by (simp add: http11_trans_def http11_states_13_16_def)

lemma trans_value: "value_char c \<Longrightarrow> http11_trans relaxed 16 (signed_char c) = Some ([], 16)"
  unfolding class_eval by (simp add: http11_trans_def http11_states_13_16_def)

section \<open>Pieces of a request\<close>

lemma feed_method_tail:
  "\<forall>c \<in> set w. method_char c \<Longrightarrow> 175 \<le> cs \<Longrightarrow> cs + length w \<le> 193 \<Longrightarrow>
     feed http11_machine len w (p, cs, hp, es) = Some (p + length w, cs + length w, hp, es)"
proof (induction w arbitrary: p cs)
  case Nil
  then show ?case by simp
next
  case (Cons c w)
  then have "cs \<in> {175, 176, 177, 178, 179, 180, 181, 182, 183, 184, 185, 186, 187, 188, 189, 190, 191, 192}"
    by (simp only: insert_iff empty_iff list.size) presburger
  from trans_method [OF _ this, of c] show ?case
    using Cons.IH [of "cs + 1" "p + 1"] Cons.prems by simp
qed

lemma method_end_state:
  assumes "175 \<le> cs" "cs \<le> 193"
  shows "http11_trans relaxed cs 32 = Some ([HRequestMethod], 3)"
  using assms by (intro trans_method_end, simp only: insert_iff empty_iff) presburger

lemma signed_space [simp]: "signed_char CHR '' '' = 32"
  by code_simp

lemma signed_char_slash: "signed_char c = 47 \<longleftrightarrow> c = CHR ''/''"
  by (cases c) (auto simp: signed_char_def Let_def of_char_def)

lemma feed_method:
  assumes "w \<noteq> []" "length w \<le> 20" "\<forall>c \<in> set w. method_char c"
  shows "feed http11_machine len (w @ '' '') (p, 1, hp, es) = Some (p + length w + 1, 3, hp\<lparr>hp_mark := p\<rparr>,
    es @ [Element RequestMethod p (length w)])"
proof -
  obtain a u where w: "w = a # u" "method_char a" using assms(1,3) by (cases w) auto
  let ?hp = "hp\<lparr>hp_mark := p\<rparr>"
  show ?thesis
  proof (cases u)
    case Nil
    then show ?thesis using w trans_method_first [of a] trans_method_end [of 2]
      by (simp add: log_handler_def)
  next
    case (Cons b v)
    then have "feed http11_machine len v (p + 2, 175, ?hp, es) = Some (p + 2 + length v, 175 + length v, ?hp, es)"
      using assms w by (intro feed_method_tail) auto
    then show ?thesis
      using Cons w assms trans_method_first [of a] trans_method_second [of b] method_end_state [of "175 + length v"]
      by (simp add: feed_append log_handler_def)
  qed
qed

lemma feed_path:
  assumes "\<forall>c \<in> set w. path_char c" "w \<noteq> [] \<Longrightarrow> hd w \<noteq> CHR ''/''"
  shows "feed http11_machine len (''/'' @ w @ '' '') (p, 3, hp, es) = Some (p + length w + 2, 4, hp\<lparr>hp_mark := p\<rparr>,
    es @ [Element RequestPath p (length w + 1), Element RequestUri p (length w + 1)])"
proof -
  have slash: "http11_trans r 3 (signed_char CHR ''/'') = Some ([HMark], 33)" for r
    by (simp add: signed_char_def http11_trans_def http11_states_1_3_def http11_widec_def)
  have space: "http11_trans r 33 32 = Some ([HRequestPath, HRequestUri], 4)"
    "http11_trans r 26 32 = Some ([HRequestPath, HRequestUri], 4)" for r
    by (simp_all add: http11_trans_def http11_states_32_34_def http11_states_26_28_def http11_widec_def)
  show ?thesis
  proof (cases w)
    case Nil
    then show ?thesis using slash space by (simp add: log_handler_def)
  next
    case (Cons a u)
    let ?hp = "hp\<lparr>hp_mark := p\<rparr>"
    have "signed_char a \<noteq> 47"
      using assms(2) Cons by (simp add: signed_char_slash)
    then have "http11_trans (hp_uri_relaxed hp) 33 (signed_char a) = Some ([], 26)"
      using assms(1) Cons trans_path_first by simp
    moreover have "feed http11_machine len u (p + 2, 26, ?hp, es) = Some (p + 2 + length u, 26, ?hp, es)"
      using assms(1) Cons trans_path by (intro feed_self) auto
    ultimately show ?thesis using Cons slash space by (simp add: feed_append log_handler_def)
  qed
qed

definition crlf_text :: string where "crlf_text = [CHR 0x0D, CHR 0x0A]"

lemma feed_version:
  assumes "d = CHR ''0'' \<or> d = CHR ''1''"
  shows "feed http11_machine len (''HTTP/1.'' @ d # crlf_text) (p, 4, hp, es) =
    Some (p + 10, 13, hp\<lparr>hp_mark := p\<rparr>, es @ [Element HttpVersion p 8])"
  using assms by (elim disjE) (simp_all add: crlf_text_def signed_char_def http11_trans_def http11_states_4_12_def
      http11_states_17_18_def log_handler_def)

lemma feed_blanks:
  "\<forall>c \<in> set w. blank_char c \<Longrightarrow> \<exists>m. feed http11_machine len w (p, 15, hp, es) = Some (p + length w, 15, hp\<lparr>hp_mark := m\<rparr>, es)"
proof (induction w arbitrary: p hp)
  case Nil
  show ?case by (rule exI [of _ "hp_mark hp"]) simp
next
  case (Cons c w)
  then show ?case using trans_blank [of c "hp_uri_relaxed hp"] Cons.IH [of "p + 1" "hp\<lparr>hp_mark := p\<rparr>"] by simp
qed

lemma trans_line_end:
  "http11_trans r 15 13 = Some ([HMark, HWriteValue], 17)"
  "http11_trans r 16 13 = Some ([HWriteValue], 17)"
  "http11_trans r 17 10 = Some ([], 13)"
  "http11_trans r 14 58 = Some ([HWriteField], 15)"
  "http11_trans r 13 13 = Some ([HStartField], 18)"
  "http11_trans r 18 10 = Some ([HDone], 348)"
  by (simp_all add: http11_trans_def http11_states_13_16_def http11_states_17_18_def)

lemma signed_crlf [simp]: "signed_char CHR 0x0D = 13" "signed_char CHR 0x0A = 10" "signed_char CHR '':'' = 58"
  by code_simp+

text \<open>A header is its name, the blanks after the colon and its value, which does not begin with a blank.\<close>

type_synonym header_piece = "string \<times> string \<times> string"

definition header_ok :: "header_piece \<Rightarrow> bool" where
  "header_ok = (\<lambda>(k, bl, v). k \<noteq> [] \<and> (\<forall>c \<in> set k. token_char c) \<and> (\<forall>c \<in> set bl. blank_char c)
     \<and> (\<forall>c \<in> set v. value_char c) \<and> (v \<noteq> [] \<longrightarrow> \<not> blank_char (hd v)))"

definition header_text :: "header_piece \<Rightarrow> string" where
  "header_text = (\<lambda>(k, bl, v). k @ '':'' @ bl @ v @ crlf_text)"

definition header_event :: "nat \<Rightarrow> header_piece \<Rightarrow> http_event" where
  "header_event p = (\<lambda>(k, bl, v). HttpField p (length k) (p + length k + 1 + length bl) (length v))"

lemma feed_name:
  assumes "k \<noteq> []" "\<forall>c \<in> set k. token_char c"
  shows "feed http11_machine len (k @ '':'') (p, 13, hp, es) =
    Some (p + length k + 1, 15, hp\<lparr>hp_field_start := p, hp_field_len := length k\<rparr>, es)"
proof -
  obtain a u where k: "k = a # u" using assms(1) by (cases k) auto
  have "feed http11_machine len u (p + 1, 14, hp\<lparr>hp_field_start := p\<rparr>, es) = Some (p + 1 + length u, 14, hp\<lparr>hp_field_start := p\<rparr>, es)"
    using assms(2) k trans_name by (intro feed_self) auto
  then show ?thesis using assms(2) k trans_name_first [of a] trans_line_end(4) by (simp add: feed_append)
qed

lemma feed_value:
  assumes "\<forall>c \<in> set v. value_char c" "v \<noteq> [] \<Longrightarrow> \<not> blank_char (hd v)"
  shows "feed http11_machine len (v @ crlf_text) (p, 15, hp, es) = Some (p + length v + 2, 13, hp\<lparr>hp_mark := p\<rparr>,
    es @ [HttpField (hp_field_start hp) (hp_field_len hp) p (length v)])"
proof (cases v)
  case Nil
  then show ?thesis by (simp add: crlf_text_def trans_line_end log_handler_def)
next
  case (Cons a u)
  let ?hp = "hp\<lparr>hp_mark := p\<rparr>"
  have "feed http11_machine len u (p + 1, 16, ?hp, es) = Some (p + 1 + length u, 16, ?hp, es)"
    using assms(1) Cons trans_value by (intro feed_self) auto
  then show ?thesis using assms Cons trans_value_first [of a]
    by (simp add: feed_append crlf_text_def trans_line_end log_handler_def)
qed

lemma feed_header:
  assumes "header_ok h"
  shows "\<exists>fs fl m. feed http11_machine len (header_text h) (p, 13, hp, es) =
    Some (p + length (header_text h), 13, hp\<lparr>hp_field_start := fs, hp_field_len := fl, hp_mark := m\<rparr>, es @ [header_event p h])"
proof -
  obtain k bl v where h: "h = (k, bl, v)" by (cases h)
  let ?hp = "hp\<lparr>hp_field_start := p, hp_field_len := length k\<rparr>"
  have ok: "k \<noteq> []" "\<forall>c \<in> set k. token_char c" "\<forall>c \<in> set bl. blank_char c" "\<forall>c \<in> set v. value_char c"
    "v \<noteq> [] \<Longrightarrow> \<not> blank_char (hd v)"
    using assms by (auto simp: header_ok_def h)
  obtain m where bl: "feed http11_machine len bl (p + length k + 1, 15, ?hp, es) = Some (p + length k + 1 + length bl, 15, ?hp\<lparr>hp_mark := m\<rparr>, es)"
    using feed_blanks [OF ok(3)] by blast
  have "feed http11_machine len (header_text h) (p, 13, hp, es) = Some (p + length k + 1 + length bl + length v + 2, 13,
      ?hp\<lparr>hp_mark := m\<rparr>\<lparr>hp_mark := p + length k + 1 + length bl\<rparr>, es @ [header_event p h])"
    using feed_appendI [OF feed_name [OF ok(1,2)] feed_appendI [OF bl feed_value [OF ok(4,5)]]]
    by (simp add: header_text_def header_event_def h)
  then show ?thesis
    by - (rule exI [of _ p], rule exI [of _ "length k"], rule exI [of _ "p + length k + 1 + length bl"],
      simp add: header_text_def h crlf_text_def)
qed

primrec header_events :: "nat \<Rightarrow> header_piece list \<Rightarrow> http_event list" where
  "header_events p [] = []"
| "header_events p (h # hs) = header_event p h # header_events (p + length (header_text h)) hs"

lemma feed_headers:
  "\<forall>h \<in> set hs. header_ok h \<Longrightarrow> \<exists>fs fl m. feed http11_machine len (concat (map header_text hs)) (p, 13, hp, es) =
    Some (p + length (concat (map header_text hs)), 13,
      hp\<lparr>hp_field_start := fs, hp_field_len := fl, hp_mark := m\<rparr>, es @ header_events p hs)"
proof (induction hs arbitrary: p hp es)
  case Nil
  show ?case
    by (rule exI [of _ "hp_field_start hp"], rule exI [of _ "hp_field_len hp"], rule exI [of _ "hp_mark hp"]) simp
next
  case (Cons h hs)
  obtain fs fl m where h: "feed http11_machine len (header_text h) (p, 13, hp, es) = Some (p + length (header_text h), 13,
      hp\<lparr>hp_field_start := fs, hp_field_len := fl, hp_mark := m\<rparr>, es @ [header_event p h])"
    using feed_header [of h len p hp es] Cons.prems by (simp only: list.set insert_iff) blast
  have tl: "\<forall>h \<in> set hs. header_ok h" using Cons.prems by simp
  from Cons.IH [OF tl, where p = "p + length (header_text h)" and es = "es @ [header_event p h]"
        and hp = "hp\<lparr>hp_field_start := fs, hp_field_len := fl, hp_mark := m\<rparr>"]
  obtain fs' fl' m' where t: "feed http11_machine len (concat (map header_text hs)) (p + length (header_text h), 13,
        hp\<lparr>hp_field_start := fs, hp_field_len := fl, hp_mark := m\<rparr>, es @ [header_event p h]) =
      Some (p + length (header_text h) + length (concat (map header_text hs)), 13,
        hp\<lparr>hp_field_start := fs, hp_field_len := fl, hp_mark := m\<rparr>
          \<lparr>hp_field_start := fs', hp_field_len := fl', hp_mark := m'\<rparr>,
        (es @ [header_event p h]) @ header_events (p + length (header_text h)) hs)"
    by (elim exE) (rule that)
  show ?case
    by (rule exI [of _ fs'], rule exI [of _ fl'], rule exI [of _ m']) (use feed_appendI [OF h t] in simp)
qed

lemma loop_finish:
  assumes "buf ! p = CHR 0x0D" "buf ! (p + 1) = CHR 0x0A" "p + 2 \<le> length buf" "\<not> hp_xml_sent hp" "\<not> hp_json_sent hp"
  shows "run_machine http11_machine log_handler buf p 13 hp es =
    Ret (348, p + 2, hp\<lparr>hp_field_start := p, hp_body_start := p + 2\<rparr>,
      es @ [Element HeaderDone (p + 2) (length buf - (p + 2))])"
  using assms by (simp add: run_machine.simps [of http11_machine _ buf p] run_machine.simps [of http11_machine _ buf "Suc p"]
      trans_line_end log_handler_def)

section \<open>A whole request\<close>

definition request_text :: "string \<Rightarrow> string \<Rightarrow> char \<Rightarrow> header_piece list \<Rightarrow> string" where
  "request_text name w d hs =
     name @ '' '' @ ''/'' @ w @ '' '' @ ''HTTP/1.'' @ d # crlf_text @ concat (map header_text hs) @ crlf_text"

definition request_ok :: "string \<Rightarrow> string \<Rightarrow> char \<Rightarrow> header_piece list \<Rightarrow> bool" where
  "request_ok name w d hs \<longleftrightarrow> name \<noteq> [] \<and> length name \<le> 20 \<and> (\<forall>c \<in> set name. method_char c)
     \<and> (\<forall>c \<in> set w. path_char c) \<and> (w \<noteq> [] \<longrightarrow> hd w \<noteq> CHR ''/'') \<and> (d = CHR ''0'' \<or> d = CHR ''1'')
     \<and> (\<forall>h \<in> set hs. header_ok h)"

text \<open>The events of a request, with the positions of its pieces.\<close>

definition request_events :: "nat \<Rightarrow> string \<Rightarrow> string \<Rightarrow> header_piece list \<Rightarrow> http_event list" where
  "request_events len name w hs =
     (let path = length name + 1; version = path + length w + 2; fields = version + 10;
          finish = fields + length (concat (map header_text hs)) + 2
      in [Element RequestMethod 0 (length name), Element RequestPath path (length w + 1),
          Element RequestUri path (length w + 1), Element HttpVersion version 8]
         @ header_events fields hs @ [Element HeaderDone finish (len - finish)])"

lemma request_feed:
  assumes "request_ok name w d hs"
  shows "\<exists>fs fl m. feed http11_machine len (name @ '' '' @ ''/'' @ w @ '' '' @ ''HTTP/1.'' @ d # crlf_text @ concat (map header_text hs))
      (0, 1, hp, []) = Some (length name + length w + 13 + length (concat (map header_text hs)), 13,
        hp\<lparr>hp_field_start := fs, hp_field_len := fl, hp_mark := m\<rparr>,
        [Element RequestMethod 0 (length name), Element RequestPath (length name + 1) (length w + 1),
          Element RequestUri (length name + 1) (length w + 1), Element HttpVersion (length name + length w + 3) 8]
         @ header_events (length name + length w + 13) hs)"
proof -
  have ok: "name \<noteq> []" "length name \<le> 20" "\<forall>c \<in> set name. method_char c" "\<forall>c \<in> set w. path_char c"
    "w \<noteq> [] \<Longrightarrow> hd w \<noteq> CHR ''/''" "d = CHR ''0'' \<or> d = CHR ''1''" "\<forall>h \<in> set hs. header_ok h"
    using assms by (auto simp: request_ok_def)
  have line: "feed http11_machine len ((name @ '' '') @ (''/'' @ w @ '' '') @ (''HTTP/1.'' @ d # crlf_text)) (0, 1, hp, []) =
    Some (length name + length w + 13, 13, hp\<lparr>hp_mark := length name + length w + 3\<rparr>,
      [Element RequestMethod 0 (length name), Element RequestPath (length name + 1) (length w + 1),
       Element RequestUri (length name + 1) (length w + 1), Element HttpVersion (length name + length w + 3) 8])"
    using feed_appendI [OF feed_method [OF ok(1-3)] feed_appendI [OF feed_path [OF ok(4,5)] feed_version [OF ok(6)]],
        of len 0 hp "[]"] by (simp add: numeral_eq_Suc)
  obtain fs fl m where h: "feed http11_machine len (concat (map header_text hs)) (length name + length w + 13, 13,
        hp\<lparr>hp_mark := length name + length w + 3\<rparr>,
        [Element RequestMethod 0 (length name), Element RequestPath (length name + 1) (length w + 1),
         Element RequestUri (length name + 1) (length w + 1), Element HttpVersion (length name + length w + 3) 8]) =
      Some (length name + length w + 13 + length (concat (map header_text hs)), 13,
        hp\<lparr>hp_mark := length name + length w + 3\<rparr>\<lparr>hp_field_start := fs, hp_field_len := fl, hp_mark := m\<rparr>,
        [Element RequestMethod 0 (length name), Element RequestPath (length name + 1) (length w + 1),
         Element RequestUri (length name + 1) (length w + 1), Element HttpVersion (length name + length w + 3) 8]
        @ header_events (length name + length w + 13) hs)"
    using feed_headers [OF ok(7)] by blast
  show ?thesis
    by (rule exI [of _ fs], rule exI [of _ fl], rule exI [of _ m]) (use feed_appendI [OF line h] in simp)
qed

end
