(* ===== verification/HttpParser.thy ===== *)
theory HttpParser
  imports Http Http11_Safety Http11_Runs
begin

text \<open>
  \<open>radixun/http/http_parser.{h,cpp}\<close>, the request half: the callbacks that fill an \<open>HttpRequest\<close> and
  \<open>HttpRequestParser\<close> over the generated parser.

  \<^item> the callbacks' state is the request and the error code; a pointer into the data is its offset;
  \<^item> the members the constructor leaves uninitialised come from the raw memory it is given;
  \<^item> log output is left out.
\<close>

section \<open>Callbacks\<close>

type_synonym request_sink = "http_request \<times> int"

definition strncmp_eq :: "string \<Rightarrow> string \<Rightarrow> nat \<Rightarrow> bool" where
  "strncmp_eq a b n \<longleftrightarrow> take n (c_string a) = take n (c_string b)"

definition on_request_method :: "string \<Rightarrow> nat \<Rightarrow> nat \<Rightarrow> request_sink \<Rightarrow> request_sink outcome" where
  "on_request_method buf at n = (\<lambda>(r, err).
     let m = CharsToHttpMethod (drop at buf)
     in if m = INVALID_METHOD then Ret (r, 1000) else Ret (r\<lparr>rq_method := m\<rparr>, err))"

definition on_request_uri :: "string \<Rightarrow> nat \<Rightarrow> nat \<Rightarrow> request_sink \<Rightarrow> request_sink outcome" where
  "on_request_uri buf at n d = Ret d"

definition on_request_fragment :: "string \<Rightarrow> nat \<Rightarrow> nat \<Rightarrow> request_sink \<Rightarrow> request_sink outcome" where
  "on_request_fragment buf at n = (\<lambda>(r, err). obind (cpp_string buf at n) (\<lambda>s. Ret (r\<lparr>rq_fragment := s\<rparr>, err)))"

definition on_request_path :: "string \<Rightarrow> nat \<Rightarrow> nat \<Rightarrow> request_sink \<Rightarrow> request_sink outcome" where
  "on_request_path buf at n = (\<lambda>(r, err). obind (cpp_string buf at n) (\<lambda>s. Ret (r\<lparr>rq_path := s\<rparr>, err)))"

definition on_request_query :: "string \<Rightarrow> nat \<Rightarrow> nat \<Rightarrow> request_sink \<Rightarrow> request_sink outcome" where
  "on_request_query buf at n = (\<lambda>(r, err). obind (cpp_string buf at n) (\<lambda>s. Ret (r\<lparr>rq_query := s\<rparr>, err)))"

definition on_request_version :: "string \<Rightarrow> nat \<Rightarrow> nat \<Rightarrow> request_sink \<Rightarrow> request_sink outcome" where
  "on_request_version buf at n = (\<lambda>(r, err).
     if strncmp_eq (drop at buf) ''HTTP/1.1'' n then Ret (r\<lparr>rq_version := 0x11\<rparr>, err)
     else if strncmp_eq (drop at buf) ''HTTP/1.0'' n then Ret (r\<lparr>rq_version := 0x10\<rparr>, err)
     else Ret (r, 1001))"

definition on_request_header_done :: "string \<Rightarrow> nat \<Rightarrow> nat \<Rightarrow> request_sink \<Rightarrow> request_sink outcome" where
  "on_request_header_done buf at n d = Ret d"

definition on_request_http_field ::
    "string \<Rightarrow> nat \<Rightarrow> nat \<Rightarrow> nat \<Rightarrow> nat \<Rightarrow> request_sink \<Rightarrow> request_sink outcome" where
  "on_request_http_field buf field flen val vlen = (\<lambda>(r, err).
     if flen = 0 then Ret (r, err)
     else obind (cpp_string buf field flen) (\<lambda>k.
          obind (cpp_string buf val vlen) (\<lambda>v. Ret (rq_setHeader k v r, err))))"

text \<open>The constructor's assignment of the callbacks.\<close>

fun request_callbacks :: "string \<Rightarrow> (http_event, request_sink) sink" where
  "request_callbacks buf (Element RequestMethod at n) d = on_request_method buf at n d"
| "request_callbacks buf (Element RequestUri at n) d = on_request_uri buf at n d"
| "request_callbacks buf (Element Fragment at n) d = on_request_fragment buf at n d"
| "request_callbacks buf (Element RequestPath at n) d = on_request_path buf at n d"
| "request_callbacks buf (Element QueryString at n) d = on_request_query buf at n d"
| "request_callbacks buf (Element HttpVersion at n) d = on_request_version buf at n d"
| "request_callbacks buf (Element HeaderDone at n) d = on_request_header_done buf at n d"
| "request_callbacks buf (HttpField f fl v vl) d = on_request_http_field buf f fl v vl d"

section \<open>The parser object\<close>

record request_parser =
  rp_parser :: http_parser
  rp_data :: http_request
  rp_error :: int

definition HttpRequestParser_new :: "http_parser \<Rightarrow> request_parser" where
  "HttpRequestParser_new raw =
     \<lparr>rp_parser = http_parser_init raw, rp_data = HttpRequest_new 0x11 True, rp_error = 0\<rparr>"

definition rp_setError :: "int \<Rightarrow> request_parser \<Rightarrow> request_parser" where
  "rp_setError v rp = rp\<lparr>rp_error := v\<rparr>"

definition rp_getContentLength :: "(string \<Rightarrow> u64 option) \<Rightarrow> request_parser \<Rightarrow> u64" where
  "rp_getContentLength cast rp = rq_getHeaderAs cast (rp_data rp) ''content-length'' 0"

text \<open>\<open>memmove(data, data + offset, len - offset)\<close> over the \<open>len\<close> bytes.\<close>

definition move_rest :: "string \<Rightarrow> nat \<Rightarrow> string" where
  "move_rest data off = drop off data @ drop (length data - off) data"

definition rp_execute :: "string \<Rightarrow> request_parser \<Rightarrow> (nat \<times> string \<times> request_parser) outcome" where
  "rp_execute data rp =
     obind (http_parser_execute (request_callbacks data) (rp_parser rp) data 0 (rp_data rp, rp_error rp))
       (\<lambda>(off, hp, r, err). Ret (off, move_rest data off, \<lparr>rp_parser = hp, rp_data = r, rp_error = err\<rparr>))"

definition rp_isFinished :: "request_parser \<Rightarrow> int" where
  "rp_isFinished rp = http_parser_finish (rp_parser rp)"

definition rp_hasError :: "request_parser \<Rightarrow> bool" where
  "rp_hasError rp \<longleftrightarrow> rp_error rp \<noteq> 0 \<or> http_parser_has_error (rp_parser rp)"

section \<open>Every input is parsed without a crash\<close>

lemma cpp_string_in: "at + n \<le> length buf \<Longrightarrow> length buf < 2 ^ 31 \<Longrightarrow> cpp_string buf at n = Ret (take n (drop at buf))"
  by (simp add: cpp_string_def)

definition sink_ok :: "request_sink \<Rightarrow> bool" where
  "sink_ok = (\<lambda>(r, err). err \<in> {0, 1000, 1001} \<and> wf_headers (rq_headers r) \<and> rq_version r \<in> {0x10, 0x11})"

lemma wf_map_set: "wf_headers m \<Longrightarrow> wf_headers (map_set k v m)"
  by (simp add: map_set_def headers.wf_om_assign)

lemma request_callbacks_ok:
  assumes "event_in (length buf) e" "length buf < 2 ^ 31" "sink_ok d"
  shows "\<exists>d'. request_callbacks buf e d = Ret d' \<and> sink_ok d'"
proof (cases e)
  case (Element k at n)
  then show ?thesis using assms
    by (cases d; cases k) (auto simp: event_in_def cpp_string_in sink_ok_def on_request_method_def on_request_uri_def
        on_request_fragment_def on_request_path_def on_request_query_def on_request_version_def
        on_request_header_done_def Let_def)
next
  case (HttpField f fl v vl)
  then show ?thesis using assms
    by (cases d) (auto simp: event_in_def cpp_string_in sink_ok_def on_request_http_field_def wf_map_set rq_setHeader_def)
qed

interpretation callbacks: request_observer buf "request_callbacks buf" "\<lambda>ph d. length buf < 2 ^ 31 \<and> sink_ok d" for buf
  using request_callbacks_ok by unfold_locales blast

text \<open>C20. A new request parser reads any data of less than 2 GiB without a fault or an exception, whatever
  its uninitialised members hold: it consumes at most the data, moves what it did not consume to the front,
  and leaves a request with an ordered header map, version 1.0 or 1.1 and one of the documented error codes.\<close>

theorem request_parser_total:
  assumes "length data < 2 ^ 31"
  shows "\<exists>off rest rp'. rp_execute data (HttpRequestParser_new raw) = Ret (off, rest, rp') \<and> off \<le> length data
    \<and> take (length data - off) rest = drop off data \<and> length rest = length data
    \<and> wf_headers (rq_headers (rp_data rp')) \<and> rq_version (rp_data rp') \<in> {0x10, 0x11}
    \<and> rp_error rp' \<in> {0, 1000, 1001}"
proof -
  have "sink_ok (HttpRequest_new 0x11 True, 0)" by (simp add: sink_ok_def HttpRequest_new_def)
  from callbacks.execute_ok [OF assms conjI [OF assms this], of raw]
  show ?thesis
    by (auto simp: rp_execute_def HttpRequestParser_new_def move_rest_def sink_ok_def)
qed

theorem request_parser_total_witness:
  "\<exists>off rest rp'. rp_execute ''PUT /a HTTP/9.9'' (HttpRequestParser_new blank_parser) = Ret (off, rest, rp')
    \<and> rp_error rp' \<in> {0, 1000, 1001}"
proof -
  have "length ''PUT /a HTTP/9.9'' < 2 ^ 31" by simp
  from request_parser_total [OF this, of blank_parser] show ?thesis by blast
qed

section \<open>A well-formed request\<close>

lemma request_execute:
  assumes ok: "request_ok name w d hs" and buf: "buf = request_text name w d hs @ rest" and small: "length buf < 2 ^ 31"
  shows "\<exists>hp'. http_parser_execute log_handler (http_parser_init raw) buf 0 [] =
    Ret (length (request_text name w d hs), hp', request_events (length buf) name w hs) \<and> hp_cs hp' = 348"
proof -
  let ?hp = "http_parser_init raw" and ?body = "concat (map header_text hs)"
  have same: "?hp\<lparr>hp_nread := 0, hp_mark := 0, hp_field_len := 0, hp_field_start := 0\<rparr> = ?hp"
    "hp_cs ?hp = 1" "hp_nread ?hp = 0" "\<not> hp_xml_sent ?hp" "\<not> hp_json_sent ?hp"
    by (simp_all add: http_parser_init_def http_parser_start_def)
  let ?u = "name @ '' '' @ ''/'' @ w @ '' '' @ ''HTTP/1.'' @ d # crlf_text @ ?body"
  let ?p = "length name + length w + 13 + length ?body"
  obtain fs fl m where f: "feed http11_machine (length buf) ?u (0, 1, ?hp, []) = Some (?p, 13,
        ?hp\<lparr>hp_field_start := fs, hp_field_len := fl, hp_mark := m\<rparr>,
        [Element RequestMethod 0 (length name), Element RequestPath (length name + 1) (length w + 1),
          Element RequestUri (length name + 1) (length w + 1), Element HttpVersion (length name + length w + 3) 8]
         @ header_events (length name + length w + 13) hs)" (is "_ = Some (_, _, ?hp1, ?es)")
    using request_feed [OF ok] by blast
  have split: "buf = ?u @ crlf_text @ rest" and len: "length ?u = ?p" "length (request_text name w d hs) = ?p + 2"
    by (simp_all add: buf request_text_def crlf_text_def)
  have nth: "buf ! ?p = CHR 0x0D" "buf ! (?p + 1) = CHR 0x0A" "?p + 2 \<le> length buf"
    using nth_append_length_plus [of ?u "crlf_text @ rest" 0] nth_append_length_plus [of ?u "crlf_text @ rest" 1]
    unfolding split len(1) by (simp_all add: crlf_text_def)
  have "run_machine http11_machine log_handler buf 0 1 ?hp [] = run_machine http11_machine log_handler buf ?p 13 ?hp1 ?es"
    using loop_feed [where m = http11_machine and pre = "[]" and buf = buf and w = ?u] f split by simp
  also have "\<dots> = Ret (348, ?p + 2, ?hp1\<lparr>hp_field_start := ?p, hp_body_start := ?p + 2\<rparr>,
      ?es @ [Element HeaderDone (?p + 2) (length buf - (?p + 2))])"
    by (subst loop_finish) (use nth same(4,5) in simp_all)
  also have "?es @ [Element HeaderDone (?p + 2) (length buf - (?p + 2))] = request_events (length buf) name w hs"
    by (simp add: request_events_def Let_def ac_simps)
  finally have l: "run_machine http11_machine log_handler buf 0 1 ?hp [] = Ret (348, ?p + 2,
      ?hp1\<lparr>hp_field_start := ?p, hp_body_start := ?p + 2\<rparr>, request_events (length buf) name w hs)" .
  have "event_run PStart [] = Some PStart" by simp
  from event_log.execute_ok [OF small this, of raw] show ?thesis
    using nth(3) l same len by (auto simp: http_parser_execute_def Let_def http_parser_has_error_def
        http_parser_error_def split: if_splits)
qed

lemma deliver_headers:
  "\<forall>h \<in> set hs. header_ok h \<Longrightarrow> buf = pre @ concat (map header_text hs) @ post \<Longrightarrow> length buf < 2 ^ 31 \<Longrightarrow>
    deliver (request_callbacks buf) (header_events (length pre) hs) (r, err) =
      Ret (foldl (\<lambda>r (k, bl, v). rq_setHeader k v r) r hs, err)"
proof (induction hs arbitrary: pre r)
  case Nil
  then show ?case by simp
next
  case (Cons h hs)
  obtain k bl v where h: "h = (k, bl, v)" by (cases h)
  have k: "k \<noteq> []" using Cons.prems(1) h by (auto simp: header_ok_def)
  have b: "buf = pre @ k @ '':'' @ bl @ v @ crlf_text @ concat (map header_text hs) @ post"
    using Cons.prems(2) by (simp add: h header_text_def)
  have t: "take (length k) (drop (length pre) buf) = k"
    "take (length v) (drop (length pre + length k + 1 + length bl) buf) = v" by (simp_all add: b)
  have s: "length pre + length k \<le> length buf" "length pre + length k + 1 + length bl + length v \<le> length buf"
    by (simp_all add: b)
  have b2: "buf = (pre @ header_text h) @ concat (map header_text hs) @ post" using Cons.prems(2) by simp
  have "deliver (request_callbacks buf) (header_events (length (pre @ header_text h)) hs) (rq_setHeader k v r, err) =
      Ret (foldl (\<lambda>r (k, bl, v). rq_setHeader k v r) (rq_setHeader k v r) hs, err)"
    using Cons.prems by (intro Cons.IH b2) auto
  then show ?case using k t s Cons.prems(3)
    by (simp add: h header_event_def on_request_http_field_def cpp_string_in)
qed

lemma method_name_chars:
  "m \<noteq> INVALID_METHOD \<Longrightarrow> m \<noteq> MSEARCH \<Longrightarrow> HttpMethodToString m \<noteq> [] \<and> length (HttpMethodToString m) \<le> 20
    \<and> (\<forall>c \<in> set (HttpMethodToString m). method_char c)"
  by (cases m) (simp_all add: HttpMethodToString_def method_table_def method_char_def signed_char_def)

lemma request_parsed:
  assumes "m \<noteq> INVALID_METHOD" "m \<noteq> MSEARCH" "\<forall>c \<in> set w. path_char c" "w \<noteq> [] \<longrightarrow> hd w \<noteq> CHR ''/''"
    "d = CHR ''0'' \<or> d = CHR ''1''" "\<forall>h \<in> set hs. header_ok h"
    "data = request_text (HttpMethodToString m) w d hs @ rest" "length data < 2 ^ 31"
  shows "\<exists>tail rp. rp_execute data (HttpRequestParser_new raw) = Ret (length data - length rest, rest @ tail, rp)
    \<and> rp_isFinished rp = 1 \<and> \<not> rp_hasError rp
    \<and> rp_data rp = foldl (\<lambda>r (k, bl, v). rq_setHeader k v r)
        ((HttpRequest_new (if d = CHR ''1'' then 0x11 else 0x10) True)\<lparr>rq_method := m, rq_path := ''/'' @ w\<rparr>) hs"
proof -
  let ?name = "HttpMethodToString m"
  have ok: "request_ok ?name w d hs"
    using assms method_name_chars [of m] by (auto simp: request_ok_def)
  obtain hp' where e: "http_parser_execute log_handler (http_parser_init raw) data 0 [] =
      Ret (length (request_text ?name w d hs), hp', request_events (length data) ?name w hs)" "hp_cs hp' = 348"
    using request_execute [OF ok assms(7,8), of raw] by blast
  have n: "length (request_text ?name w d hs) = length data - length rest" by (simp add: assms(7))
  let ?pre = "?name @ '' '' @ ''/'' @ w @ '' '' @ ''HTTP/1.'' @ d # crlf_text"
  have b: "data = ?pre @ concat (map header_text hs) @ crlf_text @ rest"
    by (simp add: assms(7) request_text_def)
  have m: "CharsToHttpMethod data = m" unfolding b using CharsToHttpMethod_prefix [OF assms(1)] by simp
  have p: "take (length w + 1) (drop (length ?name + 1) data) = ''/'' @ w" by (simp add: b)
  let ?A = "?name @ '' /'' @ w @ '' ''"
    and ?X = "''HTTP/1.'' @ d # crlf_text @ concat (map header_text hs) @ crlf_text @ rest"
  have "data = ?A @ ?X" by (simp add: b)
  then have "drop (length ?A) data = ?X" using append_eq_conv_conj [of ?A ?X data] by metis
  then have v: "drop (length ?name + 1 + length w + 2) data = ?X" by simp
  have s: "length ?name + 1 + (length w + 1) \<le> length data" by (simp add: b)
  let ?v = "if d = CHR ''1'' then 0x11 else 0x10"
  let ?r1 = "(HttpRequest_new ?v True)\<lparr>rq_method := m, rq_path := ''/'' @ w\<rparr>"
  let ?line = "[Element RequestMethod 0 (length ?name), Element RequestPath (length ?name + 1) (length w + 1),
      Element RequestUri (length ?name + 1) (length w + 1), Element HttpVersion (length ?name + 1 + length w + 2) 8]"
  have d1: "deliver (request_callbacks data) ?line (HttpRequest_new 0x11 True, 0) = Ret (?r1, 0)"
    using assms(1,5,8) m p v s by (elim disjE) (simp_all add: on_request_method_def on_request_path_def on_request_uri_def
        on_request_version_def cpp_string_in strncmp_eq_def c_string_def HttpRequest_new_def)
  have d2: "deliver (request_callbacks data) (header_events (length ?pre) hs) (?r1, 0) =
      Ret (foldl (\<lambda>r (k, bl, v). rq_setHeader k v r) ?r1 hs, 0)"
    by (rule deliver_headers [OF assms(6) b assms(8)])
  have lp: "length ?pre = length ?name + length w + 13" by (simp add: crlf_text_def)
  have "request_events (length data) ?name w hs = ?line @ header_events (length ?pre) hs
      @ [Element HeaderDone (length (request_text ?name w d hs)) (length rest)]"
    unfolding lp by (simp add: request_events_def Let_def assms(7) request_text_def crlf_text_def ac_simps)
  then have "deliver (request_callbacks data) (request_events (length data) ?name w hs) (HttpRequest_new 0x11 True, 0) =
      Ret (foldl (\<lambda>r (k, bl, v). rq_setHeader k v r) ?r1 hs, 0)"
    by (simp only: deliver_append d1 d2 obind.simps) (simp add: on_request_header_done_def)
  then have x: "http_parser_execute (request_callbacks data) (http_parser_init raw) data 0 (HttpRequest_new 0x11 True, 0) =
      Ret (length data - length rest, hp', foldl (\<lambda>r (k, bl, v). rq_setHeader k v r) ?r1 hs, 0)"
    by (simp only: http_parser_execute_deliver [OF e(1)] n obind.simps)
  have "drop (length (request_text ?name w d hs)) data = rest" unfolding assms(7) by simp
  then have "move_rest data (length data - length rest) = rest @ drop (length data - (length data - length rest)) data"
    by (simp only: move_rest_def n)
  with x have "rp_execute data (HttpRequestParser_new raw) =
      Ret (length data - length rest, rest @ drop (length data - (length data - length rest)) data,
        \<lparr>rp_parser = hp', rp_data = foldl (\<lambda>r (k, bl, v). rq_setHeader k v r) ?r1 hs, rp_error = 0\<rparr>)"
    by (simp only: rp_execute_def HttpRequestParser_new_def request_parser.simps obind.simps prod.case)
  moreover have "http_parser_finish hp' = 1" "\<not> http_parser_has_error hp'" using e(2)
    by (simp_all add: http_parser_finish_def http_parser_has_error_def http_parser_is_finished_def
        http_parser_error_def http_parser_first_final_def)
  ultimately show ?thesis by (auto simp: rp_isFinished_def rp_hasError_def)
qed

text \<open>C9. Every request of the usual form - a method of the table other than \<open>M-SEARCH\<close>, a path of URI characters,
  version 1.0 or 1.1, any headers with token names and printable values after optional blanks - is parsed
  completely whatever follows it: the parser finishes without error, consumes exactly the request, keeps what
  follows, and the request object holds the method, the path, the version and every header, the last one of
  those with the same name.\<close>

theorem well_formed_request_parsed:
  assumes "m \<noteq> INVALID_METHOD" "m \<noteq> MSEARCH" "\<forall>c \<in> set w. path_char c" "w \<noteq> [] \<longrightarrow> hd w \<noteq> CHR ''/''"
    "d = CHR ''0'' \<or> d = CHR ''1''" "\<forall>h \<in> set hs. header_ok h"
    "data = request_text (HttpMethodToString m) w d hs @ rest" "length data < 2 ^ 31"
  shows "\<exists>tail rp. rp_execute data (HttpRequestParser_new raw) = Ret (length data - length rest, rest @ tail, rp)
    \<and> rp_isFinished rp = 1 \<and> \<not> rp_hasError rp
    \<and> rp_data rp = foldl (\<lambda>r (k, bl, v). rq_setHeader k v r)
        ((HttpRequest_new (if d = CHR ''1'' then 0x11 else 0x10) True)\<lparr>rq_method := m, rq_path := ''/'' @ w\<rparr>) hs"
  using assms by (rule request_parsed)

theorem well_formed_request_parsed_witness:
  "\<exists>n tail rp. rp_execute (request_text ''POST'' ''a'' CHR ''1'' [(''H'', '' '', ''v'')] @ ''body'') (HttpRequestParser_new blank_parser)
      = Ret (n, ''body'' @ tail, rp)
    \<and> rp_isFinished rp = 1 \<and> rp_data rp = (HttpRequest_new 0x11 True)\<lparr>rq_method := POST, rq_path := ''/a'', rq_headers := [(''H'', ''v'')]\<rparr>"
proof -
  have n: "HttpMethodToString POST = ''POST''" by (simp add: HttpMethodToString_def method_table_def)
  have h: "header_ok (''H'', '' '', ''v'')" and p: "\<forall>c \<in> set ''a''. path_char c" by code_simp+
  have l: "length (request_text ''POST'' ''a'' CHR ''1'' [(''H'', '' '', ''v'')] @ ''body'') < 2 ^ 31"
    by (simp add: request_text_def header_text_def crlf_text_def)
  from well_formed_request_parsed [of POST "''a''" "CHR ''1''" "[(''H'', '' '', ''v'')]", unfolded n,
      OF _ _ p _ _ _ refl l, of blank_parser] h
  obtain tail rp where "rp_execute (request_text ''POST'' ''a'' CHR ''1'' [(''H'', '' '', ''v'')] @ ''body'')
      (HttpRequestParser_new blank_parser) = Ret (length (request_text ''POST'' ''a'' CHR ''1'' [(''H'', '' '', ''v'')] @ ''body'')
        - length ''body'', ''body'' @ tail, rp)" "rp_isFinished rp = 1"
    "rp_data rp = rq_setHeader ''H'' ''v'' ((HttpRequest_new 0x11 True)\<lparr>rq_method := POST, rq_path := ''/a''\<rparr>)"
    by auto
  then show ?thesis by (auto simp: rq_setHeader_def map_set_def HttpRequest_new_def)
qed

end
