(* ===== verification/Http_Exchange.thy ===== *)
theory Http_Exchange
  imports HttpParser
begin

text \<open>
  What a client prints with \<open>HttpRequest::dump\<close> (\<open>radixun/http/http.cpp\<close>) and a server parses with
  \<open>HttpRequestParser\<close> (\<open>radixun/http/http_parser.cpp\<close>): the round trip, and the requests it loses.
\<close>

section \<open>A printed request is a well-formed request\<close>

text \<open>The headers \<open>dump\<close> prints, in order.\<close>

definition dump_pieces :: "http_request \<Rightarrow> header_piece list" where
  "dump_pieces r =
     (''connection'', '' '', if rq_close r then ''close'' else ''keep-alive'')
       # map (\<lambda>(k, v). (k, [], v)) (rq_headers r)
       @ (if rq_body r = [] then [] else [(''content-length'', '' '', dec_string (length (rq_body r)))])"

lemma header_lines_plain:
  "\<forall>(k, v) \<in> set m. \<not> is_connection k \<Longrightarrow>
    header_lines '':'' m = concat (map header_text (map (\<lambda>(k, v). (k, [], v)) m))"
  by (induction m) (auto simp: header_lines_def header_text_def crlf_def crlf_text_def)

lemma dump_request_text:
  assumes "rq_path r = ''/'' @ w" "rq_query r = []" "rq_fragment r = []" "rq_version r \<in> {0x10, 0x11}"
    "\<forall>(k, v) \<in> set (rq_headers r). \<not> is_connection k"
  shows "rq_dump r = request_text (HttpMethodToString (rq_method r)) w (if rq_version r = 0x11 then CHR ''1'' else CHR ''0'')
      (dump_pieces r) @ rq_body r"
proof -
  have v: "version_text (rq_version r) = ''HTTP/1.'' @ [if rq_version r = 0x11 then CHR ''1'' else CHR ''0'']"
    using assms(4) by (elim insertE emptyE) (simp_all, code_simp+)
  show ?thesis
    by (simp add: rq_dump_def assms(1-3) v header_lines_plain [OF assms(5)] request_text_def dump_pieces_def
        connection_line_def body_text_def header_text_def crlf_def crlf_text_def)
qed

lemma dec_string_value: "\<forall>c \<in> set (dec_string n). value_char c \<and> \<not> blank_char c"
proof
  fix c assume "c \<in> set (dec_string n)"
  then have c: "(of_char c :: nat) \<in> {48..57} \<union> {97..102}"
    using digits_chars [of 10 n] by (auto simp: dec_string_def)
  define n where "n = (of_char c :: nat)"
  have n: "(of_char c :: int) = int n" by (simp only: n_def of_nat_of_char)
  have "n \<in> {48..57} \<union> {97..102}" using c by (simp only: n_def)
  then show "value_char c \<and> \<not> blank_char c"
    by (auto simp: value_char_def blank_char_def signed_char_def Let_def n)
qed

lemma dump_pieces_ok:
  assumes "\<forall>(k, v) \<in> set (rq_headers r). header_ok (k, [], v)"
  shows "\<forall>h \<in> set (dump_pieces r). header_ok h"
proof -
  have c: "header_ok (''connection'', '' '', ''close'')" "header_ok (''connection'', '' '', ''keep-alive'')"
    by code_simp+
  have t: "\<forall>c \<in> set ''content-length''. token_char c" "\<forall>c \<in> set '' ''. blank_char c" by code_simp+
  have "header_ok (''content-length'', '' '', dec_string n)" for n
    using dec_string_value [of n] t by (simp add: header_ok_def)
  then show ?thesis using assms c by (auto simp: dump_pieces_def)
qed

section \<open>What the parsed headers say\<close>

lemma find_rev_unique:
  assumes "\<And>x y. x \<in> set xs \<Longrightarrow> y \<in> set xs \<Longrightarrow> P x \<Longrightarrow> P y \<Longrightarrow> x = y"
  shows "find P (rev xs) = find P xs"
proof (cases "find P xs")
  case None
  then have "find P (rev xs) = None" by (simp add: find_None_iff)
  then show ?thesis using None by simp
next
  case (Some x)
  then have x: "x \<in> set xs" "P x" by (auto simp: find_Some_iff)
  then have "find P (rev xs) \<noteq> None" by (auto simp: find_None_iff)
  then obtain y where y: "find P (rev xs) = Some y" by blast
  then have "\<exists>i < length xs. P (rev xs ! i) \<and> y = rev xs ! i" by (auto simp: find_Some_iff)
  then have "y \<in> set (rev xs)" "P y" by (metis length_rev nth_mem)+
  then show ?thesis using Some y assms [of x y] x by simp
qed

lemma find_append:
  "find P (xs @ ys) = (case find P xs of None \<Rightarrow> find P ys | Some y \<Rightarrow> Some y)"
  by (induction xs) auto

lemma wf_headers_unique:
  assumes "wf_headers m" "x \<in> set m" "y \<in> set m" "ci_key (fst x) = ci_key (fst y)"
  shows "x = y"
proof -
  obtain i j where ij: "i < length m" "j < length m" "x = m ! i" "y = m ! j"
    using assms(2,3) by (auto simp: in_set_conv_nth)
  have "\<not> i < j" "\<not> j < i"
    using sorted_wrt_nth_less [OF assms(1), of i j] sorted_wrt_nth_less [OF assms(1), of j i] assms(4) ij
    by (auto simp: entry_less_def CaseInsensitiveLess_def)
  then show ?thesis using ij by (metis linorder_neqE_nat)
qed

lemma rq_getHeader_foldl:
  "wf_headers (rq_headers r) \<Longrightarrow> rq_getHeader (foldl (\<lambda>r (k, bl, v). rq_setHeader k v r) r hs) k d =
    (case find (\<lambda>h. ci_key k = ci_key (fst h)) (rev hs) of Some h \<Rightarrow> snd (snd h) | None \<Rightarrow> rq_getHeader r k d)"
proof (induction hs arbitrary: r)
  case Nil
  then show ?case by simp
next
  case (Cons h hs)
  obtain a bl v where h: "h = (a, bl, v)" by (cases h)
  have w: "wf_headers (rq_headers (rq_setHeader a v r))"
    using Cons.prems by (simp add: rq_setHeader_def wf_map_set)
  have g: "rq_getHeader (rq_setHeader a v r) k d = (if ci_key k = ci_key a then v else rq_getHeader r k d)"
    using headers.om_find_assign [OF Cons.prems, of k a v]
    by (simp add: rq_getHeader_def rq_setHeader_def map_get_def map_set_def equiv_ci)
  show ?case using Cons.IH [OF w] by (auto simp: h g find_append split: option.splits)
qed

lemma parsed_header:
  assumes wf: "wf_headers (rq_headers r)" and k: "ci_key k \<noteq> ci_key ''connection''" "ci_key k \<noteq> ci_key ''content-length''"
    and r0: "rq_headers r0 = []"
  shows "rq_getHeader (foldl (\<lambda>r (k, bl, v). rq_setHeader k v r) r0 (dump_pieces r)) k d = rq_getHeader r k d"
proof -
  let ?P = "\<lambda>h. ci_key k = ci_key (fst h)" and ?f = "\<lambda>(k, v). (k, [], v) :: header_piece"
  have f: "find ?P (map ?f m) = map_option ?f (find ?P m)" for m
    by (induction m) auto
  have "find ?P (rev (dump_pieces r)) = find ?P (map ?f (rev (rq_headers r)))"
    using k by (auto simp: dump_pieces_def find_append rev_map split: option.splits)
  also have "\<dots> = map_option ?f (find ?P (rq_headers r))"
    using find_rev_unique [of "rq_headers r" ?P] wf_headers_unique [OF wf] by (simp add: f)
  finally have p: "find ?P (rev (dump_pieces r)) = map_option ?f (find ?P (rq_headers r))" .
  have e: "find (\<lambda>p. equiv CaseInsensitiveLess k (fst p)) (rq_headers r) = find ?P (rq_headers r)"
    by (simp add: equiv_ci)
  have "wf_headers (rq_headers r0)" "rq_getHeader r0 k d = d" using r0
    by (simp_all add: rq_getHeader_def map_get_def om_find_def)
  then show ?thesis
    by (simp add: rq_getHeader_foldl p) (auto simp: rq_getHeader_def map_get_def om_find_def e split: option.splits)
qed

definition printable_request :: "http_request \<Rightarrow> bool" where
  "printable_request r \<longleftrightarrow> rq_method r \<noteq> INVALID_METHOD \<and> rq_method r \<noteq> MSEARCH
     \<and> rq_path r \<noteq> [] \<and> hd (rq_path r) = CHR ''/'' \<and> (\<forall>c \<in> set (rq_path r). path_char c)
     \<and> (tl (rq_path r) \<noteq> [] \<longrightarrow> hd (tl (rq_path r)) \<noteq> CHR ''/'')
     \<and> rq_query r = [] \<and> rq_fragment r = [] \<and> rq_version r \<in> {0x10, 0x11} \<and> wf_headers (rq_headers r)
     \<and> (\<forall>(k, v) \<in> set (rq_headers r). header_ok (k, [], v) \<and> \<not> is_connection k)"

lemma foldl_setHeader_other:
  "rq_method (foldl (\<lambda>r (k, bl, v). rq_setHeader k v r) r hs) = rq_method r
   \<and> rq_path (foldl (\<lambda>r (k, bl, v). rq_setHeader k v r) r hs) = rq_path r
   \<and> rq_version (foldl (\<lambda>r (k, bl, v). rq_setHeader k v r) r hs) = rq_version r"
  by (induction hs arbitrary: r) (auto simp: rq_setHeader_def)

lemma rq_dump_head: "\<exists>h. rq_dump r = h @ rq_body r"
proof -
  have "body_text b = (if b = [] then crlf else ''content-length: '' @ dec_string (length b) @ crlf @ crlf) @ b" for b
    by (simp add: body_text_def)
  then obtain h where h: "body_text (rq_body r) = h @ rq_body r" by blast
  show ?thesis unfolding rq_dump_def h by (simp only: append_assoc [symmetric]) blast
qed

lemma dumped_request_parsed:
  assumes "printable_request r" "data = take (length (rq_dump r) - length (rq_body r)) (rq_dump r) @ rest"
    "length data < 2 ^ 31"
  shows "\<exists>tail rp. rp_execute data (HttpRequestParser_new raw) = Ret (length data - length rest, rest @ tail, rp)
    \<and> rp_isFinished rp = 1 \<and> \<not> rp_hasError rp
    \<and> rp_data rp = foldl (\<lambda>r (k, bl, v). rq_setHeader k v r)
        ((HttpRequest_new (rq_version r) True)\<lparr>rq_method := rq_method r, rq_path := rq_path r\<rparr>) (dump_pieces r)"
proof -
  obtain w where w: "rq_path r = ''/'' @ w"
    using assms(1) by (cases "rq_path r") (auto simp: printable_request_def)
  let ?d = "if rq_version r = 0x11 then CHR ''1'' else CHR ''0''"
  let ?t = "request_text (HttpMethodToString (rq_method r)) w ?d (dump_pieces r)"
  have "rq_dump r = ?t @ rq_body r"
    using assms(1) w by (intro dump_request_text) (auto simp: printable_request_def)
  then have t: "data = ?t @ rest" using assms(2) by simp
  have h: "\<forall>h \<in> set (dump_pieces r). header_ok h"
    using assms(1) by (intro dump_pieces_ok) (auto simp: printable_request_def)
  have v: "(if ?d = CHR ''1'' then 0x11 else 0x10) = rq_version r"
    using assms(1) by (auto simp: printable_request_def)
  show ?thesis
    unfolding w using assms(1,3) w
    by (intro request_parsed [OF _ _ _ _ _ h t, unfolded v]) (auto simp: printable_request_def)
qed

text \<open>C11. What \<open>HttpRequest::dump\<close> prints, \<open>HttpRequestParser\<close> reads back: for a request without query and
  fragment, with a plain path and headers of token names and printable values, the parser finishes on the
  printed text without error, leaves exactly the body behind, and the parsed request has the same method, path
  and version and answers every header lookup, in any capitalisation, as the original, except for the
  connection and content-length lines that printing adds.\<close>

theorem printed_request_roundtrip:
  assumes "printable_request r" "length (rq_dump r) < 2 ^ 31"
  shows "\<exists>tail rp. rp_execute (rq_dump r) (HttpRequestParser_new raw) =
      Ret (length (rq_dump r) - length (rq_body r), rq_body r @ tail, rp)
    \<and> rp_isFinished rp = 1 \<and> \<not> rp_hasError rp
    \<and> rq_method (rp_data rp) = rq_method r \<and> rq_path (rp_data rp) = rq_path r \<and> rq_version (rp_data rp) = rq_version r
    \<and> (\<forall>k d. ci_key k \<noteq> ci_key ''connection'' \<longrightarrow> ci_key k \<noteq> ci_key ''content-length'' \<longrightarrow>
         rq_getHeader (rp_data rp) k d = rq_getHeader r k d)"
proof -
  have wf: "wf_headers (rq_headers r)" using assms(1) by (simp add: printable_request_def)
  let ?r0 = "(HttpRequest_new (rq_version r) True)\<lparr>rq_method := rq_method r, rq_path := rq_path r\<rparr>"
  have "rq_dump r = take (length (rq_dump r) - length (rq_body r)) (rq_dump r) @ rq_body r"
    using rq_dump_head [of r] by auto
  from dumped_request_parsed [OF assms(1) this assms(2), of raw]
  obtain tail rp where p: "rp_execute (rq_dump r) (HttpRequestParser_new raw) =
      Ret (length (rq_dump r) - length (rq_body r), rq_body r @ tail, rp)" "rp_isFinished rp = 1" "\<not> rp_hasError rp"
    and d: "rp_data rp = foldl (\<lambda>r (k, bl, v). rq_setHeader k v r) ?r0 (dump_pieces r)" by blast
  have "rq_headers ?r0 = []" by (simp add: HttpRequest_new_def)
  then have g: "\<forall>k d. ci_key k \<noteq> ci_key ''connection'' \<longrightarrow> ci_key k \<noteq> ci_key ''content-length'' \<longrightarrow>
      rq_getHeader (rp_data rp) k d = rq_getHeader r k d"
    unfolding d using parsed_header [OF wf] by blast
  have "rq_method (rp_data rp) = rq_method r" "rq_path (rp_data rp) = rq_path r" "rq_version (rp_data rp) = rq_version r"
    unfolding d by (auto simp: foldl_setHeader_other HttpRequest_new_def)
  then show ?thesis using p g by blast
qed

theorem printed_request_roundtrip_witness:
  "let r = (HttpRequest_new 0x11 False)\<lparr>rq_method := PUT, rq_path := ''/a'', rq_body := ''hi'', rq_headers := [(''H'', ''v'')]\<rparr>
   in \<exists>tail rp n. rp_execute (rq_dump r) (HttpRequestParser_new blank_parser) = Ret (n, ''hi'' @ tail, rp)
    \<and> rq_method (rp_data rp) = PUT \<and> rq_getHeader (rp_data rp) ''h'' [] = rq_getHeader r ''h'' []"
proof -
  let ?r = "(HttpRequest_new 0x11 False)\<lparr>rq_method := PUT, rq_path := ''/a'', rq_body := ''hi'', rq_headers := [(''H'', ''v'')]\<rparr>"
  have p: "\<forall>c \<in> set ''/a''. path_char c" "header_ok (''H'', [], ''v'')" "\<not> is_connection ''H''"
    "ci_key ''h'' \<noteq> ci_key ''connection''" "ci_key ''h'' \<noteq> ci_key ''content-length''" by code_simp+
  have r: "printable_request ?r"
    using p(1-3) by (simp add: printable_request_def HttpRequest_new_def)
  have "length (rq_dump ?r) < 100" by code_simp
  then have l: "length (rq_dump ?r) < 2 ^ 31" by simp
  show ?thesis unfolding Let_def
    using printed_request_roundtrip [OF r l, of blank_parser] p(4,5) by (auto simp: HttpRequest_new_def)
qed

section \<open>Requests the parser loses\<close>

text \<open>The grammar's method has no hyphen, so the one method of the table that has one cannot be received.\<close>

lemma msearch_rejected:
  "http11_trans relaxed 2 (signed_char CHR ''-'') = Some ([], 0)"
  by (simp add: signed_char_def http11_trans_def http11_states_1_3_def)

text \<open>\<open>query_start\<close> is an offset into the buffer of the read in which the query began; the next read keeps it.\<close>

lemma trans_query_end: "http11_trans relaxed 30 32 = Some ([HQueryString, HRequestUri], 4)"
  by (simp add: http11_trans_def http11_states_29_31_def http11_widec_def)

text \<open>When the data of a read ends inside the query string and the next read begins with the space after it,
  the query's length wraps around and building the string throws \<open>std::length_error\<close> out of \<open>execute\<close>.\<close>

theorem split_query_throws:
  assumes "hp_cs (rp_parser rp) = 30" "0 < hp_query_start (rp_parser rp)" "hp_query_start (rp_parser rp) \<le> 2 ^ 63"
    "data = CHR '' '' # rest" "length data < 2 ^ 31"
  shows "rp_execute data rp = Throw LengthError"
proof -
  have "int (length data - 0) = to_int (length data) - to_int 0" using assms(5) by (simp add: to_int_small)
  moreover have "9223372036854775808 \<le> 18446744073709551616 - hp_query_start (rp_parser rp)" using assms(3) by simp
  ultimately show ?thesis using assms
    by (simp add: rp_execute_def http_parser_execute_def Let_def run_machine.simps [of http11_machine _ _ 0] trans_query_end
        on_request_query_def cpp_string_def size_sub_def split: prod.splits)
qed

theorem split_query_throws_witness:
  "\<exists>n hp d. http_parser_execute (request_callbacks ''GET /a?q'') (http_parser_init blank_parser) ''GET /a?q'' 0
      (HttpRequest_new 0x11 True, 0) = Ret (n, hp, d)
    \<and> rp_execute '' HTTP/1.1'' \<lparr>rp_parser = hp, rp_data = fst d, rp_error = snd d\<rparr> = Throw LengthError"
proof -
  have "case http_parser_execute log_handler (http_parser_init blank_parser) ''GET /a?q'' 0 [] of
      Ret (n, hp, es) \<Rightarrow> n = 8 \<and> hp_cs hp = 30 \<and> hp_query_start hp = 7
        \<and> es = [Element RequestMethod 0 3, Element RequestPath 4 2] | _ \<Rightarrow> False" by code_simp
  then obtain hp where e: "http_parser_execute log_handler (http_parser_init blank_parser) ''GET /a?q'' 0 [] =
      Ret (8, hp, [Element RequestMethod 0 3, Element RequestPath 4 2])" "hp_cs hp = 30" "hp_query_start hp = 7"
    by (auto split: outcome.splits)
  have "\<exists>d. deliver (request_callbacks ''GET /a?q'') [Element RequestMethod 0 3, Element RequestPath 4 2]
      (HttpRequest_new 0x11 True, 0) = Ret d"
    by (simp add: on_request_method_def CharsToHttpMethod_def method_table_def on_request_path_def cpp_string_def)
  then obtain d where d: "deliver (request_callbacks ''GET /a?q'') [Element RequestMethod 0 3, Element RequestPath 4 2]
      (HttpRequest_new 0x11 True, 0) = Ret d" by blast
  have "rp_execute '' HTTP/1.1'' \<lparr>rp_parser = hp, rp_data = fst d, rp_error = snd d\<rparr> = Throw LengthError"
    by (rule split_query_throws) (simp_all add: e(2,3))
  moreover have "http_parser_execute (request_callbacks ''GET /a?q'') (http_parser_init blank_parser) ''GET /a?q'' 0
      (HttpRequest_new 0x11 True, 0) = Ret (8, hp, d)"
    unfolding http_parser_execute_deliver [OF e(1)] d by (rule obind.simps)
  ultimately show ?thesis by blast
qed

end
