(* ===== verification/HttpSession.thy ===== *)
theory HttpSession
  imports Http_Exchange Stream
begin

text \<open>
  \<open>radixun/http/http_session.{h,cpp}\<close>: receiving a request from a socket stream and sending a response.

  \<^item> the stream's virtual \<open>read\<close>, \<open>write\<close> and \<open>close\<close> come in a \<open>stream_env\<close> over the stream's state; for
    an \<open>HttpSession\<close> they are those of \<open>SocketStream\<close> (\<open>socket_env\<close>);
  \<^item> so do the buffer size of the configuration, what freshly allocated memory holds, whether the allocator
    grants a size, and \<open>boost::lexical_cast<uint64_t>\<close>;
  \<^item> the loops have fuel, one unit per \<open>read\<close> or \<open>write\<close>; \<open>None\<close> says that it ran out;
  \<^item> the buffer is a list of \<open>char\<close>s; bytes from and to the socket are converted one by one.
\<close>

section \<open>Outcomes with fuel\<close>

fun then_do :: "('a outcome \<times> 's) option \<Rightarrow> ('a \<Rightarrow> 's \<Rightarrow> ('b outcome \<times> 's) option) \<Rightarrow> ('b outcome \<times> 's) option" where
  "then_do None f = None"
| "then_do (Some (Ret x, s)) f = f x s"
| "then_do (Some (Throw e, s)) f = Some (Throw e, s)"
| "then_do (Some (Fault x, s)) f = Some (Fault x, s)"

lemma then_do_Ret:
  "then_do m f = Some (Ret y, s') \<longleftrightarrow> (\<exists>x s. m = Some (Ret x, s) \<and> f x s = Some (Ret y, s'))"
  by (cases "(m, f)" rule: then_do.cases) auto

lemma then_do_cong:
  "(\<And>x s. m = Some (Ret x, s) \<Longrightarrow> f x s = g x s) \<Longrightarrow> then_do m f = then_do m g"
  by (cases "(m, f)" rule: then_do.cases) auto

record 's stream_env =
  en_read :: "'s reader"
  en_write :: "'s writer"
  en_close :: "'s \<Rightarrow> 's outcome"
  en_buff_size :: nat
  en_memory :: "'s \<Rightarrow> string \<times> http_parser"
  en_grants :: "nat \<Rightarrow> bool"
  en_cast :: "string \<Rightarrow> u64 option"

definition socket_env :: "nat \<Rightarrow> (sock_stream \<Rightarrow> string \<times> http_parser) \<Rightarrow> (nat \<Rightarrow> bool) \<Rightarrow> (string \<Rightarrow> u64 option)
    \<Rightarrow> sock_stream stream_env" where
  "socket_env buff_size memory grants cast =
     \<lparr>en_read = ss_read, en_write = ss_write, en_close = ss_close, en_buff_size = buff_size,
      en_memory = memory, en_grants = grants, en_cast = cast\<rparr>"

text \<open>\<open>close(); return nullptr;\<close>\<close>

definition give_up :: "'s stream_env \<Rightarrow> 's \<Rightarrow> ('a option outcome \<times> 's) option" where
  "give_up en s = (case en_close en s of
     Ret s1 \<Rightarrow> Some (Ret None, s1) | Throw e \<Rightarrow> Some (Throw e, s) | Fault f \<Rightarrow> Some (Fault f, s))"

lemma give_up_None [simp]: "give_up en s \<noteq> Some (Ret (Some x), s')"
  by (simp add: give_up_def split: outcome.splits)

section \<open>Receiving a request\<close>

text \<open>One read into the buffer at the offset; the number is what \<open>read\<close> returned.\<close>

definition read_at :: "'s stream_env \<Rightarrow> string \<Rightarrow> int \<Rightarrow> nat \<Rightarrow> 's \<Rightarrow> (int \<times> string) outcome \<times> 's" where
  "read_at en buffer offset n s =
     (let ((r, d), s1) = en_read en s n
      in if d \<noteq> [] \<and> \<not> (0 \<le> offset \<and> nat offset + length d \<le> length buffer) then (Fault OutOfBounds, s1)
         else (Ret (r, if d = [] then buffer else blit (nat offset) (map char_of_byte d) buffer), s1))"

fun recv_request_loop :: "nat \<Rightarrow> 's stream_env \<Rightarrow> string \<Rightarrow> int \<Rightarrow> request_parser \<Rightarrow> 's
    \<Rightarrow> ((request_parser \<times> string \<times> int) option outcome \<times> 's) option" where
  "recv_request_loop 0 en buffer offset parser s = None"
| "recv_request_loop (Suc fuel) en buffer offset parser s =
     then_do (Some (read_at en buffer offset (to_size (int (en_buff_size en) - offset)) s)) (\<lambda>(r, buffer1) s1.
       if r \<le> 0 then give_up en s1
       else let len = r + offset
            in if \<not> to_size len \<le> length buffer1 then Some (Fault OutOfBounds, s1)
               else then_do (Some (rp_execute (take (to_size len) buffer1) parser, s1)) (\<lambda>(nparse, rest, parser1) s1.
                 if rp_hasError parser1 then give_up en s1
                 else let offset1 = to_int (size_sub (to_size len) nparse);
                          buffer2 = rest @ drop (to_size len) buffer1
                      in if offset1 = to_int (en_buff_size en) then give_up en s1
                         else if rp_isFinished parser1 \<noteq> 0 then Some (Ret (Some (parser1, buffer2, offset1)), s1)
                         else recv_request_loop fuel en buffer2 offset1 parser1 s1))"

text \<open>The body: what the buffer already holds of it, then a fixed-size read of the rest.\<close>

definition recv_body :: "nat \<Rightarrow> 's stream_env \<Rightarrow> string \<Rightarrow> int \<Rightarrow> int \<Rightarrow> 's \<Rightarrow> (string option outcome \<times> 's) option" where
  "recv_body fuel en data offset n s =
     (if \<not> en_grants en (nat n) then Some (Throw BadAlloc, s)
      else let k = nat (if n \<ge> offset then offset else n);
               body = blit 0 (take k data) (replicate (nat n) CHR 0x00);
               left = n - offset
           in if left > 0
              then then_do (readFixSize fuel (en_read en) (nat left) (map byte_of_char (drop k body)) s) (\<lambda>(r, tail) s1.
                if r \<le> 0 then give_up en s1
                else Some (Ret (Some (take k body @ map char_of_byte tail)), s1))
              else Some (Ret (Some body), s))"

definition recvRequest :: "nat \<Rightarrow> 's stream_env \<Rightarrow> 's \<Rightarrow> (http_request option outcome \<times> 's) option" where
  "recvRequest fuel en s =
     (let (memory, raw) = en_memory en s
      in then_do (recv_request_loop fuel en (take (en_buff_size en) memory) 0 (HttpRequestParser_new raw) s) (\<lambda>res s1.
        case res of
          None \<Rightarrow> Some (Ret None, s1)
        | Some (parser, data, offset) \<Rightarrow>
            let n = sint (rp_getContentLength (en_cast en) parser)
            in if n > 0
               then then_do (recv_body fuel en data offset n s1) (\<lambda>body s2.
                 case body of
                   None \<Rightarrow> Some (Ret None, s2)
                 | Some b \<Rightarrow> Some (Ret (Some ((rp_data parser)\<lparr>rq_body := b\<rparr>)), s2))
               else Some (Ret (Some (rp_data parser)), s1)))"

section \<open>Sending a response\<close>

definition sendResponse :: "nat \<Rightarrow> 's stream_env \<Rightarrow> http_response \<Rightarrow> 's \<Rightarrow> (int outcome \<times> 's) option" where
  "sendResponse fuel en rsp s =
     (let data = rs_dump rsp in writeFixSize fuel (en_write en) (length data) (map byte_of_char data) s)"

section \<open>Writing a fixed size\<close>

text \<open>Successive writes that take all of the bytes, each a first part of what is left.\<close>

inductive accepts :: "'s writer \<Rightarrow> 's \<Rightarrow> byte list \<Rightarrow> 's \<Rightarrow> bool" for wr where
  accepts_nil: "accepts wr s [] s"
| accepts_some: "d \<noteq> [] \<Longrightarrow> wr s (d @ ds) = (int (length d), s1) \<Longrightarrow> accepts wr s1 ds s' \<Longrightarrow> accepts wr s (d @ ds) s'"

lemma write_fix_loop_accepts:
  "accepts wr s ds s' \<Longrightarrow> buf = pre @ ds \<Longrightarrow> length buf < 2 ^ 31 \<Longrightarrow> length ds < fuel \<Longrightarrow>
   write_fix_loop fuel wr (length buf) (length pre) (length ds) buf s = Some (Ret (int (length buf)), s')"
proof (induction arbitrary: pre fuel rule: accepts.induct)
  case (accepts_nil s)
  then show ?case by (cases fuel) (simp_all add: to_int_small)
next
  case (accepts_some d s ds s1 s')
  then obtain f where f: "fuel = Suc f" by (cases fuel) auto
  have k: "to_size (int (length d)) = length d" using accepts_some.prems by (simp add: to_size_nonneg)
  have a: "size_add (length pre) (length d) = length (pre @ d)" using accepts_some.prems by (simp add: size_add_def)
  have "length ds < f" using accepts_some.hyps(1) accepts_some.prems(3) f by (cases d) auto
  then have "write_fix_loop f wr (length buf) (length (pre @ d)) (length ds) buf s1 = Some (Ret (int (length buf)), s')"
    using accepts_some.prems by (intro accepts_some.IH) simp_all
  then show ?case using accepts_some f k a by simp
qed

lemma writeFixSize_accepts:
  "accepts wr s ds s' \<Longrightarrow> length ds < 2 ^ 31 \<Longrightarrow> length ds < fuel \<Longrightarrow>
   writeFixSize fuel wr (length ds) ds s = Some (Ret (int (length ds)), s')"
  using write_fix_loop_accepts [of wr s ds s' ds "[]" fuel] by (simp add: writeFixSize_def)

section \<open>A printed request is received\<close>

lemma parsed_header_find:
  assumes "rq_headers r0 = []"
  shows "om_find CaseInsensitiveLess k (rq_headers (foldl (\<lambda>r (k, bl, v). rq_setHeader k v r) r0 hs)) =
    map_option (snd \<circ> snd) (find (\<lambda>h. ci_key k = ci_key (fst h)) (rev hs))" (is "?f = ?g")
proof -
  have "(case ?f of None \<Rightarrow> d | Some v \<Rightarrow> v) = (case ?g of None \<Rightarrow> d | Some v \<Rightarrow> v)" for d
    using rq_getHeader_foldl [of r0 hs k d] assms
    by (auto simp: rq_getHeader_def map_get_def om_find_def split: option.splits)
  from this [of "''a''"] this [of "''b''"] show ?thesis by (auto split: option.splits)
qed

lemma dumped_content_length:
  assumes "rq_headers r0 = []" "\<forall>(k, v) \<in> set (rq_headers r). ci_key k \<noteq> ci_key ''content-length''"
  shows "om_find CaseInsensitiveLess ''content-length'' (rq_headers (foldl (\<lambda>r (k, bl, v). rq_setHeader k v r) r0 (dump_pieces r))) =
    (if rq_body r = [] then None else Some (dec_string (length (rq_body r))))"
proof -
  have c: "ci_key ''content-length'' \<noteq> ci_key ''connection''" by code_simp
  have "find (\<lambda>h. ci_key ''content-length'' = ci_key (fst h)) (rev (map (\<lambda>(k, v). (k, [], v) :: header_piece) (rq_headers r))) = None"
    using assms(2) by (fastforce simp: find_None_iff)
  then show ?thesis unfolding parsed_header_find [OF assms(1)]
    using c by (simp add: dump_pieces_def find_append)
qed

lemma sint_u64: "n < 2 ^ 63 \<Longrightarrow> sint (of_nat n :: u64) = int n"
proof -
  assume "n < 2 ^ 63"
  then have "signed_take_bit 63 (int n) = int n" by (intro signed_take_bit_int_eq_self) auto
  then show ?thesis by (simp add: signed_of_nat)
qed

lemma to_size_int: "n < 2 ^ 31 \<Longrightarrow> to_size (int n) = n"
  by (simp add: to_size_nonneg)

lemma chars_of_bytes [simp]: "map (char_of_byte \<circ> byte_of_char) s = s"
  by (simp add: map_idI)

lemma foldl_setHeader_frame:
  assumes "\<And>r k v. f (rq_setHeader k v r) = f r"
  shows "f (foldl (\<lambda>r (k, bl, v). rq_setHeader k v r) r hs) = f r"
proof (induction hs arbitrary: r)
  case (Cons h hs)
  obtain k bl v where "h = (k, bl, v)" by (cases h)
  then show ?case by (simp only: foldl_Cons prod.case Cons.IH assms)
qed simp

lemma foldl_setHeader_close:
  "rq_close (foldl (\<lambda>r (k, bl, v). rq_setHeader k v r) r hs) = rq_close r"
  by (rule foldl_setHeader_frame) (simp add: rq_setHeader_def)

lemma foldl_setHeader_body:
  "rq_body (foldl (\<lambda>r (k, bl, v). rq_setHeader k v r) r hs) = rq_body r"
  by (rule foldl_setHeader_frame) (simp add: rq_setHeader_def)

lemma rq_body_same: "rq_body r = b \<Longrightarrow> r\<lparr>rq_body := b\<rparr> = r"
  by auto

text \<open>The body: the part that came with the head, then the rest.\<close>

lemma recv_body_delivered:
  assumes "take (length b1) data = b1" "en_grants en (length b1 + length b2)"
    and d: "delivers (en_read en) s (length b2) (map byte_of_char b2) False s'"
    and "length b2 < 2 ^ 31" "length b2 < fuel"
  shows "recv_body fuel en data (int (length b1)) (int (length b1 + length b2)) s = Some (Ret (Some (b1 @ b2)), s')"
proof -
  have b: "blit 0 b1 (replicate (length b1 + length b2) c) = b1 @ replicate (length b2) c" for c :: char
    by (simp add: blit_def)
  have i: "int (length b1 + length b2) - int (length b1) = int (length b2)" by simp
  show ?thesis
  proof (cases "b2 = []")
    case True
    then have "s' = s" using d by (auto elim: delivers_zeroE)
    then show ?thesis using assms(1,2) b True by (simp add: recv_body_def Let_def)
  next
    case False
    have "readFixSize fuel (en_read en) (length b2) (map byte_of_char (replicate (length b2) CHR 0x00)) s
        = Some (Ret (int (length b2), map byte_of_char b2), s')"
      using readFixSize_delivers [OF d assms(5) _ assms(4), of "map byte_of_char (replicate (length b2) CHR 0x00)"] by simp
    then show ?thesis using assms(1,2) b False
      unfolding recv_body_def Let_def i by (simp del: of_nat_add)
  qed
qed

text \<open>The request object the server builds from the printed text.\<close>

definition received :: "http_request \<Rightarrow> http_request" where
  "received r =
     (foldl (\<lambda>r (k, bl, v). rq_setHeader k v r)
        ((HttpRequest_new (rq_version r) True)\<lparr>rq_method := rq_method r, rq_path := rq_path r\<rparr>)
        (dump_pieces r))\<lparr>rq_body := rq_body r\<rparr>"

lemma received_fields:
  "rq_method (received r) = rq_method r" "rq_path (received r) = rq_path r" "rq_version (received r) = rq_version r"
  "rq_body (received r) = rq_body r" "rq_close (received r)"
  by (simp_all add: received_def foldl_setHeader_other foldl_setHeader_close HttpRequest_new_def)

lemma received_header:
  assumes "wf_headers (rq_headers r)" "ci_key k \<noteq> ci_key ''connection''" "ci_key k \<noteq> ci_key ''content-length''"
  shows "rq_getHeader (received r) k d = rq_getHeader r k d"
  using parsed_header [OF assms, of "(HttpRequest_new (rq_version r) True)\<lparr>rq_method := rq_method r, rq_path := rq_path r\<rparr>" d]
  by (simp add: received_def rq_getHeader_def HttpRequest_new_def)

lemma recvRequest_printed:
  assumes p: "printable_request r" "\<forall>(k, v) \<in> set (rq_headers r). ci_key k \<noteq> ci_key ''content-length''"
    and dump: "rq_dump r = sent @ later" "length later \<le> length (rq_body r)" "length (rq_dump r) < 2 ^ 31"
    and first: "en_read en s (en_buff_size en) = ((int (length sent), map byte_of_char sent), s1)"
      "length sent \<le> en_buff_size en" "en_buff_size en < 2 ^ 31" "en_buff_size en \<le> length (fst (en_memory en s))"
    and rest: "delivers (en_read en) s1 (length later) (map byte_of_char later) False s2"
    and env: "en_grants en (length (rq_body r))"
      "en_cast en (dec_string (length (rq_body r))) = Some (of_nat (length (rq_body r)))"
    and fuel: "length later < fuel"
  shows "recvRequest fuel en s = Some (Ret (Some (received r)), s2)"
proof -
  obtain h where h: "rq_dump r = h @ rq_body r" using rq_dump_head by blast
  define b1 where "b1 = take (length (rq_body r) - length later) (rq_body r)"
  have "rq_body r = b1 @ later \<and> sent = h @ b1"
  proof -
    have "length sent = length h + (length (rq_body r) - length later)"
      using arg_cong [OF h, of length] dump(1,2) by simp
    then have "sent = h @ b1" using arg_cong [OF h, of "take (length sent)"] unfolding dump(1) by (simp add: b1_def)
    then show ?thesis using h unfolding dump(1) by simp
  qed
  then have body: "rq_body r = b1 @ later" and sent: "sent = h @ b1" by auto
  obtain f where f: "fuel = Suc f" using fuel by (cases fuel) auto
  obtain memory raw where m: "en_memory en s = (memory, raw)" by (cases "en_memory en s")
  let ?req = "foldl (\<lambda>r (k, bl, v). rq_setHeader k v r)
        ((HttpRequest_new (rq_version r) True)\<lparr>rq_method := rq_method r, rq_path := rq_path r\<rparr>) (dump_pieces r)"
  have "sent = take (length (rq_dump r) - length (rq_body r)) (rq_dump r) @ b1" unfolding h sent by simp
  moreover have small: "length sent < 2 ^ 31" using first(2,3) by simp
  ultimately obtain tail rp where rp: "rp_execute sent (HttpRequestParser_new raw) = Ret (length sent - length b1, b1 @ tail, rp)"
    "rp_isFinished rp = 1" "\<not> rp_hasError rp" "rp_data rp = ?req"
    using dumped_request_parsed [OF p(1)] by blast
  have hne: "h \<noteq> []" proof -
    have "length (rq_body r) \<le> length (body_text (rq_body r))" by (simp add: body_text_def)
    then have "length (rq_body r) < length (rq_dump r)" by (simp add: rq_dump_def)
    then show ?thesis unfolding h by auto
  qed
  have l: "length sent - (length sent - length b1) = length b1" "length b1 < length sent" using hne by (simp_all add: sent)
  have sne: "sent \<noteq> []" using hne by (simp add: sent)
  have o1: "to_int (size_sub (length sent) (length sent - length b1)) = int (length b1)"
    using l small by (simp add: to_int_small)
  have o2: "to_int (en_buff_size en) = int (en_buff_size en)" using first(3) by (simp add: to_int_small)
  define buffer1 where "buffer1 = blit 0 sent (take (en_buff_size en) memory)"
  have bl: "length (take (en_buff_size en) memory) = en_buff_size en" using first(4) m by simp
  have b1e: "buffer1 = sent @ drop (length sent) (take (en_buff_size en) memory)" by (simp add: buffer1_def blit_def)
  have cap: "to_size (int (en_buff_size en) - 0) = en_buff_size en" using first(3) by (simp add: to_size_int)
  have "read_at en (take (en_buff_size en) memory) 0 (en_buff_size en) s = (Ret (int (length sent), buffer1), s1)"
    using first(1,2) bl hne by (simp add: read_at_def buffer1_def sent)
  moreover have "to_size (int (length sent) + 0) = length sent" using small by (simp add: to_size_int)
  moreover have "length sent \<le> length buffer1" "take (length sent) buffer1 = sent" by (simp_all add: b1e)
  ultimately have loop: "recv_request_loop fuel en (take (en_buff_size en) memory) 0 (HttpRequestParser_new raw) s =
      Some (Ret (Some (rp, (b1 @ tail) @ drop (length sent) buffer1, int (length b1))), s1)"
    using rp(1-3) o1 o2 l(2) first(2) sne unfolding f recv_request_loop.simps cap
    by (simp add: Let_def)
  have len: "length (rq_body r) < 2 ^ 63" using dump(3) h by simp
  have hd: "rq_headers ((HttpRequest_new (rq_version r) True)\<lparr>rq_method := rq_method r, rq_path := rq_path r\<rparr>) = []"
    by (simp add: HttpRequest_new_def)
  have n: "sint (rp_getContentLength (en_cast en) rp) = int (length b1 + length later)"
    using env(2) sint_u64 [OF len] unfolding body
    by (simp add: rp_getContentLength_def rq_getHeaderAs_def getAs_def rp(4) dumped_content_length [OF hd p(2)] body)
  have grants: "en_grants en (length b1 + length later)" using env(1) by (simp add: body)
  have "length later < 2 ^ 31" using dump(1,3) by simp
  then have rb: "recv_body fuel en ((b1 @ tail) @ drop (length sent) buffer1) (int (length b1)) (int (length b1 + length later)) s1 =
      Some (Ret (Some (rq_body r)), s2)"
    unfolding body using fuel by (intro recv_body_delivered grants rest) simp_all
  have "recvRequest fuel en s = Some (Ret (Some (?req\<lparr>rq_body := rq_body r\<rparr>)), s2)" 
  proof (cases "rq_body r = []")
    case True
    then have "s2 = s1" "b1 = []" "later = []" using rest body by (auto elim: delivers_zeroE)
    moreover have "?req\<lparr>rq_body := []\<rparr> = ?req"
      by (rule rq_body_same) (simp add: foldl_setHeader_body HttpRequest_new_def)
    ultimately show ?thesis using loop n rp(4) True
      by (simp only: recvRequest_def m prod.case then_do.simps option.case Let_def) simp
  next
    case False
    then have "0 < length b1 + length later" unfolding body by auto
    then have "0 < int (length b1 + length later)" by (simp only: of_nat_0_less_iff)
    then show ?thesis using loop n rb rp(4) by (simp only: recvRequest_def m prod.case then_do.simps option.case Let_def if_True)
  qed
  then show ?thesis by (simp only: received_def)
qed

end
