(* ===== verification/Servlet.thy ===== *)
theory Servlet
  imports Http
begin

text \<open>
  \<open>radixun/http/servlet.{h,cpp}\<close>: servlets and the dispatcher that routes a request to one of them.

  \<^item> a servlet is its name and its virtual \<open>handle\<close>, a function of the request, the response and the session,
    which the source passes by pointer and the handler returns changed; \<open>Servlet::ptr\<close> is an option;
  \<^item> a callback is an option too: calling an empty \<open>std::function\<close> throws;
  \<^item> \<open>fnmatch\<close> is an argument. Each operation runs under the dispatcher's lock, so it is one step.
\<close>

section \<open>Servlets\<close>

type_synonym 's handler =
  "http_request \<Rightarrow> http_response \<Rightarrow> 's \<Rightarrow> (int \<times> http_request \<times> http_response \<times> 's) outcome"

record 's servlet =
  sv_name :: string
  sv_handle :: "'s handler"

definition FunctionServlet_handle :: "'s handler option \<Rightarrow> 's handler" where
  "FunctionServlet_handle cb request response session =
     (case cb of None \<Rightarrow> Throw BadFunctionCall | Some f \<Rightarrow> f request response session)"

definition FunctionServlet :: "'s handler option \<Rightarrow> 's servlet" where
  "FunctionServlet cb = \<lparr>sv_name = ''FunctionServlet'', sv_handle = FunctionServlet_handle cb\<rparr>"

definition RSP_BODY :: string where
  "RSP_BODY = ''<html><head><title>404 Not Found'' @
     ''</title></head><body><center><h1>404 Not Found</h1></center>'' @
     ''<hr><center>radixun/1.0.0</center></body></html>''"

definition NotFoundServlet_handle :: "'s handler" where
  "NotFoundServlet_handle request response session =
     Ret (0, request,
          (rs_setHeader ''Content-Type'' ''text/html''
            (rs_setHeader ''Server'' ''radixun/1.0.0'' (response\<lparr>rs_status := 404\<rparr>)))\<lparr>rs_body := RSP_BODY\<rparr>,
          session)"

definition NotFoundServlet :: "'s servlet" where
  "NotFoundServlet = \<lparr>sv_name = ''NotFoundServlet'', sv_handle = NotFoundServlet_handle\<rparr>"

section \<open>The dispatcher\<close>

record 's servlet_dispatch =
  sd_datas :: "string \<rightharpoonup> 's servlet option"
  sd_globs :: "(string \<times> 's servlet option) list"
  sd_default :: "'s servlet option"

definition ServletDispatch_new :: "'s servlet_dispatch" where
  "ServletDispatch_new = \<lparr>sd_datas = Map.empty, sd_globs = [], sd_default = Some NotFoundServlet\<rparr>"

definition addServlet :: "string \<Rightarrow> 's servlet option \<Rightarrow> 's servlet_dispatch \<Rightarrow> 's servlet_dispatch" where
  "addServlet uri slt d = d\<lparr>sd_datas := (sd_datas d)(uri \<mapsto> slt)\<rparr>"

definition addServlet_cb :: "string \<Rightarrow> 's handler option \<Rightarrow> 's servlet_dispatch \<Rightarrow> 's servlet_dispatch" where
  "addServlet_cb uri cb d = d\<lparr>sd_datas := (sd_datas d)(uri \<mapsto> Some (FunctionServlet cb))\<rparr>"

text \<open>The loop that erases the first entry of a pattern and breaks.\<close>

fun erase_glob :: "string \<Rightarrow> (string \<times> 'a) list \<Rightarrow> (string \<times> 'a) list" where
  "erase_glob uri [] = []"
| "erase_glob uri (g # gs) = (if fst g = uri then gs else g # erase_glob uri gs)"

definition addGlobServlet :: "string \<Rightarrow> 's servlet option \<Rightarrow> 's servlet_dispatch \<Rightarrow> 's servlet_dispatch" where
  "addGlobServlet uri slt d = d\<lparr>sd_globs := erase_glob uri (sd_globs d) @ [(uri, slt)]\<rparr>"

definition addGlobServlet_cb :: "string \<Rightarrow> 's handler option \<Rightarrow> 's servlet_dispatch \<Rightarrow> 's servlet_dispatch" where
  "addGlobServlet_cb uri cb d = addGlobServlet uri (Some (FunctionServlet cb)) d"

definition delServlet :: "string \<Rightarrow> 's servlet_dispatch \<Rightarrow> 's servlet_dispatch" where
  "delServlet uri d = d\<lparr>sd_datas := (sd_datas d)(uri := None)\<rparr>"

definition delGlobServlet :: "string \<Rightarrow> 's servlet_dispatch \<Rightarrow> 's servlet_dispatch" where
  "delGlobServlet uri d = d\<lparr>sd_globs := erase_glob uri (sd_globs d)\<rparr>"

definition setDefault :: "'s servlet option \<Rightarrow> 's servlet_dispatch \<Rightarrow> 's servlet_dispatch" where
  "setDefault v d = d\<lparr>sd_default := v\<rparr>"

definition getServlet :: "'s servlet_dispatch \<Rightarrow> string \<Rightarrow> 's servlet option" where
  "getServlet d uri = (case sd_datas d uri of None \<Rightarrow> None | Some slt \<Rightarrow> slt)"

fun find_glob :: "(string \<Rightarrow> bool) \<Rightarrow> (string \<times> 'a) list \<Rightarrow> 'a option" where
  "find_glob P [] = None"
| "find_glob P (g # gs) = (if P (fst g) then Some (snd g) else find_glob P gs)"

definition getGlobServlet :: "'s servlet_dispatch \<Rightarrow> string \<Rightarrow> 's servlet option" where
  "getGlobServlet d uri =
     (case find_glob (\<lambda>p. p = uri) (sd_globs d) of None \<Rightarrow> None | Some slt \<Rightarrow> slt)"

definition glob_matches :: "(string \<Rightarrow> string \<Rightarrow> int \<Rightarrow> int) \<Rightarrow> string \<Rightarrow> string \<Rightarrow> bool" where
  "glob_matches fnmatch uri pattern \<longleftrightarrow> fnmatch (c_string pattern) (c_string uri) 0 = 0"

definition getMatchedServlet ::
  "(string \<Rightarrow> string \<Rightarrow> int \<Rightarrow> int) \<Rightarrow> 's servlet_dispatch \<Rightarrow> string \<Rightarrow> 's servlet option" where
  "getMatchedServlet fnmatch d uri =
     (case sd_datas d uri of
        Some slt \<Rightarrow> slt
      | None \<Rightarrow> (case find_glob (glob_matches fnmatch uri) (sd_globs d) of
          Some slt \<Rightarrow> slt
        | None \<Rightarrow> sd_default d))"

text \<open>The value the servlet returns is dropped.\<close>

definition ServletDispatch_handle ::
  "(string \<Rightarrow> string \<Rightarrow> int \<Rightarrow> int) \<Rightarrow> 's servlet_dispatch \<Rightarrow> 's handler" where
  "ServletDispatch_handle fnmatch d request response session =
     (case getMatchedServlet fnmatch d (rq_path request) of
        None \<Rightarrow> Ret (0, request, response, session)
      | Some slt \<Rightarrow> obind (sv_handle slt request response session) (\<lambda>(_, r). Ret (0, r)))"

definition ServletDispatch :: "(string \<Rightarrow> string \<Rightarrow> int \<Rightarrow> int) \<Rightarrow> 's servlet_dispatch \<Rightarrow> 's servlet" where
  "ServletDispatch fnmatch d = \<lparr>sv_name = ''ServletDispatch'', sv_handle = ServletDispatch_handle fnmatch d\<rparr>"

section \<open>Routing as a function of the history\<close>

datatype 's route_op =
    Add string "'s servlet option" | AddCb string "'s handler option"
  | AddGlob string "'s servlet option" | AddGlobCb string "'s handler option"
  | Del string | DelGlob string | SetDefault "'s servlet option"

primrec route_step :: "'s route_op \<Rightarrow> 's servlet_dispatch \<Rightarrow> 's servlet_dispatch" where
  "route_step (Add u s) = addServlet u s"
| "route_step (AddCb u c) = addServlet_cb u c"
| "route_step (AddGlob u s) = addGlobServlet u s"
| "route_step (AddGlobCb u c) = addGlobServlet_cb u c"
| "route_step (Del u) = delServlet u"
| "route_step (DelGlob u) = delGlobServlet u"
| "route_step (SetDefault v) = setDefault v"

text \<open>What an operation says of the exact routes, of the patterns and of the default: \<open>Some (key, None)\<close> removes.\<close>

fun exact_change :: "'s route_op \<Rightarrow> (string \<times> 's servlet option option) option" where
  "exact_change (Add u s) = Some (u, Some s)"
| "exact_change (AddCb u c) = Some (u, Some (Some (FunctionServlet c)))"
| "exact_change (Del u) = Some (u, None)"
| "exact_change _ = None"

fun glob_change :: "'s route_op \<Rightarrow> (string \<times> 's servlet option option) option" where
  "glob_change (AddGlob u s) = Some (u, Some s)"
| "glob_change (AddGlobCb u c) = Some (u, Some (Some (FunctionServlet c)))"
| "glob_change (DelGlob u) = Some (u, None)"
| "glob_change _ = None"

fun default_change :: "'s route_op \<Rightarrow> 's servlet option option" where
  "default_change (SetDefault v) = Some v"
| "default_change _ = None"

text \<open>The history is read from its newest operation: the last one about a path decides.\<close>

fun newest_exact :: "string \<Rightarrow> 's route_op list \<Rightarrow> 's servlet option option" where
  "newest_exact u [] = None"
| "newest_exact u (r # ops) =
     (case exact_change r of
        Some (k, v) \<Rightarrow> if k = u then v else newest_exact u ops
      | None \<Rightarrow> newest_exact u ops)"

fun newest_default :: "'s route_op list \<Rightarrow> 's servlet option" where
  "newest_default [] = Some NotFoundServlet"
| "newest_default (r # ops) = (case default_change r of Some v \<Rightarrow> v | None \<Rightarrow> newest_default ops)"

text \<open>The live patterns, newest first; a pattern counts from its last registration.\<close>

fun live_globs :: "string set \<Rightarrow> 's route_op list \<Rightarrow> (string \<times> 's servlet option) list" where
  "live_globs seen [] = []"
| "live_globs seen (r # ops) =
     (case glob_change r of
        Some (k, v) \<Rightarrow>
          if k \<in> seen then live_globs seen ops
          else (case v of None \<Rightarrow> [] | Some s \<Rightarrow> [(k, s)]) @ live_globs (insert k seen) ops
      | None \<Rightarrow> live_globs seen ops)"

definition route :: "(string \<Rightarrow> string \<Rightarrow> int \<Rightarrow> int) \<Rightarrow> 's route_op list \<Rightarrow> string \<Rightarrow> 's servlet option" where
  "route fnmatch ops uri =
     (case newest_exact uri (rev ops) of
        Some s \<Rightarrow> s
      | None \<Rightarrow> (case find (\<lambda>g. glob_matches fnmatch uri (fst g)) (rev (live_globs {} (rev ops))) of
          Some g \<Rightarrow> snd g
        | None \<Rightarrow> newest_default (rev ops)))"

lemma find_glob_find: "find_glob P gs = map_option snd (find (\<lambda>g. P (fst g)) gs)"
  by (induction gs) auto

lemma erase_glob_filter: "distinct (map fst gs) \<Longrightarrow> erase_glob u gs = filter (\<lambda>g. fst g \<noteq> u) gs"
proof (induction gs)
  case (Cons g gs)
  have "fst g = u \<Longrightarrow> filter (\<lambda>g. fst g \<noteq> u) gs = gs"
    using Cons.prems by (metis (mono_tags, lifting) filter_True image_eqI list.set_map list.simps(9) distinct.simps(2))
  then show ?case using Cons by auto
qed simp

lemma live_globs_seen: "live_globs (A \<union> B) ops = filter (\<lambda>g. fst g \<notin> A) (live_globs B ops)"
proof (induction ops arbitrary: B)
  case (Cons r ops)
  show ?case
  proof (cases "glob_change r")
    case (Some kv)
    obtain k v where kv: "kv = (k, v)" by (cases kv)
    have "live_globs (insert k (A \<union> B)) ops = filter (\<lambda>g. fst g \<notin> A) (live_globs (insert k B) ops)"
      using Cons.IH [of "insert k B"] by simp
    moreover have "k \<in> A \<Longrightarrow> insert k (A \<union> B) = A \<union> B" by auto
    ultimately show ?thesis using Cons.IH [of B] by (auto simp: Some kv split: option.splits)
  qed (simp add: Cons.IH)
qed simp

lemma live_globs_insert: "live_globs {k} ops = filter (\<lambda>g. fst g \<noteq> k) (live_globs {} ops)"
  using live_globs_seen [of "{k}" "{}" ops] by simp

lemma live_globs_distinct: "distinct (map fst (live_globs A ops)) \<and> fst ` set (live_globs A ops) \<inter> A = {}"
proof (induction ops arbitrary: A)
  case (Cons r ops)
  show ?case
  proof (cases "glob_change r")
    case (Some kv)
    then show ?thesis using Cons.IH [of A] Cons.IH [of "insert (fst kv) A"]
      by (auto simp: case_prod_beta split: option.splits)
  qed (simp add: Cons.IH)
qed simp

text \<open>The state the dispatcher keeps is the summary of its history.\<close>

lemma dispatch_state:
  "sd_datas (fold route_step ops ServletDispatch_new) u = newest_exact u (rev ops)
   \<and> sd_default (fold route_step ops ServletDispatch_new) = newest_default (rev ops)
   \<and> sd_globs (fold route_step ops ServletDispatch_new) = rev (live_globs {} (rev ops))"
proof (induction ops rule: rev_induct)
  case Nil
  then show ?case by (simp add: ServletDispatch_new_def)
next
  case (snoc r ops)
  have "distinct (map fst (rev (live_globs {} (rev ops))))"
    using live_globs_distinct [of "{}" "rev ops"] by (simp flip: rev_map)
  then have e: "erase_glob k (rev (live_globs {} (rev ops))) = rev (live_globs {k} (rev ops))" for k
    by (simp add: erase_glob_filter live_globs_insert rev_filter)
  show ?case using snoc
    by (cases r) (simp_all add: e addServlet_def addServlet_cb_def addGlobServlet_def addGlobServlet_cb_def
        delServlet_def delGlobServlet_def setDefault_def)
qed

text \<open>C24. Routing after any sequence of registrations and removals: the last one about the exact path decides;
  without one, the matching pattern registered first, counted from its last registration; else the default.\<close>

theorem routing_by_history:
  "getMatchedServlet fnmatch (fold route_step ops ServletDispatch_new) uri = route fnmatch ops uri"
  using dispatch_state [of ops uri]
  by (auto simp: getMatchedServlet_def route_def find_glob_find option.case_eq_if split: option.splits)

section \<open>Unmatched requests\<close>

text \<open>What a client sees for a path nobody registered: a complete 404 page.\<close>

lemma not_found_response:
  assumes "getMatchedServlet fnmatch d (rq_path request) = Some NotFoundServlet"
  shows "ServletDispatch_handle fnmatch d request response session =
    Ret (0, request, response\<lparr>rs_status := 404, rs_body := RSP_BODY,
      rs_headers := map_set ''Content-Type'' ''text/html''
        (map_set ''Server'' ''radixun/1.0.0'' (rs_headers response))\<rparr>, session)"
  using assms by (simp add: ServletDispatch_handle_def NotFoundServlet_def NotFoundServlet_handle_def rs_setHeader_def)

end
