(* ===== verification/HttpServer.thy ===== *)
theory HttpServer
  imports HttpSession Servlet TcpServer
begin

text \<open>
  \<open>radixun/http/http_server.{h,cpp}\<close>: the server that handles a client with a session and the dispatcher.

  \<^item> an \<open>http_server\<close> extends the \<open>tcp_server\<close> record; \<open>handleClient\<close> loops over the requests of one
    connection, with fuel for the requests and for every stream loop;
  \<^item> the servlets get the session's state; log output is left out.
\<close>

record 's http_server = tcp_server +
  hs_isKeepalive :: bool
  hs_dispatch :: "'s servlet_dispatch"

definition HttpServer_new :: "bool \<Rightarrow> u64 \<Rightarrow> 's http_server" where
  "HttpServer_new keepalive read_timeout =
     tcp_server.extend (TcpServer_new read_timeout) (http_server.fields keepalive ServletDispatch_new)"

definition setServletDispatch :: "'s servlet_dispatch \<Rightarrow> 's http_server \<Rightarrow> 's http_server" where
  "setServletDispatch v srv = srv\<lparr>hs_dispatch := v\<rparr>"

text \<open>The response a request starts with.\<close>

definition new_response :: "'s http_server \<Rightarrow> http_request \<Rightarrow> http_response" where
  "new_response srv req =
     rs_setHeader ''Server'' (ts_name srv) (HttpResponse_new (rq_version req) (rq_close req \<or> \<not> hs_isKeepalive srv))"

definition close_session :: "'s stream_env \<Rightarrow> 's \<Rightarrow> (unit outcome \<times> 's) option" where
  "close_session en s = (case en_close en s of
     Ret s1 \<Rightarrow> Some (Ret (), s1) | Throw e \<Rightarrow> Some (Throw e, s) | Fault f \<Rightarrow> Some (Fault f, s))"

fun handleClient :: "nat \<Rightarrow> (string \<Rightarrow> string \<Rightarrow> int \<Rightarrow> int) \<Rightarrow> 's stream_env \<Rightarrow> 's http_server \<Rightarrow> 's
    \<Rightarrow> (unit outcome \<times> 's) option" where
  "handleClient 0 fnmatch en srv s = None"
| "handleClient (Suc fuel) fnmatch en srv s =
     then_do (recvRequest fuel en s) (\<lambda>req s1.
       case req of
         None \<Rightarrow> close_session en s1
       | Some request \<Rightarrow>
           (case ServletDispatch_handle fnmatch (hs_dispatch srv) request (new_response srv request) s1 of
              Throw e \<Rightarrow> Some (Throw e, s1)
            | Fault f \<Rightarrow> Some (Fault f, s1)
            | Ret (_, request1, rsp, s2) \<Rightarrow>
                then_do (sendResponse fuel en rsp s2) (\<lambda>_ s3.
                  if \<not> hs_isKeepalive srv \<or> rq_close request1 then close_session en s3
                  else handleClient fuel fnmatch en srv s3)))"

section \<open>Keep-alive has no effect\<close>

text \<open>A callback keeps the \<open>close\<close> flag of the request it fills.\<close>

lemma request_callbacks_close:
  "request_callbacks buf e d = Ret d' \<Longrightarrow> rq_close (fst d') = rq_close (fst d)"
proof (cases e)
  case (Element k at n)
  then show "request_callbacks buf e d = Ret d' \<Longrightarrow> rq_close (fst d') = rq_close (fst d)"
    by (cases d; cases k) (auto simp: on_request_method_def on_request_uri_def on_request_fragment_def
        on_request_path_def on_request_query_def on_request_version_def on_request_header_done_def
        Let_def obind_Ret_iff split: if_splits)
next
  case (HttpField f fl v vl)
  then show "request_callbacks buf e d = Ret d' \<Longrightarrow> rq_close (fst d') = rq_close (fst d)"
    by (cases d) (auto simp: on_request_http_field_def rq_setHeader_def obind_Ret_iff split: if_splits)
qed

lemma rp_execute_close:
  assumes "rp_execute data rp = Ret (n, rest, rp')"
  shows "rq_close (rp_data rp') = rq_close (rp_data rp)"
proof -
  have "rq_close (fst d') = rq_close (fst d)"
    if "run_machine http11_machine (request_callbacks data) data 0 cs hp d = Ret (cs', p', hp', d')" for cs hp d cs' p' hp' d'
    using run_machine_keeps [of "request_callbacks data" "\<lambda>d. rq_close (fst d)", OF request_callbacks_close that] .
  then show ?thesis using assms
    by (auto simp: rp_execute_def http_parser_execute_def Let_def obind_Ret_iff split: if_splits)
qed

lemma recv_request_loop_close:
  "recv_request_loop fuel en buffer offset parser s = Some (Ret (Some (parser', b', o')), s') \<Longrightarrow>
   rq_close (rp_data parser') = rq_close (rp_data parser)"
proof (induction fuel arbitrary: buffer offset parser s)
  case (Suc fuel)
  show ?case
  proof -
    obtain r buffer1 s1 where rd: "read_at en buffer offset (to_size (int (en_buff_size en) - offset)) s = (Ret (r, buffer1), s1)"
      using Suc.prems by (cases "read_at en buffer offset (to_size (int (en_buff_size en) - offset)) s")
        (auto elim: then_do.elims)
    let ?len = "to_size (r + offset)"
    obtain n rest parser1 where ex: "rp_execute (take ?len buffer1) parser = Ret (n, rest, parser1)"
      using Suc.prems rd by (cases "rp_execute (take ?len buffer1) parser") (auto simp: Let_def split: if_splits)
    then have c: "rq_close (rp_data parser1) = rq_close (rp_data parser)" by (rule rp_execute_close)
    show ?thesis using Suc.prems Suc.IH [of "rest @ drop ?len buffer1" "to_int (size_sub ?len n)" parser1 s1] rd ex c
      by (auto simp: Let_def split: if_splits)
  qed
qed simp

lemma recv_body_result:
  "recvRequest fuel en s = Some (Ret (Some req), s') \<Longrightarrow> rq_close req"
proof -
  assume a: "recvRequest fuel en s = Some (Ret (Some req), s')"
  obtain memory raw where m: "en_memory en s = (memory, raw)" by (cases "en_memory en s")
  let ?k = "\<lambda>res s1. case res of
          None \<Rightarrow> Some (Ret None, s1)
        | Some (parser, data, offset) \<Rightarrow>
            let n = sint (rp_getContentLength (en_cast en) parser)
            in if n > 0
               then then_do (recv_body fuel en data offset n s1) (\<lambda>body s2.
                 case body of
                   None \<Rightarrow> Some (Ret None, s2)
                 | Some b \<Rightarrow> Some (Ret (Some ((rp_data parser)\<lparr>rq_body := b\<rparr>)), s2))
               else Some (Ret (Some (rp_data parser)), s1)"
  obtain res s1 where l: "recv_request_loop fuel en (take (en_buff_size en) memory) 0 (HttpRequestParser_new raw) s =
      Some (Ret res, s1)" and k: "?k res s1 = Some (Ret (Some req), s')"
    using a unfolding recvRequest_def m prod.case Let_def then_do_Ret by blast
  obtain parser b' o' where p: "res = Some (parser, b', o')" using k by (cases res) auto
  have b: "req = rp_data parser \<or> (\<exists>body. req = (rp_data parser)\<lparr>rq_body := body\<rparr>)"
    using k unfolding p by (auto simp: Let_def then_do_Ret split: if_splits option.splits)
  have "rq_close (rp_data parser)" using recv_request_loop_close [OF l [unfolded p]]
    by (simp add: HttpRequestParser_new_def HttpRequest_new_def)
  then show ?thesis using b by auto
qed

text \<open>C28. Keep-alive never takes effect: the parser leaves the request's \<open>close\<close> flag as the constructor set it,
  so with servlets that do not change the flag a server with keep-alive and one without behave the same on
  every connection - one request, a response that says \<open>connection: close\<close>, and the connection is closed.\<close>

theorem keepalive_without_effect:
  assumes "\<And>req rsp t n req' rsp' t'. ServletDispatch_handle fnmatch (hs_dispatch srv) req rsp t = Ret (n, req', rsp', t')
    \<Longrightarrow> rq_close req' = rq_close req"
  shows "handleClient fuel fnmatch en (srv\<lparr>hs_isKeepalive := True\<rparr>) s =
    handleClient fuel fnmatch en (srv\<lparr>hs_isKeepalive := False\<rparr>) s"
proof (cases fuel)
  case (Suc f)
  show ?thesis unfolding Suc handleClient.simps
  proof (rule then_do_cong, goal_cases)
    case (1 req s1)
    show ?case
    proof (cases req)
      case (Some request)
      have c: "rq_close request" using recv_body_result [of f en s request s1] 1 Some by simp
      then have e: "new_response (srv\<lparr>hs_isKeepalive := True\<rparr>) request = new_response (srv\<lparr>hs_isKeepalive := False\<rparr>) request"
        by (simp add: new_response_def)
      show ?thesis
      proof (cases "ServletDispatch_handle fnmatch (hs_dispatch srv) request
          (new_response (srv\<lparr>hs_isKeepalive := False\<rparr>) request) s1")
        case (Ret x)
        then have "rq_close (fst (snd x))" using assms c by (metis prod.collapse)
        then show ?thesis using Ret by (cases x) (simp add: Some e)
      qed (simp_all add: Some e)
    qed simp
  qed
qed simp

lemma empty_dispatch_not_found: "getMatchedServlet fnmatch ServletDispatch_new uri = Some NotFoundServlet"
  by (simp add: getMatchedServlet_def ServletDispatch_new_def)

lemma HttpServer_new_fields [simp]:
  "hs_dispatch (HttpServer_new k t) = ServletDispatch_new" "hs_isKeepalive (HttpServer_new k t) = k"
  "ts_name (HttpServer_new k t) = ''radixun/1.0.0''"
  by (simp_all add: HttpServer_new_def TcpServer_new_def tcp_server.defs http_server.defs)

section \<open>A request is answered\<close>

text \<open>C7. The server end to end: when the text a client prints for a request with a plain path arrives with its
  whole head in the first read, the servlet routed by the path gets the request with the printed method, path,
  version, headers and body, however the body is split; what is written back is exactly its response as
  printed; and the connection is closed.\<close>

theorem server_answers_printed_request:
  assumes "printable_request r" "\<forall>(k, v) \<in> set (rq_headers r). ci_key k \<noteq> ci_key ''content-length''"
    and "rq_dump r = sent @ later" "length later \<le> length (rq_body r)" "length (rq_dump r) < 2 ^ 31"
    and "en_read en s (en_buff_size en) = ((int (length sent), map byte_of_char sent), s1)"
      "length sent \<le> en_buff_size en" "en_buff_size en < 2 ^ 31" "en_buff_size en \<le> length (fst (en_memory en s))"
    and "delivers (en_read en) s1 (length later) (map byte_of_char later) False s2"
    and "en_grants en (length (rq_body r))"
      "en_cast en (dec_string (length (rq_body r))) = Some (of_nat (length (rq_body r)))"
    and "getMatchedServlet fnmatch (hs_dispatch srv) (rq_path r) = Some slt"
      "sv_handle slt (received r) (new_response srv (received r)) s2 = Ret (n, received r, rsp, s3)"
    and "accepts (en_write en) s3 (map byte_of_char (rs_dump rsp)) s4" "length (rs_dump rsp) < 2 ^ 31" "en_close en s4 = Ret s5"
    and "length (rq_dump r) + length (rs_dump rsp) < fuel"
  shows "handleClient (Suc fuel) fnmatch en srv s = Some (Ret (), s5)"
proof -
  have "length later < fuel" using assms(3,18) by simp
  then have "recvRequest fuel en s = Some (Ret (Some (received r)), s2)"
    by (rule recvRequest_printed [OF assms(1-12)])
  moreover have "ServletDispatch_handle fnmatch (hs_dispatch srv) (received r) (new_response srv (received r)) s2
      = Ret (0, received r, rsp, s3)"
    using assms(13,14) by (simp add: ServletDispatch_handle_def received_fields)
  moreover have "sendResponse fuel en rsp s3 = Some (Ret (int (length (rs_dump rsp))), s4)"
    using writeFixSize_accepts [OF assms(15), of fuel] assms(16,18) by (simp add: sendResponse_def)
  ultimately show ?thesis using assms(17) by (simp add: received_fields close_session_def)
qed

text \<open>A connection as two byte queues, for an instance.\<close>

record wire =
  w_in :: "byte list list"
  w_out :: "byte list"
  w_closed :: bool

definition wire_env :: "wire stream_env" where
  "wire_env =
     \<lparr>en_read = (\<lambda>t n. case w_in t of [] \<Rightarrow> ((0, []), t)
        | c # cs \<Rightarrow> ((int (min n (length c)), take n c), t\<lparr>w_in := if length c \<le> n then cs else drop n c # cs\<rparr>)),
      en_write = (\<lambda>t d. (int (length d), t\<lparr>w_out := w_out t @ d\<rparr>)),
      en_close = (\<lambda>t. Ret (t\<lparr>w_closed := True\<rparr>)),
      en_buff_size = 4096, en_memory = (\<lambda>_. (replicate 4096 CHR 0x00, blank_parser)), en_grants = (\<lambda>_. True),
      en_cast = (\<lambda>s. if s = ''2'' then Some 2 else None)\<rparr>"

theorem keepalive_without_effect_witness:
  "let t = \<lparr>w_in = [map byte_of_char ''GET /''], w_out = [], w_closed = False\<rparr>
   in handleClient 9 (\<lambda>_ _ _. 1) wire_env ((HttpServer_new True 0)\<lparr>hs_isKeepalive := True\<rparr>) t =
     handleClient 9 (\<lambda>_ _ _. 1) wire_env ((HttpServer_new True 0)\<lparr>hs_isKeepalive := False\<rparr>) t"
  unfolding Let_def
proof (rule keepalive_without_effect)
  fix req rsp and t :: wire and n req' rsp' t'
  assume "ServletDispatch_handle (\<lambda>_ _ _. 1) (hs_dispatch (HttpServer_new True 0)) req rsp t = Ret (n, req', rsp', t')"
  then show "rq_close req' = rq_close req"
    by (simp add: not_found_response empty_dispatch_not_found)
qed

theorem server_answers_printed_request_witness:
  "let r = (HttpRequest_new 0x11 False)\<lparr>rq_method := PUT, rq_path := ''/a'', rq_body := ''hi'', rq_headers := [(''H'', ''v'')]\<rparr>;
       rsp = rs_setHeader ''Content-Type'' ''text/html'' (rs_setHeader ''Server'' ''radixun/1.0.0'' (HttpResponse_new 0x11 True))
   in handleClient (Suc 2999) (\<lambda>_ _ _. 1) wire_env (HttpServer_new False 0)
       \<lparr>w_in = [map byte_of_char (rq_dump r)], w_out = [], w_closed = False\<rparr>
     = Some (Ret (), \<lparr>w_in = [], w_out = map byte_of_char (rs_dump (rsp\<lparr>rs_status := 404, rs_body := RSP_BODY\<rparr>)), w_closed = True\<rparr>)"
proof -
  let ?r = "(HttpRequest_new 0x11 False)\<lparr>rq_method := PUT, rq_path := ''/a'', rq_body := ''hi'', rq_headers := [(''H'', ''v'')]\<rparr>"
  let ?rsp = "(rs_setHeader ''Content-Type'' ''text/html'' (rs_setHeader ''Server'' ''radixun/1.0.0'' (HttpResponse_new 0x11 True)))
    \<lparr>rs_status := 404, rs_body := RSP_BODY\<rparr>"
  let ?s = "\<lparr>w_in = [map byte_of_char (rq_dump ?r)], w_out = [], w_closed = False\<rparr>"
  have p: "\<forall>c \<in> set ''/a''. path_char c" "header_ok (''H'', [], ''v'')" "\<not> is_connection ''H''"
    "ci_key ''H'' \<noteq> ci_key ''content-length''" by code_simp+
  have r: "printable_request ?r"
    using p(1-3) by (simp add: printable_request_def HttpRequest_new_def)
  have l: "length (rq_dump ?r) < 100" "rq_dump ?r \<noteq> []" by code_simp+
  have l2: "length (rs_dump ?rsp) < 500" by code_simp
  let ?s1 = "\<lparr>w_in = [], w_out = [], w_closed = False\<rparr>"
  let ?s4 = "\<lparr>w_in = [], w_out = map byte_of_char (rs_dump ?rsp), w_closed = False\<rparr>"
  have d: "delivers (en_read wire_env) ?s1 (length ([] :: string)) (map byte_of_char []) False ?s1"
    by (simp add: complete)
  have "accepts (en_write wire_env) ?s1 (map byte_of_char (rs_dump ?rsp) @ []) ?s4"
  proof (rule accepts_some)
    show "map byte_of_char (rs_dump ?rsp) \<noteq> []" by (simp add: rs_dump_def)
    show "accepts (en_write wire_env) ?s4 [] ?s4" by (rule accepts_nil)
  qed (simp add: wire_env_def)
  then have a: "accepts (en_write wire_env) ?s1 (map byte_of_char (rs_dump ?rsp)) ?s4" by simp
  have twice: "map_set ''Server'' ''radixun/1.0.0'' (map_set ''Server'' ''radixun/1.0.0'' []) = map_set ''Server'' ''radixun/1.0.0'' []"
    by code_simp
  have slt: "sv_handle NotFoundServlet (received ?r) (new_response (HttpServer_new False 0) (received ?r)) ?s1 = Ret (0, received ?r, ?rsp, ?s1)"
    by (simp add: NotFoundServlet_def NotFoundServlet_handle_def new_response_def received_fields HttpRequest_new_def rs_setHeader_def
      HttpResponse_new_def twice)
  show ?thesis unfolding Let_def
  proof (rule server_answers_printed_request [OF r _ _ _ _ _ _ _ _ d _ _ _ slt a])
    show "en_read wire_env ?s (en_buff_size wire_env) = ((int (length (rq_dump ?r)), map byte_of_char (rq_dump ?r)), ?s1)"
      using l(1) by (simp add: wire_env_def del: rq_dump_def)
    show "getMatchedServlet (\<lambda>_ _ _. 1) (hs_dispatch (HttpServer_new False 0)) (rq_path ?r) = Some NotFoundServlet"
      by (simp add: empty_dispatch_not_found)
    show "en_cast wire_env (dec_string (length (rq_body ?r))) = Some (of_nat (length (rq_body ?r)))" by code_simp
    show "length (rq_dump ?r) + length (rs_dump ?rsp) < 2999" using l l2 by linarith
  qed (use l l2 p(4) in \<open>simp_all add: wire_env_def\<close>)
qed

end
