(* ===== verification/HttpClient_Table.thy ===== *)
theory HttpClient_Table
  imports Ragel
begin

text \<open>
  \<open>radixun/http/httpclient_parser.rl.cc\<close>: the states of the generated response parser.

  Each definition translates a run of consecutive \<open>case\<close> labels: for a state and a character (\<open>*p\<close> as the
  signed \<open>char\<close> it is) it gives the actions of the \<open>tr\<close> label jumped to, in order, and the state that label
  continues with; a jump to \<open>st0\<close> is the target 0. \<open>switch\<close> labels with the same target are written as one set.
\<close>

datatype client_act =
    CMark | CStartField | CWriteField | CContentLen | CClose | CWriteValue
  | CReason | CStatus | CVersion | CChunkSize | CTransChunked | CDone

type_synonym client_go = "client_act go"

definition httpclient_parser_start :: nat where "httpclient_parser_start = 1"
definition httpclient_parser_first_final :: nat where "httpclient_parser_first_final = 120"
definition httpclient_parser_error :: nat where "httpclient_parser_error = 0"

definition client_states_1_120 :: "nat \<Rightarrow> int \<Rightarrow> client_go option" where
  "client_states_1_120 cs c =
     (if cs = 1 then Some (if c = 72 then ([CMark], 8)
        else if c < 65 then (if 48 \<le> c \<and> c \<le> 57 then ([CMark], 2)
          else ([], 0))
        else if c > 70 then (if 97 \<le> c \<and> c \<le> 102 then ([CMark], 2)
          else ([], 0))
        else ([CMark], 2))
      else if cs = 2 then Some (if c = 10 then ([CChunkSize, CDone], 120)
        else if c = 13 then ([CChunkSize], 3)
        else if c = 59 then ([CChunkSize], 4)
        else if c < 65 then (if 48 \<le> c \<and> c \<le> 57 then ([], 2)
          else ([], 0))
        else if c > 70 then (if 97 \<le> c \<and> c \<le> 102 then ([], 2)
          else ([], 0))
        else ([], 2))
      else if cs = 120 then Some (([], 0))
      else None)"

definition client_states_3_4 :: "nat \<Rightarrow> int \<Rightarrow> client_go option" where
  "client_states_3_4 cs c =
     (if cs = 3 then Some (if c = 10 then ([CDone], 120)
        else ([], 0))
      else if cs = 4 then Some (if c \<in> {33, 124, 126} then ([CStartField], 5)
        else if c < 45 then (if c > 39 then (if 42 \<le> c \<and> c \<le> 43 then ([CStartField], 5)
            else ([], 0))
          else if c \<ge> 35 then ([CStartField], 5)
          else ([], 0))
        else if c > 46 then (if c < 65 then (if 48 \<le> c \<and> c \<le> 57 then ([CStartField], 5)
            else ([], 0))
          else if c > 90 then (if 94 \<le> c \<and> c \<le> 122 then ([CStartField], 5)
            else ([], 0))
          else ([CStartField], 5))
        else ([CStartField], 5))
      else None)"

definition client_states_5_12 :: "nat \<Rightarrow> int \<Rightarrow> client_go option" where
  "client_states_5_12 cs c =
     (if cs = 5 then Some (if c = 10 then ([CWriteField, CMark, CWriteValue, CDone], 120)
        else if c = 13 then ([CWriteField, CMark, CWriteValue], 3)
        else if c \<in> {33, 124, 126} then ([], 5)
        else if c = 59 then ([CWriteField, CMark, CWriteValue], 4)
        else if c = 61 then ([CWriteField, CMark], 6)
        else if c < 45 then (if c > 39 then (if 42 \<le> c \<and> c \<le> 43 then ([], 5)
            else ([], 0))
          else if c \<ge> 35 then ([], 5)
          else ([], 0))
        else if c > 46 then (if c < 65 then (if 48 \<le> c \<and> c \<le> 57 then ([], 5)
            else ([], 0))
          else if c > 90 then (if 94 \<le> c \<and> c \<le> 122 then ([], 5)
            else ([], 0))
          else ([], 5))
        else ([], 5))
      else if cs = 6 then Some (if c \<in> {33, 124, 126} then ([CMark], 7)
        else if c < 45 then (if c > 39 then (if 42 \<le> c \<and> c \<le> 43 then ([CMark], 7)
            else ([], 0))
          else if c \<ge> 35 then ([CMark], 7)
          else ([], 0))
        else if c > 46 then (if c < 65 then (if 48 \<le> c \<and> c \<le> 57 then ([CMark], 7)
            else ([], 0))
          else if c > 90 then (if 94 \<le> c \<and> c \<le> 122 then ([CMark], 7)
            else ([], 0))
          else ([CMark], 7))
        else ([CMark], 7))
      else if cs = 7 then Some (if c = 10 then ([CWriteValue, CDone], 120)
        else if c = 13 then ([CWriteValue], 3)
        else if c \<in> {33, 124, 126} then ([], 7)
        else if c = 59 then ([CWriteValue], 4)
        else if c < 45 then (if c > 39 then (if 42 \<le> c \<and> c \<le> 43 then ([], 7)
            else ([], 0))
          else if c \<ge> 35 then ([], 7)
          else ([], 0))
        else if c > 46 then (if c < 65 then (if 48 \<le> c \<and> c \<le> 57 then ([], 7)
            else ([], 0))
          else if c > 90 then (if 94 \<le> c \<and> c \<le> 122 then ([], 7)
            else ([], 0))
          else ([], 7))
        else ([], 7))
      else if cs = 8 then Some (if c = 84 then ([], 9)
        else ([], 0))
      else if cs = 9 then Some (if c = 84 then ([], 10)
        else ([], 0))
      else if cs = 10 then Some (if c = 80 then ([], 11)
        else ([], 0))
      else if cs = 11 then Some (if c = 47 then ([], 12)
        else ([], 0))
      else if cs = 12 then Some (if 48 \<le> c \<and> c \<le> 57 then ([], 13)
        else ([], 0))
      else None)"

definition client_states_13_19 :: "nat \<Rightarrow> int \<Rightarrow> client_go option" where
  "client_states_13_19 cs c =
     (if cs = 13 then Some (if c = 46 then ([], 14)
        else if 48 \<le> c \<and> c \<le> 57 then ([], 13)
        else ([], 0))
      else if cs = 14 then Some (if 48 \<le> c \<and> c \<le> 57 then ([], 15)
        else ([], 0))
      else if cs = 15 then Some (if c = 32 then ([CVersion], 16)
        else if 48 \<le> c \<and> c \<le> 57 then ([], 15)
        else ([], 0))
      else if cs = 16 then Some (if 48 \<le> c \<and> c \<le> 57 then ([CMark], 17)
        else ([], 0))
      else if cs = 17 then Some (if c = 32 then ([CStatus], 18)
        else if 48 \<le> c \<and> c \<le> 57 then ([], 17)
        else ([], 0))
      else if cs = 18 then Some (if c = 10 then ([], 0)
        else ([CMark], 19))
      else if cs = 19 then Some (if c = 10 then ([CReason], 20)
        else if c = 13 then ([CReason], 24)
        else ([], 19))
      else None)"

definition client_states_20_21 :: "nat \<Rightarrow> int \<Rightarrow> client_go option" where
  "client_states_20_21 cs c =
     (if cs = 20 then Some (if c = 10 then ([CDone], 120)
        else if c = 13 then ([], 3)
        else if c \<in> {33, 124, 126} then ([CStartField], 21)
        else if c \<in> {67, 99} then ([CStartField], 25)
        else if c \<in> {84, 116} then ([CStartField], 44)
        else if c < 45 then (if c > 39 then (if 42 \<le> c \<and> c \<le> 43 then ([CStartField], 21)
            else ([], 0))
          else if c \<ge> 35 then ([CStartField], 21)
          else ([], 0))
        else if c > 46 then (if c < 65 then (if 48 \<le> c \<and> c \<le> 57 then ([CStartField], 21)
            else ([], 0))
          else if c > 90 then (if 94 \<le> c \<and> c \<le> 122 then ([CStartField], 21)
            else ([], 0))
          else ([CStartField], 21))
        else ([CStartField], 21))
      else if cs = 21 then Some (if c \<in> {33, 124, 126} then ([], 21)
        else if c = 58 then ([CWriteField], 22)
        else if c < 45 then (if c > 39 then (if 42 \<le> c \<and> c \<le> 43 then ([], 21)
            else ([], 0))
          else if c \<ge> 35 then ([], 21)
          else ([], 0))
        else if c > 46 then (if c < 65 then (if 48 \<le> c \<and> c \<le> 57 then ([], 21)
            else ([], 0))
          else if c > 90 then (if 94 \<le> c \<and> c \<le> 122 then ([], 21)
            else ([], 0))
          else ([], 21))
        else ([], 21))
      else None)"

definition client_states_22_25 :: "nat \<Rightarrow> int \<Rightarrow> client_go option" where
  "client_states_22_25 cs c =
     (if cs = 22 then Some (if c = 10 then ([CMark, CWriteValue], 20)
        else if c = 13 then ([CMark, CWriteValue], 24)
        else if c = 32 then ([CMark], 22)
        else if 9 \<le> c \<and> c \<le> 12 then ([CMark], 22)
        else ([CMark], 23))
      else if cs = 23 then Some (if c = 10 then ([CWriteValue], 20)
        else if c = 13 then ([CWriteValue], 24)
        else ([], 23))
      else if cs = 24 then Some (if c = 10 then ([], 20)
        else ([], 0))
      else if cs = 25 then Some (if c \<in> {33, 124, 126} then ([], 21)
        else if c = 58 then ([CWriteField], 22)
        else if c \<in> {79, 111} then ([], 26)
        else if c < 45 then (if c > 39 then (if 42 \<le> c \<and> c \<le> 43 then ([], 21)
            else ([], 0))
          else if c \<ge> 35 then ([], 21)
          else ([], 0))
        else if c > 46 then (if c < 65 then (if 48 \<le> c \<and> c \<le> 57 then ([], 21)
            else ([], 0))
          else if c > 90 then (if 94 \<le> c \<and> c \<le> 122 then ([], 21)
            else ([], 0))
          else ([], 21))
        else ([], 21))
      else None)"

definition client_states_26_29 :: "nat \<Rightarrow> int \<Rightarrow> client_go option" where
  "client_states_26_29 cs c =
     (if cs = 26 then Some (if c \<in> {33, 124, 126} then ([], 21)
        else if c = 58 then ([CWriteField], 22)
        else if c \<in> {78, 110} then ([], 27)
        else if c < 45 then (if c > 39 then (if 42 \<le> c \<and> c \<le> 43 then ([], 21)
            else ([], 0))
          else if c \<ge> 35 then ([], 21)
          else ([], 0))
        else if c > 46 then (if c < 65 then (if 48 \<le> c \<and> c \<le> 57 then ([], 21)
            else ([], 0))
          else if c > 90 then (if 94 \<le> c \<and> c \<le> 122 then ([], 21)
            else ([], 0))
          else ([], 21))
        else ([], 21))
      else if cs = 27 then Some (if c \<in> {33, 124, 126} then ([], 21)
        else if c = 58 then ([CWriteField], 22)
        else if c \<in> {78, 110} then ([], 28)
        else if c \<in> {84, 116} then ([], 101)
        else if c < 45 then (if c > 39 then (if 42 \<le> c \<and> c \<le> 43 then ([], 21)
            else ([], 0))
          else if c \<ge> 35 then ([], 21)
          else ([], 0))
        else if c > 46 then (if c < 65 then (if 48 \<le> c \<and> c \<le> 57 then ([], 21)
            else ([], 0))
          else if c > 90 then (if 94 \<le> c \<and> c \<le> 122 then ([], 21)
            else ([], 0))
          else ([], 21))
        else ([], 21))
      else if cs = 28 then Some (if c \<in> {33, 124, 126} then ([], 21)
        else if c = 58 then ([CWriteField], 22)
        else if c \<in> {69, 101} then ([], 29)
        else if c < 45 then (if c > 39 then (if 42 \<le> c \<and> c \<le> 43 then ([], 21)
            else ([], 0))
          else if c \<ge> 35 then ([], 21)
          else ([], 0))
        else if c > 46 then (if c < 65 then (if 48 \<le> c \<and> c \<le> 57 then ([], 21)
            else ([], 0))
          else if c > 90 then (if 94 \<le> c \<and> c \<le> 122 then ([], 21)
            else ([], 0))
          else ([], 21))
        else ([], 21))
      else if cs = 29 then Some (if c \<in> {33, 124, 126} then ([], 21)
        else if c = 58 then ([CWriteField], 22)
        else if c \<in> {67, 99} then ([], 30)
        else if c < 45 then (if c > 39 then (if 42 \<le> c \<and> c \<le> 43 then ([], 21)
            else ([], 0))
          else if c \<ge> 35 then ([], 21)
          else ([], 0))
        else if c > 46 then (if c < 65 then (if 48 \<le> c \<and> c \<le> 57 then ([], 21)
            else ([], 0))
          else if c > 90 then (if 94 \<le> c \<and> c \<le> 122 then ([], 21)
            else ([], 0))
          else ([], 21))
        else ([], 21))
      else None)"

definition client_states_30_34 :: "nat \<Rightarrow> int \<Rightarrow> client_go option" where
  "client_states_30_34 cs c =
     (if cs = 30 then Some (if c \<in> {33, 124, 126} then ([], 21)
        else if c = 58 then ([CWriteField], 22)
        else if c \<in> {84, 116} then ([], 31)
        else if c < 45 then (if c > 39 then (if 42 \<le> c \<and> c \<le> 43 then ([], 21)
            else ([], 0))
          else if c \<ge> 35 then ([], 21)
          else ([], 0))
        else if c > 46 then (if c < 65 then (if 48 \<le> c \<and> c \<le> 57 then ([], 21)
            else ([], 0))
          else if c > 90 then (if 94 \<le> c \<and> c \<le> 122 then ([], 21)
            else ([], 0))
          else ([], 21))
        else ([], 21))
      else if cs = 31 then Some (if c \<in> {33, 124, 126} then ([], 21)
        else if c = 58 then ([CWriteField], 22)
        else if c \<in> {73, 105} then ([], 32)
        else if c < 45 then (if c > 39 then (if 42 \<le> c \<and> c \<le> 43 then ([], 21)
            else ([], 0))
          else if c \<ge> 35 then ([], 21)
          else ([], 0))
        else if c > 46 then (if c < 65 then (if 48 \<le> c \<and> c \<le> 57 then ([], 21)
            else ([], 0))
          else if c > 90 then (if 94 \<le> c \<and> c \<le> 122 then ([], 21)
            else ([], 0))
          else ([], 21))
        else ([], 21))
      else if cs = 32 then Some (if c \<in> {33, 124, 126} then ([], 21)
        else if c = 58 then ([CWriteField], 22)
        else if c \<in> {79, 111} then ([], 33)
        else if c < 45 then (if c > 39 then (if 42 \<le> c \<and> c \<le> 43 then ([], 21)
            else ([], 0))
          else if c \<ge> 35 then ([], 21)
          else ([], 0))
        else if c > 46 then (if c < 65 then (if 48 \<le> c \<and> c \<le> 57 then ([], 21)
            else ([], 0))
          else if c > 90 then (if 94 \<le> c \<and> c \<le> 122 then ([], 21)
            else ([], 0))
          else ([], 21))
        else ([], 21))
      else if cs = 33 then Some (if c \<in> {33, 124, 126} then ([], 21)
        else if c = 58 then ([CWriteField], 22)
        else if c \<in> {78, 110} then ([], 34)
        else if c < 45 then (if c > 39 then (if 42 \<le> c \<and> c \<le> 43 then ([], 21)
            else ([], 0))
          else if c \<ge> 35 then ([], 21)
          else ([], 0))
        else if c > 46 then (if c < 65 then (if 48 \<le> c \<and> c \<le> 57 then ([], 21)
            else ([], 0))
          else if c > 90 then (if 94 \<le> c \<and> c \<le> 122 then ([], 21)
            else ([], 0))
          else ([], 21))
        else ([], 21))
      else if cs = 34 then Some (if c \<in> {33, 124, 126} then ([], 21)
        else if c = 58 then ([CWriteField], 35)
        else if c < 45 then (if c > 39 then (if 42 \<le> c \<and> c \<le> 43 then ([], 21)
            else ([], 0))
          else if c \<ge> 35 then ([], 21)
          else ([], 0))
        else if c > 46 then (if c < 65 then (if 48 \<le> c \<and> c \<le> 57 then ([], 21)
            else ([], 0))
          else if c > 90 then (if 94 \<le> c \<and> c \<le> 122 then ([], 21)
            else ([], 0))
          else ([], 21))
        else ([], 21))
      else None)"

definition client_states_35_42 :: "nat \<Rightarrow> int \<Rightarrow> client_go option" where
  "client_states_35_42 cs c =
     (if cs = 35 then Some (if c = 10 then ([CMark, CWriteValue], 36)
        else if c = 13 then ([CMark, CWriteValue], 95)
        else if c = 32 then ([CMark], 35)
        else if c \<in> {67, 99} then ([CMark], 96)
        else if 9 \<le> c \<and> c \<le> 12 then ([CMark], 35)
        else ([CMark], 23))
      else if cs = 36 then Some (if c = 10 then ([CDone], 122)
        else if c = 13 then ([], 89)
        else if c = 32 then ([], 37)
        else if c \<in> {33, 124, 126} then ([CStartField], 21)
        else if c \<in> {67, 99} then ([CStartField], 90)
        else if c \<in> {84, 116} then ([CStartField], 44)
        else if c < 45 then (if c < 35 then (if 9 \<le> c \<and> c \<le> 12 then ([], 37)
            else ([], 0))
          else if c > 39 then (if 42 \<le> c \<and> c \<le> 43 then ([CStartField], 21)
            else ([], 0))
          else ([CStartField], 21))
        else if c > 46 then (if c < 65 then (if 48 \<le> c \<and> c \<le> 57 then ([CStartField], 21)
            else ([], 0))
          else if c > 90 then (if 94 \<le> c \<and> c \<le> 122 then ([CStartField], 21)
            else ([], 0))
          else ([CStartField], 21))
        else ([CStartField], 21))
      else if cs = 37 then Some (if c = 32 then ([], 37)
        else if c \<in> {67, 99} then ([], 38)
        else if 9 \<le> c \<and> c \<le> 13 then ([], 37)
        else ([], 0))
      else if cs = 38 then Some (if c \<in> {76, 108} then ([], 39)
        else ([], 0))
      else if cs = 39 then Some (if c \<in> {79, 111} then ([], 40)
        else ([], 0))
      else if cs = 40 then Some (if c \<in> {83, 115} then ([], 41)
        else ([], 0))
      else if cs = 41 then Some (if c \<in> {69, 101} then ([], 42)
        else ([], 0))
      else if cs = 42 then Some (if c = 10 then ([], 43)
        else if c = 13 then ([], 88)
        else ([], 0))
      else None)"

definition client_states_43_46 :: "nat \<Rightarrow> int \<Rightarrow> client_go option" where
  "client_states_43_46 cs c =
     (if cs = 43 then Some (if c = 10 then ([CClose, CDone], 120)
        else if c = 13 then ([CClose], 3)
        else if c \<in> {33, 124, 126} then ([CClose, CStartField], 21)
        else if c \<in> {67, 99} then ([CClose, CStartField], 25)
        else if c \<in> {84, 116} then ([CClose, CStartField], 44)
        else if c < 45 then (if c > 39 then (if 42 \<le> c \<and> c \<le> 43 then ([CClose, CStartField], 21)
            else ([], 0))
          else if c \<ge> 35 then ([CClose, CStartField], 21)
          else ([], 0))
        else if c > 46 then (if c < 65 then (if 48 \<le> c \<and> c \<le> 57 then ([CClose, CStartField], 21)
            else ([], 0))
          else if c > 90 then (if 94 \<le> c \<and> c \<le> 122 then ([CClose, CStartField], 21)
            else ([], 0))
          else ([CClose, CStartField], 21))
        else ([CClose, CStartField], 21))
      else if cs = 44 then Some (if c \<in> {33, 124, 126} then ([], 21)
        else if c = 58 then ([CWriteField], 22)
        else if c \<in> {82, 114} then ([], 45)
        else if c < 45 then (if c > 39 then (if 42 \<le> c \<and> c \<le> 43 then ([], 21)
            else ([], 0))
          else if c \<ge> 35 then ([], 21)
          else ([], 0))
        else if c > 46 then (if c < 65 then (if 48 \<le> c \<and> c \<le> 57 then ([], 21)
            else ([], 0))
          else if c > 90 then (if 94 \<le> c \<and> c \<le> 122 then ([], 21)
            else ([], 0))
          else ([], 21))
        else ([], 21))
      else if cs = 45 then Some (if c \<in> {33, 124, 126} then ([], 21)
        else if c = 58 then ([CWriteField], 22)
        else if c \<in> {65, 97} then ([], 46)
        else if c < 45 then (if c > 39 then (if 42 \<le> c \<and> c \<le> 43 then ([], 21)
            else ([], 0))
          else if c \<ge> 35 then ([], 21)
          else ([], 0))
        else if c > 46 then (if c < 66 then (if 48 \<le> c \<and> c \<le> 57 then ([], 21)
            else ([], 0))
          else if c > 90 then (if 94 \<le> c \<and> c \<le> 122 then ([], 21)
            else ([], 0))
          else ([], 21))
        else ([], 21))
      else if cs = 46 then Some (if c \<in> {33, 124, 126} then ([], 21)
        else if c = 58 then ([CWriteField], 22)
        else if c \<in> {78, 110} then ([], 47)
        else if c < 45 then (if c > 39 then (if 42 \<le> c \<and> c \<le> 43 then ([], 21)
            else ([], 0))
          else if c \<ge> 35 then ([], 21)
          else ([], 0))
        else if c > 46 then (if c < 65 then (if 48 \<le> c \<and> c \<le> 57 then ([], 21)
            else ([], 0))
          else if c > 90 then (if 94 \<le> c \<and> c \<le> 122 then ([], 21)
            else ([], 0))
          else ([], 21))
        else ([], 21))
      else None)"

definition client_states_47_51 :: "nat \<Rightarrow> int \<Rightarrow> client_go option" where
  "client_states_47_51 cs c =
     (if cs = 47 then Some (if c \<in> {33, 124, 126} then ([], 21)
        else if c = 58 then ([CWriteField], 22)
        else if c \<in> {83, 115} then ([], 48)
        else if c < 45 then (if c > 39 then (if 42 \<le> c \<and> c \<le> 43 then ([], 21)
            else ([], 0))
          else if c \<ge> 35 then ([], 21)
          else ([], 0))
        else if c > 46 then (if c < 65 then (if 48 \<le> c \<and> c \<le> 57 then ([], 21)
            else ([], 0))
          else if c > 90 then (if 94 \<le> c \<and> c \<le> 122 then ([], 21)
            else ([], 0))
          else ([], 21))
        else ([], 21))
      else if cs = 48 then Some (if c \<in> {33, 124, 126} then ([], 21)
        else if c = 58 then ([CWriteField], 22)
        else if c \<in> {70, 102} then ([], 49)
        else if c < 45 then (if c > 39 then (if 42 \<le> c \<and> c \<le> 43 then ([], 21)
            else ([], 0))
          else if c \<ge> 35 then ([], 21)
          else ([], 0))
        else if c > 46 then (if c < 65 then (if 48 \<le> c \<and> c \<le> 57 then ([], 21)
            else ([], 0))
          else if c > 90 then (if 94 \<le> c \<and> c \<le> 122 then ([], 21)
            else ([], 0))
          else ([], 21))
        else ([], 21))
      else if cs = 49 then Some (if c \<in> {33, 124, 126} then ([], 21)
        else if c = 58 then ([CWriteField], 22)
        else if c \<in> {69, 101} then ([], 50)
        else if c < 45 then (if c > 39 then (if 42 \<le> c \<and> c \<le> 43 then ([], 21)
            else ([], 0))
          else if c \<ge> 35 then ([], 21)
          else ([], 0))
        else if c > 46 then (if c < 65 then (if 48 \<le> c \<and> c \<le> 57 then ([], 21)
            else ([], 0))
          else if c > 90 then (if 94 \<le> c \<and> c \<le> 122 then ([], 21)
            else ([], 0))
          else ([], 21))
        else ([], 21))
      else if cs = 50 then Some (if c \<in> {33, 124, 126} then ([], 21)
        else if c = 58 then ([CWriteField], 22)
        else if c \<in> {82, 114} then ([], 51)
        else if c < 45 then (if c > 39 then (if 42 \<le> c \<and> c \<le> 43 then ([], 21)
            else ([], 0))
          else if c \<ge> 35 then ([], 21)
          else ([], 0))
        else if c > 46 then (if c < 65 then (if 48 \<le> c \<and> c \<le> 57 then ([], 21)
            else ([], 0))
          else if c > 90 then (if 94 \<le> c \<and> c \<le> 122 then ([], 21)
            else ([], 0))
          else ([], 21))
        else ([], 21))
      else if cs = 51 then Some (if c \<in> {33, 46, 124, 126} then ([], 21)
        else if c = 45 then ([], 52)
        else if c = 58 then ([CWriteField], 22)
        else if c < 48 then (if c > 39 then (if 42 \<le> c \<and> c \<le> 43 then ([], 21)
            else ([], 0))
          else if c \<ge> 35 then ([], 21)
          else ([], 0))
        else if c > 57 then (if c > 90 then (if 94 \<le> c \<and> c \<le> 122 then ([], 21)
            else ([], 0))
          else if c \<ge> 65 then ([], 21)
          else ([], 0))
        else ([], 21))
      else None)"

definition client_states_52_55 :: "nat \<Rightarrow> int \<Rightarrow> client_go option" where
  "client_states_52_55 cs c =
     (if cs = 52 then Some (if c \<in> {33, 124, 126} then ([], 21)
        else if c = 58 then ([CWriteField], 22)
        else if c \<in> {69, 101} then ([], 53)
        else if c < 45 then (if c > 39 then (if 42 \<le> c \<and> c \<le> 43 then ([], 21)
            else ([], 0))
          else if c \<ge> 35 then ([], 21)
          else ([], 0))
        else if c > 46 then (if c < 65 then (if 48 \<le> c \<and> c \<le> 57 then ([], 21)
            else ([], 0))
          else if c > 90 then (if 94 \<le> c \<and> c \<le> 122 then ([], 21)
            else ([], 0))
          else ([], 21))
        else ([], 21))
      else if cs = 53 then Some (if c \<in> {33, 124, 126} then ([], 21)
        else if c = 58 then ([CWriteField], 22)
        else if c \<in> {78, 110} then ([], 54)
        else if c < 45 then (if c > 39 then (if 42 \<le> c \<and> c \<le> 43 then ([], 21)
            else ([], 0))
          else if c \<ge> 35 then ([], 21)
          else ([], 0))
        else if c > 46 then (if c < 65 then (if 48 \<le> c \<and> c \<le> 57 then ([], 21)
            else ([], 0))
          else if c > 90 then (if 94 \<le> c \<and> c \<le> 122 then ([], 21)
            else ([], 0))
          else ([], 21))
        else ([], 21))
      else if cs = 54 then Some (if c \<in> {33, 124, 126} then ([], 21)
        else if c = 58 then ([CWriteField], 22)
        else if c \<in> {67, 99} then ([], 55)
        else if c < 45 then (if c > 39 then (if 42 \<le> c \<and> c \<le> 43 then ([], 21)
            else ([], 0))
          else if c \<ge> 35 then ([], 21)
          else ([], 0))
        else if c > 46 then (if c < 65 then (if 48 \<le> c \<and> c \<le> 57 then ([], 21)
            else ([], 0))
          else if c > 90 then (if 94 \<le> c \<and> c \<le> 122 then ([], 21)
            else ([], 0))
          else ([], 21))
        else ([], 21))
      else if cs = 55 then Some (if c \<in> {33, 124, 126} then ([], 21)
        else if c = 58 then ([CWriteField], 22)
        else if c \<in> {79, 111} then ([], 56)
        else if c < 45 then (if c > 39 then (if 42 \<le> c \<and> c \<le> 43 then ([], 21)
            else ([], 0))
          else if c \<ge> 35 then ([], 21)
          else ([], 0))
        else if c > 46 then (if c < 65 then (if 48 \<le> c \<and> c \<le> 57 then ([], 21)
            else ([], 0))
          else if c > 90 then (if 94 \<le> c \<and> c \<le> 122 then ([], 21)
            else ([], 0))
          else ([], 21))
        else ([], 21))
      else None)"

definition client_states_56_60 :: "nat \<Rightarrow> int \<Rightarrow> client_go option" where
  "client_states_56_60 cs c =
     (if cs = 56 then Some (if c \<in> {33, 124, 126} then ([], 21)
        else if c = 58 then ([CWriteField], 22)
        else if c \<in> {68, 100} then ([], 57)
        else if c < 45 then (if c > 39 then (if 42 \<le> c \<and> c \<le> 43 then ([], 21)
            else ([], 0))
          else if c \<ge> 35 then ([], 21)
          else ([], 0))
        else if c > 46 then (if c < 65 then (if 48 \<le> c \<and> c \<le> 57 then ([], 21)
            else ([], 0))
          else if c > 90 then (if 94 \<le> c \<and> c \<le> 122 then ([], 21)
            else ([], 0))
          else ([], 21))
        else ([], 21))
      else if cs = 57 then Some (if c \<in> {33, 124, 126} then ([], 21)
        else if c = 58 then ([CWriteField], 22)
        else if c \<in> {73, 105} then ([], 58)
        else if c < 45 then (if c > 39 then (if 42 \<le> c \<and> c \<le> 43 then ([], 21)
            else ([], 0))
          else if c \<ge> 35 then ([], 21)
          else ([], 0))
        else if c > 46 then (if c < 65 then (if 48 \<le> c \<and> c \<le> 57 then ([], 21)
            else ([], 0))
          else if c > 90 then (if 94 \<le> c \<and> c \<le> 122 then ([], 21)
            else ([], 0))
          else ([], 21))
        else ([], 21))
      else if cs = 58 then Some (if c \<in> {33, 124, 126} then ([], 21)
        else if c = 58 then ([CWriteField], 22)
        else if c \<in> {78, 110} then ([], 59)
        else if c < 45 then (if c > 39 then (if 42 \<le> c \<and> c \<le> 43 then ([], 21)
            else ([], 0))
          else if c \<ge> 35 then ([], 21)
          else ([], 0))
        else if c > 46 then (if c < 65 then (if 48 \<le> c \<and> c \<le> 57 then ([], 21)
            else ([], 0))
          else if c > 90 then (if 94 \<le> c \<and> c \<le> 122 then ([], 21)
            else ([], 0))
          else ([], 21))
        else ([], 21))
      else if cs = 59 then Some (if c \<in> {33, 124, 126} then ([], 21)
        else if c = 58 then ([CWriteField], 22)
        else if c \<in> {71, 103} then ([], 60)
        else if c < 45 then (if c > 39 then (if 42 \<le> c \<and> c \<le> 43 then ([], 21)
            else ([], 0))
          else if c \<ge> 35 then ([], 21)
          else ([], 0))
        else if c > 46 then (if c < 65 then (if 48 \<le> c \<and> c \<le> 57 then ([], 21)
            else ([], 0))
          else if c > 90 then (if 94 \<le> c \<and> c \<le> 122 then ([], 21)
            else ([], 0))
          else ([], 21))
        else ([], 21))
      else if cs = 60 then Some (if c \<in> {33, 124, 126} then ([], 21)
        else if c = 58 then ([CWriteField], 61)
        else if c < 45 then (if c > 39 then (if 42 \<le> c \<and> c \<le> 43 then ([], 21)
            else ([], 0))
          else if c \<ge> 35 then ([], 21)
          else ([], 0))
        else if c > 46 then (if c < 65 then (if 48 \<le> c \<and> c \<le> 57 then ([], 21)
            else ([], 0))
          else if c > 90 then (if 94 \<le> c \<and> c \<le> 122 then ([], 21)
            else ([], 0))
          else ([], 21))
        else ([], 21))
      else None)"

definition client_states_61_69 :: "nat \<Rightarrow> int \<Rightarrow> client_go option" where
  "client_states_61_69 cs c =
     (if cs = 61 then Some (if c = 10 then ([CMark, CWriteValue], 62)
        else if c = 13 then ([CMark, CWriteValue], 80)
        else if c = 32 then ([CMark], 61)
        else if c \<in> {67, 99} then ([CMark], 81)
        else if 9 \<le> c \<and> c \<le> 12 then ([CMark], 61)
        else ([CMark], 23))
      else if cs = 62 then Some (if c = 10 then ([CDone], 121)
        else if c = 13 then ([], 72)
        else if c = 32 then ([], 63)
        else if c \<in> {33, 124, 126} then ([CStartField], 21)
        else if c \<in> {67, 99} then ([CMark, CStartField], 73)
        else if c \<in> {84, 116} then ([CStartField], 44)
        else if c < 45 then (if c < 35 then (if 9 \<le> c \<and> c \<le> 12 then ([], 63)
            else ([], 0))
          else if c > 39 then (if 42 \<le> c \<and> c \<le> 43 then ([CStartField], 21)
            else ([], 0))
          else ([CStartField], 21))
        else if c > 46 then (if c < 65 then (if 48 \<le> c \<and> c \<le> 57 then ([CStartField], 21)
            else ([], 0))
          else if c > 90 then (if 94 \<le> c \<and> c \<le> 122 then ([CStartField], 21)
            else ([], 0))
          else ([CStartField], 21))
        else ([CStartField], 21))
      else if cs = 63 then Some (if c = 32 then ([], 63)
        else if c \<in> {67, 99} then ([CMark], 64)
        else if 9 \<le> c \<and> c \<le> 13 then ([], 63)
        else ([], 0))
      else if cs = 64 then Some (if c \<in> {72, 104} then ([], 65)
        else ([], 0))
      else if cs = 65 then Some (if c \<in> {85, 117} then ([], 66)
        else ([], 0))
      else if cs = 66 then Some (if c \<in> {78, 110} then ([], 67)
        else ([], 0))
      else if cs = 67 then Some (if c \<in> {75, 107} then ([], 68)
        else ([], 0))
      else if cs = 68 then Some (if c \<in> {69, 101} then ([], 69)
        else ([], 0))
      else if cs = 69 then Some (if c \<in> {68, 100} then ([], 70)
        else ([], 0))
      else None)"

definition client_states_70_74 :: "nat \<Rightarrow> int \<Rightarrow> client_go option" where
  "client_states_70_74 cs c =
     (if cs = 70 then Some (if c = 10 then ([CWriteValue, CTransChunked], 20)
        else if c = 13 then ([CWriteValue], 71)
        else ([], 0))
      else if cs = 71 then Some (if c = 10 then ([CTransChunked], 20)
        else ([], 0))
      else if cs = 121 then Some (if c = 32 then ([], 63)
        else if c \<in> {67, 99} then ([CMark], 64)
        else if 9 \<le> c \<and> c \<le> 13 then ([], 63)
        else ([], 0))
      else if cs = 72 then Some (if c = 10 then ([CDone], 121)
        else if c = 32 then ([], 63)
        else if c \<in> {67, 99} then ([CMark], 64)
        else if 9 \<le> c \<and> c \<le> 13 then ([], 63)
        else ([], 0))
      else if cs = 73 then Some (if c \<in> {33, 124, 126} then ([], 21)
        else if c = 58 then ([CWriteField], 22)
        else if c \<in> {72, 104} then ([], 74)
        else if c \<in> {79, 111} then ([], 26)
        else if c < 45 then (if c > 39 then (if 42 \<le> c \<and> c \<le> 43 then ([], 21)
            else ([], 0))
          else if c \<ge> 35 then ([], 21)
          else ([], 0))
        else if c > 46 then (if c < 65 then (if 48 \<le> c \<and> c \<le> 57 then ([], 21)
            else ([], 0))
          else if c > 90 then (if 94 \<le> c \<and> c \<le> 122 then ([], 21)
            else ([], 0))
          else ([], 21))
        else ([], 21))
      else if cs = 74 then Some (if c \<in> {33, 124, 126} then ([], 21)
        else if c = 58 then ([CWriteField], 22)
        else if c \<in> {85, 117} then ([], 75)
        else if c < 45 then (if c > 39 then (if 42 \<le> c \<and> c \<le> 43 then ([], 21)
            else ([], 0))
          else if c \<ge> 35 then ([], 21)
          else ([], 0))
        else if c > 46 then (if c < 65 then (if 48 \<le> c \<and> c \<le> 57 then ([], 21)
            else ([], 0))
          else if c > 90 then (if 94 \<le> c \<and> c \<le> 122 then ([], 21)
            else ([], 0))
          else ([], 21))
        else ([], 21))
      else None)"

definition client_states_75_78 :: "nat \<Rightarrow> int \<Rightarrow> client_go option" where
  "client_states_75_78 cs c =
     (if cs = 75 then Some (if c \<in> {33, 124, 126} then ([], 21)
        else if c = 58 then ([CWriteField], 22)
        else if c \<in> {78, 110} then ([], 76)
        else if c < 45 then (if c > 39 then (if 42 \<le> c \<and> c \<le> 43 then ([], 21)
            else ([], 0))
          else if c \<ge> 35 then ([], 21)
          else ([], 0))
        else if c > 46 then (if c < 65 then (if 48 \<le> c \<and> c \<le> 57 then ([], 21)
            else ([], 0))
          else if c > 90 then (if 94 \<le> c \<and> c \<le> 122 then ([], 21)
            else ([], 0))
          else ([], 21))
        else ([], 21))
      else if cs = 76 then Some (if c \<in> {33, 124, 126} then ([], 21)
        else if c = 58 then ([CWriteField], 22)
        else if c \<in> {75, 107} then ([], 77)
        else if c < 45 then (if c > 39 then (if 42 \<le> c \<and> c \<le> 43 then ([], 21)
            else ([], 0))
          else if c \<ge> 35 then ([], 21)
          else ([], 0))
        else if c > 46 then (if c < 65 then (if 48 \<le> c \<and> c \<le> 57 then ([], 21)
            else ([], 0))
          else if c > 90 then (if 94 \<le> c \<and> c \<le> 122 then ([], 21)
            else ([], 0))
          else ([], 21))
        else ([], 21))
      else if cs = 77 then Some (if c \<in> {33, 124, 126} then ([], 21)
        else if c = 58 then ([CWriteField], 22)
        else if c \<in> {69, 101} then ([], 78)
        else if c < 45 then (if c > 39 then (if 42 \<le> c \<and> c \<le> 43 then ([], 21)
            else ([], 0))
          else if c \<ge> 35 then ([], 21)
          else ([], 0))
        else if c > 46 then (if c < 65 then (if 48 \<le> c \<and> c \<le> 57 then ([], 21)
            else ([], 0))
          else if c > 90 then (if 94 \<le> c \<and> c \<le> 122 then ([], 21)
            else ([], 0))
          else ([], 21))
        else ([], 21))
      else if cs = 78 then Some (if c \<in> {33, 124, 126} then ([], 21)
        else if c = 58 then ([CWriteField], 22)
        else if c \<in> {68, 100} then ([], 79)
        else if c < 45 then (if c > 39 then (if 42 \<le> c \<and> c \<le> 43 then ([], 21)
            else ([], 0))
          else if c \<ge> 35 then ([], 21)
          else ([], 0))
        else if c > 46 then (if c < 65 then (if 48 \<le> c \<and> c \<le> 57 then ([], 21)
            else ([], 0))
          else if c > 90 then (if 94 \<le> c \<and> c \<le> 122 then ([], 21)
            else ([], 0))
          else ([], 21))
        else ([], 21))
      else None)"

definition client_states_79_87 :: "nat \<Rightarrow> int \<Rightarrow> client_go option" where
  "client_states_79_87 cs c =
     (if cs = 79 then Some (if c = 10 then ([CWriteValue, CTransChunked], 20)
        else if c = 13 then ([CWriteValue], 71)
        else if c \<in> {33, 124, 126} then ([], 21)
        else if c = 58 then ([CWriteField], 22)
        else if c < 45 then (if c > 39 then (if 42 \<le> c \<and> c \<le> 43 then ([], 21)
            else ([], 0))
          else if c \<ge> 35 then ([], 21)
          else ([], 0))
        else if c > 46 then (if c < 65 then (if 48 \<le> c \<and> c \<le> 57 then ([], 21)
            else ([], 0))
          else if c > 90 then (if 94 \<le> c \<and> c \<le> 122 then ([], 21)
            else ([], 0))
          else ([], 21))
        else ([], 21))
      else if cs = 80 then Some (if c = 10 then ([], 62)
        else if c = 32 then ([], 63)
        else if c \<in> {67, 99} then ([CMark], 64)
        else if 9 \<le> c \<and> c \<le> 13 then ([], 63)
        else ([], 0))
      else if cs = 81 then Some (if c = 10 then ([CWriteValue], 20)
        else if c = 13 then ([CWriteValue], 24)
        else if c \<in> {72, 104} then ([], 82)
        else ([], 23))
      else if cs = 82 then Some (if c = 10 then ([CWriteValue], 20)
        else if c = 13 then ([CWriteValue], 24)
        else if c \<in> {85, 117} then ([], 83)
        else ([], 23))
      else if cs = 83 then Some (if c = 10 then ([CWriteValue], 20)
        else if c = 13 then ([CWriteValue], 24)
        else if c \<in> {78, 110} then ([], 84)
        else ([], 23))
      else if cs = 84 then Some (if c = 10 then ([CWriteValue], 20)
        else if c = 13 then ([CWriteValue], 24)
        else if c \<in> {75, 107} then ([], 85)
        else ([], 23))
      else if cs = 85 then Some (if c = 10 then ([CWriteValue], 20)
        else if c = 13 then ([CWriteValue], 24)
        else if c \<in> {69, 101} then ([], 86)
        else ([], 23))
      else if cs = 86 then Some (if c = 10 then ([CWriteValue], 20)
        else if c = 13 then ([CWriteValue], 24)
        else if c \<in> {68, 100} then ([], 87)
        else ([], 23))
      else if cs = 87 then Some (if c = 10 then ([CWriteValue, CTransChunked], 20)
        else if c = 13 then ([CWriteValue], 71)
        else ([], 23))
      else None)"

definition client_states_88_92 :: "nat \<Rightarrow> int \<Rightarrow> client_go option" where
  "client_states_88_92 cs c =
     (if cs = 88 then Some (if c = 10 then ([], 43)
        else ([], 0))
      else if cs = 122 then Some (if c = 32 then ([], 37)
        else if c \<in> {67, 99} then ([], 38)
        else if 9 \<le> c \<and> c \<le> 13 then ([], 37)
        else ([], 0))
      else if cs = 89 then Some (if c = 10 then ([CDone], 122)
        else if c = 32 then ([], 37)
        else if c \<in> {67, 99} then ([], 38)
        else if 9 \<le> c \<and> c \<le> 13 then ([], 37)
        else ([], 0))
      else if cs = 90 then Some (if c \<in> {33, 124, 126} then ([], 21)
        else if c = 58 then ([CWriteField], 22)
        else if c \<in> {76, 108} then ([], 91)
        else if c \<in> {79, 111} then ([], 26)
        else if c < 45 then (if c > 39 then (if 42 \<le> c \<and> c \<le> 43 then ([], 21)
            else ([], 0))
          else if c \<ge> 35 then ([], 21)
          else ([], 0))
        else if c > 46 then (if c < 65 then (if 48 \<le> c \<and> c \<le> 57 then ([], 21)
            else ([], 0))
          else if c > 90 then (if 94 \<le> c \<and> c \<le> 122 then ([], 21)
            else ([], 0))
          else ([], 21))
        else ([], 21))
      else if cs = 91 then Some (if c \<in> {33, 124, 126} then ([], 21)
        else if c = 58 then ([CWriteField], 22)
        else if c \<in> {79, 111} then ([], 92)
        else if c < 45 then (if c > 39 then (if 42 \<le> c \<and> c \<le> 43 then ([], 21)
            else ([], 0))
          else if c \<ge> 35 then ([], 21)
          else ([], 0))
        else if c > 46 then (if c < 65 then (if 48 \<le> c \<and> c \<le> 57 then ([], 21)
            else ([], 0))
          else if c > 90 then (if 94 \<le> c \<and> c \<le> 122 then ([], 21)
            else ([], 0))
          else ([], 21))
        else ([], 21))
      else if cs = 92 then Some (if c \<in> {33, 124, 126} then ([], 21)
        else if c = 58 then ([CWriteField], 22)
        else if c \<in> {83, 115} then ([], 93)
        else if c < 45 then (if c > 39 then (if 42 \<le> c \<and> c \<le> 43 then ([], 21)
            else ([], 0))
          else if c \<ge> 35 then ([], 21)
          else ([], 0))
        else if c > 46 then (if c < 65 then (if 48 \<le> c \<and> c \<le> 57 then ([], 21)
            else ([], 0))
          else if c > 90 then (if 94 \<le> c \<and> c \<le> 122 then ([], 21)
            else ([], 0))
          else ([], 21))
        else ([], 21))
      else None)"

definition client_states_93_100 :: "nat \<Rightarrow> int \<Rightarrow> client_go option" where
  "client_states_93_100 cs c =
     (if cs = 93 then Some (if c \<in> {33, 124, 126} then ([], 21)
        else if c = 58 then ([CWriteField], 22)
        else if c \<in> {69, 101} then ([], 94)
        else if c < 45 then (if c > 39 then (if 42 \<le> c \<and> c \<le> 43 then ([], 21)
            else ([], 0))
          else if c \<ge> 35 then ([], 21)
          else ([], 0))
        else if c > 46 then (if c < 65 then (if 48 \<le> c \<and> c \<le> 57 then ([], 21)
            else ([], 0))
          else if c > 90 then (if 94 \<le> c \<and> c \<le> 122 then ([], 21)
            else ([], 0))
          else ([], 21))
        else ([], 21))
      else if cs = 94 then Some (if c = 10 then ([], 43)
        else if c = 13 then ([], 88)
        else if c \<in> {33, 124, 126} then ([], 21)
        else if c = 58 then ([CWriteField], 22)
        else if c < 45 then (if c > 39 then (if 42 \<le> c \<and> c \<le> 43 then ([], 21)
            else ([], 0))
          else if c \<ge> 35 then ([], 21)
          else ([], 0))
        else if c > 46 then (if c < 65 then (if 48 \<le> c \<and> c \<le> 57 then ([], 21)
            else ([], 0))
          else if c > 90 then (if 94 \<le> c \<and> c \<le> 122 then ([], 21)
            else ([], 0))
          else ([], 21))
        else ([], 21))
      else if cs = 95 then Some (if c = 10 then ([], 36)
        else if c = 32 then ([], 37)
        else if c \<in> {67, 99} then ([], 38)
        else if 9 \<le> c \<and> c \<le> 13 then ([], 37)
        else ([], 0))
      else if cs = 96 then Some (if c = 10 then ([CWriteValue], 20)
        else if c = 13 then ([CWriteValue], 24)
        else if c \<in> {76, 108} then ([], 97)
        else ([], 23))
      else if cs = 97 then Some (if c = 10 then ([CWriteValue], 20)
        else if c = 13 then ([CWriteValue], 24)
        else if c \<in> {79, 111} then ([], 98)
        else ([], 23))
      else if cs = 98 then Some (if c = 10 then ([CWriteValue], 20)
        else if c = 13 then ([CWriteValue], 24)
        else if c \<in> {83, 115} then ([], 99)
        else ([], 23))
      else if cs = 99 then Some (if c = 10 then ([CWriteValue], 20)
        else if c = 13 then ([CWriteValue], 24)
        else if c \<in> {69, 101} then ([], 100)
        else ([], 23))
      else if cs = 100 then Some (if c = 10 then ([CWriteValue], 43)
        else if c = 13 then ([CWriteValue], 88)
        else ([], 23))
      else None)"

definition client_states_101_105 :: "nat \<Rightarrow> int \<Rightarrow> client_go option" where
  "client_states_101_105 cs c =
     (if cs = 101 then Some (if c \<in> {33, 124, 126} then ([], 21)
        else if c = 58 then ([CWriteField], 22)
        else if c \<in> {69, 101} then ([], 102)
        else if c < 45 then (if c > 39 then (if 42 \<le> c \<and> c \<le> 43 then ([], 21)
            else ([], 0))
          else if c \<ge> 35 then ([], 21)
          else ([], 0))
        else if c > 46 then (if c < 65 then (if 48 \<le> c \<and> c \<le> 57 then ([], 21)
            else ([], 0))
          else if c > 90 then (if 94 \<le> c \<and> c \<le> 122 then ([], 21)
            else ([], 0))
          else ([], 21))
        else ([], 21))
      else if cs = 102 then Some (if c \<in> {33, 124, 126} then ([], 21)
        else if c = 58 then ([CWriteField], 22)
        else if c \<in> {78, 110} then ([], 103)
        else if c < 45 then (if c > 39 then (if 42 \<le> c \<and> c \<le> 43 then ([], 21)
            else ([], 0))
          else if c \<ge> 35 then ([], 21)
          else ([], 0))
        else if c > 46 then (if c < 65 then (if 48 \<le> c \<and> c \<le> 57 then ([], 21)
            else ([], 0))
          else if c > 90 then (if 94 \<le> c \<and> c \<le> 122 then ([], 21)
            else ([], 0))
          else ([], 21))
        else ([], 21))
      else if cs = 103 then Some (if c \<in> {33, 124, 126} then ([], 21)
        else if c = 58 then ([CWriteField], 22)
        else if c \<in> {84, 116} then ([], 104)
        else if c < 45 then (if c > 39 then (if 42 \<le> c \<and> c \<le> 43 then ([], 21)
            else ([], 0))
          else if c \<ge> 35 then ([], 21)
          else ([], 0))
        else if c > 46 then (if c < 65 then (if 48 \<le> c \<and> c \<le> 57 then ([], 21)
            else ([], 0))
          else if c > 90 then (if 94 \<le> c \<and> c \<le> 122 then ([], 21)
            else ([], 0))
          else ([], 21))
        else ([], 21))
      else if cs = 104 then Some (if c \<in> {33, 46, 124, 126} then ([], 21)
        else if c = 45 then ([], 105)
        else if c = 58 then ([CWriteField], 22)
        else if c < 48 then (if c > 39 then (if 42 \<le> c \<and> c \<le> 43 then ([], 21)
            else ([], 0))
          else if c \<ge> 35 then ([], 21)
          else ([], 0))
        else if c > 57 then (if c > 90 then (if 94 \<le> c \<and> c \<le> 122 then ([], 21)
            else ([], 0))
          else if c \<ge> 65 then ([], 21)
          else ([], 0))
        else ([], 21))
      else if cs = 105 then Some (if c \<in> {33, 124, 126} then ([], 21)
        else if c = 58 then ([CWriteField], 22)
        else if c \<in> {76, 108} then ([], 106)
        else if c < 45 then (if c > 39 then (if 42 \<le> c \<and> c \<le> 43 then ([], 21)
            else ([], 0))
          else if c \<ge> 35 then ([], 21)
          else ([], 0))
        else if c > 46 then (if c < 65 then (if 48 \<le> c \<and> c \<le> 57 then ([], 21)
            else ([], 0))
          else if c > 90 then (if 94 \<le> c \<and> c \<le> 122 then ([], 21)
            else ([], 0))
          else ([], 21))
        else ([], 21))
      else None)"

definition client_states_106_109 :: "nat \<Rightarrow> int \<Rightarrow> client_go option" where
  "client_states_106_109 cs c =
     (if cs = 106 then Some (if c \<in> {33, 124, 126} then ([], 21)
        else if c = 58 then ([CWriteField], 22)
        else if c \<in> {69, 101} then ([], 107)
        else if c < 45 then (if c > 39 then (if 42 \<le> c \<and> c \<le> 43 then ([], 21)
            else ([], 0))
          else if c \<ge> 35 then ([], 21)
          else ([], 0))
        else if c > 46 then (if c < 65 then (if 48 \<le> c \<and> c \<le> 57 then ([], 21)
            else ([], 0))
          else if c > 90 then (if 94 \<le> c \<and> c \<le> 122 then ([], 21)
            else ([], 0))
          else ([], 21))
        else ([], 21))
      else if cs = 107 then Some (if c \<in> {33, 124, 126} then ([], 21)
        else if c = 58 then ([CWriteField], 22)
        else if c \<in> {78, 110} then ([], 108)
        else if c < 45 then (if c > 39 then (if 42 \<le> c \<and> c \<le> 43 then ([], 21)
            else ([], 0))
          else if c \<ge> 35 then ([], 21)
          else ([], 0))
        else if c > 46 then (if c < 65 then (if 48 \<le> c \<and> c \<le> 57 then ([], 21)
            else ([], 0))
          else if c > 90 then (if 94 \<le> c \<and> c \<le> 122 then ([], 21)
            else ([], 0))
          else ([], 21))
        else ([], 21))
      else if cs = 108 then Some (if c \<in> {33, 124, 126} then ([], 21)
        else if c = 58 then ([CWriteField], 22)
        else if c \<in> {71, 103} then ([], 109)
        else if c < 45 then (if c > 39 then (if 42 \<le> c \<and> c \<le> 43 then ([], 21)
            else ([], 0))
          else if c \<ge> 35 then ([], 21)
          else ([], 0))
        else if c > 46 then (if c < 65 then (if 48 \<le> c \<and> c \<le> 57 then ([], 21)
            else ([], 0))
          else if c > 90 then (if 94 \<le> c \<and> c \<le> 122 then ([], 21)
            else ([], 0))
          else ([], 21))
        else ([], 21))
      else if cs = 109 then Some (if c \<in> {33, 124, 126} then ([], 21)
        else if c = 58 then ([CWriteField], 22)
        else if c \<in> {84, 116} then ([], 110)
        else if c < 45 then (if c > 39 then (if 42 \<le> c \<and> c \<le> 43 then ([], 21)
            else ([], 0))
          else if c \<ge> 35 then ([], 21)
          else ([], 0))
        else if c > 46 then (if c < 65 then (if 48 \<le> c \<and> c \<le> 57 then ([], 21)
            else ([], 0))
          else if c > 90 then (if 94 \<le> c \<and> c \<le> 122 then ([], 21)
            else ([], 0))
          else ([], 21))
        else ([], 21))
      else None)"

definition client_states_110_114 :: "nat \<Rightarrow> int \<Rightarrow> client_go option" where
  "client_states_110_114 cs c =
     (if cs = 110 then Some (if c \<in> {33, 124, 126} then ([], 21)
        else if c = 58 then ([CWriteField], 22)
        else if c \<in> {72, 104} then ([], 111)
        else if c < 45 then (if c > 39 then (if 42 \<le> c \<and> c \<le> 43 then ([], 21)
            else ([], 0))
          else if c \<ge> 35 then ([], 21)
          else ([], 0))
        else if c > 46 then (if c < 65 then (if 48 \<le> c \<and> c \<le> 57 then ([], 21)
            else ([], 0))
          else if c > 90 then (if 94 \<le> c \<and> c \<le> 122 then ([], 21)
            else ([], 0))
          else ([], 21))
        else ([], 21))
      else if cs = 111 then Some (if c \<in> {33, 124, 126} then ([], 21)
        else if c = 58 then ([CWriteField], 112)
        else if c < 45 then (if c > 39 then (if 42 \<le> c \<and> c \<le> 43 then ([], 21)
            else ([], 0))
          else if c \<ge> 35 then ([], 21)
          else ([], 0))
        else if c > 46 then (if c < 65 then (if 48 \<le> c \<and> c \<le> 57 then ([], 21)
            else ([], 0))
          else if c > 90 then (if 94 \<le> c \<and> c \<le> 122 then ([], 21)
            else ([], 0))
          else ([], 21))
        else ([], 21))
      else if cs = 112 then Some (if c = 10 then ([CMark, CWriteValue], 113)
        else if c = 13 then ([CMark, CWriteValue], 118)
        else if c = 32 then ([CMark], 112)
        else if c > 12 then (if 48 \<le> c \<and> c \<le> 57 then ([CMark], 119)
          else ([CMark], 23))
        else if c \<ge> 9 then ([CMark], 112)
        else ([CMark], 23))
      else if cs = 113 then Some (if c = 10 then ([CDone], 123)
        else if c = 13 then ([], 116)
        else if c = 32 then ([], 114)
        else if c \<in> {33, 124, 126} then ([CStartField], 21)
        else if c \<in> {67, 99} then ([CStartField], 25)
        else if c \<in> {84, 116} then ([CStartField], 44)
        else if c < 45 then (if c < 35 then (if 9 \<le> c \<and> c \<le> 12 then ([], 114)
            else ([], 0))
          else if c > 39 then (if 42 \<le> c \<and> c \<le> 43 then ([CStartField], 21)
            else ([], 0))
          else ([CStartField], 21))
        else if c > 46 then (if c < 65 then (if 48 \<le> c \<and> c \<le> 57 then ([CMark, CStartField], 117)
            else ([], 0))
          else if c > 90 then (if 94 \<le> c \<and> c \<le> 122 then ([CStartField], 21)
            else ([], 0))
          else ([CStartField], 21))
        else ([CStartField], 21))
      else if cs = 114 then Some (if c = 32 then ([], 114)
        else if c > 13 then (if 48 \<le> c \<and> c \<le> 57 then ([CMark], 115)
          else ([], 0))
        else if c \<ge> 9 then ([], 114)
        else ([], 0))
      else None)"

definition client_states_115_119 :: "nat \<Rightarrow> int \<Rightarrow> client_go option" where
  "client_states_115_119 cs c =
     (if cs = 115 then Some (if c = 10 then ([CContentLen, CWriteValue], 20)
        else if c = 13 then ([CContentLen, CWriteValue], 24)
        else if 48 \<le> c \<and> c \<le> 57 then ([], 115)
        else ([], 0))
      else if cs = 123 then Some (if c = 32 then ([], 114)
        else if c > 13 then (if 48 \<le> c \<and> c \<le> 57 then ([CMark], 115)
          else ([], 0))
        else if c \<ge> 9 then ([], 114)
        else ([], 0))
      else if cs = 116 then Some (if c = 10 then ([CDone], 123)
        else if c = 32 then ([], 114)
        else if c > 13 then (if 48 \<le> c \<and> c \<le> 57 then ([CMark], 115)
          else ([], 0))
        else if c \<ge> 9 then ([], 114)
        else ([], 0))
      else if cs = 117 then Some (if c = 10 then ([CContentLen, CWriteValue], 20)
        else if c = 13 then ([CContentLen, CWriteValue], 24)
        else if c \<in> {33, 124, 126} then ([], 21)
        else if c = 58 then ([CWriteField], 22)
        else if c < 45 then (if c > 39 then (if 42 \<le> c \<and> c \<le> 43 then ([], 21)
            else ([], 0))
          else if c \<ge> 35 then ([], 21)
          else ([], 0))
        else if c > 46 then (if c < 65 then (if 48 \<le> c \<and> c \<le> 57 then ([], 117)
            else ([], 0))
          else if c > 90 then (if 94 \<le> c \<and> c \<le> 122 then ([], 21)
            else ([], 0))
          else ([], 21))
        else ([], 21))
      else if cs = 118 then Some (if c = 10 then ([], 113)
        else if c = 32 then ([], 114)
        else if c > 13 then (if 48 \<le> c \<and> c \<le> 57 then ([CMark], 115)
          else ([], 0))
        else if c \<ge> 9 then ([], 114)
        else ([], 0))
      else if cs = 119 then Some (if c = 10 then ([CContentLen, CWriteValue], 20)
        else if c = 13 then ([CContentLen, CWriteValue], 24)
        else if 48 \<le> c \<and> c \<le> 57 then ([], 119)
        else ([], 23))
      else None)"

definition client_trans :: "nat \<Rightarrow> int \<Rightarrow> client_go option" where
  "client_trans cs c =
     (if cs = 120 then client_states_1_120 cs c
      else if cs = 121 then client_states_70_74 cs c
      else if cs = 122 then client_states_88_92 cs c
      else if cs = 123 then client_states_115_119 cs c
      else if cs \<le> 51 then (if cs \<le> 21 then (if cs \<le> 4 then (if cs \<le> 2 then (client_states_1_120 cs c)
            else client_states_3_4 cs c)
          else if cs \<le> 12 then (client_states_5_12 cs c)
          else if cs \<le> 19 then (client_states_13_19 cs c)
          else client_states_20_21 cs c)
        else if cs \<le> 34 then (if cs \<le> 25 then (client_states_22_25 cs c)
          else if cs \<le> 29 then (client_states_26_29 cs c)
          else client_states_30_34 cs c)
        else if cs \<le> 42 then (client_states_35_42 cs c)
        else if cs \<le> 46 then (client_states_43_46 cs c)
        else client_states_47_51 cs c)
      else if cs \<le> 87 then (if cs \<le> 69 then (if cs \<le> 55 then (client_states_52_55 cs c)
          else if cs \<le> 60 then (client_states_56_60 cs c)
          else client_states_61_69 cs c)
        else if cs \<le> 74 then (client_states_70_74 cs c)
        else if cs \<le> 78 then (client_states_75_78 cs c)
        else client_states_79_87 cs c)
      else if cs \<le> 105 then (if cs \<le> 92 then (client_states_88_92 cs c)
        else if cs \<le> 100 then (client_states_93_100 cs c)
        else client_states_101_105 cs c)
      else if cs \<le> 109 then (client_states_106_109 cs c)
      else if cs \<le> 114 then (client_states_110_114 cs c)
      else client_states_115_119 cs c)"

end
