(* ===== verification/HttpClient_Phases.thy ===== *)
theory HttpClient_Phases
  imports HttpClient_Table
begin

text \<open>
  The order in which the generated response parser performs its actions, and the certificate that its table
  keeps to it: the status line, or the size of a chunk, then fields, then the end of the head.
\<close>

datatype client_phase = RStart | RVersion | RStatus | RHeaders | RDone

fun client_order :: "client_phase \<Rightarrow> client_act \<Rightarrow> client_phase option" where
  "client_order ph CMark = Some ph"
| "client_order ph CClose = Some ph"
| "client_order ph CTransChunked = Some ph"
| "client_order ph CVersion = (if ph = RStart then Some RVersion else None)"
| "client_order ph CStatus = (if ph = RVersion then Some RStatus else None)"
| "client_order ph CReason = (if ph = RStatus then Some RHeaders else None)"
| "client_order ph CChunkSize = (if ph = RStart then Some RHeaders else None)"
| "client_order ph CStartField = (if ph = RHeaders then Some RHeaders else None)"
| "client_order ph CWriteField = (if ph = RHeaders then Some RHeaders else None)"
| "client_order ph CWriteValue = (if ph = RHeaders then Some RHeaders else None)"
| "client_order ph CContentLen = (if ph = RHeaders then Some RHeaders else None)"
| "client_order ph CDone = (if ph = RHeaders then Some RDone else None)"

definition client_phase_of :: "nat \<Rightarrow> client_phase" where
  "client_phase_of cs =
     (if cs \<le> 2 then RStart else if cs \<le> 7 then RHeaders else if cs \<le> 15 then RStart else if cs \<le> 17 then RVersion else if cs \<le> 19 then RStatus else if cs \<le> 119 then RHeaders else RDone)"

abbreviation client_fits :: "nat \<Rightarrow> client_go option \<Rightarrow> bool" where
  "client_fits \<equiv> opt_fits client_order (\<lambda>a. a = CDone) client_phase_of httpclient_parser_first_final"

lemmas client_eval = go_fits_def client_phase_of_def httpclient_parser_first_final_def

lemma client_ordered_1: "client_fits cs (client_states_1_120 cs c)"
  unfolding client_states_1_120_def by (intro go_rules; simp add: client_eval)

lemma client_ordered_2: "client_fits cs (client_states_3_4 cs c)"
  unfolding client_states_3_4_def by (intro go_rules; simp add: client_eval)

lemma client_ordered_3: "client_fits cs (client_states_5_12 cs c)"
  unfolding client_states_5_12_def by (intro go_rules; simp add: client_eval)

lemma client_ordered_4: "client_fits cs (client_states_13_19 cs c)"
  unfolding client_states_13_19_def by (intro go_rules; simp add: client_eval)

lemma client_ordered_5: "client_fits cs (client_states_20_21 cs c)"
  unfolding client_states_20_21_def by (intro go_rules; simp add: client_eval)

lemma client_ordered_6: "client_fits cs (client_states_22_25 cs c)"
  unfolding client_states_22_25_def by (intro go_rules; simp add: client_eval)

lemma client_ordered_7: "client_fits cs (client_states_26_29 cs c)"
  unfolding client_states_26_29_def by (intro go_rules; simp add: client_eval)

lemma client_ordered_8: "client_fits cs (client_states_30_34 cs c)"
  unfolding client_states_30_34_def by (intro go_rules; simp add: client_eval)

lemma client_ordered_9: "client_fits cs (client_states_35_42 cs c)"
  unfolding client_states_35_42_def by (intro go_rules; simp add: client_eval)

lemma client_ordered_10: "client_fits cs (client_states_43_46 cs c)"
  unfolding client_states_43_46_def by (intro go_rules; simp add: client_eval)

lemma client_ordered_11: "client_fits cs (client_states_47_51 cs c)"
  unfolding client_states_47_51_def by (intro go_rules; simp add: client_eval)

lemma client_ordered_12: "client_fits cs (client_states_52_55 cs c)"
  unfolding client_states_52_55_def by (intro go_rules; simp add: client_eval)

lemma client_ordered_13: "client_fits cs (client_states_56_60 cs c)"
  unfolding client_states_56_60_def by (intro go_rules; simp add: client_eval)

lemma client_ordered_14: "client_fits cs (client_states_61_69 cs c)"
  unfolding client_states_61_69_def by (intro go_rules; simp add: client_eval)

lemma client_ordered_15: "client_fits cs (client_states_70_74 cs c)"
  unfolding client_states_70_74_def by (intro go_rules; simp add: client_eval)

lemma client_ordered_16: "client_fits cs (client_states_75_78 cs c)"
  unfolding client_states_75_78_def by (intro go_rules; simp add: client_eval)

lemma client_ordered_17: "client_fits cs (client_states_79_87 cs c)"
  unfolding client_states_79_87_def by (intro go_rules; simp add: client_eval)

lemma client_ordered_18: "client_fits cs (client_states_88_92 cs c)"
  unfolding client_states_88_92_def by (intro go_rules; simp add: client_eval)

lemma client_ordered_19: "client_fits cs (client_states_93_100 cs c)"
  unfolding client_states_93_100_def by (intro go_rules; simp add: client_eval)

lemma client_ordered_20: "client_fits cs (client_states_101_105 cs c)"
  unfolding client_states_101_105_def by (intro go_rules; simp add: client_eval)

lemma client_ordered_21: "client_fits cs (client_states_106_109 cs c)"
  unfolding client_states_106_109_def by (intro go_rules; simp add: client_eval)

lemma client_ordered_22: "client_fits cs (client_states_110_114 cs c)"
  unfolding client_states_110_114_def by (intro go_rules; simp add: client_eval)

lemma client_ordered_23: "client_fits cs (client_states_115_119 cs c)"
  unfolding client_states_115_119_def by (intro go_rules; simp add: client_eval)

text \<open>Every transition of the table keeps the order.\<close>

lemma client_table_ordered: "client_fits cs (client_trans cs c)"
  unfolding client_trans_def
  by (intro opt_fits_if
    client_ordered_1 client_ordered_2 client_ordered_3 client_ordered_4 client_ordered_5 client_ordered_6 client_ordered_7 client_ordered_8 client_ordered_9 client_ordered_10 client_ordered_11 client_ordered_12 client_ordered_13 client_ordered_14 client_ordered_15 client_ordered_16 client_ordered_17 client_ordered_18 client_ordered_19 client_ordered_20 client_ordered_21 client_ordered_22 client_ordered_23)

end
