(* ===== verification/CLib.thy ===== *)
theory CLib
  imports Prelude
begin

text \<open>
  The functions of the C library that read numbers, as \<open>radixun/http/httpclient_parser.rl\<close>,
  \<open>radixun/http/http_parser.cpp\<close> and \<open>radixun/http/uri.rl\<close> use them; \<open>atoi\<close> is \<open>strtol\<close> to base 10, narrowed.
\<close>

text \<open>\<open>strtol\<close>: blanks, a sign, for base 16 an optional \<open>0x\<close>, digits; the value is clamped to a \<open>long\<close>.\<close>

definition is_space :: "char \<Rightarrow> bool" where
  "is_space c \<longleftrightarrow> of_char c \<in> {9..13 :: nat} \<or> c = CHR '' ''"

definition digit_value :: "char \<Rightarrow> nat" where
  "digit_value c =
     (let n = of_char c
      in if 48 \<le> n \<and> n \<le> 57 then n - 48
         else if 65 \<le> n \<and> n \<le> 90 then n - 55
         else if 97 \<le> n \<and> n \<le> 122 then n - 87
         else 36)"

definition strtol :: "nat \<Rightarrow> string \<Rightarrow> int" where
  "strtol base s =
     (let s1 = dropWhile is_space s;
          neg = (s1 \<noteq> [] \<and> hd s1 = CHR ''-'');
          s2 = (if s1 \<noteq> [] \<and> (hd s1 = CHR ''-'' \<or> hd s1 = CHR ''+'') then tl s1 else s1);
          s3 = (if base = 16 \<and> length s2 > 2 \<and> s2 ! 0 = CHR ''0'' \<and> s2 ! 1 \<in> {CHR ''x'', CHR ''X''} \<and> digit_value (s2 ! 2) < 16
                then drop 2 s2 else s2);
          v = int (foldl (\<lambda>acc c. base * acc + digit_value c) 0 (takeWhile (\<lambda>c. digit_value c < base) s3))
      in if neg then max (- (2 ^ 63)) (- v) else min (2 ^ 63 - 1) v)"

text \<open>A \<open>long\<close> assigned to an \<open>int\<close>.\<close>

definition narrow32 :: "int \<Rightarrow> int" where
  "narrow32 v = sint (word_of_int v :: u32)"

section \<open>Decimal text\<close>

definition decimal_char :: "char \<Rightarrow> bool" where
  "decimal_char c \<longleftrightarrow> 48 \<le> signed_char c \<and> signed_char c \<le> 57"

lemma dec_string_ne [simp]: "dec_string n \<noteq> []"
  by (simp add: dec_string_def digits_ne)

lemma decimal_code: "decimal_char c \<Longrightarrow> digit_value c = char_digit c \<and> digit_value c < 10 \<and> \<not> is_space c \<and> c \<noteq> CHR ''-'' \<and> c \<noteq> CHR ''+''"
proof -
  assume "decimal_char c"
  define n where "n = (of_char c :: nat)"
  have n: "(of_char c :: int) = int n" by (simp only: n_def of_nat_of_char)
  have "n < 256" unfolding n_def by (rule nat_of_char_less_256)
  then have r: "48 \<le> n" "n \<le> 57" using \<open>decimal_char c\<close>
    by (auto simp: decimal_char_def signed_char_def Let_def n split: if_splits)
  have "c \<noteq> CHR '' ''" "c \<noteq> CHR ''-''" "c \<noteq> CHR ''+''" using r by (auto simp: n_def)
  then show ?thesis using r by (auto simp: digit_value_def char_digit_def is_space_def Let_def n_def [symmetric])
qed

lemma foldl_digits:
  "\<forall>c \<in> set w. decimal_char c \<Longrightarrow> foldl (\<lambda>acc c. 10 * acc + digit_value c) a w = foldl (\<lambda>acc c. 10 * acc + char_digit c) a w"
  by (induction w arbitrary: a) (simp_all add: decimal_code)

lemma strtol_decimal:
  assumes "w \<noteq> []" "\<forall>c \<in> set w. decimal_char c" "rest = [] \<or> digit_value (hd rest) \<ge> 10" "digits_value w < 2 ^ 63"
  shows "strtol 10 (w @ rest) = int (digits_value w)"
proof -
  obtain a u where w: "w = a # u" using assms(1) by (cases w) auto
  have a: "\<not> is_space a" "a \<noteq> CHR ''-''" "a \<noteq> CHR ''+''" using assms(2) w decimal_code [of a] by simp_all
  have "takeWhile (\<lambda>c. digit_value c < 10) (w @ rest) = w @ takeWhile (\<lambda>c. digit_value c < 10) rest"
    by (rule takeWhile_append2) (use assms(2) decimal_code in blast)
  moreover have "takeWhile (\<lambda>c. digit_value c < 10) rest = []" using assms(3) by (cases rest) auto
  moreover have "dropWhile is_space (w @ rest) = w @ rest" using a(1) w by simp
  moreover have "w @ rest \<noteq> []" "hd (w @ rest) = a" using w by simp_all
  ultimately show ?thesis using a foldl_digits [OF assms(2)] assms(4)
    by (simp add: strtol_def Let_def digits_value_def)
qed

lemma dec_string_decimal: "\<forall>c \<in> set (dec_string n). decimal_char c"
proof -
  have d: "decimal_char (digit_char m)" if "m < 10" for m
  proof -
    have "m \<in> set [0 ..< 10]" using that by simp
    moreover have "\<forall>m \<in> set [0 ..< 10]. decimal_char (digit_char m)" by code_simp
    ultimately show ?thesis by blast
  qed
  have "\<forall>c \<in> set (digits 10 n). decimal_char c"
  proof (induction "10 :: nat" n rule: digits.induct)
    case (1 n)
    then show ?case by (cases "n < 10") (auto simp: digits.simps [of 10 n] d)
  qed
  then show ?thesis by (simp add: dec_string_def)
qed

end
