(* ===== verification/HttpClient_Parser.thy ===== *)
theory HttpClient_Parser
  imports HttpClient_Phases CLib
begin

text \<open>
  \<open>radixun/http/httpclient_parser.rl.cc\<close>: the functions around the generated table of the response parser.

  \<^item> the memory \<open>mem\<close> is what the buffer pointer may read; the first \<open>len\<close> characters are the data, and the
    \<open>assert\<close> on \<open>*pe\<close> wants a zero after them;
  \<^item> the \<open>exec\<close> section is \<open>run_machine\<close> on \<open>client_machine\<close>, with the callbacks as its handler \<open>h\<close>; none of
    them is null in \<open>HttpResponseParser\<close>;
  \<^item> \<open>httpclient_parser_init\<close> leaves \<open>status\<close> as it is in the argument.
\<close>

record httpclient_parser =
  cp_cs :: nat
  cp_body_start :: nat
  cp_content_len :: int
  cp_status :: int
  cp_chunked :: bool
  cp_chunks_done :: bool
  cp_close :: bool
  cp_nread :: nat
  cp_mark :: nat
  cp_field_start :: nat
  cp_field_len :: nat

datatype client_element = ReasonPhrase | StatusCode | ChunkSize | ResponseVersion | ResponseDone | LastChunk

datatype client_event = CElement client_element nat nat | CField nat nat nat nat

definition httpclient_parser_init :: "httpclient_parser \<Rightarrow> httpclient_parser" where
  "httpclient_parser_init cp =
     cp\<lparr>cp_cs := httpclient_parser_start, cp_body_start := 0, cp_content_len := - 1, cp_chunked := False,
        cp_chunks_done := False, cp_mark := 0, cp_nread := 0, cp_field_len := 0, cp_field_start := 0,
        cp_close := False\<rparr>"

definition httpclient_parser_has_error :: "httpclient_parser \<Rightarrow> bool" where
  "httpclient_parser_has_error cp \<longleftrightarrow> cp_cs cp = httpclient_parser_error"

text \<open>Only one of the four final states counts as finished.\<close>

definition httpclient_parser_is_finished :: "httpclient_parser \<Rightarrow> bool" where
  "httpclient_parser_is_finished cp \<longleftrightarrow> cp_cs cp = httpclient_parser_first_final"

definition httpclient_parser_finish :: "httpclient_parser \<Rightarrow> int" where
  "httpclient_parser_finish cp =
     (if httpclient_parser_has_error cp then - 1 else if httpclient_parser_is_finished cp then 1 else 0)"

section \<open>Actions\<close>

fun client_do :: "string \<Rightarrow> nat \<Rightarrow> nat \<Rightarrow> client_act \<Rightarrow> httpclient_parser \<Rightarrow> client_event option \<times> httpclient_parser" where
  "client_do mem pe p CMark cp = (None, cp\<lparr>cp_mark := p\<rparr>)"
| "client_do mem pe p CStartField cp = (None, cp\<lparr>cp_field_start := p\<rparr>)"
| "client_do mem pe p CWriteField cp = (None, cp\<lparr>cp_field_len := size_sub p (cp_field_start cp)\<rparr>)"
| "client_do mem pe p CContentLen cp = (None, cp\<lparr>cp_content_len := narrow32 (strtol 10 (drop (cp_mark cp) mem))\<rparr>)"
| "client_do mem pe p CClose cp = (None, cp\<lparr>cp_close := True\<rparr>)"
| "client_do mem pe p CWriteValue cp =
     (Some (CField (cp_field_start cp) (cp_field_len cp) (cp_mark cp) (size_sub p (cp_mark cp))), cp)"
| "client_do mem pe p CReason cp = (Some (CElement ReasonPhrase (cp_mark cp) (size_sub p (cp_mark cp))), cp)"
| "client_do mem pe p CStatus cp =
     (Some (CElement StatusCode (cp_mark cp) (size_sub p (cp_mark cp))),
      cp\<lparr>cp_status := narrow32 (strtol 10 (drop (cp_mark cp) mem))\<rparr>)"
| "client_do mem pe p CVersion cp = (Some (CElement ResponseVersion (cp_mark cp) (size_sub p (cp_mark cp))), cp)"
| "client_do mem pe p CChunkSize cp =
     (let n = narrow32 (strtol 16 (drop (cp_mark cp) mem))
      in (Some (CElement (if n \<le> 0 then LastChunk else ChunkSize) (cp_mark cp) (size_sub p (cp_mark cp))),
          cp\<lparr>cp_chunked := True, cp_content_len := n, cp_chunks_done := n \<le> 0\<rparr>))"
| "client_do mem pe p CTransChunked cp = (None, cp\<lparr>cp_chunked := True\<rparr>)"
| "client_do mem pe p CDone cp =
     (Some (CElement ResponseDone (p + 1) (size_sub pe (p + 1))), cp\<lparr>cp_body_start := p + 1\<rparr>)"

definition client_machine :: "string \<Rightarrow> (client_act, httpclient_parser, client_event) machine" where
  "client_machine mem = \<lparr>m_trans = (\<lambda>_. client_trans), m_do = client_do mem, m_break = (\<lambda>a. a = CDone)\<rparr>"

lemma client_machine_simps [simp]:
  "m_trans (client_machine mem) cp = client_trans" "m_do (client_machine mem) = client_do mem"
  "m_break (client_machine mem) a \<longleftrightarrow> a = CDone"
  by (simp_all add: client_machine_def)

section \<open>Execution\<close>

definition httpclient_parser_execute :: "(client_event, 'd) sink \<Rightarrow> httpclient_parser \<Rightarrow> string \<Rightarrow> nat \<Rightarrow> nat \<Rightarrow> 'd
    \<Rightarrow> (int \<times> httpclient_parser \<times> 'd) outcome" where
  "httpclient_parser_execute h cp mem len off d =
     (let cp0 = cp\<lparr>cp_nread := 0, cp_mark := 0, cp_field_len := 0, cp_field_start := 0\<rparr>
      in if \<not> off \<le> len then Fault AssertFail
         else if \<not> len < length mem then Fault OutOfBounds
         else if mem ! len \<noteq> CHR 0x00 \<or> int (len - off) \<noteq> to_int len - to_int off then Fault AssertFail
         else obind (run_machine (client_machine mem) h (take len mem) off (cp_cs cp0) cp0 d) (\<lambda>(cs, p, cp1, d1).
           let cp2 = cp1\<lparr>cp_cs := cs, cp_nread := cp_nread cp1 + (p - off)\<rparr>
           in if \<not> (cp_nread cp2 \<le> len \<and> cp_body_start cp2 \<le> len) then Fault AssertFail
              else if cp_mark cp2 < len \<and> cp_field_len cp2 \<le> len \<and> cp_field_start cp2 < len
              then Ret (to_int (cp_nread cp2), cp2, d1)
              else Ret (- 1, cp2, d1)))"

section \<open>What one execution guarantees\<close>

text \<open>The pieces the parser reports: a value and a status line piece lie in the data; the name of a field begins
  there and is no longer than it.\<close>

definition client_event_in :: "nat \<Rightarrow> client_event \<Rightarrow> bool" where
  "client_event_in len e \<longleftrightarrow>
     (case e of CElement k at n \<Rightarrow> at + n \<le> len | CField f fl v vl \<Rightarrow> f \<le> len \<and> fl \<le> len \<and> v + vl \<le> len)"

definition client_positions_in :: "nat \<Rightarrow> nat \<Rightarrow> httpclient_parser \<Rightarrow> bool" where
  "client_positions_in len p cp \<longleftrightarrow> cp_mark cp \<le> p \<and> cp_field_start cp \<le> p \<and> cp_field_len cp \<le> len
     \<and> cp_mark cp < len \<and> cp_field_start cp < len \<and> cp_body_start cp \<le> len"

text \<open>The order of the events.\<close>

fun client_element_step :: "client_phase \<Rightarrow> client_element \<Rightarrow> client_phase option" where
  "client_element_step ph ResponseVersion = (if ph = RStart then Some RVersion else None)"
| "client_element_step ph StatusCode = (if ph = RVersion then Some RStatus else None)"
| "client_element_step ph ReasonPhrase = (if ph = RStatus then Some RHeaders else None)"
| "client_element_step ph ChunkSize = (if ph = RStart then Some RHeaders else None)"
| "client_element_step ph LastChunk = (if ph = RStart then Some RHeaders else None)"
| "client_element_step ph ResponseDone = (if ph = RHeaders then Some RDone else None)"

fun client_event_step :: "client_phase \<Rightarrow> client_event \<Rightarrow> client_phase option" where
  "client_event_step ph (CElement k at n) = client_element_step ph k"
| "client_event_step ph (CField f fl v vl) = (if ph = RHeaders then Some RHeaders else None)"

primrec client_event_run :: "client_phase \<Rightarrow> client_event list \<Rightarrow> client_phase option" where
  "client_event_run ph [] = Some ph"
| "client_event_run ph (e # es) = (case client_event_step ph e of None \<Rightarrow> None | Some ph' \<Rightarrow> client_event_run ph' es)"

lemma client_event_run_append:
  "client_event_run ph (es @ fs) = (case client_event_run ph es of None \<Rightarrow> None | Some ph' \<Rightarrow> client_event_run ph' fs)"
  by (induction es arbitrary: ph) (auto split: option.splits)

lemma client_do_ok:
  assumes "client_positions_in len p cp" "client_order ph a = Some ph'" "p < len"
  shows "client_positions_in len p (snd (client_do mem len p a cp))"
    and "case fst (client_do mem len p a cp) of
           None \<Rightarrow> ph' = ph
         | Some e \<Rightarrow> client_event_in len e \<and> client_event_step ph e = Some ph'"
    and "cp_cs (snd (client_do mem len p a cp)) = cp_cs cp"
    and "cp_nread (snd (client_do mem len p a cp)) = cp_nread cp"
  using assms by (cases ph; cases a; auto simp: client_positions_in_def client_event_in_def Let_def)+

locale response_observer =
  fixes mem :: string and len :: nat and h :: "(client_event, 'd) sink" and I :: "client_phase \<Rightarrow> 'd \<Rightarrow> bool"
  assumes inside: "len < length mem"
    and observe: "client_event_in len e \<Longrightarrow> I ph d \<Longrightarrow> client_event_step ph e = Some ph' \<Longrightarrow>
      \<exists>d'. h e d = Ret d' \<and> I ph' d'"
begin

definition inv_at :: "nat \<Rightarrow> client_phase \<Rightarrow> httpclient_parser \<Rightarrow> 'd \<Rightarrow> bool" where
  "inv_at p ph cp d \<longleftrightarrow> client_positions_in len p cp \<and> I ph d \<and> cp_nread cp = 0"

lemma min_data [simp]: "min (length mem) len = len"
  using inside by simp

lemma inv_at_act:
  assumes "p < len" "inv_at p ph cp d" "client_order ph a = Some ph'" "client_do mem len p a cp = (ev, cp')"
  shows "\<exists>d'. (case ev of None \<Rightarrow> Ret d | Some e \<Rightarrow> h e d) = Ret d' \<and> inv_at p ph' cp' d'"
proof -
  have i: "client_positions_in len p cp" "I ph d" "cp_nread cp = 0" using assms(2) by (auto simp: inv_at_def)
  note ok = client_do_ok [OF i(1) assms(3,1), of mem, unfolded assms(4), simplified]
  show ?thesis
  proof (cases ev)
    case None
    then show ?thesis using ok i by (simp add: inv_at_def)
  next
    case (Some e)
    then obtain d' where "h e d = Ret d'" "I ph' d'" using ok(2) i(2) observe [of e ph d ph'] by auto
    then show ?thesis using Some ok i by (simp add: inv_at_def)
  qed
qed

sublocale certified_machine "client_machine mem" h "take len mem" client_order client_phase_of
    "\<lambda>cs. cs < httpclient_parser_first_final" RDone inv_at
proof
  show "inv_at p ph cp d \<Longrightarrow> inv_at (Suc p) ph cp d" for p ph cp d
    by (auto simp: inv_at_def client_positions_in_def)
  show "m_break (client_machine mem) a \<Longrightarrow> client_order ph a = Some ph' \<Longrightarrow> ph' = RDone" for a ph ph'
    by (cases ph) auto
  fix cs cp c acts tgt
  assume "cs < httpclient_parser_first_final" "m_trans (client_machine mem) cp cs c = Some (acts, tgt)"
  then show "\<exists>ph. ords client_order (client_phase_of cs) acts = Some ph
      \<and> ((\<forall>a \<in> set acts. \<not> m_break (client_machine mem) a) \<longrightarrow>
        tgt \<noteq> 0 \<longrightarrow> tgt < httpclient_parser_first_final \<and> ph = client_phase_of tgt)"
    using client_table_ordered [of cs c] by (auto dest!: opt_fitsD)
qed (use inv_at_act in \<open>auto simp: httpclient_parser_first_final_def\<close>)

lemma execute_ok:
  assumes small: "len < 2 ^ 31" and nul: "mem ! len = CHR 0x00" and start: "I RStart d"
  shows "\<exists>n cp' d' ph. httpclient_parser_execute h (httpclient_parser_init cp) mem len 0 d = Ret (n, cp', d')
    \<and> I ph d' \<and> (httpclient_parser_is_finished cp' \<longrightarrow> ph = RDone) \<and> n \<le> int len \<and> (0 < len \<longrightarrow> 0 \<le> n)"
proof -
  let ?cp = "httpclient_parser_init cp"
  have same: "?cp\<lparr>cp_nread := 0, cp_mark := 0, cp_field_len := 0, cp_field_start := 0\<rparr> = ?cp" "cp_cs ?cp = 1"
    by (simp_all add: httpclient_parser_init_def httpclient_parser_start_def)
  have int: "int (len - 0) = to_int len - to_int 0" using small by (simp add: to_int_small)
  show ?thesis
  proof (cases "len = 0")
    case True
    then show ?thesis using same inside nul int start
      by (simp add: httpclient_parser_execute_def Let_def run_machine.simps httpclient_parser_is_finished_def
          httpclient_parser_init_def httpclient_parser_first_final_def) blast
  next
    case False
    have inv: "inv_at 0 (client_phase_of 1) ?cp d"
      using False start by (simp add: httpclient_parser_init_def client_positions_in_def inv_at_def client_phase_of_def)
    obtain cs' p' cp' d' q ph where l: "run_machine (client_machine mem) h (take len mem) 0 1 ?cp d = Ret (cs', p', cp', d')"
      "p' \<le> len" and j: "inv_at q ph cp' d'" "cs' = 0 \<or> cs' < httpclient_parser_first_final \<or> ph = RDone"
      using run_kept [of 1 0 ?cp d] inv by (auto simp: httpclient_parser_first_final_def)
    have fin: "cs' = httpclient_parser_first_final \<longrightarrow> ph = RDone" using j(2) by (auto simp: httpclient_parser_first_final_def)
    have "p' < 2 ^ 31" using l(2) small by simp
    then show ?thesis using False same l j(1) int nul inside fin
      by (auto simp: httpclient_parser_execute_def Let_def inv_at_def client_positions_in_def
          httpclient_parser_is_finished_def to_int_small)
  qed
qed

end

end
