(* ===== verification/HttpClient_Runs.thy ===== *)
theory HttpClient_Runs
  imports HttpClient_Parser Http11_Runs Http
begin

text \<open>
  Runs of the generated response parser over the pieces of a response head: the status line, header fields of
  any name but the three the grammar treats specially, and the connection and content-length lines that
  \<open>HttpResponse::dump\<close> prints, with the events each of them reports.
\<close>

section \<open>The status line\<close>

definition line_char :: "char \<Rightarrow> bool" where
  "line_char c \<longleftrightarrow> c \<noteq> CHR 0x0A \<and> c \<noteq> CHR 0x0D"

lemma signed_char_line: "signed_char c = 10 \<longleftrightarrow> c = CHR 0x0A" "signed_char c = 13 \<longleftrightarrow> c = CHR 0x0D"
  by (cases c; auto simp: signed_char_def Let_def of_char_def)+

lemma line_char_signed: "line_char c \<longleftrightarrow> signed_char c \<noteq> 10 \<and> signed_char c \<noteq> 13"
  by (simp add: line_char_def signed_char_line)

lemmas line_states = client_trans_def client_states_13_19_def client_states_22_25_def

lemma ctrans_line:
  "line_char c \<Longrightarrow> client_trans 18 (signed_char c) = Some ([CMark], 19)"
  "line_char c \<Longrightarrow> client_trans 19 (signed_char c) = Some ([], 19)"
  "line_char c \<Longrightarrow> client_trans 23 (signed_char c) = Some ([], 23)"
  by (simp_all add: line_char_signed line_states)

lemma ctrans_code:
  "decimal_char c \<Longrightarrow> client_trans 16 (signed_char c) = Some ([CMark], 17)"
  "decimal_char c \<Longrightarrow> client_trans 17 (signed_char c) = Some ([], 17)"
  by (simp_all add: decimal_char_def line_states)

lemma ctrans_fixed:
  "client_trans 1 (signed_char CHR ''H'') = Some ([CMark], 8)" "client_trans 8 (signed_char CHR ''T'') = Some ([], 9)"
  "client_trans 9 (signed_char CHR ''T'') = Some ([], 10)" "client_trans 10 (signed_char CHR ''P'') = Some ([], 11)"
  "client_trans 11 (signed_char CHR ''/'') = Some ([], 12)" "client_trans 12 (signed_char CHR ''1'') = Some ([], 13)"
  "client_trans 13 (signed_char CHR ''.'') = Some ([], 14)" "client_trans 14 (signed_char CHR ''0'') = Some ([], 15)"
  "client_trans 14 (signed_char CHR ''1'') = Some ([], 15)" "client_trans 15 32 = Some ([CVersion], 16)"
  "client_trans 17 32 = Some ([CStatus], 18)"
  by code_simp+

lemma ctrans_crlf:
  "client_trans 19 13 = Some ([CReason], 24)" "client_trans 24 10 = Some ([], 20)"
  "client_trans 22 13 = Some ([CMark, CWriteValue], 24)" "client_trans 23 13 = Some ([CWriteValue], 24)"
  "client_trans 100 13 = Some ([CWriteValue], 88)" "client_trans 88 10 = Some ([], 43)"
  "client_trans 119 13 = Some ([CContentLen, CWriteValue], 24)"
  "client_trans 20 13 = Some ([], 3)" "client_trans 43 13 = Some ([CClose], 3)" "client_trans 3 10 = Some ([CDone], 120)"
  by code_simp+

text \<open>What the fields change in the parser is not needed afterwards.\<close>

definition kept :: "httpclient_parser \<Rightarrow> httpclient_parser \<Rightarrow> bool" where
  "kept cp cp' \<longleftrightarrow> cp_nread cp' = cp_nread cp \<and> cp_chunked cp' = cp_chunked cp"

lemma kept_simps [simp]:
  "kept cp cp" "kept cp (cp'\<lparr>cp_mark := n\<rparr>) \<longleftrightarrow> kept cp cp'" "kept cp (cp'\<lparr>cp_field_start := n\<rparr>) \<longleftrightarrow> kept cp cp'"
  "kept cp (cp'\<lparr>cp_field_len := n\<rparr>) \<longleftrightarrow> kept cp cp'" "kept cp (cp'\<lparr>cp_status := v\<rparr>) \<longleftrightarrow> kept cp cp'"
  "kept cp (cp'\<lparr>cp_content_len := v\<rparr>) \<longleftrightarrow> kept cp cp'" "kept cp (cp'\<lparr>cp_close := b\<rparr>) \<longleftrightarrow> kept cp cp'"
  "kept (cp\<lparr>cp_mark := n\<rparr>) cp' \<longleftrightarrow> kept cp cp'" "kept (cp\<lparr>cp_field_start := n\<rparr>) cp' \<longleftrightarrow> kept cp cp'"
  "kept (cp\<lparr>cp_field_len := n\<rparr>) cp' \<longleftrightarrow> kept cp cp'"
  by (simp_all add: kept_def)

lemma kept_trans: "kept a b \<Longrightarrow> kept b c \<Longrightarrow> kept a c"
  by (simp add: kept_def)

lemma feed_status_version:
  assumes "d = CHR ''0'' \<or> d = CHR ''1''"
  shows "feed (client_machine mem) len (''HTTP/1.'' @ [d] @ '' '') (0, 1, cp, es) =
    Some (9, 16, cp\<lparr>cp_mark := 0\<rparr>, es @ [CElement ResponseVersion 0 8])"
  using assms by (elim disjE) (simp_all add: ctrans_fixed ctrans_fixed(1) [unfolded One_nat_def] log_handler_def)

lemma feed_code:
  assumes "w \<noteq> []" "\<forall>c \<in> set w. decimal_char c"
  shows "\<exists>cp'. feed (client_machine mem) len (w @ '' '') (p, 16, cp, es) =
    Some (p + length w + 1, 18, cp', es @ [CElement StatusCode p (length w)]) \<and> kept cp cp'"
proof -
  obtain a u where w: "w = a # u" using assms(1) by (cases w) auto
  have "feed (client_machine mem) len u (p + 1, 17, cp\<lparr>cp_mark := p\<rparr>, es) = Some (p + 1 + length u, 17, cp\<lparr>cp_mark := p\<rparr>, es)"
    using assms(2) w ctrans_code by (intro feed_self) auto
  then show ?thesis using assms(2) w ctrans_code(1) [of a]
    by (simp add: feed_append ctrans_fixed log_handler_def)
qed

lemma feed_reason:
  assumes "w \<noteq> []" "\<forall>c \<in> set w. line_char c"
  shows "feed (client_machine mem) len (w @ crlf_text) (p, 18, cp, es) =
    Some (p + length w + 2, 20, cp\<lparr>cp_mark := p\<rparr>, es @ [CElement ReasonPhrase p (length w)])"
proof -
  obtain a u where w: "w = a # u" using assms(1) by (cases w) auto
  have "feed (client_machine mem) len u (p + 1, 19, cp\<lparr>cp_mark := p\<rparr>, es) = Some (p + 1 + length u, 19, cp\<lparr>cp_mark := p\<rparr>, es)"
    using assms(2) w ctrans_line by (intro feed_self) auto
  then show ?thesis using assms(2) w ctrans_line(1) [of a]
    by (simp add: feed_append ctrans_crlf crlf_text_def log_handler_def)
qed

section \<open>Field names\<close>

text \<open>The states that spell the names the grammar treats specially, as a trie over lower-case letters; every
  other name is read in state 21.\<close>

definition name_trie :: "(nat \<times> int \<times> nat) list" where
  "name_trie =
    [(20, 99, 25), (25, 111, 26), (26, 110, 27), (27, 110, 28), (28, 101, 29), (29, 99, 30),
     (30, 116, 31), (31, 105, 32), (32, 111, 33), (33, 110, 34), (27, 116, 101), (101, 101, 102),
     (102, 110, 103), (103, 116, 104), (104, 45, 105), (105, 108, 106), (106, 101, 107), (107, 110, 108),
     (108, 103, 109), (109, 116, 110), (110, 104, 111), (20, 116, 44), (44, 114, 45), (45, 97, 46),
     (46, 110, 47), (47, 115, 48), (48, 102, 49), (49, 101, 50), (50, 114, 51), (51, 45, 52),
     (52, 101, 53), (53, 110, 54), (54, 99, 55), (55, 111, 56), (56, 100, 57), (57, 105, 58),
     (58, 110, 59), (59, 103, 60)]"

definition name_next :: "nat \<Rightarrow> int \<Rightarrow> nat" where
  "name_next s n = (case find (\<lambda>(a, x, b). a = s \<and> x = n) name_trie of Some (a, x, b) \<Rightarrow> b | None \<Rightarrow> 21)"

definition lower_code :: "int \<Rightarrow> int" where
  "lower_code n = (if 65 \<le> n \<and> n \<le> 90 then n + 32 else n)"

definition token_code :: "int \<Rightarrow> bool" where
  "token_code n \<longleftrightarrow> n \<in> {33, 42, 43, 124, 126} \<or> 35 \<le> n \<and> n \<le> 39 \<or> 45 \<le> n \<and> n \<le> 46
     \<or> 48 \<le> n \<and> n \<le> 57 \<or> 65 \<le> n \<and> n \<le> 90 \<or> 94 \<le> n \<and> n \<le> 122"

lemma token_char_code: "token_char c \<longleftrightarrow> token_code (signed_char c)"
  by (simp add: token_char_def token_code_def Let_def)

lemma name_next_eval:
  "name_next 20 n = (if n = 99 then 25 else (if n = 116 then 44 else 21))"
  "name_next 21 n = 21"
  "name_next 25 n = (if n = 111 then 26 else 21)"
  "name_next 26 n = (if n = 110 then 27 else 21)"
  "name_next 27 n = (if n = 110 then 28 else (if n = 116 then 101 else 21))"
  "name_next 28 n = (if n = 101 then 29 else 21)"
  "name_next 29 n = (if n = 99 then 30 else 21)"
  "name_next 30 n = (if n = 116 then 31 else 21)"
  "name_next 31 n = (if n = 105 then 32 else 21)"
  "name_next 32 n = (if n = 111 then 33 else 21)"
  "name_next 33 n = (if n = 110 then 34 else 21)"
  "name_next 34 n = 21"
  "name_next 101 n = (if n = 101 then 102 else 21)"
  "name_next 102 n = (if n = 110 then 103 else 21)"
  "name_next 103 n = (if n = 116 then 104 else 21)"
  "name_next 104 n = (if n = 45 then 105 else 21)"
  "name_next 105 n = (if n = 108 then 106 else 21)"
  "name_next 106 n = (if n = 101 then 107 else 21)"
  "name_next 107 n = (if n = 110 then 108 else 21)"
  "name_next 108 n = (if n = 103 then 109 else 21)"
  "name_next 109 n = (if n = 116 then 110 else 21)"
  "name_next 110 n = (if n = 104 then 111 else 21)"
  "name_next 111 n = 21"
  "name_next 44 n = (if n = 114 then 45 else 21)"
  "name_next 45 n = (if n = 97 then 46 else 21)"
  "name_next 46 n = (if n = 110 then 47 else 21)"
  "name_next 47 n = (if n = 115 then 48 else 21)"
  "name_next 48 n = (if n = 102 then 49 else 21)"
  "name_next 49 n = (if n = 101 then 50 else 21)"
  "name_next 50 n = (if n = 114 then 51 else 21)"
  "name_next 51 n = (if n = 45 then 52 else 21)"
  "name_next 52 n = (if n = 101 then 53 else 21)"
  "name_next 53 n = (if n = 110 then 54 else 21)"
  "name_next 54 n = (if n = 99 then 55 else 21)"
  "name_next 55 n = (if n = 111 then 56 else 21)"
  "name_next 56 n = (if n = 100 then 57 else 21)"
  "name_next 57 n = (if n = 105 then 58 else 21)"
  "name_next 58 n = (if n = 110 then 59 else 21)"
  "name_next 59 n = (if n = 103 then 60 else 21)"
  "name_next 60 n = 21"
  by (simp_all add: name_next_def name_trie_def)

lemma ctrans_name_1:
  "token_code n \<Longrightarrow> client_trans 20 n = Some ([CStartField], name_next 20 (lower_code n))"
  "token_code n \<Longrightarrow> client_trans 21 n = Some ([], name_next 21 (lower_code n))"
  unfolding token_code_def by (elim disjE conjE insertE emptyE; simp add: client_trans_def client_states_20_21_def name_next_eval lower_code_def)+

lemma ctrans_name_2:
  "token_code n \<Longrightarrow> client_trans 25 n = Some ([], name_next 25 (lower_code n))"
  unfolding token_code_def by (elim disjE conjE insertE emptyE; simp add: client_trans_def client_states_22_25_def name_next_eval lower_code_def)+

lemma ctrans_name_3:
  "token_code n \<Longrightarrow> client_trans 26 n = Some ([], name_next 26 (lower_code n))"
  "token_code n \<Longrightarrow> client_trans 27 n = Some ([], name_next 27 (lower_code n))"
  "token_code n \<Longrightarrow> client_trans 28 n = Some ([], name_next 28 (lower_code n))"
  "token_code n \<Longrightarrow> client_trans 29 n = Some ([], name_next 29 (lower_code n))"
  unfolding token_code_def by (elim disjE conjE insertE emptyE; simp add: client_trans_def client_states_26_29_def name_next_eval lower_code_def)+

lemma ctrans_name_4:
  "token_code n \<Longrightarrow> client_trans 30 n = Some ([], name_next 30 (lower_code n))"
  "token_code n \<Longrightarrow> client_trans 31 n = Some ([], name_next 31 (lower_code n))"
  "token_code n \<Longrightarrow> client_trans 32 n = Some ([], name_next 32 (lower_code n))"
  "token_code n \<Longrightarrow> client_trans 33 n = Some ([], name_next 33 (lower_code n))"
  "token_code n \<Longrightarrow> client_trans 34 n = Some ([], name_next 34 (lower_code n))"
  unfolding token_code_def by (elim disjE conjE insertE emptyE; simp add: client_trans_def client_states_30_34_def name_next_eval lower_code_def)+

lemma ctrans_name_5:
  "token_code n \<Longrightarrow> client_trans 101 n = Some ([], name_next 101 (lower_code n))"
  "token_code n \<Longrightarrow> client_trans 102 n = Some ([], name_next 102 (lower_code n))"
  "token_code n \<Longrightarrow> client_trans 103 n = Some ([], name_next 103 (lower_code n))"
  "token_code n \<Longrightarrow> client_trans 104 n = Some ([], name_next 104 (lower_code n))"
  "token_code n \<Longrightarrow> client_trans 105 n = Some ([], name_next 105 (lower_code n))"
  unfolding token_code_def by (elim disjE conjE insertE emptyE; simp add: client_trans_def client_states_101_105_def name_next_eval lower_code_def)+

lemma ctrans_name_6:
  "token_code n \<Longrightarrow> client_trans 106 n = Some ([], name_next 106 (lower_code n))"
  "token_code n \<Longrightarrow> client_trans 107 n = Some ([], name_next 107 (lower_code n))"
  "token_code n \<Longrightarrow> client_trans 108 n = Some ([], name_next 108 (lower_code n))"
  "token_code n \<Longrightarrow> client_trans 109 n = Some ([], name_next 109 (lower_code n))"
  unfolding token_code_def by (elim disjE conjE insertE emptyE; simp add: client_trans_def client_states_106_109_def name_next_eval lower_code_def)+

lemma ctrans_name_7:
  "token_code n \<Longrightarrow> client_trans 110 n = Some ([], name_next 110 (lower_code n))"
  "token_code n \<Longrightarrow> client_trans 111 n = Some ([], name_next 111 (lower_code n))"
  unfolding token_code_def by (elim disjE conjE insertE emptyE; simp add: client_trans_def client_states_110_114_def name_next_eval lower_code_def)+

lemma ctrans_name_8:
  "token_code n \<Longrightarrow> client_trans 44 n = Some ([], name_next 44 (lower_code n))"
  "token_code n \<Longrightarrow> client_trans 45 n = Some ([], name_next 45 (lower_code n))"
  "token_code n \<Longrightarrow> client_trans 46 n = Some ([], name_next 46 (lower_code n))"
  unfolding token_code_def by (elim disjE conjE insertE emptyE; simp add: client_trans_def client_states_43_46_def name_next_eval lower_code_def)+

lemma ctrans_name_9:
  "token_code n \<Longrightarrow> client_trans 47 n = Some ([], name_next 47 (lower_code n))"
  "token_code n \<Longrightarrow> client_trans 48 n = Some ([], name_next 48 (lower_code n))"
  "token_code n \<Longrightarrow> client_trans 49 n = Some ([], name_next 49 (lower_code n))"
  "token_code n \<Longrightarrow> client_trans 50 n = Some ([], name_next 50 (lower_code n))"
  "token_code n \<Longrightarrow> client_trans 51 n = Some ([], name_next 51 (lower_code n))"
  unfolding token_code_def by (elim disjE conjE insertE emptyE; simp add: client_trans_def client_states_47_51_def name_next_eval lower_code_def)+

lemma ctrans_name_10:
  "token_code n \<Longrightarrow> client_trans 52 n = Some ([], name_next 52 (lower_code n))"
  "token_code n \<Longrightarrow> client_trans 53 n = Some ([], name_next 53 (lower_code n))"
  "token_code n \<Longrightarrow> client_trans 54 n = Some ([], name_next 54 (lower_code n))"
  "token_code n \<Longrightarrow> client_trans 55 n = Some ([], name_next 55 (lower_code n))"
  unfolding token_code_def by (elim disjE conjE insertE emptyE; simp add: client_trans_def client_states_52_55_def name_next_eval lower_code_def)+

lemma ctrans_name_11:
  "token_code n \<Longrightarrow> client_trans 56 n = Some ([], name_next 56 (lower_code n))"
  "token_code n \<Longrightarrow> client_trans 57 n = Some ([], name_next 57 (lower_code n))"
  "token_code n \<Longrightarrow> client_trans 58 n = Some ([], name_next 58 (lower_code n))"
  "token_code n \<Longrightarrow> client_trans 59 n = Some ([], name_next 59 (lower_code n))"
  "token_code n \<Longrightarrow> client_trans 60 n = Some ([], name_next 60 (lower_code n))"
  unfolding token_code_def by (elim disjE conjE insertE emptyE; simp add: client_trans_def client_states_56_60_def name_next_eval lower_code_def)+

lemmas ctrans_name = ctrans_name_1 ctrans_name_2 ctrans_name_3 ctrans_name_4 ctrans_name_5 ctrans_name_6 ctrans_name_7 ctrans_name_8 ctrans_name_9 ctrans_name_10 ctrans_name_11

text \<open>The word each state of the trie has read.\<close>

definition name_words :: "(nat \<times> string) list" where
  "name_words =
    [(25, ''c''), (26, ''co''), (27, ''con''), (28, ''conn''),
     (29, ''conne''), (30, ''connec''), (31, ''connect''), (32, ''connecti''),
     (33, ''connectio''), (34, ''connection''), (44, ''t''), (45, ''tr''),
     (46, ''tra''), (47, ''tran''), (48, ''trans''), (49, ''transf''),
     (50, ''transfe''), (51, ''transfer''), (52, ''transfer-''), (53, ''transfer-e''),
     (54, ''transfer-en''), (55, ''transfer-enc''), (56, ''transfer-enco''), (57, ''transfer-encod''),
     (58, ''transfer-encodi''), (59, ''transfer-encodin''), (60, ''transfer-encoding''), (101, ''cont''),
     (102, ''conte''), (103, ''conten''), (104, ''content''), (105, ''content-''),
     (106, ''content-l''), (107, ''content-le''), (108, ''content-len''), (109, ''content-leng''),
     (110, ''content-lengt''), (111, ''content-length'')]"

lemma name_words_check:
  "\<forall>(a, u) \<in> set ((20, []) # name_words). \<forall>(a', x, b) \<in> set name_trie. a = a' \<longrightarrow>
     (b, map signed_char u @ [x]) \<in> set (map (\<lambda>(s, w). (s, map signed_char w)) name_words)"
  by code_simp

definition codes :: "string \<Rightarrow> int list" where
  "codes k = map (\<lambda>c. lower_code (signed_char c)) k"

definition name_state :: "string \<Rightarrow> nat" where
  "name_state k = foldl name_next 20 (codes k)"

definition spelled :: "nat \<Rightarrow> int list \<Rightarrow> bool" where
  "spelled s w \<longleftrightarrow> (s, w) \<in> set (map (\<lambda>(s, w). (s, map signed_char w)) ((20, []) # name_words))"

lemma find_SomeD: "find P xs = Some x \<Longrightarrow> x \<in> set xs \<and> P x"
  by (induction xs) (auto split: if_splits)

lemma name_next_trie: "name_next s n = 21 \<or> (s, n, name_next s n) \<in> set name_trie"
  by (auto simp: name_next_def split: option.splits dest!: find_SomeD)

lemma spelled_next:
  assumes "spelled s w"
  shows "name_next s n = 21 \<or> spelled (name_next s n) (w @ [n])"
proof -
  obtain u where u: "(s, u) \<in> set ((20, []) # name_words)" "w = map signed_char u"
    using assms unfolding spelled_def by auto
  have "(s, n, name_next s n) \<in> set name_trie \<Longrightarrow>
      (name_next s n, map signed_char u @ [n]) \<in> set (map (\<lambda>(s, w). (s, map signed_char w)) name_words)"
    using bspec [OF bspec [OF name_words_check u(1), simplified prod.case]] by blast
  then show ?thesis using name_next_trie [of s n] u(2) by (auto simp: spelled_def)
qed

lemma state_spelled: "foldl name_next 20 w = 21 \<or> spelled (foldl name_next 20 w) w"
proof (induction w rule: rev_induct)
  case Nil
  show ?case by (simp add: spelled_def)
next
  case (snoc n w)
  have "name_next 21 n = 21" by (simp add: name_next_eval)
  then show ?case using snoc spelled_next by auto
qed

definition tail_states :: "nat list" where
  "tail_states = 21 # map (\<lambda>(a, x, b). b) name_trie"

lemma name_next_tail: "name_next s n \<in> set tail_states"
  using name_next_trie [of s n] by (force simp: tail_states_def)

lemma ctrans_tail: "s \<in> set tail_states \<Longrightarrow> token_code n \<Longrightarrow> client_trans s n = Some ([], name_next s (lower_code n))"
  unfolding tail_states_def name_trie_def by (simp only: list.map prod.case list.set insert_iff empty_iff, elim disjE FalseE)
    (simp_all only: ctrans_name)

lemma feed_name_tail:
  "\<forall>c \<in> set u. token_char c \<Longrightarrow> s \<in> set tail_states \<Longrightarrow>
    feed (client_machine mem) len u (p, s, cp, es) = Some (p + length u, foldl name_next s (codes u), cp, es)"
proof (induction u arbitrary: p s)
  case (Cons c u)
  have t: "client_trans s (signed_char c) = Some ([], name_next s (lower_code (signed_char c)))"
    using Cons.prems by (intro ctrans_tail) (simp_all add: token_char_code)
  have "0 \<notin> set tail_states" by (simp add: tail_states_def name_trie_def)
  then have "name_next s (lower_code (signed_char c)) \<noteq> 0" using name_next_tail by metis
  then show ?case using t Cons.IH [of "name_next s (lower_code (signed_char c))"] Cons.prems name_next_tail
    by (simp add: codes_def)
qed (simp add: codes_def)

lemma feed_cname:
  assumes "k \<noteq> []" "\<forall>c \<in> set k. token_char c"
  shows "feed (client_machine mem) len k (p, 20, cp, es) = Some (p + length k, name_state k, cp\<lparr>cp_field_start := p\<rparr>, es)"
proof -
  obtain a u where k: "k = a # u" using assms(1) by (cases k) auto
  let ?s = "name_next 20 (lower_code (signed_char a))"
  have "client_trans 20 (signed_char a) = Some ([CStartField], ?s)"
    using assms(2) k by (intro ctrans_name) (simp add: token_char_code)
  moreover have "?s \<noteq> 0"
  proof -
    have "0 \<notin> set tail_states" by (simp add: tail_states_def name_trie_def)
    then show ?thesis using name_next_tail by metis
  qed
  moreover have "feed (client_machine mem) len u (p + 1, ?s, cp\<lparr>cp_field_start := p\<rparr>, es) =
      Some (p + 1 + length u, foldl name_next ?s (codes u), cp\<lparr>cp_field_start := p\<rparr>, es)"
    using assms(2) k name_next_tail by (intro feed_name_tail) auto
  ultimately show ?thesis by (simp add: k name_state_def codes_def)
qed

text \<open>The names with a grammar of their own.\<close>

definition plain_name :: "string \<Rightarrow> bool" where
  "plain_name k \<longleftrightarrow> codes k \<noteq> map signed_char ''connection'' \<and> codes k \<noteq> map signed_char ''content-length''
     \<and> codes k \<noteq> map signed_char ''transfer-encoding''"

lemma colon_check:
  "\<forall>s \<in> set (21 # map fst name_words). s \<in> {34, 60, 111} \<or> client_trans s 58 = Some ([CWriteField], 22)"
  by code_simp

lemma ctrans_colon:
  assumes "k \<noteq> []" "plain_name k"
  shows "client_trans (name_state k) 58 = Some ([CWriteField], 22)"
proof (cases "name_state k = 21")
  case True
  then show ?thesis using colon_check by simp
next
  case False
  then have "spelled (name_state k) (codes k)" using state_spelled [of "codes k"] by (simp add: name_state_def)
  then obtain u where u: "(name_state k, u) \<in> set name_words" "codes k = map signed_char u"
    using assms(1) by (auto simp: spelled_def codes_def)
  have "name_state k \<notin> {34, 60, 111}" using assms(2) u unfolding plain_name_def u(2) by (auto simp: name_words_def)
  moreover have "name_state k \<in> set (21 # map fst name_words)" using u(1) by force
  ultimately show ?thesis using colon_check by blast
qed

section \<open>Fields\<close>

text \<open>A field as \<open>dump\<close> prints it: the value does not begin with a blank and stays on its line.\<close>

definition cfield_ok :: "string \<times> string \<Rightarrow> bool" where
  "cfield_ok = (\<lambda>(k, v). k \<noteq> [] \<and> (\<forall>c \<in> set k. token_char c) \<and> plain_name k \<and> (\<forall>c \<in> set v. line_char c)
     \<and> (v \<noteq> [] \<longrightarrow> signed_char (hd v) \<notin> {9, 11, 12, 32}))"

definition cfield_text :: "string \<times> string \<Rightarrow> string" where
  "cfield_text = (\<lambda>(k, v). k @ '': '' @ v @ crlf_text)"

definition cfield_event :: "nat \<Rightarrow> string \<times> string \<Rightarrow> client_event" where
  "cfield_event p = (\<lambda>(k, v). CField p (length k) (p + length k + 2) (length v))"

lemma ctrans_value_first:
  "line_char c \<Longrightarrow> signed_char c \<notin> {9, 11, 12, 32} \<Longrightarrow> client_trans 22 (signed_char c) = Some ([CMark], 23)"
  by (auto simp: line_char_signed line_states)

lemma feed_colon:
  "client_trans s 58 = Some ([CWriteField], t) \<Longrightarrow> client_trans t 32 = Some ([CMark], t) \<Longrightarrow> t \<noteq> 0 \<Longrightarrow>
    feed (client_machine mem) len '': '' (p, s, cp, es) =
      Some (p + 2, t, cp\<lparr>cp_field_len := size_sub p (cp_field_start cp), cp_mark := p + 1\<rparr>, es)"
  by simp

lemma feed_cvalue:
  assumes "\<forall>c \<in> set v. line_char c" "v \<noteq> [] \<Longrightarrow> signed_char (hd v) \<notin> {9, 11, 12, 32}"
  shows "feed (client_machine mem) len (v @ crlf_text) (p, 22, cp, es) = Some (p + length v + 2, 20, cp\<lparr>cp_mark := p\<rparr>,
    es @ [CField (cp_field_start cp) (cp_field_len cp) p (length v)])"
proof (cases v)
  case Nil
  then show ?thesis by (simp add: crlf_text_def ctrans_crlf log_handler_def)
next
  case (Cons a u)
  let ?cp = "cp\<lparr>cp_mark := p\<rparr>"
  have "feed (client_machine mem) len u (p + 1, 23, ?cp, es) = Some (p + 1 + length u, 23, ?cp, es)"
    using assms(1) Cons ctrans_line by (intro feed_self) auto
  then show ?thesis using assms Cons ctrans_value_first [of a]
    by (simp add: feed_append crlf_text_def ctrans_crlf log_handler_def)
qed

lemma feed_cfield:
  assumes "cfield_ok h"
  shows "\<exists>cp'. feed (client_machine mem) len (cfield_text h) (p, 20, cp, es) =
    Some (p + length (cfield_text h), 20, cp', es @ [cfield_event p h]) \<and> kept cp cp'"
proof -
  obtain k v where h: "h = (k, v)" by (cases h)
  have ok: "k \<noteq> []" "\<forall>c \<in> set k. token_char c" "plain_name k" "\<forall>c \<in> set v. line_char c"
    "v \<noteq> [] \<Longrightarrow> signed_char (hd v) \<notin> {9, 11, 12, 32}"
    using assms by (auto simp: cfield_ok_def h)
  have sp: "client_trans 22 32 = Some ([CMark], 22)" by code_simp
  have "feed (client_machine mem) len (cfield_text h) (p, 20, cp, es) = Some (p + length k + 2 + length v + 2, 20,
      cp\<lparr>cp_field_start := p, cp_field_len := length k, cp_mark := p + length k + 2\<rparr>, es @ [cfield_event p h])"
    using feed_appendI [OF feed_cname [OF ok(1,2)] feed_appendI [OF feed_colon [OF ctrans_colon [OF ok(1,3)] sp] feed_cvalue [OF ok(4,5)]]]
    by (simp add: cfield_text_def cfield_event_def h)
  then show ?thesis by (simp add: cfield_text_def h crlf_text_def)
qed

primrec cfield_events :: "nat \<Rightarrow> (string \<times> string) list \<Rightarrow> client_event list" where
  "cfield_events p [] = []"
| "cfield_events p (h # hs) = cfield_event p h # cfield_events (p + length (cfield_text h)) hs"

lemma feed_cfields:
  "\<forall>h \<in> set hs. cfield_ok h \<Longrightarrow> \<exists>cp'. feed (client_machine mem) len (concat (map cfield_text hs)) (p, 20, cp, es) =
    Some (p + length (concat (map cfield_text hs)), 20, cp', es @ cfield_events p hs) \<and> kept cp cp'"
proof (induction hs arbitrary: p cp es)
  case Nil
  then show ?case by simp
next
  case (Cons h hs)
  obtain cp1 where h: "feed (client_machine mem) len (cfield_text h) (p, 20, cp, es) =
      Some (p + length (cfield_text h), 20, cp1, es @ [cfield_event p h])" and k1: "kept cp cp1"
    using feed_cfield [of h mem len p cp es] Cons.prems by (simp only: list.set insert_iff) blast
  have tl: "\<forall>h \<in> set hs. cfield_ok h" using Cons.prems by simp
  obtain cp2 where t: "feed (client_machine mem) len (concat (map cfield_text hs))
        (p + length (cfield_text h), 20, cp1, es @ [cfield_event p h]) =
      Some (p + length (cfield_text h) + length (concat (map cfield_text hs)), 20, cp2,
        (es @ [cfield_event p h]) @ cfield_events (p + length (cfield_text h)) hs)" and k2: "kept cp1 cp2"
    using Cons.IH [OF tl, of "p + length (cfield_text h)" cp1 "es @ [cfield_event p h]"] by blast
  show ?case
    by (rule exI [of _ cp2], rule conjI [OF _ kept_trans [OF k1 k2]]) (use feed_appendI [OF h t] in simp)
qed

section \<open>The lines that printing adds\<close>

definition close_text :: "bool \<Rightarrow> string" where
  "close_text close = (if close then ''close'' else ''keep-alive'')"

lemma ctrans_special:
  "client_trans 34 58 = Some ([CWriteField], 35)" "client_trans 35 32 = Some ([CMark], 35)"
  "client_trans 111 58 = Some ([CWriteField], 112)" "client_trans 112 32 = Some ([CMark], 112)"
  "client_trans 35 (signed_char CHR ''k'') = Some ([CMark], 23)" "client_trans 35 (signed_char CHR ''c'') = Some ([CMark], 96)"
  "client_trans 96 (signed_char CHR ''l'') = Some ([], 97)" "client_trans 97 (signed_char CHR ''o'') = Some ([], 98)"
  "client_trans 98 (signed_char CHR ''s'') = Some ([], 99)" "client_trans 99 (signed_char CHR ''e'') = Some ([], 100)"
  "client_trans 43 (signed_char CHR ''c'') = Some ([CClose, CStartField], 25)"
  by code_simp+

lemma ctrans_length:
  "decimal_char c \<Longrightarrow> client_trans 112 (signed_char c) = Some ([CMark], 119)"
  "decimal_char c \<Longrightarrow> client_trans 119 (signed_char c) = Some ([], 119)"
  by (auto simp: decimal_char_def client_trans_def client_states_110_114_def client_states_115_119_def)

text \<open>After \<open>connection: close\<close> the parser is in a state of its own, 43.\<close>

definition after_connection :: "bool \<Rightarrow> nat" where
  "after_connection close = (if close then 43 else 20)"

lemma feed_close:
  "feed (client_machine mem) len (close_text close @ crlf_text) (p, 35, cp, es) =
    Some (p + length (close_text close) + 2, after_connection close, cp\<lparr>cp_mark := p\<rparr>,
      es @ [CField (cp_field_start cp) (cp_field_len cp) p (length (close_text close))])"
proof (cases close)
  case True
  then show ?thesis by (simp add: close_text_def after_connection_def crlf_text_def ctrans_special ctrans_crlf log_handler_def)
next
  case False
  have "\<forall>c \<in> set ''eep-alive''. line_char c" by code_simp
  then have f: "feed (client_machine mem) len ''eep-alive'' (p + 1, 23, cp\<lparr>cp_mark := p\<rparr>, es) =
      Some (p + 1 + length ''eep-alive'', 23, cp\<lparr>cp_mark := p\<rparr>, es)"
    using ctrans_line by (intro feed_self) auto
  have "feed (client_machine mem) len (''k'' @ ''eep-alive'' @ crlf_text) (p, 35, cp, es) =
      Some (p + 12, 20, cp\<lparr>cp_mark := p\<rparr>, es @ [CField (cp_field_start cp) (cp_field_len cp) p 10])"
    by (rule feed_appendI [OF _ feed_appendI [OF f]]) (simp_all add: ctrans_special ctrans_crlf crlf_text_def log_handler_def)
  then show ?thesis using False by (simp add: close_text_def after_connection_def crlf_text_def)
qed

lemma feed_connection:
  "\<exists>cp'. feed (client_machine mem) len (''connection: '' @ close_text close @ crlf_text) (p, 20, cp, es) =
    Some (p + 14 + length (close_text close), after_connection close, cp',
      es @ [CField p 10 (p + 12) (length (close_text close))]) \<and> kept cp cp'"
proof -
  have k: "\<forall>c \<in> set ''connection''. token_char c" "name_state ''connection'' = 34" by code_simp+
  have "feed (client_machine mem) len (''connection'' @ '': '' @ close_text close @ crlf_text) (p, 20, cp, es) =
    Some (p + 14 + length (close_text close), after_connection close,
      cp\<lparr>cp_field_start := p, cp_field_len := 10, cp_mark := p + 12\<rparr>,
      es @ [CField p 10 (p + 12) (length (close_text close))])"
    using feed_appendI [OF feed_cname [OF _ k(1)] feed_appendI [OF feed_colon feed_close], unfolded k(2), OF _ ctrans_special(1,2)]
    by simp
  then show ?thesis by simp
qed

lemma feed_digits:
  assumes "w \<noteq> []" "\<forall>c \<in> set w. decimal_char c"
  shows "\<exists>n. feed (client_machine mem) len (w @ crlf_text) (p, 112, cp, es) =
    Some (p + length w + 2, 20, cp\<lparr>cp_mark := p, cp_content_len := n\<rparr>,
      es @ [CField (cp_field_start cp) (cp_field_len cp) p (length w)])"
proof -
  obtain a u where w: "w = a # u" using assms(1) by (cases w) auto
  let ?cp = "cp\<lparr>cp_mark := p\<rparr>"
  have "feed (client_machine mem) len u (p + 1, 119, ?cp, es) = Some (p + 1 + length u, 119, ?cp, es)"
    using assms(2) w ctrans_length by (intro feed_self) auto
  then show ?thesis using assms(2) w ctrans_length(1) [of a]
    by (simp add: feed_append ctrans_crlf crlf_text_def log_handler_def) blast
qed

lemma feed_length_name:
  "\<exists>cp'. feed (client_machine mem) len ''content-length'' (p, after_connection close, cp, es) =
    Some (p + 14, 111, cp'\<lparr>cp_field_start := p\<rparr>, es) \<and> kept cp cp'"
proof (cases close)
  case True
  have k: "\<forall>c \<in> set ''ontent-length''. token_char c" "25 \<in> set tail_states" "foldl name_next 25 (codes ''ontent-length'') = 111"
    by code_simp+
  have "feed (client_machine mem) len ''ontent-length'' (p + 1, 25, cp\<lparr>cp_close := True, cp_field_start := p\<rparr>, es) =
      Some (p + 1 + 13, 111, cp\<lparr>cp_close := True, cp_field_start := p\<rparr>, es)"
    using feed_name_tail [OF k(1,2)] k(3) by simp
  then have "feed (client_machine mem) len (CHR ''c'' # ''ontent-length'') (p, 43, cp, es) =
      Some (p + 14, 111, cp\<lparr>cp_close := True, cp_field_start := p\<rparr>, es)"
    by (simp only: feed.simps) (simp add: ctrans_special)
  moreover have "kept cp (cp\<lparr>cp_close := True\<rparr>)" by simp
  ultimately show ?thesis using True unfolding after_connection_def by (simp only: if_True) blast
next
  case False
  have k: "\<forall>c \<in> set ''content-length''. token_char c" "name_state ''content-length'' = 111" by code_simp+
  have "feed (client_machine mem) len ''content-length'' (p, 20, cp, es) = Some (p + 14, 111, cp\<lparr>cp_field_start := p\<rparr>, es)"
    using feed_cname [OF _ k(1)] k(2) by simp
  moreover have "kept cp cp" by simp
  ultimately show ?thesis using False unfolding after_connection_def by (simp only: if_False) blast
qed

lemma feed_length:
  assumes "w \<noteq> []" "\<forall>c \<in> set w. decimal_char c"
  shows "\<exists>cp'. feed (client_machine mem) len (''content-length: '' @ w @ crlf_text) (p, after_connection close, cp, es) =
    Some (p + 18 + length w, 20, cp', es @ [CField p 14 (p + 16) (length w)]) \<and> kept cp cp'"
proof -
  obtain cp1 where n: "feed (client_machine mem) len ''content-length'' (p, after_connection close, cp, es) =
    Some (p + 14, 111, cp1\<lparr>cp_field_start := p\<rparr>, es)" and k: "kept cp cp1" using feed_length_name by blast
  let ?cp = "cp1\<lparr>cp_field_start := p, cp_field_len := 14, cp_mark := p + 15\<rparr>"
  have c: "feed (client_machine mem) len '': '' (p + 14, 111, cp1\<lparr>cp_field_start := p\<rparr>, es) = Some (p + 16, 112, ?cp, es)"
    using feed_colon [OF ctrans_special(3,4), of mem len "p + 14"] by simp
  obtain m where d: "feed (client_machine mem) len (w @ crlf_text) (p + 16, 112, ?cp, es) =
    Some (p + 16 + length w + 2, 20, ?cp\<lparr>cp_mark := p + 16, cp_content_len := m\<rparr>, es @ [CField p 14 (p + 16) (length w)])"
    using feed_digits [OF assms, of mem len "p + 16" ?cp es] by auto
  have "kept cp (?cp\<lparr>cp_mark := p + 16, cp_content_len := m\<rparr>)" using k by simp
  moreover have "feed (client_machine mem) len (''content-length: '' @ w @ crlf_text) (p, after_connection close, cp, es) =
    Some (p + 18 + length w, 20, ?cp\<lparr>cp_mark := p + 16, cp_content_len := m\<rparr>, es @ [CField p 14 (p + 16) (length w)])"
    using feed_appendI [OF n feed_appendI [OF c d]] by simp
  ultimately show ?thesis by blast
qed

section \<open>A whole head\<close>

text \<open>The length line is there when there is a body.\<close>

definition length_text :: "string \<Rightarrow> string" where
  "length_text w = (if w = [] then [] else ''content-length: '' @ w @ crlf_text)"

definition head_lines :: "char \<Rightarrow> string \<Rightarrow> string \<Rightarrow> (string \<times> string) list \<Rightarrow> bool \<Rightarrow> string \<Rightarrow> string" where
  "head_lines d code reason hs close w =
     (''HTTP/1.'' @ [d] @ '' '') @ (code @ '' '') @ (reason @ crlf_text) @ concat (map cfield_text hs)
       @ (''connection: '' @ close_text close @ crlf_text) @ length_text w"

definition head_ok :: "char \<Rightarrow> string \<Rightarrow> string \<Rightarrow> (string \<times> string) list \<Rightarrow> string \<Rightarrow> bool" where
  "head_ok d code reason hs w \<longleftrightarrow> (d = CHR ''0'' \<or> d = CHR ''1'') \<and> code \<noteq> [] \<and> (\<forall>c \<in> set code. decimal_char c)
     \<and> reason \<noteq> [] \<and> (\<forall>c \<in> set reason. line_char c) \<and> (\<forall>h \<in> set hs. cfield_ok h) \<and> (\<forall>c \<in> set w. decimal_char c)"

definition head_events :: "string \<Rightarrow> string \<Rightarrow> (string \<times> string) list \<Rightarrow> bool \<Rightarrow> string \<Rightarrow> client_event list" where
  "head_events code reason hs close w =
     (let p1 = 9; p2 = p1 + length code + 1; p3 = p2 + length reason + 2;
          p4 = p3 + length (concat (map cfield_text hs)); p5 = p4 + 14 + length (close_text close)
      in [CElement ResponseVersion 0 8, CElement StatusCode p1 (length code), CElement ReasonPhrase p2 (length reason)]
         @ cfield_events p3 hs @ [CField p4 10 (p4 + 12) (length (close_text close))]
         @ (if w = [] then [] else [CField p5 14 (p5 + 16) (length w)]))"

lemma feed_head:
  assumes "head_ok d code reason hs w"
  shows "\<exists>s cp'. feed (client_machine mem) len (head_lines d code reason hs close w) (0, 1, cp, []) =
    Some (length (head_lines d code reason hs close w), s, cp', head_events code reason hs close w)
      \<and> s \<in> {20, 43} \<and> kept cp cp'"
proof -
  have ok: "d = CHR ''0'' \<or> d = CHR ''1''" "code \<noteq> []" "\<forall>c \<in> set code. decimal_char c" "reason \<noteq> []"
    "\<forall>c \<in> set reason. line_char c" "\<forall>h \<in> set hs. cfield_ok h" "\<forall>c \<in> set w. decimal_char c"
    using assms by (auto simp: head_ok_def)
  let ?f = "feed (client_machine mem) len"
  let ?p3 = "9 + length code + 1 + length reason + 2"
  let ?p4 = "?p3 + length (concat (map cfield_text hs))"
  let ?p5 = "?p4 + 14 + length (close_text close)"
  let ?es1 = "[CElement ResponseVersion 0 8]"
  let ?es2 = "?es1 @ [CElement StatusCode 9 (length code)]"
  let ?es3 = "?es2 @ [CElement ReasonPhrase (9 + length code + 1) (length reason)]"
  let ?es5 = "(?es3 @ cfield_events ?p3 hs) @ [CField ?p4 10 (?p4 + 12) (length (close_text close))]"
  note v = feed_status_version [OF ok(1), of mem len cp "[]", unfolded append_Nil]
  obtain cp1 where c: "?f (code @ '' '') (9, 16, cp\<lparr>cp_mark := 0\<rparr>, ?es1) = Some (9 + length code + 1, 18, cp1, ?es2)"
    and k1: "kept (cp\<lparr>cp_mark := 0\<rparr>) cp1" using feed_code [OF ok(2,3)] by blast
  note r = feed_reason [OF ok(4,5), of mem len "9 + length code + 1" cp1 ?es2]
  obtain cp2 where f: "?f (concat (map cfield_text hs)) (?p3, 20, cp1\<lparr>cp_mark := 9 + length code + 1\<rparr>, ?es3) =
    Some (?p4, 20, cp2, ?es3 @ cfield_events ?p3 hs)" and k2: "kept (cp1\<lparr>cp_mark := 9 + length code + 1\<rparr>) cp2"
    using feed_cfields [OF ok(6)] by blast
  obtain cp3 where l: "?f (''connection: '' @ close_text close @ crlf_text) (?p4, 20, cp2, ?es3 @ cfield_events ?p3 hs) =
    Some (?p5, after_connection close, cp3, ?es5)" and k3: "kept cp2 cp3"
    using feed_connection by blast
  have k: "kept cp cp3" using k1 k2 k3 by (simp add: kept_def)
  obtain cp4 s where n: "?f (length_text w) (?p5, after_connection close, cp3, ?es5) =
      Some (?p5 + length (length_text w), s, cp4, ?es5 @ (if w = [] then [] else [CField ?p5 14 (?p5 + 16) (length w)]))"
    "s \<in> {20, 43}" "kept cp3 cp4"
  proof (cases "w = []")
    case True
    then show thesis by (intro that [of "after_connection close" cp3]) (auto simp: length_text_def after_connection_def)
  next
    case False
    then obtain cp4 where "?f (''content-length: '' @ w @ crlf_text) (?p5, after_connection close, cp3, ?es5) =
      Some (?p5 + 18 + length w, 20, cp4, ?es5 @ [CField ?p5 14 (?p5 + 16) (length w)])" "kept cp3 cp4"
      using feed_length [OF False ok(7)] by blast
    then show thesis using False by (intro that [of 20 cp4]) (simp_all add: length_text_def crlf_text_def)
  qed
  have es: "?es5 @ (if w = [] then [] else [CField ?p5 14 (?p5 + 16) (length w)]) = head_events code reason hs close w"
    by (simp add: head_events_def Let_def)
  have len: "?p5 + length (length_text w) = length (head_lines d code reason hs close w)"
    by (simp add: head_lines_def crlf_text_def)
  have "?f (head_lines d code reason hs close w) (0, 1, cp, []) =
      Some (?p5 + length (length_text w), s, cp4, ?es5 @ (if w = [] then [] else [CField ?p5 14 (?p5 + 16) (length w)]))"
    unfolding head_lines_def
    by (rule feed_appendI [OF v feed_appendI [OF c feed_appendI [OF r feed_appendI [OF f feed_appendI [OF l n(1)]]]]])
  then show ?thesis unfolding es len using n(2) kept_trans [OF k n(3)] by blast
qed

text \<open>The end of the head.\<close>

lemma client_loop_finish:
  assumes "buf ! p = CHR 0x0D" "buf ! (p + 1) = CHR 0x0A" "p + 2 \<le> length buf" "s \<in> {20, 43}"
  shows "\<exists>cp'. run_machine (client_machine mem) log_handler buf p s cp es =
    Ret (120, p + 2, cp'\<lparr>cp_body_start := p + 2\<rparr>, es @ [CElement ResponseDone (p + 2) (length buf - (p + 2))]) \<and> kept cp cp'"
proof -
  have "run_machine (client_machine mem) log_handler buf p s cp es =
    Ret (120, p + 2, (if s = 20 then cp else cp\<lparr>cp_close := True\<rparr>)\<lparr>cp_body_start := p + 2\<rparr>,
      es @ [CElement ResponseDone (p + 2) (length buf - (p + 2))])"
    using assms by (auto simp: run_machine.simps [of _ _ buf p] run_machine.simps [of _ _ buf "Suc p"]
        ctrans_crlf log_handler_def)
  moreover have "kept cp (if s = 20 then cp else cp\<lparr>cp_close := True\<rparr>)" by simp
  ultimately show ?thesis by blast
qed

lemma kept_body_start [simp]: "kept cp (cp'\<lparr>cp_body_start := n\<rparr>) \<longleftrightarrow> kept cp cp'"
  by (simp add: kept_def)

text \<open>All fields together.\<close>

definition head_fields :: "(string \<times> string) list \<Rightarrow> bool \<Rightarrow> string \<Rightarrow> (string \<times> string) list" where
  "head_fields hs close w =
     hs @ [(''connection'', close_text close)] @ (if w = [] then [] else [(''content-length'', w)])"

lemma cfield_events_append:
  "cfield_events p (hs @ hs') = cfield_events p hs @ cfield_events (p + length (concat (map cfield_text hs))) hs'"
  by (induction hs arbitrary: p) (auto simp: add.assoc)

lemma head_lines_fields:
  "head_lines d code reason hs close w =
    (''HTTP/1.'' @ [d] @ '' '' @ code @ '' '' @ reason @ crlf_text) @ concat (map cfield_text (head_fields hs close w))"
  by (simp add: head_lines_def head_fields_def cfield_text_def length_text_def)

lemma head_events_fields:
  "head_events code reason hs close w =
    [CElement ResponseVersion 0 8, CElement StatusCode 9 (length code), CElement ReasonPhrase (10 + length code) (length reason)]
      @ cfield_events (length (''HTTP/1.'' @ [d] @ '' '' @ code @ '' '' @ reason @ crlf_text)) (head_fields hs close w)"
  by (simp add: head_events_def head_fields_def cfield_events_append cfield_event_def cfield_text_def crlf_text_def Let_def
      numeral_eq_Suc)

text \<open>What any callbacks do in one execution is what they do to the recorded events.\<close>

lemma httpclient_parser_execute_deliver:
  assumes "httpclient_parser_execute log_handler cp mem len off [] = Ret (n, cp', es)"
  shows "httpclient_parser_execute h cp mem len off d = obind (deliver h es d) (\<lambda>d'. Ret (n, cp', d' :: 'd))"
proof -
  let ?cp = "cp\<lparr>cp_nread := 0, cp_mark := 0, cp_field_len := 0, cp_field_start := 0\<rparr>"
  obtain cs' p' cp1 es1 where l:
      "\<And>es0. run_machine (client_machine mem) log_handler (take len mem) off (cp_cs ?cp) ?cp es0 = Ret (cs', p', cp1, es0 @ es1)"
      "\<And>h d. run_machine (client_machine mem) h (take len mem) off (cp_cs ?cp) ?cp d = obind (deliver h es1 d) (\<lambda>d'. Ret (cs', p', cp1, d' :: 'd))"
    using run_machine_deliver by metis
  show ?thesis using assms l
    by (auto simp: httpclient_parser_execute_def Let_def obind_assoc split: if_splits)
qed

lemma log_observer: "len < length mem \<Longrightarrow> response_observer mem len log_handler (\<lambda>ph es. client_event_run RStart es = Some ph)"
  by unfold_locales (auto simp: log_handler_def client_event_run_append)

lemma head_execute:
  assumes ok: "head_ok d code reason hs w" and mem: "mem = head_lines d code reason hs close w @ crlf_text @ rest @ CHR 0x00 # junk"
    and len: "len = length (head_lines d code reason hs close w) + 2 + length rest" and small: "len < 2 ^ 31"
  shows "\<exists>cp'. httpclient_parser_execute log_handler (httpclient_parser_init raw) mem len 0 [] =
      Ret (int (length (head_lines d code reason hs close w) + 2), cp',
        head_events code reason hs close w
          @ [CElement ResponseDone (length (head_lines d code reason hs close w) + 2) (length rest)])
    \<and> cp_cs cp' = 120 \<and> \<not> cp_chunked cp'"
proof -
  let ?H = "head_lines d code reason hs close w" and ?cp = "httpclient_parser_init raw"
  let ?buf = "take len mem"
  have same: "?cp\<lparr>cp_nread := 0, cp_mark := 0, cp_field_len := 0, cp_field_start := 0\<rparr> = ?cp" "cp_cs ?cp = 1"
    "cp_nread ?cp = 0" "\<not> cp_chunked ?cp" by (simp_all add: httpclient_parser_init_def httpclient_parser_start_def)
  have m: "len < length mem" "mem ! len = CHR 0x00" "0 < len" by (simp_all add: mem len crlf_text_def nth_append)
  have buf: "?buf = ?H @ crlf_text @ rest" "length ?buf = len" by (simp_all add: mem len crlf_text_def)
  obtain s cp1 where f: "feed (client_machine mem) (length ?buf) ?H (length ([] :: string), 1, ?cp, []) =
      Some (length ?H, s, cp1, head_events code reason hs close w)" "s \<in> {20, 43}" "kept ?cp cp1"
    using feed_head [OF ok] by (metis list.size(3))
  have nth: "?buf ! length ?H = CHR 0x0D" "?buf ! (length ?H + 1) = CHR 0x0A" "length ?H + 2 \<le> length ?buf"
    unfolding buf(1) using nth_append_length_plus [of ?H "crlf_text @ rest" 0] nth_append_length_plus [of ?H "crlf_text @ rest" 1]
    by (simp_all add: crlf_text_def)
  have "run_machine (client_machine mem) log_handler ?buf 0 1 ?cp [] =
      run_machine (client_machine mem) log_handler ?buf (length ?H) s cp1 (head_events code reason hs close w)"
    using loop_feed [OF f(1), of "crlf_text @ rest"] buf(1) by simp
  then obtain cp2 where l: "run_machine (client_machine mem) log_handler ?buf 0 1 ?cp [] = Ret (120, length ?H + 2,
      cp2\<lparr>cp_body_start := length ?H + 2\<rparr>, head_events code reason hs close w
        @ [CElement ResponseDone (length ?H + 2) (length ?buf - (length ?H + 2))])" and k: "kept cp1 cp2"
    using client_loop_finish [OF nth f(2)] by metis
  have k2: "cp_nread cp2 = 0" "\<not> cp_chunked cp2" using k f(3) same by (simp_all add: kept_def)
  have "client_event_run RStart [] = Some RStart" by simp
  from response_observer.execute_ok [OF log_observer [OF m(1)] small m(2) this, of raw]
  obtain n cp' es' where e: "httpclient_parser_execute log_handler ?cp mem len 0 [] = Ret (n, cp', es')" "0 \<le> n"
    using m(3) by auto
  have "length ?H + 2 < 2 ^ 31" "length ?buf - (length ?H + 2) = length rest" using small len buf(2) by simp_all
  then show ?thesis using e l same k2
    by (auto simp: httpclient_parser_execute_def Let_def to_int_small split: if_splits)
qed

end
