(* ===== verification/HttpResponseParser.thy ===== *)
theory HttpResponseParser
  imports HttpClient_Runs HttpSession
begin

text \<open>
  \<open>radixun/http/http_parser.{h,cpp}\<close>, the response half: the callbacks that fill an \<open>HttpResponse\<close> and
  \<open>HttpResponseParser\<close> over the generated parser.

  \<^item> the callbacks' state is the response and the error code; a pointer into the data is its offset in the
    memory \<open>mem\<close> that the caller owns, of which the first \<open>len\<close> characters are the data;
  \<^item> the status code is cast from the number \<open>atoi\<close> reads; log output is left out.
\<close>

section \<open>Callbacks\<close>

type_synonym response_sink = "http_response \<times> int"

definition on_response_reason :: "string \<Rightarrow> nat \<Rightarrow> nat \<Rightarrow> response_sink \<Rightarrow> response_sink outcome" where
  "on_response_reason mem at n = (\<lambda>(r, err). obind (cpp_string mem at n) (\<lambda>s. Ret (r\<lparr>rs_reason := s\<rparr>, err)))"

definition on_response_status :: "string \<Rightarrow> nat \<Rightarrow> nat \<Rightarrow> response_sink \<Rightarrow> response_sink outcome" where
  "on_response_status mem at n = (\<lambda>(r, err). Ret (r\<lparr>rs_status := unat (word_of_int (strtol 10 (drop at mem)) :: u32)\<rparr>, err))"

definition on_response_chunk :: "string \<Rightarrow> nat \<Rightarrow> nat \<Rightarrow> response_sink \<Rightarrow> response_sink outcome" where
  "on_response_chunk mem at n d = Ret d"

definition on_response_version :: "string \<Rightarrow> nat \<Rightarrow> nat \<Rightarrow> response_sink \<Rightarrow> response_sink outcome" where
  "on_response_version mem at n = (\<lambda>(r, err).
     if strncmp_eq (drop at mem) ''HTTP/1.1'' n then Ret (r\<lparr>rs_version := 0x11\<rparr>, err)
     else if strncmp_eq (drop at mem) ''HTTP/1.0'' n then Ret (r\<lparr>rs_version := 0x10\<rparr>, err)
     else Ret (r, 1001))"

definition on_response_header_done :: "string \<Rightarrow> nat \<Rightarrow> nat \<Rightarrow> response_sink \<Rightarrow> response_sink outcome" where
  "on_response_header_done mem at n d = Ret d"

definition on_response_last_chunk :: "string \<Rightarrow> nat \<Rightarrow> nat \<Rightarrow> response_sink \<Rightarrow> response_sink outcome" where
  "on_response_last_chunk mem at n d = Ret d"

definition on_response_http_field ::
    "string \<Rightarrow> nat \<Rightarrow> nat \<Rightarrow> nat \<Rightarrow> nat \<Rightarrow> response_sink \<Rightarrow> response_sink outcome" where
  "on_response_http_field mem field flen val vlen = (\<lambda>(r, err).
     if flen = 0 then Ret (r, err)
     else obind (cpp_string mem field flen) (\<lambda>k.
          obind (cpp_string mem val vlen) (\<lambda>v. Ret (rs_setHeader k v r, err))))"

text \<open>The constructor's assignment of the callbacks.\<close>

fun response_callbacks :: "string \<Rightarrow> (client_event, response_sink) sink" where
  "response_callbacks mem (CElement ReasonPhrase at n) d = on_response_reason mem at n d"
| "response_callbacks mem (CElement StatusCode at n) d = on_response_status mem at n d"
| "response_callbacks mem (CElement ChunkSize at n) d = on_response_chunk mem at n d"
| "response_callbacks mem (CElement ResponseVersion at n) d = on_response_version mem at n d"
| "response_callbacks mem (CElement ResponseDone at n) d = on_response_header_done mem at n d"
| "response_callbacks mem (CElement LastChunk at n) d = on_response_last_chunk mem at n d"
| "response_callbacks mem (CField f fl v vl) d = on_response_http_field mem f fl v vl d"

section \<open>The parser object\<close>

record response_parser =
  sp_parser :: httpclient_parser
  sp_data :: http_response
  sp_error :: int

definition HttpResponseParser_new :: "httpclient_parser \<Rightarrow> response_parser" where
  "HttpResponseParser_new raw =
     \<lparr>sp_parser = httpclient_parser_init raw, sp_data = HttpResponse_new 0x11 True, sp_error = 0\<rparr>"

definition sp_setError :: "int \<Rightarrow> response_parser \<Rightarrow> response_parser" where
  "sp_setError v sp = sp\<lparr>sp_error := v\<rparr>"

definition sp_getContentLength :: "(string \<Rightarrow> u64 option) \<Rightarrow> response_parser \<Rightarrow> u64" where
  "sp_getContentLength cast sp = rs_getHeaderAs cast (sp_data sp) ''content-length'' 0"

text \<open>The generated function's \<open>-1\<close> becomes an offset outside the data, and \<open>memmove\<close> reads there.\<close>

definition sp_execute :: "string \<Rightarrow> nat \<Rightarrow> bool \<Rightarrow> response_parser \<Rightarrow> (nat \<times> string \<times> response_parser) outcome" where
  "sp_execute mem len chunck sp =
     (let cp = (if chunck then httpclient_parser_init (sp_parser sp) else sp_parser sp)
      in obind (httpclient_parser_execute (response_callbacks mem) cp mem len 0 (sp_data sp, sp_error sp))
           (\<lambda>(n, cp1, r, err). let off = to_size n in
              if off \<le> len
              then Ret (off, move_rest (take len mem) off @ drop len mem, \<lparr>sp_parser = cp1, sp_data = r, sp_error = err\<rparr>)
              else Fault OutOfBounds))"

definition sp_isFinished :: "response_parser \<Rightarrow> int" where
  "sp_isFinished sp = httpclient_parser_finish (sp_parser sp)"

definition sp_hasError :: "response_parser \<Rightarrow> bool" where
  "sp_hasError sp \<longleftrightarrow> sp_error sp \<noteq> 0 \<or> httpclient_parser_has_error (sp_parser sp)"

section \<open>Every input is parsed without a crash when the memory has room\<close>

definition response_sink_ok :: "response_sink \<Rightarrow> bool" where
  "response_sink_ok = (\<lambda>(r, err). err \<in> {0, 1001} \<and> wf_headers (rs_headers r) \<and> rs_version r \<in> {0x10, 0x11}
     \<and> rs_status r < 2 ^ 32)"

lemma response_callbacks_ok:
  assumes "client_event_in len e" "2 * len \<le> length mem" "len < 2 ^ 31" "response_sink_ok d"
  shows "\<exists>d'. response_callbacks mem e d = Ret d' \<and> response_sink_ok d'"
proof (cases e)
  case (CElement k at n)
  then have n: "n < 2 ^ 63" "at + n \<le> length mem" using assms(1-3) by (auto simp: client_event_in_def)
  have u: "unat (w :: u32) < 2 ^ 32" for w by (rule order.strict_trans2 [OF unsigned_less]) simp
  show ?thesis using assms(4) n u CElement
    by (cases d; cases k) (auto simp: cpp_string_def response_sink_ok_def on_response_reason_def on_response_status_def
        on_response_chunk_def on_response_version_def on_response_header_done_def on_response_last_chunk_def)
next
  case (CField f fl v vl)
  then have n: "fl < 2 ^ 63" "vl < 2 ^ 63" "f + fl \<le> length mem" "v + vl \<le> length mem"
    using assms(1-3) by (auto simp: client_event_in_def)
  then show ?thesis using assms(4) CField
    by (cases d) (auto simp: cpp_string_def response_sink_ok_def on_response_http_field_def wf_map_set rs_setHeader_def)
qed

lemma response_callbacks_observer:
  "len < length mem \<Longrightarrow> 2 * len \<le> length mem \<Longrightarrow> len < 2 ^ 31 \<Longrightarrow>
    response_observer mem len (response_callbacks mem) (\<lambda>_. response_sink_ok)"
  using response_callbacks_ok by unfold_locales blast+

text \<open>C21. A new response parser reads any non-empty data without a fault or an exception when the caller's memory is twice as
  long as the data and a zero follows them: it consumes at most the data, moves what it did not consume to the
  front, and leaves a response with an ordered header map, version 1.0 or 1.1 and a documented error code.\<close>

theorem response_parser_total:
  assumes "0 < len" "2 * len \<le> length mem" "len < length mem" "mem ! len = CHR 0x00" "len < 2 ^ 31"
  shows "\<exists>off rest sp'. sp_execute mem len chunck (HttpResponseParser_new raw) = Ret (off, rest, sp') \<and> off \<le> len
    \<and> take (len - off) rest = drop off (take len mem) \<and> length rest = length mem
    \<and> wf_headers (rs_headers (sp_data sp')) \<and> rs_version (sp_data sp') \<in> {0x10, 0x11} \<and> sp_error sp' \<in> {0, 1001}"
proof -
  have i: "httpclient_parser_init (httpclient_parser_init raw) = httpclient_parser_init raw"
    by (simp add: httpclient_parser_init_def)
  have "response_sink_ok (HttpResponse_new 0x11 True, 0)" by (simp add: response_sink_ok_def HttpResponse_new_def)
  from response_observer.execute_ok [OF response_callbacks_observer [OF assms(3,2,5)] assms(5,4) this, of raw]
  obtain n cp' r' err' where e: "httpclient_parser_execute (response_callbacks mem) (httpclient_parser_init raw) mem len 0
      (HttpResponse_new 0x11 True, 0) = Ret (n, cp', r', err')" "response_sink_ok (r', err')" "n \<le> int len" "0 \<le> n"
    using assms(1) by auto
  then have "to_size n = nat n" "nat n \<le> len" using assms(5) by (auto intro: to_size_nonneg)
  then show ?thesis using e(1,2) assms(3) i
    by (auto simp: sp_execute_def HttpResponseParser_new_def move_rest_def response_sink_ok_def Let_def)
qed

definition blank_client :: httpclient_parser where
  "blank_client = \<lparr>cp_cs = 0, cp_body_start = 0, cp_content_len = 0, cp_status = 0, cp_chunked = False, cp_chunks_done = False,
     cp_close = False, cp_nread = 0, cp_mark = 0, cp_field_start = 0, cp_field_len = 0\<rparr>"

theorem response_parser_total_witness:
  "\<exists>off rest sp'. sp_execute (''HTP'' @ replicate 5 CHR 0x00) 3 True (HttpResponseParser_new blank_client) = Ret (off, rest, sp')
    \<and> off \<le> 3 \<and> sp_error sp' \<in> {0, 1001}"
  using response_parser_total [of 3 "''HTP'' @ replicate 5 CHR 0x00" True blank_client] by auto

section \<open>The fields arrive\<close>

lemma deliver_cfield:
  assumes "mem = pre @ k @ '': '' @ v @ post" "k \<noteq> []" "length mem < 2 ^ 63"
  shows "response_callbacks mem (cfield_event (length pre) (k, v)) (r, err) = Ret (rs_setHeader k v r, err)"
proof -
  have "take (length k) (drop (length pre) mem) = k" "take (length v) (drop (length pre + length k + 2) mem) = v"
    by (simp_all add: assms(1))
  moreover have "length pre + length k \<le> length mem" "length pre + length k + 2 + length v \<le> length mem"
    by (simp_all add: assms(1))
  ultimately show ?thesis using assms(2,3) by (simp add: cfield_event_def on_response_http_field_def cpp_string_def)
qed

lemma deliver_cfields:
  "\<forall>(k, v) \<in> set hs. k \<noteq> [] \<Longrightarrow> mem = pre @ concat (map cfield_text hs) @ post \<Longrightarrow> length mem < 2 ^ 63 \<Longrightarrow>
    deliver (response_callbacks mem) (cfield_events (length pre) hs) (r, err) = Ret (foldl (\<lambda>r (k, v). rs_setHeader k v r) r hs, err)"
proof (induction hs arbitrary: pre r)
  case (Cons h hs)
  obtain k v where h: "h = (k, v)" by (cases h)
  have m: "mem = pre @ k @ '': '' @ v @ (crlf_text @ concat (map cfield_text hs) @ post)"
    using Cons.prems(2) by (simp add: h cfield_text_def)
  have m2: "mem = (pre @ cfield_text h) @ concat (map cfield_text hs) @ post" using Cons.prems(2) by simp
  have k: "k \<noteq> []" using Cons.prems(1) h by simp
  have tl: "\<forall>(k, v) \<in> set hs. k \<noteq> []" using Cons.prems(1) by simp
  show ?case using deliver_cfield [OF m k Cons.prems(3)] Cons.IH [OF tl m2 Cons.prems(3)] by (simp add: h)
qed simp

section \<open>A well-formed head\<close>

lemma deliver_status_line:
  fixes d :: char and status :: nat and reason :: string
  defines "code \<equiv> dec_string status"
  assumes d: "d = CHR ''0'' \<or> d = CHR ''1''" and st: "status < 2 ^ 31" and small: "length mem < 2 ^ 63"
    and m: "mem = (''HTTP/1.'' @ [d] @ '' '' @ code @ '' '' @ reason @ crlf_text) @ post"
  shows "deliver (response_callbacks mem)
      [CElement ResponseVersion 0 8, CElement StatusCode 9 (length code), CElement ReasonPhrase (10 + length code) (length reason)]
      (HttpResponse_new 0x11 True, 0) =
    Ret ((HttpResponse_new (if d = CHR ''1'' then 0x11 else 0x10) True)\<lparr>rs_status := status, rs_reason := reason\<rparr>, 0)"
proof -
  have s: "strtol 10 (drop 9 mem) = int status"
  proof -
    have "drop 9 mem = code @ ('' '' @ reason @ crlf_text @ post)" unfolding m by simp
    moreover have "strtol 10 \<dots> = int (digits_value code)" unfolding code_def
    proof (rule strtol_decimal [OF _ dec_string_decimal])
      show "dec_string status \<noteq> []" by (simp add: dec_string_def digits_ne)
    qed (use st in \<open>simp_all add: digit_value_def Let_def\<close>)
    ultimately show ?thesis by (simp add: code_def)
  qed
  have s2: "unat (word_of_int (int status) :: u32) = status" using st by (simp add: unsigned_of_nat take_bit_nat_eq_self)
  have "mem = (''HTTP/1.'' @ [d] @ '' '' @ code @ '' '') @ reason @ crlf_text @ post" unfolding m by simp
  moreover have "length (''HTTP/1.'' @ [d] @ '' '' @ code @ '' '') = 10 + length code" by simp
  ultimately have "drop (10 + length code) mem = reason @ crlf_text @ post" by (metis append_eq_conv_conj)
  then have r: "take (length reason) (drop (10 + length code) mem) = reason" by simp
  have rl: "10 + length code + length reason \<le> length mem" unfolding m by simp
  show ?thesis using d s s2 r rl small m
    by (elim disjE) (simp_all add: on_response_version_def on_response_status_def on_response_reason_def cpp_string_def
        strncmp_eq_def c_string_def HttpResponse_new_def)
qed

lemma head_parsed:
  assumes ok: "head_ok d (dec_string status) reason hs w" "status < 2 ^ 31"
    and mem: "mem = head_lines d (dec_string status) reason hs close w @ crlf_text @ rest @ CHR 0x00 # junk"
    and len: "len = length (head_lines d (dec_string status) reason hs close w) + 2 + length rest"
    and small: "len < 2 ^ 31" "length mem < 2 ^ 63"
  shows "\<exists>tail sp. sp_execute mem len chunck (HttpResponseParser_new raw) = Ret (len - length rest, rest @ tail, sp)
    \<and> length (rest @ tail) = length mem \<and> sp_isFinished sp = 1 \<and> \<not> sp_hasError sp \<and> \<not> cp_chunked (sp_parser sp)
    \<and> sp_data sp = foldl (\<lambda>r (k, v). rs_setHeader k v r)
        ((HttpResponse_new (if d = CHR ''1'' then 0x11 else 0x10) True)\<lparr>rs_status := status, rs_reason := reason\<rparr>)
        (head_fields hs close w)"
proof -
  let ?code = "dec_string status" and ?h = "response_callbacks mem"
  let ?H = "head_lines d ?code reason hs close w"
  let ?pre = "''HTTP/1.'' @ [d] @ '' '' @ ?code @ '' '' @ reason @ crlf_text"
  let ?v = "if d = CHR ''1'' then 0x11 else 0x10"
  let ?r1 = "(HttpResponse_new ?v True)\<lparr>rs_status := status, rs_reason := reason\<rparr>"
  let ?line = "[CElement ResponseVersion 0 8, CElement StatusCode 9 (length ?code), CElement ReasonPhrase (10 + length ?code) (length reason)]"
  obtain cp' where e: "httpclient_parser_execute log_handler (httpclient_parser_init raw) mem len 0 [] =
      Ret (int (length ?H + 2), cp', head_events ?code reason hs close w @ [CElement ResponseDone (length ?H + 2) (length rest)])"
    and cs: "cp_cs cp' = 120" "\<not> cp_chunked cp'"
    using head_execute [OF ok(1) mem len small(1)] by blast
  have m: "mem = ?pre @ concat (map cfield_text (head_fields hs close w)) @ (crlf_text @ rest @ CHR 0x00 # junk)"
    unfolding mem head_lines_fields by simp
  have "d = CHR ''0'' \<or> d = CHR ''1''" using ok(1) by (simp add: head_ok_def)
  then have d1: "deliver ?h ?line (HttpResponse_new 0x11 True, 0) = Ret (?r1, 0)"
    by (rule deliver_status_line [OF _ ok(2) small(2) m])
  have ne: "\<forall>(k, v) \<in> set (head_fields hs close w). k \<noteq> []"
    using ok(1) by (auto simp: head_fields_def head_ok_def cfield_ok_def)
  have d2: "deliver ?h (cfield_events (length ?pre) (head_fields hs close w)) (?r1, 0) =
      Ret (foldl (\<lambda>r (k, v). rs_setHeader k v r) ?r1 (head_fields hs close w), 0)"
    by (rule deliver_cfields [OF ne m small(2)])
  let ?r2 = "foldl (\<lambda>r (k, v). rs_setHeader k v r) ?r1 (head_fields hs close w)"
  have dl: "deliver ?h (head_events ?code reason hs close w @ [CElement ResponseDone (length ?H + 2) (length rest)])
      (HttpResponse_new 0x11 True, 0) = Ret (?r2, 0)"
    unfolding head_events_fields [of ?code reason hs close w d]
    by (simp only: deliver_append d1 d2 obind.simps) (simp add: on_response_header_done_def)
  have x: "httpclient_parser_execute ?h (httpclient_parser_init raw) mem len 0 (HttpResponse_new 0x11 True, 0) =
      Ret (int (length ?H + 2), cp', ?r2, 0)"
    by (simp only: httpclient_parser_execute_deliver [OF e] dl obind.simps)
  have off: "to_size (int (length ?H + 2)) = len - length rest" "length ?H + 2 = len - length rest"
    using len small(1) by (simp_all add: to_size_int del: of_nat_add of_nat_Suc)
  have "drop (len - length rest) (take len mem) = rest" unfolding mem len by (simp add: crlf_text_def)
  then have mv: "move_rest (take len mem) (len - length rest) @ drop len mem =
      rest @ drop (length (take len mem) - (len - length rest)) (take len mem) @ drop len mem"
    by (simp add: move_rest_def)
  have ln: "length (move_rest (take len mem) (len - length rest) @ drop len mem) = length mem"
    using len mem by (simp add: move_rest_def crlf_text_def)
  have i: "httpclient_parser_init (httpclient_parser_init raw) = httpclient_parser_init raw"
    by (simp add: httpclient_parser_init_def)
  have "sp_execute mem len chunck (HttpResponseParser_new raw) =
      Ret (len - length rest, move_rest (take len mem) (len - length rest) @ drop len mem, \<lparr>sp_parser = cp', sp_data = ?r2, sp_error = 0\<rparr>)"
    using x off(1) i by (simp add: sp_execute_def HttpResponseParser_new_def Let_def)
  moreover have "httpclient_parser_finish cp' = 1" "\<not> httpclient_parser_has_error cp'" using cs(1)
    by (simp_all add: httpclient_parser_finish_def httpclient_parser_has_error_def httpclient_parser_is_finished_def
        httpclient_parser_error_def httpclient_parser_first_final_def)
  moreover obtain tail where t: "move_rest (take len mem) (len - length rest) @ drop len mem = rest @ tail"
    using mv by blast
  ultimately show ?thesis using cs(2) ln unfolding t
    by (intro exI [of _ tail] exI [of _ "\<lparr>sp_parser = cp', sp_data = ?r2, sp_error = 0\<rparr>"])
      (simp add: sp_isFinished_def sp_hasError_def)
qed

text \<open>The fields of a head at a lookup.\<close>

lemma foldl_set_headers:
  "rs_headers (foldl (\<lambda>r (k, v). rs_setHeader k v r) r hs) = foldl (\<lambda>m (k, v). map_set k v m) (rs_headers r) hs"
  by (induction hs arbitrary: r) (auto simp: rs_setHeader_def)

lemma foldl_set_frame:
  assumes "\<And>r k v. f (rs_setHeader k v r) = f r"
  shows "f (foldl (\<lambda>r (k, v). rs_setHeader k v r) r hs) = f r"
proof (induction hs arbitrary: r)
  case (Cons h hs)
  obtain k v where "h = (k, v)" by (cases h)
  then show ?case by (simp only: foldl_Cons prod.case Cons.IH assms)
qed simp

lemma foldl_set_other:
  "rs_status (foldl (\<lambda>r (k, v). rs_setHeader k v r) r hs) = rs_status r"
  "rs_version (foldl (\<lambda>r (k, v). rs_setHeader k v r) r hs) = rs_version r"
  "rs_close (foldl (\<lambda>r (k, v). rs_setHeader k v r) r hs) = rs_close r"
  "rs_body (foldl (\<lambda>r (k, v). rs_setHeader k v r) r hs) = rs_body r"
  "rs_reason (foldl (\<lambda>r (k, v). rs_setHeader k v r) r hs) = rs_reason r"
  by (rule foldl_set_frame, simp add: rs_setHeader_def)+

lemma om_find_foldl:
  "wf_headers m \<Longrightarrow> om_find CaseInsensitiveLess k (foldl (\<lambda>m (k, v). map_set k v m) m hs) =
    (case find (\<lambda>h. ci_key k = ci_key (fst h)) (rev hs) of Some h \<Rightarrow> Some (snd h) | None \<Rightarrow> om_find CaseInsensitiveLess k m)"
proof (induction hs arbitrary: m)
  case (Cons h hs)
  obtain a v where h: "h = (a, v)" by (cases h)
  have g: "om_find CaseInsensitiveLess k (map_set a v m) =
      (if ci_key k = ci_key a then Some v else om_find CaseInsensitiveLess k m)"
    using headers.om_find_assign [OF Cons.prems, of k a v] by (simp add: map_set_def equiv_ci)
  show ?case using Cons.IH [OF wf_map_set [OF Cons.prems]] by (auto simp: h g find_append split: option.splits)
qed simp

lemma om_find_own:
  assumes "wf_headers m"
  shows "(case find (\<lambda>h. ci_key k = ci_key (fst h)) (rev m) of Some h \<Rightarrow> Some (snd h) | None \<Rightarrow> None) =
    om_find CaseInsensitiveLess k m"
  using find_rev_unique [of m "\<lambda>h. ci_key k = ci_key (fst h)"] wf_headers_unique [OF assms]
  by (simp add: om_find_def equiv_ci split: option.splits)

section \<open>A printed response\<close>

text \<open>The names with a grammar of their own, by their keys.\<close>

lemma lower_signed: "lower_code (signed_char c) = signed_char (to_lower c)"
proof -
  define n where "n = (of_char c :: nat)"
  have n: "(of_char c :: int) = int n" by (simp only: n_def of_nat_of_char)
  have b: "n < 256" unfolding n_def by (rule nat_of_char_less_256)
  have m: "(of_char (char_of m :: char) :: int) = int m" if "m < 256" for m :: nat
  proof -
    have "(of_char (char_of m :: char) :: int) = int (of_char (char_of m :: char))" by (simp only: of_nat_of_char)
    then show ?thesis using that by simp
  qed
  show ?thesis
  proof (cases "n \<in> {65..90}")
    case True
    then have "signed_char (to_lower c) = int n + 32"
      using m [of "n + 32"] by (simp add: to_lower_def signed_char_def Let_def n_def [symmetric])
    then show ?thesis using True by (simp add: lower_code_def signed_char_def Let_def n)
  next
    case False
    then have "to_lower c = c" unfolding to_lower_def n_def by (rule if_not_P)
    then show ?thesis using False b by (auto simp: lower_code_def signed_char_def Let_def n)
  qed
qed

lemma codes_lower: "codes k = map signed_char (map to_lower k)"
  by (simp add: codes_def lower_signed)

lemma inj_signed: "inj signed_char"
proof (rule injI)
  fix c d assume e: "signed_char c = signed_char d"
  define m n where "m = (of_char c :: nat)" and "n = (of_char d :: nat)"
  have i: "(of_char c :: int) = int m" "(of_char d :: int) = int n" by (simp_all only: m_def n_def of_nat_of_char)
  have "m < 256" "n < 256" unfolding m_def n_def by (rule nat_of_char_less_256)+
  then have "m = n" using e by (auto simp: signed_char_def Let_def i split: if_splits)
  then show "c = d" by (simp only: m_def n_def of_char_eq_iff)
qed

lemma token_key:
  assumes "\<forall>c \<in> set k. token_char c"
  shows "ci_key k = map to_lower k"
proof -
  have "\<not> token_char CHR 0x00" by code_simp
  then have "\<forall>c \<in> set k. c \<noteq> CHR 0x00" using assms by metis
  then have "takeWhile (\<lambda>c. c \<noteq> CHR 0x00) k = k" by (simp add: takeWhile_eq_all_conv)
  then show ?thesis by (simp only: ci_key_def c_string_def)
qed

lemma codes_key:
  assumes "\<forall>c \<in> set k. token_char c" "codes k = map signed_char w" "ci_key w = w"
  shows "ci_key k = ci_key w"
  using assms by (simp add: codes_lower token_key map_injective [OF _ inj_signed])

text \<open>The header fields that a response parser reads as \<open>dump\<close> prints them.\<close>

definition printable_field :: "string \<times> string \<Rightarrow> bool" where
  "printable_field = (\<lambda>(k, v). k \<noteq> [] \<and> (\<forall>c \<in> set k. token_char c) \<and> \<not> is_connection k
     \<and> ci_key k \<noteq> ci_key ''content-length'' \<and> ci_key k \<noteq> ci_key ''transfer-encoding''
     \<and> (\<forall>c \<in> set v. line_char c) \<and> (v \<noteq> [] \<longrightarrow> hd v \<notin> {CHR 0x09, CHR 0x0B, CHR 0x0C, CHR '' ''}))"

lemma printable_field_ok:
  assumes "printable_field h"
  shows "cfield_ok h"
proof -
  obtain k v where h: "h = (k, v)" by (cases h)
  have t: "\<forall>c \<in> set k. token_char c" using assms by (simp add: h printable_field_def)
  have w: "ci_key ''connection'' = ''connection''" "ci_key ''content-length'' = ''content-length''"
    "ci_key ''transfer-encoding'' = ''transfer-encoding''" by code_simp+
  have "plain_name k" using codes_key [OF t _ w(1)] codes_key [OF t _ w(2)] codes_key [OF t _ w(3)] assms
    by (auto simp: plain_name_def h printable_field_def is_connection_def)
  moreover have "signed_char CHR 0x09 = 9" "signed_char CHR 0x0B = 11" "signed_char CHR 0x0C = 12" "signed_char CHR '' '' = 32"
    by code_simp+
  then have "signed_char c \<in> {9, 11, 12, 32} \<Longrightarrow> c \<in> {CHR 0x09, CHR 0x0B, CHR 0x0C, CHR '' ''}" for c
    using injD [OF inj_signed, of c "CHR 0x09"] injD [OF inj_signed, of c "CHR 0x0B"] injD [OF inj_signed, of c "CHR 0x0C"]
      injD [OF inj_signed, of c "CHR '' ''"] by auto
  ultimately show ?thesis using assms by (auto simp: h printable_field_def cfield_ok_def)
qed

definition reason_text :: "http_response \<Rightarrow> string" where
  "reason_text r = (if rs_reason r = [] then HttpStatusToString (rs_status r) else rs_reason r)"

definition printable_response :: "http_response \<Rightarrow> bool" where
  "printable_response r \<longleftrightarrow> rs_version r \<in> {0x10, 0x11} \<and> rs_status r < 2 ^ 31 \<and> (\<forall>c \<in> set (rs_reason r). line_char c)
     \<and> wf_headers (rs_headers r) \<and> (\<forall>h \<in> set (rs_headers r). printable_field h)"

lemma reason_ok: "\<forall>c \<in> set (rs_reason r). line_char c \<Longrightarrow> reason_text r \<noteq> [] \<and> (\<forall>c \<in> set (reason_text r). line_char c)"
proof -
  have t: "\<forall>(s, msg) \<in> set status_table. msg \<noteq> [] \<and> (\<forall>c \<in> set msg. line_char c)" by code_simp
  have u: "\<forall>c \<in> set ''<unknown>''. line_char c" by code_simp
  have "HttpStatusToString s \<noteq> [] \<and> (\<forall>c \<in> set (HttpStatusToString s). line_char c)" for s
    using t u by (auto simp: HttpStatusToString_def split: option.splits dest!: map_of_SomeD)
  then show "\<forall>c \<in> set (rs_reason r). line_char c \<Longrightarrow> ?thesis" by (simp add: reason_text_def)
qed

definition body_length :: "http_response \<Rightarrow> string" where
  "body_length r = (if rs_body r = [] then [] else dec_string (length (rs_body r)))"

definition version_digit :: "http_response \<Rightarrow> char" where
  "version_digit r = (if rs_version r = 0x11 then CHR ''1'' else CHR ''0'')"

text \<open>The head that \<open>dump\<close> prints, without the blank line.\<close>

definition printed_head :: "http_response \<Rightarrow> string" where
  "printed_head r = head_lines (version_digit r) (dec_string (rs_status r)) (reason_text r) (rs_headers r) (rs_close r) (body_length r)"

lemma header_lines_fields:
  "\<forall>h \<in> set m. \<not> is_connection (fst h) \<Longrightarrow> header_lines '': '' m = concat (map cfield_text m)"
  by (induction m) (auto simp: header_lines_def cfield_text_def crlf_def crlf_text_def)

lemma rs_dump_head:
  assumes "printable_response r"
  shows "rs_dump r = printed_head r @ crlf_text @ rs_body r"
proof -
  have v: "version_text (rs_version r) = ''HTTP/1.'' @ [version_digit r]"
  proof -
    have "version_text 0x11 = ''HTTP/1.1''" "version_text 0x10 = ''HTTP/1.0''" by code_simp+
    moreover have "rs_version r = 0x10 \<or> rs_version r = 0x11" using assms by (simp add: printable_response_def)
    ultimately show ?thesis by (auto simp: version_digit_def)
  qed
  have "\<forall>h \<in> set (rs_headers r). \<not> is_connection (fst h)"
    using assms by (auto simp: printable_response_def printable_field_def)
  then show ?thesis
    by (simp add: rs_dump_def v header_lines_fields printed_head_def head_lines_def reason_text_def body_length_def
        length_text_def connection_line_def close_text_def body_text_def crlf_def crlf_text_def dec_string_ne)
qed

text \<open>The response object that the parser builds from the printed head.\<close>

definition response_read :: "http_response \<Rightarrow> http_response" where
  "response_read r = foldl (\<lambda>r (k, v). rs_setHeader k v r)
     ((HttpResponse_new (rs_version r) True)\<lparr>rs_status := rs_status r, rs_reason := reason_text r\<rparr>)
     (head_fields (rs_headers r) (rs_close r) (body_length r))"

lemma response_read_fields:
  "rs_status (response_read r) = rs_status r" "rs_version (response_read r) = rs_version r"
  "rs_reason (response_read r) = reason_text r" "rs_close (response_read r)" "rs_body (response_read r) = []"
  by (simp_all add: response_read_def foldl_set_other HttpResponse_new_def)

lemma om_find_Nil: "om_find lt k [] = None"
  by (simp add: om_find_def)

lemma response_read_find:
  "om_find CaseInsensitiveLess k (rs_headers (response_read r)) =
    (case find (\<lambda>h. ci_key k = ci_key (fst h)) (rev (head_fields (rs_headers r) (rs_close r) (body_length r))) of
       Some h \<Rightarrow> Some (snd h) | None \<Rightarrow> None)"
  by (simp add: response_read_def foldl_set_headers om_find_foldl HttpResponse_new_def om_find_Nil split: option.splits)

lemma response_read_header:
  assumes "wf_headers (rs_headers r)" "ci_key k \<noteq> ci_key ''connection''" "ci_key k \<noteq> ci_key ''content-length''"
  shows "rs_getHeader (response_read r) k d = rs_getHeader r k d"
proof -
  have "find (\<lambda>h. ci_key k = ci_key (fst h)) (rev (head_fields (rs_headers r) (rs_close r) (body_length r))) =
      find (\<lambda>h. ci_key k = ci_key (fst h)) (rev (rs_headers r))"
    using assms(2,3) by (simp add: head_fields_def)
  then show ?thesis using om_find_own [OF assms(1), of k]
    by (simp add: rs_getHeader_def map_get_def response_read_find)
qed

lemma response_read_special:
  assumes "printable_response r"
  shows "om_find CaseInsensitiveLess ''content-length'' (rs_headers (response_read r)) =
      (if rs_body r = [] then None else Some (dec_string (length (rs_body r))))"
    and "om_find CaseInsensitiveLess ''connection'' (rs_headers (response_read r)) = Some (close_text (rs_close r))"
proof -
  have c: "ci_key ''content-length'' \<noteq> ci_key ''connection''" by code_simp
  have "find (\<lambda>h. ci_key ''content-length'' = ci_key (fst h)) (rev (rs_headers r)) = None"
    using assms by (fastforce simp: find_None_iff printable_response_def printable_field_def)
  then show "om_find CaseInsensitiveLess ''content-length'' (rs_headers (response_read r)) =
      (if rs_body r = [] then None else Some (dec_string (length (rs_body r))))"
    "om_find CaseInsensitiveLess ''connection'' (rs_headers (response_read r)) = Some (close_text (rs_close r))"
    using c by (simp_all add: response_read_find head_fields_def body_length_def find_append)
qed

lemma dumped_response_parsed:
  assumes "printable_response r" "mem = printed_head r @ crlf_text @ rest @ CHR 0x00 # junk"
    "len = length (printed_head r) + 2 + length rest" "len < 2 ^ 31" "length mem < 2 ^ 63"
  shows "\<exists>tail sp. sp_execute mem len chunck (HttpResponseParser_new raw) = Ret (len - length rest, rest @ tail, sp)
    \<and> length (rest @ tail) = length mem \<and> sp_isFinished sp = 1 \<and> \<not> sp_hasError sp \<and> \<not> cp_chunked (sp_parser sp)
    \<and> sp_data sp = response_read r"
proof -
  have c: "\<forall>c \<in> set (body_length r). decimal_char c" using dec_string_decimal by (simp add: body_length_def)
  have h: "head_ok (version_digit r) (dec_string (rs_status r)) (reason_text r) (rs_headers r) (body_length r)"
    using assms(1) reason_ok [of r] dec_string_decimal printable_field_ok c
    by (auto simp: head_ok_def printable_response_def version_digit_def)
  have v: "(if version_digit r = CHR ''1'' then 0x11 else 0x10) = rs_version r"
    using assms(1) by (auto simp: printable_response_def version_digit_def)
  have s: "rs_status r < 2 ^ 31" using assms(1) by (simp add: printable_response_def)
  show ?thesis using head_parsed [OF h s assms(2,3) [unfolded printed_head_def] assms(4,5), of chunck raw]
    unfolding v response_read_def .
qed

text \<open>C12. What \<open>HttpResponse::dump\<close> prints, \<open>HttpResponseParser\<close> reads back: for a response with a one-line reason
  and headers of token names and one-line values, the parser finishes on the printed text without error, leaves
  exactly the body behind, and the response it built has the same status, version and reason phrase (the
  standard one when none was set) and answers every header lookup, in any capitalisation, as the original,
  except for the connection and content-length lines that printing adds.\<close>

theorem printed_response_roundtrip:
  assumes "printable_response r" "length (rs_dump r) < 2 ^ 31" "length junk < 2 ^ 62"
  shows "\<exists>tail sp. sp_execute (rs_dump r @ CHR 0x00 # junk) (length (rs_dump r)) chunck (HttpResponseParser_new raw) =
      Ret (length (rs_dump r) - length (rs_body r), rs_body r @ tail, sp)
    \<and> sp_isFinished sp = 1 \<and> \<not> sp_hasError sp
    \<and> rs_status (sp_data sp) = rs_status r \<and> rs_version (sp_data sp) = rs_version r
    \<and> rs_reason (sp_data sp) = (if rs_reason r = [] then HttpStatusToString (rs_status r) else rs_reason r)
    \<and> (\<forall>k d. ci_key k \<noteq> ci_key ''connection'' \<longrightarrow> ci_key k \<noteq> ci_key ''content-length'' \<longrightarrow>
         rs_getHeader (sp_data sp) k d = rs_getHeader r k d)"
proof -
  have wf: "wf_headers (rs_headers r)" using assms(1) by (simp add: printable_response_def)
  note d = rs_dump_head [OF assms(1)]
  have l: "length (rs_dump r) = length (printed_head r) + 2 + length (rs_body r)" by (simp add: d crlf_text_def)
  have "length (rs_dump r @ CHR 0x00 # junk) < 2 ^ 63" using assms(2,3) by simp
  moreover have "rs_dump r @ CHR 0x00 # junk = printed_head r @ crlf_text @ rs_body r @ CHR 0x00 # junk" by (simp add: d)
  ultimately obtain tail sp where "sp_execute (rs_dump r @ CHR 0x00 # junk) (length (rs_dump r)) chunck (HttpResponseParser_new raw) =
      Ret (length (rs_dump r) - length (rs_body r), rs_body r @ tail, sp)" "sp_isFinished sp = 1" "\<not> sp_hasError sp"
      "sp_data sp = response_read r"
    using dumped_response_parsed [OF assms(1) _ l assms(2)] by metis
  then show ?thesis using response_read_header [OF wf] by (auto simp: response_read_fields reason_text_def)
qed

definition sample_response :: http_response where
  "sample_response = (HttpResponse_new 0x11 False)\<lparr>rs_status := 404, rs_body := ''hi'', rs_headers := [(''Server'', ''x'')]\<rparr>"

lemma sample_response_printable: "printable_response sample_response"
proof -
  have "printable_field (''Server'', ''x'')" by code_simp
  then show ?thesis by (simp add: printable_response_def sample_response_def HttpResponse_new_def)
qed

lemma sample_response_dump:
  "rs_dump sample_response = ''HTTP/1.1 404 Not Found'' @ crlf_text @ ''Server: x'' @ crlf_text @ ''connection: keep-alive'' @ crlf_text
     @ ''content-length: 2'' @ crlf_text @ crlf_text @ ''hi''"
  by code_simp

theorem printed_response_roundtrip_witness:
  "\<exists>tail sp. sp_execute (rs_dump sample_response @ [CHR 0x00]) (length (rs_dump sample_response)) True
      (HttpResponseParser_new blank_client) = Ret (length (rs_dump sample_response) - 2, ''hi'' @ tail, sp)
    \<and> rs_status (sp_data sp) = 404 \<and> rs_reason (sp_data sp) = ''Not Found''
    \<and> rs_getHeader (sp_data sp) ''SERVER'' [] = rs_getHeader sample_response ''SERVER'' []"
proof -
  have k: "ci_key ''SERVER'' \<noteq> ci_key ''connection''" "ci_key ''SERVER'' \<noteq> ci_key ''content-length''"
    "HttpStatusToString 404 = ''Not Found''" by code_simp+
  have f: "rs_body sample_response = ''hi''" "rs_status sample_response = 404" "rs_reason sample_response = []"
    by (simp_all add: sample_response_def HttpResponse_new_def)
  have "length (rs_dump sample_response) < 2 ^ 31" by (simp add: sample_response_dump crlf_text_def)
  from printed_response_roundtrip [OF sample_response_printable this, of "[]" True blank_client] show ?thesis
    using k f by auto
qed

section \<open>A line feed between the name and the length\<close>

definition lf_text :: string where
  "lf_text = [CHR 0x0A]"

definition split_length_head :: "char \<Rightarrow> string \<Rightarrow> string \<Rightarrow> (string \<times> string) list \<Rightarrow> string \<Rightarrow> string" where
  "split_length_head d code reason hs w =
     (''HTTP/1.'' @ [d] @ '' '' @ code @ '' '' @ reason @ crlf_text) @ concat (map cfield_text hs)
       @ (''content-length'' @ '':'' @ lf_text @ w @ lf_text)"

lemma ctrans_split_length:
  "client_trans 111 58 = Some ([CWriteField], 112)" "client_trans 112 10 = Some ([CMark, CWriteValue], 113)"
  "decimal_char c \<Longrightarrow> client_trans 113 (signed_char c) = Some ([CMark, CStartField], 117)"
  "decimal_char c \<Longrightarrow> client_trans 117 (signed_char c) = Some ([], 117)"
  "client_trans 117 10 = Some ([CContentLen, CWriteValue], 20)"
  by (auto simp: decimal_char_def client_trans_def client_states_110_114_def client_states_115_119_def)

lemma feed_split_length:
  assumes "w \<noteq> []" "\<forall>c \<in> set w. decimal_char c"
  shows "\<exists>cp'. feed (client_machine mem) len (''content-length'' @ '':'' @ lf_text @ w @ lf_text) (p, 20, cp, es) =
    Some (p + 17 + length w, 20, cp', es @ [CField p 14 (p + 15) 0, CField (p + 16) 14 (p + 16) (length w)])"
proof -
  let ?f = "feed (client_machine mem) len"
  have k: "\<forall>c \<in> set ''content-length''. token_char c" "name_state ''content-length'' = 111" by code_simp+
  have n: "?f ''content-length'' (p, 20, cp, es) = Some (p + 14, 111, cp\<lparr>cp_field_start := p\<rparr>, es)"
    using feed_cname [OF _ k(1)] k(2) by simp
  let ?cp = "cp\<lparr>cp_field_start := p, cp_field_len := 14, cp_mark := p + 15\<rparr>"
  have c: "?f ('':'' @ lf_text) (p + 14, 111, cp\<lparr>cp_field_start := p\<rparr>, es) =
      Some (p + 16, 113, ?cp, es @ [CField p 14 (p + 15) 0])"
    by (simp add: ctrans_split_length lf_text_def log_handler_def)
  obtain a u where w: "w = a # u" using assms(1) by (cases w) auto
  let ?cp2 = "?cp\<lparr>cp_field_start := p + 16, cp_mark := p + 16\<rparr>"
  let ?es = "es @ [CField p 14 (p + 15) 0]"
  have d1: "?f [a] (p + 16, 113, ?cp, ?es) = Some (p + 17, 117, ?cp2, ?es)"
    using assms(2) w ctrans_split_length(3) [of a] by simp
  have d2: "?f u (p + 17, 117, ?cp2, ?es) = Some (p + 17 + length u, 117, ?cp2, ?es)"
    using assms(2) w ctrans_split_length by (intro feed_self) auto
  have "\<exists>cp'. ?f lf_text (p + 17 + length u, 117, ?cp2, ?es) =
      Some (p + 17 + length w, 20, cp', ?es @ [CField (p + 16) 14 (p + 16) (length w)])"
    using w by (simp add: ctrans_split_length lf_text_def log_handler_def)
  then show ?thesis using feed_appendI [OF n feed_appendI [OF c feed_appendI [OF d1 feed_appendI [OF d2]]]] w by fastforce
qed

lemma feed_split_length_head:
  assumes ok: "head_ok d code reason hs w" and w: "w \<noteq> []"
  defines "p4 \<equiv> 12 + length code + length reason + length (concat (map cfield_text hs))"
  shows "\<exists>cp'. feed (client_machine mem) len (split_length_head d code reason hs w) (0, 1, cp, []) =
    Some (length (split_length_head d code reason hs w), 20, cp',
      [CElement ResponseVersion 0 8, CElement StatusCode 9 (length code), CElement ReasonPhrase (10 + length code) (length reason)]
        @ cfield_events (12 + length code + length reason) hs
        @ [CField p4 14 (p4 + 15) 0, CField (p4 + 16) 14 (p4 + 16) (length w)])"
proof -
  have o: "d = CHR ''0'' \<or> d = CHR ''1''" "code \<noteq> []" "\<forall>c \<in> set code. decimal_char c" "reason \<noteq> []"
    "\<forall>c \<in> set reason. line_char c" "\<forall>h \<in> set hs. cfield_ok h" "\<forall>c \<in> set w. decimal_char c"
    using ok by (auto simp: head_ok_def)
  let ?f = "feed (client_machine mem) len" and ?p2 = "9 + length code + 1" and ?p3 = "12 + length code + length reason"
  let ?e1 = "[CElement ResponseVersion 0 8]"
  let ?e2 = "?e1 @ [CElement StatusCode 9 (length code)]"
  let ?e3 = "?e2 @ [CElement ReasonPhrase ?p2 (length reason)]"
  note v = feed_status_version [OF o(1), of mem len cp "[]", unfolded append_Nil]
  obtain cp1 where c: "?f (code @ '' '') (9, 16, cp\<lparr>cp_mark := 0\<rparr>, ?e1) = Some (?p2, 18, cp1, ?e2)"
    using feed_code [OF o(2,3)] by blast
  have r: "?f (reason @ crlf_text) (?p2, 18, cp1, ?e2) = Some (?p3, 20, cp1\<lparr>cp_mark := ?p2\<rparr>, ?e3)"
    using feed_reason [OF o(4,5), of mem len ?p2 cp1 ?e2] by (simp add: numeral_eq_Suc)
  obtain cp2 where f: "?f (concat (map cfield_text hs)) (?p3, 20, cp1\<lparr>cp_mark := ?p2\<rparr>, ?e3) =
      Some (p4, 20, cp2, ?e3 @ cfield_events ?p3 hs)"
    using feed_cfields [OF o(6), of mem len ?p3] unfolding p4_def by blast
  obtain cp3 where l: "?f (''content-length'' @ '':'' @ lf_text @ w @ lf_text) (p4, 20, cp2, ?e3 @ cfield_events ?p3 hs) =
      Some (p4 + 17 + length w, 20, cp3,
        (?e3 @ cfield_events ?p3 hs) @ [CField p4 14 (p4 + 15) 0, CField (p4 + 16) 14 (p4 + 16) (length w)])"
    using feed_split_length [OF w o(7)] by blast
  have len: "length (split_length_head d code reason hs w) = p4 + 17 + length w"
    by (simp add: split_length_head_def p4_def crlf_text_def lf_text_def)
  have h: "split_length_head d code reason hs w = (''HTTP/1.'' @ [d] @ '' '') @ (code @ '' '') @ (reason @ crlf_text)
      @ concat (map cfield_text hs) @ (''content-length'' @ '':'' @ lf_text @ w @ lf_text)"
    by (simp add: split_length_head_def)
  show ?thesis unfolding len
    using feed_appendI [OF v feed_appendI [OF c feed_appendI [OF r feed_appendI [OF f l]]]] unfolding h by simp
qed

lemma split_length_execute:
  assumes ok: "head_ok d code reason hs w" "w \<noteq> []"
    and mem: "mem = split_length_head d code reason hs w @ CHR 0x00 # junk"
    and len: "len = length (split_length_head d code reason hs w)" and small: "len < 2 ^ 31"
  defines "p4 \<equiv> 12 + length code + length reason + length (concat (map cfield_text hs))"
  shows "\<exists>n cp'. httpclient_parser_execute log_handler (httpclient_parser_init raw) mem len 0 [] = Ret (n, cp',
      [CElement ResponseVersion 0 8, CElement StatusCode 9 (length code), CElement ReasonPhrase (10 + length code) (length reason)]
        @ cfield_events (12 + length code + length reason) hs
        @ [CField p4 14 (p4 + 15) 0, CField (p4 + 16) 14 (p4 + 16) (length w)]) \<and> 0 \<le> n \<and> n \<le> int len"
proof -
  let ?H = "split_length_head d code reason hs w" and ?cp = "httpclient_parser_init raw"
  have same: "?cp\<lparr>cp_nread := 0, cp_mark := 0, cp_field_len := 0, cp_field_start := 0\<rparr> = ?cp" "cp_cs ?cp = 1"
    by (simp_all add: httpclient_parser_init_def httpclient_parser_start_def)
  have m: "len < length mem" "mem ! len = CHR 0x00" "0 < len" by (simp_all add: mem len split_length_head_def nth_append)
  have buf: "take len mem = ?H" by (simp add: mem len)
  obtain cp1 where f: "feed (client_machine mem) (length ?H) ?H (length ([] :: string), 1, ?cp, []) = Some (length ?H, 20, cp1,
      [CElement ResponseVersion 0 8, CElement StatusCode 9 (length code), CElement ReasonPhrase (10 + length code) (length reason)]
        @ cfield_events (12 + length code + length reason) hs
        @ [CField p4 14 (p4 + 15) 0, CField (p4 + 16) 14 (p4 + 16) (length w)])" (is "_ = Some (_, _, _, ?es)")
    using feed_split_length_head [OF ok] unfolding p4_def by (metis list.size(3))
  have "run_machine (client_machine mem) log_handler ?H 0 1 ?cp [] = Ret (20, length ?H, cp1, ?es)"
    using loop_feed [OF f, of "[]"] by (simp add: run_machine.simps [of _ _ ?H "length ?H"])
  moreover have "client_event_run RStart [] = Some RStart" by simp
  from response_observer.execute_ok [OF log_observer [OF m(1)] small m(2) this, of raw]
  obtain n cp' es' where e: "httpclient_parser_execute log_handler ?cp mem len 0 [] = Ret (n, cp', es')" "0 \<le> n" "n \<le> int len"
    using m(3) by auto
  ultimately have "es' = ?es"
    using same by (auto simp: httpclient_parser_execute_def Let_def buf split: if_splits)
  then show ?thesis using e by blast
qed

text \<open>C22. A response head whose \<open>content-length:\<close> is followed by a bare line feed, the digits \<open>w\<close> of the length and
  another line feed, whatever its status, reason and earlier fields, and nothing after it. The parser reports the
  length as empty and restarts the field name at the digits without measuring it, so the next field is reported with
  a name of the 14 characters of \<open>content-length\<close> that begins at the digits. When fewer than 14 characters of the
  caller's memory are left there, the callback reads past the memory; otherwise the response gets a header named by
  the digits and whatever follows them in memory.\<close>

theorem split_length_line_overruns:
  assumes "head_ok d (dec_string status) reason hs w" "w \<noteq> []" "status < 2 ^ 31"
    and "mem = split_length_head d (dec_string status) reason hs w @ CHR 0x00 # junk" "length mem < 2 ^ 31"
    and "len = length (split_length_head d (dec_string status) reason hs w)"
  shows "if length w + 2 + length junk < 14
    then sp_execute mem len chunck (HttpResponseParser_new raw) = Fault OutOfBounds
    else \<exists>off mem' sp. sp_execute mem len chunck (HttpResponseParser_new raw) = Ret (off, mem', sp) \<and> off \<le> len
      \<and> sp_data sp = rs_setHeader (take 14 (w @ CHR 0x0A # CHR 0x00 # junk)) w
          (rs_setHeader ''content-length'' [] (foldl (\<lambda>r (k, v). rs_setHeader k v r)
            ((HttpResponse_new (if d = CHR ''1'' then 0x11 else 0x10) True)\<lparr>rs_status := status, rs_reason := reason\<rparr>) hs))"
proof -
  let ?code = "dec_string status" and ?h = "response_callbacks mem"
  let ?pre = "''HTTP/1.'' @ [d] @ '' '' @ ?code @ '' '' @ reason @ crlf_text"
  let ?fs = "concat (map cfield_text hs)" and ?tail = "w @ CHR 0x0A # CHR 0x00 # junk"
  let ?p4 = "12 + length ?code + length reason + length ?fs"
  let ?r1 = "(HttpResponse_new (if d = CHR ''1'' then 0x11 else 0x10) True)\<lparr>rs_status := status, rs_reason := reason\<rparr>"
  let ?r2 = "foldl (\<lambda>r (k, v). rs_setHeader k v r) ?r1 hs"
  have o: "d = CHR ''0'' \<or> d = CHR ''1''" "\<forall>(k, v) \<in> set hs. k \<noteq> []"
    using assms(1) by (auto simp: head_ok_def cfield_ok_def)
  have small: "length mem < 2 ^ 63" "len < 2 ^ 31" using assms(4-6) by simp_all
  have m: "mem = ?pre @ ?fs @ ''content-length'' @ '':'' @ lf_text @ ?tail"
    unfolding assms(4) split_length_head_def by (simp add: lf_text_def)
  obtain n cp' where e: "httpclient_parser_execute log_handler (httpclient_parser_init raw) mem len 0 [] = Ret (n, cp',
      [CElement ResponseVersion 0 8, CElement StatusCode 9 (length ?code), CElement ReasonPhrase (10 + length ?code) (length reason)]
        @ cfield_events (12 + length ?code + length reason) hs
        @ [CField ?p4 14 (?p4 + 15) 0, CField (?p4 + 16) 14 (?p4 + 16) (length w)])" "0 \<le> n" "n \<le> int len"
    using split_length_execute [OF assms(1,2,4,6) small(2)] by blast
  have lp: "length ?pre = 12 + length ?code + length reason" by (simp add: crlf_text_def)
  note d1 = deliver_status_line [OF o(1) assms(3) small(1) m]
  note d2 = deliver_cfields [OF o(2) m small(1), unfolded lp, of ?r1 0]
  have "mem = (?pre @ ?fs) @ ''content-length'' @ '':'' @ lf_text @ ?tail" unfolding m by (simp only: append_assoc)
  moreover have "length (?pre @ ?fs) = ?p4" using lp by simp
  ultimately have at: "drop ?p4 mem = ''content-length'' @ '':'' @ lf_text @ ?tail" by (metis append_eq_conv_conj)
  have "drop (?p4 + 16) mem = drop 16 (drop ?p4 mem)" by (simp add: add.commute)
  also have "\<dots> = ?tail" unfolding at by (simp add: lf_text_def)
  finally have at2: "drop (?p4 + 16) mem = ?tail" .
  have lm: "length mem = ?p4 + 16 + length ?tail" unfolding m using lp by (simp add: lf_text_def)
  have d3: "?h (CField ?p4 14 (?p4 + 15) 0) (?r2, 0) = Ret (rs_setHeader ''content-length'' [] ?r2, 0)"
    using at lm by (simp add: on_response_http_field_def cpp_string_def)
  have d4: "?h (CField (?p4 + 16) 14 (?p4 + 16) (length w)) (r, 0) =
      (if length w + 2 + length junk < 14 then Fault OutOfBounds else Ret (rs_setHeader (take 14 ?tail) w r, 0))" for r
    using at2 lm small(1) by (simp add: on_response_http_field_def cpp_string_def)
  have i: "httpclient_parser_init (httpclient_parser_init raw) = httpclient_parser_init raw"
    by (simp add: httpclient_parser_init_def)
  have x: "httpclient_parser_execute ?h (httpclient_parser_init raw) mem len 0 (HttpResponse_new 0x11 True, 0) =
      (if length w + 2 + length junk < 14 then Fault OutOfBounds
       else Ret (n, cp', rs_setHeader (take 14 ?tail) w (rs_setHeader ''content-length'' [] ?r2), 0))"
    by (simp only: httpclient_parser_execute_deliver [OF e(1)] deliver_append d1 d2 obind.simps)
      (simp only: deliver.simps d3 d4 obind.simps if_distrib [of "\<lambda>m. obind m _"] cong: if_cong)
  have "to_size n = nat n" "nat n \<le> len" using e(2,3) small(2) by (auto intro: to_size_nonneg)
  then show ?thesis using x i by (simp add: sp_execute_def HttpResponseParser_new_def Let_def)
qed

theorem split_length_line_overruns_witness:
  "sp_execute (''HTTP/1.1 200 OK'' @ crlf_text @ ''content-length:'' @ [CHR 0x0A] @ ''5'' @ [CHR 0x0A, CHR 0x00]) 35 True
    (HttpResponseParser_new blank_client) = Fault OutOfBounds"
proof -
  let ?mem = "''HTTP/1.1 200 OK'' @ crlf_text @ ''content-length:'' @ [CHR 0x0A] @ ''5'' @ [CHR 0x0A, CHR 0x00]"
  have k: "head_ok CHR ''1'' (dec_string 200) ''OK'' [] ''5''" "dec_string 200 = ''200''" by code_simp+
  then have "?mem = split_length_head CHR ''1'' (dec_string 200) ''OK'' [] ''5'' @ CHR 0x00 # []"
    "35 = length (split_length_head CHR ''1'' (dec_string 200) ''OK'' [] ''5'')" "length ?mem < 2 ^ 31"
    by (simp_all add: split_length_head_def lf_text_def crlf_text_def)
  from split_length_line_overruns [OF k(1) _ _ this(1,3,2)] show ?thesis by simp
qed

end
