(* ===== verification/HttpConnection.thy ===== *)
theory HttpConnection
  imports HttpResponseParser
begin

text \<open>
  \<open>radixun/http/http_connection.{h,cpp}\<close>, the connection: sending a request and receiving a response, whose body
  is given by its length or comes in chunks.

  \<^item> the stream's operations and the environment are a \<open>stream_env\<close>, as in \<open>HttpSession\<close>; what the freshly
    allocated buffer and parser hold is the argument \<open>fresh\<close>;
  \<^item> the buffer has one character more than is read into it, for the zero that the parser asserts;
  \<^item> the loops have fuel, one unit per \<open>read\<close> or \<open>write\<close>; \<open>None\<close> says that it ran out.
\<close>

type_synonym 's fresh = "'s \<Rightarrow> string \<times> httpclient_parser"

section \<open>Receiving\<close>

text \<open>One read appended at \<open>offset\<close>, the zero after it, and one execution of the parser: the parser, the memory
  and the number of characters left; \<open>None\<close> when the connection was given up.\<close>

definition read_and_parse :: "'s stream_env \<Rightarrow> bool \<Rightarrow> string \<Rightarrow> int \<Rightarrow> response_parser \<Rightarrow> 's
    \<Rightarrow> ((response_parser \<times> string \<times> int) option outcome \<times> 's) option" where
  "read_and_parse en chunck data offset parser s =
     then_do (Some (read_at en data offset (to_size (int (en_buff_size en) - offset)) s)) (\<lambda>(rt, data1) s1.
       if rt \<le> 0 then give_up en s1
       else let len = rt + offset
            in if \<not> (0 \<le> len \<and> nat len < length data1) then Some (Fault OutOfBounds, s1)
               else let data2 = data1[nat len := CHR 0x00]
                    in then_do (Some (sp_execute data2 (nat len) chunck parser, s1)) (\<lambda>(nparse, data3, parser1) s1.
                         if sp_hasError parser1 then give_up en s1
                         else let left = to_int (size_sub (nat len) nparse)
                              in if left = to_int (en_buff_size en) then give_up en s1
                                 else Some (Ret (Some (parser1, data3, left)), s1)))"

fun recv_head :: "nat \<Rightarrow> 's stream_env \<Rightarrow> bool \<Rightarrow> string \<Rightarrow> int \<Rightarrow> response_parser \<Rightarrow> 's
    \<Rightarrow> ((response_parser \<times> string \<times> int) option outcome \<times> 's) option" where
  "recv_head 0 en chunck data offset parser s = None"
| "recv_head (Suc fuel) en chunck data offset parser s =
     then_do (read_and_parse en chunck data offset parser s) (\<lambda>res s1.
       case res of
         None \<Rightarrow> Some (Ret None, s1)
       | Some (parser1, data1, left) \<Rightarrow>
           if sp_isFinished parser1 \<noteq> 0 then Some (Ret (Some (parser1, data1, left)), s1)
           else recv_head fuel en chunck data1 left parser1 s1)"

text \<open>The rest of a chunk, read into the front of the buffer.\<close>

fun recv_left :: "nat \<Rightarrow> 's stream_env \<Rightarrow> string \<Rightarrow> string \<Rightarrow> int \<Rightarrow> 's \<Rightarrow> ((string \<times> string) option outcome \<times> 's) option" where
  "recv_left 0 en data body left s = None"
| "recv_left (Suc fuel) en data body left s =
     (if \<not> left > 0 then Some (Ret (Some (body, data)), s)
      else then_do (Some (read_at en data 0 (nat (min left (to_int (en_buff_size en)))) s)) (\<lambda>(rt, data1) s1.
        if rt \<le> 0 then give_up en s1
        else then_do (Some (cpp_string data1 0 (nat rt), s1)) (\<lambda>piece s1.
          recv_left fuel en data1 (body @ piece) (left - rt) s1)))"

text \<open>\<open>body.append(data, n)\<close> with a negative \<open>int\<close> is an append of more than a string can hold.\<close>

fun recv_chunks :: "nat \<Rightarrow> 's stream_env \<Rightarrow> string \<Rightarrow> string \<Rightarrow> int \<Rightarrow> response_parser \<Rightarrow> 's
    \<Rightarrow> ((response_parser \<times> string) option outcome \<times> 's) option" where
  "recv_chunks 0 en data body len parser s = None"
| "recv_chunks (Suc fuel) en data body len parser s =
     then_do (recv_head fuel en True data len parser s) (\<lambda>res s1.
       case res of
         None \<Rightarrow> Some (Ret None, s1)
       | Some (parser1, data1, len1) \<Rightarrow>
           let len2 = len1 - 2; n = cp_content_len (sp_parser parser1);
               go_on = (\<lambda>data2 body2 len3 s2.
                 if \<not> cp_chunks_done (sp_parser parser1) then recv_chunks fuel en data2 body2 len3 parser1 s2
                 else Some (Ret (Some (parser1, body2)), s2))
           in if n \<le> len2
              then then_do (Some (cpp_string data1 0 (to_size n), s1)) (\<lambda>piece s1.
                go_on (move_rest (take (nat len2) data1) (to_size n) @ drop (nat len2) data1) (body @ piece) (len2 - n) s1)
              else then_do (Some (cpp_string data1 0 (to_size len2), s1)) (\<lambda>piece s1.
                then_do (recv_left fuel en data1 (body @ piece) (n - len2) s1) (\<lambda>res s2.
                  case res of
                    None \<Rightarrow> Some (Ret None, s2)
                  | Some (body2, data2) \<Rightarrow> go_on data2 body2 0 s2)))"

definition sp_setBody :: "string \<Rightarrow> response_parser \<Rightarrow> http_response" where
  "sp_setBody body parser = (sp_data parser)\<lparr>rs_body := body\<rparr>"

definition recvResponse :: "nat \<Rightarrow> 's stream_env \<Rightarrow> 's fresh \<Rightarrow> 's \<Rightarrow> (http_response option outcome \<times> 's) option" where
  "recvResponse fuel en fresh s =
     (let (memory, raw) = fresh s
      in then_do (recv_head fuel en False (take (Suc (en_buff_size en)) memory) 0 (HttpResponseParser_new raw) s) (\<lambda>res s1.
        case res of
          None \<Rightarrow> Some (Ret None, s1)
        | Some (parser, data, offset) \<Rightarrow>
            if cp_chunked (sp_parser parser)
            then then_do (recv_chunks fuel en data [] offset parser s1) (\<lambda>res s2.
              case res of None \<Rightarrow> Some (Ret None, s2) | Some (parser1, body) \<Rightarrow> Some (Ret (Some (sp_setBody body parser1)), s2))
            else let n = sint (sp_getContentLength (en_cast en) parser)
                 in if n > 0
                    then then_do (recv_body fuel en data offset n s1) (\<lambda>body s2.
                      case body of None \<Rightarrow> Some (Ret None, s2) | Some b \<Rightarrow> Some (Ret (Some (sp_setBody b parser)), s2))
                    else Some (Ret (Some (sp_data parser)), s1)))"

section \<open>Sending\<close>

definition sendRequest :: "nat \<Rightarrow> 's stream_env \<Rightarrow> http_request \<Rightarrow> 's \<Rightarrow> (int outcome \<times> 's) option" where
  "sendRequest fuel en req s =
     (let data = rq_dump req in writeFixSize fuel (en_write en) (length data) (map byte_of_char data) s)"

section \<open>A printed response is received\<close>

text \<open>The response object the client builds from the printed text.\<close>

definition received_response :: "http_response \<Rightarrow> http_response" where
  "received_response r = (response_read r)\<lparr>rs_body := rs_body r\<rparr>"

lemma received_response_fields:
  "rs_status (received_response r) = rs_status r" "rs_version (received_response r) = rs_version r"
  "rs_reason (received_response r) = reason_text r" "rs_body (received_response r) = rs_body r"
  "rs_close (received_response r)"
  by (simp_all add: received_response_def response_read_fields)

lemma received_response_header:
  assumes "wf_headers (rs_headers r)" "ci_key k \<noteq> ci_key ''connection''" "ci_key k \<noteq> ci_key ''content-length''"
  shows "rs_getHeader (received_response r) k d = rs_getHeader r k d"
  using response_read_header [OF assms, of d] by (simp add: received_response_def rs_getHeader_def)

lemma read_and_parse_printed:
  assumes p: "printable_response r" "sent = printed_head r @ crlf_text @ b1"
    and rd: "en_read en s (en_buff_size en) = ((int (length sent), map byte_of_char sent), s1)"
    and size: "length sent \<le> en_buff_size en" "en_buff_size en < 2 ^ 31" "length data = Suc (en_buff_size en)"
  shows "\<exists>sp tail. read_and_parse en False data 0 (HttpResponseParser_new raw) s =
      Some (Ret (Some (sp, b1 @ tail, int (length b1))), s1)
    \<and> sp_isFinished sp = 1 \<and> \<not> cp_chunked (sp_parser sp) \<and> sp_data sp = response_read r"
proof -
  let ?len = "length sent"
  have ne: "sent \<noteq> []" using p(2) by (simp add: crlf_text_def)
  have small: "?len < 2 ^ 31" using size by simp
  have cap: "to_size (int (en_buff_size en) - 0) = en_buff_size en" using size(2) by (simp add: to_size_int)
  define data1 where "data1 = blit 0 sent data"
  have d1: "data1 = sent @ drop ?len data" "length data1 = Suc (en_buff_size en)"
    using size by (simp_all add: data1_def blit_def)
  have ra: "read_at en data 0 (en_buff_size en) s = (Ret (int ?len, data1), s1)"
    using rd size ne by (simp add: read_at_def data1_def)
  obtain junk where junk: "data1[?len := CHR 0x00] = printed_head r @ crlf_text @ b1 @ CHR 0x00 # junk"
  proof -
    have "drop ?len data \<noteq> []" using size by simp
    then obtain c junk where "drop ?len data = c # junk" by (cases "drop ?len data") auto
    then have "data1[?len := CHR 0x00] = sent @ CHR 0x00 # junk" by (simp add: d1(1))
    then show thesis using p(2) by (intro that) simp
  qed
  have len: "?len = length (printed_head r) + 2 + length b1" by (simp add: p(2) crlf_text_def)
  have big: "length (data1[?len := CHR 0x00]) < 2 ^ 63" using d1(2) size(2) by simp
  obtain tail sp where sp: "sp_execute (data1[?len := CHR 0x00]) ?len False (HttpResponseParser_new raw) =
      Ret (?len - length b1, b1 @ tail, sp)" "sp_isFinished sp = 1" "\<not> sp_hasError sp" "\<not> cp_chunked (sp_parser sp)"
      "sp_data sp = response_read r"
    using dumped_response_parsed [OF p(1) junk len small big] by blast
  have l: "?len - (?len - length b1) = length b1" "length b1 < ?len" using len by simp_all
  have o1: "to_int (size_sub ?len (?len - length b1)) = int (length b1)" using l small by (simp add: to_int_small)
  have o2: "to_int (en_buff_size en) = int (en_buff_size en)" using size(2) by (simp add: to_int_small)
  have "?len < length data1" using size d1(2) by simp
  then have "read_and_parse en False data 0 (HttpResponseParser_new raw) s = Some (Ret (Some (sp, b1 @ tail, int (length b1))), s1)"
    using ra sp(1,3) o1 o2 l(2) size(1) ne unfolding read_and_parse_def cap by (simp add: Let_def)
  then show ?thesis using sp by blast
qed

lemma recvResponse_printed:
  assumes p: "printable_response r"
    and dump: "rs_dump r = sent @ later" "length later \<le> length (rs_body r)" "length (rs_dump r) < 2 ^ 31"
    and rd: "en_read en s (en_buff_size en) = ((int (length sent), map byte_of_char sent), s1)"
      "length sent \<le> en_buff_size en" "en_buff_size en < 2 ^ 31" "en_buff_size en < length (fst (fresh s))"
    and rest: "delivers (en_read en) s1 (length later) (map byte_of_char later) False s2"
    and env: "en_grants en (length (rs_body r))"
      "en_cast en (dec_string (length (rs_body r))) = Some (of_nat (length (rs_body r)))"
    and fuel: "length later < fuel"
  shows "recvResponse fuel en fresh s = Some (Ret (Some (received_response r)), s2)"
proof -
  obtain memory raw where m: "fresh s = (memory, raw)" by (cases "fresh s")
  obtain f where f: "fuel = Suc f" using fuel by (cases fuel) auto
  define b1 where "b1 = take (length (rs_body r) - length later) (rs_body r)"
  note d = rs_dump_head [OF p]
  have body: "rs_body r = b1 @ later" and sent: "sent = printed_head r @ crlf_text @ b1"
  proof -
    have "length sent = length (printed_head r @ crlf_text) + (length (rs_body r) - length later)"
      using arg_cong [OF d, of length] dump(1,2) by simp
    then show s: "sent = printed_head r @ crlf_text @ b1"
      using arg_cong [OF d, of "take (length sent)"] unfolding dump(1) by (simp add: b1_def)
    show "rs_body r = b1 @ later" using d unfolding dump(1) s by simp
  qed
  have "length (take (Suc (en_buff_size en)) memory) = Suc (en_buff_size en)" using rd(4) m by simp
  then obtain sp tail where h: "read_and_parse en False (take (Suc (en_buff_size en)) memory) 0 (HttpResponseParser_new raw) s =
      Some (Ret (Some (sp, b1 @ tail, int (length b1))), s1)" "sp_isFinished sp = 1" "\<not> cp_chunked (sp_parser sp)"
      "sp_data sp = response_read r"
    using read_and_parse_printed [OF p sent rd(1-3)] by blast
  have len: "length (rs_body r) < 2 ^ 63" using dump(3) unfolding d by simp
  have n: "sint (sp_getContentLength (en_cast en) sp) = int (length (rs_body r))"
    using env(2) sint_u64 [OF len]
    by (simp add: sp_getContentLength_def rs_getHeaderAs_def getAs_def h(4) response_read_special [OF p])
  have "length later < 2 ^ 31" using dump(1,3) by simp
  then have rb: "recv_body fuel en (b1 @ tail) (int (length b1)) (int (length (rs_body r))) s1 = Some (Ret (Some (rs_body r)), s2)"
    unfolding body length_append using fuel env(1) by (intro recv_body_delivered rest) (simp_all add: body)
  have hd: "recv_head fuel en False (take (Suc (en_buff_size en)) memory) 0 (HttpResponseParser_new raw) s =
      Some (Ret (Some (sp, b1 @ tail, int (length b1))), s1)"
    using h(1,2) by (simp add: f)
  show ?thesis
  proof (cases "rs_body r = []")
    case True
    then have "s2 = s1" using rest body by (auto elim: delivers_zeroE)
    moreover have "received_response r = response_read r"
      using True response_read_fields(5) [of r] by (simp add: received_response_def)
    ultimately show ?thesis using hd n h(3,4) True by (simp add: recvResponse_def m)
  next
    case False
    then have "0 < int (length (rs_body r))" by simp
    then show ?thesis using hd n h(3,4) rb by (simp add: recvResponse_def m Let_def sp_setBody_def received_response_def)
  qed
qed

end
