(* ===== verification/HttpChunks.thy ===== *)
theory HttpChunks
  imports HttpConnection
begin

text \<open>
  Chunked responses (\<open>radixun/http/http_connection.cpp\<close>, \<open>radixun/http/httpclient_parser.rl\<close>): what
  \<open>recvResponse\<close> makes of chunks that arrive one per read, and of a chunk that is split over two reads.
\<close>

section \<open>The head of a chunk\<close>

definition chunk_code :: "int \<Rightarrow> bool" where
  "chunk_code n \<longleftrightarrow> 48 \<le> n \<and> n \<le> 57 \<or> 65 \<le> n \<and> n \<le> 70 \<or> 97 \<le> n \<and> n \<le> 102"

lemma ctrans_chunk:
  "chunk_code n \<Longrightarrow> client_trans 1 n = Some ([CMark], 2)" "chunk_code n \<Longrightarrow> client_trans 2 n = Some ([], 2)"
  "client_trans 2 13 = Some ([CChunkSize], 3)" "client_trans 3 10 = Some ([CDone], 120)"
  by (auto simp: chunk_code_def client_trans_def client_states_1_120_def client_states_3_4_def)

definition chunk_value :: "string \<Rightarrow> nat" where
  "chunk_value w = foldl (\<lambda>acc c. 16 * acc + digit_value c) 0 w"

lemma chunk_code_digit: "chunk_code (signed_char c) \<Longrightarrow> digit_value c < 16 \<and> \<not> is_space c \<and> c \<noteq> CHR ''-'' \<and> c \<noteq> CHR ''+'' \<and> c \<notin> {CHR ''x'', CHR ''X''}"
proof -
  assume h: "chunk_code (signed_char c)"
  define n where "n = (of_char c :: nat)"
  have n: "(of_char c :: int) = int n" by (simp only: n_def of_nat_of_char)
  have "n < 256" unfolding n_def by (rule nat_of_char_less_256)
  then have r: "48 \<le> n \<and> n \<le> 57 \<or> 65 \<le> n \<and> n \<le> 70 \<or> 97 \<le> n \<and> n \<le> 102" using h
    by (auto simp: chunk_code_def signed_char_def Let_def n split: if_splits)
  then have "c \<noteq> CHR '' ''" "c \<noteq> CHR ''-''" "c \<noteq> CHR ''+''" "c \<noteq> CHR ''x''" "c \<noteq> CHR ''X''" by (auto simp: n_def)
  then show ?thesis using r by (auto simp: digit_value_def is_space_def Let_def n_def [symmetric])
qed

lemma strtol_hex:
  assumes "w \<noteq> []" "\<forall>c \<in> set w. chunk_code (signed_char c)" "chunk_value w < 2 ^ 63"
  shows "strtol 16 (w @ crlf_text @ rest) = int (chunk_value w)"
proof -
  obtain a u where w: "w = a # u" using assms(1) by (cases w) auto
  have a: "\<not> is_space a" "a \<noteq> CHR ''-''" "a \<noteq> CHR ''+''" using assms(2) w chunk_code_digit [of a] by simp_all
  have cr: "digit_value CHR 0x0D = 36" by (simp add: digit_value_def)
  have "takeWhile (\<lambda>c. digit_value c < 16) (w @ crlf_text @ rest) = w @ takeWhile (\<lambda>c. digit_value c < 16) (crlf_text @ rest)"
    by (rule takeWhile_append2) (use assms(2) chunk_code_digit in blast)
  also have "\<dots> = w" by (simp add: crlf_text_def cr)
  finally have t: "takeWhile (\<lambda>c. digit_value c < 16) (w @ crlf_text @ rest) = w" .
  have "(w @ crlf_text @ rest) ! 1 \<notin> {CHR ''x'', CHR ''X''}"
    using assms(2) w chunk_code_digit by (cases u) (auto simp: crlf_text_def)
  moreover have "dropWhile is_space (w @ crlf_text @ rest) = w @ crlf_text @ rest" using a(1) w by simp
  moreover have "w @ crlf_text @ rest \<noteq> []" "hd (w @ crlf_text @ rest) = a" using w by simp_all
  ultimately show ?thesis using a t assms(3) by (simp add: strtol_def Let_def chunk_value_def)
qed

lemma feed_chunk_size:
  assumes "w \<noteq> []" "\<forall>c \<in> set w. chunk_code (signed_char c)"
  shows "feed (client_machine mem) len w (0, 1, cp, []) = Some (length w, 2, cp\<lparr>cp_mark := 0\<rparr>, [])"
proof -
  obtain a u where w: "w = a # u" using assms(1) by (cases w) auto
  have "feed (client_machine mem) len u (1, 2, cp\<lparr>cp_mark := 0\<rparr>, []) = Some (1 + length u, 2, cp\<lparr>cp_mark := 0\<rparr>, [])"
    using assms(2) w ctrans_chunk by (intro feed_self) auto
  then show ?thesis using assms(2) w ctrans_chunk(1) [of "signed_char a"] by simp
qed

lemma chunk_execute:
  assumes w: "w \<noteq> []" "\<forall>c \<in> set w. chunk_code (signed_char c)" "chunk_value w < 2 ^ 31"
    and mem: "mem = w @ crlf_text @ rest @ CHR 0x00 # junk" and len: "len = length w + 2 + length rest" "len < 2 ^ 31"
  shows "\<exists>cp' k. httpclient_parser_execute log_handler (httpclient_parser_init raw) mem len 0 [] =
      Ret (int (length w + 2), cp', [CElement k 0 (length w), CElement ResponseDone (length w + 2) (length rest)])
    \<and> k \<in> {ChunkSize, LastChunk} \<and> cp_cs cp' = 120 \<and> cp_content_len cp' = int (chunk_value w)
    \<and> cp_chunks_done cp' = (chunk_value w = 0)"
proof -
  let ?cp = "httpclient_parser_init raw" and ?n = "chunk_value w"
  let ?k = "if ?n = 0 then LastChunk else ChunkSize"
  have same: "?cp\<lparr>cp_nread := 0, cp_mark := 0, cp_field_len := 0, cp_field_start := 0\<rparr> = ?cp" "cp_cs ?cp = 1"
    "cp_mark ?cp = 0" "cp_nread ?cp = 0" "cp_field_len ?cp = 0" "cp_field_start ?cp = 0"
    by (simp_all add: httpclient_parser_init_def httpclient_parser_start_def)
  have m: "len < length mem" "mem ! len = CHR 0x00" "0 < len" by (simp_all add: mem len crlf_text_def nth_append)
  have buf: "take len mem = w @ crlf_text @ rest" "length (take len mem) = len" by (simp_all add: mem len crlf_text_def)
  have v: "narrow32 (strtol 16 mem) = int ?n"
  proof -
    have "strtol 16 mem = int ?n" unfolding mem using w by (intro strtol_hex) auto
    moreover have "signed_take_bit 31 (int ?n) = int ?n" using w(3) by (intro signed_take_bit_int_eq_self) auto
    ultimately show ?thesis by (simp add: narrow32_def signed_of_nat)
  qed
  have f: "feed (client_machine mem) (length (take len mem)) w (length ([] :: string), 1, ?cp, []) = Some (length w, 2, ?cp, [])"
    using feed_chunk_size [OF w(1,2)] same(1,3) by (simp add: httpclient_parser_init_def)
  let ?text = "w @ CHR 0x0D # CHR 0x0A # rest"
  have shape: "w @ crlf_text @ rest = ?text" by (simp add: crlf_text_def)
  have nth: "?text ! length w = CHR 0x0D" "?text ! Suc (length w) = CHR 0x0A" by (simp_all add: nth_append)
  have s: "signed_char CHR 0x0D = 13" "signed_char CHR 0x0A = 10" by code_simp+
  let ?cp1 = "?cp\<lparr>cp_chunked := True, cp_content_len := int ?n, cp_chunks_done := ?n = 0, cp_body_start := length w + 2\<rparr>"
  have r: "run_machine (client_machine mem) log_handler (take len mem) 0 1 ?cp [] =
      Ret (120, length w + 2, ?cp1, [CElement ?k 0 (length w), CElement ResponseDone (length w + 2) (length rest)])"
  proof -
    have "run_machine (client_machine mem) log_handler (take len mem) 0 1 ?cp [] =
        run_machine (client_machine mem) log_handler (take len mem) (length w) 2 ?cp []"
      using loop_feed [OF f, of "crlf_text @ rest"] buf(1) by simp
    also have "\<dots> = Ret (120, length w + 2, ?cp1, [CElement ?k 0 (length w), CElement ResponseDone (length w + 2) (length rest)])"
      unfolding buf(1) shape using len v same(3) w(1)
      by (simp add: run_machine.simps [of _ _ _ "length w"] run_machine.simps [of _ _ _ "Suc (length w)"] nth s ctrans_chunk
          log_handler_def Let_def)
    finally show ?thesis .
  qed
  then show ?thesis using same(2-) m len w(1)
    by (intro exI [of _ "?cp1\<lparr>cp_cs := 120, cp_nread := length w + 2\<rparr>"] exI [of _ ?k])
      (auto simp: httpclient_parser_execute_def Let_def to_int_small same(1))
qed

lemma chunk_parsed:
  assumes w: "w \<noteq> []" "\<forall>c \<in> set w. chunk_code (signed_char c)" "chunk_value w < 2 ^ 31"
    and mem: "mem = w @ crlf_text @ rest @ CHR 0x00 # junk" and len: "len = length w + 2 + length rest" "len < 2 ^ 31"
    and sp: "sp_error sp = 0"
  shows "\<exists>tail sp'. sp_execute mem len True sp = Ret (len - length rest, rest @ tail, sp') \<and> length (rest @ tail) = length mem
    \<and> sp_isFinished sp' = 1 \<and> \<not> sp_hasError sp' \<and> sp_error sp' = 0 \<and> sp_data sp' = sp_data sp
    \<and> cp_content_len (sp_parser sp') = int (chunk_value w) \<and> cp_chunks_done (sp_parser sp') = (chunk_value w = 0)"
proof -
  let ?h = "response_callbacks mem" and ?cp = "httpclient_parser_init (sp_parser sp)"
  obtain cp' k where e: "httpclient_parser_execute log_handler ?cp mem len 0 [] =
      Ret (int (length w + 2), cp', [CElement k 0 (length w), CElement ResponseDone (length w + 2) (length rest)])"
    and cp': "k \<in> {ChunkSize, LastChunk}" "cp_cs cp' = 120" "cp_content_len cp' = int (chunk_value w)"
      "cp_chunks_done cp' = (chunk_value w = 0)"
    using chunk_execute [OF w mem len, of "sp_parser sp"] by (elim exE conjE) (rule that)
  have dl: "deliver ?h [CElement k 0 (length w), CElement ResponseDone (length w + 2) (length rest)] (sp_data sp, 0) = Ret (sp_data sp, 0)"
    using cp'(1) by (auto simp: on_response_chunk_def on_response_last_chunk_def on_response_header_done_def)
  have x: "httpclient_parser_execute ?h ?cp mem len 0 (sp_data sp, 0) = Ret (int (length w + 2), cp', sp_data sp, 0)"
    by (simp only: httpclient_parser_execute_deliver [OF e] dl obind.simps)
  have off: "to_size (int (length w + 2)) = len - length rest" "len - length rest \<le> len"
    using len by (simp_all add: to_size_int del: of_nat_add of_nat_Suc)
  have "drop (len - length rest) (take len mem) = rest" unfolding mem len by (simp add: crlf_text_def)
  then have mv: "move_rest (take len mem) (len - length rest) @ drop len mem =
      rest @ drop (length (take len mem) - (len - length rest)) (take len mem) @ drop len mem"
    by (simp add: move_rest_def)
  have "length (move_rest (take len mem) (len - length rest) @ drop len mem) = length mem"
    using len mem by (simp add: move_rest_def crlf_text_def)
  moreover obtain tail where t: "move_rest (take len mem) (len - length rest) @ drop len mem = rest @ tail"
    using mv by blast
  moreover have "sp_execute mem len True sp = Ret (len - length rest, rest @ tail, \<lparr>sp_parser = cp', sp_data = sp_data sp, sp_error = 0\<rparr>)"
    using x off sp t by (simp add: sp_execute_def Let_def)
  moreover have "httpclient_parser_finish cp' = 1" "\<not> httpclient_parser_has_error cp'" using cp'(2)
    by (simp_all add: httpclient_parser_finish_def httpclient_parser_has_error_def httpclient_parser_is_finished_def
        httpclient_parser_error_def httpclient_parser_first_final_def)
  ultimately show ?thesis using cp'(3,4)
    by (intro exI [of _ tail] exI [of _ "\<lparr>sp_parser = cp', sp_data = sp_data sp, sp_error = 0\<rparr>"])
      (simp add: sp_isFinished_def sp_hasError_def)
qed

section \<open>Reading one chunk\<close>

definition chunk_head :: "string \<Rightarrow> nat \<Rightarrow> bool" where
  "chunk_head w n \<longleftrightarrow> w \<noteq> [] \<and> (\<forall>c \<in> set w. chunk_code (signed_char c)) \<and> chunk_value w = n \<and> n < 2 ^ 31"

lemma read_and_parse_chunk:
  assumes w: "chunk_head w n" and sent: "sent = w @ crlf_text @ rest"
    and rd: "en_read en s (en_buff_size en) = ((int (length sent), map byte_of_char sent), s1)"
    and size: "length sent \<le> en_buff_size en" "en_buff_size en < 2 ^ 31" "length data = Suc (en_buff_size en)"
    and sp: "sp_error sp = 0"
  shows "\<exists>sp' tail. read_and_parse en True data 0 sp s = Some (Ret (Some (sp', rest @ tail, int (length rest))), s1)
    \<and> length (rest @ tail) = length data \<and> sp_isFinished sp' = 1 \<and> sp_error sp' = 0 \<and> sp_data sp' = sp_data sp
    \<and> cp_content_len (sp_parser sp') = int n \<and> cp_chunks_done (sp_parser sp') = (n = 0)"
proof -
  let ?len = "length sent"
  have ne: "sent \<noteq> []" using sent by (simp add: crlf_text_def)
  have small: "?len < 2 ^ 31" using size by simp
  have cap: "to_size (int (en_buff_size en) - 0) = en_buff_size en" using size(2) by (simp add: to_size_int)
  define data1 where "data1 = blit 0 sent data"
  have d1: "data1 = sent @ drop ?len data" "length data1 = Suc (en_buff_size en)"
    using size by (simp_all add: data1_def blit_def)
  have ra: "read_at en data 0 (en_buff_size en) s = (Ret (int ?len, data1), s1)"
    using rd size ne by (simp add: read_at_def data1_def)
  obtain junk where junk: "data1[?len := CHR 0x00] = w @ crlf_text @ rest @ CHR 0x00 # junk"
  proof -
    have "drop ?len data \<noteq> []" using size by simp
    then obtain c junk where "drop ?len data = c # junk" by (cases "drop ?len data") auto
    then have "data1[?len := CHR 0x00] = sent @ CHR 0x00 # junk" by (simp add: d1(1))
    then show thesis using sent by (intro that) simp
  qed
  have len: "?len = length w + 2 + length rest" by (simp add: sent crlf_text_def)
  obtain tail sp' where x: "sp_execute (data1[?len := CHR 0x00]) ?len True sp = Ret (?len - length rest, rest @ tail, sp')"
      "length (rest @ tail) = length (data1[?len := CHR 0x00])" "sp_isFinished sp' = 1" "\<not> sp_hasError sp'"
    and y: "sp_error sp' = 0" "sp_data sp' = sp_data sp" "cp_content_len (sp_parser sp') = int n" "cp_chunks_done (sp_parser sp') = (n = 0)"
    using chunk_parsed [OF _ _ _ junk len small sp] w by (auto simp: chunk_head_def)
  have l: "?len - (?len - length rest) = length rest" "length rest < ?len" using len by simp_all
  have o1: "to_int (size_sub ?len (?len - length rest)) = int (length rest)" using l small by (simp add: to_int_small)
  have o2: "to_int (en_buff_size en) = int (en_buff_size en)" using size(2) by (simp add: to_int_small)
  have "?len < length data1" using size d1(2) by simp
  then have "read_and_parse en True data 0 sp s = Some (Ret (Some (sp', rest @ tail, int (length rest))), s1)"
    using ra x(1,4) o1 o2 l(2) size(1) ne unfolding read_and_parse_def cap by (simp add: Let_def)
  then show ?thesis using x(2,3) y d1(2) size(3) by (intro exI [of _ sp'] exI [of _ tail]) simp
qed

section \<open>A chunk per read\<close>

definition chunk_text :: "string \<times> string \<Rightarrow> string" where
  "chunk_text = (\<lambda>(w, d). w @ crlf_text @ d @ crlf_text)"

text \<open>Each \<open>read\<close> with the whole buffer free returns the next text.\<close>

inductive arrives :: "'s stream_env \<Rightarrow> 's \<Rightarrow> string list \<Rightarrow> 's \<Rightarrow> bool" for en where
  arrives_end: "arrives en s [] s"
| arrives_text: "en_read en s (en_buff_size en) = ((int (length t), map byte_of_char t), s1)
    \<Longrightarrow> length t \<le> en_buff_size en \<Longrightarrow> arrives en s1 ts s2 \<Longrightarrow> arrives en s (t # ts) s2"

inductive_cases arrives_NilE: "arrives en s [] s'"
inductive_cases arrives_ConsE: "arrives en s (t # ts) s'"

lemma recv_chunks_head:
  assumes w: "chunk_head w n" and sent: "sent = w @ crlf_text @ rest"
    and rd: "en_read en s (en_buff_size en) = ((int (length sent), map byte_of_char sent), s1)"
    and size: "length sent \<le> en_buff_size en" "en_buff_size en < 2 ^ 31" "length data = Suc (en_buff_size en)"
    and sp: "sp_error sp = 0" and fuel: "0 < fuel"
  shows "\<exists>sp' tail. recv_head fuel en True data 0 sp s = Some (Ret (Some (sp', rest @ tail, int (length rest))), s1)
    \<and> length (rest @ tail) = length data \<and> sp_error sp' = 0 \<and> sp_data sp' = sp_data sp
    \<and> cp_content_len (sp_parser sp') = int n \<and> cp_chunks_done (sp_parser sp') = (n = 0)"
proof -
  obtain f where f: "fuel = Suc f" using fuel by (cases fuel) auto
  obtain sp' tail where r: "read_and_parse en True data 0 sp s = Some (Ret (Some (sp', rest @ tail, int (length rest))), s1)"
      "sp_isFinished sp' = 1"
    and y: "length (rest @ tail) = length data" "sp_error sp' = 0" "sp_data sp' = sp_data sp"
      "cp_content_len (sp_parser sp') = int n" "cp_chunks_done (sp_parser sp') = (n = 0)"
    using read_and_parse_chunk [of w n sent rest en s s1 data sp, OF w sent rd size sp] by blast
  have "recv_head fuel en True data 0 sp s = Some (Ret (Some (sp', rest @ tail, int (length rest))), s1)"
    using r by (simp add: f)
  then show ?thesis using y by blast
qed

lemma to_size_zero: "to_size 0 = 0"
  using to_size_int [of 0] by simp

lemma cpp_string_none: "cpp_string mem 0 0 = Ret []"
  by (simp add: cpp_string_def)

lemma recv_chunks_whole:
  assumes w: "chunk_head w (length d)" and sent: "sent = chunk_text (w, d)"
    and rd: "en_read en s (en_buff_size en) = ((int (length sent), map byte_of_char sent), s1)"
    and size: "length sent \<le> en_buff_size en" "en_buff_size en < 2 ^ 31" "length data = Suc (en_buff_size en)"
    and sp: "sp_error sp = 0" and fuel: "0 < fuel"
  shows "\<exists>sp' data'. recv_chunks (Suc fuel) en data body 0 sp s =
      (if d = [] then Some (Ret (Some (sp', body)), s1) else recv_chunks fuel en data' (body @ d) 0 sp' s1)
    \<and> length data' = length data \<and> sp_error sp' = 0 \<and> sp_data sp' = sp_data sp"
proof -
  have s: "sent = w @ crlf_text @ (d @ crlf_text)" by (simp add: sent chunk_text_def)
  obtain sp' tail where h: "recv_head fuel en True data 0 sp s =
      Some (Ret (Some (sp', (d @ crlf_text) @ tail, int (length (d @ crlf_text)))), s1)"
      "length ((d @ crlf_text) @ tail) = length data"
    and y: "sp_error sp' = 0" "sp_data sp' = sp_data sp"
      "cp_content_len (sp_parser sp') = int (length d)" "cp_chunks_done (sp_parser sp') = (length d = 0)"
    using recv_chunks_head [of w "length d" sent "d @ crlf_text" en s s1 data sp fuel, OF w s rd size sp fuel] by blast
  let ?data = "move_rest (take (length d) ((d @ crlf_text) @ tail)) (length d) @ drop (length d) ((d @ crlf_text) @ tail)"
  have len: "length crlf_text = 2" by (simp add: crlf_text_def)
  have "length d < 2 ^ 31" using w by (simp add: chunk_head_def)
  then have piece: "cpp_string ((d @ crlf_text) @ tail) 0 (to_size (int (length d))) = Ret d" "to_size (int (length d)) = length d"
    by (simp_all add: to_size_int cpp_string_def)
  have "length ?data = length data" using h(2) by (simp add: move_rest_def)
  moreover have "recv_chunks (Suc fuel) en data body 0 sp s =
      (if d = [] then Some (Ret (Some (sp', body)), s1) else recv_chunks fuel en ?data (body @ d) 0 sp' s1)"
    using y(3,4) h(1) piece(1) unfolding recv_chunks.simps(2)
    by (simp add: len piece(2) Let_def to_size_zero cpp_string_none)
  ultimately show ?thesis using y(1,2) by blast
qed

lemma recv_chunks_arrived:
  assumes "arrives en s (map chunk_text cs @ [chunk_text (w, [])]) s'"
    and "\<forall>(v, d) \<in> set cs. chunk_head v (length d) \<and> d \<noteq> []" "chunk_head w 0"
    and "sp_error sp = 0" "length data = Suc (en_buff_size en)" "en_buff_size en < 2 ^ 31" "length cs + 1 < fuel"
  shows "\<exists>sp'. recv_chunks fuel en data body 0 sp s = Some (Ret (Some (sp', body @ concat (map snd cs))), s')
    \<and> sp_data sp' = sp_data sp"
  using assms
proof (induction cs arbitrary: s sp data body fuel)
  case Nil
  obtain f where f: "fuel = Suc f" "0 < f" using Nil.prems(7) by (cases fuel) auto
  have a: "en_read en s (en_buff_size en) = ((int (length (chunk_text (w, []))), map byte_of_char (chunk_text (w, []))), s')"
      "length (chunk_text (w, [])) \<le> en_buff_size en"
    using Nil.prems(1) by (auto elim!: arrives_ConsE arrives_NilE)
  have "chunk_head w (length ([] :: string))" using Nil.prems(3) by simp
  from recv_chunks_whole [OF this refl a Nil.prems(6,5,4) f(2), of body] show ?case by (auto simp: f(1))
next
  case (Cons c cs)
  obtain v d where c: "c = (v, d)" by (cases c) auto
  obtain f where f: "fuel = Suc f" "length cs + 1 < f" "0 < f" using Cons.prems(7) by (cases fuel) auto
  obtain s1 where a: "en_read en s (en_buff_size en) = ((int (length (chunk_text (v, d))), map byte_of_char (chunk_text (v, d))), s1)"
      "length (chunk_text (v, d)) \<le> en_buff_size en" "arrives en s1 (map chunk_text cs @ [chunk_text (w, [])]) s'"
    using Cons.prems(1) unfolding c by (auto elim: arrives_ConsE)
  have v: "chunk_head v (length d)" "d \<noteq> []" using Cons.prems(2) by (simp_all add: c)
  obtain sp' data' where r: "recv_chunks fuel en data body 0 sp s = recv_chunks f en data' (body @ d) 0 sp' s1"
      "length data' = length data" "sp_error sp' = 0" "sp_data sp' = sp_data sp"
    using recv_chunks_whole [OF v(1) refl a(1,2) Cons.prems(6,5,4) f(3), of body] v(2) unfolding f(1) by auto
  have "\<exists>sp''. recv_chunks f en data' (body @ d) 0 sp' s1 = Some (Ret (Some (sp'', (body @ d) @ concat (map snd cs))), s')
      \<and> sp_data sp'' = sp_data sp'"
    by (rule Cons.IH [OF a(3)]) (use Cons.prems r(2,3) f(2) in \<open>auto\<close>)
  then show ?case using r by (auto simp: c)
qed

section \<open>The chunked response\<close>

text \<open>C18. When the head of a chunked response has arrived alone and every chunk arrives whole, one per read, the
  response that \<open>recvResponse\<close> returns has the chunks' data, in order, as its body.\<close>

theorem chunked_response_received:
  assumes head: "recv_head fuel en False (take (Suc (en_buff_size en)) (fst (fresh s))) 0 (HttpResponseParser_new (snd (fresh s))) s
      = Some (Ret (Some (sp, data, 0)), s1)" "cp_chunked (sp_parser sp)" "sp_error sp = 0" "length data = Suc (en_buff_size en)"
    and arr: "arrives en s1 (map chunk_text cs @ [chunk_text (w, [])]) s2"
    and cs: "\<forall>(v, d) \<in> set cs. chunk_head v (length d) \<and> d \<noteq> []" "chunk_head w 0"
    and bounds: "en_buff_size en < 2 ^ 31" "length cs + 1 < fuel"
  shows "recvResponse fuel en fresh s = Some (Ret (Some ((sp_data sp)\<lparr>rs_body := concat (map snd cs)\<rparr>)), s2)"
proof -
  obtain sp' where "recv_chunks fuel en data [] 0 sp s1 = Some (Ret (Some (sp', concat (map snd cs))), s2)" "sp_data sp' = sp_data sp"
    using recv_chunks_arrived [OF arr cs head(3,4) bounds, of "[]"] by auto
  moreover obtain memory raw where "fresh s = (memory, raw)" by (cases "fresh s")
  ultimately show ?thesis using head(1,2) by (simp add: recvResponse_def sp_setBody_def)
qed

section \<open>Chunks that do not arrive one per read\<close>

text \<open>A chunk whose data is split over two reads: the two characters that \<open>len -= 2\<close> takes for the end of the
  chunk are the last two of the first read's data, and the rest read for them is the end of the chunk.\<close>

lemma split_chunk_corrupted:
  assumes w: "chunk_head w (length d1 + length d2)" and d: "2 \<le> length d1" "d2 \<noteq> []"
    and rd: "en_read en s (en_buff_size en) = ((int (length (w @ crlf_text @ d1)), map byte_of_char (w @ crlf_text @ d1)), s1)"
      "length (w @ crlf_text @ d1) \<le> en_buff_size en"
    and rest: "en_read en s1 (length d2 + 2) = ((int (length d2 + 2), map byte_of_char (d2 @ crlf_text)), s2)"
      "length d2 + 2 \<le> en_buff_size en"
    and more: "arrives en s2 (map chunk_text cs @ [chunk_text (v, [])]) s3"
      "\<forall>(v, d) \<in> set cs. chunk_head v (length d) \<and> d \<noteq> []" "chunk_head v 0"
    and sp: "sp_error sp = 0" "length data = Suc (en_buff_size en)" "en_buff_size en < 2 ^ 31" "length cs + 2 < fuel"
  shows "\<exists>sp'. recv_chunks fuel en data body 0 sp s =
      Some (Ret (Some (sp', body @ take (length d1 - 2) d1 @ d2 @ crlf_text @ concat (map snd cs))), s3)"
proof -
  obtain f where f: "fuel = Suc (Suc f)" "0 < f" using sp(4) by (intro that [of "fuel - 2"]) auto
  obtain sp' tail where h: "recv_head (Suc f) en True data 0 sp s = Some (Ret (Some (sp', d1 @ tail, int (length d1))), s1)"
      "length (d1 @ tail) = length data"
    and y: "sp_error sp' = 0" "cp_content_len (sp_parser sp') = int (length d1 + length d2)" "\<not> cp_chunks_done (sp_parser sp')"
    using recv_chunks_head [of w _ _ d1 en s s1 data sp "Suc f", OF w refl rd sp(3,2,1)] d by auto
  let ?left = "length d2 + 2"
  obtain k where k: "length d1 = k + 2" using d(1) by (metis add.commute le_Suc_ex)
  have l: "int (length d1) - 2 = int k" "int (length d1 + length d2) - int k = int ?left" "\<not> int (length d1 + length d2) \<le> int k"
    using k by simp_all
  have small: "length d1 < 2 ^ 31" "?left < 2 ^ 31" using rd(2) rest(2) sp(3) by simp_all
  have piece: "cpp_string (d1 @ tail) 0 (to_size (int k)) = Ret (take k d1)"
    using small(1) k by (simp add: to_size_int cpp_string_def)
  have c: "length crlf_text = 2" by (simp add: crlf_text_def)
  let ?t = "d2 @ crlf_text" and ?data = "d1 @ tail"
  have cap: "nat (min (int ?left) (to_int (en_buff_size en))) = ?left"
    using rest(2) sp(3) by (simp add: to_int_small)
  have ra: "read_at en ?data 0 ?left s1 = (Ret (int ?left, blit 0 ?t ?data), s2)"
    using rest d(2) h(2) sp(2) c by (simp add: read_at_def)
  have tx: "cpp_string (blit 0 ?t ?data) 0 ?left = Ret ?t"
    using small(2) rest(2) h(2) sp(2) c by (simp add: cpp_string_def blit_def)
  have rl: "recv_left (Suc f) en ?data b (int ?left) s1 = Some (Ret (Some (b @ ?t, blit 0 ?t ?data)), s2)" for b
  proof -
    obtain g where g: "f = Suc g" using f(2) by (cases f) auto
    have "nat (2 + int (length d2)) = Suc (Suc (length d2))" by simp
    then show ?thesis using ra tx unfolding recv_left.simps(2) cap by (simp add: g)
  qed
  have go: "recv_chunks fuel en data body 0 sp s = recv_chunks (Suc f) en (blit 0 ?t ?data) ((body @ take k d1) @ ?t) 0 sp' s2"
    unfolding f(1) recv_chunks.simps(2) [of "Suc f"] h(1) Let_def
    by (simp only: then_do.simps option.case prod.case l y(2,3) piece rl if_False if_True not_False_eq_True)
  have "length (blit 0 ?t ?data) = Suc (en_buff_size en)" using h(2) sp(2) rest(2) c by (simp add: blit_def)
  then obtain sp'' where "recv_chunks (Suc f) en (blit 0 ?t ?data) ((body @ take k d1) @ ?t) 0 sp' s2 =
      Some (Ret (Some (sp'', ((body @ take k d1) @ ?t) @ concat (map snd cs))), s3)"
    using recv_chunks_arrived [OF more y(1) _ sp(3), of _ "Suc f"] sp(4) f(1) by fastforce
  then show ?thesis unfolding go using k by simp
qed

text \<open>Two chunks in one read: what is left in the buffer begins with the end of the first chunk, where the next
  execution expects a size, so the connection is given up.\<close>

lemma sp_execute_crlf:
  assumes "mem = CHR 0x0D # u" "len < length mem" "mem ! len = CHR 0x00" "0 < len" "len < 2 ^ 31" "sp_error sp = 0"
  shows "\<exists>mem' sp'. sp_execute mem len True sp = Ret (0, mem', sp') \<and> sp_hasError sp'"
proof -
  let ?cp = "httpclient_parser_init (sp_parser sp)"
  have same: "?cp\<lparr>cp_nread := 0, cp_mark := 0, cp_field_len := 0, cp_field_start := 0\<rparr> = ?cp" "cp_cs ?cp = 1"
    "cp_mark ?cp = 0" "cp_nread ?cp = 0" "cp_field_len ?cp = 0" "cp_field_start ?cp = 0" "cp_body_start ?cp = 0"
    by (simp_all add: httpclient_parser_init_def httpclient_parser_start_def)
  have t: "client_trans 1 13 = Some ([], 0)" by (simp add: client_trans_def client_states_1_120_def)
  have "take len mem ! 0 = CHR 0x0D" "0 < length (take len mem)" using assms(1,2,4) by simp_all
  moreover have "signed_char CHR 0x0D = 13" by code_simp
  ultimately have r: "run_machine (client_machine mem) (response_callbacks mem) (take len mem) 0 1 ?cp d = Ret (0, 0, ?cp, d)" for d
    using t by (simp add: run_machine.simps [of _ _ _ 0])
  then have e: "httpclient_parser_execute (response_callbacks mem) ?cp mem len 0 (sp_data sp, 0) = Ret (0, ?cp\<lparr>cp_cs := 0\<rparr>, sp_data sp, 0)"
    using assms(2-5) same(2-) by (simp add: httpclient_parser_execute_def Let_def same(1) to_int_small)
  have "sp_execute mem len True sp = Ret (0, move_rest (take len mem) 0 @ drop len mem, \<lparr>sp_parser = ?cp\<lparr>cp_cs := 0\<rparr>, sp_data = sp_data sp, sp_error = 0\<rparr>)"
    using e assms(6) by (simp add: sp_execute_def Let_def to_size_zero)
  then show ?thesis by (auto simp: sp_hasError_def httpclient_parser_has_error_def httpclient_parser_error_def)
qed

lemma read_and_parse_crlf:
  assumes "data = CHR 0x0D # u" "0 < k" "k + length t \<le> en_buff_size en" "length data = Suc (en_buff_size en)"
    "en_buff_size en < 2 ^ 31" "sp_error sp = 0"
    and rd: "en_read en s (en_buff_size en - k) = ((int (length t), map byte_of_char t), s1)"
  shows "read_and_parse en True data (int k) sp s = give_up en s1"
proof (cases "t = []")
  case True
  have "to_size (int (en_buff_size en) - int k) = en_buff_size en - k" using assms(2,3,5) by (simp add: to_size_nonneg nat_diff_distrib)
  then show ?thesis using rd True by (simp add: read_and_parse_def read_at_def)
next
  case False
  have cap: "to_size (int (en_buff_size en) - int k) = en_buff_size en - k" using assms(2,3,5) by (simp add: to_size_nonneg nat_diff_distrib)
  let ?data = "blit k t data"
  have d: "?data = take k data @ t @ drop (k + length t) data" "length ?data = length data" using assms(3,4) by (simp_all add: blit_def)
  have ra: "read_at en data (int k) (en_buff_size en - k) s = (Ret (int (length t), ?data), s1)"
    using rd False assms(3,4) by (simp add: read_at_def)
  let ?len = "length t + k" and ?mem = "?data[length t + k := CHR 0x00]"
  obtain k' where k: "k = Suc k'" using assms(2) by (cases k) auto
  have "\<exists>v. ?mem = CHR 0x0D # v" by (simp only: d(1)) (simp add: assms(1) k)
  then obtain v where "?mem = CHR 0x0D # v" by blast
  moreover have "?len < length ?mem" "?mem ! ?len = CHR 0x00" "0 < ?len" "?len < 2 ^ 31" using d(2) assms(2-5) by simp_all
  ultimately obtain mem' sp' where x: "sp_execute ?mem ?len True sp = Ret (0, mem', sp')" "sp_hasError sp'"
    using sp_execute_crlf [of ?mem v ?len sp] assms(6) by blast
  have n: "nat (int (length t) + int k) = length t + k" by simp
  show ?thesis using ra x False d(2) assms(3,4) unfolding read_and_parse_def cap by (simp add: n Let_def)
qed

lemma two_chunks_in_one_read_dropped:
  assumes w: "chunk_head w (length d)" "d \<noteq> []" and two: "sent = chunk_text (w, d) @ rest" "rest \<noteq> []"
    and rd: "en_read en s (en_buff_size en) = ((int (length sent), map byte_of_char sent), s1)"
      "en_read en s1 (en_buff_size en - length rest) = ((int (length t), map byte_of_char t), s2)"
    and size: "length sent \<le> en_buff_size en" "length rest + length t \<le> en_buff_size en" "en_buff_size en < 2 ^ 31"
      "length data = Suc (en_buff_size en)"
    and sp: "sp_error sp = 0" "1 < fuel"
  shows "recv_chunks (Suc fuel) en data body 0 sp s = (case en_close en s2 of
      Ret s3 \<Rightarrow> Some (Ret None, s3) | Throw e \<Rightarrow> Some (Throw e, s2) | Fault f \<Rightarrow> Some (Fault f, s2))"
proof -
  obtain f where f: "fuel = Suc (Suc f)" using sp(2) by (intro that [of "fuel - 2"]) auto
  have s: "sent = w @ crlf_text @ (d @ crlf_text @ rest)" by (simp add: two chunk_text_def)
  obtain sp' tail where h: "recv_head fuel en True data 0 sp s =
      Some (Ret (Some (sp', (d @ crlf_text @ rest) @ tail, int (length (d @ crlf_text @ rest)))), s1)"
      "length ((d @ crlf_text @ rest) @ tail) = length data"
    and y: "sp_error sp' = 0" "cp_content_len (sp_parser sp') = int (length d)" "\<not> cp_chunks_done (sp_parser sp')"
    using recv_chunks_head [of w _ sent "d @ crlf_text @ rest" en s s1 data sp fuel, OF w(1) s rd(1) size(1,3,4) sp(1)] sp(2) w(2) by auto
  let ?data1 = "(d @ crlf_text @ rest) @ tail"
  let ?len2 = "length d + length rest"
  let ?data2 = "move_rest (take ?len2 ?data1) (length d) @ drop ?len2 ?data1"
  have l: "int (length (d @ crlf_text @ rest)) - 2 = int ?len2" "int (length d) \<le> int ?len2"
    "int ?len2 - int (length d) = int (length rest)" by (simp_all add: crlf_text_def)
  have "length d < 2 ^ 31" using w by (simp add: chunk_head_def)
  then have piece: "cpp_string ?data1 0 (length d) = Ret d" "to_size (int (length d)) = length d"
    by (simp_all add: to_size_int cpp_string_def)
  have "\<exists>u. ?data2 = CHR 0x0D # u" using two(2) by (cases rest) (simp_all add: move_rest_def crlf_text_def)
  then obtain u where u: "?data2 = CHR 0x0D # u" by blast
  have "length (move_rest x n) = length x" if "n \<le> length x" for x n using that by (simp add: move_rest_def)
  from this [of "length d" "take ?len2 ?data1"] have "length ?data2 = length ?data1" by simp
  then have "length ?data2 = Suc (en_buff_size en)" using h(2) size(4) by simp
  then have "read_and_parse en True ?data2 (int (length rest)) sp' s1 = give_up en s2"
    using read_and_parse_crlf [OF u _ size(2) _ size(3) y(1) rd(2)] two(2) by simp
  then have n: "recv_chunks fuel en ?data2 b (int (length rest)) sp' s1 = (case en_close en s2 of
      Ret s3 \<Rightarrow> Some (Ret None, s3) | Throw e \<Rightarrow> Some (Throw e, s2) | Fault f \<Rightarrow> Some (Fault f, s2))" for b
    by (simp add: f give_up_def split: outcome.splits)
  show ?thesis unfolding recv_chunks.simps(2) h(1) Let_def
    by (simp only: then_do.simps option.case prod.case l y(2,3) piece n nat_int if_True not_False_eq_True)
qed

text \<open>A connection on which the texts arrive one per read.\<close>

definition texts_env :: "string list stream_env" where
  "texts_env =
     \<lparr>en_read = (\<lambda>ts n. case ts of [] \<Rightarrow> ((0, []), []) | t # us \<Rightarrow> ((int (length t), map byte_of_char t), us)),
      en_write = (\<lambda>ts d. (int (length d), ts)), en_close = (\<lambda>ts. Ret []), en_buff_size = 47,
      en_memory = (\<lambda>_. ([], blank_parser)), en_grants = (\<lambda>_. True), en_cast = (\<lambda>_. None)\<rparr>"

lemma texts_arrive: "\<forall>t \<in> set ts. length t \<le> 47 \<Longrightarrow> arrives texts_env ts ts []"
proof (induction ts)
  case (Cons t ts)
  then show ?case by (intro arrives_text [where ?s1.0 = ts]) (simp_all add: texts_env_def)
qed (rule arrives_end)

definition chunked_head :: string where
  "chunked_head = ''HTTP/1.1 200 OK'' @ crlf_text @ ''Transfer-Encoding: chunked'' @ crlf_text @ crlf_text"

lemma chunked_head_events:
  "case httpclient_parser_execute log_handler (httpclient_parser_init blank_client) (chunked_head @ [CHR 0x00]) 47 0 [] of
     Ret (n, cp, es) \<Rightarrow> n = 47 \<and> cp_chunked cp \<and> cp_cs cp = 120
       \<and> es = [CElement ResponseVersion 0 8, CElement StatusCode 9 3, CElement ReasonPhrase 13 2, CField 17 17 36 7,
         CElement ResponseDone 47 0]
   | _ \<Rightarrow> False"
  by code_simp

lemma chunked_head_read:
  "\<exists>sp data. recv_head (Suc f) texts_env False (replicate 48 CHR 0x00) 0 (HttpResponseParser_new blank_client) (chunked_head # ts)
      = Some (Ret (Some (sp, data, 0)), ts) \<and> cp_chunked (sp_parser sp) \<and> sp_error sp = 0 \<and> length data = 48"
proof -
  let ?mem = "chunked_head @ [CHR 0x00]"
  let ?es = "[CElement ResponseVersion 0 8, CElement StatusCode 9 3, CElement ReasonPhrase 13 2, CField 17 17 36 7,
    CElement ResponseDone 47 0]"
  obtain cp where e: "httpclient_parser_execute log_handler (httpclient_parser_init blank_client) ?mem 47 0 [] = Ret (47, cp, ?es)"
    and cp: "cp_chunked cp" "cp_cs cp = 120"
    using chunked_head_events by (auto split: outcome.splits)
  have "\<exists>r. deliver (response_callbacks ?mem) ?es (HttpResponse_new 0x11 True, 0) = Ret (r, 0)"
    by (simp add: chunked_head_def crlf_text_def on_response_version_def on_response_status_def on_response_reason_def
        on_response_http_field_def on_response_header_done_def cpp_string_def strncmp_eq_def c_string_def)
  then obtain r where d: "deliver (response_callbacks ?mem) ?es (HttpResponse_new 0x11 True, 0) = Ret (r, 0)" by blast
  have len: "length chunked_head = 47" by (simp add: chunked_head_def crlf_text_def)
  let ?sp = "\<lparr>sp_parser = cp, sp_data = r, sp_error = 0\<rparr>"
  have x: "sp_execute ?mem 47 False (HttpResponseParser_new blank_client) = Ret (47, move_rest chunked_head 47 @ [CHR 0x00], ?sp)"
    using httpclient_parser_execute_deliver [OF e, of "response_callbacks ?mem" "(HttpResponse_new 0x11 True, 0)"] d len
    by (simp add: sp_execute_def HttpResponseParser_new_def to_size_nonneg)
  have f: "sp_isFinished ?sp = 1" "\<not> sp_hasError ?sp" using cp(2)
    by (simp_all add: sp_isFinished_def sp_hasError_def httpclient_parser_finish_def httpclient_parser_has_error_def
        httpclient_parser_is_finished_def httpclient_parser_error_def httpclient_parser_first_final_def)
  have ra: "read_at texts_env (replicate 48 CHR 0x00) 0 47 (chunked_head # ts) = (Ret (47, ?mem), ts)"
    using len by (simp add: read_at_def texts_env_def blit_def chunked_head_def crlf_text_def)
  have "?mem[47 := CHR 0x00] = ?mem" using len by (simp add: list_update_append)
  then have "read_and_parse texts_env False (replicate 48 CHR 0x00) 0 (HttpResponseParser_new blank_client) (chunked_head # ts)
      = Some (Ret (Some (?sp, move_rest chunked_head 47 @ [CHR 0x00], 0)), ts)"
    using ra x f(2) len by (simp add: read_and_parse_def texts_env_def to_size_nonneg to_int_small Let_def)
  then show ?thesis using f(1) cp(1) len by (simp add: move_rest_def)
qed

theorem chunked_response_received_witness:
  "\<exists>r. recvResponse 9 texts_env (\<lambda>_. (replicate 48 CHR 0x00, blank_client))
      [chunked_head, ''5'' @ crlf_text @ ''hello'' @ crlf_text, ''0'' @ crlf_text @ crlf_text] = Some (Ret (Some r), [])
    \<and> rs_body r = ''hello''"
proof -
  let ?ts = "map chunk_text [(''5'', ''hello'')] @ [chunk_text (''0'', [])]"
  let ?fresh = "\<lambda>_ :: string list. (replicate 48 CHR 0x00, blank_client)"
  obtain sp data where h: "recv_head (Suc 8) texts_env False (replicate 48 CHR 0x00) 0 (HttpResponseParser_new blank_client) (chunked_head # ?ts)
      = Some (Ret (Some (sp, data, 0)), ?ts)" "cp_chunked (sp_parser sp)" "sp_error sp = 0" "length data = 48"
    using chunked_head_read [of 8 ?ts] by blast
  have size: "en_buff_size texts_env = 47" by (simp add: texts_env_def)
  have codes: "chunk_code (signed_char CHR ''5'')" "chunk_code (signed_char CHR ''0'')" by code_simp+
  have heads: "chunk_head ''5'' (Suc (Suc (Suc (Suc (Suc 0)))))" "chunk_head ''0'' 0" using codes
    by (simp_all add: chunk_head_def chunk_value_def digit_value_def)
  have "recvResponse (Suc 8) texts_env ?fresh (chunked_head # ?ts) =
      Some (Ret (Some ((sp_data sp)\<lparr>rs_body := concat (map snd [(''5'', ''hello'')])\<rparr>)), [])"
  proof (rule chunked_response_received)
    show "recv_head (Suc 8) texts_env False (take (Suc (en_buff_size texts_env)) (fst (?fresh (chunked_head # ?ts)))) 0
        (HttpResponseParser_new (snd (?fresh (chunked_head # ?ts)))) (chunked_head # ?ts) = Some (Ret (Some (sp, data, 0)), ?ts)"
      using h(1) by (simp add: size)
    show "arrives texts_env ?ts ?ts []" by (rule texts_arrive) (simp add: chunk_text_def crlf_text_def)
  qed (use h heads in \<open>simp_all add: size\<close>)
  then show ?thesis by (simp add: chunk_text_def)
qed

end
