(* ===== verification/Uri_Table.thy ===== *)
theory Uri_Table
  imports Ragel
begin

text \<open>
  \<open>radixun/http/uri.rl.cc\<close>: the states of the generated URI parser.

  Each definition translates a run of consecutive \<open>case\<close> labels: for a state and a character (\<open>*p\<close> as the
  signed \<open>char\<close> it is) it gives the actions of the \<open>tr\<close> label jumped to, in order, and the state that label
  continues with; a jump to \<open>st0\<close> is the target 0. \<open>switch\<close> labels with the same target are written as one set.
  \<open>uri_eof\<close> gives the actions at the end of the text.
\<close>

datatype uri_act =
    UMark | USaveScheme | USavePort | USaveUserinfo | USaveHost | USavePath | USaveQuery | USaveFragment

type_synonym uri_go = "uri_act go"

definition uri_parser_start :: nat where "uri_parser_start = 451"
definition uri_parser_first_final :: nat where "uri_parser_first_final = 451"
definition uri_parser_error :: nat where "uri_parser_error = 0"

definition uri_states_451_452 :: "nat \<Rightarrow> int \<Rightarrow> uri_go option" where
  "uri_states_451_452 cs c =
     (if cs = 451 then Some (if c \<in> {34, 58, 60, 62, 96, 127} then ([], 0)
        else if c = 35 then ([], 453)
        else if c = 37 then ([], 3)
        else if c = 47 then ([], 458)
        else if c = 63 then ([], 456)
        else if c < 91 then (if c > 32 then (if 65 \<le> c \<and> c \<le> 90 then ([UMark], 508)
            else ([], 452))
          else if c \<ge> 0 then ([], 0)
          else ([], 452))
        else if c > 94 then (if c > 122 then (if 123 \<le> c \<and> c \<le> 125 then ([], 0)
            else ([], 452))
          else if c \<ge> 97 then ([UMark], 508)
          else ([], 452))
        else ([], 0))
      else if cs = 452 then Some (if c \<in> {34, 58, 60, 62, 96, 127} then ([], 0)
        else if c = 35 then ([], 453)
        else if c = 37 then ([], 3)
        else if c = 47 then ([], 455)
        else if c = 63 then ([], 456)
        else if c < 91 then (if 0 \<le> c \<and> c \<le> 32 then ([], 0)
          else ([], 452))
        else if c > 94 then (if 123 \<le> c \<and> c \<le> 125 then ([], 0)
          else ([], 452))
        else ([], 0))
      else None)"

definition uri_states_453_453 :: "nat \<Rightarrow> int \<Rightarrow> uri_go option" where
  "uri_states_453_453 cs c =
     (if cs = 453 then Some (if c = 37 then ([UMark], 1)
        else if c \<in> {60, 62, 96, 127} then ([], 0)
        else if c < 34 then (if 0 \<le> c \<and> c \<le> 32 then ([], 0)
          else ([UMark], 454))
        else if c > 35 then (if c > 94 then (if 123 \<le> c \<and> c \<le> 125 then ([], 0)
            else ([UMark], 454))
          else if c \<ge> 91 then ([], 0)
          else ([UMark], 454))
        else ([], 0))
      else None)"

definition uri_states_454_4 :: "nat \<Rightarrow> int \<Rightarrow> uri_go option" where
  "uri_states_454_4 cs c =
     (if cs = 454 then Some (if c = 37 then ([], 1)
        else if c \<in> {60, 62, 96, 127} then ([], 0)
        else if c < 34 then (if 0 \<le> c \<and> c \<le> 32 then ([], 0)
          else ([], 454))
        else if c > 35 then (if c > 94 then (if 123 \<le> c \<and> c \<le> 125 then ([], 0)
            else ([], 454))
          else if c \<ge> 91 then ([], 0)
          else ([], 454))
        else ([], 0))
      else if cs = 1 then Some (if c < 65 then (if 48 \<le> c \<and> c \<le> 57 then ([], 2)
          else ([], 0))
        else if c > 70 then (if 97 \<le> c \<and> c \<le> 102 then ([], 2)
          else ([], 0))
        else ([], 2))
      else if cs = 2 then Some (if c < 65 then (if 48 \<le> c \<and> c \<le> 57 then ([], 454)
          else ([], 0))
        else if c > 70 then (if 97 \<le> c \<and> c \<le> 102 then ([], 454)
          else ([], 0))
        else ([], 454))
      else if cs = 3 then Some (if c < 65 then (if 48 \<le> c \<and> c \<le> 57 then ([], 4)
          else ([], 0))
        else if c > 70 then (if 97 \<le> c \<and> c \<le> 102 then ([], 4)
          else ([], 0))
        else ([], 4))
      else if cs = 4 then Some (if c < 65 then (if 48 \<le> c \<and> c \<le> 57 then ([], 452)
          else ([], 0))
        else if c > 70 then (if 97 \<le> c \<and> c \<le> 102 then ([], 452)
          else ([], 0))
        else ([], 452))
      else None)"

definition uri_states_455_6 :: "nat \<Rightarrow> int \<Rightarrow> uri_go option" where
  "uri_states_455_6 cs c =
     (if cs = 455 then Some (if c \<in> {34, 60, 62, 96, 127} then ([], 0)
        else if c = 35 then ([], 453)
        else if c = 37 then ([], 5)
        else if c = 63 then ([], 456)
        else if c < 91 then (if 0 \<le> c \<and> c \<le> 32 then ([], 0)
          else ([], 455))
        else if c > 94 then (if 123 \<le> c \<and> c \<le> 125 then ([], 0)
          else ([], 455))
        else ([], 0))
      else if cs = 5 then Some (if c < 65 then (if 48 \<le> c \<and> c \<le> 57 then ([], 6)
          else ([], 0))
        else if c > 70 then (if 97 \<le> c \<and> c \<le> 102 then ([], 6)
          else ([], 0))
        else ([], 6))
      else if cs = 6 then Some (if c < 65 then (if 48 \<le> c \<and> c \<le> 57 then ([], 455)
          else ([], 0))
        else if c > 70 then (if 97 \<le> c \<and> c \<le> 102 then ([], 455)
          else ([], 0))
        else ([], 455))
      else None)"

definition uri_states_456_456 :: "nat \<Rightarrow> int \<Rightarrow> uri_go option" where
  "uri_states_456_456 cs c =
     (if cs = 456 then Some (if c \<in> {34, 60, 62, 96, 127} then ([], 0)
        else if c = 35 then ([UMark, USaveQuery], 453)
        else if c = 37 then ([UMark], 7)
        else if c < 91 then (if 0 \<le> c \<and> c \<le> 32 then ([], 0)
          else ([UMark], 457))
        else if c > 94 then (if 123 \<le> c \<and> c \<le> 125 then ([], 0)
          else ([UMark], 457))
        else ([], 0))
      else None)"

definition uri_states_457_11 :: "nat \<Rightarrow> int \<Rightarrow> uri_go option" where
  "uri_states_457_11 cs c =
     (if cs = 457 then Some (if c \<in> {34, 60, 62, 96, 127} then ([], 0)
        else if c = 35 then ([USaveQuery], 453)
        else if c = 37 then ([], 7)
        else if c < 91 then (if 0 \<le> c \<and> c \<le> 32 then ([], 0)
          else ([], 457))
        else if c > 94 then (if 123 \<le> c \<and> c \<le> 125 then ([], 0)
          else ([], 457))
        else ([], 0))
      else if cs = 7 then Some (if c < 65 then (if 48 \<le> c \<and> c \<le> 57 then ([], 8)
          else ([], 0))
        else if c > 70 then (if 97 \<le> c \<and> c \<le> 102 then ([], 8)
          else ([], 0))
        else ([], 8))
      else if cs = 8 then Some (if c < 65 then (if 48 \<le> c \<and> c \<le> 57 then ([], 457)
          else ([], 0))
        else if c > 70 then (if 97 \<le> c \<and> c \<le> 102 then ([], 457)
          else ([], 0))
        else ([], 457))
      else if cs = 458 then Some (if c \<in> {34, 60, 62, 96, 127} then ([], 0)
        else if c = 35 then ([], 453)
        else if c = 37 then ([], 5)
        else if c = 47 then ([], 459)
        else if c = 63 then ([], 456)
        else if c < 91 then (if 0 \<le> c \<and> c \<le> 32 then ([], 0)
          else ([], 455))
        else if c > 94 then (if 123 \<le> c \<and> c \<le> 125 then ([], 0)
          else ([], 455))
        else ([], 0))
      else if cs = 459 then Some (if c = 2 then ([UMark], 9)
        else if c \<in> {33, 59, 61, 95, 126} then ([UMark], 467)
        else if c = 35 then ([UMark, USaveHost], 453)
        else if c = 37 then ([UMark], 31)
        else if c = 47 then ([UMark, USaveHost], 455)
        else if c = 48 then ([UMark], 490)
        else if c = 49 then ([UMark], 504)
        else if c = 50 then ([UMark], 506)
        else if c = 58 then ([UMark, USaveHost], 468)
        else if c = 63 then ([UMark, USaveHost], 456)
        else if c = 64 then ([UMark, USaveUserinfo], 469)
        else if c = 91 then ([UMark], 38)
        else if c < 51 then (if 36 \<le> c \<and> c \<le> 46 then ([UMark], 467)
          else ([], 0))
        else if c > 57 then (if c > 90 then (if 97 \<le> c \<and> c \<le> 122 then ([UMark], 467)
            else ([], 0))
          else if c \<ge> 65 then ([UMark], 467)
          else ([], 0))
        else ([UMark], 505))
      else if cs = 9 then Some (if 48 \<le> c \<and> c \<le> 52 then ([], 10)
        else ([], 0))
      else if cs = 10 then Some (if 48 \<le> c \<and> c \<le> 57 then ([], 11)
        else ([], 0))
      else if cs = 11 then Some (if c = 46 then ([], 12)
        else ([], 0))
      else None)"

definition uri_states_12_461 :: "nat \<Rightarrow> int \<Rightarrow> uri_go option" where
  "uri_states_12_461 cs c =
     (if cs = 12 then Some (if c = 2 then ([], 13)
        else if c = 48 then ([], 15)
        else if c = 49 then ([], 27)
        else if c = 50 then ([], 29)
        else if 51 \<le> c \<and> c \<le> 57 then ([], 28)
        else ([], 0))
      else if cs = 13 then Some (if 48 \<le> c \<and> c \<le> 52 then ([], 14)
        else ([], 0))
      else if cs = 14 then Some (if 48 \<le> c \<and> c \<le> 57 then ([], 15)
        else ([], 0))
      else if cs = 15 then Some (if c = 46 then ([], 16)
        else ([], 0))
      else if cs = 16 then Some (if c = 2 then ([], 17)
        else if c = 48 then ([], 19)
        else if c = 49 then ([], 23)
        else if c = 50 then ([], 25)
        else if 51 \<le> c \<and> c \<le> 57 then ([], 24)
        else ([], 0))
      else if cs = 17 then Some (if 48 \<le> c \<and> c \<le> 52 then ([], 18)
        else ([], 0))
      else if cs = 18 then Some (if 48 \<le> c \<and> c \<le> 57 then ([], 19)
        else ([], 0))
      else if cs = 19 then Some (if c = 46 then ([], 20)
        else ([], 0))
      else if cs = 20 then Some (if c = 2 then ([], 21)
        else if c = 48 then ([], 460)
        else if c = 49 then ([], 463)
        else if c = 50 then ([], 465)
        else if 51 \<le> c \<and> c \<le> 57 then ([], 464)
        else ([], 0))
      else if cs = 21 then Some (if 48 \<le> c \<and> c \<le> 52 then ([], 22)
        else ([], 0))
      else if cs = 22 then Some (if 48 \<le> c \<and> c \<le> 57 then ([], 460)
        else ([], 0))
      else if cs = 460 then Some (if c = 35 then ([USaveHost], 453)
        else if c = 47 then ([USaveHost], 455)
        else if c = 58 then ([USaveHost], 461)
        else if c = 63 then ([USaveHost], 456)
        else ([], 0))
      else if cs = 461 then Some (if c = 35 then ([UMark, USavePort], 453)
        else if c = 47 then ([UMark, USavePort], 455)
        else if c = 63 then ([UMark, USavePort], 456)
        else if 48 \<le> c \<and> c \<le> 57 then ([UMark], 462)
        else ([], 0))
      else None)"

definition uri_states_462_30 :: "nat \<Rightarrow> int \<Rightarrow> uri_go option" where
  "uri_states_462_30 cs c =
     (if cs = 462 then Some (if c = 35 then ([USavePort], 453)
        else if c = 47 then ([USavePort], 455)
        else if c = 63 then ([USavePort], 456)
        else if 48 \<le> c \<and> c \<le> 57 then ([], 462)
        else ([], 0))
      else if cs = 463 then Some (if c = 35 then ([USaveHost], 453)
        else if c = 47 then ([USaveHost], 455)
        else if c = 58 then ([USaveHost], 461)
        else if c = 63 then ([USaveHost], 456)
        else if 48 \<le> c \<and> c \<le> 57 then ([], 464)
        else ([], 0))
      else if cs = 464 then Some (if c = 35 then ([USaveHost], 453)
        else if c = 47 then ([USaveHost], 455)
        else if c = 58 then ([USaveHost], 461)
        else if c = 63 then ([USaveHost], 456)
        else if 48 \<le> c \<and> c \<le> 57 then ([], 460)
        else ([], 0))
      else if cs = 465 then Some (if c = 35 then ([USaveHost], 453)
        else if c = 47 then ([USaveHost], 455)
        else if c = 53 then ([], 466)
        else if c = 58 then ([USaveHost], 461)
        else if c = 63 then ([USaveHost], 456)
        else if 48 \<le> c \<and> c \<le> 57 then ([], 460)
        else ([], 0))
      else if cs = 466 then Some (if c = 35 then ([USaveHost], 453)
        else if c = 47 then ([USaveHost], 455)
        else if c = 58 then ([USaveHost], 461)
        else if c = 63 then ([USaveHost], 456)
        else if 48 \<le> c \<and> c \<le> 53 then ([], 460)
        else ([], 0))
      else if cs = 23 then Some (if c = 46 then ([], 20)
        else if 48 \<le> c \<and> c \<le> 57 then ([], 24)
        else ([], 0))
      else if cs = 24 then Some (if c = 46 then ([], 20)
        else if 48 \<le> c \<and> c \<le> 57 then ([], 19)
        else ([], 0))
      else if cs = 25 then Some (if c = 46 then ([], 20)
        else if c = 53 then ([], 26)
        else if 48 \<le> c \<and> c \<le> 57 then ([], 19)
        else ([], 0))
      else if cs = 26 then Some (if c = 46 then ([], 20)
        else if 48 \<le> c \<and> c \<le> 53 then ([], 19)
        else ([], 0))
      else if cs = 27 then Some (if c = 46 then ([], 16)
        else if 48 \<le> c \<and> c \<le> 57 then ([], 28)
        else ([], 0))
      else if cs = 28 then Some (if c = 46 then ([], 16)
        else if 48 \<le> c \<and> c \<le> 57 then ([], 15)
        else ([], 0))
      else if cs = 29 then Some (if c = 46 then ([], 16)
        else if c = 53 then ([], 30)
        else if 48 \<le> c \<and> c \<le> 57 then ([], 15)
        else ([], 0))
      else if cs = 30 then Some (if c = 46 then ([], 16)
        else if 48 \<le> c \<and> c \<le> 53 then ([], 15)
        else ([], 0))
      else None)"

definition uri_states_467_33 :: "nat \<Rightarrow> int \<Rightarrow> uri_go option" where
  "uri_states_467_33 cs c =
     (if cs = 467 then Some (if c \<in> {33, 61, 95, 126} then ([], 467)
        else if c = 35 then ([USaveHost], 453)
        else if c = 37 then ([], 31)
        else if c = 47 then ([USaveHost], 455)
        else if c = 58 then ([USaveHost], 468)
        else if c = 63 then ([USaveHost], 456)
        else if c = 64 then ([USaveUserinfo], 469)
        else if c < 65 then (if 36 \<le> c \<and> c \<le> 59 then ([], 467)
          else ([], 0))
        else if c > 90 then (if 97 \<le> c \<and> c \<le> 122 then ([], 467)
          else ([], 0))
        else ([], 467))
      else if cs = 31 then Some (if c < 65 then (if 48 \<le> c \<and> c \<le> 57 then ([], 32)
          else ([], 0))
        else if c > 70 then (if 97 \<le> c \<and> c \<le> 102 then ([], 32)
          else ([], 0))
        else ([], 32))
      else if cs = 32 then Some (if c < 65 then (if 48 \<le> c \<and> c \<le> 57 then ([], 467)
          else ([], 0))
        else if c > 70 then (if 97 \<le> c \<and> c \<le> 102 then ([], 467)
          else ([], 0))
        else ([], 467))
      else if cs = 468 then Some (if c \<in> {33, 61, 95, 126} then ([], 33)
        else if c = 35 then ([UMark, USavePort], 453)
        else if c = 37 then ([], 34)
        else if c = 47 then ([UMark, USavePort], 455)
        else if c = 63 then ([UMark, USavePort], 456)
        else if c = 64 then ([USaveUserinfo], 469)
        else if c < 58 then (if c > 46 then (if 48 \<le> c \<and> c \<le> 57 then ([UMark], 489)
            else ([], 0))
          else if c \<ge> 36 then ([], 33)
          else ([], 0))
        else if c > 59 then (if c > 90 then (if 97 \<le> c \<and> c \<le> 122 then ([], 33)
            else ([], 0))
          else if c \<ge> 65 then ([], 33)
          else ([], 0))
        else ([], 33))
      else if cs = 33 then Some (if c \<in> {33, 61, 95, 126} then ([], 33)
        else if c = 37 then ([], 34)
        else if c = 64 then ([USaveUserinfo], 469)
        else if c < 48 then (if 36 \<le> c \<and> c \<le> 46 then ([], 33)
          else ([], 0))
        else if c > 59 then (if c > 90 then (if 97 \<le> c \<and> c \<le> 122 then ([], 33)
            else ([], 0))
          else if c \<ge> 65 then ([], 33)
          else ([], 0))
        else ([], 33))
      else None)"

definition uri_states_34_37 :: "nat \<Rightarrow> int \<Rightarrow> uri_go option" where
  "uri_states_34_37 cs c =
     (if cs = 34 then Some (if c < 65 then (if 48 \<le> c \<and> c \<le> 57 then ([], 35)
          else ([], 0))
        else if c > 70 then (if 97 \<le> c \<and> c \<le> 102 then ([], 35)
          else ([], 0))
        else ([], 35))
      else if cs = 35 then Some (if c < 65 then (if 48 \<le> c \<and> c \<le> 57 then ([], 33)
          else ([], 0))
        else if c > 70 then (if 97 \<le> c \<and> c \<le> 102 then ([], 33)
          else ([], 0))
        else ([], 33))
      else if cs = 469 then Some (if c = 2 then ([UMark], 9)
        else if c \<in> {33, 59, 61, 95, 126} then ([UMark], 470)
        else if c = 35 then ([UMark, USaveHost], 453)
        else if c = 37 then ([UMark], 36)
        else if c = 47 then ([UMark, USaveHost], 455)
        else if c = 48 then ([UMark], 471)
        else if c = 49 then ([UMark], 485)
        else if c = 50 then ([UMark], 487)
        else if c = 58 then ([UMark, USaveHost], 461)
        else if c = 63 then ([UMark, USaveHost], 456)
        else if c = 91 then ([UMark], 38)
        else if c < 51 then (if 36 \<le> c \<and> c \<le> 46 then ([UMark], 470)
          else ([], 0))
        else if c > 57 then (if c > 90 then (if 97 \<le> c \<and> c \<le> 122 then ([UMark], 470)
            else ([], 0))
          else if c \<ge> 65 then ([UMark], 470)
          else ([], 0))
        else ([UMark], 486))
      else if cs = 470 then Some (if c \<in> {33, 61, 95, 126} then ([], 470)
        else if c = 35 then ([USaveHost], 453)
        else if c = 37 then ([], 36)
        else if c = 47 then ([USaveHost], 455)
        else if c = 58 then ([USaveHost], 461)
        else if c = 63 then ([USaveHost], 456)
        else if c < 65 then (if 36 \<le> c \<and> c \<le> 59 then ([], 470)
          else ([], 0))
        else if c > 90 then (if 97 \<le> c \<and> c \<le> 122 then ([], 470)
          else ([], 0))
        else ([], 470))
      else if cs = 36 then Some (if c < 65 then (if 48 \<le> c \<and> c \<le> 57 then ([], 37)
          else ([], 0))
        else if c > 70 then (if 97 \<le> c \<and> c \<le> 102 then ([], 37)
          else ([], 0))
        else ([], 37))
      else if cs = 37 then Some (if c < 65 then (if 48 \<le> c \<and> c \<le> 57 then ([], 470)
          else ([], 0))
        else if c > 70 then (if 97 \<le> c \<and> c \<le> 102 then ([], 470)
          else ([], 0))
        else ([], 470))
      else None)"

definition uri_states_471_475 :: "nat \<Rightarrow> int \<Rightarrow> uri_go option" where
  "uri_states_471_475 cs c =
     (if cs = 471 then Some (if c \<in> {33, 61, 95, 126} then ([], 470)
        else if c = 35 then ([USaveHost], 453)
        else if c = 37 then ([], 36)
        else if c = 46 then ([], 472)
        else if c = 47 then ([USaveHost], 455)
        else if c = 58 then ([USaveHost], 461)
        else if c = 63 then ([USaveHost], 456)
        else if c < 65 then (if 36 \<le> c \<and> c \<le> 59 then ([], 470)
          else ([], 0))
        else if c > 90 then (if 97 \<le> c \<and> c \<le> 122 then ([], 470)
          else ([], 0))
        else ([], 470))
      else if cs = 472 then Some (if c = 2 then ([], 13)
        else if c \<in> {33, 59, 61, 95, 126} then ([], 470)
        else if c = 35 then ([USaveHost], 453)
        else if c = 37 then ([], 36)
        else if c = 47 then ([USaveHost], 455)
        else if c = 48 then ([], 473)
        else if c = 49 then ([], 481)
        else if c = 50 then ([], 483)
        else if c = 58 then ([USaveHost], 461)
        else if c = 63 then ([USaveHost], 456)
        else if c < 51 then (if 36 \<le> c \<and> c \<le> 46 then ([], 470)
          else ([], 0))
        else if c > 57 then (if c > 90 then (if 97 \<le> c \<and> c \<le> 122 then ([], 470)
            else ([], 0))
          else if c \<ge> 65 then ([], 470)
          else ([], 0))
        else ([], 482))
      else if cs = 473 then Some (if c \<in> {33, 61, 95, 126} then ([], 470)
        else if c = 35 then ([USaveHost], 453)
        else if c = 37 then ([], 36)
        else if c = 46 then ([], 474)
        else if c = 47 then ([USaveHost], 455)
        else if c = 58 then ([USaveHost], 461)
        else if c = 63 then ([USaveHost], 456)
        else if c < 65 then (if 36 \<le> c \<and> c \<le> 59 then ([], 470)
          else ([], 0))
        else if c > 90 then (if 97 \<le> c \<and> c \<le> 122 then ([], 470)
          else ([], 0))
        else ([], 470))
      else if cs = 474 then Some (if c = 2 then ([], 17)
        else if c \<in> {33, 59, 61, 95, 126} then ([], 470)
        else if c = 35 then ([USaveHost], 453)
        else if c = 37 then ([], 36)
        else if c = 47 then ([USaveHost], 455)
        else if c = 48 then ([], 475)
        else if c = 49 then ([], 477)
        else if c = 50 then ([], 479)
        else if c = 58 then ([USaveHost], 461)
        else if c = 63 then ([USaveHost], 456)
        else if c < 51 then (if 36 \<le> c \<and> c \<le> 46 then ([], 470)
          else ([], 0))
        else if c > 57 then (if c > 90 then (if 97 \<le> c \<and> c \<le> 122 then ([], 470)
            else ([], 0))
          else if c \<ge> 65 then ([], 470)
          else ([], 0))
        else ([], 478))
      else if cs = 475 then Some (if c \<in> {33, 61, 95, 126} then ([], 470)
        else if c = 35 then ([USaveHost], 453)
        else if c = 37 then ([], 36)
        else if c = 46 then ([], 476)
        else if c = 47 then ([USaveHost], 455)
        else if c = 58 then ([USaveHost], 461)
        else if c = 63 then ([USaveHost], 456)
        else if c < 65 then (if 36 \<le> c \<and> c \<le> 59 then ([], 470)
          else ([], 0))
        else if c > 90 then (if 97 \<le> c \<and> c \<le> 122 then ([], 470)
          else ([], 0))
        else ([], 470))
      else None)"

definition uri_states_476_480 :: "nat \<Rightarrow> int \<Rightarrow> uri_go option" where
  "uri_states_476_480 cs c =
     (if cs = 476 then Some (if c = 2 then ([], 21)
        else if c \<in> {33, 61, 95, 126} then ([], 470)
        else if c = 35 then ([USaveHost], 453)
        else if c = 37 then ([], 36)
        else if c = 47 then ([USaveHost], 455)
        else if c = 58 then ([USaveHost], 461)
        else if c = 63 then ([USaveHost], 456)
        else if c < 65 then (if 36 \<le> c \<and> c \<le> 59 then ([], 470)
          else ([], 0))
        else if c > 90 then (if 97 \<le> c \<and> c \<le> 122 then ([], 470)
          else ([], 0))
        else ([], 470))
      else if cs = 477 then Some (if c \<in> {33, 59, 61, 95, 126} then ([], 470)
        else if c = 35 then ([USaveHost], 453)
        else if c = 37 then ([], 36)
        else if c = 46 then ([], 476)
        else if c = 47 then ([USaveHost], 455)
        else if c = 58 then ([USaveHost], 461)
        else if c = 63 then ([USaveHost], 456)
        else if c < 48 then (if 36 \<le> c \<and> c \<le> 45 then ([], 470)
          else ([], 0))
        else if c > 57 then (if c > 90 then (if 97 \<le> c \<and> c \<le> 122 then ([], 470)
            else ([], 0))
          else if c \<ge> 65 then ([], 470)
          else ([], 0))
        else ([], 478))
      else if cs = 478 then Some (if c \<in> {33, 59, 61, 95, 126} then ([], 470)
        else if c = 35 then ([USaveHost], 453)
        else if c = 37 then ([], 36)
        else if c = 46 then ([], 476)
        else if c = 47 then ([USaveHost], 455)
        else if c = 58 then ([USaveHost], 461)
        else if c = 63 then ([USaveHost], 456)
        else if c < 48 then (if 36 \<le> c \<and> c \<le> 45 then ([], 470)
          else ([], 0))
        else if c > 57 then (if c > 90 then (if 97 \<le> c \<and> c \<le> 122 then ([], 470)
            else ([], 0))
          else if c \<ge> 65 then ([], 470)
          else ([], 0))
        else ([], 475))
      else if cs = 479 then Some (if c \<in> {33, 59, 61, 95, 126} then ([], 470)
        else if c = 35 then ([USaveHost], 453)
        else if c = 37 then ([], 36)
        else if c = 46 then ([], 476)
        else if c = 47 then ([USaveHost], 455)
        else if c = 53 then ([], 480)
        else if c = 58 then ([USaveHost], 461)
        else if c = 63 then ([USaveHost], 456)
        else if c < 48 then (if 36 \<le> c \<and> c \<le> 45 then ([], 470)
          else ([], 0))
        else if c > 57 then (if c > 90 then (if 97 \<le> c \<and> c \<le> 122 then ([], 470)
            else ([], 0))
          else if c \<ge> 65 then ([], 470)
          else ([], 0))
        else ([], 475))
      else if cs = 480 then Some (if c \<in> {33, 61, 95, 126} then ([], 470)
        else if c = 35 then ([USaveHost], 453)
        else if c = 37 then ([], 36)
        else if c = 46 then ([], 476)
        else if c = 47 then ([USaveHost], 455)
        else if c = 58 then ([USaveHost], 461)
        else if c = 63 then ([USaveHost], 456)
        else if c < 54 then (if c > 45 then (if 48 \<le> c \<and> c \<le> 53 then ([], 475)
            else ([], 0))
          else if c \<ge> 36 then ([], 470)
          else ([], 0))
        else if c > 59 then (if c > 90 then (if 97 \<le> c \<and> c \<le> 122 then ([], 470)
            else ([], 0))
          else if c \<ge> 65 then ([], 470)
          else ([], 0))
        else ([], 470))
      else None)"

definition uri_states_481_484 :: "nat \<Rightarrow> int \<Rightarrow> uri_go option" where
  "uri_states_481_484 cs c =
     (if cs = 481 then Some (if c \<in> {33, 59, 61, 95, 126} then ([], 470)
        else if c = 35 then ([USaveHost], 453)
        else if c = 37 then ([], 36)
        else if c = 46 then ([], 474)
        else if c = 47 then ([USaveHost], 455)
        else if c = 58 then ([USaveHost], 461)
        else if c = 63 then ([USaveHost], 456)
        else if c < 48 then (if 36 \<le> c \<and> c \<le> 45 then ([], 470)
          else ([], 0))
        else if c > 57 then (if c > 90 then (if 97 \<le> c \<and> c \<le> 122 then ([], 470)
            else ([], 0))
          else if c \<ge> 65 then ([], 470)
          else ([], 0))
        else ([], 482))
      else if cs = 482 then Some (if c \<in> {33, 59, 61, 95, 126} then ([], 470)
        else if c = 35 then ([USaveHost], 453)
        else if c = 37 then ([], 36)
        else if c = 46 then ([], 474)
        else if c = 47 then ([USaveHost], 455)
        else if c = 58 then ([USaveHost], 461)
        else if c = 63 then ([USaveHost], 456)
        else if c < 48 then (if 36 \<le> c \<and> c \<le> 45 then ([], 470)
          else ([], 0))
        else if c > 57 then (if c > 90 then (if 97 \<le> c \<and> c \<le> 122 then ([], 470)
            else ([], 0))
          else if c \<ge> 65 then ([], 470)
          else ([], 0))
        else ([], 473))
      else if cs = 483 then Some (if c \<in> {33, 59, 61, 95, 126} then ([], 470)
        else if c = 35 then ([USaveHost], 453)
        else if c = 37 then ([], 36)
        else if c = 46 then ([], 474)
        else if c = 47 then ([USaveHost], 455)
        else if c = 53 then ([], 484)
        else if c = 58 then ([USaveHost], 461)
        else if c = 63 then ([USaveHost], 456)
        else if c < 48 then (if 36 \<le> c \<and> c \<le> 45 then ([], 470)
          else ([], 0))
        else if c > 57 then (if c > 90 then (if 97 \<le> c \<and> c \<le> 122 then ([], 470)
            else ([], 0))
          else if c \<ge> 65 then ([], 470)
          else ([], 0))
        else ([], 473))
      else if cs = 484 then Some (if c \<in> {33, 61, 95, 126} then ([], 470)
        else if c = 35 then ([USaveHost], 453)
        else if c = 37 then ([], 36)
        else if c = 46 then ([], 474)
        else if c = 47 then ([USaveHost], 455)
        else if c = 58 then ([USaveHost], 461)
        else if c = 63 then ([USaveHost], 456)
        else if c < 54 then (if c > 45 then (if 48 \<le> c \<and> c \<le> 53 then ([], 473)
            else ([], 0))
          else if c \<ge> 36 then ([], 470)
          else ([], 0))
        else if c > 59 then (if c > 90 then (if 97 \<le> c \<and> c \<le> 122 then ([], 470)
            else ([], 0))
          else if c \<ge> 65 then ([], 470)
          else ([], 0))
        else ([], 470))
      else None)"

definition uri_states_485_488 :: "nat \<Rightarrow> int \<Rightarrow> uri_go option" where
  "uri_states_485_488 cs c =
     (if cs = 485 then Some (if c \<in> {33, 59, 61, 95, 126} then ([], 470)
        else if c = 35 then ([USaveHost], 453)
        else if c = 37 then ([], 36)
        else if c = 46 then ([], 472)
        else if c = 47 then ([USaveHost], 455)
        else if c = 58 then ([USaveHost], 461)
        else if c = 63 then ([USaveHost], 456)
        else if c < 48 then (if 36 \<le> c \<and> c \<le> 45 then ([], 470)
          else ([], 0))
        else if c > 57 then (if c > 90 then (if 97 \<le> c \<and> c \<le> 122 then ([], 470)
            else ([], 0))
          else if c \<ge> 65 then ([], 470)
          else ([], 0))
        else ([], 486))
      else if cs = 486 then Some (if c \<in> {33, 59, 61, 95, 126} then ([], 470)
        else if c = 35 then ([USaveHost], 453)
        else if c = 37 then ([], 36)
        else if c = 46 then ([], 472)
        else if c = 47 then ([USaveHost], 455)
        else if c = 58 then ([USaveHost], 461)
        else if c = 63 then ([USaveHost], 456)
        else if c < 48 then (if 36 \<le> c \<and> c \<le> 45 then ([], 470)
          else ([], 0))
        else if c > 57 then (if c > 90 then (if 97 \<le> c \<and> c \<le> 122 then ([], 470)
            else ([], 0))
          else if c \<ge> 65 then ([], 470)
          else ([], 0))
        else ([], 471))
      else if cs = 487 then Some (if c \<in> {33, 59, 61, 95, 126} then ([], 470)
        else if c = 35 then ([USaveHost], 453)
        else if c = 37 then ([], 36)
        else if c = 46 then ([], 472)
        else if c = 47 then ([USaveHost], 455)
        else if c = 53 then ([], 488)
        else if c = 58 then ([USaveHost], 461)
        else if c = 63 then ([USaveHost], 456)
        else if c < 48 then (if 36 \<le> c \<and> c \<le> 45 then ([], 470)
          else ([], 0))
        else if c > 57 then (if c > 90 then (if 97 \<le> c \<and> c \<le> 122 then ([], 470)
            else ([], 0))
          else if c \<ge> 65 then ([], 470)
          else ([], 0))
        else ([], 471))
      else if cs = 488 then Some (if c \<in> {33, 61, 95, 126} then ([], 470)
        else if c = 35 then ([USaveHost], 453)
        else if c = 37 then ([], 36)
        else if c = 46 then ([], 472)
        else if c = 47 then ([USaveHost], 455)
        else if c = 58 then ([USaveHost], 461)
        else if c = 63 then ([USaveHost], 456)
        else if c < 54 then (if c > 45 then (if 48 \<le> c \<and> c \<le> 53 then ([], 471)
            else ([], 0))
          else if c \<ge> 36 then ([], 470)
          else ([], 0))
        else if c > 59 then (if c > 90 then (if 97 \<le> c \<and> c \<le> 122 then ([], 470)
            else ([], 0))
          else if c \<ge> 65 then ([], 470)
          else ([], 0))
        else ([], 470))
      else None)"

definition uri_states_38_47 :: "nat \<Rightarrow> int \<Rightarrow> uri_go option" where
  "uri_states_38_47 cs c =
     (if cs = 38 then Some (if c = 58 then ([], 146)
        else if c = 118 then ([], 225)
        else if c < 65 then (if 48 \<le> c \<and> c \<le> 57 then ([], 39)
          else ([], 0))
        else if c > 70 then (if 97 \<le> c \<and> c \<le> 102 then ([], 39)
          else ([], 0))
        else ([], 39))
      else if cs = 39 then Some (if c = 58 then ([], 43)
        else if c < 65 then (if 48 \<le> c \<and> c \<le> 57 then ([], 40)
          else ([], 0))
        else if c > 70 then (if 97 \<le> c \<and> c \<le> 102 then ([], 40)
          else ([], 0))
        else ([], 40))
      else if cs = 40 then Some (if c = 58 then ([], 43)
        else if c < 65 then (if 48 \<le> c \<and> c \<le> 57 then ([], 41)
          else ([], 0))
        else if c > 70 then (if 97 \<le> c \<and> c \<le> 102 then ([], 41)
          else ([], 0))
        else ([], 41))
      else if cs = 41 then Some (if c = 58 then ([], 43)
        else if c < 65 then (if 48 \<le> c \<and> c \<le> 57 then ([], 42)
          else ([], 0))
        else if c > 70 then (if 97 \<le> c \<and> c \<le> 102 then ([], 42)
          else ([], 0))
        else ([], 42))
      else if cs = 42 then Some (if c = 58 then ([], 43)
        else ([], 0))
      else if cs = 43 then Some (if c = 58 then ([], 141)
        else if c < 65 then (if 48 \<le> c \<and> c \<le> 57 then ([], 44)
          else ([], 0))
        else if c > 70 then (if 97 \<le> c \<and> c \<le> 102 then ([], 44)
          else ([], 0))
        else ([], 44))
      else if cs = 44 then Some (if c = 58 then ([], 48)
        else if c < 65 then (if 48 \<le> c \<and> c \<le> 57 then ([], 45)
          else ([], 0))
        else if c > 70 then (if 97 \<le> c \<and> c \<le> 102 then ([], 45)
          else ([], 0))
        else ([], 45))
      else if cs = 45 then Some (if c = 58 then ([], 48)
        else if c < 65 then (if 48 \<le> c \<and> c \<le> 57 then ([], 46)
          else ([], 0))
        else if c > 70 then (if 97 \<le> c \<and> c \<le> 102 then ([], 46)
          else ([], 0))
        else ([], 46))
      else if cs = 46 then Some (if c = 58 then ([], 48)
        else if c < 65 then (if 48 \<le> c \<and> c \<le> 57 then ([], 47)
          else ([], 0))
        else if c > 70 then (if 97 \<le> c \<and> c \<le> 102 then ([], 47)
          else ([], 0))
        else ([], 47))
      else if cs = 47 then Some (if c = 58 then ([], 48)
        else ([], 0))
      else None)"

definition uri_states_48_57 :: "nat \<Rightarrow> int \<Rightarrow> uri_go option" where
  "uri_states_48_57 cs c =
     (if cs = 48 then Some (if c = 58 then ([], 136)
        else if c < 65 then (if 48 \<le> c \<and> c \<le> 57 then ([], 49)
          else ([], 0))
        else if c > 70 then (if 97 \<le> c \<and> c \<le> 102 then ([], 49)
          else ([], 0))
        else ([], 49))
      else if cs = 49 then Some (if c = 58 then ([], 53)
        else if c < 65 then (if 48 \<le> c \<and> c \<le> 57 then ([], 50)
          else ([], 0))
        else if c > 70 then (if 97 \<le> c \<and> c \<le> 102 then ([], 50)
          else ([], 0))
        else ([], 50))
      else if cs = 50 then Some (if c = 58 then ([], 53)
        else if c < 65 then (if 48 \<le> c \<and> c \<le> 57 then ([], 51)
          else ([], 0))
        else if c > 70 then (if 97 \<le> c \<and> c \<le> 102 then ([], 51)
          else ([], 0))
        else ([], 51))
      else if cs = 51 then Some (if c = 58 then ([], 53)
        else if c < 65 then (if 48 \<le> c \<and> c \<le> 57 then ([], 52)
          else ([], 0))
        else if c > 70 then (if 97 \<le> c \<and> c \<le> 102 then ([], 52)
          else ([], 0))
        else ([], 52))
      else if cs = 52 then Some (if c = 58 then ([], 53)
        else ([], 0))
      else if cs = 53 then Some (if c = 58 then ([], 131)
        else if c < 65 then (if 48 \<le> c \<and> c \<le> 57 then ([], 54)
          else ([], 0))
        else if c > 70 then (if 97 \<le> c \<and> c \<le> 102 then ([], 54)
          else ([], 0))
        else ([], 54))
      else if cs = 54 then Some (if c = 58 then ([], 58)
        else if c < 65 then (if 48 \<le> c \<and> c \<le> 57 then ([], 55)
          else ([], 0))
        else if c > 70 then (if 97 \<le> c \<and> c \<le> 102 then ([], 55)
          else ([], 0))
        else ([], 55))
      else if cs = 55 then Some (if c = 58 then ([], 58)
        else if c < 65 then (if 48 \<le> c \<and> c \<le> 57 then ([], 56)
          else ([], 0))
        else if c > 70 then (if 97 \<le> c \<and> c \<le> 102 then ([], 56)
          else ([], 0))
        else ([], 56))
      else if cs = 56 then Some (if c = 58 then ([], 58)
        else if c < 65 then (if 48 \<le> c \<and> c \<le> 57 then ([], 57)
          else ([], 0))
        else if c > 70 then (if 97 \<le> c \<and> c \<le> 102 then ([], 57)
          else ([], 0))
        else ([], 57))
      else if cs = 57 then Some (if c = 58 then ([], 58)
        else ([], 0))
      else None)"

definition uri_states_58_67 :: "nat \<Rightarrow> int \<Rightarrow> uri_go option" where
  "uri_states_58_67 cs c =
     (if cs = 58 then Some (if c = 58 then ([], 126)
        else if c < 65 then (if 48 \<le> c \<and> c \<le> 57 then ([], 59)
          else ([], 0))
        else if c > 70 then (if 97 \<le> c \<and> c \<le> 102 then ([], 59)
          else ([], 0))
        else ([], 59))
      else if cs = 59 then Some (if c = 58 then ([], 63)
        else if c < 65 then (if 48 \<le> c \<and> c \<le> 57 then ([], 60)
          else ([], 0))
        else if c > 70 then (if 97 \<le> c \<and> c \<le> 102 then ([], 60)
          else ([], 0))
        else ([], 60))
      else if cs = 60 then Some (if c = 58 then ([], 63)
        else if c < 65 then (if 48 \<le> c \<and> c \<le> 57 then ([], 61)
          else ([], 0))
        else if c > 70 then (if 97 \<le> c \<and> c \<le> 102 then ([], 61)
          else ([], 0))
        else ([], 61))
      else if cs = 61 then Some (if c = 58 then ([], 63)
        else if c < 65 then (if 48 \<le> c \<and> c \<le> 57 then ([], 62)
          else ([], 0))
        else if c > 70 then (if 97 \<le> c \<and> c \<le> 102 then ([], 62)
          else ([], 0))
        else ([], 62))
      else if cs = 62 then Some (if c = 58 then ([], 63)
        else ([], 0))
      else if cs = 63 then Some (if c = 58 then ([], 113)
        else if c < 65 then (if 48 \<le> c \<and> c \<le> 57 then ([], 64)
          else ([], 0))
        else if c > 70 then (if 97 \<le> c \<and> c \<le> 102 then ([], 64)
          else ([], 0))
        else ([], 64))
      else if cs = 64 then Some (if c = 58 then ([], 68)
        else if c < 65 then (if 48 \<le> c \<and> c \<le> 57 then ([], 65)
          else ([], 0))
        else if c > 70 then (if 97 \<le> c \<and> c \<le> 102 then ([], 65)
          else ([], 0))
        else ([], 65))
      else if cs = 65 then Some (if c = 58 then ([], 68)
        else if c < 65 then (if 48 \<le> c \<and> c \<le> 57 then ([], 66)
          else ([], 0))
        else if c > 70 then (if 97 \<le> c \<and> c \<le> 102 then ([], 66)
          else ([], 0))
        else ([], 66))
      else if cs = 66 then Some (if c = 58 then ([], 68)
        else if c < 65 then (if 48 \<le> c \<and> c \<le> 57 then ([], 67)
          else ([], 0))
        else if c > 70 then (if 97 \<le> c \<and> c \<le> 102 then ([], 67)
          else ([], 0))
        else ([], 67))
      else if cs = 67 then Some (if c = 58 then ([], 68)
        else ([], 0))
      else None)"

definition uri_states_68_83 :: "nat \<Rightarrow> int \<Rightarrow> uri_go option" where
  "uri_states_68_83 cs c =
     (if cs = 68 then Some (if c = 2 then ([], 69)
        else if c = 48 then ([], 96)
        else if c = 49 then ([], 104)
        else if c = 50 then ([], 107)
        else if c = 58 then ([], 111)
        else if c < 65 then (if 51 \<le> c \<and> c \<le> 57 then ([], 110)
          else ([], 0))
        else if c > 70 then (if 97 \<le> c \<and> c \<le> 102 then ([], 112)
          else ([], 0))
        else ([], 112))
      else if cs = 69 then Some (if 48 \<le> c \<and> c \<le> 52 then ([], 70)
        else ([], 0))
      else if cs = 70 then Some (if 48 \<le> c \<and> c \<le> 57 then ([], 71)
        else ([], 0))
      else if cs = 71 then Some (if c = 46 then ([], 72)
        else ([], 0))
      else if cs = 72 then Some (if c = 2 then ([], 73)
        else if c = 48 then ([], 75)
        else if c = 49 then ([], 92)
        else if c = 50 then ([], 94)
        else if 51 \<le> c \<and> c \<le> 57 then ([], 93)
        else ([], 0))
      else if cs = 73 then Some (if 48 \<le> c \<and> c \<le> 52 then ([], 74)
        else ([], 0))
      else if cs = 74 then Some (if 48 \<le> c \<and> c \<le> 57 then ([], 75)
        else ([], 0))
      else if cs = 75 then Some (if c = 46 then ([], 76)
        else ([], 0))
      else if cs = 76 then Some (if c = 2 then ([], 77)
        else if c = 48 then ([], 79)
        else if c = 49 then ([], 88)
        else if c = 50 then ([], 90)
        else if 51 \<le> c \<and> c \<le> 57 then ([], 89)
        else ([], 0))
      else if cs = 77 then Some (if 48 \<le> c \<and> c \<le> 52 then ([], 78)
        else ([], 0))
      else if cs = 78 then Some (if 48 \<le> c \<and> c \<le> 57 then ([], 79)
        else ([], 0))
      else if cs = 79 then Some (if c = 46 then ([], 80)
        else ([], 0))
      else if cs = 80 then Some (if c = 2 then ([], 81)
        else if c = 48 then ([], 83)
        else if c = 49 then ([], 84)
        else if c = 50 then ([], 86)
        else if 51 \<le> c \<and> c \<le> 57 then ([], 85)
        else ([], 0))
      else if cs = 81 then Some (if 48 \<le> c \<and> c \<le> 52 then ([], 82)
        else ([], 0))
      else if cs = 82 then Some (if 48 \<le> c \<and> c \<le> 57 then ([], 83)
        else ([], 0))
      else if cs = 83 then Some (if c = 93 then ([], 460)
        else ([], 0))
      else None)"

definition uri_states_84_97 :: "nat \<Rightarrow> int \<Rightarrow> uri_go option" where
  "uri_states_84_97 cs c =
     (if cs = 84 then Some (if c = 93 then ([], 460)
        else if 48 \<le> c \<and> c \<le> 57 then ([], 85)
        else ([], 0))
      else if cs = 85 then Some (if c = 93 then ([], 460)
        else if 48 \<le> c \<and> c \<le> 57 then ([], 83)
        else ([], 0))
      else if cs = 86 then Some (if c = 53 then ([], 87)
        else if c = 93 then ([], 460)
        else if 48 \<le> c \<and> c \<le> 57 then ([], 83)
        else ([], 0))
      else if cs = 87 then Some (if c = 93 then ([], 460)
        else if 48 \<le> c \<and> c \<le> 53 then ([], 83)
        else ([], 0))
      else if cs = 88 then Some (if c = 46 then ([], 80)
        else if 48 \<le> c \<and> c \<le> 57 then ([], 89)
        else ([], 0))
      else if cs = 89 then Some (if c = 46 then ([], 80)
        else if 48 \<le> c \<and> c \<le> 57 then ([], 79)
        else ([], 0))
      else if cs = 90 then Some (if c = 46 then ([], 80)
        else if c = 53 then ([], 91)
        else if 48 \<le> c \<and> c \<le> 57 then ([], 79)
        else ([], 0))
      else if cs = 91 then Some (if c = 46 then ([], 80)
        else if 48 \<le> c \<and> c \<le> 53 then ([], 79)
        else ([], 0))
      else if cs = 92 then Some (if c = 46 then ([], 76)
        else if 48 \<le> c \<and> c \<le> 57 then ([], 93)
        else ([], 0))
      else if cs = 93 then Some (if c = 46 then ([], 76)
        else if 48 \<le> c \<and> c \<le> 57 then ([], 75)
        else ([], 0))
      else if cs = 94 then Some (if c = 46 then ([], 76)
        else if c = 53 then ([], 95)
        else if 48 \<le> c \<and> c \<le> 57 then ([], 75)
        else ([], 0))
      else if cs = 95 then Some (if c = 46 then ([], 76)
        else if 48 \<le> c \<and> c \<le> 53 then ([], 75)
        else ([], 0))
      else if cs = 96 then Some (if c = 46 then ([], 72)
        else if c = 58 then ([], 100)
        else if c < 65 then (if 48 \<le> c \<and> c \<le> 57 then ([], 97)
          else ([], 0))
        else if c > 70 then (if 97 \<le> c \<and> c \<le> 102 then ([], 97)
          else ([], 0))
        else ([], 97))
      else if cs = 97 then Some (if c = 58 then ([], 100)
        else if c < 65 then (if 48 \<le> c \<and> c \<le> 57 then ([], 98)
          else ([], 0))
        else if c > 70 then (if 97 \<le> c \<and> c \<le> 102 then ([], 98)
          else ([], 0))
        else ([], 98))
      else None)"

definition uri_states_98_106 :: "nat \<Rightarrow> int \<Rightarrow> uri_go option" where
  "uri_states_98_106 cs c =
     (if cs = 98 then Some (if c = 58 then ([], 100)
        else if c < 65 then (if 48 \<le> c \<and> c \<le> 57 then ([], 99)
          else ([], 0))
        else if c > 70 then (if 97 \<le> c \<and> c \<le> 102 then ([], 99)
          else ([], 0))
        else ([], 99))
      else if cs = 99 then Some (if c = 58 then ([], 100)
        else ([], 0))
      else if cs = 100 then Some (if c = 58 then ([], 83)
        else if c < 65 then (if 48 \<le> c \<and> c \<le> 57 then ([], 101)
          else ([], 0))
        else if c > 70 then (if 97 \<le> c \<and> c \<le> 102 then ([], 101)
          else ([], 0))
        else ([], 101))
      else if cs = 101 then Some (if c = 93 then ([], 460)
        else if c < 65 then (if 48 \<le> c \<and> c \<le> 57 then ([], 102)
          else ([], 0))
        else if c > 70 then (if 97 \<le> c \<and> c \<le> 102 then ([], 102)
          else ([], 0))
        else ([], 102))
      else if cs = 102 then Some (if c = 93 then ([], 460)
        else if c < 65 then (if 48 \<le> c \<and> c \<le> 57 then ([], 103)
          else ([], 0))
        else if c > 70 then (if 97 \<le> c \<and> c \<le> 102 then ([], 103)
          else ([], 0))
        else ([], 103))
      else if cs = 103 then Some (if c = 93 then ([], 460)
        else if c < 65 then (if 48 \<le> c \<and> c \<le> 57 then ([], 83)
          else ([], 0))
        else if c > 70 then (if 97 \<le> c \<and> c \<le> 102 then ([], 83)
          else ([], 0))
        else ([], 83))
      else if cs = 104 then Some (if c = 46 then ([], 72)
        else if c = 58 then ([], 100)
        else if c < 65 then (if 48 \<le> c \<and> c \<le> 57 then ([], 105)
          else ([], 0))
        else if c > 70 then (if 97 \<le> c \<and> c \<le> 102 then ([], 97)
          else ([], 0))
        else ([], 97))
      else if cs = 105 then Some (if c = 46 then ([], 72)
        else if c = 58 then ([], 100)
        else if c < 65 then (if 48 \<le> c \<and> c \<le> 57 then ([], 106)
          else ([], 0))
        else if c > 70 then (if 97 \<le> c \<and> c \<le> 102 then ([], 98)
          else ([], 0))
        else ([], 98))
      else if cs = 106 then Some (if c = 46 then ([], 72)
        else if c = 58 then ([], 100)
        else if c < 65 then (if 48 \<le> c \<and> c \<le> 57 then ([], 99)
          else ([], 0))
        else if c > 70 then (if 97 \<le> c \<and> c \<le> 102 then ([], 99)
          else ([], 0))
        else ([], 99))
      else None)"

definition uri_states_107_114 :: "nat \<Rightarrow> int \<Rightarrow> uri_go option" where
  "uri_states_107_114 cs c =
     (if cs = 107 then Some (if c = 46 then ([], 72)
        else if c = 53 then ([], 109)
        else if c = 58 then ([], 100)
        else if c < 65 then (if 48 \<le> c \<and> c \<le> 57 then ([], 108)
          else ([], 0))
        else if c > 70 then (if 97 \<le> c \<and> c \<le> 102 then ([], 97)
          else ([], 0))
        else ([], 97))
      else if cs = 108 then Some (if c = 46 then ([], 72)
        else if c = 58 then ([], 100)
        else if c < 65 then (if 48 \<le> c \<and> c \<le> 57 then ([], 98)
          else ([], 0))
        else if c > 70 then (if 97 \<le> c \<and> c \<le> 102 then ([], 98)
          else ([], 0))
        else ([], 98))
      else if cs = 109 then Some (if c = 46 then ([], 72)
        else if c = 58 then ([], 100)
        else if c < 54 then (if 48 \<le> c \<and> c \<le> 53 then ([], 106)
          else ([], 0))
        else if c > 57 then (if c > 70 then (if 97 \<le> c \<and> c \<le> 102 then ([], 98)
            else ([], 0))
          else if c \<ge> 65 then ([], 98)
          else ([], 0))
        else ([], 98))
      else if cs = 110 then Some (if c = 46 then ([], 72)
        else if c = 58 then ([], 100)
        else if c < 65 then (if 48 \<le> c \<and> c \<le> 57 then ([], 108)
          else ([], 0))
        else if c > 70 then (if 97 \<le> c \<and> c \<le> 102 then ([], 97)
          else ([], 0))
        else ([], 97))
      else if cs = 111 then Some (if c < 65 then (if 48 \<le> c \<and> c \<le> 57 then ([], 101)
          else ([], 0))
        else if c > 70 then (if 97 \<le> c \<and> c \<le> 102 then ([], 101)
          else ([], 0))
        else ([], 101))
      else if cs = 112 then Some (if c = 58 then ([], 100)
        else if c < 65 then (if 48 \<le> c \<and> c \<le> 57 then ([], 97)
          else ([], 0))
        else if c > 70 then (if 97 \<le> c \<and> c \<le> 102 then ([], 97)
          else ([], 0))
        else ([], 97))
      else if cs = 113 then Some (if c = 2 then ([], 69)
        else if c = 48 then ([], 114)
        else if c = 49 then ([], 118)
        else if c = 50 then ([], 121)
        else if c < 65 then (if 51 \<le> c \<and> c \<le> 57 then ([], 124)
          else ([], 0))
        else if c > 70 then (if 97 \<le> c \<and> c \<le> 102 then ([], 125)
          else ([], 0))
        else ([], 125))
      else if cs = 114 then Some (if c = 46 then ([], 72)
        else if c = 58 then ([], 111)
        else if c < 65 then (if 48 \<le> c \<and> c \<le> 57 then ([], 115)
          else ([], 0))
        else if c > 70 then (if 97 \<le> c \<and> c \<le> 102 then ([], 115)
          else ([], 0))
        else ([], 115))
      else None)"

definition uri_states_115_123 :: "nat \<Rightarrow> int \<Rightarrow> uri_go option" where
  "uri_states_115_123 cs c =
     (if cs = 115 then Some (if c = 58 then ([], 111)
        else if c < 65 then (if 48 \<le> c \<and> c \<le> 57 then ([], 116)
          else ([], 0))
        else if c > 70 then (if 97 \<le> c \<and> c \<le> 102 then ([], 116)
          else ([], 0))
        else ([], 116))
      else if cs = 116 then Some (if c = 58 then ([], 111)
        else if c < 65 then (if 48 \<le> c \<and> c \<le> 57 then ([], 117)
          else ([], 0))
        else if c > 70 then (if 97 \<le> c \<and> c \<le> 102 then ([], 117)
          else ([], 0))
        else ([], 117))
      else if cs = 117 then Some (if c = 58 then ([], 111)
        else ([], 0))
      else if cs = 118 then Some (if c = 46 then ([], 72)
        else if c = 58 then ([], 111)
        else if c < 65 then (if 48 \<le> c \<and> c \<le> 57 then ([], 119)
          else ([], 0))
        else if c > 70 then (if 97 \<le> c \<and> c \<le> 102 then ([], 115)
          else ([], 0))
        else ([], 115))
      else if cs = 119 then Some (if c = 46 then ([], 72)
        else if c = 58 then ([], 111)
        else if c < 65 then (if 48 \<le> c \<and> c \<le> 57 then ([], 120)
          else ([], 0))
        else if c > 70 then (if 97 \<le> c \<and> c \<le> 102 then ([], 116)
          else ([], 0))
        else ([], 116))
      else if cs = 120 then Some (if c = 46 then ([], 72)
        else if c = 58 then ([], 111)
        else if c < 65 then (if 48 \<le> c \<and> c \<le> 57 then ([], 117)
          else ([], 0))
        else if c > 70 then (if 97 \<le> c \<and> c \<le> 102 then ([], 117)
          else ([], 0))
        else ([], 117))
      else if cs = 121 then Some (if c = 46 then ([], 72)
        else if c = 53 then ([], 123)
        else if c = 58 then ([], 111)
        else if c < 65 then (if 48 \<le> c \<and> c \<le> 57 then ([], 122)
          else ([], 0))
        else if c > 70 then (if 97 \<le> c \<and> c \<le> 102 then ([], 115)
          else ([], 0))
        else ([], 115))
      else if cs = 122 then Some (if c = 46 then ([], 72)
        else if c = 58 then ([], 111)
        else if c < 65 then (if 48 \<le> c \<and> c \<le> 57 then ([], 116)
          else ([], 0))
        else if c > 70 then (if 97 \<le> c \<and> c \<le> 102 then ([], 116)
          else ([], 0))
        else ([], 116))
      else if cs = 123 then Some (if c = 46 then ([], 72)
        else if c = 58 then ([], 111)
        else if c < 54 then (if 48 \<le> c \<and> c \<le> 53 then ([], 120)
          else ([], 0))
        else if c > 57 then (if c > 70 then (if 97 \<le> c \<and> c \<le> 102 then ([], 116)
            else ([], 0))
          else if c \<ge> 65 then ([], 116)
          else ([], 0))
        else ([], 116))
      else None)"

definition uri_states_124_133 :: "nat \<Rightarrow> int \<Rightarrow> uri_go option" where
  "uri_states_124_133 cs c =
     (if cs = 124 then Some (if c = 46 then ([], 72)
        else if c = 58 then ([], 111)
        else if c < 65 then (if 48 \<le> c \<and> c \<le> 57 then ([], 122)
          else ([], 0))
        else if c > 70 then (if 97 \<le> c \<and> c \<le> 102 then ([], 115)
          else ([], 0))
        else ([], 115))
      else if cs = 125 then Some (if c = 58 then ([], 111)
        else if c < 65 then (if 48 \<le> c \<and> c \<le> 57 then ([], 115)
          else ([], 0))
        else if c > 70 then (if 97 \<le> c \<and> c \<le> 102 then ([], 115)
          else ([], 0))
        else ([], 115))
      else if cs = 126 then Some (if c < 65 then (if 48 \<le> c \<and> c \<le> 57 then ([], 127)
          else ([], 0))
        else if c > 70 then (if 97 \<le> c \<and> c \<le> 102 then ([], 127)
          else ([], 0))
        else ([], 127))
      else if cs = 127 then Some (if c = 58 then ([], 113)
        else if c < 65 then (if 48 \<le> c \<and> c \<le> 57 then ([], 128)
          else ([], 0))
        else if c > 70 then (if 97 \<le> c \<and> c \<le> 102 then ([], 128)
          else ([], 0))
        else ([], 128))
      else if cs = 128 then Some (if c = 58 then ([], 113)
        else if c < 65 then (if 48 \<le> c \<and> c \<le> 57 then ([], 129)
          else ([], 0))
        else if c > 70 then (if 97 \<le> c \<and> c \<le> 102 then ([], 129)
          else ([], 0))
        else ([], 129))
      else if cs = 129 then Some (if c = 58 then ([], 113)
        else if c < 65 then (if 48 \<le> c \<and> c \<le> 57 then ([], 130)
          else ([], 0))
        else if c > 70 then (if 97 \<le> c \<and> c \<le> 102 then ([], 130)
          else ([], 0))
        else ([], 130))
      else if cs = 130 then Some (if c = 58 then ([], 113)
        else ([], 0))
      else if cs = 131 then Some (if c < 65 then (if 48 \<le> c \<and> c \<le> 57 then ([], 132)
          else ([], 0))
        else if c > 70 then (if 97 \<le> c \<and> c \<le> 102 then ([], 132)
          else ([], 0))
        else ([], 132))
      else if cs = 132 then Some (if c = 58 then ([], 126)
        else if c < 65 then (if 48 \<le> c \<and> c \<le> 57 then ([], 133)
          else ([], 0))
        else if c > 70 then (if 97 \<le> c \<and> c \<le> 102 then ([], 133)
          else ([], 0))
        else ([], 133))
      else if cs = 133 then Some (if c = 58 then ([], 126)
        else if c < 65 then (if 48 \<le> c \<and> c \<le> 57 then ([], 134)
          else ([], 0))
        else if c > 70 then (if 97 \<le> c \<and> c \<le> 102 then ([], 134)
          else ([], 0))
        else ([], 134))
      else None)"

definition uri_states_134_144 :: "nat \<Rightarrow> int \<Rightarrow> uri_go option" where
  "uri_states_134_144 cs c =
     (if cs = 134 then Some (if c = 58 then ([], 126)
        else if c < 65 then (if 48 \<le> c \<and> c \<le> 57 then ([], 135)
          else ([], 0))
        else if c > 70 then (if 97 \<le> c \<and> c \<le> 102 then ([], 135)
          else ([], 0))
        else ([], 135))
      else if cs = 135 then Some (if c = 58 then ([], 126)
        else ([], 0))
      else if cs = 136 then Some (if c < 65 then (if 48 \<le> c \<and> c \<le> 57 then ([], 137)
          else ([], 0))
        else if c > 70 then (if 97 \<le> c \<and> c \<le> 102 then ([], 137)
          else ([], 0))
        else ([], 137))
      else if cs = 137 then Some (if c = 58 then ([], 131)
        else if c < 65 then (if 48 \<le> c \<and> c \<le> 57 then ([], 138)
          else ([], 0))
        else if c > 70 then (if 97 \<le> c \<and> c \<le> 102 then ([], 138)
          else ([], 0))
        else ([], 138))
      else if cs = 138 then Some (if c = 58 then ([], 131)
        else if c < 65 then (if 48 \<le> c \<and> c \<le> 57 then ([], 139)
          else ([], 0))
        else if c > 70 then (if 97 \<le> c \<and> c \<le> 102 then ([], 139)
          else ([], 0))
        else ([], 139))
      else if cs = 139 then Some (if c = 58 then ([], 131)
        else if c < 65 then (if 48 \<le> c \<and> c \<le> 57 then ([], 140)
          else ([], 0))
        else if c > 70 then (if 97 \<le> c \<and> c \<le> 102 then ([], 140)
          else ([], 0))
        else ([], 140))
      else if cs = 140 then Some (if c = 58 then ([], 131)
        else ([], 0))
      else if cs = 141 then Some (if c < 65 then (if 48 \<le> c \<and> c \<le> 57 then ([], 142)
          else ([], 0))
        else if c > 70 then (if 97 \<le> c \<and> c \<le> 102 then ([], 142)
          else ([], 0))
        else ([], 142))
      else if cs = 142 then Some (if c = 58 then ([], 136)
        else if c < 65 then (if 48 \<le> c \<and> c \<le> 57 then ([], 143)
          else ([], 0))
        else if c > 70 then (if 97 \<le> c \<and> c \<le> 102 then ([], 143)
          else ([], 0))
        else ([], 143))
      else if cs = 143 then Some (if c = 58 then ([], 136)
        else if c < 65 then (if 48 \<le> c \<and> c \<le> 57 then ([], 144)
          else ([], 0))
        else if c > 70 then (if 97 \<le> c \<and> c \<le> 102 then ([], 144)
          else ([], 0))
        else ([], 144))
      else if cs = 144 then Some (if c = 58 then ([], 136)
        else if c < 65 then (if 48 \<le> c \<and> c \<le> 57 then ([], 145)
          else ([], 0))
        else if c > 70 then (if 97 \<le> c \<and> c \<le> 102 then ([], 145)
          else ([], 0))
        else ([], 145))
      else None)"

definition uri_states_145_153 :: "nat \<Rightarrow> int \<Rightarrow> uri_go option" where
  "uri_states_145_153 cs c =
     (if cs = 145 then Some (if c = 58 then ([], 136)
        else ([], 0))
      else if cs = 146 then Some (if c = 58 then ([], 147)
        else ([], 0))
      else if cs = 147 then Some (if c = 2 then ([], 69)
        else if c = 48 then ([], 148)
        else if c = 49 then ([], 217)
        else if c = 50 then ([], 220)
        else if c = 93 then ([], 460)
        else if c < 65 then (if 51 \<le> c \<and> c \<le> 57 then ([], 223)
          else ([], 0))
        else if c > 70 then (if 97 \<le> c \<and> c \<le> 102 then ([], 224)
          else ([], 0))
        else ([], 224))
      else if cs = 148 then Some (if c = 46 then ([], 72)
        else if c = 58 then ([], 152)
        else if c = 93 then ([], 460)
        else if c < 65 then (if 48 \<le> c \<and> c \<le> 57 then ([], 149)
          else ([], 0))
        else if c > 70 then (if 97 \<le> c \<and> c \<le> 102 then ([], 149)
          else ([], 0))
        else ([], 149))
      else if cs = 149 then Some (if c = 58 then ([], 152)
        else if c = 93 then ([], 460)
        else if c < 65 then (if 48 \<le> c \<and> c \<le> 57 then ([], 150)
          else ([], 0))
        else if c > 70 then (if 97 \<le> c \<and> c \<le> 102 then ([], 150)
          else ([], 0))
        else ([], 150))
      else if cs = 150 then Some (if c = 58 then ([], 152)
        else if c = 93 then ([], 460)
        else if c < 65 then (if 48 \<le> c \<and> c \<le> 57 then ([], 151)
          else ([], 0))
        else if c > 70 then (if 97 \<le> c \<and> c \<le> 102 then ([], 151)
          else ([], 0))
        else ([], 151))
      else if cs = 151 then Some (if c = 58 then ([], 152)
        else if c = 93 then ([], 460)
        else ([], 0))
      else if cs = 152 then Some (if c = 2 then ([], 69)
        else if c = 48 then ([], 153)
        else if c = 49 then ([], 209)
        else if c = 50 then ([], 212)
        else if c < 65 then (if 51 \<le> c \<and> c \<le> 57 then ([], 215)
          else ([], 0))
        else if c > 70 then (if 97 \<le> c \<and> c \<le> 102 then ([], 216)
          else ([], 0))
        else ([], 216))
      else if cs = 153 then Some (if c = 46 then ([], 72)
        else if c = 58 then ([], 157)
        else if c = 93 then ([], 460)
        else if c < 65 then (if 48 \<le> c \<and> c \<le> 57 then ([], 154)
          else ([], 0))
        else if c > 70 then (if 97 \<le> c \<and> c \<le> 102 then ([], 154)
          else ([], 0))
        else ([], 154))
      else None)"

definition uri_states_154_162 :: "nat \<Rightarrow> int \<Rightarrow> uri_go option" where
  "uri_states_154_162 cs c =
     (if cs = 154 then Some (if c = 58 then ([], 157)
        else if c = 93 then ([], 460)
        else if c < 65 then (if 48 \<le> c \<and> c \<le> 57 then ([], 155)
          else ([], 0))
        else if c > 70 then (if 97 \<le> c \<and> c \<le> 102 then ([], 155)
          else ([], 0))
        else ([], 155))
      else if cs = 155 then Some (if c = 58 then ([], 157)
        else if c = 93 then ([], 460)
        else if c < 65 then (if 48 \<le> c \<and> c \<le> 57 then ([], 156)
          else ([], 0))
        else if c > 70 then (if 97 \<le> c \<and> c \<le> 102 then ([], 156)
          else ([], 0))
        else ([], 156))
      else if cs = 156 then Some (if c = 58 then ([], 157)
        else if c = 93 then ([], 460)
        else ([], 0))
      else if cs = 157 then Some (if c = 2 then ([], 69)
        else if c = 48 then ([], 158)
        else if c = 49 then ([], 201)
        else if c = 50 then ([], 204)
        else if c < 65 then (if 51 \<le> c \<and> c \<le> 57 then ([], 207)
          else ([], 0))
        else if c > 70 then (if 97 \<le> c \<and> c \<le> 102 then ([], 208)
          else ([], 0))
        else ([], 208))
      else if cs = 158 then Some (if c = 46 then ([], 72)
        else if c = 58 then ([], 162)
        else if c = 93 then ([], 460)
        else if c < 65 then (if 48 \<le> c \<and> c \<le> 57 then ([], 159)
          else ([], 0))
        else if c > 70 then (if 97 \<le> c \<and> c \<le> 102 then ([], 159)
          else ([], 0))
        else ([], 159))
      else if cs = 159 then Some (if c = 58 then ([], 162)
        else if c = 93 then ([], 460)
        else if c < 65 then (if 48 \<le> c \<and> c \<le> 57 then ([], 160)
          else ([], 0))
        else if c > 70 then (if 97 \<le> c \<and> c \<le> 102 then ([], 160)
          else ([], 0))
        else ([], 160))
      else if cs = 160 then Some (if c = 58 then ([], 162)
        else if c = 93 then ([], 460)
        else if c < 65 then (if 48 \<le> c \<and> c \<le> 57 then ([], 161)
          else ([], 0))
        else if c > 70 then (if 97 \<le> c \<and> c \<le> 102 then ([], 161)
          else ([], 0))
        else ([], 161))
      else if cs = 161 then Some (if c = 58 then ([], 162)
        else if c = 93 then ([], 460)
        else ([], 0))
      else if cs = 162 then Some (if c = 2 then ([], 69)
        else if c = 48 then ([], 163)
        else if c = 49 then ([], 193)
        else if c = 50 then ([], 196)
        else if c < 65 then (if 51 \<le> c \<and> c \<le> 57 then ([], 199)
          else ([], 0))
        else if c > 70 then (if 97 \<le> c \<and> c \<le> 102 then ([], 200)
          else ([], 0))
        else ([], 200))
      else None)"

definition uri_states_163_171 :: "nat \<Rightarrow> int \<Rightarrow> uri_go option" where
  "uri_states_163_171 cs c =
     (if cs = 163 then Some (if c = 46 then ([], 72)
        else if c = 58 then ([], 167)
        else if c = 93 then ([], 460)
        else if c < 65 then (if 48 \<le> c \<and> c \<le> 57 then ([], 164)
          else ([], 0))
        else if c > 70 then (if 97 \<le> c \<and> c \<le> 102 then ([], 164)
          else ([], 0))
        else ([], 164))
      else if cs = 164 then Some (if c = 58 then ([], 167)
        else if c = 93 then ([], 460)
        else if c < 65 then (if 48 \<le> c \<and> c \<le> 57 then ([], 165)
          else ([], 0))
        else if c > 70 then (if 97 \<le> c \<and> c \<le> 102 then ([], 165)
          else ([], 0))
        else ([], 165))
      else if cs = 165 then Some (if c = 58 then ([], 167)
        else if c = 93 then ([], 460)
        else if c < 65 then (if 48 \<le> c \<and> c \<le> 57 then ([], 166)
          else ([], 0))
        else if c > 70 then (if 97 \<le> c \<and> c \<le> 102 then ([], 166)
          else ([], 0))
        else ([], 166))
      else if cs = 166 then Some (if c = 58 then ([], 167)
        else if c = 93 then ([], 460)
        else ([], 0))
      else if cs = 167 then Some (if c = 2 then ([], 69)
        else if c = 48 then ([], 168)
        else if c = 49 then ([], 185)
        else if c = 50 then ([], 188)
        else if c < 65 then (if 51 \<le> c \<and> c \<le> 57 then ([], 191)
          else ([], 0))
        else if c > 70 then (if 97 \<le> c \<and> c \<le> 102 then ([], 192)
          else ([], 0))
        else ([], 192))
      else if cs = 168 then Some (if c = 46 then ([], 72)
        else if c = 58 then ([], 172)
        else if c = 93 then ([], 460)
        else if c < 65 then (if 48 \<le> c \<and> c \<le> 57 then ([], 169)
          else ([], 0))
        else if c > 70 then (if 97 \<le> c \<and> c \<le> 102 then ([], 169)
          else ([], 0))
        else ([], 169))
      else if cs = 169 then Some (if c = 58 then ([], 172)
        else if c = 93 then ([], 460)
        else if c < 65 then (if 48 \<le> c \<and> c \<le> 57 then ([], 170)
          else ([], 0))
        else if c > 70 then (if 97 \<le> c \<and> c \<le> 102 then ([], 170)
          else ([], 0))
        else ([], 170))
      else if cs = 170 then Some (if c = 58 then ([], 172)
        else if c = 93 then ([], 460)
        else if c < 65 then (if 48 \<le> c \<and> c \<le> 57 then ([], 171)
          else ([], 0))
        else if c > 70 then (if 97 \<le> c \<and> c \<le> 102 then ([], 171)
          else ([], 0))
        else ([], 171))
      else if cs = 171 then Some (if c = 58 then ([], 172)
        else if c = 93 then ([], 460)
        else ([], 0))
      else None)"

definition uri_states_172_179 :: "nat \<Rightarrow> int \<Rightarrow> uri_go option" where
  "uri_states_172_179 cs c =
     (if cs = 172 then Some (if c = 2 then ([], 69)
        else if c = 48 then ([], 173)
        else if c = 49 then ([], 177)
        else if c = 50 then ([], 180)
        else if c < 65 then (if 51 \<le> c \<and> c \<le> 57 then ([], 183)
          else ([], 0))
        else if c > 70 then (if 97 \<le> c \<and> c \<le> 102 then ([], 184)
          else ([], 0))
        else ([], 184))
      else if cs = 173 then Some (if c = 46 then ([], 72)
        else if c = 58 then ([], 111)
        else if c = 93 then ([], 460)
        else if c < 65 then (if 48 \<le> c \<and> c \<le> 57 then ([], 174)
          else ([], 0))
        else if c > 70 then (if 97 \<le> c \<and> c \<le> 102 then ([], 174)
          else ([], 0))
        else ([], 174))
      else if cs = 174 then Some (if c = 58 then ([], 111)
        else if c = 93 then ([], 460)
        else if c < 65 then (if 48 \<le> c \<and> c \<le> 57 then ([], 175)
          else ([], 0))
        else if c > 70 then (if 97 \<le> c \<and> c \<le> 102 then ([], 175)
          else ([], 0))
        else ([], 175))
      else if cs = 175 then Some (if c = 58 then ([], 111)
        else if c = 93 then ([], 460)
        else if c < 65 then (if 48 \<le> c \<and> c \<le> 57 then ([], 176)
          else ([], 0))
        else if c > 70 then (if 97 \<le> c \<and> c \<le> 102 then ([], 176)
          else ([], 0))
        else ([], 176))
      else if cs = 176 then Some (if c = 58 then ([], 111)
        else if c = 93 then ([], 460)
        else ([], 0))
      else if cs = 177 then Some (if c = 46 then ([], 72)
        else if c = 58 then ([], 111)
        else if c = 93 then ([], 460)
        else if c < 65 then (if 48 \<le> c \<and> c \<le> 57 then ([], 178)
          else ([], 0))
        else if c > 70 then (if 97 \<le> c \<and> c \<le> 102 then ([], 174)
          else ([], 0))
        else ([], 174))
      else if cs = 178 then Some (if c = 46 then ([], 72)
        else if c = 58 then ([], 111)
        else if c = 93 then ([], 460)
        else if c < 65 then (if 48 \<le> c \<and> c \<le> 57 then ([], 179)
          else ([], 0))
        else if c > 70 then (if 97 \<le> c \<and> c \<le> 102 then ([], 175)
          else ([], 0))
        else ([], 175))
      else if cs = 179 then Some (if c = 46 then ([], 72)
        else if c = 58 then ([], 111)
        else if c = 93 then ([], 460)
        else if c < 65 then (if 48 \<le> c \<and> c \<le> 57 then ([], 176)
          else ([], 0))
        else if c > 70 then (if 97 \<le> c \<and> c \<le> 102 then ([], 176)
          else ([], 0))
        else ([], 176))
      else None)"

definition uri_states_180_187 :: "nat \<Rightarrow> int \<Rightarrow> uri_go option" where
  "uri_states_180_187 cs c =
     (if cs = 180 then Some (if c = 46 then ([], 72)
        else if c = 53 then ([], 182)
        else if c = 58 then ([], 111)
        else if c = 93 then ([], 460)
        else if c < 65 then (if 48 \<le> c \<and> c \<le> 57 then ([], 181)
          else ([], 0))
        else if c > 70 then (if 97 \<le> c \<and> c \<le> 102 then ([], 174)
          else ([], 0))
        else ([], 174))
      else if cs = 181 then Some (if c = 46 then ([], 72)
        else if c = 58 then ([], 111)
        else if c = 93 then ([], 460)
        else if c < 65 then (if 48 \<le> c \<and> c \<le> 57 then ([], 175)
          else ([], 0))
        else if c > 70 then (if 97 \<le> c \<and> c \<le> 102 then ([], 175)
          else ([], 0))
        else ([], 175))
      else if cs = 182 then Some (if c = 46 then ([], 72)
        else if c = 58 then ([], 111)
        else if c = 93 then ([], 460)
        else if c < 54 then (if 48 \<le> c \<and> c \<le> 53 then ([], 179)
          else ([], 0))
        else if c > 57 then (if c > 70 then (if 97 \<le> c \<and> c \<le> 102 then ([], 175)
            else ([], 0))
          else if c \<ge> 65 then ([], 175)
          else ([], 0))
        else ([], 175))
      else if cs = 183 then Some (if c = 46 then ([], 72)
        else if c = 58 then ([], 111)
        else if c = 93 then ([], 460)
        else if c < 65 then (if 48 \<le> c \<and> c \<le> 57 then ([], 181)
          else ([], 0))
        else if c > 70 then (if 97 \<le> c \<and> c \<le> 102 then ([], 174)
          else ([], 0))
        else ([], 174))
      else if cs = 184 then Some (if c = 58 then ([], 111)
        else if c = 93 then ([], 460)
        else if c < 65 then (if 48 \<le> c \<and> c \<le> 57 then ([], 174)
          else ([], 0))
        else if c > 70 then (if 97 \<le> c \<and> c \<le> 102 then ([], 174)
          else ([], 0))
        else ([], 174))
      else if cs = 185 then Some (if c = 46 then ([], 72)
        else if c = 58 then ([], 172)
        else if c = 93 then ([], 460)
        else if c < 65 then (if 48 \<le> c \<and> c \<le> 57 then ([], 186)
          else ([], 0))
        else if c > 70 then (if 97 \<le> c \<and> c \<le> 102 then ([], 169)
          else ([], 0))
        else ([], 169))
      else if cs = 186 then Some (if c = 46 then ([], 72)
        else if c = 58 then ([], 172)
        else if c = 93 then ([], 460)
        else if c < 65 then (if 48 \<le> c \<and> c \<le> 57 then ([], 187)
          else ([], 0))
        else if c > 70 then (if 97 \<le> c \<and> c \<le> 102 then ([], 170)
          else ([], 0))
        else ([], 170))
      else if cs = 187 then Some (if c = 46 then ([], 72)
        else if c = 58 then ([], 172)
        else if c = 93 then ([], 460)
        else if c < 65 then (if 48 \<le> c \<and> c \<le> 57 then ([], 171)
          else ([], 0))
        else if c > 70 then (if 97 \<le> c \<and> c \<le> 102 then ([], 171)
          else ([], 0))
        else ([], 171))
      else None)"

definition uri_states_188_195 :: "nat \<Rightarrow> int \<Rightarrow> uri_go option" where
  "uri_states_188_195 cs c =
     (if cs = 188 then Some (if c = 46 then ([], 72)
        else if c = 53 then ([], 190)
        else if c = 58 then ([], 172)
        else if c = 93 then ([], 460)
        else if c < 65 then (if 48 \<le> c \<and> c \<le> 57 then ([], 189)
          else ([], 0))
        else if c > 70 then (if 97 \<le> c \<and> c \<le> 102 then ([], 169)
          else ([], 0))
        else ([], 169))
      else if cs = 189 then Some (if c = 46 then ([], 72)
        else if c = 58 then ([], 172)
        else if c = 93 then ([], 460)
        else if c < 65 then (if 48 \<le> c \<and> c \<le> 57 then ([], 170)
          else ([], 0))
        else if c > 70 then (if 97 \<le> c \<and> c \<le> 102 then ([], 170)
          else ([], 0))
        else ([], 170))
      else if cs = 190 then Some (if c = 46 then ([], 72)
        else if c = 58 then ([], 172)
        else if c = 93 then ([], 460)
        else if c < 54 then (if 48 \<le> c \<and> c \<le> 53 then ([], 187)
          else ([], 0))
        else if c > 57 then (if c > 70 then (if 97 \<le> c \<and> c \<le> 102 then ([], 170)
            else ([], 0))
          else if c \<ge> 65 then ([], 170)
          else ([], 0))
        else ([], 170))
      else if cs = 191 then Some (if c = 46 then ([], 72)
        else if c = 58 then ([], 172)
        else if c = 93 then ([], 460)
        else if c < 65 then (if 48 \<le> c \<and> c \<le> 57 then ([], 189)
          else ([], 0))
        else if c > 70 then (if 97 \<le> c \<and> c \<le> 102 then ([], 169)
          else ([], 0))
        else ([], 169))
      else if cs = 192 then Some (if c = 58 then ([], 172)
        else if c = 93 then ([], 460)
        else if c < 65 then (if 48 \<le> c \<and> c \<le> 57 then ([], 169)
          else ([], 0))
        else if c > 70 then (if 97 \<le> c \<and> c \<le> 102 then ([], 169)
          else ([], 0))
        else ([], 169))
      else if cs = 193 then Some (if c = 46 then ([], 72)
        else if c = 58 then ([], 167)
        else if c = 93 then ([], 460)
        else if c < 65 then (if 48 \<le> c \<and> c \<le> 57 then ([], 194)
          else ([], 0))
        else if c > 70 then (if 97 \<le> c \<and> c \<le> 102 then ([], 164)
          else ([], 0))
        else ([], 164))
      else if cs = 194 then Some (if c = 46 then ([], 72)
        else if c = 58 then ([], 167)
        else if c = 93 then ([], 460)
        else if c < 65 then (if 48 \<le> c \<and> c \<le> 57 then ([], 195)
          else ([], 0))
        else if c > 70 then (if 97 \<le> c \<and> c \<le> 102 then ([], 165)
          else ([], 0))
        else ([], 165))
      else if cs = 195 then Some (if c = 46 then ([], 72)
        else if c = 58 then ([], 167)
        else if c = 93 then ([], 460)
        else if c < 65 then (if 48 \<le> c \<and> c \<le> 57 then ([], 166)
          else ([], 0))
        else if c > 70 then (if 97 \<le> c \<and> c \<le> 102 then ([], 166)
          else ([], 0))
        else ([], 166))
      else None)"

definition uri_states_196_203 :: "nat \<Rightarrow> int \<Rightarrow> uri_go option" where
  "uri_states_196_203 cs c =
     (if cs = 196 then Some (if c = 46 then ([], 72)
        else if c = 53 then ([], 198)
        else if c = 58 then ([], 167)
        else if c = 93 then ([], 460)
        else if c < 65 then (if 48 \<le> c \<and> c \<le> 57 then ([], 197)
          else ([], 0))
        else if c > 70 then (if 97 \<le> c \<and> c \<le> 102 then ([], 164)
          else ([], 0))
        else ([], 164))
      else if cs = 197 then Some (if c = 46 then ([], 72)
        else if c = 58 then ([], 167)
        else if c = 93 then ([], 460)
        else if c < 65 then (if 48 \<le> c \<and> c \<le> 57 then ([], 165)
          else ([], 0))
        else if c > 70 then (if 97 \<le> c \<and> c \<le> 102 then ([], 165)
          else ([], 0))
        else ([], 165))
      else if cs = 198 then Some (if c = 46 then ([], 72)
        else if c = 58 then ([], 167)
        else if c = 93 then ([], 460)
        else if c < 54 then (if 48 \<le> c \<and> c \<le> 53 then ([], 195)
          else ([], 0))
        else if c > 57 then (if c > 70 then (if 97 \<le> c \<and> c \<le> 102 then ([], 165)
            else ([], 0))
          else if c \<ge> 65 then ([], 165)
          else ([], 0))
        else ([], 165))
      else if cs = 199 then Some (if c = 46 then ([], 72)
        else if c = 58 then ([], 167)
        else if c = 93 then ([], 460)
        else if c < 65 then (if 48 \<le> c \<and> c \<le> 57 then ([], 197)
          else ([], 0))
        else if c > 70 then (if 97 \<le> c \<and> c \<le> 102 then ([], 164)
          else ([], 0))
        else ([], 164))
      else if cs = 200 then Some (if c = 58 then ([], 167)
        else if c = 93 then ([], 460)
        else if c < 65 then (if 48 \<le> c \<and> c \<le> 57 then ([], 164)
          else ([], 0))
        else if c > 70 then (if 97 \<le> c \<and> c \<le> 102 then ([], 164)
          else ([], 0))
        else ([], 164))
      else if cs = 201 then Some (if c = 46 then ([], 72)
        else if c = 58 then ([], 162)
        else if c = 93 then ([], 460)
        else if c < 65 then (if 48 \<le> c \<and> c \<le> 57 then ([], 202)
          else ([], 0))
        else if c > 70 then (if 97 \<le> c \<and> c \<le> 102 then ([], 159)
          else ([], 0))
        else ([], 159))
      else if cs = 202 then Some (if c = 46 then ([], 72)
        else if c = 58 then ([], 162)
        else if c = 93 then ([], 460)
        else if c < 65 then (if 48 \<le> c \<and> c \<le> 57 then ([], 203)
          else ([], 0))
        else if c > 70 then (if 97 \<le> c \<and> c \<le> 102 then ([], 160)
          else ([], 0))
        else ([], 160))
      else if cs = 203 then Some (if c = 46 then ([], 72)
        else if c = 58 then ([], 162)
        else if c = 93 then ([], 460)
        else if c < 65 then (if 48 \<le> c \<and> c \<le> 57 then ([], 161)
          else ([], 0))
        else if c > 70 then (if 97 \<le> c \<and> c \<le> 102 then ([], 161)
          else ([], 0))
        else ([], 161))
      else None)"

definition uri_states_204_211 :: "nat \<Rightarrow> int \<Rightarrow> uri_go option" where
  "uri_states_204_211 cs c =
     (if cs = 204 then Some (if c = 46 then ([], 72)
        else if c = 53 then ([], 206)
        else if c = 58 then ([], 162)
        else if c = 93 then ([], 460)
        else if c < 65 then (if 48 \<le> c \<and> c \<le> 57 then ([], 205)
          else ([], 0))
        else if c > 70 then (if 97 \<le> c \<and> c \<le> 102 then ([], 159)
          else ([], 0))
        else ([], 159))
      else if cs = 205 then Some (if c = 46 then ([], 72)
        else if c = 58 then ([], 162)
        else if c = 93 then ([], 460)
        else if c < 65 then (if 48 \<le> c \<and> c \<le> 57 then ([], 160)
          else ([], 0))
        else if c > 70 then (if 97 \<le> c \<and> c \<le> 102 then ([], 160)
          else ([], 0))
        else ([], 160))
      else if cs = 206 then Some (if c = 46 then ([], 72)
        else if c = 58 then ([], 162)
        else if c = 93 then ([], 460)
        else if c < 54 then (if 48 \<le> c \<and> c \<le> 53 then ([], 203)
          else ([], 0))
        else if c > 57 then (if c > 70 then (if 97 \<le> c \<and> c \<le> 102 then ([], 160)
            else ([], 0))
          else if c \<ge> 65 then ([], 160)
          else ([], 0))
        else ([], 160))
      else if cs = 207 then Some (if c = 46 then ([], 72)
        else if c = 58 then ([], 162)
        else if c = 93 then ([], 460)
        else if c < 65 then (if 48 \<le> c \<and> c \<le> 57 then ([], 205)
          else ([], 0))
        else if c > 70 then (if 97 \<le> c \<and> c \<le> 102 then ([], 159)
          else ([], 0))
        else ([], 159))
      else if cs = 208 then Some (if c = 58 then ([], 162)
        else if c = 93 then ([], 460)
        else if c < 65 then (if 48 \<le> c \<and> c \<le> 57 then ([], 159)
          else ([], 0))
        else if c > 70 then (if 97 \<le> c \<and> c \<le> 102 then ([], 159)
          else ([], 0))
        else ([], 159))
      else if cs = 209 then Some (if c = 46 then ([], 72)
        else if c = 58 then ([], 157)
        else if c = 93 then ([], 460)
        else if c < 65 then (if 48 \<le> c \<and> c \<le> 57 then ([], 210)
          else ([], 0))
        else if c > 70 then (if 97 \<le> c \<and> c \<le> 102 then ([], 154)
          else ([], 0))
        else ([], 154))
      else if cs = 210 then Some (if c = 46 then ([], 72)
        else if c = 58 then ([], 157)
        else if c = 93 then ([], 460)
        else if c < 65 then (if 48 \<le> c \<and> c \<le> 57 then ([], 211)
          else ([], 0))
        else if c > 70 then (if 97 \<le> c \<and> c \<le> 102 then ([], 155)
          else ([], 0))
        else ([], 155))
      else if cs = 211 then Some (if c = 46 then ([], 72)
        else if c = 58 then ([], 157)
        else if c = 93 then ([], 460)
        else if c < 65 then (if 48 \<le> c \<and> c \<le> 57 then ([], 156)
          else ([], 0))
        else if c > 70 then (if 97 \<le> c \<and> c \<le> 102 then ([], 156)
          else ([], 0))
        else ([], 156))
      else None)"

definition uri_states_212_219 :: "nat \<Rightarrow> int \<Rightarrow> uri_go option" where
  "uri_states_212_219 cs c =
     (if cs = 212 then Some (if c = 46 then ([], 72)
        else if c = 53 then ([], 214)
        else if c = 58 then ([], 157)
        else if c = 93 then ([], 460)
        else if c < 65 then (if 48 \<le> c \<and> c \<le> 57 then ([], 213)
          else ([], 0))
        else if c > 70 then (if 97 \<le> c \<and> c \<le> 102 then ([], 154)
          else ([], 0))
        else ([], 154))
      else if cs = 213 then Some (if c = 46 then ([], 72)
        else if c = 58 then ([], 157)
        else if c = 93 then ([], 460)
        else if c < 65 then (if 48 \<le> c \<and> c \<le> 57 then ([], 155)
          else ([], 0))
        else if c > 70 then (if 97 \<le> c \<and> c \<le> 102 then ([], 155)
          else ([], 0))
        else ([], 155))
      else if cs = 214 then Some (if c = 46 then ([], 72)
        else if c = 58 then ([], 157)
        else if c = 93 then ([], 460)
        else if c < 54 then (if 48 \<le> c \<and> c \<le> 53 then ([], 211)
          else ([], 0))
        else if c > 57 then (if c > 70 then (if 97 \<le> c \<and> c \<le> 102 then ([], 155)
            else ([], 0))
          else if c \<ge> 65 then ([], 155)
          else ([], 0))
        else ([], 155))
      else if cs = 215 then Some (if c = 46 then ([], 72)
        else if c = 58 then ([], 157)
        else if c = 93 then ([], 460)
        else if c < 65 then (if 48 \<le> c \<and> c \<le> 57 then ([], 213)
          else ([], 0))
        else if c > 70 then (if 97 \<le> c \<and> c \<le> 102 then ([], 154)
          else ([], 0))
        else ([], 154))
      else if cs = 216 then Some (if c = 58 then ([], 157)
        else if c = 93 then ([], 460)
        else if c < 65 then (if 48 \<le> c \<and> c \<le> 57 then ([], 154)
          else ([], 0))
        else if c > 70 then (if 97 \<le> c \<and> c \<le> 102 then ([], 154)
          else ([], 0))
        else ([], 154))
      else if cs = 217 then Some (if c = 46 then ([], 72)
        else if c = 58 then ([], 152)
        else if c = 93 then ([], 460)
        else if c < 65 then (if 48 \<le> c \<and> c \<le> 57 then ([], 218)
          else ([], 0))
        else if c > 70 then (if 97 \<le> c \<and> c \<le> 102 then ([], 149)
          else ([], 0))
        else ([], 149))
      else if cs = 218 then Some (if c = 46 then ([], 72)
        else if c = 58 then ([], 152)
        else if c = 93 then ([], 460)
        else if c < 65 then (if 48 \<le> c \<and> c \<le> 57 then ([], 219)
          else ([], 0))
        else if c > 70 then (if 97 \<le> c \<and> c \<le> 102 then ([], 150)
          else ([], 0))
        else ([], 150))
      else if cs = 219 then Some (if c = 46 then ([], 72)
        else if c = 58 then ([], 152)
        else if c = 93 then ([], 460)
        else if c < 65 then (if 48 \<le> c \<and> c \<le> 57 then ([], 151)
          else ([], 0))
        else if c > 70 then (if 97 \<le> c \<and> c \<le> 102 then ([], 151)
          else ([], 0))
        else ([], 151))
      else None)"

definition uri_states_220_227 :: "nat \<Rightarrow> int \<Rightarrow> uri_go option" where
  "uri_states_220_227 cs c =
     (if cs = 220 then Some (if c = 46 then ([], 72)
        else if c = 53 then ([], 222)
        else if c = 58 then ([], 152)
        else if c = 93 then ([], 460)
        else if c < 65 then (if 48 \<le> c \<and> c \<le> 57 then ([], 221)
          else ([], 0))
        else if c > 70 then (if 97 \<le> c \<and> c \<le> 102 then ([], 149)
          else ([], 0))
        else ([], 149))
      else if cs = 221 then Some (if c = 46 then ([], 72)
        else if c = 58 then ([], 152)
        else if c = 93 then ([], 460)
        else if c < 65 then (if 48 \<le> c \<and> c \<le> 57 then ([], 150)
          else ([], 0))
        else if c > 70 then (if 97 \<le> c \<and> c \<le> 102 then ([], 150)
          else ([], 0))
        else ([], 150))
      else if cs = 222 then Some (if c = 46 then ([], 72)
        else if c = 58 then ([], 152)
        else if c = 93 then ([], 460)
        else if c < 54 then (if 48 \<le> c \<and> c \<le> 53 then ([], 219)
          else ([], 0))
        else if c > 57 then (if c > 70 then (if 97 \<le> c \<and> c \<le> 102 then ([], 150)
            else ([], 0))
          else if c \<ge> 65 then ([], 150)
          else ([], 0))
        else ([], 150))
      else if cs = 223 then Some (if c = 46 then ([], 72)
        else if c = 58 then ([], 152)
        else if c = 93 then ([], 460)
        else if c < 65 then (if 48 \<le> c \<and> c \<le> 57 then ([], 221)
          else ([], 0))
        else if c > 70 then (if 97 \<le> c \<and> c \<le> 102 then ([], 149)
          else ([], 0))
        else ([], 149))
      else if cs = 224 then Some (if c = 58 then ([], 152)
        else if c = 93 then ([], 460)
        else if c < 65 then (if 48 \<le> c \<and> c \<le> 57 then ([], 149)
          else ([], 0))
        else if c > 70 then (if 97 \<le> c \<and> c \<le> 102 then ([], 149)
          else ([], 0))
        else ([], 149))
      else if cs = 225 then Some (if c < 65 then (if 48 \<le> c \<and> c \<le> 57 then ([], 226)
          else ([], 0))
        else if c > 70 then (if 97 \<le> c \<and> c \<le> 102 then ([], 226)
          else ([], 0))
        else ([], 226))
      else if cs = 226 then Some (if c = 46 then ([], 227)
        else if c < 65 then (if 48 \<le> c \<and> c \<le> 57 then ([], 226)
          else ([], 0))
        else if c > 70 then (if 97 \<le> c \<and> c \<le> 102 then ([], 226)
          else ([], 0))
        else ([], 226))
      else if cs = 227 then Some (if c \<in> {33, 36, 61, 95, 126} then ([], 228)
        else if c < 48 then (if 38 \<le> c \<and> c \<le> 46 then ([], 228)
          else ([], 0))
        else if c > 59 then (if c > 90 then (if 97 \<le> c \<and> c \<le> 122 then ([], 228)
            else ([], 0))
          else if c \<ge> 65 then ([], 228)
          else ([], 0))
        else ([], 228))
      else None)"

definition uri_states_228_491 :: "nat \<Rightarrow> int \<Rightarrow> uri_go option" where
  "uri_states_228_491 cs c =
     (if cs = 228 then Some (if c \<in> {33, 36, 61, 95, 126} then ([], 228)
        else if c = 93 then ([], 460)
        else if c < 48 then (if 38 \<le> c \<and> c \<le> 46 then ([], 228)
          else ([], 0))
        else if c > 59 then (if c > 90 then (if 97 \<le> c \<and> c \<le> 122 then ([], 228)
            else ([], 0))
          else if c \<ge> 65 then ([], 228)
          else ([], 0))
        else ([], 228))
      else if cs = 489 then Some (if c \<in> {33, 61, 95, 126} then ([], 33)
        else if c = 35 then ([USavePort], 453)
        else if c = 37 then ([], 34)
        else if c = 47 then ([USavePort], 455)
        else if c = 63 then ([USavePort], 456)
        else if c = 64 then ([USaveUserinfo], 469)
        else if c < 58 then (if c > 46 then (if 48 \<le> c \<and> c \<le> 57 then ([], 489)
            else ([], 0))
          else if c \<ge> 36 then ([], 33)
          else ([], 0))
        else if c > 59 then (if c > 90 then (if 97 \<le> c \<and> c \<le> 122 then ([], 33)
            else ([], 0))
          else if c \<ge> 65 then ([], 33)
          else ([], 0))
        else ([], 33))
      else if cs = 490 then Some (if c \<in> {33, 61, 95, 126} then ([], 467)
        else if c = 35 then ([USaveHost], 453)
        else if c = 37 then ([], 31)
        else if c = 46 then ([], 491)
        else if c = 47 then ([USaveHost], 455)
        else if c = 58 then ([USaveHost], 468)
        else if c = 63 then ([USaveHost], 456)
        else if c = 64 then ([USaveUserinfo], 469)
        else if c < 65 then (if 36 \<le> c \<and> c \<le> 59 then ([], 467)
          else ([], 0))
        else if c > 90 then (if 97 \<le> c \<and> c \<le> 122 then ([], 467)
          else ([], 0))
        else ([], 467))
      else if cs = 491 then Some (if c = 2 then ([], 13)
        else if c \<in> {33, 59, 61, 95, 126} then ([], 467)
        else if c = 35 then ([USaveHost], 453)
        else if c = 37 then ([], 31)
        else if c = 47 then ([USaveHost], 455)
        else if c = 48 then ([], 492)
        else if c = 49 then ([], 500)
        else if c = 50 then ([], 502)
        else if c = 58 then ([USaveHost], 468)
        else if c = 63 then ([USaveHost], 456)
        else if c = 64 then ([USaveUserinfo], 469)
        else if c < 51 then (if 36 \<le> c \<and> c \<le> 46 then ([], 467)
          else ([], 0))
        else if c > 57 then (if c > 90 then (if 97 \<le> c \<and> c \<le> 122 then ([], 467)
            else ([], 0))
          else if c \<ge> 65 then ([], 467)
          else ([], 0))
        else ([], 501))
      else None)"

definition uri_states_492_496 :: "nat \<Rightarrow> int \<Rightarrow> uri_go option" where
  "uri_states_492_496 cs c =
     (if cs = 492 then Some (if c \<in> {33, 61, 95, 126} then ([], 467)
        else if c = 35 then ([USaveHost], 453)
        else if c = 37 then ([], 31)
        else if c = 46 then ([], 493)
        else if c = 47 then ([USaveHost], 455)
        else if c = 58 then ([USaveHost], 468)
        else if c = 63 then ([USaveHost], 456)
        else if c = 64 then ([USaveUserinfo], 469)
        else if c < 65 then (if 36 \<le> c \<and> c \<le> 59 then ([], 467)
          else ([], 0))
        else if c > 90 then (if 97 \<le> c \<and> c \<le> 122 then ([], 467)
          else ([], 0))
        else ([], 467))
      else if cs = 493 then Some (if c = 2 then ([], 17)
        else if c \<in> {33, 59, 61, 95, 126} then ([], 467)
        else if c = 35 then ([USaveHost], 453)
        else if c = 37 then ([], 31)
        else if c = 47 then ([USaveHost], 455)
        else if c = 48 then ([], 494)
        else if c = 49 then ([], 496)
        else if c = 50 then ([], 498)
        else if c = 58 then ([USaveHost], 468)
        else if c = 63 then ([USaveHost], 456)
        else if c = 64 then ([USaveUserinfo], 469)
        else if c < 51 then (if 36 \<le> c \<and> c \<le> 46 then ([], 467)
          else ([], 0))
        else if c > 57 then (if c > 90 then (if 97 \<le> c \<and> c \<le> 122 then ([], 467)
            else ([], 0))
          else if c \<ge> 65 then ([], 467)
          else ([], 0))
        else ([], 497))
      else if cs = 494 then Some (if c \<in> {33, 61, 95, 126} then ([], 467)
        else if c = 35 then ([USaveHost], 453)
        else if c = 37 then ([], 31)
        else if c = 46 then ([], 495)
        else if c = 47 then ([USaveHost], 455)
        else if c = 58 then ([USaveHost], 468)
        else if c = 63 then ([USaveHost], 456)
        else if c = 64 then ([USaveUserinfo], 469)
        else if c < 65 then (if 36 \<le> c \<and> c \<le> 59 then ([], 467)
          else ([], 0))
        else if c > 90 then (if 97 \<le> c \<and> c \<le> 122 then ([], 467)
          else ([], 0))
        else ([], 467))
      else if cs = 495 then Some (if c = 2 then ([], 21)
        else if c \<in> {33, 61, 95, 126} then ([], 467)
        else if c = 35 then ([USaveHost], 453)
        else if c = 37 then ([], 31)
        else if c = 47 then ([USaveHost], 455)
        else if c = 58 then ([USaveHost], 468)
        else if c = 63 then ([USaveHost], 456)
        else if c = 64 then ([USaveUserinfo], 469)
        else if c < 65 then (if 36 \<le> c \<and> c \<le> 59 then ([], 467)
          else ([], 0))
        else if c > 90 then (if 97 \<le> c \<and> c \<le> 122 then ([], 467)
          else ([], 0))
        else ([], 467))
      else if cs = 496 then Some (if c \<in> {33, 59, 61, 95, 126} then ([], 467)
        else if c = 35 then ([USaveHost], 453)
        else if c = 37 then ([], 31)
        else if c = 46 then ([], 495)
        else if c = 47 then ([USaveHost], 455)
        else if c = 58 then ([USaveHost], 468)
        else if c = 63 then ([USaveHost], 456)
        else if c = 64 then ([USaveUserinfo], 469)
        else if c < 48 then (if 36 \<le> c \<and> c \<le> 45 then ([], 467)
          else ([], 0))
        else if c > 57 then (if c > 90 then (if 97 \<le> c \<and> c \<le> 122 then ([], 467)
            else ([], 0))
          else if c \<ge> 65 then ([], 467)
          else ([], 0))
        else ([], 497))
      else None)"

definition uri_states_497_500 :: "nat \<Rightarrow> int \<Rightarrow> uri_go option" where
  "uri_states_497_500 cs c =
     (if cs = 497 then Some (if c \<in> {33, 59, 61, 95, 126} then ([], 467)
        else if c = 35 then ([USaveHost], 453)
        else if c = 37 then ([], 31)
        else if c = 46 then ([], 495)
        else if c = 47 then ([USaveHost], 455)
        else if c = 58 then ([USaveHost], 468)
        else if c = 63 then ([USaveHost], 456)
        else if c = 64 then ([USaveUserinfo], 469)
        else if c < 48 then (if 36 \<le> c \<and> c \<le> 45 then ([], 467)
          else ([], 0))
        else if c > 57 then (if c > 90 then (if 97 \<le> c \<and> c \<le> 122 then ([], 467)
            else ([], 0))
          else if c \<ge> 65 then ([], 467)
          else ([], 0))
        else ([], 494))
      else if cs = 498 then Some (if c \<in> {33, 59, 61, 95, 126} then ([], 467)
        else if c = 35 then ([USaveHost], 453)
        else if c = 37 then ([], 31)
        else if c = 46 then ([], 495)
        else if c = 47 then ([USaveHost], 455)
        else if c = 53 then ([], 499)
        else if c = 58 then ([USaveHost], 468)
        else if c = 63 then ([USaveHost], 456)
        else if c = 64 then ([USaveUserinfo], 469)
        else if c < 48 then (if 36 \<le> c \<and> c \<le> 45 then ([], 467)
          else ([], 0))
        else if c > 57 then (if c > 90 then (if 97 \<le> c \<and> c \<le> 122 then ([], 467)
            else ([], 0))
          else if c \<ge> 65 then ([], 467)
          else ([], 0))
        else ([], 494))
      else if cs = 499 then Some (if c \<in> {33, 61, 95, 126} then ([], 467)
        else if c = 35 then ([USaveHost], 453)
        else if c = 37 then ([], 31)
        else if c = 46 then ([], 495)
        else if c = 47 then ([USaveHost], 455)
        else if c = 58 then ([USaveHost], 468)
        else if c = 63 then ([USaveHost], 456)
        else if c = 64 then ([USaveUserinfo], 469)
        else if c < 54 then (if c > 45 then (if 48 \<le> c \<and> c \<le> 53 then ([], 494)
            else ([], 0))
          else if c \<ge> 36 then ([], 467)
          else ([], 0))
        else if c > 59 then (if c > 90 then (if 97 \<le> c \<and> c \<le> 122 then ([], 467)
            else ([], 0))
          else if c \<ge> 65 then ([], 467)
          else ([], 0))
        else ([], 467))
      else if cs = 500 then Some (if c \<in> {33, 59, 61, 95, 126} then ([], 467)
        else if c = 35 then ([USaveHost], 453)
        else if c = 37 then ([], 31)
        else if c = 46 then ([], 493)
        else if c = 47 then ([USaveHost], 455)
        else if c = 58 then ([USaveHost], 468)
        else if c = 63 then ([USaveHost], 456)
        else if c = 64 then ([USaveUserinfo], 469)
        else if c < 48 then (if 36 \<le> c \<and> c \<le> 45 then ([], 467)
          else ([], 0))
        else if c > 57 then (if c > 90 then (if 97 \<le> c \<and> c \<le> 122 then ([], 467)
            else ([], 0))
          else if c \<ge> 65 then ([], 467)
          else ([], 0))
        else ([], 501))
      else None)"

definition uri_states_501_504 :: "nat \<Rightarrow> int \<Rightarrow> uri_go option" where
  "uri_states_501_504 cs c =
     (if cs = 501 then Some (if c \<in> {33, 59, 61, 95, 126} then ([], 467)
        else if c = 35 then ([USaveHost], 453)
        else if c = 37 then ([], 31)
        else if c = 46 then ([], 493)
        else if c = 47 then ([USaveHost], 455)
        else if c = 58 then ([USaveHost], 468)
        else if c = 63 then ([USaveHost], 456)
        else if c = 64 then ([USaveUserinfo], 469)
        else if c < 48 then (if 36 \<le> c \<and> c \<le> 45 then ([], 467)
          else ([], 0))
        else if c > 57 then (if c > 90 then (if 97 \<le> c \<and> c \<le> 122 then ([], 467)
            else ([], 0))
          else if c \<ge> 65 then ([], 467)
          else ([], 0))
        else ([], 492))
      else if cs = 502 then Some (if c \<in> {33, 59, 61, 95, 126} then ([], 467)
        else if c = 35 then ([USaveHost], 453)
        else if c = 37 then ([], 31)
        else if c = 46 then ([], 493)
        else if c = 47 then ([USaveHost], 455)
        else if c = 53 then ([], 503)
        else if c = 58 then ([USaveHost], 468)
        else if c = 63 then ([USaveHost], 456)
        else if c = 64 then ([USaveUserinfo], 469)
        else if c < 48 then (if 36 \<le> c \<and> c \<le> 45 then ([], 467)
          else ([], 0))
        else if c > 57 then (if c > 90 then (if 97 \<le> c \<and> c \<le> 122 then ([], 467)
            else ([], 0))
          else if c \<ge> 65 then ([], 467)
          else ([], 0))
        else ([], 492))
      else if cs = 503 then Some (if c \<in> {33, 61, 95, 126} then ([], 467)
        else if c = 35 then ([USaveHost], 453)
        else if c = 37 then ([], 31)
        else if c = 46 then ([], 493)
        else if c = 47 then ([USaveHost], 455)
        else if c = 58 then ([USaveHost], 468)
        else if c = 63 then ([USaveHost], 456)
        else if c = 64 then ([USaveUserinfo], 469)
        else if c < 54 then (if c > 45 then (if 48 \<le> c \<and> c \<le> 53 then ([], 492)
            else ([], 0))
          else if c \<ge> 36 then ([], 467)
          else ([], 0))
        else if c > 59 then (if c > 90 then (if 97 \<le> c \<and> c \<le> 122 then ([], 467)
            else ([], 0))
          else if c \<ge> 65 then ([], 467)
          else ([], 0))
        else ([], 467))
      else if cs = 504 then Some (if c \<in> {33, 59, 61, 95, 126} then ([], 467)
        else if c = 35 then ([USaveHost], 453)
        else if c = 37 then ([], 31)
        else if c = 46 then ([], 491)
        else if c = 47 then ([USaveHost], 455)
        else if c = 58 then ([USaveHost], 468)
        else if c = 63 then ([USaveHost], 456)
        else if c = 64 then ([USaveUserinfo], 469)
        else if c < 48 then (if 36 \<le> c \<and> c \<le> 45 then ([], 467)
          else ([], 0))
        else if c > 57 then (if c > 90 then (if 97 \<le> c \<and> c \<le> 122 then ([], 467)
            else ([], 0))
          else if c \<ge> 65 then ([], 467)
          else ([], 0))
        else ([], 505))
      else None)"

definition uri_states_505_508 :: "nat \<Rightarrow> int \<Rightarrow> uri_go option" where
  "uri_states_505_508 cs c =
     (if cs = 505 then Some (if c \<in> {33, 59, 61, 95, 126} then ([], 467)
        else if c = 35 then ([USaveHost], 453)
        else if c = 37 then ([], 31)
        else if c = 46 then ([], 491)
        else if c = 47 then ([USaveHost], 455)
        else if c = 58 then ([USaveHost], 468)
        else if c = 63 then ([USaveHost], 456)
        else if c = 64 then ([USaveUserinfo], 469)
        else if c < 48 then (if 36 \<le> c \<and> c \<le> 45 then ([], 467)
          else ([], 0))
        else if c > 57 then (if c > 90 then (if 97 \<le> c \<and> c \<le> 122 then ([], 467)
            else ([], 0))
          else if c \<ge> 65 then ([], 467)
          else ([], 0))
        else ([], 490))
      else if cs = 506 then Some (if c \<in> {33, 59, 61, 95, 126} then ([], 467)
        else if c = 35 then ([USaveHost], 453)
        else if c = 37 then ([], 31)
        else if c = 46 then ([], 491)
        else if c = 47 then ([USaveHost], 455)
        else if c = 53 then ([], 507)
        else if c = 58 then ([USaveHost], 468)
        else if c = 63 then ([USaveHost], 456)
        else if c = 64 then ([USaveUserinfo], 469)
        else if c < 48 then (if 36 \<le> c \<and> c \<le> 45 then ([], 467)
          else ([], 0))
        else if c > 57 then (if c > 90 then (if 97 \<le> c \<and> c \<le> 122 then ([], 467)
            else ([], 0))
          else if c \<ge> 65 then ([], 467)
          else ([], 0))
        else ([], 490))
      else if cs = 507 then Some (if c \<in> {33, 61, 95, 126} then ([], 467)
        else if c = 35 then ([USaveHost], 453)
        else if c = 37 then ([], 31)
        else if c = 46 then ([], 491)
        else if c = 47 then ([USaveHost], 455)
        else if c = 58 then ([USaveHost], 468)
        else if c = 63 then ([USaveHost], 456)
        else if c = 64 then ([USaveUserinfo], 469)
        else if c < 54 then (if c > 45 then (if 48 \<le> c \<and> c \<le> 53 then ([], 490)
            else ([], 0))
          else if c \<ge> 36 then ([], 467)
          else ([], 0))
        else if c > 59 then (if c > 90 then (if 97 \<le> c \<and> c \<le> 122 then ([], 467)
            else ([], 0))
          else if c \<ge> 65 then ([], 467)
          else ([], 0))
        else ([], 467))
      else if cs = 508 then Some (if c \<in> {34, 60, 62, 96, 127} then ([], 0)
        else if c = 35 then ([], 453)
        else if c = 37 then ([], 3)
        else if c = 43 then ([], 508)
        else if c = 47 then ([], 455)
        else if c = 58 then ([USaveScheme], 509)
        else if c = 63 then ([], 456)
        else if c < 65 then (if c > 32 then (if 45 \<le> c \<and> c \<le> 57 then ([], 508)
            else ([], 452))
          else if c \<ge> 0 then ([], 0)
          else ([], 452))
        else if c > 90 then (if c < 97 then (if 91 \<le> c \<and> c \<le> 94 then ([], 0)
            else ([], 452))
          else if c > 122 then (if 123 \<le> c \<and> c \<le> 125 then ([], 0)
            else ([], 452))
          else ([], 508))
        else ([], 508))
      else None)"

definition uri_states_509_234 :: "nat \<Rightarrow> int \<Rightarrow> uri_go option" where
  "uri_states_509_234 cs c =
     (if cs = 509 then Some (if c \<in> {34, 60, 62, 96, 127} then ([], 0)
        else if c = 35 then ([], 453)
        else if c = 37 then ([], 5)
        else if c = 47 then ([], 510)
        else if c = 63 then ([], 456)
        else if c < 91 then (if 0 \<le> c \<and> c \<le> 32 then ([], 0)
          else ([], 455))
        else if c > 94 then (if 123 \<le> c \<and> c \<le> 125 then ([], 0)
          else ([], 455))
        else ([], 0))
      else if cs = 510 then Some (if c \<in> {34, 60, 62, 96, 127} then ([], 0)
        else if c = 35 then ([], 453)
        else if c = 37 then ([], 5)
        else if c = 47 then ([], 511)
        else if c = 63 then ([], 456)
        else if c < 91 then (if 0 \<le> c \<and> c \<le> 32 then ([], 0)
          else ([], 455))
        else if c > 94 then (if 123 \<le> c \<and> c \<le> 125 then ([], 0)
          else ([], 455))
        else ([], 0))
      else if cs = 511 then Some (if c = 2 then ([UMark], 229)
        else if c \<in> {33, 59, 61, 95, 126} then ([UMark], 520)
        else if c = 35 then ([UMark, USaveHost, USavePath], 453)
        else if c = 37 then ([UMark], 253)
        else if c = 47 then ([UMark, USaveHost], 513)
        else if c = 48 then ([UMark], 543)
        else if c = 49 then ([UMark], 557)
        else if c = 50 then ([UMark], 559)
        else if c = 58 then ([UMark, USaveHost], 521)
        else if c = 63 then ([UMark, USaveHost, USavePath], 456)
        else if c = 64 then ([UMark, USaveUserinfo], 522)
        else if c = 91 then ([UMark], 260)
        else if c < 51 then (if 36 \<le> c \<and> c \<le> 46 then ([UMark], 520)
          else ([], 0))
        else if c > 57 then (if c > 90 then (if 97 \<le> c \<and> c \<le> 122 then ([UMark], 520)
            else ([], 0))
          else if c \<ge> 65 then ([UMark], 520)
          else ([], 0))
        else ([UMark], 558))
      else if cs = 229 then Some (if 48 \<le> c \<and> c \<le> 52 then ([], 230)
        else ([], 0))
      else if cs = 230 then Some (if 48 \<le> c \<and> c \<le> 57 then ([], 231)
        else ([], 0))
      else if cs = 231 then Some (if c = 46 then ([], 232)
        else ([], 0))
      else if cs = 232 then Some (if c = 2 then ([], 233)
        else if c = 48 then ([], 235)
        else if c = 49 then ([], 249)
        else if c = 50 then ([], 251)
        else if 51 \<le> c \<and> c \<le> 57 then ([], 250)
        else ([], 0))
      else if cs = 233 then Some (if 48 \<le> c \<and> c \<le> 52 then ([], 234)
        else ([], 0))
      else if cs = 234 then Some (if 48 \<le> c \<and> c \<le> 57 then ([], 235)
        else ([], 0))
      else None)"

definition uri_states_235_513 :: "nat \<Rightarrow> int \<Rightarrow> uri_go option" where
  "uri_states_235_513 cs c =
     (if cs = 235 then Some (if c = 46 then ([], 236)
        else ([], 0))
      else if cs = 236 then Some (if c = 2 then ([], 237)
        else if c = 48 then ([], 239)
        else if c = 49 then ([], 245)
        else if c = 50 then ([], 247)
        else if 51 \<le> c \<and> c \<le> 57 then ([], 246)
        else ([], 0))
      else if cs = 237 then Some (if 48 \<le> c \<and> c \<le> 52 then ([], 238)
        else ([], 0))
      else if cs = 238 then Some (if 48 \<le> c \<and> c \<le> 57 then ([], 239)
        else ([], 0))
      else if cs = 239 then Some (if c = 46 then ([], 240)
        else ([], 0))
      else if cs = 240 then Some (if c = 2 then ([], 241)
        else if c = 48 then ([], 512)
        else if c = 49 then ([], 516)
        else if c = 50 then ([], 518)
        else if 51 \<le> c \<and> c \<le> 57 then ([], 517)
        else ([], 0))
      else if cs = 241 then Some (if 48 \<le> c \<and> c \<le> 52 then ([], 242)
        else ([], 0))
      else if cs = 242 then Some (if 48 \<le> c \<and> c \<le> 57 then ([], 512)
        else ([], 0))
      else if cs = 512 then Some (if c = 35 then ([USaveHost, UMark, USavePath], 453)
        else if c = 47 then ([USaveHost, UMark], 513)
        else if c = 58 then ([USaveHost], 514)
        else if c = 63 then ([USaveHost, UMark, USavePath], 456)
        else ([], 0))
      else if cs = 513 then Some (if c \<in> {34, 60, 62, 96, 127} then ([], 0)
        else if c = 35 then ([USavePath], 453)
        else if c = 37 then ([], 243)
        else if c = 63 then ([USavePath], 456)
        else if c < 91 then (if 0 \<le> c \<and> c \<le> 32 then ([], 0)
          else ([], 513))
        else if c > 94 then (if 123 \<le> c \<and> c \<le> 125 then ([], 0)
          else ([], 513))
        else ([], 0))
      else None)"

definition uri_states_243_246 :: "nat \<Rightarrow> int \<Rightarrow> uri_go option" where
  "uri_states_243_246 cs c =
     (if cs = 243 then Some (if c < 65 then (if 48 \<le> c \<and> c \<le> 57 then ([], 244)
          else ([], 0))
        else if c > 70 then (if 97 \<le> c \<and> c \<le> 102 then ([], 244)
          else ([], 0))
        else ([], 244))
      else if cs = 244 then Some (if c < 65 then (if 48 \<le> c \<and> c \<le> 57 then ([], 513)
          else ([], 0))
        else if c > 70 then (if 97 \<le> c \<and> c \<le> 102 then ([], 513)
          else ([], 0))
        else ([], 513))
      else if cs = 514 then Some (if c = 35 then ([UMark, USavePort, USavePath], 453)
        else if c = 47 then ([UMark, USavePort], 513)
        else if c = 63 then ([UMark, USavePort, USavePath], 456)
        else if 48 \<le> c \<and> c \<le> 57 then ([UMark], 515)
        else ([], 0))
      else if cs = 515 then Some (if c = 35 then ([USavePort, UMark, USavePath], 453)
        else if c = 47 then ([USavePort, UMark], 513)
        else if c = 63 then ([USavePort, UMark, USavePath], 456)
        else if 48 \<le> c \<and> c \<le> 57 then ([], 515)
        else ([], 0))
      else if cs = 516 then Some (if c = 35 then ([USaveHost, UMark, USavePath], 453)
        else if c = 47 then ([USaveHost, UMark], 513)
        else if c = 58 then ([USaveHost], 514)
        else if c = 63 then ([USaveHost, UMark, USavePath], 456)
        else if 48 \<le> c \<and> c \<le> 57 then ([], 517)
        else ([], 0))
      else if cs = 517 then Some (if c = 35 then ([USaveHost, UMark, USavePath], 453)
        else if c = 47 then ([USaveHost, UMark], 513)
        else if c = 58 then ([USaveHost], 514)
        else if c = 63 then ([USaveHost, UMark, USavePath], 456)
        else if 48 \<le> c \<and> c \<le> 57 then ([], 512)
        else ([], 0))
      else if cs = 518 then Some (if c = 35 then ([USaveHost, UMark, USavePath], 453)
        else if c = 47 then ([USaveHost, UMark], 513)
        else if c = 53 then ([], 519)
        else if c = 58 then ([USaveHost], 514)
        else if c = 63 then ([USaveHost, UMark, USavePath], 456)
        else if 48 \<le> c \<and> c \<le> 57 then ([], 512)
        else ([], 0))
      else if cs = 519 then Some (if c = 35 then ([USaveHost, UMark, USavePath], 453)
        else if c = 47 then ([USaveHost, UMark], 513)
        else if c = 58 then ([USaveHost], 514)
        else if c = 63 then ([USaveHost, UMark, USavePath], 456)
        else if 48 \<le> c \<and> c \<le> 53 then ([], 512)
        else ([], 0))
      else if cs = 245 then Some (if c = 46 then ([], 240)
        else if 48 \<le> c \<and> c \<le> 57 then ([], 246)
        else ([], 0))
      else if cs = 246 then Some (if c = 46 then ([], 240)
        else if 48 \<le> c \<and> c \<le> 57 then ([], 239)
        else ([], 0))
      else None)"

definition uri_states_247_254 :: "nat \<Rightarrow> int \<Rightarrow> uri_go option" where
  "uri_states_247_254 cs c =
     (if cs = 247 then Some (if c = 46 then ([], 240)
        else if c = 53 then ([], 248)
        else if 48 \<le> c \<and> c \<le> 57 then ([], 239)
        else ([], 0))
      else if cs = 248 then Some (if c = 46 then ([], 240)
        else if 48 \<le> c \<and> c \<le> 53 then ([], 239)
        else ([], 0))
      else if cs = 249 then Some (if c = 46 then ([], 236)
        else if 48 \<le> c \<and> c \<le> 57 then ([], 250)
        else ([], 0))
      else if cs = 250 then Some (if c = 46 then ([], 236)
        else if 48 \<le> c \<and> c \<le> 57 then ([], 235)
        else ([], 0))
      else if cs = 251 then Some (if c = 46 then ([], 236)
        else if c = 53 then ([], 252)
        else if 48 \<le> c \<and> c \<le> 57 then ([], 235)
        else ([], 0))
      else if cs = 252 then Some (if c = 46 then ([], 236)
        else if 48 \<le> c \<and> c \<le> 53 then ([], 235)
        else ([], 0))
      else if cs = 520 then Some (if c \<in> {33, 61, 95, 126} then ([], 520)
        else if c = 35 then ([USaveHost, UMark, USavePath], 453)
        else if c = 37 then ([], 253)
        else if c = 47 then ([USaveHost, UMark], 513)
        else if c = 58 then ([USaveHost], 521)
        else if c = 63 then ([USaveHost, UMark, USavePath], 456)
        else if c = 64 then ([USaveUserinfo], 522)
        else if c < 65 then (if 36 \<le> c \<and> c \<le> 59 then ([], 520)
          else ([], 0))
        else if c > 90 then (if 97 \<le> c \<and> c \<le> 122 then ([], 520)
          else ([], 0))
        else ([], 520))
      else if cs = 253 then Some (if c < 65 then (if 48 \<le> c \<and> c \<le> 57 then ([], 254)
          else ([], 0))
        else if c > 70 then (if 97 \<le> c \<and> c \<le> 102 then ([], 254)
          else ([], 0))
        else ([], 254))
      else if cs = 254 then Some (if c < 65 then (if 48 \<le> c \<and> c \<le> 57 then ([], 520)
          else ([], 0))
        else if c > 70 then (if 97 \<le> c \<and> c \<le> 102 then ([], 520)
          else ([], 0))
        else ([], 520))
      else None)"

definition uri_states_521_257 :: "nat \<Rightarrow> int \<Rightarrow> uri_go option" where
  "uri_states_521_257 cs c =
     (if cs = 521 then Some (if c \<in> {33, 61, 95, 126} then ([], 255)
        else if c = 35 then ([UMark, USavePort, USavePath], 453)
        else if c = 37 then ([], 256)
        else if c = 47 then ([UMark, USavePort], 513)
        else if c = 63 then ([UMark, USavePort, USavePath], 456)
        else if c = 64 then ([USaveUserinfo], 522)
        else if c < 58 then (if c > 46 then (if 48 \<le> c \<and> c \<le> 57 then ([UMark], 542)
            else ([], 0))
          else if c \<ge> 36 then ([], 255)
          else ([], 0))
        else if c > 59 then (if c > 90 then (if 97 \<le> c \<and> c \<le> 122 then ([], 255)
            else ([], 0))
          else if c \<ge> 65 then ([], 255)
          else ([], 0))
        else ([], 255))
      else if cs = 255 then Some (if c \<in> {33, 61, 95, 126} then ([], 255)
        else if c = 37 then ([], 256)
        else if c = 64 then ([USaveUserinfo], 522)
        else if c < 48 then (if 36 \<le> c \<and> c \<le> 46 then ([], 255)
          else ([], 0))
        else if c > 59 then (if c > 90 then (if 97 \<le> c \<and> c \<le> 122 then ([], 255)
            else ([], 0))
          else if c \<ge> 65 then ([], 255)
          else ([], 0))
        else ([], 255))
      else if cs = 256 then Some (if c < 65 then (if 48 \<le> c \<and> c \<le> 57 then ([], 257)
          else ([], 0))
        else if c > 70 then (if 97 \<le> c \<and> c \<le> 102 then ([], 257)
          else ([], 0))
        else ([], 257))
      else if cs = 257 then Some (if c < 65 then (if 48 \<le> c \<and> c \<le> 57 then ([], 255)
          else ([], 0))
        else if c > 70 then (if 97 \<le> c \<and> c \<le> 102 then ([], 255)
          else ([], 0))
        else ([], 255))
      else None)"

definition uri_states_522_524 :: "nat \<Rightarrow> int \<Rightarrow> uri_go option" where
  "uri_states_522_524 cs c =
     (if cs = 522 then Some (if c = 2 then ([UMark], 229)
        else if c \<in> {33, 59, 61, 95, 126} then ([UMark], 523)
        else if c = 35 then ([UMark, USaveHost, USavePath], 453)
        else if c = 37 then ([UMark], 258)
        else if c = 47 then ([UMark, USaveHost], 513)
        else if c = 48 then ([UMark], 524)
        else if c = 49 then ([UMark], 538)
        else if c = 50 then ([UMark], 540)
        else if c = 58 then ([UMark, USaveHost], 514)
        else if c = 63 then ([UMark, USaveHost, USavePath], 456)
        else if c = 91 then ([UMark], 260)
        else if c < 51 then (if 36 \<le> c \<and> c \<le> 46 then ([UMark], 523)
          else ([], 0))
        else if c > 57 then (if c > 90 then (if 97 \<le> c \<and> c \<le> 122 then ([UMark], 523)
            else ([], 0))
          else if c \<ge> 65 then ([UMark], 523)
          else ([], 0))
        else ([UMark], 539))
      else if cs = 523 then Some (if c \<in> {33, 61, 95, 126} then ([], 523)
        else if c = 35 then ([USaveHost, UMark, USavePath], 453)
        else if c = 37 then ([], 258)
        else if c = 47 then ([USaveHost, UMark], 513)
        else if c = 58 then ([USaveHost], 514)
        else if c = 63 then ([USaveHost, UMark, USavePath], 456)
        else if c < 65 then (if 36 \<le> c \<and> c \<le> 59 then ([], 523)
          else ([], 0))
        else if c > 90 then (if 97 \<le> c \<and> c \<le> 122 then ([], 523)
          else ([], 0))
        else ([], 523))
      else if cs = 258 then Some (if c < 65 then (if 48 \<le> c \<and> c \<le> 57 then ([], 259)
          else ([], 0))
        else if c > 70 then (if 97 \<le> c \<and> c \<le> 102 then ([], 259)
          else ([], 0))
        else ([], 259))
      else if cs = 259 then Some (if c < 65 then (if 48 \<le> c \<and> c \<le> 57 then ([], 523)
          else ([], 0))
        else if c > 70 then (if 97 \<le> c \<and> c \<le> 102 then ([], 523)
          else ([], 0))
        else ([], 523))
      else if cs = 524 then Some (if c \<in> {33, 61, 95, 126} then ([], 523)
        else if c = 35 then ([USaveHost, UMark, USavePath], 453)
        else if c = 37 then ([], 258)
        else if c = 46 then ([], 525)
        else if c = 47 then ([USaveHost, UMark], 513)
        else if c = 58 then ([USaveHost], 514)
        else if c = 63 then ([USaveHost, UMark, USavePath], 456)
        else if c < 65 then (if 36 \<le> c \<and> c \<le> 59 then ([], 523)
          else ([], 0))
        else if c > 90 then (if 97 \<le> c \<and> c \<le> 122 then ([], 523)
          else ([], 0))
        else ([], 523))
      else None)"

definition uri_states_525_529 :: "nat \<Rightarrow> int \<Rightarrow> uri_go option" where
  "uri_states_525_529 cs c =
     (if cs = 525 then Some (if c = 2 then ([], 233)
        else if c \<in> {33, 59, 61, 95, 126} then ([], 523)
        else if c = 35 then ([USaveHost, UMark, USavePath], 453)
        else if c = 37 then ([], 258)
        else if c = 47 then ([USaveHost, UMark], 513)
        else if c = 48 then ([], 526)
        else if c = 49 then ([], 534)
        else if c = 50 then ([], 536)
        else if c = 58 then ([USaveHost], 514)
        else if c = 63 then ([USaveHost, UMark, USavePath], 456)
        else if c < 51 then (if 36 \<le> c \<and> c \<le> 46 then ([], 523)
          else ([], 0))
        else if c > 57 then (if c > 90 then (if 97 \<le> c \<and> c \<le> 122 then ([], 523)
            else ([], 0))
          else if c \<ge> 65 then ([], 523)
          else ([], 0))
        else ([], 535))
      else if cs = 526 then Some (if c \<in> {33, 61, 95, 126} then ([], 523)
        else if c = 35 then ([USaveHost, UMark, USavePath], 453)
        else if c = 37 then ([], 258)
        else if c = 46 then ([], 527)
        else if c = 47 then ([USaveHost, UMark], 513)
        else if c = 58 then ([USaveHost], 514)
        else if c = 63 then ([USaveHost, UMark, USavePath], 456)
        else if c < 65 then (if 36 \<le> c \<and> c \<le> 59 then ([], 523)
          else ([], 0))
        else if c > 90 then (if 97 \<le> c \<and> c \<le> 122 then ([], 523)
          else ([], 0))
        else ([], 523))
      else if cs = 527 then Some (if c = 2 then ([], 237)
        else if c \<in> {33, 59, 61, 95, 126} then ([], 523)
        else if c = 35 then ([USaveHost, UMark, USavePath], 453)
        else if c = 37 then ([], 258)
        else if c = 47 then ([USaveHost, UMark], 513)
        else if c = 48 then ([], 528)
        else if c = 49 then ([], 530)
        else if c = 50 then ([], 532)
        else if c = 58 then ([USaveHost], 514)
        else if c = 63 then ([USaveHost, UMark, USavePath], 456)
        else if c < 51 then (if 36 \<le> c \<and> c \<le> 46 then ([], 523)
          else ([], 0))
        else if c > 57 then (if c > 90 then (if 97 \<le> c \<and> c \<le> 122 then ([], 523)
            else ([], 0))
          else if c \<ge> 65 then ([], 523)
          else ([], 0))
        else ([], 531))
      else if cs = 528 then Some (if c \<in> {33, 61, 95, 126} then ([], 523)
        else if c = 35 then ([USaveHost, UMark, USavePath], 453)
        else if c = 37 then ([], 258)
        else if c = 46 then ([], 529)
        else if c = 47 then ([USaveHost, UMark], 513)
        else if c = 58 then ([USaveHost], 514)
        else if c = 63 then ([USaveHost, UMark, USavePath], 456)
        else if c < 65 then (if 36 \<le> c \<and> c \<le> 59 then ([], 523)
          else ([], 0))
        else if c > 90 then (if 97 \<le> c \<and> c \<le> 122 then ([], 523)
          else ([], 0))
        else ([], 523))
      else if cs = 529 then Some (if c = 2 then ([], 241)
        else if c \<in> {33, 61, 95, 126} then ([], 523)
        else if c = 35 then ([USaveHost, UMark, USavePath], 453)
        else if c = 37 then ([], 258)
        else if c = 47 then ([USaveHost, UMark], 513)
        else if c = 58 then ([USaveHost], 514)
        else if c = 63 then ([USaveHost, UMark, USavePath], 456)
        else if c < 65 then (if 36 \<le> c \<and> c \<le> 59 then ([], 523)
          else ([], 0))
        else if c > 90 then (if 97 \<le> c \<and> c \<le> 122 then ([], 523)
          else ([], 0))
        else ([], 523))
      else None)"

definition uri_states_530_534 :: "nat \<Rightarrow> int \<Rightarrow> uri_go option" where
  "uri_states_530_534 cs c =
     (if cs = 530 then Some (if c \<in> {33, 59, 61, 95, 126} then ([], 523)
        else if c = 35 then ([USaveHost, UMark, USavePath], 453)
        else if c = 37 then ([], 258)
        else if c = 46 then ([], 529)
        else if c = 47 then ([USaveHost, UMark], 513)
        else if c = 58 then ([USaveHost], 514)
        else if c = 63 then ([USaveHost, UMark, USavePath], 456)
        else if c < 48 then (if 36 \<le> c \<and> c \<le> 45 then ([], 523)
          else ([], 0))
        else if c > 57 then (if c > 90 then (if 97 \<le> c \<and> c \<le> 122 then ([], 523)
            else ([], 0))
          else if c \<ge> 65 then ([], 523)
          else ([], 0))
        else ([], 531))
      else if cs = 531 then Some (if c \<in> {33, 59, 61, 95, 126} then ([], 523)
        else if c = 35 then ([USaveHost, UMark, USavePath], 453)
        else if c = 37 then ([], 258)
        else if c = 46 then ([], 529)
        else if c = 47 then ([USaveHost, UMark], 513)
        else if c = 58 then ([USaveHost], 514)
        else if c = 63 then ([USaveHost, UMark, USavePath], 456)
        else if c < 48 then (if 36 \<le> c \<and> c \<le> 45 then ([], 523)
          else ([], 0))
        else if c > 57 then (if c > 90 then (if 97 \<le> c \<and> c \<le> 122 then ([], 523)
            else ([], 0))
          else if c \<ge> 65 then ([], 523)
          else ([], 0))
        else ([], 528))
      else if cs = 532 then Some (if c \<in> {33, 59, 61, 95, 126} then ([], 523)
        else if c = 35 then ([USaveHost, UMark, USavePath], 453)
        else if c = 37 then ([], 258)
        else if c = 46 then ([], 529)
        else if c = 47 then ([USaveHost, UMark], 513)
        else if c = 53 then ([], 533)
        else if c = 58 then ([USaveHost], 514)
        else if c = 63 then ([USaveHost, UMark, USavePath], 456)
        else if c < 48 then (if 36 \<le> c \<and> c \<le> 45 then ([], 523)
          else ([], 0))
        else if c > 57 then (if c > 90 then (if 97 \<le> c \<and> c \<le> 122 then ([], 523)
            else ([], 0))
          else if c \<ge> 65 then ([], 523)
          else ([], 0))
        else ([], 528))
      else if cs = 533 then Some (if c \<in> {33, 61, 95, 126} then ([], 523)
        else if c = 35 then ([USaveHost, UMark, USavePath], 453)
        else if c = 37 then ([], 258)
        else if c = 46 then ([], 529)
        else if c = 47 then ([USaveHost, UMark], 513)
        else if c = 58 then ([USaveHost], 514)
        else if c = 63 then ([USaveHost, UMark, USavePath], 456)
        else if c < 54 then (if c > 45 then (if 48 \<le> c \<and> c \<le> 53 then ([], 528)
            else ([], 0))
          else if c \<ge> 36 then ([], 523)
          else ([], 0))
        else if c > 59 then (if c > 90 then (if 97 \<le> c \<and> c \<le> 122 then ([], 523)
            else ([], 0))
          else if c \<ge> 65 then ([], 523)
          else ([], 0))
        else ([], 523))
      else if cs = 534 then Some (if c \<in> {33, 59, 61, 95, 126} then ([], 523)
        else if c = 35 then ([USaveHost, UMark, USavePath], 453)
        else if c = 37 then ([], 258)
        else if c = 46 then ([], 527)
        else if c = 47 then ([USaveHost, UMark], 513)
        else if c = 58 then ([USaveHost], 514)
        else if c = 63 then ([USaveHost, UMark, USavePath], 456)
        else if c < 48 then (if 36 \<le> c \<and> c \<le> 45 then ([], 523)
          else ([], 0))
        else if c > 57 then (if c > 90 then (if 97 \<le> c \<and> c \<le> 122 then ([], 523)
            else ([], 0))
          else if c \<ge> 65 then ([], 523)
          else ([], 0))
        else ([], 535))
      else None)"

definition uri_states_535_538 :: "nat \<Rightarrow> int \<Rightarrow> uri_go option" where
  "uri_states_535_538 cs c =
     (if cs = 535 then Some (if c \<in> {33, 59, 61, 95, 126} then ([], 523)
        else if c = 35 then ([USaveHost, UMark, USavePath], 453)
        else if c = 37 then ([], 258)
        else if c = 46 then ([], 527)
        else if c = 47 then ([USaveHost, UMark], 513)
        else if c = 58 then ([USaveHost], 514)
        else if c = 63 then ([USaveHost, UMark, USavePath], 456)
        else if c < 48 then (if 36 \<le> c \<and> c \<le> 45 then ([], 523)
          else ([], 0))
        else if c > 57 then (if c > 90 then (if 97 \<le> c \<and> c \<le> 122 then ([], 523)
            else ([], 0))
          else if c \<ge> 65 then ([], 523)
          else ([], 0))
        else ([], 526))
      else if cs = 536 then Some (if c \<in> {33, 59, 61, 95, 126} then ([], 523)
        else if c = 35 then ([USaveHost, UMark, USavePath], 453)
        else if c = 37 then ([], 258)
        else if c = 46 then ([], 527)
        else if c = 47 then ([USaveHost, UMark], 513)
        else if c = 53 then ([], 537)
        else if c = 58 then ([USaveHost], 514)
        else if c = 63 then ([USaveHost, UMark, USavePath], 456)
        else if c < 48 then (if 36 \<le> c \<and> c \<le> 45 then ([], 523)
          else ([], 0))
        else if c > 57 then (if c > 90 then (if 97 \<le> c \<and> c \<le> 122 then ([], 523)
            else ([], 0))
          else if c \<ge> 65 then ([], 523)
          else ([], 0))
        else ([], 526))
      else if cs = 537 then Some (if c \<in> {33, 61, 95, 126} then ([], 523)
        else if c = 35 then ([USaveHost, UMark, USavePath], 453)
        else if c = 37 then ([], 258)
        else if c = 46 then ([], 527)
        else if c = 47 then ([USaveHost, UMark], 513)
        else if c = 58 then ([USaveHost], 514)
        else if c = 63 then ([USaveHost, UMark, USavePath], 456)
        else if c < 54 then (if c > 45 then (if 48 \<le> c \<and> c \<le> 53 then ([], 526)
            else ([], 0))
          else if c \<ge> 36 then ([], 523)
          else ([], 0))
        else if c > 59 then (if c > 90 then (if 97 \<le> c \<and> c \<le> 122 then ([], 523)
            else ([], 0))
          else if c \<ge> 65 then ([], 523)
          else ([], 0))
        else ([], 523))
      else if cs = 538 then Some (if c \<in> {33, 59, 61, 95, 126} then ([], 523)
        else if c = 35 then ([USaveHost, UMark, USavePath], 453)
        else if c = 37 then ([], 258)
        else if c = 46 then ([], 525)
        else if c = 47 then ([USaveHost, UMark], 513)
        else if c = 58 then ([USaveHost], 514)
        else if c = 63 then ([USaveHost, UMark, USavePath], 456)
        else if c < 48 then (if 36 \<le> c \<and> c \<le> 45 then ([], 523)
          else ([], 0))
        else if c > 57 then (if c > 90 then (if 97 \<le> c \<and> c \<le> 122 then ([], 523)
            else ([], 0))
          else if c \<ge> 65 then ([], 523)
          else ([], 0))
        else ([], 539))
      else None)"

definition uri_states_539_261 :: "nat \<Rightarrow> int \<Rightarrow> uri_go option" where
  "uri_states_539_261 cs c =
     (if cs = 539 then Some (if c \<in> {33, 59, 61, 95, 126} then ([], 523)
        else if c = 35 then ([USaveHost, UMark, USavePath], 453)
        else if c = 37 then ([], 258)
        else if c = 46 then ([], 525)
        else if c = 47 then ([USaveHost, UMark], 513)
        else if c = 58 then ([USaveHost], 514)
        else if c = 63 then ([USaveHost, UMark, USavePath], 456)
        else if c < 48 then (if 36 \<le> c \<and> c \<le> 45 then ([], 523)
          else ([], 0))
        else if c > 57 then (if c > 90 then (if 97 \<le> c \<and> c \<le> 122 then ([], 523)
            else ([], 0))
          else if c \<ge> 65 then ([], 523)
          else ([], 0))
        else ([], 524))
      else if cs = 540 then Some (if c \<in> {33, 59, 61, 95, 126} then ([], 523)
        else if c = 35 then ([USaveHost, UMark, USavePath], 453)
        else if c = 37 then ([], 258)
        else if c = 46 then ([], 525)
        else if c = 47 then ([USaveHost, UMark], 513)
        else if c = 53 then ([], 541)
        else if c = 58 then ([USaveHost], 514)
        else if c = 63 then ([USaveHost, UMark, USavePath], 456)
        else if c < 48 then (if 36 \<le> c \<and> c \<le> 45 then ([], 523)
          else ([], 0))
        else if c > 57 then (if c > 90 then (if 97 \<le> c \<and> c \<le> 122 then ([], 523)
            else ([], 0))
          else if c \<ge> 65 then ([], 523)
          else ([], 0))
        else ([], 524))
      else if cs = 541 then Some (if c \<in> {33, 61, 95, 126} then ([], 523)
        else if c = 35 then ([USaveHost, UMark, USavePath], 453)
        else if c = 37 then ([], 258)
        else if c = 46 then ([], 525)
        else if c = 47 then ([USaveHost, UMark], 513)
        else if c = 58 then ([USaveHost], 514)
        else if c = 63 then ([USaveHost, UMark, USavePath], 456)
        else if c < 54 then (if c > 45 then (if 48 \<le> c \<and> c \<le> 53 then ([], 524)
            else ([], 0))
          else if c \<ge> 36 then ([], 523)
          else ([], 0))
        else if c > 59 then (if c > 90 then (if 97 \<le> c \<and> c \<le> 122 then ([], 523)
            else ([], 0))
          else if c \<ge> 65 then ([], 523)
          else ([], 0))
        else ([], 523))
      else if cs = 260 then Some (if c = 58 then ([], 368)
        else if c = 118 then ([], 447)
        else if c < 65 then (if 48 \<le> c \<and> c \<le> 57 then ([], 261)
          else ([], 0))
        else if c > 70 then (if 97 \<le> c \<and> c \<le> 102 then ([], 261)
          else ([], 0))
        else ([], 261))
      else if cs = 261 then Some (if c = 58 then ([], 265)
        else if c < 65 then (if 48 \<le> c \<and> c \<le> 57 then ([], 262)
          else ([], 0))
        else if c > 70 then (if 97 \<le> c \<and> c \<le> 102 then ([], 262)
          else ([], 0))
        else ([], 262))
      else None)"

definition uri_states_262_271 :: "nat \<Rightarrow> int \<Rightarrow> uri_go option" where
  "uri_states_262_271 cs c =
     (if cs = 262 then Some (if c = 58 then ([], 265)
        else if c < 65 then (if 48 \<le> c \<and> c \<le> 57 then ([], 263)
          else ([], 0))
        else if c > 70 then (if 97 \<le> c \<and> c \<le> 102 then ([], 263)
          else ([], 0))
        else ([], 263))
      else if cs = 263 then Some (if c = 58 then ([], 265)
        else if c < 65 then (if 48 \<le> c \<and> c \<le> 57 then ([], 264)
          else ([], 0))
        else if c > 70 then (if 97 \<le> c \<and> c \<le> 102 then ([], 264)
          else ([], 0))
        else ([], 264))
      else if cs = 264 then Some (if c = 58 then ([], 265)
        else ([], 0))
      else if cs = 265 then Some (if c = 58 then ([], 363)
        else if c < 65 then (if 48 \<le> c \<and> c \<le> 57 then ([], 266)
          else ([], 0))
        else if c > 70 then (if 97 \<le> c \<and> c \<le> 102 then ([], 266)
          else ([], 0))
        else ([], 266))
      else if cs = 266 then Some (if c = 58 then ([], 270)
        else if c < 65 then (if 48 \<le> c \<and> c \<le> 57 then ([], 267)
          else ([], 0))
        else if c > 70 then (if 97 \<le> c \<and> c \<le> 102 then ([], 267)
          else ([], 0))
        else ([], 267))
      else if cs = 267 then Some (if c = 58 then ([], 270)
        else if c < 65 then (if 48 \<le> c \<and> c \<le> 57 then ([], 268)
          else ([], 0))
        else if c > 70 then (if 97 \<le> c \<and> c \<le> 102 then ([], 268)
          else ([], 0))
        else ([], 268))
      else if cs = 268 then Some (if c = 58 then ([], 270)
        else if c < 65 then (if 48 \<le> c \<and> c \<le> 57 then ([], 269)
          else ([], 0))
        else if c > 70 then (if 97 \<le> c \<and> c \<le> 102 then ([], 269)
          else ([], 0))
        else ([], 269))
      else if cs = 269 then Some (if c = 58 then ([], 270)
        else ([], 0))
      else if cs = 270 then Some (if c = 58 then ([], 358)
        else if c < 65 then (if 48 \<le> c \<and> c \<le> 57 then ([], 271)
          else ([], 0))
        else if c > 70 then (if 97 \<le> c \<and> c \<le> 102 then ([], 271)
          else ([], 0))
        else ([], 271))
      else if cs = 271 then Some (if c = 58 then ([], 275)
        else if c < 65 then (if 48 \<le> c \<and> c \<le> 57 then ([], 272)
          else ([], 0))
        else if c > 70 then (if 97 \<le> c \<and> c \<le> 102 then ([], 272)
          else ([], 0))
        else ([], 272))
      else None)"

definition uri_states_272_281 :: "nat \<Rightarrow> int \<Rightarrow> uri_go option" where
  "uri_states_272_281 cs c =
     (if cs = 272 then Some (if c = 58 then ([], 275)
        else if c < 65 then (if 48 \<le> c \<and> c \<le> 57 then ([], 273)
          else ([], 0))
        else if c > 70 then (if 97 \<le> c \<and> c \<le> 102 then ([], 273)
          else ([], 0))
        else ([], 273))
      else if cs = 273 then Some (if c = 58 then ([], 275)
        else if c < 65 then (if 48 \<le> c \<and> c \<le> 57 then ([], 274)
          else ([], 0))
        else if c > 70 then (if 97 \<le> c \<and> c \<le> 102 then ([], 274)
          else ([], 0))
        else ([], 274))
      else if cs = 274 then Some (if c = 58 then ([], 275)
        else ([], 0))
      else if cs = 275 then Some (if c = 58 then ([], 353)
        else if c < 65 then (if 48 \<le> c \<and> c \<le> 57 then ([], 276)
          else ([], 0))
        else if c > 70 then (if 97 \<le> c \<and> c \<le> 102 then ([], 276)
          else ([], 0))
        else ([], 276))
      else if cs = 276 then Some (if c = 58 then ([], 280)
        else if c < 65 then (if 48 \<le> c \<and> c \<le> 57 then ([], 277)
          else ([], 0))
        else if c > 70 then (if 97 \<le> c \<and> c \<le> 102 then ([], 277)
          else ([], 0))
        else ([], 277))
      else if cs = 277 then Some (if c = 58 then ([], 280)
        else if c < 65 then (if 48 \<le> c \<and> c \<le> 57 then ([], 278)
          else ([], 0))
        else if c > 70 then (if 97 \<le> c \<and> c \<le> 102 then ([], 278)
          else ([], 0))
        else ([], 278))
      else if cs = 278 then Some (if c = 58 then ([], 280)
        else if c < 65 then (if 48 \<le> c \<and> c \<le> 57 then ([], 279)
          else ([], 0))
        else if c > 70 then (if 97 \<le> c \<and> c \<le> 102 then ([], 279)
          else ([], 0))
        else ([], 279))
      else if cs = 279 then Some (if c = 58 then ([], 280)
        else ([], 0))
      else if cs = 280 then Some (if c = 58 then ([], 348)
        else if c < 65 then (if 48 \<le> c \<and> c \<le> 57 then ([], 281)
          else ([], 0))
        else if c > 70 then (if 97 \<le> c \<and> c \<le> 102 then ([], 281)
          else ([], 0))
        else ([], 281))
      else if cs = 281 then Some (if c = 58 then ([], 285)
        else if c < 65 then (if 48 \<le> c \<and> c \<le> 57 then ([], 282)
          else ([], 0))
        else if c > 70 then (if 97 \<le> c \<and> c \<le> 102 then ([], 282)
          else ([], 0))
        else ([], 282))
      else None)"

definition uri_states_282_293 :: "nat \<Rightarrow> int \<Rightarrow> uri_go option" where
  "uri_states_282_293 cs c =
     (if cs = 282 then Some (if c = 58 then ([], 285)
        else if c < 65 then (if 48 \<le> c \<and> c \<le> 57 then ([], 283)
          else ([], 0))
        else if c > 70 then (if 97 \<le> c \<and> c \<le> 102 then ([], 283)
          else ([], 0))
        else ([], 283))
      else if cs = 283 then Some (if c = 58 then ([], 285)
        else if c < 65 then (if 48 \<le> c \<and> c \<le> 57 then ([], 284)
          else ([], 0))
        else if c > 70 then (if 97 \<le> c \<and> c \<le> 102 then ([], 284)
          else ([], 0))
        else ([], 284))
      else if cs = 284 then Some (if c = 58 then ([], 285)
        else ([], 0))
      else if cs = 285 then Some (if c = 58 then ([], 335)
        else if c < 65 then (if 48 \<le> c \<and> c \<le> 57 then ([], 286)
          else ([], 0))
        else if c > 70 then (if 97 \<le> c \<and> c \<le> 102 then ([], 286)
          else ([], 0))
        else ([], 286))
      else if cs = 286 then Some (if c = 58 then ([], 290)
        else if c < 65 then (if 48 \<le> c \<and> c \<le> 57 then ([], 287)
          else ([], 0))
        else if c > 70 then (if 97 \<le> c \<and> c \<le> 102 then ([], 287)
          else ([], 0))
        else ([], 287))
      else if cs = 287 then Some (if c = 58 then ([], 290)
        else if c < 65 then (if 48 \<le> c \<and> c \<le> 57 then ([], 288)
          else ([], 0))
        else if c > 70 then (if 97 \<le> c \<and> c \<le> 102 then ([], 288)
          else ([], 0))
        else ([], 288))
      else if cs = 288 then Some (if c = 58 then ([], 290)
        else if c < 65 then (if 48 \<le> c \<and> c \<le> 57 then ([], 289)
          else ([], 0))
        else if c > 70 then (if 97 \<le> c \<and> c \<le> 102 then ([], 289)
          else ([], 0))
        else ([], 289))
      else if cs = 289 then Some (if c = 58 then ([], 290)
        else ([], 0))
      else if cs = 290 then Some (if c = 2 then ([], 291)
        else if c = 48 then ([], 318)
        else if c = 49 then ([], 326)
        else if c = 50 then ([], 329)
        else if c = 58 then ([], 333)
        else if c < 65 then (if 51 \<le> c \<and> c \<le> 57 then ([], 332)
          else ([], 0))
        else if c > 70 then (if 97 \<le> c \<and> c \<le> 102 then ([], 334)
          else ([], 0))
        else ([], 334))
      else if cs = 291 then Some (if 48 \<le> c \<and> c \<le> 52 then ([], 292)
        else ([], 0))
      else if cs = 292 then Some (if 48 \<le> c \<and> c \<le> 57 then ([], 293)
        else ([], 0))
      else if cs = 293 then Some (if c = 46 then ([], 294)
        else ([], 0))
      else None)"

definition uri_states_294_309 :: "nat \<Rightarrow> int \<Rightarrow> uri_go option" where
  "uri_states_294_309 cs c =
     (if cs = 294 then Some (if c = 2 then ([], 295)
        else if c = 48 then ([], 297)
        else if c = 49 then ([], 314)
        else if c = 50 then ([], 316)
        else if 51 \<le> c \<and> c \<le> 57 then ([], 315)
        else ([], 0))
      else if cs = 295 then Some (if 48 \<le> c \<and> c \<le> 52 then ([], 296)
        else ([], 0))
      else if cs = 296 then Some (if 48 \<le> c \<and> c \<le> 57 then ([], 297)
        else ([], 0))
      else if cs = 297 then Some (if c = 46 then ([], 298)
        else ([], 0))
      else if cs = 298 then Some (if c = 2 then ([], 299)
        else if c = 48 then ([], 301)
        else if c = 49 then ([], 310)
        else if c = 50 then ([], 312)
        else if 51 \<le> c \<and> c \<le> 57 then ([], 311)
        else ([], 0))
      else if cs = 299 then Some (if 48 \<le> c \<and> c \<le> 52 then ([], 300)
        else ([], 0))
      else if cs = 300 then Some (if 48 \<le> c \<and> c \<le> 57 then ([], 301)
        else ([], 0))
      else if cs = 301 then Some (if c = 46 then ([], 302)
        else ([], 0))
      else if cs = 302 then Some (if c = 2 then ([], 303)
        else if c = 48 then ([], 305)
        else if c = 49 then ([], 306)
        else if c = 50 then ([], 308)
        else if 51 \<le> c \<and> c \<le> 57 then ([], 307)
        else ([], 0))
      else if cs = 303 then Some (if 48 \<le> c \<and> c \<le> 52 then ([], 304)
        else ([], 0))
      else if cs = 304 then Some (if 48 \<le> c \<and> c \<le> 57 then ([], 305)
        else ([], 0))
      else if cs = 305 then Some (if c = 93 then ([], 512)
        else ([], 0))
      else if cs = 306 then Some (if c = 93 then ([], 512)
        else if 48 \<le> c \<and> c \<le> 57 then ([], 307)
        else ([], 0))
      else if cs = 307 then Some (if c = 93 then ([], 512)
        else if 48 \<le> c \<and> c \<le> 57 then ([], 305)
        else ([], 0))
      else if cs = 308 then Some (if c = 53 then ([], 309)
        else if c = 93 then ([], 512)
        else if 48 \<le> c \<and> c \<le> 57 then ([], 305)
        else ([], 0))
      else if cs = 309 then Some (if c = 93 then ([], 512)
        else if 48 \<le> c \<and> c \<le> 53 then ([], 305)
        else ([], 0))
      else None)"

definition uri_states_310_322 :: "nat \<Rightarrow> int \<Rightarrow> uri_go option" where
  "uri_states_310_322 cs c =
     (if cs = 310 then Some (if c = 46 then ([], 302)
        else if 48 \<le> c \<and> c \<le> 57 then ([], 311)
        else ([], 0))
      else if cs = 311 then Some (if c = 46 then ([], 302)
        else if 48 \<le> c \<and> c \<le> 57 then ([], 301)
        else ([], 0))
      else if cs = 312 then Some (if c = 46 then ([], 302)
        else if c = 53 then ([], 313)
        else if 48 \<le> c \<and> c \<le> 57 then ([], 301)
        else ([], 0))
      else if cs = 313 then Some (if c = 46 then ([], 302)
        else if 48 \<le> c \<and> c \<le> 53 then ([], 301)
        else ([], 0))
      else if cs = 314 then Some (if c = 46 then ([], 298)
        else if 48 \<le> c \<and> c \<le> 57 then ([], 315)
        else ([], 0))
      else if cs = 315 then Some (if c = 46 then ([], 298)
        else if 48 \<le> c \<and> c \<le> 57 then ([], 297)
        else ([], 0))
      else if cs = 316 then Some (if c = 46 then ([], 298)
        else if c = 53 then ([], 317)
        else if 48 \<le> c \<and> c \<le> 57 then ([], 297)
        else ([], 0))
      else if cs = 317 then Some (if c = 46 then ([], 298)
        else if 48 \<le> c \<and> c \<le> 53 then ([], 297)
        else ([], 0))
      else if cs = 318 then Some (if c = 46 then ([], 294)
        else if c = 58 then ([], 322)
        else if c < 65 then (if 48 \<le> c \<and> c \<le> 57 then ([], 319)
          else ([], 0))
        else if c > 70 then (if 97 \<le> c \<and> c \<le> 102 then ([], 319)
          else ([], 0))
        else ([], 319))
      else if cs = 319 then Some (if c = 58 then ([], 322)
        else if c < 65 then (if 48 \<le> c \<and> c \<le> 57 then ([], 320)
          else ([], 0))
        else if c > 70 then (if 97 \<le> c \<and> c \<le> 102 then ([], 320)
          else ([], 0))
        else ([], 320))
      else if cs = 320 then Some (if c = 58 then ([], 322)
        else if c < 65 then (if 48 \<le> c \<and> c \<le> 57 then ([], 321)
          else ([], 0))
        else if c > 70 then (if 97 \<le> c \<and> c \<le> 102 then ([], 321)
          else ([], 0))
        else ([], 321))
      else if cs = 321 then Some (if c = 58 then ([], 322)
        else ([], 0))
      else if cs = 322 then Some (if c = 58 then ([], 305)
        else if c < 65 then (if 48 \<le> c \<and> c \<le> 57 then ([], 323)
          else ([], 0))
        else if c > 70 then (if 97 \<le> c \<and> c \<le> 102 then ([], 323)
          else ([], 0))
        else ([], 323))
      else None)"

definition uri_states_323_330 :: "nat \<Rightarrow> int \<Rightarrow> uri_go option" where
  "uri_states_323_330 cs c =
     (if cs = 323 then Some (if c = 93 then ([], 512)
        else if c < 65 then (if 48 \<le> c \<and> c \<le> 57 then ([], 324)
          else ([], 0))
        else if c > 70 then (if 97 \<le> c \<and> c \<le> 102 then ([], 324)
          else ([], 0))
        else ([], 324))
      else if cs = 324 then Some (if c = 93 then ([], 512)
        else if c < 65 then (if 48 \<le> c \<and> c \<le> 57 then ([], 325)
          else ([], 0))
        else if c > 70 then (if 97 \<le> c \<and> c \<le> 102 then ([], 325)
          else ([], 0))
        else ([], 325))
      else if cs = 325 then Some (if c = 93 then ([], 512)
        else if c < 65 then (if 48 \<le> c \<and> c \<le> 57 then ([], 305)
          else ([], 0))
        else if c > 70 then (if 97 \<le> c \<and> c \<le> 102 then ([], 305)
          else ([], 0))
        else ([], 305))
      else if cs = 326 then Some (if c = 46 then ([], 294)
        else if c = 58 then ([], 322)
        else if c < 65 then (if 48 \<le> c \<and> c \<le> 57 then ([], 327)
          else ([], 0))
        else if c > 70 then (if 97 \<le> c \<and> c \<le> 102 then ([], 319)
          else ([], 0))
        else ([], 319))
      else if cs = 327 then Some (if c = 46 then ([], 294)
        else if c = 58 then ([], 322)
        else if c < 65 then (if 48 \<le> c \<and> c \<le> 57 then ([], 328)
          else ([], 0))
        else if c > 70 then (if 97 \<le> c \<and> c \<le> 102 then ([], 320)
          else ([], 0))
        else ([], 320))
      else if cs = 328 then Some (if c = 46 then ([], 294)
        else if c = 58 then ([], 322)
        else if c < 65 then (if 48 \<le> c \<and> c \<le> 57 then ([], 321)
          else ([], 0))
        else if c > 70 then (if 97 \<le> c \<and> c \<le> 102 then ([], 321)
          else ([], 0))
        else ([], 321))
      else if cs = 329 then Some (if c = 46 then ([], 294)
        else if c = 53 then ([], 331)
        else if c = 58 then ([], 322)
        else if c < 65 then (if 48 \<le> c \<and> c \<le> 57 then ([], 330)
          else ([], 0))
        else if c > 70 then (if 97 \<le> c \<and> c \<le> 102 then ([], 319)
          else ([], 0))
        else ([], 319))
      else if cs = 330 then Some (if c = 46 then ([], 294)
        else if c = 58 then ([], 322)
        else if c < 65 then (if 48 \<le> c \<and> c \<le> 57 then ([], 320)
          else ([], 0))
        else if c > 70 then (if 97 \<le> c \<and> c \<le> 102 then ([], 320)
          else ([], 0))
        else ([], 320))
      else None)"

definition uri_states_331_339 :: "nat \<Rightarrow> int \<Rightarrow> uri_go option" where
  "uri_states_331_339 cs c =
     (if cs = 331 then Some (if c = 46 then ([], 294)
        else if c = 58 then ([], 322)
        else if c < 54 then (if 48 \<le> c \<and> c \<le> 53 then ([], 328)
          else ([], 0))
        else if c > 57 then (if c > 70 then (if 97 \<le> c \<and> c \<le> 102 then ([], 320)
            else ([], 0))
          else if c \<ge> 65 then ([], 320)
          else ([], 0))
        else ([], 320))
      else if cs = 332 then Some (if c = 46 then ([], 294)
        else if c = 58 then ([], 322)
        else if c < 65 then (if 48 \<le> c \<and> c \<le> 57 then ([], 330)
          else ([], 0))
        else if c > 70 then (if 97 \<le> c \<and> c \<le> 102 then ([], 319)
          else ([], 0))
        else ([], 319))
      else if cs = 333 then Some (if c < 65 then (if 48 \<le> c \<and> c \<le> 57 then ([], 323)
          else ([], 0))
        else if c > 70 then (if 97 \<le> c \<and> c \<le> 102 then ([], 323)
          else ([], 0))
        else ([], 323))
      else if cs = 334 then Some (if c = 58 then ([], 322)
        else if c < 65 then (if 48 \<le> c \<and> c \<le> 57 then ([], 319)
          else ([], 0))
        else if c > 70 then (if 97 \<le> c \<and> c \<le> 102 then ([], 319)
          else ([], 0))
        else ([], 319))
      else if cs = 335 then Some (if c = 2 then ([], 291)
        else if c = 48 then ([], 336)
        else if c = 49 then ([], 340)
        else if c = 50 then ([], 343)
        else if c < 65 then (if 51 \<le> c \<and> c \<le> 57 then ([], 346)
          else ([], 0))
        else if c > 70 then (if 97 \<le> c \<and> c \<le> 102 then ([], 347)
          else ([], 0))
        else ([], 347))
      else if cs = 336 then Some (if c = 46 then ([], 294)
        else if c = 58 then ([], 333)
        else if c < 65 then (if 48 \<le> c \<and> c \<le> 57 then ([], 337)
          else ([], 0))
        else if c > 70 then (if 97 \<le> c \<and> c \<le> 102 then ([], 337)
          else ([], 0))
        else ([], 337))
      else if cs = 337 then Some (if c = 58 then ([], 333)
        else if c < 65 then (if 48 \<le> c \<and> c \<le> 57 then ([], 338)
          else ([], 0))
        else if c > 70 then (if 97 \<le> c \<and> c \<le> 102 then ([], 338)
          else ([], 0))
        else ([], 338))
      else if cs = 338 then Some (if c = 58 then ([], 333)
        else if c < 65 then (if 48 \<le> c \<and> c \<le> 57 then ([], 339)
          else ([], 0))
        else if c > 70 then (if 97 \<le> c \<and> c \<le> 102 then ([], 339)
          else ([], 0))
        else ([], 339))
      else if cs = 339 then Some (if c = 58 then ([], 333)
        else ([], 0))
      else None)"

definition uri_states_340_347 :: "nat \<Rightarrow> int \<Rightarrow> uri_go option" where
  "uri_states_340_347 cs c =
     (if cs = 340 then Some (if c = 46 then ([], 294)
        else if c = 58 then ([], 333)
        else if c < 65 then (if 48 \<le> c \<and> c \<le> 57 then ([], 341)
          else ([], 0))
        else if c > 70 then (if 97 \<le> c \<and> c \<le> 102 then ([], 337)
          else ([], 0))
        else ([], 337))
      else if cs = 341 then Some (if c = 46 then ([], 294)
        else if c = 58 then ([], 333)
        else if c < 65 then (if 48 \<le> c \<and> c \<le> 57 then ([], 342)
          else ([], 0))
        else if c > 70 then (if 97 \<le> c \<and> c \<le> 102 then ([], 338)
          else ([], 0))
        else ([], 338))
      else if cs = 342 then Some (if c = 46 then ([], 294)
        else if c = 58 then ([], 333)
        else if c < 65 then (if 48 \<le> c \<and> c \<le> 57 then ([], 339)
          else ([], 0))
        else if c > 70 then (if 97 \<le> c \<and> c \<le> 102 then ([], 339)
          else ([], 0))
        else ([], 339))
      else if cs = 343 then Some (if c = 46 then ([], 294)
        else if c = 53 then ([], 345)
        else if c = 58 then ([], 333)
        else if c < 65 then (if 48 \<le> c \<and> c \<le> 57 then ([], 344)
          else ([], 0))
        else if c > 70 then (if 97 \<le> c \<and> c \<le> 102 then ([], 337)
          else ([], 0))
        else ([], 337))
      else if cs = 344 then Some (if c = 46 then ([], 294)
        else if c = 58 then ([], 333)
        else if c < 65 then (if 48 \<le> c \<and> c \<le> 57 then ([], 338)
          else ([], 0))
        else if c > 70 then (if 97 \<le> c \<and> c \<le> 102 then ([], 338)
          else ([], 0))
        else ([], 338))
      else if cs = 345 then Some (if c = 46 then ([], 294)
        else if c = 58 then ([], 333)
        else if c < 54 then (if 48 \<le> c \<and> c \<le> 53 then ([], 342)
          else ([], 0))
        else if c > 57 then (if c > 70 then (if 97 \<le> c \<and> c \<le> 102 then ([], 338)
            else ([], 0))
          else if c \<ge> 65 then ([], 338)
          else ([], 0))
        else ([], 338))
      else if cs = 346 then Some (if c = 46 then ([], 294)
        else if c = 58 then ([], 333)
        else if c < 65 then (if 48 \<le> c \<and> c \<le> 57 then ([], 344)
          else ([], 0))
        else if c > 70 then (if 97 \<le> c \<and> c \<le> 102 then ([], 337)
          else ([], 0))
        else ([], 337))
      else if cs = 347 then Some (if c = 58 then ([], 333)
        else if c < 65 then (if 48 \<le> c \<and> c \<le> 57 then ([], 337)
          else ([], 0))
        else if c > 70 then (if 97 \<le> c \<and> c \<le> 102 then ([], 337)
          else ([], 0))
        else ([], 337))
      else None)"

definition uri_states_348_358 :: "nat \<Rightarrow> int \<Rightarrow> uri_go option" where
  "uri_states_348_358 cs c =
     (if cs = 348 then Some (if c < 65 then (if 48 \<le> c \<and> c \<le> 57 then ([], 349)
          else ([], 0))
        else if c > 70 then (if 97 \<le> c \<and> c \<le> 102 then ([], 349)
          else ([], 0))
        else ([], 349))
      else if cs = 349 then Some (if c = 58 then ([], 335)
        else if c < 65 then (if 48 \<le> c \<and> c \<le> 57 then ([], 350)
          else ([], 0))
        else if c > 70 then (if 97 \<le> c \<and> c \<le> 102 then ([], 350)
          else ([], 0))
        else ([], 350))
      else if cs = 350 then Some (if c = 58 then ([], 335)
        else if c < 65 then (if 48 \<le> c \<and> c \<le> 57 then ([], 351)
          else ([], 0))
        else if c > 70 then (if 97 \<le> c \<and> c \<le> 102 then ([], 351)
          else ([], 0))
        else ([], 351))
      else if cs = 351 then Some (if c = 58 then ([], 335)
        else if c < 65 then (if 48 \<le> c \<and> c \<le> 57 then ([], 352)
          else ([], 0))
        else if c > 70 then (if 97 \<le> c \<and> c \<le> 102 then ([], 352)
          else ([], 0))
        else ([], 352))
      else if cs = 352 then Some (if c = 58 then ([], 335)
        else ([], 0))
      else if cs = 353 then Some (if c < 65 then (if 48 \<le> c \<and> c \<le> 57 then ([], 354)
          else ([], 0))
        else if c > 70 then (if 97 \<le> c \<and> c \<le> 102 then ([], 354)
          else ([], 0))
        else ([], 354))
      else if cs = 354 then Some (if c = 58 then ([], 348)
        else if c < 65 then (if 48 \<le> c \<and> c \<le> 57 then ([], 355)
          else ([], 0))
        else if c > 70 then (if 97 \<le> c \<and> c \<le> 102 then ([], 355)
          else ([], 0))
        else ([], 355))
      else if cs = 355 then Some (if c = 58 then ([], 348)
        else if c < 65 then (if 48 \<le> c \<and> c \<le> 57 then ([], 356)
          else ([], 0))
        else if c > 70 then (if 97 \<le> c \<and> c \<le> 102 then ([], 356)
          else ([], 0))
        else ([], 356))
      else if cs = 356 then Some (if c = 58 then ([], 348)
        else if c < 65 then (if 48 \<le> c \<and> c \<le> 57 then ([], 357)
          else ([], 0))
        else if c > 70 then (if 97 \<le> c \<and> c \<le> 102 then ([], 357)
          else ([], 0))
        else ([], 357))
      else if cs = 357 then Some (if c = 58 then ([], 348)
        else ([], 0))
      else if cs = 358 then Some (if c < 65 then (if 48 \<le> c \<and> c \<le> 57 then ([], 359)
          else ([], 0))
        else if c > 70 then (if 97 \<le> c \<and> c \<le> 102 then ([], 359)
          else ([], 0))
        else ([], 359))
      else None)"

definition uri_states_359_369 :: "nat \<Rightarrow> int \<Rightarrow> uri_go option" where
  "uri_states_359_369 cs c =
     (if cs = 359 then Some (if c = 58 then ([], 353)
        else if c < 65 then (if 48 \<le> c \<and> c \<le> 57 then ([], 360)
          else ([], 0))
        else if c > 70 then (if 97 \<le> c \<and> c \<le> 102 then ([], 360)
          else ([], 0))
        else ([], 360))
      else if cs = 360 then Some (if c = 58 then ([], 353)
        else if c < 65 then (if 48 \<le> c \<and> c \<le> 57 then ([], 361)
          else ([], 0))
        else if c > 70 then (if 97 \<le> c \<and> c \<le> 102 then ([], 361)
          else ([], 0))
        else ([], 361))
      else if cs = 361 then Some (if c = 58 then ([], 353)
        else if c < 65 then (if 48 \<le> c \<and> c \<le> 57 then ([], 362)
          else ([], 0))
        else if c > 70 then (if 97 \<le> c \<and> c \<le> 102 then ([], 362)
          else ([], 0))
        else ([], 362))
      else if cs = 362 then Some (if c = 58 then ([], 353)
        else ([], 0))
      else if cs = 363 then Some (if c < 65 then (if 48 \<le> c \<and> c \<le> 57 then ([], 364)
          else ([], 0))
        else if c > 70 then (if 97 \<le> c \<and> c \<le> 102 then ([], 364)
          else ([], 0))
        else ([], 364))
      else if cs = 364 then Some (if c = 58 then ([], 358)
        else if c < 65 then (if 48 \<le> c \<and> c \<le> 57 then ([], 365)
          else ([], 0))
        else if c > 70 then (if 97 \<le> c \<and> c \<le> 102 then ([], 365)
          else ([], 0))
        else ([], 365))
      else if cs = 365 then Some (if c = 58 then ([], 358)
        else if c < 65 then (if 48 \<le> c \<and> c \<le> 57 then ([], 366)
          else ([], 0))
        else if c > 70 then (if 97 \<le> c \<and> c \<le> 102 then ([], 366)
          else ([], 0))
        else ([], 366))
      else if cs = 366 then Some (if c = 58 then ([], 358)
        else if c < 65 then (if 48 \<le> c \<and> c \<le> 57 then ([], 367)
          else ([], 0))
        else if c > 70 then (if 97 \<le> c \<and> c \<le> 102 then ([], 367)
          else ([], 0))
        else ([], 367))
      else if cs = 367 then Some (if c = 58 then ([], 358)
        else ([], 0))
      else if cs = 368 then Some (if c = 58 then ([], 369)
        else ([], 0))
      else if cs = 369 then Some (if c = 2 then ([], 291)
        else if c = 48 then ([], 370)
        else if c = 49 then ([], 439)
        else if c = 50 then ([], 442)
        else if c = 93 then ([], 512)
        else if c < 65 then (if 51 \<le> c \<and> c \<le> 57 then ([], 445)
          else ([], 0))
        else if c > 70 then (if 97 \<le> c \<and> c \<le> 102 then ([], 446)
          else ([], 0))
        else ([], 446))
      else None)"

definition uri_states_370_378 :: "nat \<Rightarrow> int \<Rightarrow> uri_go option" where
  "uri_states_370_378 cs c =
     (if cs = 370 then Some (if c = 46 then ([], 294)
        else if c = 58 then ([], 374)
        else if c = 93 then ([], 512)
        else if c < 65 then (if 48 \<le> c \<and> c \<le> 57 then ([], 371)
          else ([], 0))
        else if c > 70 then (if 97 \<le> c \<and> c \<le> 102 then ([], 371)
          else ([], 0))
        else ([], 371))
      else if cs = 371 then Some (if c = 58 then ([], 374)
        else if c = 93 then ([], 512)
        else if c < 65 then (if 48 \<le> c \<and> c \<le> 57 then ([], 372)
          else ([], 0))
        else if c > 70 then (if 97 \<le> c \<and> c \<le> 102 then ([], 372)
          else ([], 0))
        else ([], 372))
      else if cs = 372 then Some (if c = 58 then ([], 374)
        else if c = 93 then ([], 512)
        else if c < 65 then (if 48 \<le> c \<and> c \<le> 57 then ([], 373)
          else ([], 0))
        else if c > 70 then (if 97 \<le> c \<and> c \<le> 102 then ([], 373)
          else ([], 0))
        else ([], 373))
      else if cs = 373 then Some (if c = 58 then ([], 374)
        else if c = 93 then ([], 512)
        else ([], 0))
      else if cs = 374 then Some (if c = 2 then ([], 291)
        else if c = 48 then ([], 375)
        else if c = 49 then ([], 431)
        else if c = 50 then ([], 434)
        else if c < 65 then (if 51 \<le> c \<and> c \<le> 57 then ([], 437)
          else ([], 0))
        else if c > 70 then (if 97 \<le> c \<and> c \<le> 102 then ([], 438)
          else ([], 0))
        else ([], 438))
      else if cs = 375 then Some (if c = 46 then ([], 294)
        else if c = 58 then ([], 379)
        else if c = 93 then ([], 512)
        else if c < 65 then (if 48 \<le> c \<and> c \<le> 57 then ([], 376)
          else ([], 0))
        else if c > 70 then (if 97 \<le> c \<and> c \<le> 102 then ([], 376)
          else ([], 0))
        else ([], 376))
      else if cs = 376 then Some (if c = 58 then ([], 379)
        else if c = 93 then ([], 512)
        else if c < 65 then (if 48 \<le> c \<and> c \<le> 57 then ([], 377)
          else ([], 0))
        else if c > 70 then (if 97 \<le> c \<and> c \<le> 102 then ([], 377)
          else ([], 0))
        else ([], 377))
      else if cs = 377 then Some (if c = 58 then ([], 379)
        else if c = 93 then ([], 512)
        else if c < 65 then (if 48 \<le> c \<and> c \<le> 57 then ([], 378)
          else ([], 0))
        else if c > 70 then (if 97 \<le> c \<and> c \<le> 102 then ([], 378)
          else ([], 0))
        else ([], 378))
      else if cs = 378 then Some (if c = 58 then ([], 379)
        else if c = 93 then ([], 512)
        else ([], 0))
      else None)"

definition uri_states_379_386 :: "nat \<Rightarrow> int \<Rightarrow> uri_go option" where
  "uri_states_379_386 cs c =
     (if cs = 379 then Some (if c = 2 then ([], 291)
        else if c = 48 then ([], 380)
        else if c = 49 then ([], 423)
        else if c = 50 then ([], 426)
        else if c < 65 then (if 51 \<le> c \<and> c \<le> 57 then ([], 429)
          else ([], 0))
        else if c > 70 then (if 97 \<le> c \<and> c \<le> 102 then ([], 430)
          else ([], 0))
        else ([], 430))
      else if cs = 380 then Some (if c = 46 then ([], 294)
        else if c = 58 then ([], 384)
        else if c = 93 then ([], 512)
        else if c < 65 then (if 48 \<le> c \<and> c \<le> 57 then ([], 381)
          else ([], 0))
        else if c > 70 then (if 97 \<le> c \<and> c \<le> 102 then ([], 381)
          else ([], 0))
        else ([], 381))
      else if cs = 381 then Some (if c = 58 then ([], 384)
        else if c = 93 then ([], 512)
        else if c < 65 then (if 48 \<le> c \<and> c \<le> 57 then ([], 382)
          else ([], 0))
        else if c > 70 then (if 97 \<le> c \<and> c \<le> 102 then ([], 382)
          else ([], 0))
        else ([], 382))
      else if cs = 382 then Some (if c = 58 then ([], 384)
        else if c = 93 then ([], 512)
        else if c < 65 then (if 48 \<le> c \<and> c \<le> 57 then ([], 383)
          else ([], 0))
        else if c > 70 then (if 97 \<le> c \<and> c \<le> 102 then ([], 383)
          else ([], 0))
        else ([], 383))
      else if cs = 383 then Some (if c = 58 then ([], 384)
        else if c = 93 then ([], 512)
        else ([], 0))
      else if cs = 384 then Some (if c = 2 then ([], 291)
        else if c = 48 then ([], 385)
        else if c = 49 then ([], 415)
        else if c = 50 then ([], 418)
        else if c < 65 then (if 51 \<le> c \<and> c \<le> 57 then ([], 421)
          else ([], 0))
        else if c > 70 then (if 97 \<le> c \<and> c \<le> 102 then ([], 422)
          else ([], 0))
        else ([], 422))
      else if cs = 385 then Some (if c = 46 then ([], 294)
        else if c = 58 then ([], 389)
        else if c = 93 then ([], 512)
        else if c < 65 then (if 48 \<le> c \<and> c \<le> 57 then ([], 386)
          else ([], 0))
        else if c > 70 then (if 97 \<le> c \<and> c \<le> 102 then ([], 386)
          else ([], 0))
        else ([], 386))
      else if cs = 386 then Some (if c = 58 then ([], 389)
        else if c = 93 then ([], 512)
        else if c < 65 then (if 48 \<le> c \<and> c \<le> 57 then ([], 387)
          else ([], 0))
        else if c > 70 then (if 97 \<le> c \<and> c \<le> 102 then ([], 387)
          else ([], 0))
        else ([], 387))
      else None)"

definition uri_states_387_395 :: "nat \<Rightarrow> int \<Rightarrow> uri_go option" where
  "uri_states_387_395 cs c =
     (if cs = 387 then Some (if c = 58 then ([], 389)
        else if c = 93 then ([], 512)
        else if c < 65 then (if 48 \<le> c \<and> c \<le> 57 then ([], 388)
          else ([], 0))
        else if c > 70 then (if 97 \<le> c \<and> c \<le> 102 then ([], 388)
          else ([], 0))
        else ([], 388))
      else if cs = 388 then Some (if c = 58 then ([], 389)
        else if c = 93 then ([], 512)
        else ([], 0))
      else if cs = 389 then Some (if c = 2 then ([], 291)
        else if c = 48 then ([], 390)
        else if c = 49 then ([], 407)
        else if c = 50 then ([], 410)
        else if c < 65 then (if 51 \<le> c \<and> c \<le> 57 then ([], 413)
          else ([], 0))
        else if c > 70 then (if 97 \<le> c \<and> c \<le> 102 then ([], 414)
          else ([], 0))
        else ([], 414))
      else if cs = 390 then Some (if c = 46 then ([], 294)
        else if c = 58 then ([], 394)
        else if c = 93 then ([], 512)
        else if c < 65 then (if 48 \<le> c \<and> c \<le> 57 then ([], 391)
          else ([], 0))
        else if c > 70 then (if 97 \<le> c \<and> c \<le> 102 then ([], 391)
          else ([], 0))
        else ([], 391))
      else if cs = 391 then Some (if c = 58 then ([], 394)
        else if c = 93 then ([], 512)
        else if c < 65 then (if 48 \<le> c \<and> c \<le> 57 then ([], 392)
          else ([], 0))
        else if c > 70 then (if 97 \<le> c \<and> c \<le> 102 then ([], 392)
          else ([], 0))
        else ([], 392))
      else if cs = 392 then Some (if c = 58 then ([], 394)
        else if c = 93 then ([], 512)
        else if c < 65 then (if 48 \<le> c \<and> c \<le> 57 then ([], 393)
          else ([], 0))
        else if c > 70 then (if 97 \<le> c \<and> c \<le> 102 then ([], 393)
          else ([], 0))
        else ([], 393))
      else if cs = 393 then Some (if c = 58 then ([], 394)
        else if c = 93 then ([], 512)
        else ([], 0))
      else if cs = 394 then Some (if c = 2 then ([], 291)
        else if c = 48 then ([], 395)
        else if c = 49 then ([], 399)
        else if c = 50 then ([], 402)
        else if c < 65 then (if 51 \<le> c \<and> c \<le> 57 then ([], 405)
          else ([], 0))
        else if c > 70 then (if 97 \<le> c \<and> c \<le> 102 then ([], 406)
          else ([], 0))
        else ([], 406))
      else if cs = 395 then Some (if c = 46 then ([], 294)
        else if c = 58 then ([], 333)
        else if c = 93 then ([], 512)
        else if c < 65 then (if 48 \<le> c \<and> c \<le> 57 then ([], 396)
          else ([], 0))
        else if c > 70 then (if 97 \<le> c \<and> c \<le> 102 then ([], 396)
          else ([], 0))
        else ([], 396))
      else None)"

definition uri_states_396_403 :: "nat \<Rightarrow> int \<Rightarrow> uri_go option" where
  "uri_states_396_403 cs c =
     (if cs = 396 then Some (if c = 58 then ([], 333)
        else if c = 93 then ([], 512)
        else if c < 65 then (if 48 \<le> c \<and> c \<le> 57 then ([], 397)
          else ([], 0))
        else if c > 70 then (if 97 \<le> c \<and> c \<le> 102 then ([], 397)
          else ([], 0))
        else ([], 397))
      else if cs = 397 then Some (if c = 58 then ([], 333)
        else if c = 93 then ([], 512)
        else if c < 65 then (if 48 \<le> c \<and> c \<le> 57 then ([], 398)
          else ([], 0))
        else if c > 70 then (if 97 \<le> c \<and> c \<le> 102 then ([], 398)
          else ([], 0))
        else ([], 398))
      else if cs = 398 then Some (if c = 58 then ([], 333)
        else if c = 93 then ([], 512)
        else ([], 0))
      else if cs = 399 then Some (if c = 46 then ([], 294)
        else if c = 58 then ([], 333)
        else if c = 93 then ([], 512)
        else if c < 65 then (if 48 \<le> c \<and> c \<le> 57 then ([], 400)
          else ([], 0))
        else if c > 70 then (if 97 \<le> c \<and> c \<le> 102 then ([], 396)
          else ([], 0))
        else ([], 396))
      else if cs = 400 then Some (if c = 46 then ([], 294)
        else if c = 58 then ([], 333)
        else if c = 93 then ([], 512)
        else if c < 65 then (if 48 \<le> c \<and> c \<le> 57 then ([], 401)
          else ([], 0))
        else if c > 70 then (if 97 \<le> c \<and> c \<le> 102 then ([], 397)
          else ([], 0))
        else ([], 397))
      else if cs = 401 then Some (if c = 46 then ([], 294)
        else if c = 58 then ([], 333)
        else if c = 93 then ([], 512)
        else if c < 65 then (if 48 \<le> c \<and> c \<le> 57 then ([], 398)
          else ([], 0))
        else if c > 70 then (if 97 \<le> c \<and> c \<le> 102 then ([], 398)
          else ([], 0))
        else ([], 398))
      else if cs = 402 then Some (if c = 46 then ([], 294)
        else if c = 53 then ([], 404)
        else if c = 58 then ([], 333)
        else if c = 93 then ([], 512)
        else if c < 65 then (if 48 \<le> c \<and> c \<le> 57 then ([], 403)
          else ([], 0))
        else if c > 70 then (if 97 \<le> c \<and> c \<le> 102 then ([], 396)
          else ([], 0))
        else ([], 396))
      else if cs = 403 then Some (if c = 46 then ([], 294)
        else if c = 58 then ([], 333)
        else if c = 93 then ([], 512)
        else if c < 65 then (if 48 \<le> c \<and> c \<le> 57 then ([], 397)
          else ([], 0))
        else if c > 70 then (if 97 \<le> c \<and> c \<le> 102 then ([], 397)
          else ([], 0))
        else ([], 397))
      else None)"

definition uri_states_404_411 :: "nat \<Rightarrow> int \<Rightarrow> uri_go option" where
  "uri_states_404_411 cs c =
     (if cs = 404 then Some (if c = 46 then ([], 294)
        else if c = 58 then ([], 333)
        else if c = 93 then ([], 512)
        else if c < 54 then (if 48 \<le> c \<and> c \<le> 53 then ([], 401)
          else ([], 0))
        else if c > 57 then (if c > 70 then (if 97 \<le> c \<and> c \<le> 102 then ([], 397)
            else ([], 0))
          else if c \<ge> 65 then ([], 397)
          else ([], 0))
        else ([], 397))
      else if cs = 405 then Some (if c = 46 then ([], 294)
        else if c = 58 then ([], 333)
        else if c = 93 then ([], 512)
        else if c < 65 then (if 48 \<le> c \<and> c \<le> 57 then ([], 403)
          else ([], 0))
        else if c > 70 then (if 97 \<le> c \<and> c \<le> 102 then ([], 396)
          else ([], 0))
        else ([], 396))
      else if cs = 406 then Some (if c = 58 then ([], 333)
        else if c = 93 then ([], 512)
        else if c < 65 then (if 48 \<le> c \<and> c \<le> 57 then ([], 396)
          else ([], 0))
        else if c > 70 then (if 97 \<le> c \<and> c \<le> 102 then ([], 396)
          else ([], 0))
        else ([], 396))
      else if cs = 407 then Some (if c = 46 then ([], 294)
        else if c = 58 then ([], 394)
        else if c = 93 then ([], 512)
        else if c < 65 then (if 48 \<le> c \<and> c \<le> 57 then ([], 408)
          else ([], 0))
        else if c > 70 then (if 97 \<le> c \<and> c \<le> 102 then ([], 391)
          else ([], 0))
        else ([], 391))
      else if cs = 408 then Some (if c = 46 then ([], 294)
        else if c = 58 then ([], 394)
        else if c = 93 then ([], 512)
        else if c < 65 then (if 48 \<le> c \<and> c \<le> 57 then ([], 409)
          else ([], 0))
        else if c > 70 then (if 97 \<le> c \<and> c \<le> 102 then ([], 392)
          else ([], 0))
        else ([], 392))
      else if cs = 409 then Some (if c = 46 then ([], 294)
        else if c = 58 then ([], 394)
        else if c = 93 then ([], 512)
        else if c < 65 then (if 48 \<le> c \<and> c \<le> 57 then ([], 393)
          else ([], 0))
        else if c > 70 then (if 97 \<le> c \<and> c \<le> 102 then ([], 393)
          else ([], 0))
        else ([], 393))
      else if cs = 410 then Some (if c = 46 then ([], 294)
        else if c = 53 then ([], 412)
        else if c = 58 then ([], 394)
        else if c = 93 then ([], 512)
        else if c < 65 then (if 48 \<le> c \<and> c \<le> 57 then ([], 411)
          else ([], 0))
        else if c > 70 then (if 97 \<le> c \<and> c \<le> 102 then ([], 391)
          else ([], 0))
        else ([], 391))
      else if cs = 411 then Some (if c = 46 then ([], 294)
        else if c = 58 then ([], 394)
        else if c = 93 then ([], 512)
        else if c < 65 then (if 48 \<le> c \<and> c \<le> 57 then ([], 392)
          else ([], 0))
        else if c > 70 then (if 97 \<le> c \<and> c \<le> 102 then ([], 392)
          else ([], 0))
        else ([], 392))
      else None)"

definition uri_states_412_419 :: "nat \<Rightarrow> int \<Rightarrow> uri_go option" where
  "uri_states_412_419 cs c =
     (if cs = 412 then Some (if c = 46 then ([], 294)
        else if c = 58 then ([], 394)
        else if c = 93 then ([], 512)
        else if c < 54 then (if 48 \<le> c \<and> c \<le> 53 then ([], 409)
          else ([], 0))
        else if c > 57 then (if c > 70 then (if 97 \<le> c \<and> c \<le> 102 then ([], 392)
            else ([], 0))
          else if c \<ge> 65 then ([], 392)
          else ([], 0))
        else ([], 392))
      else if cs = 413 then Some (if c = 46 then ([], 294)
        else if c = 58 then ([], 394)
        else if c = 93 then ([], 512)
        else if c < 65 then (if 48 \<le> c \<and> c \<le> 57 then ([], 411)
          else ([], 0))
        else if c > 70 then (if 97 \<le> c \<and> c \<le> 102 then ([], 391)
          else ([], 0))
        else ([], 391))
      else if cs = 414 then Some (if c = 58 then ([], 394)
        else if c = 93 then ([], 512)
        else if c < 65 then (if 48 \<le> c \<and> c \<le> 57 then ([], 391)
          else ([], 0))
        else if c > 70 then (if 97 \<le> c \<and> c \<le> 102 then ([], 391)
          else ([], 0))
        else ([], 391))
      else if cs = 415 then Some (if c = 46 then ([], 294)
        else if c = 58 then ([], 389)
        else if c = 93 then ([], 512)
        else if c < 65 then (if 48 \<le> c \<and> c \<le> 57 then ([], 416)
          else ([], 0))
        else if c > 70 then (if 97 \<le> c \<and> c \<le> 102 then ([], 386)
          else ([], 0))
        else ([], 386))
      else if cs = 416 then Some (if c = 46 then ([], 294)
        else if c = 58 then ([], 389)
        else if c = 93 then ([], 512)
        else if c < 65 then (if 48 \<le> c \<and> c \<le> 57 then ([], 417)
          else ([], 0))
        else if c > 70 then (if 97 \<le> c \<and> c \<le> 102 then ([], 387)
          else ([], 0))
        else ([], 387))
      else if cs = 417 then Some (if c = 46 then ([], 294)
        else if c = 58 then ([], 389)
        else if c = 93 then ([], 512)
        else if c < 65 then (if 48 \<le> c \<and> c \<le> 57 then ([], 388)
          else ([], 0))
        else if c > 70 then (if 97 \<le> c \<and> c \<le> 102 then ([], 388)
          else ([], 0))
        else ([], 388))
      else if cs = 418 then Some (if c = 46 then ([], 294)
        else if c = 53 then ([], 420)
        else if c = 58 then ([], 389)
        else if c = 93 then ([], 512)
        else if c < 65 then (if 48 \<le> c \<and> c \<le> 57 then ([], 419)
          else ([], 0))
        else if c > 70 then (if 97 \<le> c \<and> c \<le> 102 then ([], 386)
          else ([], 0))
        else ([], 386))
      else if cs = 419 then Some (if c = 46 then ([], 294)
        else if c = 58 then ([], 389)
        else if c = 93 then ([], 512)
        else if c < 65 then (if 48 \<le> c \<and> c \<le> 57 then ([], 387)
          else ([], 0))
        else if c > 70 then (if 97 \<le> c \<and> c \<le> 102 then ([], 387)
          else ([], 0))
        else ([], 387))
      else None)"

definition uri_states_420_427 :: "nat \<Rightarrow> int \<Rightarrow> uri_go option" where
  "uri_states_420_427 cs c =
     (if cs = 420 then Some (if c = 46 then ([], 294)
        else if c = 58 then ([], 389)
        else if c = 93 then ([], 512)
        else if c < 54 then (if 48 \<le> c \<and> c \<le> 53 then ([], 417)
          else ([], 0))
        else if c > 57 then (if c > 70 then (if 97 \<le> c \<and> c \<le> 102 then ([], 387)
            else ([], 0))
          else if c \<ge> 65 then ([], 387)
          else ([], 0))
        else ([], 387))
      else if cs = 421 then Some (if c = 46 then ([], 294)
        else if c = 58 then ([], 389)
        else if c = 93 then ([], 512)
        else if c < 65 then (if 48 \<le> c \<and> c \<le> 57 then ([], 419)
          else ([], 0))
        else if c > 70 then (if 97 \<le> c \<and> c \<le> 102 then ([], 386)
          else ([], 0))
        else ([], 386))
      else if cs = 422 then Some (if c = 58 then ([], 389)
        else if c = 93 then ([], 512)
        else if c < 65 then (if 48 \<le> c \<and> c \<le> 57 then ([], 386)
          else ([], 0))
        else if c > 70 then (if 97 \<le> c \<and> c \<le> 102 then ([], 386)
          else ([], 0))
        else ([], 386))
      else if cs = 423 then Some (if c = 46 then ([], 294)
        else if c = 58 then ([], 384)
        else if c = 93 then ([], 512)
        else if c < 65 then (if 48 \<le> c \<and> c \<le> 57 then ([], 424)
          else ([], 0))
        else if c > 70 then (if 97 \<le> c \<and> c \<le> 102 then ([], 381)
          else ([], 0))
        else ([], 381))
      else if cs = 424 then Some (if c = 46 then ([], 294)
        else if c = 58 then ([], 384)
        else if c = 93 then ([], 512)
        else if c < 65 then (if 48 \<le> c \<and> c \<le> 57 then ([], 425)
          else ([], 0))
        else if c > 70 then (if 97 \<le> c \<and> c \<le> 102 then ([], 382)
          else ([], 0))
        else ([], 382))
      else if cs = 425 then Some (if c = 46 then ([], 294)
        else if c = 58 then ([], 384)
        else if c = 93 then ([], 512)
        else if c < 65 then (if 48 \<le> c \<and> c \<le> 57 then ([], 383)
          else ([], 0))
        else if c > 70 then (if 97 \<le> c \<and> c \<le> 102 then ([], 383)
          else ([], 0))
        else ([], 383))
      else if cs = 426 then Some (if c = 46 then ([], 294)
        else if c = 53 then ([], 428)
        else if c = 58 then ([], 384)
        else if c = 93 then ([], 512)
        else if c < 65 then (if 48 \<le> c \<and> c \<le> 57 then ([], 427)
          else ([], 0))
        else if c > 70 then (if 97 \<le> c \<and> c \<le> 102 then ([], 381)
          else ([], 0))
        else ([], 381))
      else if cs = 427 then Some (if c = 46 then ([], 294)
        else if c = 58 then ([], 384)
        else if c = 93 then ([], 512)
        else if c < 65 then (if 48 \<le> c \<and> c \<le> 57 then ([], 382)
          else ([], 0))
        else if c > 70 then (if 97 \<le> c \<and> c \<le> 102 then ([], 382)
          else ([], 0))
        else ([], 382))
      else None)"

definition uri_states_428_435 :: "nat \<Rightarrow> int \<Rightarrow> uri_go option" where
  "uri_states_428_435 cs c =
     (if cs = 428 then Some (if c = 46 then ([], 294)
        else if c = 58 then ([], 384)
        else if c = 93 then ([], 512)
        else if c < 54 then (if 48 \<le> c \<and> c \<le> 53 then ([], 425)
          else ([], 0))
        else if c > 57 then (if c > 70 then (if 97 \<le> c \<and> c \<le> 102 then ([], 382)
            else ([], 0))
          else if c \<ge> 65 then ([], 382)
          else ([], 0))
        else ([], 382))
      else if cs = 429 then Some (if c = 46 then ([], 294)
        else if c = 58 then ([], 384)
        else if c = 93 then ([], 512)
        else if c < 65 then (if 48 \<le> c \<and> c \<le> 57 then ([], 427)
          else ([], 0))
        else if c > 70 then (if 97 \<le> c \<and> c \<le> 102 then ([], 381)
          else ([], 0))
        else ([], 381))
      else if cs = 430 then Some (if c = 58 then ([], 384)
        else if c = 93 then ([], 512)
        else if c < 65 then (if 48 \<le> c \<and> c \<le> 57 then ([], 381)
          else ([], 0))
        else if c > 70 then (if 97 \<le> c \<and> c \<le> 102 then ([], 381)
          else ([], 0))
        else ([], 381))
      else if cs = 431 then Some (if c = 46 then ([], 294)
        else if c = 58 then ([], 379)
        else if c = 93 then ([], 512)
        else if c < 65 then (if 48 \<le> c \<and> c \<le> 57 then ([], 432)
          else ([], 0))
        else if c > 70 then (if 97 \<le> c \<and> c \<le> 102 then ([], 376)
          else ([], 0))
        else ([], 376))
      else if cs = 432 then Some (if c = 46 then ([], 294)
        else if c = 58 then ([], 379)
        else if c = 93 then ([], 512)
        else if c < 65 then (if 48 \<le> c \<and> c \<le> 57 then ([], 433)
          else ([], 0))
        else if c > 70 then (if 97 \<le> c \<and> c \<le> 102 then ([], 377)
          else ([], 0))
        else ([], 377))
      else if cs = 433 then Some (if c = 46 then ([], 294)
        else if c = 58 then ([], 379)
        else if c = 93 then ([], 512)
        else if c < 65 then (if 48 \<le> c \<and> c \<le> 57 then ([], 378)
          else ([], 0))
        else if c > 70 then (if 97 \<le> c \<and> c \<le> 102 then ([], 378)
          else ([], 0))
        else ([], 378))
      else if cs = 434 then Some (if c = 46 then ([], 294)
        else if c = 53 then ([], 436)
        else if c = 58 then ([], 379)
        else if c = 93 then ([], 512)
        else if c < 65 then (if 48 \<le> c \<and> c \<le> 57 then ([], 435)
          else ([], 0))
        else if c > 70 then (if 97 \<le> c \<and> c \<le> 102 then ([], 376)
          else ([], 0))
        else ([], 376))
      else if cs = 435 then Some (if c = 46 then ([], 294)
        else if c = 58 then ([], 379)
        else if c = 93 then ([], 512)
        else if c < 65 then (if 48 \<le> c \<and> c \<le> 57 then ([], 377)
          else ([], 0))
        else if c > 70 then (if 97 \<le> c \<and> c \<le> 102 then ([], 377)
          else ([], 0))
        else ([], 377))
      else None)"

definition uri_states_436_443 :: "nat \<Rightarrow> int \<Rightarrow> uri_go option" where
  "uri_states_436_443 cs c =
     (if cs = 436 then Some (if c = 46 then ([], 294)
        else if c = 58 then ([], 379)
        else if c = 93 then ([], 512)
        else if c < 54 then (if 48 \<le> c \<and> c \<le> 53 then ([], 433)
          else ([], 0))
        else if c > 57 then (if c > 70 then (if 97 \<le> c \<and> c \<le> 102 then ([], 377)
            else ([], 0))
          else if c \<ge> 65 then ([], 377)
          else ([], 0))
        else ([], 377))
      else if cs = 437 then Some (if c = 46 then ([], 294)
        else if c = 58 then ([], 379)
        else if c = 93 then ([], 512)
        else if c < 65 then (if 48 \<le> c \<and> c \<le> 57 then ([], 435)
          else ([], 0))
        else if c > 70 then (if 97 \<le> c \<and> c \<le> 102 then ([], 376)
          else ([], 0))
        else ([], 376))
      else if cs = 438 then Some (if c = 58 then ([], 379)
        else if c = 93 then ([], 512)
        else if c < 65 then (if 48 \<le> c \<and> c \<le> 57 then ([], 376)
          else ([], 0))
        else if c > 70 then (if 97 \<le> c \<and> c \<le> 102 then ([], 376)
          else ([], 0))
        else ([], 376))
      else if cs = 439 then Some (if c = 46 then ([], 294)
        else if c = 58 then ([], 374)
        else if c = 93 then ([], 512)
        else if c < 65 then (if 48 \<le> c \<and> c \<le> 57 then ([], 440)
          else ([], 0))
        else if c > 70 then (if 97 \<le> c \<and> c \<le> 102 then ([], 371)
          else ([], 0))
        else ([], 371))
      else if cs = 440 then Some (if c = 46 then ([], 294)
        else if c = 58 then ([], 374)
        else if c = 93 then ([], 512)
        else if c < 65 then (if 48 \<le> c \<and> c \<le> 57 then ([], 441)
          else ([], 0))
        else if c > 70 then (if 97 \<le> c \<and> c \<le> 102 then ([], 372)
          else ([], 0))
        else ([], 372))
      else if cs = 441 then Some (if c = 46 then ([], 294)
        else if c = 58 then ([], 374)
        else if c = 93 then ([], 512)
        else if c < 65 then (if 48 \<le> c \<and> c \<le> 57 then ([], 373)
          else ([], 0))
        else if c > 70 then (if 97 \<le> c \<and> c \<le> 102 then ([], 373)
          else ([], 0))
        else ([], 373))
      else if cs = 442 then Some (if c = 46 then ([], 294)
        else if c = 53 then ([], 444)
        else if c = 58 then ([], 374)
        else if c = 93 then ([], 512)
        else if c < 65 then (if 48 \<le> c \<and> c \<le> 57 then ([], 443)
          else ([], 0))
        else if c > 70 then (if 97 \<le> c \<and> c \<le> 102 then ([], 371)
          else ([], 0))
        else ([], 371))
      else if cs = 443 then Some (if c = 46 then ([], 294)
        else if c = 58 then ([], 374)
        else if c = 93 then ([], 512)
        else if c < 65 then (if 48 \<le> c \<and> c \<le> 57 then ([], 372)
          else ([], 0))
        else if c > 70 then (if 97 \<le> c \<and> c \<le> 102 then ([], 372)
          else ([], 0))
        else ([], 372))
      else None)"

definition uri_states_444_450 :: "nat \<Rightarrow> int \<Rightarrow> uri_go option" where
  "uri_states_444_450 cs c =
     (if cs = 444 then Some (if c = 46 then ([], 294)
        else if c = 58 then ([], 374)
        else if c = 93 then ([], 512)
        else if c < 54 then (if 48 \<le> c \<and> c \<le> 53 then ([], 441)
          else ([], 0))
        else if c > 57 then (if c > 70 then (if 97 \<le> c \<and> c \<le> 102 then ([], 372)
            else ([], 0))
          else if c \<ge> 65 then ([], 372)
          else ([], 0))
        else ([], 372))
      else if cs = 445 then Some (if c = 46 then ([], 294)
        else if c = 58 then ([], 374)
        else if c = 93 then ([], 512)
        else if c < 65 then (if 48 \<le> c \<and> c \<le> 57 then ([], 443)
          else ([], 0))
        else if c > 70 then (if 97 \<le> c \<and> c \<le> 102 then ([], 371)
          else ([], 0))
        else ([], 371))
      else if cs = 446 then Some (if c = 58 then ([], 374)
        else if c = 93 then ([], 512)
        else if c < 65 then (if 48 \<le> c \<and> c \<le> 57 then ([], 371)
          else ([], 0))
        else if c > 70 then (if 97 \<le> c \<and> c \<le> 102 then ([], 371)
          else ([], 0))
        else ([], 371))
      else if cs = 447 then Some (if c < 65 then (if 48 \<le> c \<and> c \<le> 57 then ([], 448)
          else ([], 0))
        else if c > 70 then (if 97 \<le> c \<and> c \<le> 102 then ([], 448)
          else ([], 0))
        else ([], 448))
      else if cs = 448 then Some (if c = 46 then ([], 449)
        else if c < 65 then (if 48 \<le> c \<and> c \<le> 57 then ([], 448)
          else ([], 0))
        else if c > 70 then (if 97 \<le> c \<and> c \<le> 102 then ([], 448)
          else ([], 0))
        else ([], 448))
      else if cs = 449 then Some (if c \<in> {33, 36, 61, 95, 126} then ([], 450)
        else if c < 48 then (if 38 \<le> c \<and> c \<le> 46 then ([], 450)
          else ([], 0))
        else if c > 59 then (if c > 90 then (if 97 \<le> c \<and> c \<le> 122 then ([], 450)
            else ([], 0))
          else if c \<ge> 65 then ([], 450)
          else ([], 0))
        else ([], 450))
      else if cs = 450 then Some (if c \<in> {33, 36, 61, 95, 126} then ([], 450)
        else if c = 93 then ([], 512)
        else if c < 48 then (if 38 \<le> c \<and> c \<le> 46 then ([], 450)
          else ([], 0))
        else if c > 59 then (if c > 90 then (if 97 \<le> c \<and> c \<le> 122 then ([], 450)
            else ([], 0))
          else if c \<ge> 65 then ([], 450)
          else ([], 0))
        else ([], 450))
      else None)"

definition uri_states_542_545 :: "nat \<Rightarrow> int \<Rightarrow> uri_go option" where
  "uri_states_542_545 cs c =
     (if cs = 542 then Some (if c \<in> {33, 61, 95, 126} then ([], 255)
        else if c = 35 then ([USavePort, UMark, USavePath], 453)
        else if c = 37 then ([], 256)
        else if c = 47 then ([USavePort, UMark], 513)
        else if c = 63 then ([USavePort, UMark, USavePath], 456)
        else if c = 64 then ([USaveUserinfo], 522)
        else if c < 58 then (if c > 46 then (if 48 \<le> c \<and> c \<le> 57 then ([], 542)
            else ([], 0))
          else if c \<ge> 36 then ([], 255)
          else ([], 0))
        else if c > 59 then (if c > 90 then (if 97 \<le> c \<and> c \<le> 122 then ([], 255)
            else ([], 0))
          else if c \<ge> 65 then ([], 255)
          else ([], 0))
        else ([], 255))
      else if cs = 543 then Some (if c \<in> {33, 61, 95, 126} then ([], 520)
        else if c = 35 then ([USaveHost, UMark, USavePath], 453)
        else if c = 37 then ([], 253)
        else if c = 46 then ([], 544)
        else if c = 47 then ([USaveHost, UMark], 513)
        else if c = 58 then ([USaveHost], 521)
        else if c = 63 then ([USaveHost, UMark, USavePath], 456)
        else if c = 64 then ([USaveUserinfo], 522)
        else if c < 65 then (if 36 \<le> c \<and> c \<le> 59 then ([], 520)
          else ([], 0))
        else if c > 90 then (if 97 \<le> c \<and> c \<le> 122 then ([], 520)
          else ([], 0))
        else ([], 520))
      else if cs = 544 then Some (if c = 2 then ([], 233)
        else if c \<in> {33, 59, 61, 95, 126} then ([], 520)
        else if c = 35 then ([USaveHost, UMark, USavePath], 453)
        else if c = 37 then ([], 253)
        else if c = 47 then ([USaveHost, UMark], 513)
        else if c = 48 then ([], 545)
        else if c = 49 then ([], 553)
        else if c = 50 then ([], 555)
        else if c = 58 then ([USaveHost], 521)
        else if c = 63 then ([USaveHost, UMark, USavePath], 456)
        else if c = 64 then ([USaveUserinfo], 522)
        else if c < 51 then (if 36 \<le> c \<and> c \<le> 46 then ([], 520)
          else ([], 0))
        else if c > 57 then (if c > 90 then (if 97 \<le> c \<and> c \<le> 122 then ([], 520)
            else ([], 0))
          else if c \<ge> 65 then ([], 520)
          else ([], 0))
        else ([], 554))
      else if cs = 545 then Some (if c \<in> {33, 61, 95, 126} then ([], 520)
        else if c = 35 then ([USaveHost, UMark, USavePath], 453)
        else if c = 37 then ([], 253)
        else if c = 46 then ([], 546)
        else if c = 47 then ([USaveHost, UMark], 513)
        else if c = 58 then ([USaveHost], 521)
        else if c = 63 then ([USaveHost, UMark, USavePath], 456)
        else if c = 64 then ([USaveUserinfo], 522)
        else if c < 65 then (if 36 \<le> c \<and> c \<le> 59 then ([], 520)
          else ([], 0))
        else if c > 90 then (if 97 \<le> c \<and> c \<le> 122 then ([], 520)
          else ([], 0))
        else ([], 520))
      else None)"

definition uri_states_546_550 :: "nat \<Rightarrow> int \<Rightarrow> uri_go option" where
  "uri_states_546_550 cs c =
     (if cs = 546 then Some (if c = 2 then ([], 237)
        else if c \<in> {33, 59, 61, 95, 126} then ([], 520)
        else if c = 35 then ([USaveHost, UMark, USavePath], 453)
        else if c = 37 then ([], 253)
        else if c = 47 then ([USaveHost, UMark], 513)
        else if c = 48 then ([], 547)
        else if c = 49 then ([], 549)
        else if c = 50 then ([], 551)
        else if c = 58 then ([USaveHost], 521)
        else if c = 63 then ([USaveHost, UMark, USavePath], 456)
        else if c = 64 then ([USaveUserinfo], 522)
        else if c < 51 then (if 36 \<le> c \<and> c \<le> 46 then ([], 520)
          else ([], 0))
        else if c > 57 then (if c > 90 then (if 97 \<le> c \<and> c \<le> 122 then ([], 520)
            else ([], 0))
          else if c \<ge> 65 then ([], 520)
          else ([], 0))
        else ([], 550))
      else if cs = 547 then Some (if c \<in> {33, 61, 95, 126} then ([], 520)
        else if c = 35 then ([USaveHost, UMark, USavePath], 453)
        else if c = 37 then ([], 253)
        else if c = 46 then ([], 548)
        else if c = 47 then ([USaveHost, UMark], 513)
        else if c = 58 then ([USaveHost], 521)
        else if c = 63 then ([USaveHost, UMark, USavePath], 456)
        else if c = 64 then ([USaveUserinfo], 522)
        else if c < 65 then (if 36 \<le> c \<and> c \<le> 59 then ([], 520)
          else ([], 0))
        else if c > 90 then (if 97 \<le> c \<and> c \<le> 122 then ([], 520)
          else ([], 0))
        else ([], 520))
      else if cs = 548 then Some (if c = 2 then ([], 241)
        else if c \<in> {33, 61, 95, 126} then ([], 520)
        else if c = 35 then ([USaveHost, UMark, USavePath], 453)
        else if c = 37 then ([], 253)
        else if c = 47 then ([USaveHost, UMark], 513)
        else if c = 58 then ([USaveHost], 521)
        else if c = 63 then ([USaveHost, UMark, USavePath], 456)
        else if c = 64 then ([USaveUserinfo], 522)
        else if c < 65 then (if 36 \<le> c \<and> c \<le> 59 then ([], 520)
          else ([], 0))
        else if c > 90 then (if 97 \<le> c \<and> c \<le> 122 then ([], 520)
          else ([], 0))
        else ([], 520))
      else if cs = 549 then Some (if c \<in> {33, 59, 61, 95, 126} then ([], 520)
        else if c = 35 then ([USaveHost, UMark, USavePath], 453)
        else if c = 37 then ([], 253)
        else if c = 46 then ([], 548)
        else if c = 47 then ([USaveHost, UMark], 513)
        else if c = 58 then ([USaveHost], 521)
        else if c = 63 then ([USaveHost, UMark, USavePath], 456)
        else if c = 64 then ([USaveUserinfo], 522)
        else if c < 48 then (if 36 \<le> c \<and> c \<le> 45 then ([], 520)
          else ([], 0))
        else if c > 57 then (if c > 90 then (if 97 \<le> c \<and> c \<le> 122 then ([], 520)
            else ([], 0))
          else if c \<ge> 65 then ([], 520)
          else ([], 0))
        else ([], 550))
      else if cs = 550 then Some (if c \<in> {33, 59, 61, 95, 126} then ([], 520)
        else if c = 35 then ([USaveHost, UMark, USavePath], 453)
        else if c = 37 then ([], 253)
        else if c = 46 then ([], 548)
        else if c = 47 then ([USaveHost, UMark], 513)
        else if c = 58 then ([USaveHost], 521)
        else if c = 63 then ([USaveHost, UMark, USavePath], 456)
        else if c = 64 then ([USaveUserinfo], 522)
        else if c < 48 then (if 36 \<le> c \<and> c \<le> 45 then ([], 520)
          else ([], 0))
        else if c > 57 then (if c > 90 then (if 97 \<le> c \<and> c \<le> 122 then ([], 520)
            else ([], 0))
          else if c \<ge> 65 then ([], 520)
          else ([], 0))
        else ([], 547))
      else None)"

definition uri_states_551_554 :: "nat \<Rightarrow> int \<Rightarrow> uri_go option" where
  "uri_states_551_554 cs c =
     (if cs = 551 then Some (if c \<in> {33, 59, 61, 95, 126} then ([], 520)
        else if c = 35 then ([USaveHost, UMark, USavePath], 453)
        else if c = 37 then ([], 253)
        else if c = 46 then ([], 548)
        else if c = 47 then ([USaveHost, UMark], 513)
        else if c = 53 then ([], 552)
        else if c = 58 then ([USaveHost], 521)
        else if c = 63 then ([USaveHost, UMark, USavePath], 456)
        else if c = 64 then ([USaveUserinfo], 522)
        else if c < 48 then (if 36 \<le> c \<and> c \<le> 45 then ([], 520)
          else ([], 0))
        else if c > 57 then (if c > 90 then (if 97 \<le> c \<and> c \<le> 122 then ([], 520)
            else ([], 0))
          else if c \<ge> 65 then ([], 520)
          else ([], 0))
        else ([], 547))
      else if cs = 552 then Some (if c \<in> {33, 61, 95, 126} then ([], 520)
        else if c = 35 then ([USaveHost, UMark, USavePath], 453)
        else if c = 37 then ([], 253)
        else if c = 46 then ([], 548)
        else if c = 47 then ([USaveHost, UMark], 513)
        else if c = 58 then ([USaveHost], 521)
        else if c = 63 then ([USaveHost, UMark, USavePath], 456)
        else if c = 64 then ([USaveUserinfo], 522)
        else if c < 54 then (if c > 45 then (if 48 \<le> c \<and> c \<le> 53 then ([], 547)
            else ([], 0))
          else if c \<ge> 36 then ([], 520)
          else ([], 0))
        else if c > 59 then (if c > 90 then (if 97 \<le> c \<and> c \<le> 122 then ([], 520)
            else ([], 0))
          else if c \<ge> 65 then ([], 520)
          else ([], 0))
        else ([], 520))
      else if cs = 553 then Some (if c \<in> {33, 59, 61, 95, 126} then ([], 520)
        else if c = 35 then ([USaveHost, UMark, USavePath], 453)
        else if c = 37 then ([], 253)
        else if c = 46 then ([], 546)
        else if c = 47 then ([USaveHost, UMark], 513)
        else if c = 58 then ([USaveHost], 521)
        else if c = 63 then ([USaveHost, UMark, USavePath], 456)
        else if c = 64 then ([USaveUserinfo], 522)
        else if c < 48 then (if 36 \<le> c \<and> c \<le> 45 then ([], 520)
          else ([], 0))
        else if c > 57 then (if c > 90 then (if 97 \<le> c \<and> c \<le> 122 then ([], 520)
            else ([], 0))
          else if c \<ge> 65 then ([], 520)
          else ([], 0))
        else ([], 554))
      else if cs = 554 then Some (if c \<in> {33, 59, 61, 95, 126} then ([], 520)
        else if c = 35 then ([USaveHost, UMark, USavePath], 453)
        else if c = 37 then ([], 253)
        else if c = 46 then ([], 546)
        else if c = 47 then ([USaveHost, UMark], 513)
        else if c = 58 then ([USaveHost], 521)
        else if c = 63 then ([USaveHost, UMark, USavePath], 456)
        else if c = 64 then ([USaveUserinfo], 522)
        else if c < 48 then (if 36 \<le> c \<and> c \<le> 45 then ([], 520)
          else ([], 0))
        else if c > 57 then (if c > 90 then (if 97 \<le> c \<and> c \<le> 122 then ([], 520)
            else ([], 0))
          else if c \<ge> 65 then ([], 520)
          else ([], 0))
        else ([], 545))
      else None)"

definition uri_states_555_558 :: "nat \<Rightarrow> int \<Rightarrow> uri_go option" where
  "uri_states_555_558 cs c =
     (if cs = 555 then Some (if c \<in> {33, 59, 61, 95, 126} then ([], 520)
        else if c = 35 then ([USaveHost, UMark, USavePath], 453)
        else if c = 37 then ([], 253)
        else if c = 46 then ([], 546)
        else if c = 47 then ([USaveHost, UMark], 513)
        else if c = 53 then ([], 556)
        else if c = 58 then ([USaveHost], 521)
        else if c = 63 then ([USaveHost, UMark, USavePath], 456)
        else if c = 64 then ([USaveUserinfo], 522)
        else if c < 48 then (if 36 \<le> c \<and> c \<le> 45 then ([], 520)
          else ([], 0))
        else if c > 57 then (if c > 90 then (if 97 \<le> c \<and> c \<le> 122 then ([], 520)
            else ([], 0))
          else if c \<ge> 65 then ([], 520)
          else ([], 0))
        else ([], 545))
      else if cs = 556 then Some (if c \<in> {33, 61, 95, 126} then ([], 520)
        else if c = 35 then ([USaveHost, UMark, USavePath], 453)
        else if c = 37 then ([], 253)
        else if c = 46 then ([], 546)
        else if c = 47 then ([USaveHost, UMark], 513)
        else if c = 58 then ([USaveHost], 521)
        else if c = 63 then ([USaveHost, UMark, USavePath], 456)
        else if c = 64 then ([USaveUserinfo], 522)
        else if c < 54 then (if c > 45 then (if 48 \<le> c \<and> c \<le> 53 then ([], 545)
            else ([], 0))
          else if c \<ge> 36 then ([], 520)
          else ([], 0))
        else if c > 59 then (if c > 90 then (if 97 \<le> c \<and> c \<le> 122 then ([], 520)
            else ([], 0))
          else if c \<ge> 65 then ([], 520)
          else ([], 0))
        else ([], 520))
      else if cs = 557 then Some (if c \<in> {33, 59, 61, 95, 126} then ([], 520)
        else if c = 35 then ([USaveHost, UMark, USavePath], 453)
        else if c = 37 then ([], 253)
        else if c = 46 then ([], 544)
        else if c = 47 then ([USaveHost, UMark], 513)
        else if c = 58 then ([USaveHost], 521)
        else if c = 63 then ([USaveHost, UMark, USavePath], 456)
        else if c = 64 then ([USaveUserinfo], 522)
        else if c < 48 then (if 36 \<le> c \<and> c \<le> 45 then ([], 520)
          else ([], 0))
        else if c > 57 then (if c > 90 then (if 97 \<le> c \<and> c \<le> 122 then ([], 520)
            else ([], 0))
          else if c \<ge> 65 then ([], 520)
          else ([], 0))
        else ([], 558))
      else if cs = 558 then Some (if c \<in> {33, 59, 61, 95, 126} then ([], 520)
        else if c = 35 then ([USaveHost, UMark, USavePath], 453)
        else if c = 37 then ([], 253)
        else if c = 46 then ([], 544)
        else if c = 47 then ([USaveHost, UMark], 513)
        else if c = 58 then ([USaveHost], 521)
        else if c = 63 then ([USaveHost, UMark, USavePath], 456)
        else if c = 64 then ([USaveUserinfo], 522)
        else if c < 48 then (if 36 \<le> c \<and> c \<le> 45 then ([], 520)
          else ([], 0))
        else if c > 57 then (if c > 90 then (if 97 \<le> c \<and> c \<le> 122 then ([], 520)
            else ([], 0))
          else if c \<ge> 65 then ([], 520)
          else ([], 0))
        else ([], 543))
      else None)"

definition uri_states_559_560 :: "nat \<Rightarrow> int \<Rightarrow> uri_go option" where
  "uri_states_559_560 cs c =
     (if cs = 559 then Some (if c \<in> {33, 59, 61, 95, 126} then ([], 520)
        else if c = 35 then ([USaveHost, UMark, USavePath], 453)
        else if c = 37 then ([], 253)
        else if c = 46 then ([], 544)
        else if c = 47 then ([USaveHost, UMark], 513)
        else if c = 53 then ([], 560)
        else if c = 58 then ([USaveHost], 521)
        else if c = 63 then ([USaveHost, UMark, USavePath], 456)
        else if c = 64 then ([USaveUserinfo], 522)
        else if c < 48 then (if 36 \<le> c \<and> c \<le> 45 then ([], 520)
          else ([], 0))
        else if c > 57 then (if c > 90 then (if 97 \<le> c \<and> c \<le> 122 then ([], 520)
            else ([], 0))
          else if c \<ge> 65 then ([], 520)
          else ([], 0))
        else ([], 543))
      else if cs = 560 then Some (if c \<in> {33, 61, 95, 126} then ([], 520)
        else if c = 35 then ([USaveHost, UMark, USavePath], 453)
        else if c = 37 then ([], 253)
        else if c = 46 then ([], 544)
        else if c = 47 then ([USaveHost, UMark], 513)
        else if c = 58 then ([USaveHost], 521)
        else if c = 63 then ([USaveHost, UMark, USavePath], 456)
        else if c = 64 then ([USaveUserinfo], 522)
        else if c < 54 then (if c > 45 then (if 48 \<le> c \<and> c \<le> 53 then ([], 543)
            else ([], 0))
          else if c \<ge> 36 then ([], 520)
          else ([], 0))
        else if c > 59 then (if c > 90 then (if 97 \<le> c \<and> c \<le> 122 then ([], 520)
            else ([], 0))
          else if c \<ge> 65 then ([], 520)
          else ([], 0))
        else ([], 520))
      else None)"

definition uri_trans :: "nat \<Rightarrow> int \<Rightarrow> uri_go option" where
  "uri_trans cs c =
     (if cs \<le> 358 then (if cs \<le> 187 then (if cs \<le> 83 then (if cs \<le> 30 then (if cs \<le> 6 then (if cs \<le> 4 then (uri_states_454_4 cs c)
                else uri_states_455_6 cs c)
              else if cs \<le> 11 then (uri_states_457_11 cs c)
              else if cs \<le> 22 then (uri_states_12_461 cs c)
              else uri_states_462_30 cs c)
            else if cs \<le> 47 then (if cs \<le> 33 then (uri_states_467_33 cs c)
              else if cs \<le> 37 then (uri_states_34_37 cs c)
              else uri_states_38_47 cs c)
            else if cs \<le> 57 then (uri_states_48_57 cs c)
            else if cs \<le> 67 then (uri_states_58_67 cs c)
            else uri_states_68_83 cs c)
          else if cs \<le> 133 then (if cs \<le> 106 then (if cs \<le> 97 then (uri_states_84_97 cs c)
              else uri_states_98_106 cs c)
            else if cs \<le> 114 then (uri_states_107_114 cs c)
            else if cs \<le> 123 then (uri_states_115_123 cs c)
            else uri_states_124_133 cs c)
          else if cs \<le> 162 then (if cs \<le> 144 then (uri_states_134_144 cs c)
            else if cs \<le> 153 then (uri_states_145_153 cs c)
            else uri_states_154_162 cs c)
          else if cs \<le> 171 then (uri_states_163_171 cs c)
          else if cs \<le> 179 then (uri_states_172_179 cs c)
          else uri_states_180_187 cs c)
        else if cs \<le> 257 then (if cs \<le> 227 then (if cs \<le> 203 then (if cs \<le> 195 then (uri_states_188_195 cs c)
              else uri_states_196_203 cs c)
            else if cs \<le> 211 then (uri_states_204_211 cs c)
            else if cs \<le> 219 then (uri_states_212_219 cs c)
            else uri_states_220_227 cs c)
          else if cs \<le> 242 then (if cs \<le> 228 then (uri_states_228_491 cs c)
            else if cs \<le> 234 then (uri_states_509_234 cs c)
            else uri_states_235_513 cs c)
          else if cs \<le> 246 then (uri_states_243_246 cs c)
          else if cs \<le> 254 then (uri_states_247_254 cs c)
          else uri_states_521_257 cs c)
        else if cs \<le> 293 then (if cs \<le> 261 then (if cs \<le> 259 then (uri_states_522_524 cs c)
            else uri_states_539_261 cs c)
          else if cs \<le> 271 then (uri_states_262_271 cs c)
          else if cs \<le> 281 then (uri_states_272_281 cs c)
          else uri_states_282_293 cs c)
        else if cs \<le> 330 then (if cs \<le> 309 then (uri_states_294_309 cs c)
          else if cs \<le> 322 then (uri_states_310_322 cs c)
          else uri_states_323_330 cs c)
        else if cs \<le> 339 then (uri_states_331_339 cs c)
        else if cs \<le> 347 then (uri_states_340_347 cs c)
        else uri_states_348_358 cs c)
      else if cs \<le> 475 then (if cs \<le> 450 then (if cs \<le> 403 then (if cs \<le> 378 then (if cs \<le> 369 then (uri_states_359_369 cs c)
              else uri_states_370_378 cs c)
            else if cs \<le> 386 then (uri_states_379_386 cs c)
            else if cs \<le> 395 then (uri_states_387_395 cs c)
            else uri_states_396_403 cs c)
          else if cs \<le> 427 then (if cs \<le> 411 then (uri_states_404_411 cs c)
            else if cs \<le> 419 then (uri_states_412_419 cs c)
            else uri_states_420_427 cs c)
          else if cs \<le> 435 then (uri_states_428_435 cs c)
          else if cs \<le> 443 then (uri_states_436_443 cs c)
          else uri_states_444_450 cs c)
        else if cs \<le> 456 then (if cs \<le> 453 then (if cs \<le> 452 then (uri_states_451_452 cs c)
            else uri_states_453_453 cs c)
          else if cs \<le> 454 then (uri_states_454_4 cs c)
          else if cs \<le> 455 then (uri_states_455_6 cs c)
          else uri_states_456_456 cs c)
        else if cs \<le> 466 then (if cs \<le> 459 then (uri_states_457_11 cs c)
          else if cs \<le> 461 then (uri_states_12_461 cs c)
          else uri_states_462_30 cs c)
        else if cs \<le> 468 then (uri_states_467_33 cs c)
        else if cs \<le> 470 then (uri_states_34_37 cs c)
        else uri_states_471_475 cs c)
      else if cs \<le> 519 then (if cs \<le> 496 then (if cs \<le> 484 then (if cs \<le> 480 then (uri_states_476_480 cs c)
            else uri_states_481_484 cs c)
          else if cs \<le> 488 then (uri_states_485_488 cs c)
          else if cs \<le> 491 then (uri_states_228_491 cs c)
          else uri_states_492_496 cs c)
        else if cs \<le> 508 then (if cs \<le> 500 then (uri_states_497_500 cs c)
          else if cs \<le> 504 then (uri_states_501_504 cs c)
          else uri_states_505_508 cs c)
        else if cs \<le> 511 then (uri_states_509_234 cs c)
        else if cs \<le> 513 then (uri_states_235_513 cs c)
        else uri_states_243_246 cs c)
      else if cs \<le> 538 then (if cs \<le> 524 then (if cs \<le> 520 then (uri_states_247_254 cs c)
          else if cs \<le> 521 then (uri_states_521_257 cs c)
          else uri_states_522_524 cs c)
        else if cs \<le> 529 then (uri_states_525_529 cs c)
        else if cs \<le> 534 then (uri_states_530_534 cs c)
        else uri_states_535_538 cs c)
      else if cs \<le> 550 then (if cs \<le> 541 then (uri_states_539_261 cs c)
        else if cs \<le> 545 then (uri_states_542_545 cs c)
        else uri_states_546_550 cs c)
      else if cs \<le> 554 then (uri_states_551_554 cs c)
      else if cs \<le> 558 then (uri_states_555_558 cs c)
      else uri_states_559_560 cs c)"

definition uri_eof :: "nat \<Rightarrow> uri_act list" where
  "uri_eof cs =
     (if cs = 462 \<or> cs = 489 then [USavePort]
      else if cs = 460 \<or> 463 \<le> cs \<and> cs \<le> 467 \<or> 470 \<le> cs \<and> cs \<le> 488 \<or> 490 \<le> cs \<and> cs \<le> 507 then [USaveHost]
      else if cs = 513 then [USavePath]
      else if cs = 457 then [USaveQuery]
      else if cs = 454 then [USaveFragment]
      else if cs = 456 then [UMark, USaveQuery]
      else if cs = 453 then [UMark, USaveFragment]
      else if cs = 461 \<or> cs = 468 then [UMark, USavePort]
      else if cs = 459 \<or> cs = 469 then [UMark, USaveHost]
      else if cs = 514 \<or> cs = 521 then [UMark, USavePort, USavePath]
      else if cs = 511 \<or> cs = 522 then [UMark, USaveHost, USavePath]
      else if cs = 515 \<or> cs = 542 then [USavePort, UMark, USavePath]
      else if cs = 512 \<or> 516 \<le> cs \<and> cs \<le> 520 \<or> 523 \<le> cs \<and> cs \<le> 541 \<or> 543 \<le> cs \<and> cs \<le> 560 then [USaveHost, UMark, USavePath]
      else [])"

end
