(* ===== verification/Uri.thy ===== *)
theory Uri
  imports Uri_Table CLib Address
begin

text \<open>
  \<open>radixun/http/uri.{h,rl,rl.cc}\<close>: the URI object, the functions around the generated parser, printing and the
  address of the host.

  \<^item> \<open>mark\<close> is \<open>NULL\<close> or an offset into the text; it is what the machine keeps besides its state;
  \<^item> an action that saves a piece is an event for \<open>uri_save\<close>, which sets the field of the object;
  \<^item> \<open>std::string\<close> of a null pointer and a length throws \<open>std::logic_error\<close>; \<open>atoi\<close> of one is a fault;
  \<^item> \<open>getaddrinfo\<close> is the argument \<open>gai\<close>, as in \<open>Address\<close>.
\<close>

section \<open>The object\<close>

record uri =
  ur_scheme :: string
  ur_userinfo :: string
  ur_host :: string
  ur_path :: string
  ur_query :: string
  ur_fragment :: string
  ur_port :: int

definition Uri_new :: uri where
  "Uri_new = \<lparr>ur_scheme = [], ur_userinfo = [], ur_host = [], ur_path = [], ur_query = [], ur_fragment = [], ur_port = 0\<rparr>"

definition isDefaultPort :: "uri \<Rightarrow> bool" where
  "isDefaultPort u =
     (if ur_port u = 0 then True
      else if ur_scheme u = ''http'' then ur_port u = 80
      else if ur_scheme u = ''https'' then ur_port u = 443
      else False)"

definition ur_getPath :: "uri \<Rightarrow> string" where
  "ur_getPath u = (if ur_path u = [] then ''/'' else ur_path u)"

definition ur_getPort :: "uri \<Rightarrow> int" where
  "ur_getPort u =
     (if ur_port u \<noteq> 0 then ur_port u
      else if ur_scheme u = ''http'' then 80
      else if ur_scheme u = ''https'' then 443
      else ur_port u)"

definition to_string :: "int \<Rightarrow> string" where
  "to_string v = (if v < 0 then CHR ''-'' # dec_string (nat (- v)) else dec_string (nat v))"

definition ur_dump :: "uri \<Rightarrow> string" where
  "ur_dump u =
     ur_scheme u @ ''://'' @ ur_userinfo u @ (if ur_userinfo u = [] then [] else ''@'') @ ur_host u
       @ (if isDefaultPort u then [] else '':'' @ to_string (ur_port u)) @ ur_getPath u
       @ (if ur_query u = [] then [] else ''?'') @ ur_query u
       @ (if ur_fragment u = [] then [] else ''#'') @ ur_fragment u"

definition ur_toString :: "uri \<Rightarrow> string" where "ur_toString u = ur_dump u"

definition ur_createAddress :: "nat \<Rightarrow> gai \<Rightarrow> uri \<Rightarrow> address option outcome" where
  "ur_createAddress host gai u =
     obind (LookupAnyIPAddress host gai (ur_host u) (int AF_INET) 0 0) (\<lambda>addr.
       Ret (map_option (setPort host (word_of_int (ur_getPort u))) addr))"

section \<open>Actions\<close>

datatype uri_part = Scheme | Userinfo | Host | Port | Path | Query | Fragment

datatype uri_event = UriPart uri_part "nat option" nat

fun uri_do :: "nat \<Rightarrow> nat \<Rightarrow> uri_act \<Rightarrow> nat option \<Rightarrow> uri_event option \<times> nat option" where
  "uri_do pe p UMark mark = (None, Some p)"
| "uri_do pe p USaveScheme mark = (Some (UriPart Scheme mark p), None)"
| "uri_do pe p USavePort mark = (if Some p \<noteq> mark then Some (UriPart Port mark p) else None, None)"
| "uri_do pe p USaveUserinfo mark = (if mark \<noteq> None then Some (UriPart Userinfo mark p) else None, None)"
| "uri_do pe p USaveHost mark = (if mark \<noteq> None then Some (UriPart Host mark p) else None, mark)"
| "uri_do pe p USavePath mark = (Some (UriPart Path mark p), None)"
| "uri_do pe p USaveQuery mark = (Some (UriPart Query mark p), None)"
| "uri_do pe p USaveFragment mark = (Some (UriPart Fragment mark p), None)"

fun set_part :: "uri_part \<Rightarrow> string \<Rightarrow> uri \<Rightarrow> uri" where
  "set_part Scheme v u = u\<lparr>ur_scheme := v\<rparr>"
| "set_part Userinfo v u = u\<lparr>ur_userinfo := v\<rparr>"
| "set_part Host v u = u\<lparr>ur_host := v\<rparr>"
| "set_part Port v u = u\<lparr>ur_port := narrow32 (strtol 10 v)\<rparr>"
| "set_part Path v u = u\<lparr>ur_path := v\<rparr>"
| "set_part Query v u = u\<lparr>ur_query := v\<rparr>"
| "set_part Fragment v u = u\<lparr>ur_fragment := v\<rparr>"

text \<open>\<open>atoi\<close> reads on from the mark to the first character that is not a digit.\<close>

fun uri_save :: "string \<Rightarrow> (uri_event, uri) sink" where
  "uri_save text (UriPart part None p) u = (if part = Port then Fault NullDeref else Throw LogicError)"
| "uri_save text (UriPart part (Some mark) p) u =
     (if part = Port then Ret (set_part Port (drop mark text) u)
      else obind (cpp_string text mark (p - mark)) (\<lambda>v. Ret (set_part part v u)))"

definition uri_machine :: "(uri_act, nat option, uri_event) machine" where
  "uri_machine = \<lparr>m_trans = (\<lambda>_. uri_trans), m_do = uri_do, m_break = (\<lambda>_. False)\<rparr>"

lemma uri_machine_simps [simp]:
  "m_trans uri_machine mark = uri_trans" "m_do uri_machine = uri_do" "\<not> m_break uri_machine a"
  by (simp_all add: uri_machine_def)

section \<open>Creating a URI from its text\<close>

definition uri_run :: "(uri_event, 'd) sink \<Rightarrow> string \<Rightarrow> 'd \<Rightarrow> (nat \<times> 'd) outcome" where
  "uri_run h text d =
     obind (run_machine uri_machine h text 0 uri_parser_start None d) (\<lambda>(cs, p, mark, d1).
       if p = length text
       then obind (run_acts uri_machine h (length text) p (uri_eof cs) mark d1) (\<lambda>(_, _, d2). Ret (cs, d2))
       else Ret (cs, d1))"

definition Uri_Create :: "string \<Rightarrow> uri option outcome" where
  "Uri_Create text =
     obind (uri_run (uri_save text) text Uri_new) (\<lambda>(cs, u).
       if cs = uri_parser_error then Ret None
       else if cs \<ge> uri_parser_first_final then Ret (Some u)
       else Ret None)"

lemma uri_run_deliver:
  assumes "uri_run log_handler text [] = Ret (cs, es)"
  shows "uri_run h text d = obind (deliver h es d) (\<lambda>d'. Ret (cs, d' :: 'd))"
proof -
  obtain cs1 p1 mark1 es1 where r:
      "\<And>es0. run_machine uri_machine log_handler text 0 uri_parser_start None es0 = Ret (cs1, p1, mark1, es0 @ es1)"
      "\<And>h d. run_machine uri_machine h text 0 uri_parser_start None d = obind (deliver h es1 d) (\<lambda>d'. Ret (cs1, p1, mark1, d' :: 'd))"
    using run_machine_deliver by metis
  obtain brk mark2 es2 where a:
      "\<And>es0. run_acts uri_machine log_handler (length text) p1 (uri_eof cs1) mark1 es0 = Ret (brk, mark2, es0 @ es2)"
      "\<And>h d. run_acts uri_machine h (length text) p1 (uri_eof cs1) mark1 d = obind (deliver h es2 d) (\<lambda>d'. Ret (brk, mark2, d' :: 'd))"
    using run_acts_deliver by metis
  show ?thesis
  proof (cases "p1 = length text")
    case True
    then have "es = es1 @ es2" "cs = cs1" using assms a(1) [of es1] by (simp_all add: uri_run_def r)
    then show ?thesis using True a(2) by (simp add: uri_run_def r(2) obind_assoc deliver_append)
  next
    case False
    then show ?thesis using assms by (simp add: uri_run_def r obind_assoc)
  qed
qed

end
