(* ===== verification/HttpRequester.thy ===== *)
theory HttpRequester
  imports HttpConnection Uri
begin

text \<open>
  \<open>radixun/http/http_connection.{h,cpp}\<close>, one request from a URL or a \<open>Uri\<close> to an \<open>HttpResult\<close>.

  \<^item> a \<open>client\<close> holds what the functions take from outside: the byte order, \<open>getaddrinfo\<close>, the results of the
    system calls of one request, what the peer sends and accepts, the stream environment of \<open>HttpConnection\<close>,
    freshly allocated memory, and \<open>strerror\<close>;
  \<^item> the descriptors and the log of the system calls are the \<open>net\<close> of \<open>Socket\<close>; a connection that the function
    drops is destroyed before it returns, which closes its socket;
  \<^item> \<open>std::make_shared<Socket>\<close> never returns null, so \<open>CREATE_SOCKET_ERROR\<close> has no branch;
  \<^item> the headers of a request are the \<open>std::map\<close>'s pairs in its order.
\<close>

section \<open>Results\<close>

datatype error = OK | INVALID_URL | INVALID_HOST | CONNECT_FAIL | SEND_CLOSE_BY_PEER | SEND_SOCKET_ERROR | TIMEOUT
  | CREATE_SOCKET_ERROR | POOL_GET_CONNECTION | POOL_INVALID_CONNECTION

fun error_code :: "error \<Rightarrow> int" where
  "error_code OK = 0"
| "error_code INVALID_URL = 1"
| "error_code INVALID_HOST = 2"
| "error_code CONNECT_FAIL = 3"
| "error_code SEND_CLOSE_BY_PEER = 4"
| "error_code SEND_SOCKET_ERROR = 5"
| "error_code TIMEOUT = 6"
| "error_code CREATE_SOCKET_ERROR = 7"
| "error_code POOL_GET_CONNECTION = 8"
| "error_code POOL_INVALID_CONNECTION = 9"

record http_result =
  hr_result :: int
  hr_response :: "http_response option"
  hr_error :: string

definition hr_toString :: "http_result \<Rightarrow> string" where
  "hr_toString h =
     ''[HttpResult result='' @ int_string (hr_result h) @ '' error='' @ hr_error h @ '' response='' @
       (case hr_response h of None \<Rightarrow> ''nullptr'' | Some r \<Rightarrow> rs_toString r) @ '']''"

definition failed :: "error \<Rightarrow> string \<Rightarrow> http_result" where
  "failed e msg = \<lparr>hr_result = error_code e, hr_response = None, hr_error = msg\<rparr>"

definition answered :: "http_response \<Rightarrow> http_result" where
  "answered r = \<lparr>hr_result = error_code OK, hr_response = Some r, hr_error = ''ok''\<rparr>"

section \<open>The request object\<close>

text \<open>One header of the argument: \<open>connection\<close> is never passed on, and \<open>host\<close> counts as given when it is not
  empty.\<close>

fun add_header :: "bool \<times> http_request \<Rightarrow> string \<times> string \<Rightarrow> bool \<times> http_request" where
  "add_header (has_host, req) (k, v) =
     (if ci_key k = ci_key ''connection''
      then (has_host, if ci_key v = ci_key ''keep-alive'' then req\<lparr>rq_close := False\<rparr> else req)
      else (if \<not> has_host \<and> ci_key k = ci_key ''host'' then v \<noteq> [] else has_host, rq_setHeader k v req))"

definition add_headers :: "string \<Rightarrow> (string \<times> string) list \<Rightarrow> http_request \<Rightarrow> http_request" where
  "add_headers host_name headers req =
     (let (has_host, req1) = foldl add_header (False, req) headers
      in if has_host then req1 else rq_setHeader ''Host'' host_name req1)"

definition request_of :: "http_method \<Rightarrow> uri \<Rightarrow> (string \<times> string) list \<Rightarrow> string \<Rightarrow> http_request" where
  "request_of method u headers body =
     (add_headers (ur_host u) headers
       ((HttpRequest_new 0x11 True)\<lparr>rq_path := ur_getPath u, rq_query := ur_query u, rq_fragment := ur_fragment u,
          rq_method := method\<rparr>))\<lparr>rq_body := body\<rparr>"

section \<open>The exchange on a connection\<close>

record client =
  cl_host :: nat
  cl_gai :: gai
  cl_kernel :: kernel
  cl_env :: "sock_stream stream_env"
  cl_fresh :: "sock_stream fresh"
  cl_peer_in :: "nat \<Rightarrow> nat \<Rightarrow> int \<times> byte list"
  cl_peer_out :: "nat \<Rightarrow> byte list \<Rightarrow> int"
  cl_strerror :: "int \<Rightarrow> string"

text \<open>\<open>HttpConnection(sock)\<close>: the owner of the socket.\<close>

definition HttpConnection_new :: "client \<Rightarrow> sock \<Rightarrow> net \<Rightarrow> sock_stream" where
  "HttpConnection_new c s n =
     \<lparr>ss_socket = Some s, ss_owner = True, ss_net = n, ss_kernel = cl_kernel c, ss_recvs = 0, ss_sends = 0,
      ss_peer_in = cl_peer_in c, ss_peer_out = cl_peer_out c\<rparr>"

text \<open>From \<open>sendRequest\<close> to the result; \<open>peer\<close> is the text of the peer's address.\<close>

definition send_and_receive :: "nat \<Rightarrow> client \<Rightarrow> (sock_stream \<Rightarrow> (string \<times> sock_stream) outcome) \<Rightarrow> u64 \<Rightarrow> http_request
    \<Rightarrow> sock_stream \<Rightarrow> (http_result outcome \<times> sock_stream) option" where
  "send_and_receive fuel c peer timeout_ms req t =
     (let named = (\<lambda>t e text rest. case peer t of
            Ret (a, t1) \<Rightarrow> Some (Ret (failed e (text @ a @ rest)), t1)
          | Throw x \<Rightarrow> Some (Throw x, t) | Fault x \<Rightarrow> Some (Fault x, t));
          err = k_errno (cl_kernel c)
      in then_do (sendRequest fuel (cl_env c) req t) (\<lambda>rt t1.
           if rt = 0 then named t1 SEND_CLOSE_BY_PEER ''send request closed by peer: '' []
           else if rt < 0
           then Some (Ret (failed SEND_SOCKET_ERROR (''send request socket error errno='' @ int_string err @ '' errstr='' @
                  cl_strerror c err)), t1)
           else then_do (recvResponse fuel (cl_env c) (cl_fresh c) t1) (\<lambda>rsp t2.
             case rsp of
               None \<Rightarrow> named t2 TIMEOUT ''recv response timeout: '' ('' timeout_ms:'' @ dec_string (unat timeout_ms))
             | Some r \<Rightarrow> Some (Ret (answered r), t2))))"

section \<open>DoRequest\<close>

text \<open>The end of the function: the connection is destroyed whether it returns or throws.\<close>

definition drop_connection :: "(http_result outcome \<times> sock_stream) option \<Rightarrow> (http_result outcome \<times> net) option" where
  "drop_connection m =
     (case m of
        None \<Rightarrow> None
      | Some (Fault f, t) \<Rightarrow> Some (Fault f, ss_net t)
      | Some (res, t) \<Rightarrow> (case ss_destroy t of
          Ret t1 \<Rightarrow> Some (res, ss_net t1)
        | Throw e \<Rightarrow> Some (Throw e, ss_net t)
        | Fault f \<Rightarrow> Some (Fault f, ss_net t)))"

definition on_net :: "net \<Rightarrow> ('a \<times> net) outcome \<Rightarrow> ('a outcome \<times> net) option" where
  "on_net n m = (case m of Ret (x, n1) \<Rightarrow> Some (Ret x, n1) | Throw e \<Rightarrow> Some (Throw e, n) | Fault f \<Rightarrow> Some (Fault f, n))"

text \<open>A socket for an address, connected; \<open>None\<close> when the connect failed and the socket was dropped.\<close>

definition connected_to :: "client \<Rightarrow> address \<Rightarrow> net \<Rightarrow> (sock option \<times> net) outcome" where
  "connected_to c addr n =
     obind (sock_connect (cl_host c) (cl_kernel c) addr (- 1) (CreateTCP addr) n) (\<lambda>(ok, s, n1).
       if ok then Ret (Some s, n1)
       else obind (sock_close (cl_kernel c) s n1) (\<lambda>(_, _, n2). Ret (None, n2)))"

definition DoRequest_request :: "nat \<Rightarrow> client \<Rightarrow> http_request \<Rightarrow> uri \<Rightarrow> u64 \<Rightarrow> net \<Rightarrow> (http_result outcome \<times> net) option" where
  "DoRequest_request fuel c req u timeout_ms n =
     then_do (Some (ur_createAddress (cl_host c) (cl_gai c) u, n)) (\<lambda>addr n.
       case addr of
         None \<Rightarrow> Some (Ret (failed INVALID_HOST (''invalid host: '' @ ur_host u)), n)
       | Some a \<Rightarrow>
           then_do (on_net n (connected_to c a n)) (\<lambda>sock n1.
             case sock of
               None \<Rightarrow> then_do (Some (Address_toString (cl_host c) a, n1)) (\<lambda>text n1.
                   Some (Ret (failed CONNECT_FAIL (''connect fail: '' @ text)), n1))
             | Some s \<Rightarrow>
                 then_do (on_net n1 (obind (setRecvTimeout (cl_kernel c) (sint timeout_ms) s n1) (\<lambda>n2. Ret ((), n2)))) (\<lambda>_ n2.
                   drop_connection (send_and_receive fuel c
                     (\<lambda>t. obind (Address_toString (cl_host c) a) (\<lambda>text. Ret (text, t))) timeout_ms req
                     (HttpConnection_new c s n2)))))"

definition DoRequest_uri :: "nat \<Rightarrow> client \<Rightarrow> http_method \<Rightarrow> uri \<Rightarrow> u64 \<Rightarrow> (string \<times> string) list \<Rightarrow> string \<Rightarrow> net
    \<Rightarrow> (http_result outcome \<times> net) option" where
  "DoRequest_uri fuel c method u timeout_ms headers body n =
     DoRequest_request fuel c (request_of method u headers body) u timeout_ms n"

definition with_uri :: "string \<Rightarrow> (uri \<Rightarrow> net \<Rightarrow> (http_result outcome \<times> net) option) \<Rightarrow> net
    \<Rightarrow> (http_result outcome \<times> net) option" where
  "with_uri url f n =
     then_do (Some (Uri_Create url, n)) (\<lambda>u n.
       case u of None \<Rightarrow> Some (Ret (failed INVALID_URL (''invalid url: '' @ url)), n) | Some u1 \<Rightarrow> f u1 n)"

definition DoRequest :: "nat \<Rightarrow> client \<Rightarrow> http_method \<Rightarrow> string \<Rightarrow> u64 \<Rightarrow> (string \<times> string) list \<Rightarrow> string \<Rightarrow> net
    \<Rightarrow> (http_result outcome \<times> net) option" where
  "DoRequest fuel c method url timeout_ms headers body =
     with_uri url (\<lambda>u. DoRequest_uri fuel c method u timeout_ms headers body)"

definition DoGet_uri :: "nat \<Rightarrow> client \<Rightarrow> uri \<Rightarrow> u64 \<Rightarrow> (string \<times> string) list \<Rightarrow> string \<Rightarrow> net \<Rightarrow> (http_result outcome \<times> net) option" where
  "DoGet_uri fuel c = DoRequest_uri fuel c GET"

definition DoGet :: "nat \<Rightarrow> client \<Rightarrow> string \<Rightarrow> u64 \<Rightarrow> (string \<times> string) list \<Rightarrow> string \<Rightarrow> net \<Rightarrow> (http_result outcome \<times> net) option" where
  "DoGet fuel c url timeout_ms headers body = with_uri url (\<lambda>u. DoGet_uri fuel c u timeout_ms headers body)"

definition DoPost_uri :: "nat \<Rightarrow> client \<Rightarrow> uri \<Rightarrow> u64 \<Rightarrow> (string \<times> string) list \<Rightarrow> string \<Rightarrow> net \<Rightarrow> (http_result outcome \<times> net) option" where
  "DoPost_uri fuel c = DoRequest_uri fuel c POST"

definition DoPost :: "nat \<Rightarrow> client \<Rightarrow> string \<Rightarrow> u64 \<Rightarrow> (string \<times> string) list \<Rightarrow> string \<Rightarrow> net \<Rightarrow> (http_result outcome \<times> net) option" where
  "DoPost fuel c url timeout_ms headers body = with_uri url (\<lambda>u. DoPost_uri fuel c u timeout_ms headers body)"

section \<open>The headers of the request\<close>

text \<open>The last value that the argument gives for a name.\<close>

definition last_value :: "string \<Rightarrow> (string \<times> string) list \<Rightarrow> string option" where
  "last_value k hs = map_option snd (find (\<lambda>h. ci_key k = ci_key (fst h)) (rev hs))"

lemma last_value_snoc [simp]:
  "last_value k [] = None"
  "last_value k (hs @ [(k', v)]) = (if ci_key k = ci_key k' then Some v else last_value k hs)"
  by (simp_all add: last_value_def)

definition names_host :: "(string \<times> string) list \<Rightarrow> bool" where
  "names_host hs \<longleftrightarrow> (\<exists>(k, v) \<in> set hs. ci_key k = ci_key ''host'' \<and> v \<noteq> [])"

lemma host_not_connection: "ci_key ''host'' \<noteq> ci_key ''connection''"
  by code_simp

lemma header_set:
  assumes "wf_headers (rq_headers r)"
  shows "wf_headers (rq_headers (rq_setHeader k v r))"
    "rq_getHeader (rq_setHeader k v r) k' d = (if ci_key k' = ci_key k then v else rq_getHeader r k' d)"
  using headers.wf_om_assign [OF assms, of k v] headers.om_find_assign [OF assms, of k' k v]
  by (simp_all add: rq_getHeader_def rq_setHeader_def map_get_def map_set_def equiv_ci)

lemma add_headers_loop:
  assumes "wf_headers (rq_headers req)"
  shows "wf_headers (rq_headers (snd (foldl add_header (False, req) hs)))
    \<and> fst (foldl add_header (False, req) hs) = names_host hs
    \<and> (\<forall>k d. rq_getHeader (snd (foldl add_header (False, req) hs)) k d =
        (case if is_connection k then None else last_value k hs of None \<Rightarrow> rq_getHeader req k d | Some v \<Rightarrow> v))"
proof (induction hs rule: rev_induct)
  case Nil
  then show ?case using assms by (simp add: names_host_def)
next
  case (snoc h hs)
  obtain k v where h: "h = (k, v)" by (cases h)
  obtain b r where r: "foldl add_header (False, req) hs = (b, r)" by (cases "foldl add_header (False, req) hs")
  note ih = snoc.IH [unfolded r fst_conv snd_conv]
  show ?case
  proof (cases "is_connection k")
    case True
    then have k: "ci_key k = ci_key ''connection''" by (simp add: is_connection_def)
    then have "names_host (hs @ [h]) = names_host hs" using host_not_connection by (simp add: h names_host_def)
    moreover have "last_value k' (hs @ [h]) = last_value k' hs" if "\<not> is_connection k'" for k'
      using that k by (simp add: h is_connection_def)
    moreover have "rq_getHeader (r\<lparr>rq_close := c\<rparr>) k' d = rq_getHeader r k' d" for c k' d by (simp add: rq_getHeader_def)
    ultimately show ?thesis using ih k by (auto simp: h r)
  next
    case False
    then have k: "ci_key k \<noteq> ci_key ''connection''" by (simp add: is_connection_def)
    have a: "add_header (b, r) (k, v) = (names_host (hs @ [h]), rq_setHeader k v r)"
      using ih k by (auto simp: h names_host_def)
    note g = header_set [OF conjunct1 [OF ih]]
    show ?thesis using ih k a g by (auto simp: h r is_connection_def)
  qed
qed

lemma add_headers_header:
  assumes "rq_headers req = []"
  shows "rq_getHeader (add_headers host_name headers req) k d =
     (if is_connection k then d
      else if ci_key k = ci_key ''host'' \<and> \<not> names_host headers then host_name
      else case last_value k headers of None \<Rightarrow> d | Some v \<Rightarrow> v)"
proof -
  obtain b r where r: "foldl add_header (False, req) headers = (b, r)" by (cases "foldl add_header (False, req) headers")
  have "wf_headers (rq_headers req)" using assms by simp
  note l = add_headers_loop [OF this, of headers, unfolded r fst_conv snd_conv]
  have none: "rq_getHeader req k d = d" using assms by (simp add: rq_getHeader_def map_get_def om_find_def)
  have "ci_key ''Host'' = ci_key ''host''" by code_simp
  moreover have "rq_getHeader (rq_setHeader ''Host'' host_name r) k d =
      (if ci_key k = ci_key ''Host'' then host_name else rq_getHeader r k d)"
    using l by (simp add: header_set(2))
  ultimately show ?thesis using l none host_not_connection
    by (cases "last_value k headers") (auto simp: add_headers_def r is_connection_def)
qed

text \<open>C27. The headers of the request that \<open>DoRequest\<close> builds: a name reads as the last value that the argument gives
  it under any capitalisation; \<open>connection\<close> is never passed on; and the URL's host stands under \<open>Host\<close> exactly when
  the argument gives no host that is not empty.\<close>

theorem request_headers_forwarded:
  "rq_getHeader (request_of method u headers body) k d =
     (if is_connection k then d
      else if ci_key k = ci_key ''host'' \<and> \<not> names_host headers then ur_host u
      else case last_value k headers of None \<Rightarrow> d | Some v \<Rightarrow> v)"
proof -
  have body: "rq_getHeader (q\<lparr>rq_body := body\<rparr>) k d = rq_getHeader q k d" for q by (simp add: rq_getHeader_def)
  show ?thesis unfolding request_of_def body by (rule add_headers_header) (simp add: HttpRequest_new_def)
qed

section \<open>A request is answered\<close>

text \<open>C17. When the address is found and connected, the peer takes the printed request, and the printed response arrives
  with its head in one read, the result is \<open>OK\<close> with that response, and the connection has been closed.\<close>

theorem do_request_answered:
  assumes addr: "ur_createAddress (cl_host c) (cl_gai c) u = Ret (Some a)" "connected_to c a n = Ret (Some s, n1)"
      "setRecvTimeout (cl_kernel c) (sint timeout_ms) s n1 = Ret n2"
    and sent: "accepts (en_write (cl_env c)) (HttpConnection_new c s n2) (map byte_of_char (rq_dump req)) t1"
      "length (rq_dump req) < 2 ^ 31"
    and p: "printable_response r" "rs_dump r = first @ later" "length later \<le> length (rs_body r)" "length (rs_dump r) < 2 ^ 31"
    and rd: "en_read (cl_env c) t1 (en_buff_size (cl_env c)) = ((int (length first), map byte_of_char first), t2)"
      "length first \<le> en_buff_size (cl_env c)" "en_buff_size (cl_env c) < 2 ^ 31"
      "en_buff_size (cl_env c) < length (fst (cl_fresh c t1))"
      "delivers (en_read (cl_env c)) t2 (length later) (map byte_of_char later) False t3"
    and env: "en_grants (cl_env c) (length (rs_body r))"
      "en_cast (cl_env c) (dec_string (length (rs_body r))) = Some (of_nat (length (rs_body r)))"
    and closed: "ss_destroy t3 = Ret t4" and fuel: "length (rq_dump req) + length later < fuel"
  shows "DoRequest_request fuel c req u timeout_ms n = Some (Ret (answered (received_response r)), ss_net t4)"
proof -
  let ?len = "length (rq_dump req)"
  have "0 < ?len" by (simp add: rq_dump_def)
  moreover have "sendRequest fuel (cl_env c) req (HttpConnection_new c s n2) = Some (Ret (int ?len), t1)"
    using writeFixSize_accepts [OF sent(1), of fuel] sent(2) fuel by (simp add: sendRequest_def)
  moreover have "recvResponse fuel (cl_env c) (cl_fresh c) t1 = Some (Ret (Some (received_response r)), t3)"
    by (rule recvResponse_printed [where fresh = "cl_fresh c" and s = t1, OF p rd(1-5) env]) (use fuel in simp)
  ultimately have "send_and_receive fuel c peer timeout_ms req (HttpConnection_new c s n2) =
      Some (Ret (answered (received_response r)), t3)" for peer
    by (simp add: send_and_receive_def)
  then show ?thesis using addr closed
    by (simp add: DoRequest_request_def on_net_def drop_connection_def)
qed

text \<open>A peer at one address that takes every write and sends one response.\<close>

definition demo_client :: client where
  "demo_client =
     \<lparr>cl_host = 1, cl_gai = (\<lambda>node service family ty protocol. Inr [Some (getAddr 1 addr_1)]),
      cl_kernel = plain_kernel addr_1,
      cl_env = socket_env 4096 (\<lambda>_. ([], blank_parser)) (\<lambda>_. True) (\<lambda>s. if s = ''2'' then Some 2 else None),
      cl_fresh = (\<lambda>_. (replicate 4097 CHR 0x00, blank_client)),
      cl_peer_in = (\<lambda>i n. (int (length (rs_dump sample_response)), map byte_of_char (rs_dump sample_response))),
      cl_peer_out = (\<lambda>i d. int (length d)), cl_strerror = (\<lambda>_. [])\<rparr>"

definition demo_uri :: uri where
  "demo_uri = Uri_new\<lparr>ur_scheme := ''http'', ur_host := ''localhost'', ur_path := ''/a''\<rparr>"

lemma demo_connected_run:
  "case ur_createAddress 1 (cl_gai demo_client) demo_uri of
     Ret (Some a) \<Rightarrow> (case connected_to demo_client a plain_net of
       Ret (Some s, n1) \<Rightarrow> (case setRecvTimeout (plain_kernel addr_1) 1000 s n1 of
         Ret n2 \<Rightarrow> sk_isConnected s \<and> sk_sock s = 7 \<and> Option.is_none (n_iom n2) | _ \<Rightarrow> False)
     | _ \<Rightarrow> False)
   | _ \<Rightarrow> False"
  by code_simp

lemma demo_connected:
  "\<exists>a s n1 n2. ur_createAddress 1 (cl_gai demo_client) demo_uri = Ret (Some a)
     \<and> connected_to demo_client a plain_net = Ret (Some s, n1) \<and> setRecvTimeout (plain_kernel addr_1) 1000 s n1 = Ret n2
     \<and> sk_isConnected s \<and> sk_sock s = 7 \<and> n_iom n2 = None"
proof -
  obtain a where a: "ur_createAddress 1 (cl_gai demo_client) demo_uri = Ret (Some a)"
    using demo_connected_run by (cases "ur_createAddress 1 (cl_gai demo_client) demo_uri") (auto split: option.splits)
  note r = demo_connected_run [unfolded a outcome.case option.case]
  obtain s n1 where s: "connected_to demo_client a plain_net = Ret (Some s, n1)"
    using r by (cases "connected_to demo_client a plain_net") (auto split: option.splits)
  note r = r [unfolded s outcome.case prod.case option.case]
  show ?thesis using a s r by (cases "setRecvTimeout (plain_kernel addr_1) 1000 s n1") (auto simp: Option.is_none_def)
qed

theorem do_request_answered_witness:
  "\<exists>n'. DoRequest_request 999 demo_client (request_of GET demo_uri [] []) demo_uri 1000 plain_net
      = Some (Ret (answered (received_response sample_response)), n')"
proof -
  let ?c = demo_client and ?req = "request_of GET demo_uri [] []" and ?r = sample_response
  let ?en = "cl_env ?c" and ?dump = "rs_dump ?r"
  have c: "cl_host ?c = 1" "cl_kernel ?c = plain_kernel addr_1" "en_read ?en = ss_read" "en_write ?en = ss_write"
    "en_buff_size ?en = 4096" "length (fst (cl_fresh ?c t)) = 4097" "en_grants ?en x" for t x
    by (simp_all add: demo_client_def socket_env_def)
  have cast: "en_cast ?en (dec_string (Suc (Suc 0))) = Some 2" by code_simp
  obtain a s n1 n2 where a: "ur_createAddress 1 (cl_gai ?c) demo_uri = Ret (Some a)" "connected_to ?c a plain_net = Ret (Some s, n1)"
      "setRecvTimeout (plain_kernel addr_1) 1000 s n1 = Ret n2" "sk_isConnected s" "sk_sock s = 7"
      "n_iom n2 = None"
    using demo_connected by blast
  have t: "sint (1000 :: u64) = 1000" by simp
  let ?t0 = "HttpConnection_new ?c s n2"
  have l: "length (rq_dump ?req) < 200" "length ?dump < 200" by code_simp+
  have st: "signed_take_bit 31 (int n) = int n" if "n < 200" for n :: nat
    using that by (intro signed_take_bit_int_eq_self) auto
  obtain t1 where w: "ss_write ?t0 (map byte_of_char (rq_dump ?req)) = (int (length (rq_dump ?req)), t1)"
    and t1: "ss_socket t1 = Some s" "ss_peer_in t1 = cl_peer_in ?c" "ss_kernel t1 = plain_kernel addr_1" "ss_owner t1" "n_iom (ss_net t1) = None"
    using a(4,6) l(1) by (auto simp: ss_write_def ss_isConnected_def HttpConnection_new_def ss_send_def sock_send_def guarded_io_def Let_def c
      demo_client_def signed_of_nat st log_call_def)
  obtain t2 where r: "ss_read t1 4096 = ((int (length ?dump), map byte_of_char ?dump), t2)"
    and t2: "ss_socket t2 = Some s" "ss_kernel t2 = plain_kernel addr_1" "ss_owner t2" "n_iom (ss_net t2) = None"
    using a(4) l(2) t1 by (auto simp: ss_read_def ss_isConnected_def ss_recv_def sock_recv_def guarded_io_def Let_def
      demo_client_def signed_of_nat st log_call_def)
  have "0 \<le> sk_sock s" using a(5) by simp
  then obtain m' iom where "hook_close (k_epoll_ctl (plain_kernel addr_1)) (sk_sock s) (n_fdm (ss_net t2)) (None :: nat iom option) = Ret (m', iom)"
    using hook_close_ok [of "sk_sock s" None "k_epoll_ctl (plain_kernel addr_1)" "n_fdm (ss_net t2)"] by auto
  then have "\<exists>t3. ss_destroy t2 = Ret t3" using t2
    by (auto simp: ss_destroy_def ss_close_def sock_close_def Let_def)
  then obtain t3 where d: "ss_destroy t2 = Ret t3" by blast
  have acc: "accepts ss_write ?t0 (map byte_of_char (rq_dump ?req) @ []) t1"
  proof (rule accepts_some)
    show "map byte_of_char (rq_dump ?req) \<noteq> []" by (simp add: rq_dump_def)
    show "accepts ss_write t1 [] t1" by (rule accepts_nil)
  qed (use w in simp)
  have "delivers ss_read t2 (length ([] :: string)) (map byte_of_char []) False t2" by (simp add: complete)
  moreover have "rs_body ?r = ''hi''" by (simp add: sample_response_def)
  ultimately have "DoRequest_request 999 ?c ?req demo_uri 1000 plain_net = Some (Ret (answered (received_response ?r)), ss_net t3)"
    using do_request_answered [of ?c demo_uri a plain_net s n1 1000 n2 ?req t1 ?r ?dump "[]" t2 t2 t3 999]
      a(1-3) acc r d l c cast sample_response_printable t by simp
  then show ?thesis by blast
qed

end
