(* ===== verification/HttpPool.thy ===== *)
theory HttpPool
  imports HttpRequester
begin

text \<open>
  \<open>radixun/http/http_connection.{h,cpp}\<close>, the connection pool.

  \<^item> a \<open>pooled\<close> connection has the members \<open>m_createTime\<close> and \<open>m_request\<close> and the stream; the idle ones are the
    list of the pool, a lent one belongs to its \<open>shared_ptr\<close>, whose deleter is \<open>ReleasePtr\<close>;
  \<^item> the descriptors are shared: a connection that is used or destroyed works on the current \<open>net\<close>;
  \<^item> what the two operations do outside the lock is taken together with what they do inside; \<open>m_total\<close> is the
    \<open>int32_t\<close> of the code.
\<close>

section \<open>The pool\<close>

record pooled =
  pc_stream :: sock_stream
  pc_createTime :: u64
  pc_request :: u64

record pool =
  po_host :: string
  po_vhost :: string
  po_port :: u32
  po_maxSize :: u32
  po_maxAliveTime :: u32
  po_maxRequest :: u32
  po_conns :: "pooled list"
  po_total :: u32

definition HttpConnectionPool_new :: "string \<Rightarrow> string \<Rightarrow> u32 \<Rightarrow> u32 \<Rightarrow> u32 \<Rightarrow> u32 \<Rightarrow> pool" where
  "HttpConnectionPool_new host_name vhost port max_size max_alive_time max_request =
     \<lparr>po_host = host_name, po_vhost = vhost, po_port = port, po_maxSize = max_size, po_maxAliveTime = max_alive_time,
      po_maxRequest = max_request, po_conns = [], po_total = 0\<rparr>"

definition stream_of :: "net \<Rightarrow> pooled \<Rightarrow> sock_stream" where
  "stream_of n c = (pc_stream c)\<lparr>ss_net := n\<rparr>"

definition pc_delete :: "pooled \<Rightarrow> net \<Rightarrow> net outcome" where
  "pc_delete c n = obind (ss_destroy (stream_of n c)) (\<lambda>t. Ret (ss_net t))"

primrec pc_delete_all :: "pooled list \<Rightarrow> net \<Rightarrow> net outcome" where
  "pc_delete_all [] n = Ret n"
| "pc_delete_all (c # cs) n = obind (pc_delete c n) (pc_delete_all cs)"

section \<open>getConnection\<close>

text \<open>The loop over the idle connections: those to delete, the one found, and those that stay.\<close>

fun pick_connection :: "u64 \<Rightarrow> u32 \<Rightarrow> pooled list \<Rightarrow> pooled list \<times> pooled option \<times> pooled list" where
  "pick_connection now_ms alive [] = ([], None, [])"
| "pick_connection now_ms alive (c # cs) =
     (if \<not> ss_isConnected (pc_stream c) \<or> pc_createTime c + ucast alive > now_ms
      then let (invalid, found, rest) = pick_connection now_ms alive cs in (c # invalid, found, rest)
      else ([], Some c, cs))"

definition new_connection :: "client \<Rightarrow> pool \<Rightarrow> net \<Rightarrow> (pooled option \<times> net) outcome" where
  "new_connection c p n =
     obind (LookupAnyIPAddress (cl_host c) (cl_gai c) (po_host p) (int AF_INET) 0 0) (\<lambda>addr.
       case addr of
         None \<Rightarrow> Ret (None, n)
       | Some a \<Rightarrow> obind (connected_to c (setPort (cl_host c) (ucast (po_port p)) a) n) (\<lambda>(sock, n1).
           Ret (map_option (\<lambda>s. \<lparr>pc_stream = HttpConnection_new c s n1, pc_createTime = 0, pc_request = 0\<rparr>) sock, n1)))"

definition getConnection :: "client \<Rightarrow> u64 \<Rightarrow> pool \<Rightarrow> net \<Rightarrow> (pooled option \<times> pool \<times> net) outcome" where
  "getConnection c now_ms p n =
     (let (invalid, found, rest) = pick_connection now_ms (po_maxAliveTime p) (po_conns p)
      in obind (pc_delete_all invalid n) (\<lambda>n1.
           let p1 = p\<lparr>po_conns := rest, po_total := po_total p - of_nat (length invalid)\<rparr>
           in case found of
                Some conn \<Rightarrow> Ret (Some conn, p1, n1)
              | None \<Rightarrow> obind (new_connection c p1 n1) (\<lambda>(made, n2).
                  Ret (made, if made = None then p1 else p1\<lparr>po_total := po_total p1 + 1\<rparr>, n2))))"

section \<open>ReleasePtr\<close>

definition ReleasePtr :: "u64 \<Rightarrow> pooled \<Rightarrow> pool \<Rightarrow> net \<Rightarrow> (pool \<times> net) outcome" where
  "ReleasePtr now_ms conn p n =
     (let conn1 = conn\<lparr>pc_request := pc_request conn + 1\<rparr>
      in if \<not> ss_isConnected (pc_stream conn1) \<or> pc_createTime conn1 + ucast (po_maxAliveTime p) \<ge> now_ms
            \<or> pc_request conn1 \<ge> ucast (po_maxRequest p)
         then obind (pc_delete conn1 n) (\<lambda>n1. Ret (p\<lparr>po_total := po_total p - 1\<rparr>, n1))
         else Ret (p\<lparr>po_conns := po_conns p @ [conn1]\<rparr>, n))"

section \<open>doRequest\<close>

definition uri_text :: "uri \<Rightarrow> string" where
  "uri_text u =
     ur_getPath u @ (if ur_query u = [] then [] else ''?'') @ ur_query u @ (if ur_fragment u = [] then [] else ''#'') @ ur_fragment u"

text \<open>The text of the peer's address, which the socket looks up when it does not know it yet.\<close>

definition remote_text :: "client \<Rightarrow> sock_stream \<Rightarrow> (string \<times> sock_stream) outcome" where
  "remote_text c t =
     (case ss_socket t of
        None \<Rightarrow> Fault NullDeref
      | Some s \<Rightarrow> obind (getRemoteAddress (cl_host c) (cl_kernel c) s (ss_net t)) (\<lambda>(a, s1, n1).
          obind (Address_toString (cl_host c) a) (\<lambda>text. Ret (text, t\<lparr>ss_socket := Some s1, ss_net := n1\<rparr>))))"

text \<open>The end of the function: the last \<open>shared_ptr\<close> gives the connection back. The two times are those of
  \<open>getConnection\<close> and of \<open>ReleasePtr\<close>.\<close>

definition give_back :: "u64 \<Rightarrow> pooled \<Rightarrow> pool \<Rightarrow> (http_result outcome \<times> sock_stream) option
    \<Rightarrow> (http_result outcome \<times> pool \<times> net) option" where
  "give_back now_ms conn p m =
     (case m of
        None \<Rightarrow> None
      | Some (Fault f, t) \<Rightarrow> Some (Fault f, p, ss_net t)
      | Some (res, t) \<Rightarrow> (case ReleasePtr now_ms (conn\<lparr>pc_stream := t\<rparr>) p (ss_net t) of
          Ret (p1, n1) \<Rightarrow> Some (res, p1, n1)
        | Throw e \<Rightarrow> Some (Throw e, p, ss_net t)
        | Fault f \<Rightarrow> Some (Fault f, p, ss_net t)))"

definition pool_name :: "pool \<Rightarrow> string" where
  "pool_name p = ''pool host:'' @ po_host p @ '' port:'' @ dec_string (unat (po_port p))"

definition pool_doRequest_request :: "nat \<Rightarrow> client \<Rightarrow> u64 \<Rightarrow> u64 \<Rightarrow> http_request \<Rightarrow> u64 \<Rightarrow> pool \<Rightarrow> net
    \<Rightarrow> (http_result outcome \<times> pool \<times> net) option" where
  "pool_doRequest_request fuel c now1 now2 req timeout_ms p n =
     (case getConnection c now1 p n of
        Throw e \<Rightarrow> Some (Throw e, p, n)
      | Fault f \<Rightarrow> Some (Fault f, p, n)
      | Ret (None, p1, n1) \<Rightarrow> Some (Ret (failed POOL_GET_CONNECTION (pool_name p1)), p1, n1)
      | Ret (Some conn, p1, n1) \<Rightarrow>
          let t = stream_of n1 conn
          in case ss_socket t of
               None \<Rightarrow> give_back now2 conn p1 (Some (Ret (failed POOL_INVALID_CONNECTION (pool_name p1)), t))
             | Some s \<Rightarrow> (case setRecvTimeout (cl_kernel c) (sint timeout_ms) s n1 of
                 Throw e \<Rightarrow> give_back now2 conn p1 (Some (Throw e, t))
               | Fault f \<Rightarrow> Some (Fault f, p1, n1)
               | Ret n2 \<Rightarrow> give_back now2 conn p1
                   (send_and_receive fuel c (remote_text c) timeout_ms req (t\<lparr>ss_net := n2\<rparr>))))"

definition pool_request_of :: "pool \<Rightarrow> http_method \<Rightarrow> string \<Rightarrow> (string \<times> string) list \<Rightarrow> string \<Rightarrow> http_request" where
  "pool_request_of p method url headers body =
     (add_headers (if po_vhost p = [] then po_host p else po_vhost p) headers
       ((HttpRequest_new 0x11 True)\<lparr>rq_path := url, rq_method := method, rq_close := False\<rparr>))\<lparr>rq_body := body\<rparr>"

definition pool_doRequest :: "nat \<Rightarrow> client \<Rightarrow> u64 \<Rightarrow> u64 \<Rightarrow> http_method \<Rightarrow> string \<Rightarrow> u64 \<Rightarrow> (string \<times> string) list \<Rightarrow> string
    \<Rightarrow> pool \<Rightarrow> net \<Rightarrow> (http_result outcome \<times> pool \<times> net) option" where
  "pool_doRequest fuel c now1 now2 method url timeout_ms headers body p =
     pool_doRequest_request fuel c now1 now2 (pool_request_of p method url headers body) timeout_ms p"

definition pool_doRequest_uri :: "nat \<Rightarrow> client \<Rightarrow> u64 \<Rightarrow> u64 \<Rightarrow> http_method \<Rightarrow> uri \<Rightarrow> u64 \<Rightarrow> (string \<times> string) list \<Rightarrow> string
    \<Rightarrow> pool \<Rightarrow> net \<Rightarrow> (http_result outcome \<times> pool \<times> net) option" where
  "pool_doRequest_uri fuel c now1 now2 method u = pool_doRequest fuel c now1 now2 method (uri_text u)"

definition pool_doGet :: "nat \<Rightarrow> client \<Rightarrow> u64 \<Rightarrow> u64 \<Rightarrow> string \<Rightarrow> u64 \<Rightarrow> (string \<times> string) list \<Rightarrow> string
    \<Rightarrow> pool \<Rightarrow> net \<Rightarrow> (http_result outcome \<times> pool \<times> net) option" where
  "pool_doGet fuel c now1 now2 = pool_doRequest fuel c now1 now2 GET"

definition pool_doGet_uri :: "nat \<Rightarrow> client \<Rightarrow> u64 \<Rightarrow> u64 \<Rightarrow> uri \<Rightarrow> u64 \<Rightarrow> (string \<times> string) list \<Rightarrow> string
    \<Rightarrow> pool \<Rightarrow> net \<Rightarrow> (http_result outcome \<times> pool \<times> net) option" where
  "pool_doGet_uri fuel c now1 now2 u = pool_doGet fuel c now1 now2 (uri_text u)"

definition pool_doPost :: "nat \<Rightarrow> client \<Rightarrow> u64 \<Rightarrow> u64 \<Rightarrow> string \<Rightarrow> u64 \<Rightarrow> (string \<times> string) list \<Rightarrow> string
    \<Rightarrow> pool \<Rightarrow> net \<Rightarrow> (http_result outcome \<times> pool \<times> net) option" where
  "pool_doPost fuel c now1 now2 = pool_doRequest fuel c now1 now2 POST"

definition pool_doPost_uri :: "nat \<Rightarrow> client \<Rightarrow> u64 \<Rightarrow> u64 \<Rightarrow> uri \<Rightarrow> u64 \<Rightarrow> (string \<times> string) list \<Rightarrow> string
    \<Rightarrow> pool \<Rightarrow> net \<Rightarrow> (http_result outcome \<times> pool \<times> net) option" where
  "pool_doPost_uri fuel c now1 now2 u = pool_doPost fuel c now1 now2 (uri_text u)"

section \<open>The accounts of the pool\<close>

text \<open>Any order of the two operations, and anything the holders do with the streams of lent connections.\<close>

type_synonym pool_state = "pool \<times> pooled list \<times> net"

inductive pool_step :: "pool_state \<Rightarrow> pool_state \<Rightarrow> bool" where
  step_get: "getConnection c now_ms p n = Ret (Some conn, p', n') \<Longrightarrow> pool_step (p, lent, n) (p', conn # lent, n')"
| step_get_fails: "getConnection c now_ms p n = Ret (None, p', n') \<Longrightarrow> pool_step (p, lent, n) (p', lent, n')"
| step_use: "pool_step (p, before @ conn # after, n) (p, before @ conn\<lparr>pc_stream := t\<rparr> # after, n')"
| step_release: "ReleasePtr now_ms conn p n = Ret (p', n') \<Longrightarrow> pool_step (p, before @ conn # after, n) (p', before @ after, n')"

inductive pool_reachable :: "pool \<Rightarrow> pool_state \<Rightarrow> bool" for p0 where
  reach_start: "pool_reachable p0 (p0, [], n)"
| reach_step: "pool_reachable p0 s \<Longrightarrow> pool_step s s' \<Longrightarrow> pool_reachable p0 s'"

definition accounts :: "pool_state \<Rightarrow> bool" where
  "accounts = (\<lambda>(p, lent, n).
     po_total p = of_nat (length (po_conns p) + length lent)
     \<and> (\<forall>c \<in> set (po_conns p). 0 < pc_request c \<and> pc_request c < ucast (po_maxRequest p) \<and> ss_isConnected (pc_stream c))
     \<and> (\<forall>c \<in> set lent. pc_request c = 0 \<or> pc_request c < ucast (po_maxRequest p))
     \<and> (\<forall>c \<in> set (po_conns p) \<union> set lent. pc_createTime c = 0))"

lemma pick_connection_parts:
  assumes "pick_connection now_ms alive cs = (invalid, found, rest)"
  shows "cs = invalid @ (case found of None \<Rightarrow> [] | Some c \<Rightarrow> [c]) @ rest" "found = None \<Longrightarrow> rest = []"
  using assms by (induction cs arbitrary: invalid) (auto split: if_splits prod.splits)

lemma new_connection_fresh:
  "new_connection c p n = Ret (Some conn, n') \<Longrightarrow> pc_createTime conn = 0 \<and> pc_request conn = 0"
  by (auto simp: new_connection_def obind_Ret_iff split: option.splits)

lemma getConnection_accounts:
  assumes "accounts (p, lent, n)" "getConnection c now_ms p n = Ret (found, p', n')"
  shows "accounts (p', (case found of None \<Rightarrow> lent | Some conn \<Rightarrow> conn # lent), n')"
proof -
  obtain invalid f rest where pick: "pick_connection now_ms (po_maxAliveTime p) (po_conns p) = (invalid, f, rest)"
    by (cases "pick_connection now_ms (po_maxAliveTime p) (po_conns p)")
  note parts = pick_connection_parts [OF pick]
  let ?p = "p\<lparr>po_conns := rest, po_total := po_total p - of_nat (length invalid)\<rparr>"
  show ?thesis
  proof (cases f)
    case None
    then have "rest = []" by (rule parts(2))
    then have conns: "po_conns p = invalid" using parts(1) None by simp
    obtain n1 n2 where new: "new_connection c ?p n1 = Ret (found, n2)"
      and p': "p' = (if found = None then ?p else ?p\<lparr>po_total := po_total ?p + 1\<rparr>)"
      using assms(2) None by (auto simp: getConnection_def pick Let_def obind_Ret_iff)
    show ?thesis using assms(1) conns \<open>rest = []\<close> new_connection_fresh new
      by (cases found) (auto simp: accounts_def p')
  next
    case (Some conn)
    then have r: "found = Some conn" "p' = ?p" using assms(2)
      by (auto simp: getConnection_def pick Let_def obind_Ret_iff)
    have conns: "po_conns p = invalid @ conn # rest" using parts(1) Some by simp
    show ?thesis using assms(1) by (auto simp: accounts_def r conns)
  qed
qed

lemma unat_ucast_32: "unat (ucast w :: u64) = unat (w :: u32)" "unat (w :: u32) < 2 ^ 32"
proof -
  have "unat w < 2 ^ LENGTH(32)" by (rule unsigned_less)
  then show w: "unat w < 2 ^ 32" by simp
  then have "unat w < 2 ^ 64" by simp
  then show "unat (ucast w :: u64) = unat w" by (simp add: unsigned_ucast_eq take_bit_nat_eq_self)
qed

lemma ReleasePtr_accounts:
  assumes "accounts (p, before @ conn # after, n)" "ReleasePtr now_ms conn p n = Ret (p', n')"
  shows "accounts (p', before @ after, n')"
proof -
  have "pc_request conn = 0 \<or> pc_request conn < ucast (po_maxRequest p)" using assms(1) by (auto simp: accounts_def)
  then have "unat (pc_request conn) < 2 ^ 32" using unat_ucast_32 [of "po_maxRequest p"] by (auto simp: word_less_nat_alt)
  then have "unat (pc_request conn + 1) = unat (pc_request conn) + 1" by (simp add: unat_word_ariths)
  then have pos: "0 < pc_request conn + 1" by (simp add: word_less_nat_alt)
  show ?thesis using assms pos
    by (auto simp: accounts_def ReleasePtr_def Let_def obind_Ret_iff not_le split: if_splits)
qed

lemma pool_step_accounts: "pool_step s s' \<Longrightarrow> accounts s \<Longrightarrow> accounts s'"
proof (induction rule: pool_step.induct)
  case (step_get c now_ms p n conn p' n' lent)
  from getConnection_accounts [OF step_get.prems step_get.hyps] show ?case by simp
next
  case (step_get_fails c now_ms p n p' n' lent)
  from getConnection_accounts [OF step_get_fails.prems step_get_fails.hyps] show ?case by simp
next
  case (step_use p before conn after n t n')
  then show ?case by (auto simp: accounts_def)
next
  case (step_release now_ms conn p n p' n' before after)
  from ReleasePtr_accounts [OF step_release.prems step_release.hyps] show ?case .
qed

lemma reachable_accounts:
  "pool_reachable (HttpConnectionPool_new host_name vhost port max_size max_alive_time max_request) s \<Longrightarrow> accounts s"
proof (induction rule: pool_reachable.induct)
  case (reach_start n)
  show ?case by (simp add: accounts_def HttpConnectionPool_new_def)
next
  case (reach_step s s')
  then show ?case by (blast intro: pool_step_accounts)
qed

text \<open>C25. The accounts of the pool, after any sequence of lending, use and return: \<open>m_total\<close> counts the idle and the
  lent connections, every idle connection was connected when it came back and has served fewer requests than the
  maximum, and no connection ever gets a creation time.\<close>

theorem pool_accounts:
  "pool_reachable (HttpConnectionPool_new host_name vhost port max_size max_alive_time max_request) (p, lent, n) \<Longrightarrow>
   accounts (p, lent, n)"
  by (rule reachable_accounts)

section \<open>The maximal age\<close>

lemma age_test:
  assumes "2 ^ 32 \<le> unat now_ms"
  shows "\<not> (0 :: u64) + ucast (alive :: u32) > now_ms" "\<not> (0 :: u64) + ucast alive \<ge> now_ms"
  using assms unat_ucast_32 [of alive] by (simp_all add: word_less_nat_alt word_le_nat_alt)

lemma pick_connection_age:
  assumes "\<forall>c \<in> set cs. pc_createTime c = 0" "2 ^ 32 \<le> unat now_ms"
  shows "pick_connection now_ms alive cs = pick_connection now_ms alive' cs"
  using assms(1) by (induction cs) (use age_test(1) [OF assms(2)] in auto)

lemma new_connection_cong:
  "po_host p = po_host q \<Longrightarrow> po_port p = po_port q \<Longrightarrow> new_connection c p n = new_connection c q n"
  by (simp only: new_connection_def)

text \<open>C26. The age test is inverted and the creation time never set, so the pool never lets a connection grow too old:
  in every reachable state, with the clock past its first fifty days, \<open>getConnection\<close> and \<open>ReleasePtr\<close> do the same
  whatever maximal age the pool was given.\<close>

theorem pool_age_without_effect:
  assumes "pool_reachable (HttpConnectionPool_new host_name vhost port max_size max_alive_time max_request) (p, lent, n)"
    and "conn \<in> set lent" "2 ^ 32 \<le> unat now_ms"
  shows "getConnection c now_ms (p\<lparr>po_maxAliveTime := a\<rparr>) n =
      obind (getConnection c now_ms p n) (\<lambda>(found, p', n'). Ret (found, p'\<lparr>po_maxAliveTime := a\<rparr>, n'))
    \<and> ReleasePtr now_ms conn (p\<lparr>po_maxAliveTime := a\<rparr>) n =
      obind (ReleasePtr now_ms conn p n) (\<lambda>(p', n'). Ret (p'\<lparr>po_maxAliveTime := a\<rparr>, n'))"
proof
  have zero: "\<forall>c \<in> set (po_conns p) \<union> set lent. pc_createTime c = 0"
    using reachable_accounts [OF assms(1)] by (simp add: accounts_def)
  then have pick: "pick_connection now_ms a (po_conns p) = pick_connection now_ms (po_maxAliveTime p) (po_conns p)"
    by (intro pick_connection_age assms(3)) simp
  obtain invalid f rest where parts: "pick_connection now_ms (po_maxAliveTime p) (po_conns p) = (invalid, f, rest)"
    by (cases "pick_connection now_ms (po_maxAliveTime p) (po_conns p)")
  have new: "new_connection c (p\<lparr>po_maxAliveTime := a, po_conns := r, po_total := t\<rparr>) n1 =
      new_connection c (p\<lparr>po_conns := r, po_total := t\<rparr>) n1" for r t n1
    by (rule new_connection_cong) simp_all
  show "getConnection c now_ms (p\<lparr>po_maxAliveTime := a\<rparr>) n =
      obind (getConnection c now_ms p n) (\<lambda>(found, p', n'). Ret (found, p'\<lparr>po_maxAliveTime := a\<rparr>, n'))"
  proof (cases "pc_delete_all invalid n")
    case (Ret n1)
    then show ?thesis
      by (cases f; cases "new_connection c (p\<lparr>po_conns := rest, po_total := po_total p - of_nat (length invalid)\<rparr>) n1")
        (auto simp: getConnection_def pick parts new Let_def)
  qed (simp_all add: getConnection_def pick parts)
  have age: "\<not> pc_createTime (conn\<lparr>pc_request := k\<rparr>) + ucast alive \<ge> now_ms" for k and alive :: u32
    using zero assms(2) age_test(2) [OF assms(3), of alive] by simp
  show "ReleasePtr now_ms conn (p\<lparr>po_maxAliveTime := a\<rparr>) n =
      obind (ReleasePtr now_ms conn p n) (\<lambda>(p', n'). Ret (p'\<lparr>po_maxAliveTime := a\<rparr>, n'))"
    using age by (cases "pc_delete (conn\<lparr>pc_request := pc_request conn + 1\<rparr>) n") (auto simp: ReleasePtr_def Let_def)
qed

section \<open>Instances\<close>

definition demo_pool :: pool where
  "demo_pool = HttpConnectionPool_new ''localhost'' [] 80 10 30000 5"

lemma demo_lent:
  "\<exists>conn p n. getConnection demo_client 0 demo_pool plain_net = Ret (Some conn, p, n)"
proof -
  have "case getConnection demo_client 0 demo_pool plain_net of Ret (f, p, n) \<Rightarrow> f \<noteq> None | _ \<Rightarrow> False" by code_simp
  then show ?thesis by (cases "getConnection demo_client 0 demo_pool plain_net") auto
qed

lemma demo_reachable:
  "getConnection demo_client 0 demo_pool plain_net = Ret (Some conn, p, n) \<Longrightarrow> pool_reachable demo_pool (p, [conn], n)"
  by (blast intro: reach_start reach_step step_get)

theorem pool_accounts_witness:
  "\<exists>conn p n. getConnection demo_client 0 demo_pool plain_net = Ret (Some conn, p, n) \<and> accounts (p, [conn], n)"
proof -
  obtain conn p n where g: "getConnection demo_client 0 demo_pool plain_net = Ret (Some conn, p, n)" using demo_lent by blast
  from pool_accounts [OF demo_reachable [OF g, unfolded demo_pool_def]] g show ?thesis by blast
qed

theorem pool_age_without_effect_witness:
  "\<exists>conn p n. getConnection demo_client 0 demo_pool plain_net = Ret (Some conn, p, n)
    \<and> ReleasePtr 5000000000 conn (p\<lparr>po_maxAliveTime := 1\<rparr>) n =
      obind (ReleasePtr 5000000000 conn p n) (\<lambda>(p', n'). Ret (p'\<lparr>po_maxAliveTime := 1\<rparr>, n'))"
proof -
  obtain conn p n where g: "getConnection demo_client 0 demo_pool plain_net = Ret (Some conn, p, n)" using demo_lent by blast
  have "conn \<in> set [conn]" "2 ^ 32 \<le> unat (5000000000 :: u64)" by simp_all
  from pool_age_without_effect [OF demo_reachable [OF g, unfolded demo_pool_def] this] g show ?thesis by blast
qed

section \<open>The headers of a pooled request\<close>

lemma pool_request_headers:
  "rq_getHeader (pool_request_of p method url headers body) k d =
     (if is_connection k then d
      else if ci_key k = ci_key ''host'' \<and> \<not> names_host headers then (if po_vhost p = [] then po_host p else po_vhost p)
      else case last_value k headers of None \<Rightarrow> d | Some v \<Rightarrow> v)"
proof -
  have body: "rq_getHeader (q\<lparr>rq_body := body\<rparr>) k d = rq_getHeader q k d" for q by (simp add: rq_getHeader_def)
  show ?thesis unfolding pool_request_of_def body by (rule add_headers_header) (simp add: HttpRequest_new_def)
qed

end
