(* ===== verification/Uri_Runs.thy ===== *)
theory Uri_Runs
  imports Uri
begin

text \<open>
  Runs of the generated URI parser over \<open>scheme://host[:port][path][?query][#fragment]\<close>: the object that
  \<open>Uri::Create\<close> builds from such a text, and the texts on which it throws.
\<close>

section \<open>Characters\<close>

text \<open>The codes the grammar allows in a scheme, a registered name, a path, a query or fragment, and an escape.\<close>

definition alpha_code :: "int \<Rightarrow> bool" where
  "alpha_code n \<longleftrightarrow> 65 \<le> n \<and> n \<le> 90 \<or> 97 \<le> n \<and> n \<le> 122"

definition digit_code :: "int \<Rightarrow> bool" where
  "digit_code n \<longleftrightarrow> 48 \<le> n \<and> n \<le> 57"

definition scheme_code :: "int \<Rightarrow> bool" where
  "scheme_code n \<longleftrightarrow> alpha_code n \<or> digit_code n \<or> n = 43 \<or> n = 45 \<or> n = 46"

definition name_code :: "int \<Rightarrow> bool" where
  "name_code n \<longleftrightarrow> alpha_code n \<or> digit_code n \<or> n = 33 \<or> n = 36 \<or> n = 59 \<or> n = 61
     \<or> n = 95 \<or> n = 126 \<or> 38 \<le> n \<and> n \<le> 46"

definition path_code :: "int \<Rightarrow> bool" where
  "path_code n \<longleftrightarrow> n < 0 \<or> name_code n \<or> n = 47 \<or> n = 58 \<or> n = 64"

definition query_code :: "int \<Rightarrow> bool" where
  "query_code n \<longleftrightarrow> path_code n \<or> n = 63"

definition hex_code :: "int \<Rightarrow> bool" where
  "hex_code n \<longleftrightarrow> digit_code n \<or> 65 \<le> n \<and> n \<le> 70 \<or> 97 \<le> n \<and> n \<le> 102"

lemmas code_defs = alpha_code_def digit_code_def scheme_code_def name_code_def path_code_def query_code_def hex_code_def

text \<open>Each class as intervals: with the bounds of one interval the tables are decided by rewriting.\<close>

lemma alpha_cases:
  assumes "alpha_code n" obtains "65 \<le> n" "n \<le> 90" | "97 \<le> n" "n \<le> 122"
  using assms unfolding alpha_code_def by blast

lemma scheme_cases:
  assumes "scheme_code n"
  obtains "n = 43" | "n = 45" | "n = 46" | "48 \<le> n" "n \<le> 57" | "65 \<le> n" "n \<le> 90" | "97 \<le> n" "n \<le> 122"
  using assms unfolding code_defs by blast

lemma name_cases:
  assumes "name_code n"
  obtains "n = 33" | "n = 36" | "38 \<le> n" "n \<le> 46" | "48 \<le> n" "n \<le> 57" | "n = 59" | "n = 61" | "65 \<le> n" "n \<le> 90"
    | "n = 95" | "97 \<le> n" "n \<le> 122" | "n = 126"
  using assms unfolding code_defs by blast

lemma path_cases:
  assumes "path_code n" obtains "n < 0" | "name_code n" | "n = 47" | "n = 58" | "n = 64"
  using assms unfolding path_code_def by blast

lemma query_cases:
  assumes "query_code n" obtains "path_code n" | "n = 63"
  using assms unfolding query_code_def by blast

lemma hex_cases:
  assumes "hex_code n" obtains "48 \<le> n" "n \<le> 57" | "65 \<le> n" "n \<le> 70" | "97 \<le> n" "n \<le> 102"
  using assms unfolding code_defs by blast

lemma digit_cases:
  assumes "digit_code n" obtains "48 \<le> n" "n \<le> 57"
  using assms unfolding digit_code_def by blast

lemmas code_cases = alpha_cases scheme_cases name_cases path_cases query_cases hex_cases digit_cases

text \<open>Text of a class of characters with percent escapes.\<close>

fun pct_text :: "(int \<Rightarrow> bool) \<Rightarrow> string \<Rightarrow> bool" where
  "pct_text P [] = True"
| "pct_text P (c # w) =
     (if c = CHR ''%''
      then (case w of a # b # v \<Rightarrow> hex_code (signed_char a) \<and> hex_code (signed_char b) \<and> pct_text P v | _ \<Rightarrow> False)
      else P (signed_char c) \<and> pct_text P w)"

section \<open>Transitions\<close>

lemmas scheme_states = uri_trans_def uri_states_451_452_def uri_states_505_508_def uri_states_509_234_def
lemmas port_states = uri_trans_def uri_states_521_257_def uri_states_542_545_def
lemmas path_states = uri_trans_def uri_states_235_513_def uri_states_243_246_def
lemmas query_states = uri_trans_def uri_states_456_456_def uri_states_457_11_def
lemmas fragment_states = uri_trans_def uri_states_453_453_def uri_states_454_4_def

lemma utrans_scheme_fixed:
  "uri_trans 508 58 = Some ([USaveScheme], 509)" "uri_trans 509 47 = Some ([], 510)" "uri_trans 510 47 = Some ([], 511)"
  by (simp_all add: scheme_states)

lemma utrans_scheme_451: "alpha_code n \<Longrightarrow> uri_trans 451 n = Some ([UMark], 508)"
  by (elim code_cases) (auto simp: scheme_states)

lemma utrans_scheme_508: "scheme_code n \<Longrightarrow> uri_trans 508 n = Some ([], 508)"
  by (elim code_cases) (auto simp: scheme_states)

lemma utrans_port_521: "digit_code n \<Longrightarrow> uri_trans 521 n = Some ([UMark], 542)"
  by (elim code_cases) (auto simp: port_states)

lemma utrans_port_542: "digit_code n \<Longrightarrow> uri_trans 542 n = Some ([], 542)"
  by (elim code_cases) (auto simp: port_states)

lemma utrans_path_fixed:
  "uri_trans 513 37 = Some ([], 243)"
  by (simp_all add: path_states)

lemma utrans_path_513: "path_code n \<Longrightarrow> uri_trans 513 n = Some ([], 513)"
  by (elim code_cases) (auto simp: path_states)

lemma utrans_path_243: "hex_code n \<Longrightarrow> uri_trans 243 n = Some ([], 244)"
  by (elim code_cases) (auto simp: path_states)

lemma utrans_path_244: "hex_code n \<Longrightarrow> uri_trans 244 n = Some ([], 513)"
  by (elim code_cases) (auto simp: path_states)

lemma utrans_query_fixed:
  "uri_trans 456 37 = Some ([UMark], 7)" "uri_trans 457 37 = Some ([], 7)"
  by (simp_all add: query_states)

lemma utrans_query_456: "query_code n \<Longrightarrow> uri_trans 456 n = Some ([UMark], 457)"
  by (elim code_cases) (auto simp: query_states)

lemma utrans_query_457: "query_code n \<Longrightarrow> uri_trans 457 n = Some ([], 457)"
  by (elim code_cases) (auto simp: query_states)

lemma utrans_query_7: "hex_code n \<Longrightarrow> uri_trans 7 n = Some ([], 8)"
  by (elim code_cases) (auto simp: query_states)

lemma utrans_query_8: "hex_code n \<Longrightarrow> uri_trans 8 n = Some ([], 457)"
  by (elim code_cases) (auto simp: query_states)

lemma utrans_fragment_fixed:
  "uri_trans 453 37 = Some ([UMark], 1)" "uri_trans 454 37 = Some ([], 1)"
  by (simp_all add: fragment_states)

lemma utrans_fragment_453: "query_code n \<Longrightarrow> uri_trans 453 n = Some ([UMark], 454)"
  by (elim code_cases) (auto simp: fragment_states)

lemma utrans_fragment_454: "query_code n \<Longrightarrow> uri_trans 454 n = Some ([], 454)"
  by (elim code_cases) (auto simp: fragment_states)

lemma utrans_fragment_1: "hex_code n \<Longrightarrow> uri_trans 1 n = Some ([], 2)"
  by (elim code_cases) (auto simp: fragment_states)

lemma utrans_fragment_2: "hex_code n \<Longrightarrow> uri_trans 2 n = Some ([], 454)"
  by (elim code_cases) (auto simp: fragment_states)

text \<open>The states that read a host: a registered name and, next to it, what may be an IPv4 address.\<close>

definition host_states :: "nat list" where
  "host_states = [520, 543, 544, 545, 546, 547, 548, 549, 550, 551, 552, 553, 554, 555, 556, 557, 558, 559, 560]"

lemmas host_state_defs = uri_trans_def uri_states_247_254_def uri_states_542_545_def uri_states_546_550_def
  uri_states_551_554_def uri_states_555_558_def uri_states_559_560_def

definition stays :: "(int \<Rightarrow> bool) \<Rightarrow> uri_act list \<Rightarrow> nat list \<Rightarrow> nat \<Rightarrow> bool" where
  "stays P X S s \<longleftrightarrow> (\<forall>n. P n \<longrightarrow> (\<exists>s' \<in> set S. uri_trans s n = Some (X, s')))"

lemma stays_host_first: "stays name_code [UMark] host_states 511"
  unfolding stays_def host_states_def by (intro allI impI, elim code_cases) (auto simp: scheme_states)

lemma stays_host_520: "stays name_code [] host_states 520"
  unfolding stays_def host_states_def by (intro allI impI, elim code_cases) (auto simp: host_state_defs)

lemma stays_host_543: "stays name_code [] host_states 543"
  unfolding stays_def host_states_def by (intro allI impI, elim code_cases) (auto simp: host_state_defs)

lemma stays_host_544: "stays name_code [] host_states 544"
  unfolding stays_def host_states_def by (intro allI impI, elim code_cases) (auto simp: host_state_defs)

lemma stays_host_545: "stays name_code [] host_states 545"
  unfolding stays_def host_states_def by (intro allI impI, elim code_cases) (auto simp: host_state_defs)

lemma stays_host_546: "stays name_code [] host_states 546"
  unfolding stays_def host_states_def by (intro allI impI, elim code_cases) (auto simp: host_state_defs)

lemma stays_host_547: "stays name_code [] host_states 547"
  unfolding stays_def host_states_def by (intro allI impI, elim code_cases) (auto simp: host_state_defs)

lemma stays_host_548: "stays name_code [] host_states 548"
  unfolding stays_def host_states_def by (intro allI impI, elim code_cases) (auto simp: host_state_defs)

lemma stays_host_549: "stays name_code [] host_states 549"
  unfolding stays_def host_states_def by (intro allI impI, elim code_cases) (auto simp: host_state_defs)

lemma stays_host_550: "stays name_code [] host_states 550"
  unfolding stays_def host_states_def by (intro allI impI, elim code_cases) (auto simp: host_state_defs)

lemma stays_host_551: "stays name_code [] host_states 551"
  unfolding stays_def host_states_def by (intro allI impI, elim code_cases) (auto simp: host_state_defs)

lemma stays_host_552: "stays name_code [] host_states 552"
  unfolding stays_def host_states_def by (intro allI impI, elim code_cases) (auto simp: host_state_defs)

lemma stays_host_553: "stays name_code [] host_states 553"
  unfolding stays_def host_states_def by (intro allI impI, elim code_cases) (auto simp: host_state_defs)

lemma stays_host_554: "stays name_code [] host_states 554"
  unfolding stays_def host_states_def by (intro allI impI, elim code_cases) (auto simp: host_state_defs)

lemma stays_host_555: "stays name_code [] host_states 555"
  unfolding stays_def host_states_def by (intro allI impI, elim code_cases) (auto simp: host_state_defs)

lemma stays_host_556: "stays name_code [] host_states 556"
  unfolding stays_def host_states_def by (intro allI impI, elim code_cases) (auto simp: host_state_defs)

lemma stays_host_557: "stays name_code [] host_states 557"
  unfolding stays_def host_states_def by (intro allI impI, elim code_cases) (auto simp: host_state_defs)

lemma stays_host_558: "stays name_code [] host_states 558"
  unfolding stays_def host_states_def by (intro allI impI, elim code_cases) (auto simp: host_state_defs)

lemma stays_host_559: "stays name_code [] host_states 559"
  unfolding stays_def host_states_def by (intro allI impI, elim code_cases) (auto simp: host_state_defs)

lemma stays_host_560: "stays name_code [] host_states 560"
  unfolding stays_def host_states_def by (intro allI impI, elim code_cases) (auto simp: host_state_defs)

lemma stays_host: "\<forall>s \<in> set host_states. stays name_code [] host_states s"
  using stays_host_520 stays_host_543 stays_host_544 stays_host_545 stays_host_546 stays_host_547 stays_host_548 stays_host_549 stays_host_550 stays_host_551 stays_host_552 stays_host_553 stays_host_554 stays_host_555 stays_host_556 stays_host_557 stays_host_558 stays_host_559 stays_host_560
  by (simp add: host_states_def)

text \<open>Where a piece ends: the actions \<open>X\<close> are due at a number sign, a question mark and the end of the text.\<close>

definition closes_query :: "nat \<Rightarrow> uri_act list \<Rightarrow> bool" where
  "closes_query s X \<longleftrightarrow> 451 \<le> s \<and> uri_eof s = X \<and> uri_trans s 35 = Some (X, 453)"

definition closes_path :: "nat \<Rightarrow> uri_act list \<Rightarrow> bool" where
  "closes_path s X \<longleftrightarrow> closes_query s X \<and> uri_trans s 63 = Some (X, 456)"

definition closes_authority :: "nat \<Rightarrow> uri_act list \<Rightarrow> bool" where
  "closes_authority s X \<longleftrightarrow> closes_path s (X @ [UMark, USavePath]) \<and> uri_trans s 47 = Some (X @ [UMark], 513)"

lemmas closes_defs = closes_authority_def closes_path_def closes_query_def

lemma closes_query_457: "closes_query 457 [USaveQuery]"
  by (simp add: closes_defs uri_eof_def query_states)

lemma closes_path_513: "closes_path 513 [USavePath]"
  by (simp add: closes_defs uri_eof_def path_states)

lemma closes_authority_542: "closes_authority 542 [USavePort]"
  by (simp add: closes_defs uri_eof_def port_states)

lemma host_closed:
  "\<forall>s \<in> set host_states. closes_authority s [USaveHost] \<and> uri_trans s 58 = Some ([USaveHost], 521)"
  by (simp add: host_states_def closes_defs uri_eof_def host_state_defs)

section \<open>Feeding the pieces\<close>

lemma feed_pct:
  assumes "\<And>n. P n \<Longrightarrow> uri_trans s n = Some ([], s)" "uri_trans s 37 = Some ([], a)"
    "\<And>n. hex_code n \<Longrightarrow> uri_trans a n = Some ([], b)" "\<And>n. hex_code n \<Longrightarrow> uri_trans b n = Some ([], s)"
    "0 < s" "0 < a" "0 < b"
  shows "pct_text P w \<Longrightarrow> feed uri_machine len w (p, s, mark, es) = Some (p + length w, s, mark, es)"
proof (induction "length w" arbitrary: w p rule: less_induct)
  case less
  have pc: "signed_char CHR ''%'' = 37" by code_simp
  consider "w = []" | c v where "w = c # v" "c \<noteq> CHR ''%''" "P (signed_char c)" "pct_text P v"
    | c d v where "w = CHR ''%'' # c # d # v" "hex_code (signed_char c)" "hex_code (signed_char d)" "pct_text P v"
    using less.prems by (cases "(P, w)" rule: pct_text.cases) (auto split: if_splits list.splits)
  then show ?case
  proof cases
    case (2 c v)
    then show ?thesis using less.hyps [of v "Suc p"] assms(1) [OF 2(3)] assms(5) by simp
  next
    case (3 c d v)
    then show ?thesis using less.hyps [of v "Suc (Suc (Suc p))"] assms(2) assms(3) [OF 3(2)] assms(4) [OF 3(3)] assms(5-7) pc
      by simp
  qed simp
qed

lemma feed_pct_marked:
  assumes "\<And>n. P n \<Longrightarrow> uri_trans s0 n = Some ([UMark], s)" "uri_trans s0 37 = Some ([UMark], a)"
    and step: "\<And>n. P n \<Longrightarrow> uri_trans s n = Some ([], s)" "uri_trans s 37 = Some ([], a)"
    "\<And>n. hex_code n \<Longrightarrow> uri_trans a n = Some ([], b)" "\<And>n. hex_code n \<Longrightarrow> uri_trans b n = Some ([], s)"
    "0 < s" "0 < a" "0 < b"
    and w: "w \<noteq> []" "pct_text P w"
  shows "feed uri_machine len w (p, s0, mark, es) = Some (p + length w, s, Some p, es)"
proof -
  obtain c v where c: "w = c # v" using w(1) by (cases w) auto
  have pc: "signed_char CHR ''%'' = 37" by code_simp
  have "uri_trans s (signed_char c) = Some ([], t) \<Longrightarrow> uri_trans s0 (signed_char c) = Some ([UMark], t)" for t
    using assms(1) [of "signed_char c"] assms(2) step(1) [of "signed_char c"] step(2) w c pc by (auto split: if_splits)
  moreover have "uri_trans s (signed_char c) \<noteq> None" "snd (the (uri_trans s (signed_char c))) \<noteq> 0"
    "fst (the (uri_trans s (signed_char c))) = []"
    using step(1) [of "signed_char c"] step(2,5,6) w c pc by (auto split: if_splits)
  ultimately obtain t where t: "uri_trans s (signed_char c) = Some ([], t)" "uri_trans s0 (signed_char c) = Some ([UMark], t)" "t \<noteq> 0"
    by (cases "uri_trans s (signed_char c)") auto
  have "feed uri_machine len w (p, s0, mark, es) = feed uri_machine len w (p, s, Some p, es)"
    using t by (simp add: c)
  also have "\<dots> = Some (p + length w, s, Some p, es)" by (rule feed_pct [OF step w(2)])
  finally show ?thesis .
qed

lemma feed_uri_path: "pct_text path_code w \<Longrightarrow> feed uri_machine len w (p, 513, mark, es) = Some (p + length w, 513, mark, es)"
  by (rule feed_pct [OF utrans_path_513 _ utrans_path_243 utrans_path_244]) (simp_all add: utrans_path_fixed)

lemma feed_query:
  "w \<noteq> [] \<Longrightarrow> pct_text query_code w \<Longrightarrow> feed uri_machine len w (p, 456, mark, es) = Some (p + length w, 457, Some p, es)"
  by (rule feed_pct_marked [OF utrans_query_456 _ utrans_query_457 _ utrans_query_7 utrans_query_8]) (simp_all add: utrans_query_fixed)

lemma feed_fragment:
  "w \<noteq> [] \<Longrightarrow> pct_text query_code w \<Longrightarrow> feed uri_machine len w (p, 453, mark, es) = Some (p + length w, 454, Some p, es)"
  by (rule feed_pct_marked [OF utrans_fragment_453 _ utrans_fragment_454 _ utrans_fragment_1 utrans_fragment_2])
    (simp_all add: utrans_fragment_fixed)

lemma feed_stays:
  assumes "\<forall>s \<in> set S. stays P [] S s" "0 \<notin> set S" "\<forall>c \<in> set w. P (signed_char c)"
  shows "s \<in> set S \<Longrightarrow> \<exists>s' \<in> set S. feed uri_machine len w (p, s, mark, es) = Some (p + length w, s', mark, es)"
  using assms(3)
proof (induction w arbitrary: p s)
  case (Cons c w)
  have "stays P [] S s" "P (signed_char c)" using assms(1) Cons.prems by simp_all
  then obtain s1 where s1: "s1 \<in> set S" "uri_trans s (signed_char c) = Some ([], s1)"
    unfolding stays_def by blast
  moreover have "s1 \<noteq> 0" using s1(1) assms(2) by metis
  ultimately show ?case using Cons.IH [OF s1(1), of "Suc p"] Cons.prems by auto
qed simp

lemma feed_host:
  assumes "h \<noteq> []" "\<forall>c \<in> set h. name_code (signed_char c)"
  shows "\<exists>s \<in> set host_states. feed uri_machine len h (p, 511, mark, es) = Some (p + length h, s, Some p, es)"
proof -
  obtain c w where c: "h = c # w" using assms(1) by (cases h) auto
  obtain s1 where s1: "s1 \<in> set host_states" "uri_trans 511 (signed_char c) = Some ([UMark], s1)"
    using stays_host_first assms(2) c by (auto simp: stays_def)
  have "0 \<notin> set host_states" by (simp add: host_states_def)
  moreover from this have "s1 \<noteq> 0" using s1(1) by metis
  moreover have "\<forall>c \<in> set w. name_code (signed_char c)" using assms(2) c by simp
  ultimately show ?thesis using feed_stays [OF stays_host _ _ s1(1), of w len "Suc p" "Some p" es] s1(2) c by auto
qed

lemma feed_port:
  assumes "w \<noteq> []" "\<forall>c \<in> set w. decimal_char c"
  shows "feed uri_machine len w (p, 521, mark, es) = Some (p + length w, 542, Some p, es)"
proof -
  obtain c v where c: "w = c # v" using assms(1) by (cases w) auto
  have "feed uri_machine len v (Suc p, 542, Some p, es) = Some (Suc p + length v, 542, Some p, es)"
    using assms(2) c utrans_port_542 by (intro feed_self) (auto simp: decimal_char_def digit_code_def)
  then show ?thesis using utrans_port_521 [of "signed_char c"] assms(2) c by (simp add: decimal_char_def digit_code_def)
qed

definition scheme_ok :: "string \<Rightarrow> bool" where
  "scheme_ok w \<longleftrightarrow> w \<noteq> [] \<and> alpha_code (signed_char (hd w)) \<and> (\<forall>c \<in> set (tl w). scheme_code (signed_char c))"

lemma feed_scheme:
  assumes "scheme_ok w"
  shows "feed uri_machine len (w @ ''://'') (0, 451, None, []) =
    Some (length w + 3, 511, None, [UriPart Scheme (Some 0) (length w)])"
proof -
  obtain c v where c: "w = c # v" using assms by (cases w) (auto simp: scheme_ok_def)
  have "feed uri_machine len v (1, 508, Some 0, []) = Some (1 + length v, 508, Some 0, [])"
    using assms c utrans_scheme_508 by (intro feed_self) (auto simp: scheme_ok_def)
  moreover have "signed_char CHR '':'' = 58" "signed_char CHR ''/'' = 47" by code_simp+
  ultimately show ?thesis using utrans_scheme_451 [of "signed_char c"] assms c
    by (simp add: feed_append scheme_ok_def utrans_scheme_fixed log_handler_def)
qed

section \<open>To the end of the text\<close>

definition ends :: "nat \<Rightarrow> string \<Rightarrow> (nat option, uri_event) feed_state \<Rightarrow> uri_event list \<Rightarrow> bool" where
  "ends len w st es' \<longleftrightarrow> (\<exists>cs mark es mark'. feed uri_machine len w st = Some (len, cs, mark, es) \<and> 451 \<le> cs
     \<and> run_acts uri_machine log_handler len len (uri_eof cs) mark es = Ret (False, mark', es'))"

lemma ends_feed: "feed uri_machine len u st = Some st1 \<Longrightarrow> ends len w st1 es \<Longrightarrow> ends len (u @ w) st es"
  by (auto simp: ends_def feed_append)

lemma ends_run:
  assumes "ends (length text) text (0, 451, None, []) es"
  shows "\<exists>cs. uri_run log_handler text [] = Ret (cs, es) \<and> 451 \<le> cs"
proof -
  obtain cs mark es1 mark' where f: "feed uri_machine (length text) text (length ([] :: string), 451, None, []) = Some (length text, cs, mark, es1)"
    and cs: "451 \<le> cs" "run_acts uri_machine log_handler (length text) (length text) (uri_eof cs) mark es1 = Ret (False, mark', es)"
    using assms by (auto simp: ends_def)
  have "run_machine uri_machine log_handler text 0 451 None [] = Ret (cs, length text, mark, es1)"
    using loop_feed [OF f, of "[]"] by (simp add: run_machine.simps)
  then show ?thesis using cs by (simp add: uri_run_def uri_parser_start_def)
qed

definition gives :: "uri_act list \<Rightarrow> nat option \<Rightarrow> nat \<Rightarrow> uri_event list \<Rightarrow> nat option \<Rightarrow> bool" where
  "gives X mark p E mark' \<longleftrightarrow> (\<forall>len es. run_acts uri_machine log_handler len p X mark es = Ret (False, mark', es @ E))"

lemma gives_append: "gives X mark p E mark1 \<Longrightarrow> gives Y mark1 p F mark2 \<Longrightarrow> gives (X @ Y) mark p (E @ F) mark2"
proof -
  have "run_acts uri_machine log_handler len p X mark es = Ret (False, mark1, es') \<Longrightarrow>
      run_acts uri_machine log_handler len p (X @ Y) mark es = run_acts uri_machine log_handler len p Y mark1 es'" for len es es'
    by (induction X arbitrary: mark es) (auto simp: log_handler_def split: prod.splits option.splits)
  then show "gives X mark p E mark1 \<Longrightarrow> gives Y mark1 p F mark2 \<Longrightarrow> ?thesis" by (simp add: gives_def)
qed

lemma gives_simps:
  "gives [USaveHost] (Some m) p [UriPart Host (Some m) p] (Some m)"
  "m \<noteq> p \<Longrightarrow> gives [USavePort] (Some m) p [UriPart Port (Some m) p] None"
  "gives [UMark] mark p [] (Some p)"
  "gives [USavePath] (Some m) p [UriPart Path (Some m) p] None"
  "gives [UMark, USavePath] mark p [UriPart Path (Some p) p] None"
  "gives [USaveQuery] (Some m) p [UriPart Query (Some m) p] None"
  by (simp_all add: gives_def log_handler_def)

definition query_text :: "string \<Rightarrow> string" where
  "query_text q = (if q = [] then [] else CHR ''?'' # q)"

definition fragment_text :: "string \<Rightarrow> string" where
  "fragment_text f = (if f = [] then [] else CHR ''#'' # f)"

definition piece :: "uri_part \<Rightarrow> nat \<Rightarrow> string \<Rightarrow> uri_event list" where
  "piece k p w = (if w = [] then [] else [UriPart k (Some (p + 1)) (p + 1 + length w)])"

lemma signed_marks: "signed_char CHR ''#'' = 35" "signed_char CHR ''?'' = 63" "signed_char CHR ''/'' = 47" "signed_char CHR '':'' = 58"
  by code_simp+

lemma ends_fragment:
  assumes "closes_query s X" "gives X mark p E mark'" "pct_text query_code f" "len = p + length (fragment_text f)"
  shows "ends len (fragment_text f) (p, s, mark, es) (es @ E @ piece Fragment p f)"
proof (cases "f = []")
  case True
  then show ?thesis using assms by (simp add: ends_def closes_query_def gives_def fragment_text_def piece_def)
next
  case False
  have "feed uri_machine len ''#'' (p, s, mark, es) = Some (p + 1, 453, mark', es @ E)"
    using assms(1,2) by (simp add: closes_query_def gives_def signed_marks)
  moreover have "ends len f (p + 1, 453, mark', es @ E) (es @ E @ piece Fragment p f)"
    using feed_fragment [OF False assms(3)] False assms(4)
    by (simp add: ends_def fragment_text_def uri_eof_def piece_def log_handler_def)
  ultimately show ?thesis using ends_feed [of len "''#''"] False by (simp add: fragment_text_def)
qed

lemma ends_query:
  assumes "closes_path s X" "gives X mark p E mark'" "pct_text query_code q" "pct_text query_code f"
    "len = p + length (query_text q) + length (fragment_text f)"
  shows "ends len (query_text q @ fragment_text f) (p, s, mark, es)
    (es @ E @ piece Query p q @ piece Fragment (p + length (query_text q)) f)"
proof (cases "q = []")
  case True
  then show ?thesis using assms ends_fragment [of s X mark p E mark' f len es]
    by (simp add: closes_path_def query_text_def piece_def)
next
  case False
  have "feed uri_machine len ''?'' (p, s, mark, es) = Some (p + 1, 456, mark', es @ E)"
    using assms(1,2) by (simp add: closes_path_def gives_def signed_marks)
  then have f: "feed uri_machine len (''?'' @ q) (p, s, mark, es) = Some (p + 1 + length q, 457, Some (p + 1), es @ E)"
    by (rule feed_appendI) (rule feed_query [OF False assms(3)])
  have "ends len (fragment_text f) (p + 1 + length q, 457, Some (p + 1), es @ E)
      ((es @ E) @ [UriPart Query (Some (p + 1)) (p + 1 + length q)] @ piece Fragment (p + 1 + length q) f)"
    using assms(4,5) False by (intro ends_fragment [OF closes_query_457 gives_simps(6)]) (simp_all add: query_text_def)
  from ends_feed [OF f this] show ?thesis using False by (simp add: query_text_def piece_def)
qed

lemma ends_path:
  assumes "closes_authority s X" "gives X mark p E mark'" "path = [] \<or> hd path = CHR ''/''" "pct_text path_code path"
    "pct_text query_code q" "pct_text query_code f" "len = p + length (path @ query_text q @ fragment_text f)"
  shows "ends len (path @ query_text q @ fragment_text f) (p, s, mark, es)
    (es @ E @ [UriPart Path (Some p) (p + length path)] @ piece Query (p + length path) q
      @ piece Fragment (p + length path + length (query_text q)) f)"
proof (cases path)
  case Nil
  have "closes_path s (X @ [UMark, USavePath])" using assms(1) by (simp add: closes_authority_def)
  from ends_query [OF this gives_append [OF assms(2) gives_simps(5)] assms(5,6), of len es] show ?thesis
    using Nil assms(7) by simp
next
  case (Cons c w)
  have c: "c = CHR ''/''" using assms(3) Cons by simp
  have w: "pct_text path_code w" using assms(4) Cons c by simp
  have "gives (X @ [UMark]) mark p (E @ []) (Some p)" by (rule gives_append [OF assms(2) gives_simps(3)])
  then have "feed uri_machine len ''/'' (p, s, mark, es) = Some (p + 1, 513, Some p, es @ E)"
    using assms(1) by (simp add: closes_authority_def gives_def signed_marks)
  then have f: "feed uri_machine len (''/'' @ w) (p, s, mark, es) = Some (p + 1 + length w, 513, Some p, es @ E)"
    by (rule feed_appendI) (rule feed_uri_path [OF w])
  have "ends len (query_text q @ fragment_text f) (p + 1 + length w, 513, Some p, es @ E)
      ((es @ E) @ [UriPart Path (Some p) (p + 1 + length w)] @ piece Query (p + 1 + length w) q
        @ piece Fragment (p + 1 + length w + length (query_text q)) f)"
    using assms(7) Cons by (intro ends_query [OF closes_path_513 gives_simps(4) assms(5,6)]) simp
  from ends_feed [OF f this] show ?thesis using Cons c by simp
qed

end
