(* ===== verification/Uri_Spec.thy ===== *)
theory Uri_Spec
  imports Uri_Runs
begin

text \<open>
  What \<open>Uri::Create\<close> makes of a URI with an authority, that printing and parsing agree, and the authorities on
  which \<open>Create\<close> throws or keeps the wrong piece (\<open>radixun/http/uri.rl\<close>).
\<close>

section \<open>The events of a whole text\<close>

definition port_text :: "nat option \<Rightarrow> string" where
  "port_text port = (case port of None \<Rightarrow> [] | Some n \<Rightarrow> CHR '':'' # dec_string n)"

definition uri_text :: "string \<Rightarrow> string \<Rightarrow> nat option \<Rightarrow> string \<Rightarrow> string \<Rightarrow> string \<Rightarrow> string" where
  "uri_text sch h port path q f = (sch @ ''://'') @ (h @ port_text port) @ path @ query_text q @ fragment_text f"

definition host_ok :: "string \<Rightarrow> bool" where
  "host_ok h \<longleftrightarrow> h \<noteq> [] \<and> (\<forall>c \<in> set h. name_code (signed_char c))"

definition tail_ok :: "string \<Rightarrow> string \<Rightarrow> string \<Rightarrow> bool" where
  "tail_ok path q f \<longleftrightarrow> (path = [] \<or> hd path = CHR ''/'') \<and> pct_text path_code path \<and> pct_text query_code q \<and> pct_text query_code f"

definition authority_events :: "nat \<Rightarrow> string \<Rightarrow> nat option \<Rightarrow> uri_event list" where
  "authority_events p h port = UriPart Host (Some p) (p + length h) #
     (case port of None \<Rightarrow> [] | Some n \<Rightarrow> [UriPart Port (Some (p + length h + 1)) (p + length h + 1 + length (dec_string n))])"

definition tail_events :: "nat \<Rightarrow> string \<Rightarrow> string \<Rightarrow> string \<Rightarrow> uri_event list" where
  "tail_events p path q f = [UriPart Path (Some p) (p + length path)] @ piece Query (p + length path) q
     @ piece Fragment (p + length path + length (query_text q)) f"

lemma uri_text_events:
  assumes "scheme_ok sch" "host_ok h" "tail_ok path q f"
  shows "\<exists>cs. uri_run log_handler (uri_text sch h port path q f) [] = Ret (cs, [UriPart Scheme (Some 0) (length sch)]
      @ authority_events (length sch + 3) h port @ tail_events (length sch + 3 + length (h @ port_text port)) path q f) \<and> 451 \<le> cs"
proof -
  let ?text = "uri_text sch h port path q f" and ?p = "length sch + 3"
  let ?len = "length ?text" and ?q = "?p + length h"
  let ?es = "[UriPart Scheme (Some 0) (length sch)]"
  note s = feed_scheme [OF assms(1), of ?len]
  have h: "h \<noteq> []" "\<forall>c \<in> set h. name_code (signed_char c)" using assms(2) by (simp_all add: host_ok_def)
  obtain st where st: "st \<in> set host_states" "feed uri_machine ?len h (?p, 511, None, ?es) = Some (?q, st, Some ?p, ?es)"
    using feed_host [OF h, of ?len ?p None ?es] by auto
  have cl: "closes_authority st [USaveHost]" "uri_trans st 58 = Some ([USaveHost], 521)" using host_closed st(1) by auto
  have t: "path = [] \<or> hd path = CHR ''/''" "pct_text path_code path" "pct_text query_code q" "pct_text query_code f"
    using assms(3) by (auto simp: tail_ok_def)
  have "ends ?len ((h @ port_text port) @ path @ query_text q @ fragment_text f) (?p, 511, None, ?es)
      (?es @ authority_events ?p h port @ tail_events (?p + length (h @ port_text port)) path q f)"
  proof (cases port)
    case None
    have "ends ?len (path @ query_text q @ fragment_text f) (?q, st, Some ?p, ?es)
        (?es @ [UriPart Host (Some ?p) ?q] @ tail_events ?q path q f)"
      unfolding tail_events_def using None
      by (intro ends_path [OF cl(1) gives_simps(1) t]) (simp add: uri_text_def port_text_def)
    from ends_feed [OF st(2) this] show ?thesis
      using None by (simp add: authority_events_def port_text_def)
  next
    case (Some n)
    let ?m = "?q + 1" and ?e = "?q + 1 + length (dec_string n)" and ?es2 = "?es @ [UriPart Host (Some ?p) ?q]"
    have "feed uri_machine ?len '':'' (?q, st, Some ?p, ?es) = Some (?m, 521, Some ?p, ?es2)"
      using cl(2) gives_simps(1) [of ?p ?q] by (simp add: gives_def signed_marks)
    then have "feed uri_machine ?len ('':'' @ dec_string n) (?q, st, Some ?p, ?es) = Some (?e, 542, Some ?m, ?es2)"
      by (rule feed_appendI) (rule feed_port [OF dec_string_ne dec_string_decimal])
    then have f: "feed uri_machine ?len (h @ port_text port) (?p, 511, None, ?es) = Some (?e, 542, Some ?m, ?es2)"
      using feed_appendI [OF st(2)] Some by (simp add: port_text_def)
    have "?m \<noteq> ?e" by simp
    have "ends ?len (path @ query_text q @ fragment_text f) (?e, 542, Some ?m, ?es2)
        (?es2 @ [UriPart Port (Some ?m) ?e] @ tail_events ?e path q f)"
      unfolding tail_events_def using Some
      by (intro ends_path [OF closes_authority_542 gives_simps(2) [OF \<open>?m \<noteq> ?e\<close>] t]) (simp add: uri_text_def port_text_def)
    from ends_feed [OF f this] show ?thesis
      using Some by (simp add: authority_events_def port_text_def add.assoc)
  qed
  from ends_run [OF ends_feed [OF s this, folded uri_text_def]] show ?thesis by simp
qed

section \<open>The object\<close>

lemma cpp_string_piece:
  "text = A @ w @ B \<Longrightarrow> length text < 2 ^ 63 \<Longrightarrow> cpp_string text (length A) (length w) = Ret w"
  by (simp add: cpp_string_def)

lemma uri_save_piece:
  assumes "text = A @ w @ B" "length text < 2 ^ 63" "k \<noteq> Port" "m = length A" "p = length A + length w"
  shows "uri_save text (UriPart k (Some m) p) u = Ret (set_part k w u)"
  using cpp_string_piece [OF assms(1,2)] assms(3-5) by simp

lemma narrow32_int: "n < 2 ^ 31 \<Longrightarrow> narrow32 (int n) = int n"
proof -
  assume "n < 2 ^ 31"
  then have "signed_take_bit 31 (int n) = int n" by (intro signed_take_bit_int_eq_self) auto
  then show ?thesis by (simp add: narrow32_def signed_of_nat)
qed

lemma uri_save_port:
  assumes "text = A @ dec_string n @ B" "B = [] \<or> hd B \<in> {CHR ''/'', CHR ''?'', CHR ''#''}" "n < 2 ^ 31" "m = length A"
  shows "uri_save text (UriPart Port (Some m) p) u = Ret (u\<lparr>ur_port := int n\<rparr>)"
proof -
  have "B = [] \<or> digit_value (hd B) \<ge> 10" using assms(2) by (auto simp: digit_value_def Let_def)
  then have "strtol 10 (dec_string n @ B) = int (digits_value (dec_string n))"
    using assms(3) by (intro strtol_decimal [OF dec_string_ne dec_string_decimal]) simp_all
  then show ?thesis using assms narrow32_int by simp
qed

lemma deliver_piece:
  assumes "text = A @ (if w = [] then [] else c # w) @ B" "length text < 2 ^ 63" "k \<noteq> Port" "p = length A"
    "set_part k [] u = u"
  shows "deliver (uri_save text) (piece k p w) u = Ret (set_part k w u)"
proof (cases "w = []")
  case False
  then have "text = (A @ [c]) @ w @ B" using assms(1) by simp
  from uri_save_piece [OF this assms(2,3), of "p + 1" "p + 1 + length w" u] show ?thesis
    using False assms(4) by (simp add: piece_def)
qed (use assms(5) in \<open>simp add: piece_def\<close>)

lemma deliver_authority:
  assumes "text = H @ (h @ port_text port) @ B" "length text < 2 ^ 63" "\<forall>n. port = Some n \<longrightarrow> n < 2 ^ 31" "ur_port u = 0"
    "B = [] \<or> hd B \<in> {CHR ''/'', CHR ''?'', CHR ''#''}"
  shows "deliver (uri_save text) (authority_events (length H) h port) u =
    Ret (u\<lparr>ur_host := h, ur_port := (case port of None \<Rightarrow> 0 | Some n \<Rightarrow> int n)\<rparr>)"
proof -
  have h: "uri_save text (UriPart Host (Some (length H)) (length H + length h)) u = Ret (u\<lparr>ur_host := h\<rparr>)"
    by (subst uri_save_piece [of _ H h "port_text port @ B", OF _ assms(2)]) (simp_all add: assms(1))
  show ?thesis
  proof (cases port)
    case None
    then show ?thesis using h assms(4) by (simp add: authority_events_def)
  next
    case (Some n)
    have "uri_save text (UriPart Port (Some (length H + length h + 1)) p) v = Ret (v\<lparr>ur_port := int n\<rparr>)" for p v
      using assms(3) Some by (intro uri_save_port [OF _ assms(5), of _ "H @ h @ '':''"]) (simp_all add: assms(1) port_text_def)
    then show ?thesis using h Some by (simp add: authority_events_def)
  qed
qed

lemma deliver_tail:
  assumes "text = A @ path @ query_text q @ fragment_text f" "length text < 2 ^ 63" "ur_query u = []" "ur_fragment u = []"
  shows "deliver (uri_save text) (tail_events (length A) path q f) u =
    Ret (u\<lparr>ur_path := path, ur_query := q, ur_fragment := f\<rparr>)"
proof -
  have "uri_save text (UriPart Path (Some (length A)) (length A + length path)) u = Ret (u\<lparr>ur_path := path\<rparr>)"
    by (subst uri_save_piece [of _ A path "query_text q @ fragment_text f", OF _ assms(2)]) (simp_all add: assms(1))
  moreover have "deliver (uri_save text) (piece Query (length A + length path) q) (u\<lparr>ur_path := path\<rparr>) =
      Ret (u\<lparr>ur_path := path, ur_query := q\<rparr>)"
    using assms(3) by (subst deliver_piece [of _ "A @ path" q "CHR ''?''" "fragment_text f", OF _ assms(2)])
      (simp_all add: assms(1) query_text_def)
  moreover have "deliver (uri_save text) (piece Fragment (length A + length path + length (query_text q)) f)
      (u\<lparr>ur_path := path, ur_query := q\<rparr>) = Ret (u\<lparr>ur_path := path, ur_query := q, ur_fragment := f\<rparr>)"
    using assms(4) by (subst deliver_piece [of _ "A @ path @ query_text q" f "CHR ''#''" "[]", OF _ assms(2)])
      (simp_all add: assms(1) fragment_text_def)
  ultimately show ?thesis by (simp add: tail_events_def deliver_append)
qed

lemma tail_first:
  "tail_ok path q f \<Longrightarrow> path @ query_text q @ fragment_text f = []
    \<or> hd (path @ query_text q @ fragment_text f) \<in> {CHR ''/'', CHR ''?'', CHR ''#''}"
  by (cases path) (auto simp: tail_ok_def query_text_def fragment_text_def)

definition uri_of :: "string \<Rightarrow> string \<Rightarrow> nat option \<Rightarrow> string \<Rightarrow> string \<Rightarrow> string \<Rightarrow> uri" where
  "uri_of sch h port path q f =
     \<lparr>ur_scheme = sch, ur_userinfo = [], ur_host = h, ur_path = path, ur_query = q, ur_fragment = f,
      ur_port = (case port of None \<Rightarrow> 0 | Some n \<Rightarrow> int n)\<rparr>"

text \<open>C13. Every URI \<open>scheme://host[:port][path][?query][#fragment]\<close> of the grammar (a registered name or IPv4
  host without escapes, percent escapes in path, query and fragment, a port below \<open>2^31\<close>) is read completely:
  \<open>Create\<close> returns the object with exactly these pieces.\<close>

theorem uri_parsed:
  assumes "scheme_ok sch" "host_ok h" "tail_ok path q f" "\<forall>n. port = Some n \<longrightarrow> n < 2 ^ 31"
    "length (uri_text sch h port path q f) < 2 ^ 63"
  shows "Uri_Create (uri_text sch h port path q f) = Ret (Some (uri_of sch h port path q f))"
proof -
  let ?text = "uri_text sch h port path q f" and ?H = "sch @ ''://''"
  let ?T = "path @ query_text q @ fragment_text f"
  obtain cs where r: "uri_run log_handler ?text [] = Ret (cs, [UriPart Scheme (Some 0) (length sch)]
      @ authority_events (length sch + 3) h port @ tail_events (length sch + 3 + length (h @ port_text port)) path q f)" "451 \<le> cs"
    using uri_text_events [OF assms(1-3)] by blast
  let ?u1 = "Uri_new\<lparr>ur_scheme := sch\<rparr>"
  let ?u2 = "?u1\<lparr>ur_host := h, ur_port := (case port of None \<Rightarrow> 0 | Some n \<Rightarrow> int n)\<rparr>"
  have "?text = [] @ sch @ ''://'' @ (h @ port_text port) @ ?T" by (simp add: uri_text_def)
  then have s: "uri_save ?text (UriPart Scheme (Some 0) (length sch)) Uri_new = Ret ?u1"
    by (subst uri_save_piece [OF _ assms(5)]) simp_all
  have l: "length sch + 3 = length ?H" "length ?H + length (h @ port_text port) = length (?H @ h @ port_text port)" by simp_all
  have a: "deliver (uri_save ?text) (authority_events (length ?H) h port) ?u1 = Ret ?u2"
    by (rule deliver_authority [OF uri_text_def assms(5,4) _ tail_first [OF assms(3)]]) (simp add: Uri_new_def)
  have "?text = (?H @ h @ port_text port) @ ?T" by (simp add: uri_text_def)
  then have t: "deliver (uri_save ?text) (tail_events (length (?H @ h @ port_text port)) path q f) ?u2 =
      Ret (?u2\<lparr>ur_path := path, ur_query := q, ur_fragment := f\<rparr>)"
    by (rule deliver_tail [OF _ assms(5)]) (simp_all add: Uri_new_def)
  have "uri_run (uri_save ?text) ?text Uri_new = Ret (cs, ?u2\<lparr>ur_path := path, ur_query := q, ur_fragment := f\<rparr>)"
    unfolding uri_run_deliver [OF r(1) [unfolded l]] by (simp only: deliver_append deliver.simps obind.simps s a t)
  then show ?thesis using r(2)
    by (simp add: Uri_Create_def uri_parser_error_def uri_parser_first_final_def uri_of_def Uri_new_def)
qed

theorem uri_parsed_witness:
  "Uri_Create ''http://www.x.org:8080/a%20b?q=1#top'' =
     Ret (Some (uri_of ''http'' ''www.x.org'' (Some 8080) ''/a%20b'' ''q=1'' ''top''))"
proof -
  have c: "scheme_ok ''http''" "host_ok ''www.x.org''" "tail_ok ''/a%20b'' ''q=1'' ''top''" by code_simp+
  have d: "dec_string 8080 = ''8080''" by (simp add: dec_string_def digits.simps digit_char_def char_of_def bit_0)
  show ?thesis using uri_parsed [OF c, of "Some 8080"]
    by (simp add: uri_text_def port_text_def query_text_def fragment_text_def d)
qed

section \<open>Printing and parsing\<close>

definition printable_uri :: "uri \<Rightarrow> bool" where
  "printable_uri u \<longleftrightarrow> scheme_ok (ur_scheme u) \<and> ur_userinfo u = [] \<and> host_ok (ur_host u) \<and> 0 \<le> ur_port u \<and> ur_port u < 2 ^ 31
     \<and> tail_ok (ur_path u) (ur_query u) (ur_fragment u)"

text \<open>C14. For an object without a user info, with a scheme, a registered name or IPv4 host without escapes, a port
  in \<open>0 .. 2^31-1\<close> and a path, query and fragment of the grammar, what \<open>Uri::toString\<close> prints, \<open>Uri::Create\<close> reads
  back: the new object answers every getter as the old one and prints the same text. (The condition on the user info
  matters: \<open>u:8p\<close> is printed, but the colon is read as the start of a port and only \<open>8p\<close> comes back.)\<close>

theorem printed_uri_roundtrip:
  assumes "printable_uri u" "length (ur_toString u) < 2 ^ 63"
  shows "\<exists>v. Uri_Create (ur_toString u) = Ret (Some v) \<and> ur_scheme v = ur_scheme u \<and> ur_userinfo v = ur_userinfo u
    \<and> ur_host v = ur_host u \<and> ur_getPath v = ur_getPath u \<and> ur_query v = ur_query u \<and> ur_fragment v = ur_fragment u
    \<and> ur_getPort v = ur_getPort u \<and> ur_toString v = ur_toString u"
proof -
  let ?port = "if isDefaultPort u then None else Some (nat (ur_port u))"
  let ?v = "uri_of (ur_scheme u) (ur_host u) ?port (ur_getPath u) (ur_query u) (ur_fragment u)"
  have p: "scheme_ok (ur_scheme u)" "host_ok (ur_host u)" "tail_ok (ur_path u) (ur_query u) (ur_fragment u)"
    "ur_userinfo u = []" "0 \<le> ur_port u" "ur_port u < 2 ^ 31"
    using assms(1) by (simp_all add: printable_uri_def)
  have slash: "path_code (signed_char CHR ''/'')" by code_simp
  then have t: "tail_ok (ur_getPath u) (ur_query u) (ur_fragment u)" using p(3) by (auto simp: tail_ok_def ur_getPath_def)
  have d: "ur_toString u = uri_text (ur_scheme u) (ur_host u) ?port (ur_getPath u) (ur_query u) (ur_fragment u)"
    using p(4,5) by (simp add: ur_toString_def ur_dump_def uri_text_def port_text_def to_string_def query_text_def fragment_text_def)
  have "\<forall>n. ?port = Some n \<longrightarrow> n < 2 ^ 31" using p(6) by auto
  then have c: "Uri_Create (ur_toString u) = Ret (Some ?v)"
    using uri_parsed [OF p(1,2) t] assms(2) unfolding d by blast
  have g: "ur_getPort ?v = ur_getPort u" "ur_getPath ?v = ur_getPath u" "isDefaultPort ?v = isDefaultPort u"
    using p(5) by (auto simp: uri_of_def ur_getPort_def isDefaultPort_def ur_getPath_def)
  have fields: "ur_scheme ?v = ur_scheme u" "ur_userinfo ?v = ur_userinfo u" "ur_host ?v = ur_host u"
    "ur_query ?v = ur_query u" "ur_fragment ?v = ur_fragment u" using p(4) by (simp_all add: uri_of_def)
  have "ur_toString ?v = ur_toString u"
    unfolding ur_toString_def ur_dump_def g fields using p(5) by (simp add: uri_of_def)
  then show ?thesis using c g fields by blast
qed

lemma dec_8443: "dec_string 8443 = ''8443''"
  by (simp add: dec_string_def digits.simps digit_char_def char_of_def bit_0)

theorem printed_uri_roundtrip_witness:
  "\<exists>v. Uri_Create (ur_toString (uri_of ''https'' ''h'' (Some 8443) [] ''q'' [])) = Ret (Some v) \<and> ur_getPath v = ''/''
    \<and> ur_getPort v = 8443"
proof -
  let ?u = "uri_of ''https'' ''h'' (Some 8443) [] ''q'' []"
  have c: "scheme_ok ''https''" "host_ok ''h''" "tail_ok [] ''q'' []" by code_simp+
  then have p: "printable_uri ?u" by (simp add: printable_uri_def uri_of_def)
  have "length (ur_toString ?u) < 2 ^ 63" by (simp add: ur_toString_def ur_dump_def uri_of_def isDefaultPort_def ur_getPath_def to_string_def dec_8443)
  from printed_uri_roundtrip [OF p this] show ?thesis by (auto simp: uri_of_def ur_getPath_def ur_getPort_def)
qed

section \<open>Authorities that go wrong\<close>

text \<open>C23. A URI whose port is empty makes \<open>Create\<close> throw: saving the empty port clears \<open>mark\<close> after the start of
  the path was put there, and the path is then built from a null pointer.\<close>

theorem empty_port_throws:
  assumes "scheme_ok sch" "host_ok h" "tail_ok path q f" "length sch + length h < 2 ^ 62"
  shows "Uri_Create ((sch @ ''://'') @ (h @ '':'') @ path @ query_text q @ fragment_text f) = Throw LogicError"
proof -
  let ?text = "(sch @ ''://'') @ (h @ '':'') @ path @ query_text q @ fragment_text f" and ?p = "length sch + 3"
  let ?len = "length ?text" and ?m = "?p + length h + 1" and ?es = "[UriPart Scheme (Some 0) (length sch)]"
  let ?e2 = "?es @ [UriPart Host (Some ?p) (?p + length h)]"
  note s = feed_scheme [OF assms(1), of ?len]
  have h: "h \<noteq> []" "\<forall>c \<in> set h. name_code (signed_char c)" using assms(2) by (simp_all add: host_ok_def)
  obtain st where st: "st \<in> set host_states" "feed uri_machine ?len h (?p, 511, None, ?es) = Some (?p + length h, st, Some ?p, ?es)"
    using feed_host [OF h, of ?len ?p None ?es] by auto
  have "uri_trans st 58 = Some ([USaveHost], 521)" using host_closed st(1) by auto
  then have "feed uri_machine ?len '':'' (?p + length h, st, Some ?p, ?es) = Some (?m, 521, Some ?p, ?e2)"
    by (simp add: log_handler_def signed_marks)
  then have f: "feed uri_machine ?len (h @ '':'') (?p, 511, None, ?es) = Some (?m, 521, Some ?p, ?e2)"
    by (rule feed_appendI [OF st(2)])
  have t: "path = [] \<or> hd path = CHR ''/''" "pct_text path_code path" "pct_text query_code q" "pct_text query_code f"
    using assms(3) by (auto simp: tail_ok_def)
  have "\<exists>es3. ends ?len (path @ query_text q @ fragment_text f) (?m, 521, Some ?p, ?e2)
      (?e2 @ [UriPart Path None (?m + length path)] @ es3)"
  proof (cases path)
    case Nil
    have "closes_path 521 [UMark, USavePort, USavePath]" by (simp add: closes_defs uri_eof_def port_states)
    moreover have "gives [UMark, USavePort, USavePath] (Some ?p) ?m [UriPart Path None ?m] None"
      by (simp add: gives_def log_handler_def)
    ultimately show ?thesis using ends_query [OF _ _ t(3,4), of 521 _ "Some ?p" ?m _ None ?len ?e2] Nil by fastforce
  next
    case (Cons c w)
    have w: "pct_text path_code w" "c = CHR ''/''" using t(1,2) Cons by simp_all
    have "uri_trans 521 47 = Some ([UMark, USavePort], 513)" by (simp add: port_states)
    then have "feed uri_machine ?len ''/'' (?m, 521, Some ?p, ?e2) = Some (?m + 1, 513, None, ?e2)" by (simp add: signed_marks)
    then have f2: "feed uri_machine ?len (''/'' @ w) (?m, 521, Some ?p, ?e2) = Some (?m + 1 + length w, 513, None, ?e2)"
      by (rule feed_appendI) (rule feed_uri_path [OF w(1)])
    have "gives [USavePath] None (?m + 1 + length w) [UriPart Path None (?m + 1 + length w)] None"
      by (simp add: gives_def log_handler_def)
    moreover have "?len = ?m + 1 + length w + length (query_text q) + length (fragment_text f)" using Cons by simp
    ultimately have "ends ?len (query_text q @ fragment_text f) (?m + 1 + length w, 513, None, ?e2)
        (?e2 @ [UriPart Path None (?m + 1 + length w)] @ piece Query (?m + 1 + length w) q
          @ piece Fragment (?m + 1 + length w + length (query_text q)) f)"
      by (intro ends_query [OF closes_path_513 _ t(3,4)])
    from ends_feed [OF f2 this] show ?thesis using Cons w(2) by (intro exI) (simp add: add.assoc)
  qed
  then obtain es3 where "ends ?len (path @ query_text q @ fragment_text f) (?m, 521, Some ?p, ?e2)
      (?e2 @ [UriPart Path None (?m + length path)] @ es3)" by blast
  then obtain cs where r: "uri_run log_handler ?text [] = Ret (cs, ?e2 @ [UriPart Path None (?m + length path)] @ es3)"
    using ends_run [OF ends_feed [OF s ends_feed [OF f]]] by blast
  have "cpp_string ?text 0 (length sch) = Ret sch" "cpp_string ?text ?p (length h) = Ret h"
    using assms(4) by (simp_all add: cpp_string_def)
  then show ?thesis unfolding Uri_Create_def uri_run_deliver [OF r] by simp
qed

theorem empty_port_throws_witness: "Uri_Create ''http://h:/x'' = Throw LogicError"
proof -
  have c: "scheme_ok ''http''" "host_ok ''h''" "tail_ok ''/x'' [] []" by code_simp+
  show ?thesis using empty_port_throws [OF c] by (simp add: query_text_def fragment_text_def)
qed

end
