(* ===== verification/Spec2Isabelle.thy ===== *)
theory Spec2Isabelle
  imports ByteArray_IO ByteArray_Codec Timer Scheduler IOManager Hook TcpServer UriQuery HttpServer HttpChunks HttpPool Uri_Spec
begin

text \<open>
  A model of radixun, a C++ library for network servers: fibers on a thread scheduler, an event loop with
  timers, system calls that suspend the calling fiber instead of its thread, sockets, and HTTP on top.

  \<^bold>\<open>Parts and theories.\<close> The source files are under \<open>src/radixun\<close>.

  \<^item> \<open>Prelude\<close>: machine types, \<open>outcome\<close> (a value, a C++ exception, or a fault: a failed assertion,
    an access outside memory or a signed overflow), \<open>size_t\<close> and \<open>int\<close> arithmetic with its wrap-around, digits, characters.
    \<open>Ordered\<close>: \<open>std::set\<close> and \<open>std::map\<close> over a comparator, with a locale for the comparator's laws.
  \<^item> \<open>Endian\<close> (\<open>common/endian.h\<close>); \<open>ByteArray\<close>, \<open>ByteArray_Codec\<close>, \<open>ByteArray_IO\<close>
    (\<open>common/bytearray.*\<close>): the block list, the typed reads and writes, the iovec views and files. Where
    \<open>addCapacity\<close> allocates too little (\<open>capacity_shortfall\<close>) the theorems say that the code dereferences null; the
    zigzag coding faults where its signed arithmetic overflows. The abstract specification is a plain byte sequence with a cursor; raw access refines it, each codec is an
    interpretation of one locale.
  \<^item> \<open>Timer\<close> (\<open>common/timer.*\<close>); \<open>Fiber\<close>, \<open>Scheduler\<close> (\<open>common/fiber.*\<close>, \<open>common/scheduler.*\<close>): the
    steps of worker threads as transitions that can interleave, where a yield is the two steps the functions of
    \<open>Fiber\<close> consist of, the change of the state (\<open>yield_mark\<close>) and the switch (\<open>swapOut\<close>); \<open>IOManager\<close>
    (\<open>common/iomanager.*\<close>).
  \<^item> \<open>FdManager\<close>, \<open>Hook\<close> (\<open>common/fd_manager.*\<close>, \<open>common/hook.*\<close>): the replaced system calls over a
    scripted kernel; a call that has to wait on a thread without an \<open>IOManager\<close> dereferences null, and \<open>close\<close>
    cancels the events of the descriptor in the \<open>IOManager\<close> of the thread.
  \<^item> \<open>Address\<close>, \<open>Socket\<close>, \<open>Stream\<close>, \<open>TcpServer\<close> (\<open>net/*\<close>, \<open>common/stream.*\<close>).
  \<^item> \<open>Ragel\<close>: the execution scheme of the generated \<open>goto\<close> machines: a transition function, the actions,
    and \<open>fbreak\<close>; the locale \<open>certified_machine\<close> turns a certificate of the table into a safety invariant of
    every run.
  \<^item> \<open>Http11_Table\<close>, \<open>Http11_Phases\<close>, \<open>Http11_Parser\<close>, \<open>Http11_Safety\<close>, \<open>Http11_Runs\<close>
    (\<open>http/http11_parser.rl.cc\<close>): the request machine, every state of it, the certificate that its actions
    come in order, its safety on every input, and its runs over well-formed requests.
    \<open>HttpClient_Table\<close>, \<open>HttpClient_Phases\<close>, \<open>HttpClient_Parser\<close>, \<open>HttpClient_Runs\<close>
    (\<open>http/httpclient_parser.rl.cc\<close>): the same for the response machine.
  \<^item> \<open>Http\<close> (\<open>http/http.*\<close>): messages and their text. \<open>HttpParser\<close>, \<open>HttpResponseParser\<close>
    (\<open>http/http_parser.*\<close>): the parser objects. \<open>Http_Exchange\<close>: printing and parsing compose.
    \<open>CLib\<close>: \<open>strtol\<close> as the response parser calls it.
    \<open>UriQuery\<close> (\<open>http/uri_query.*\<close>). \<open>HttpSession\<close>, \<open>Servlet\<close>, \<open>HttpServer\<close> (the files of these names).
  \<^item> \<open>Uri_Table\<close>, \<open>Uri\<close>, \<open>Uri_Runs\<close>, \<open>Uri_Spec\<close> (\<open>http/uri.*\<close>): the generated URI machine, the class, its
    runs over well-formed texts, and what \<open>Create\<close> makes of them.
  \<^item> \<open>HttpConnection\<close>, \<open>HttpChunks\<close>, \<open>HttpRequester\<close>, \<open>HttpPool\<close> (\<open>http/http_connection.*\<close>): receiving a
    response, by its length or in chunks; \<open>DoRequest\<close> from a URL to its result, which calls the models of URI,
    address lookup, socket, stream and parser; and the connection pool, whose operations are the steps of a
    relation over its state and the lent connections.

  \<^bold>\<open>State and operations.\<close> A class is a record, an object that is shared through pointers lives in a heap (a
  map from addresses), and a method is a function from the state to the new state and the result. A raise, a
  failed assertion, an access outside memory and a signed overflow are values of \<open>outcome\<close>. A section under a lock is one step;
  where threads interleave, the steps are separate functions and the theorems quantify over their sequences.
  Integers that can wrap are words, or naturals with the wrap-around written out (\<open>size_add\<close>, \<open>size_sub\<close>,
  \<open>to_int\<close>).

  \<^bold>\<open>Parameters.\<close> The kernel's answers, the clock, addresses of new objects, the contents of fresh memory,
  \<open>getaddrinfo\<close> and its relatives, \<open>fnmatch\<close>, \<open>boost::lexical_cast\<close> and the byte order of the host are
  arguments, as is what the allocator grants a string that is resized to a length read from the data. What a theorem needs of them is a premise of the theorem.

  \<^bold>\<open>Lemma groups.\<close> For each component: a well-formedness invariant and that every operation preserves it; what
  each operation does on each branch; refinement of an abstract specification (byte sequence, pending timers,
  registrations of servlets, association by key); round trips (integers, strings, URL encoding, addresses,
  messages); bounds of every access of the generated parsers; and the composition: a printed request reaches
  the servlet the dispatcher routes it to, the printed response goes back, and the client that asked for it gets
  it as its result. Where the code does not do what it means to, the theorem states what it does: a chunk split
  over two reads (\<open>split_chunk_corrupted\<close>), two chunks in one read (\<open>two_chunks_in_one_read_dropped\<close>), the age of a
  pooled connection (\<open>pool_age_without_effect\<close>).

  \<^bold>\<open>Fuel.\<close> The loops over reads and writes take one unit of fuel per system call. The theorems ask for more
  fuel than there are bytes to transfer, which is enough because every call that continues the loop moves at
  least one byte; \<open>None\<close> is the result of running out, so a theorem with \<open>Some\<close> says that the loop ends. The
  machines of the generated parsers terminate on the length of the data.

  \<^bold>\<open>Not modelled.\<close> Logging, configuration through YAML, the pthread wrappers, file system utilities, the MySQL
  binding, the tests and example programs. Log output of the modelled functions is left out.
\<close>

end
